(* ===== verification/FL_Prelude.thy ===== *)
theory FL_Prelude
  imports Main "HOL-Library.List_Lexorder" "HOL-Library.Char_ord" "HOL-Library.Word"
begin

text \<open>
  What the component theories share: the widths of the program's integers with their saturating,
  checked and wrapping operations, Rust's \<open>Ordering\<close>, \<open>max_by\<close> and \<open>position\<close>,
  the ordered map of the standard library (\<open>BTreeMap\<close>) as a key-sorted association list, and
  the locale of an event-driven component with an invariant, which every stateful component of the
  development interprets on its own step function.

  A machine integer is a natural number below its bound. An operation that can leave the range says
  what the source does there: \<open>sat_add\<close> stops at the bound, \<open>checked_add\<close> returns
  \<open>None\<close>, \<open>wrapping_add\<close> reduces modulo the width. Subtraction of naturals stops at
  zero, as \<open>saturating_sub\<close> does. Instants and durations are naturals (nanoseconds or
  milliseconds, as a component says); \<open>Instant::elapsed\<close> saturates at zero, as natural
  subtraction does.
\<close>

named_theorems fl_defs \<open>definitions that component proofs unfold\<close>
named_theorems fl_inv \<open>invariant preservation facts\<close>

section \<open>Machine integers\<close>

type_synonym instant = nat
type_synonym duration = nat

definition u8_max :: nat where "u8_max = 255"
definition u32_max :: nat where "u32_max = 4294967295"
definition u64_max :: nat where "u64_max = 18446744073709551615"
definition usize_max :: nat where "usize_max = u64_max"

definition sat_add :: "nat \<Rightarrow> nat \<Rightarrow> nat \<Rightarrow> nat" where
  "sat_add bound a b = min bound (a + b)"

definition sat_mul :: "nat \<Rightarrow> nat \<Rightarrow> nat \<Rightarrow> nat" where
  "sat_mul bound a b = min bound (a * b)"

definition checked_add :: "nat \<Rightarrow> nat \<Rightarrow> nat \<Rightarrow> nat option" where
  "checked_add bound a b = (if a + b \<le> bound then Some (a + b) else None)"

definition wrapping_add :: "nat \<Rightarrow> nat \<Rightarrow> nat \<Rightarrow> nat" where
  "wrapping_add bound a b = (a + b) mod (bound + 1)"

definition wrapping_sub :: "nat \<Rightarrow> nat \<Rightarrow> nat \<Rightarrow> nat" where
  "wrapping_sub bound a b = (if b \<le> a then a - b else bound + 1 + a - b)"

definition div_ceil :: "nat \<Rightarrow> nat \<Rightarrow> nat" where
  "div_ceil a b = (if a mod b = 0 then a div b else a div b + 1)"

definition clamp :: "nat \<Rightarrow> nat \<Rightarrow> nat \<Rightarrow> nat" where
  "clamp lo hi x = (if x < lo then lo else if x > hi then hi else x)"

lemma u_bounds [simp]:
  "0 < u8_max" "0 < u32_max" "0 < u64_max" "0 < usize_max"
  "Suc 0 \<le> u8_max" "Suc 0 \<le> u32_max" "Suc 0 \<le> u64_max" "Suc 0 \<le> usize_max"
  by (simp_all add: u8_max_def u32_max_def u64_max_def usize_max_def)

lemma sat_add_le [simp]: "sat_add bound a b \<le> bound"
  by (simp add: sat_add_def)

lemma sat_add_exact: "a + b \<le> bound \<Longrightarrow> sat_add bound a b = a + b"
  by (simp add: sat_add_def)

lemma sat_add_below: "sat_add bound a b < bound \<Longrightarrow> sat_add bound a b = a + b"
  by (simp add: sat_add_def min_def split: if_splits)

lemma sat_add_mono: "a \<le> bound \<Longrightarrow> a \<le> sat_add bound a b"
  by (simp add: sat_add_def)

lemma checked_add_Some [simp]:
  "checked_add bound a b = Some c \<longleftrightarrow> a + b \<le> bound \<and> c = a + b"
  by (auto simp: checked_add_def)

lemma checked_add_None [simp]: "checked_add bound a b = None \<longleftrightarrow> bound < a + b"
  by (auto simp: checked_add_def)

lemma clamp_bounds: "lo \<le> hi \<Longrightarrow> lo \<le> clamp lo hi x \<and> clamp lo hi x \<le> hi"
  by (simp add: clamp_def)

lemma clamp_id: "lo \<le> x \<Longrightarrow> x \<le> hi \<Longrightarrow> clamp lo hi x = x"
  by (simp add: clamp_def)

lemma div_ceil_bound: "0 < b \<Longrightarrow> a \<le> b * div_ceil a b"
proof (cases "a mod b = 0")
  case True
  have "b * (a div b) + a mod b = a" by (rule mult_div_mod_eq)
  with True show ?thesis by (simp add: div_ceil_def)
next
  case False
  assume b: "0 < b"
  have split: "b * (a div b) + a mod b = a" by (rule mult_div_mod_eq)
  have "b * (a div b + 1) = b * (a div b) + b" by simp
  moreover have "a mod b < b" using b by simp
  ultimately show ?thesis using False split unfolding div_ceil_def if_not_P [OF False] by linarith
qed

lemma div_ceil_tight: "0 < b \<Longrightarrow> b * div_ceil a b < a + b"
proof (cases "a mod b = 0")
  case True
  assume b: "0 < b"
  have "b * (a div b) + a mod b = a" by (rule mult_div_mod_eq)
  with True b show ?thesis by (simp add: div_ceil_def)
next
  case False
  have split: "b * (a div b) + a mod b = a" by (rule mult_div_mod_eq)
  have "b * (a div b + 1) = b * (a div b) + b" by simp
  then show ?thesis using False split unfolding div_ceil_def if_not_P [OF False] by linarith
qed

section \<open>Ordering, selection and search\<close>

datatype ordering = Less | Equal | Greater

fun then_with :: "ordering \<Rightarrow> ordering \<Rightarrow> ordering" where
  "then_with Equal r = r"
| "then_with r _ = r"

definition cmp :: "'a::linorder \<Rightarrow> 'a \<Rightarrow> ordering" where
  "cmp a b = (if a < b then Less else if a = b then Equal else Greater)"

lemma cmp_simps [simp]:
  "cmp a b = Less \<longleftrightarrow> a < b" "cmp a b = Equal \<longleftrightarrow> a = b" "cmp a b = Greater \<longleftrightarrow> b < a"
  by (auto simp: cmp_def)

lemma cmp_refl [simp]: "cmp a a = Equal"
  by simp

lemma then_with_simps [simp]:
  "then_with a b = Equal \<longleftrightarrow> a = Equal \<and> b = Equal"
  "then_with a b = Greater \<longleftrightarrow> a = Greater \<or> (a = Equal \<and> b = Greater)"
  "then_with a b = Less \<longleftrightarrow> a = Less \<or> (a = Equal \<and> b = Less)"
  by (cases a; simp)+

text \<open>
  \<open>Iterator::max_by\<close> keeps the last of equal maxima, \<open>Iterator::min_by_key\<close> the first of
  equal minima.
\<close>

definition max_step :: "('a \<Rightarrow> 'a \<Rightarrow> ordering) \<Rightarrow> 'a \<Rightarrow> 'a \<Rightarrow> 'a" where
  "max_step c y best = (if c best y = Greater then best else y)"

definition min_step :: "('a \<Rightarrow> 'b::linorder) \<Rightarrow> 'a \<Rightarrow> 'a \<Rightarrow> 'a" where
  "min_step f y best = (if f y < f best then y else best)"

fun max_by :: "('a \<Rightarrow> 'a \<Rightarrow> ordering) \<Rightarrow> 'a list \<Rightarrow> 'a option" where
  "max_by c [] = None"
| "max_by c (x # xs) = Some (fold (max_step c) xs x)"

fun min_by_key :: "('a \<Rightarrow> 'b::linorder) \<Rightarrow> 'a list \<Rightarrow> 'a option" where
  "min_by_key f [] = None"
| "min_by_key f (x # xs) = Some (fold (min_step f) xs x)"

text \<open>\<open>Iterator::position\<close>.\<close>

fun position :: "('a \<Rightarrow> bool) \<Rightarrow> 'a list \<Rightarrow> nat option" where
  "position P [] = None"
| "position P (x # xs) = (if P x then Some 0 else map_option Suc (position P xs))"

lemma position_Some:
  "position P xs = Some i \<longleftrightarrow> i < length xs \<and> P (xs ! i) \<and> (\<forall>j < i. \<not> P (xs ! j))"
proof (induction xs arbitrary: i)
  case Nil
  then show ?case by simp
next
  case (Cons x xs)
  show ?case
  proof (cases i)
    case 0
    then show ?thesis by auto
  next
    case (Suc k)
    then show ?thesis using Cons.IH [of k] by (auto simp: All_less_Suc2)
  qed
qed

lemma position_SomeD: "position P xs = Some i \<Longrightarrow> xs ! i \<in> set xs \<and> P (xs ! i)"
  by (simp add: position_Some)

lemma position_None: "position P xs = None \<longleftrightarrow> (\<forall>x \<in> set xs. \<not> P x)"
  by (induction xs) auto

lemma position_exists: "x \<in> set xs \<Longrightarrow> P x \<Longrightarrow> \<exists>i. position P xs = Some i"
  using position_None [of P xs] by fastforce

lemma fold_choose_in:
  "(\<And>a b. f a b = a \<or> f a b = b) \<Longrightarrow> fold f xs x \<in> insert x (set xs)"
proof (induction xs arbitrary: x)
  case Nil
  then show ?case by simp
next
  case (Cons y ys)
  have "fold f ys (f y x) \<in> insert (f y x) (set ys)" using Cons by blast
  moreover have "f y x = y \<or> f y x = x" using Cons.prems by blast
  ultimately show ?case by auto
qed

lemma max_by_in: "max_by c xs = Some m \<Longrightarrow> m \<in> set xs"
proof (cases xs)
  case (Cons y ys)
  assume "max_by c xs = Some m"
  then show ?thesis
    using Cons fold_choose_in [of "max_step c" ys y] by (auto simp: max_step_def)
qed simp

lemma max_by_None [simp]: "max_by c xs = None \<longleftrightarrow> xs = []"
  by (cases xs) auto

lemma min_by_key_in: "min_by_key f xs = Some m \<Longrightarrow> m \<in> set xs"
proof (cases xs)
  case (Cons y ys)
  assume "min_by_key f xs = Some m"
  then show ?thesis
    using Cons fold_choose_in [of "min_step f" ys y] by (auto simp: min_step_def)
qed simp

lemma min_by_key_None [simp]: "min_by_key f xs = None \<longleftrightarrow> xs = []"
  by (cases xs) auto

lemma min_step_le: "f (min_step f y b) \<le> f y" "f (min_step f y b) \<le> f b"
  by (auto simp: min_step_def)

lemma min_fold_le:
  "f (fold (min_step f) xs x) \<le> f x \<and> (\<forall>y \<in> set xs. f (fold (min_step f) xs x) \<le> f y)"
proof (induction xs arbitrary: x)
  case Nil
  then show ?case by simp
next
  case (Cons a xs)
  have IH: "f (fold (min_step f) xs (min_step f a x)) \<le> f (min_step f a x)"
    "\<forall>y \<in> set xs. f (fold (min_step f) xs (min_step f a x)) \<le> f y"
    using Cons.IH by blast+
  have "f (fold (min_step f) xs (min_step f a x)) \<le> f a"
    using IH(1) min_step_le(1) by (rule order_trans)
  moreover have "f (fold (min_step f) xs (min_step f a x)) \<le> f x"
    using IH(1) min_step_le(2) by (rule order_trans)
  ultimately show ?case using IH(2) by simp
qed

lemma min_by_key_le: "min_by_key f xs = Some m \<Longrightarrow> y \<in> set xs \<Longrightarrow> f m \<le> f y"
  using min_fold_le [of f "tl xs" "hd xs"] by (cases xs) auto

text \<open>Under a comparison that is a total preorder, \<open>max_by\<close> returns a greatest element.\<close>

definition total_cmp :: "('a \<Rightarrow> 'a \<Rightarrow> ordering) \<Rightarrow> bool" where
  "total_cmp c \<longleftrightarrow> (\<forall>a b. c a b = Greater \<longleftrightarrow> c b a = Less) \<and>
    (\<forall>a b d. c a b \<noteq> Greater \<longrightarrow> c b d \<noteq> Greater \<longrightarrow> c a d \<noteq> Greater)"

lemma total_cmpD:
  "total_cmp c \<Longrightarrow> c a b = Greater \<longleftrightarrow> c b a = Less"
  "total_cmp c \<Longrightarrow> c a b \<noteq> Greater \<Longrightarrow> c b d \<noteq> Greater \<Longrightarrow> c a d \<noteq> Greater"
  "total_cmp c \<Longrightarrow> c a a \<noteq> Greater"
  unfolding total_cmp_def by (metis ordering.distinct)+

lemma max_step_ge:
  assumes "total_cmp c"
  shows "c y (max_step c y b) \<noteq> Greater" "c b (max_step c y b) \<noteq> Greater"
proof -
  have flip: "c b y = Greater \<Longrightarrow> c y b = Less"
    using total_cmpD(1) [OF assms, of b y] by simp
  show "c y (max_step c y b) \<noteq> Greater"
    using flip total_cmpD(3) [OF assms, of y] by (simp add: max_step_def)
  show "c b (max_step c y b) \<noteq> Greater"
    using total_cmpD(3) [OF assms, of b] by (simp add: max_step_def)
qed

lemma max_fold_greatest:
  assumes c: "total_cmp c"
  shows "c x (fold (max_step c) xs x) \<noteq> Greater \<and>
    (\<forall>z \<in> set xs. c z (fold (max_step c) xs x) \<noteq> Greater)"
proof (induction xs arbitrary: x)
  case Nil
  then show ?case using total_cmpD(3) [OF c] by simp
next
  case (Cons y ys)
  let ?b = "max_step c y x"
  have IH: "c ?b (fold (max_step c) ys ?b) \<noteq> Greater"
    "\<forall>z \<in> set ys. c z (fold (max_step c) ys ?b) \<noteq> Greater"
    using Cons.IH by blast+
  have "c y (fold (max_step c) ys ?b) \<noteq> Greater"
    using total_cmpD(2) [OF c max_step_ge(1) [OF c] IH(1)] .
  moreover have "c x (fold (max_step c) ys ?b) \<noteq> Greater"
    using total_cmpD(2) [OF c max_step_ge(2) [OF c] IH(1)] .
  ultimately show ?case using IH(2) by simp
qed

lemma max_by_greatest:
  "total_cmp c \<Longrightarrow> max_by c xs = Some m \<Longrightarrow> z \<in> set xs \<Longrightarrow> c z m \<noteq> Greater"
  using max_fold_greatest [of c "hd xs" "tl xs"] by (cases xs) auto

text \<open>\<open>Vec::remove\<close>.\<close>

definition remove_at :: "nat \<Rightarrow> 'a list \<Rightarrow> 'a list" where
  "remove_at i xs = take i xs @ drop (Suc i) xs"

lemma remove_at_set: "set (remove_at i xs) \<subseteq> set xs"
  using set_take_subset [of i xs] set_drop_subset [of "Suc i" xs] by (auto simp: remove_at_def)

lemma remove_at_map: "map f (remove_at i xs) = remove_at i (map f xs)"
  by (simp add: remove_at_def take_map drop_map)

lemma remove_at_distinct: "distinct xs \<Longrightarrow> distinct (remove_at i xs)"
  using set_take_disj_set_drop_if_distinct [of xs i "Suc i"] by (simp add: remove_at_def)

lemma remove_at_nth: "j < length xs \<Longrightarrow> j \<noteq> i \<Longrightarrow> xs ! j \<in> set (remove_at i xs)"
proof (induction xs arbitrary: i j)
  case Nil
  then show ?case by simp
next
  case (Cons a xs)
  then show ?case by (cases i; cases j) (auto simp: remove_at_def)
qed

lemma sum_list_remove_at: "i < length xs \<Longrightarrow> xs ! i + sum_list (remove_at i xs) = sum_list xs" for xs :: "nat list"
proof (induction xs arbitrary: i)
  case (Cons x xs)
  then show ?case by (cases i) (auto simp: remove_at_def)
qed simp

lemma sum_list_update_nat: "i < length xs \<Longrightarrow> xs ! i + sum_list (xs[i := y]) = sum_list xs + y" for xs :: "nat list"
proof (induction xs arbitrary: i)
  case (Cons x xs)
  then show ?case by (cases i) auto
qed simp

lemma remove_at_filter:
  "distinct ts \<Longrightarrow> i < length ts \<Longrightarrow> remove_at i ts = filter (\<lambda>x. x \<noteq> ts ! i) ts"
proof (induction ts arbitrary: i)
  case Nil
  then show ?case by simp
next
  case (Cons a ts)
  show ?case
  proof (cases i)
    case 0
    have "filter (\<lambda>x. x \<noteq> a) ts = ts" using Cons.prems by (intro filter_True) auto
    then show ?thesis using 0 by (simp add: remove_at_def)
  next
    case (Suc j)
    have "a \<noteq> ts ! j" using Cons.prems Suc by auto
    then show ?thesis using Cons Suc by (simp add: remove_at_def)
  qed
qed

section \<open>Ordered maps\<close>

type_synonym ('k, 'v) btree = "('k \<times> 'v) list"

definition bt_wf :: "('k::linorder, 'v) btree \<Rightarrow> bool" where
  "bt_wf m = sorted_wrt (<) (map fst m)"

abbreviation bt_get :: "('k, 'v) btree \<Rightarrow> 'k \<Rightarrow> 'v option" where
  "bt_get m k \<equiv> map_of m k"

fun bt_put :: "'k::linorder \<Rightarrow> 'v \<Rightarrow> ('k, 'v) btree \<Rightarrow> ('k, 'v) btree" where
  "bt_put k v [] = [(k, v)]"
| "bt_put k v (p # m) =
     (case cmp k (fst p) of
        Less \<Rightarrow> (k, v) # p # m
      | Equal \<Rightarrow> (k, v) # m
      | Greater \<Rightarrow> p # bt_put k v m)"

definition bt_del :: "'k \<Rightarrow> ('k, 'v) btree \<Rightarrow> ('k, 'v) btree" where
  "bt_del k m = filter (\<lambda>p. fst p \<noteq> k) m"

definition bt_retain :: "('k \<Rightarrow> 'v \<Rightarrow> bool) \<Rightarrow> ('k, 'v) btree \<Rightarrow> ('k, 'v) btree" where
  "bt_retain P m = filter (\<lambda>p. P (fst p) (snd p)) m"

abbreviation bt_values :: "('k, 'v) btree \<Rightarrow> 'v list" where
  "bt_values m \<equiv> map snd m"

lemma bt_wf_simps [simp]:
  "bt_wf []" "bt_wf (p # m) \<longleftrightarrow> (\<forall>q \<in> set m. fst p < fst q) \<and> bt_wf m"
  by (auto simp: bt_wf_def)

lemma bt_wf_filter: "bt_wf m \<Longrightarrow> bt_wf (filter P m)"
  by (induction m) auto

lemma bt_wf_del [simp, intro]: "bt_wf m \<Longrightarrow> bt_wf (bt_del k m)"
  by (simp add: bt_del_def bt_wf_filter)

lemma bt_wf_retain [simp, intro]: "bt_wf m \<Longrightarrow> bt_wf (bt_retain P m)"
  by (simp add: bt_retain_def bt_wf_filter)

lemma bt_keys_put: "set (map fst (bt_put k v m)) = insert k (set (map fst m))"
  by (induction m) (auto split: ordering.splits)

lemma bt_wf_put [simp, intro]: "bt_wf m \<Longrightarrow> bt_wf (bt_put k v m)"
proof (induction m)
  case Nil
  then show ?case by simp
next
  case (Cons p m)
  have keys: "q \<in> set (bt_put k v m) \<Longrightarrow> fst q = k \<or> fst q \<in> fst ` set m" for q
    using bt_keys_put [of k v m] by (metis image_eqI insert_iff list.set_map)
  show ?case using Cons keys by (fastforce split: ordering.splits)
qed

lemma bt_get_put [simp]: "bt_get (bt_put k v m) = (bt_get m)(k \<mapsto> v)"
  by (induction m) (auto simp: fun_eq_iff split: ordering.splits)

lemma bt_get_del [simp]: "bt_get (bt_del k m) = (bt_get m)(k := None)"
  by (induction m) (auto simp: bt_del_def fun_eq_iff)

lemma bt_wf_distinct: "bt_wf m \<Longrightarrow> distinct (map fst m)"
  by (induction m) force+

lemma bt_get_retain:
  "bt_wf m \<Longrightarrow> bt_get (bt_retain P m) k =
    (case bt_get m k of None \<Rightarrow> None | Some v \<Rightarrow> if P k v then Some v else None)"
proof (induction m)
  case Nil
  then show ?case by (simp add: bt_retain_def)
next
  case (Cons p m)
  obtain a b where p: "p = (a, b)" by force
  show ?case
  proof (cases "a = k")
    case True
    have "bt_get m k = None"
      using Cons.prems p True by (auto simp: map_of_eq_None_iff)
    then show ?thesis using Cons p True by (auto simp: bt_retain_def)
  next
    case False
    then show ?thesis using Cons p by (auto simp: bt_retain_def)
  qed
qed

lemma bt_get_in: "bt_get m k = Some v \<Longrightarrow> (k, v) \<in> set m"
  by (rule map_of_SomeD)

lemma bt_in_get: "bt_wf m \<Longrightarrow> (k, v) \<in> set m \<Longrightarrow> bt_get m k = Some v"
  by (simp add: bt_wf_distinct)

lemma bt_set_put: "set (bt_put k v m) \<subseteq> insert (k, v) (set m)"
  by (induction m) (auto split: ordering.splits)

lemma bt_length_put:
  "bt_wf m \<Longrightarrow> length (bt_put k v m) = (if bt_get m k = None then Suc (length m) else length m)"
proof (induction m)
  case Nil
  then show ?case by simp
next
  case (Cons p m)
  have "k < fst p \<Longrightarrow> bt_get m k = None"
    using Cons.prems by (auto simp: map_of_eq_None_iff)
  then show ?case using Cons by (auto split: ordering.splits)
qed

lemma bt_length_del: "length (bt_del k m) \<le> length m"
  by (simp add: bt_del_def)

lemma bt_length_retain: "length (bt_retain P m) \<le> length m"
  by (simp add: bt_retain_def)

lemma bt_length_del_present:
  "bt_wf m \<Longrightarrow> bt_get m k \<noteq> None \<Longrightarrow> Suc (length (bt_del k m)) = length m"
proof (induction m)
  case Nil
  then show ?case by simp
next
  case (Cons p m)
  show ?case
  proof (cases "fst p = k")
    case True
    then have "filter (\<lambda>q. fst q \<noteq> k) m = m"
      using Cons.prems by (intro filter_True) auto
    then show ?thesis using True by (simp add: bt_del_def)
  next
    case False
    then show ?thesis using Cons by (cases p) (auto simp: bt_del_def)
  qed
qed

lemma sum_list_bt_put:
  "bt_wf m \<Longrightarrow> (\<Sum>p \<leftarrow> bt_put k v m. f (snd p)) =
    (\<Sum>p \<leftarrow> m. f (snd p)) - (case bt_get m k of None \<Rightarrow> 0 | Some w \<Rightarrow> f w) + (f v :: nat)"
proof (induction m)
  case Nil
  then show ?case by simp
next
  case (Cons p m)
  obtain a b where p: "p = (a, b)" by force
  have le: "bt_get m k = Some w \<Longrightarrow> f w \<le> (\<Sum>p \<leftarrow> m. f (snd p))" for w
    using member_le_sum_list [of "f w" "map (f \<circ> snd) m"] bt_get_in [of m k w]
    by (force simp: comp_def)
  have none: "k < a \<Longrightarrow> bt_get m k = None"
    using Cons.prems p by (auto simp: map_of_eq_None_iff)
  have ih: "(\<Sum>p \<leftarrow> bt_put k v m. f (snd p)) =
    (\<Sum>p \<leftarrow> m. f (snd p)) - (case bt_get m k of None \<Rightarrow> 0 | Some w \<Rightarrow> f w) + f v"
    using Cons by simp
  have lt: "a < k \<Longrightarrow> (\<Sum>p \<leftarrow> bt_put k v (p # m). f (snd p)) = f b + (\<Sum>p \<leftarrow> bt_put k v m. f (snd p))"
    using p by (auto simp: cmp_def)
  show ?case
  proof (cases k a rule: linorder_cases)
    case less
    then show ?thesis using p none by (auto simp: cmp_def)
  next
    case equal
    then show ?thesis using p by (simp add: cmp_def)
  next
    case greater
    then show ?thesis
      using lt ih le p by (cases "bt_get m k") (auto simp: add.commute add.left_commute)
  qed
qed

lemma sum_list_filter_le: "(\<Sum>p \<leftarrow> filter P m. f p) \<le> (\<Sum>p \<leftarrow> m. (f p :: nat))"
  by (induction m) auto

section \<open>Fallible code\<close>

text \<open>The \<open>?\<close> operator on a \<open>Result\<close>, and the test that makes one.\<close>

fun and_then :: "'e + 'a \<Rightarrow> ('a \<Rightarrow> 'e + 'b) \<Rightarrow> 'e + 'b" where
  "and_then (Inl e) f = Inl e"
| "and_then (Inr x) f = f x"

definition ensure :: "bool \<Rightarrow> 'e \<Rightarrow> 'e + unit" where
  "ensure b e = (if b then Inr () else Inl e)"

lemma and_then_Inr: "and_then r f = Inr y \<longleftrightarrow> (\<exists>x. r = Inr x \<and> f x = Inr y)"
  by (cases r) auto

lemma and_then_Inl: "and_then r f = Inl e \<longleftrightarrow> r = Inl e \<or> (\<exists>x. r = Inr x \<and> f x = Inl e)"
  by (cases r) auto

lemma ensure_eval [simp]: "ensure True e = Inr ()" "ensure False e = Inl e"
  by (simp_all add: ensure_def)

lemma ensure_simps [simp]:
  "ensure b e = Inr u \<longleftrightarrow> b" "ensure b e = Inl d \<longleftrightarrow> \<not> b \<and> d = e"
  by (auto simp: ensure_def)

section \<open>Event-driven components\<close>

text \<open>
  A component with state is a step function over events. Its safety properties are an invariant
  that every step on an admissible event keeps; the runs of the component then keep it too. The
  component theories interpret this locale on their own step functions and invariants.
\<close>

locale invariant_system =
  fixes step :: "'s \<Rightarrow> 'e \<Rightarrow> 's"
    and ok :: "'e \<Rightarrow> bool"
    and inv :: "'s \<Rightarrow> bool"
  assumes step_inv: "inv s \<Longrightarrow> ok e \<Longrightarrow> inv (step s e)"
begin

lemma run_inv: "inv s \<Longrightarrow> list_all ok es \<Longrightarrow> inv (foldl step s es)"
  by (induction es arbitrary: s) (auto intro: step_inv)

end

text \<open>
  A monotone observation of such a component: a counter that no step decreases (an admission total,
  a revision, a request number) never decreases along a run.
\<close>

locale monotone_system = invariant_system step ok inv
  for step :: "'s \<Rightarrow> 'e \<Rightarrow> 's" and ok :: "'e \<Rightarrow> bool" and inv :: "'s \<Rightarrow> bool" +
  fixes obs :: "'s \<Rightarrow> nat"
  assumes step_mono: "inv s \<Longrightarrow> ok e \<Longrightarrow> obs s \<le> obs (step s e)"
begin

lemma run_mono: "inv s \<Longrightarrow> list_all ok es \<Longrightarrow> obs s \<le> obs (foldl step s es)"
proof (induction es arbitrary: s)
  case Nil
  then show ?case by simp
next
  case (Cons e es)
  have "obs s \<le> obs (step s e)" using Cons.prems step_mono by simp
  also have "\<dots> \<le> obs (foldl step (step s e) es)"
    using Cons.IH [of "step s e"] Cons.prems step_inv [of s e] by simp
  finally show ?case by simp
qed

end

end
