(* ===== verification/Admission.thy ===== *)
theory Admission
  imports FL_Prelude
begin

text \<open>
  The weighted admission pool of managed tasks (\<open>platform/admission.rs\<close>): capacity in units,
  a bounded queue of waiters, 3:2:1 weighted round robin over the priority classes with backfill of
  spare capacity, and the reservation that ends backfill once a waiter has been passed six times.
  The state is the record \<open>adm\<close> (\<open>AdmissionState\<close>); every critical section the code runs
  under the pool's lock is one definition. The system around the pool (tickets, permits,
  cancellation, interleavings) is the theory \<open>Admission_Run\<close>.
\<close>

section \<open>State\<close>

datatype priority = Interactive | Normal | Background

record waiter =
  w_ticket :: nat
  w_cost :: nat
  w_priority :: priority
  w_enqueued_at :: instant
  w_bypasses :: nat

record adm =
  adm_active :: nat
  adm_limit :: nat
  adm_ceiling :: nat
  adm_max_waiters :: nat
  adm_next_ticket :: nat
  adm_waiting :: "waiter list"
  adm_resource_waiting :: "(nat \<times> instant) list"
  adm_credits :: "nat list"
  adm_granted :: "nat option"
  adm_in_flight :: nat
  adm_admitted :: nat
  adm_released :: nat
  adm_policy_epoch :: nat
  adm_queue_full_rejections :: nat
  adm_queue_timeouts :: nat
  adm_queue_cancellations :: nat
  adm_transition_timeouts :: nat

datatype adm_failure = QueueFull | TimedOut

definition PRIORITY_WEIGHTS :: "nat list" where
  "PRIORITY_WEIGHTS = [3, 2, 1]"

definition MAX_CAPACITY_BYPASSES :: nat where
  "MAX_CAPACITY_BYPASSES = 6"

fun priority_index :: "priority \<Rightarrow> nat" where
  "priority_index Interactive = 0"
| "priority_index Normal = 1"
| "priority_index Background = 2"

definition queue_depth :: "adm \<Rightarrow> nat" where
  "queue_depth s = length (adm_waiting s) + length (adm_resource_waiting s)"

definition free :: "adm \<Rightarrow> nat" where
  "free s = adm_limit s - adm_active s"

definition charge :: "adm \<Rightarrow> nat \<Rightarrow> nat" where
  "charge s cost = max (min cost (adm_limit s)) 1"

section \<open>Configuration\<close>

definition adm_new :: "nat \<Rightarrow> nat \<Rightarrow> adm" where
  "adm_new slots max_waiters = \<lparr>
     adm_active = 0, adm_limit = max slots 1, adm_ceiling = max slots 1,
     adm_max_waiters = max max_waiters 1, adm_next_ticket = 0, adm_waiting = [],
     adm_resource_waiting = [], adm_credits = PRIORITY_WEIGHTS, adm_granted = None,
     adm_in_flight = 0, adm_admitted = 0, adm_released = 0, adm_policy_epoch = 0,
     adm_queue_full_rejections = 0, adm_queue_timeouts = 0, adm_queue_cancellations = 0,
     adm_transition_timeouts = 0\<rparr>"

definition set_ceiling :: "nat \<Rightarrow> adm \<Rightarrow> adm" where
  "set_ceiling ceiling s =
     (let ceiling = max ceiling 1;
          limit = (if adm_ceiling s \<le> adm_limit s \<or> ceiling < adm_limit s then ceiling
                   else adm_limit s);
          s' = s\<lparr>adm_limit := limit, adm_ceiling := ceiling\<rparr>
      in if (adm_limit s, adm_ceiling s) \<noteq> (adm_limit s', adm_ceiling s')
         then s'\<lparr>adm_policy_epoch := wrapping_add u64_max (adm_policy_epoch s') 1\<rparr>
         else s')"

definition set_limit :: "nat \<Rightarrow> adm \<Rightarrow> nat \<times> adm" where
  "set_limit limit s =
     (let next = clamp 1 (adm_ceiling s) limit;
          s' = (if next \<noteq> adm_limit s
                then s\<lparr>adm_policy_epoch := wrapping_add u64_max (adm_policy_epoch s) 1,
                       adm_limit := next\<rparr>
                else s)
      in (adm_limit s', s'))"

definition set_max_waiters :: "nat \<Rightarrow> adm \<Rightarrow> adm" where
  "set_max_waiters n s = s\<lparr>adm_max_waiters := max n 1\<rparr>"

definition available :: "adm \<Rightarrow> nat" where
  "available s = free s"

definition record_transition_timeout :: "adm \<Rightarrow> adm" where
  "record_transition_timeout s =
     s\<lparr>adm_transition_timeouts := sat_add u64_max (adm_transition_timeouts s) 1\<rparr>"

section \<open>Queueing\<close>

text \<open>
  \<open>acquire\<close>, the part under its first lock: refuse a passed deadline or a full queue, otherwise
  take a ticket and enter the queue.
\<close>

definition adm_enqueue ::
    "nat \<Rightarrow> priority \<Rightarrow> instant \<Rightarrow> instant \<Rightarrow> adm \<Rightarrow> (adm_failure + nat) \<times> adm" where
  "adm_enqueue cost priority now deadline s =
     (if deadline \<le> now
      then (Inl TimedOut, s\<lparr>adm_queue_timeouts := sat_add u64_max (adm_queue_timeouts s) 1\<rparr>)
      else if adm_max_waiters s \<le> queue_depth s
      then (Inl QueueFull,
            s\<lparr>adm_queue_full_rejections := sat_add u64_max (adm_queue_full_rejections s) 1\<rparr>)
      else (Inr (adm_next_ticket s),
            s\<lparr>adm_next_ticket := wrapping_add u64_max (adm_next_ticket s) 1,
              adm_waiting := adm_waiting s @
                [\<lparr>w_ticket = adm_next_ticket s, w_cost = cost, w_priority = priority,
                  w_enqueued_at = now, w_bypasses = 0\<rparr>]\<rparr>))"

definition register_resource_waiter :: "instant \<Rightarrow> adm \<Rightarrow> (adm_failure + nat) \<times> adm" where
  "register_resource_waiter now s =
     (if adm_max_waiters s \<le> queue_depth s
      then (Inl QueueFull,
            s\<lparr>adm_queue_full_rejections := sat_add u64_max (adm_queue_full_rejections s) 1\<rparr>)
      else (Inr (adm_next_ticket s),
            s\<lparr>adm_next_ticket := wrapping_add u64_max (adm_next_ticket s) 1,
              adm_resource_waiting := adm_resource_waiting s @ [(adm_next_ticket s, now)]\<rparr>))"

text \<open>\<open>Drop\<close> of the three guards. The flag is \<open>count_cancellation\<close>.\<close>

definition resource_guard_drop :: "bool \<Rightarrow> nat \<Rightarrow> adm \<Rightarrow> adm" where
  "resource_guard_drop count t s =
     (let s' = s\<lparr>adm_resource_waiting := filter (\<lambda>r. fst r \<noteq> t) (adm_resource_waiting s)\<rparr>
      in if count
         then s'\<lparr>adm_queue_cancellations := sat_add u64_max (adm_queue_cancellations s') 1\<rparr>
         else s')"

definition wait_guard_drop :: "bool \<Rightarrow> nat \<Rightarrow> adm \<Rightarrow> adm" where
  "wait_guard_drop count t s =
     (let s1 = s\<lparr>adm_waiting := filter (\<lambda>w. w_ticket w \<noteq> t) (adm_waiting s)\<rparr>;
          s2 = (if adm_granted s1 = Some t then s1\<lparr>adm_granted := None\<rparr> else s1)
      in if count \<and> length (adm_waiting s2) < length (adm_waiting s)
         then s2\<lparr>adm_queue_cancellations := sat_add u64_max (adm_queue_cancellations s2) 1\<rparr>
         else s2)"

definition permit_drop :: "nat \<Rightarrow> adm \<Rightarrow> adm" where
  "permit_drop cost s =
     s\<lparr>adm_active := adm_active s - cost,
       adm_in_flight := adm_in_flight s - 1,
       adm_released := sat_add u64_max (adm_released s) 1\<rparr>"

text \<open>
  \<open>ResourceWaitGuard::acquire\<close>: the registration moves from the resource queue to the slot queue
  under one lock, and the old guard is finished without counting a cancellation.
\<close>

definition resource_to_slot :: "nat \<Rightarrow> nat \<Rightarrow> priority \<Rightarrow> instant \<Rightarrow> adm \<Rightarrow> adm" where
  "resource_to_slot t cost priority now s =
     resource_guard_drop False t
       (s\<lparr>adm_resource_waiting := filter (\<lambda>r. fst r \<noteq> t) (adm_resource_waiting s),
          adm_waiting := adm_waiting s @
            [\<lparr>w_ticket = t, w_cost = cost, w_priority = priority,
              w_enqueued_at = now, w_bypasses = 0\<rparr>]\<rparr>)"

section \<open>Selection\<close>

definition record_capacity_bypasses :: "adm \<Rightarrow> adm" where
  "record_capacity_bypasses s =
     s\<lparr>adm_waiting := map (\<lambda>w. if free s < min (w_cost w) (adm_limit s)
                              then w\<lparr>w_bypasses := sat_add u8_max (w_bypasses w) 1\<rparr> else w)
                      (adm_waiting s)\<rparr>"

definition fits :: "adm \<Rightarrow> waiter \<Rightarrow> bool" where
  "fits s w \<longleftrightarrow> charge s (w_cost w) \<le> free s"

definition starved :: "waiter \<Rightarrow> bool" where
  "starved w \<longleftrightarrow> MAX_CAPACITY_BYPASSES \<le> w_bypasses w"

text \<open>One pass over the classes: the first class with credit and a fitting waiter.\<close>

fun select_class :: "adm \<Rightarrow> nat list \<Rightarrow> (nat \<times> nat) option" where
  "select_class s [] = None"
| "select_class s (class # rest) =
     (if adm_credits s ! class = 0 then select_class s rest
      else case position (\<lambda>w. priority_index (w_priority w) = class \<and> fits s w) (adm_waiting s) of
             Some index \<Rightarrow> Some (index, class)
           | None \<Rightarrow> select_class s rest)"

definition spend_credit :: "nat \<Rightarrow> adm \<Rightarrow> adm" where
  "spend_credit class s = s\<lparr>adm_credits := (adm_credits s)[class := adm_credits s ! class - 1]\<rparr>"

definition classes :: "nat list" where
  "classes = [0, 1, 2]"

definition selected_waiter :: "adm \<Rightarrow> nat option \<times> adm" where
  "selected_waiter s =
     (case position starved (adm_waiting s) of
        Some index \<Rightarrow>
          if free s < charge s (w_cost (adm_waiting s ! index)) then (None, s)
          else (Some index,
                record_capacity_bypasses
                  (spend_credit (priority_index (w_priority (adm_waiting s ! index))) s))
      | None \<Rightarrow>
          (case select_class s classes of
             Some (index, class) \<Rightarrow> (Some index, record_capacity_bypasses (spend_credit class s))
           | None \<Rightarrow>
               (let s' = s\<lparr>adm_credits := PRIORITY_WEIGHTS\<rparr>
                in case select_class s' classes of
                     Some (index, class) \<Rightarrow>
                       (Some index, record_capacity_bypasses (spend_credit class s'))
                   | None \<Rightarrow> (None, s'))))"

section \<open>One iteration of the wait loop\<close>

datatype poll = PollTimedOut | PollAcquired nat | PollPending bool | PollPanic

text \<open>Give the next grant when none is outstanding; the flag says that this poll gave one.\<close>

definition grant_next :: "adm \<Rightarrow> adm \<times> bool" where
  "grant_next s =
     (if adm_granted s = None
      then case selected_waiter s of
             (Some index, s') \<Rightarrow> (s'\<lparr>adm_granted := Some (w_ticket (adm_waiting s' ! index))\<rparr>, True)
           | (None, s') \<Rightarrow> (s', False)
      else (s, False))"

definition claim_at :: "nat \<Rightarrow> adm \<Rightarrow> nat \<times> adm" where
  "claim_at i s =
     (let units = charge s (w_cost (adm_waiting s ! i))
      in (units,
          s\<lparr>adm_waiting := remove_at i (adm_waiting s),
            adm_active := sat_add usize_max (adm_active s) units,
            adm_in_flight := sat_add usize_max (adm_in_flight s) 1,
            adm_admitted := sat_add u64_max (adm_admitted s) 1,
            adm_granted := None\<rparr>))"

text \<open>
  The body of the loop in \<open>acquire_registered\<close> under the lock. \<open>PollPanic\<close> is the
  \<open>expect\<close> on a granted waiter that is not queued.
\<close>

definition adm_poll :: "instant \<Rightarrow> instant \<Rightarrow> nat \<Rightarrow> adm \<Rightarrow> poll \<times> adm" where
  "adm_poll now deadline t s =
     (if deadline \<le> now
      then (PollTimedOut, s\<lparr>adm_queue_timeouts := sat_add u64_max (adm_queue_timeouts s) 1\<rparr>)
      else case grant_next s of
        (s', selected) \<Rightarrow>
          if adm_granted s' = Some t
          then case position (\<lambda>w. w_ticket w = t) (adm_waiting s') of
                 None \<Rightarrow> (PollPanic, s')
               | Some i \<Rightarrow>
                   if charge s' (w_cost (adm_waiting s' ! i)) \<le> free s'
                   then (case claim_at i s' of (units, s'') \<Rightarrow> (PollAcquired units, s''))
                   else (PollPending selected, s')
          else (PollPending selected, s'))"

definition adm_timer_expired :: "adm \<Rightarrow> adm" where
  "adm_timer_expired s = s\<lparr>adm_queue_timeouts := sat_add u64_max (adm_queue_timeouts s) 1\<rparr>"

section \<open>Well-formed pools\<close>

definition adm_wf :: "adm \<Rightarrow> bool" where
  "adm_wf s \<longleftrightarrow> 1 \<le> adm_limit s \<and> adm_limit s \<le> adm_ceiling s \<and> adm_ceiling s \<le> usize_max \<and>
     1 \<le> adm_max_waiters s \<and> length (adm_credits s) = 3 \<and>
     (\<forall>c < 3. adm_credits s ! c \<le> PRIORITY_WEIGHTS ! c) \<and>
     set_option (adm_granted s) \<subseteq> w_ticket ` set (adm_waiting s)"

lemma priority_index_less [simp]: "priority_index p < 3"
  by (cases p) simp_all

lemma less_3_cases: "c < 3 \<longleftrightarrow> c = 0 \<or> c = 1 \<or> c = (2::nat)"
  by auto

lemma classes_set [simp]: "set classes = {c. c < 3}"
  by (auto simp: classes_def)

lemma weights_nth [simp]:
  "PRIORITY_WEIGHTS ! 0 = 3" "PRIORITY_WEIGHTS ! Suc 0 = 2" "PRIORITY_WEIGHTS ! 1 = 2"
  "PRIORITY_WEIGHTS ! 2 = 1" "length PRIORITY_WEIGHTS = 3"
  by (simp_all add: PRIORITY_WEIGHTS_def)

lemma weights_pos: "c < 3 \<Longrightarrow> 0 < PRIORITY_WEIGHTS ! c"
  by (auto simp: less_3_cases)

lemma charge_pos [simp]: "Suc 0 \<le> charge s c"
  by (simp add: charge_def)

lemma charge_le_limit: "1 \<le> adm_limit s \<Longrightarrow> charge s c \<le> adm_limit s"
  by (simp add: charge_def)

lemma select_class_Some:
  "select_class s cs = Some (i, c) \<Longrightarrow>
    c \<in> set cs \<and> adm_credits s ! c \<noteq> 0 \<and>
    i < length (adm_waiting s) \<and> priority_index (w_priority (adm_waiting s ! i)) = c \<and>
    fits s (adm_waiting s ! i)"
  by (induction cs) (auto simp: position_Some split: if_splits option.splits)

lemma select_class_first:
  "select_class s (cs @ c # ds) = Some (i, d) \<Longrightarrow> adm_credits s ! c \<noteq> 0 \<Longrightarrow>
    w \<in> set (adm_waiting s) \<Longrightarrow> priority_index (w_priority w) = c \<Longrightarrow> fits s w \<Longrightarrow>
    d \<in> set cs \<or> d = c"
proof (induction cs)
  case Nil
  have "position (\<lambda>w. priority_index (w_priority w) = c \<and> fits s w) (adm_waiting s) \<noteq> None"
    using Nil.prems by (auto simp: position_None)
  then show ?case using Nil.prems by (auto split: option.splits)
next
  case (Cons a cs)
  then show ?case by (auto split: if_splits option.splits)
qed

lemma select_class_None:
  "select_class s cs = None \<longleftrightarrow>
    (\<forall>c \<in> set cs. adm_credits s ! c = 0 \<or>
      (\<forall>w \<in> set (adm_waiting s). priority_index (w_priority w) = c \<longrightarrow> \<not> fits s w))"
  by (induction cs) (auto simp: position_None dest: position_SomeD split: option.splits)

lemma record_bypasses_frame [simp]:
  "adm_active (record_capacity_bypasses s) = adm_active s"
  "adm_limit (record_capacity_bypasses s) = adm_limit s"
  "adm_ceiling (record_capacity_bypasses s) = adm_ceiling s"
  "adm_max_waiters (record_capacity_bypasses s) = adm_max_waiters s"
  "adm_next_ticket (record_capacity_bypasses s) = adm_next_ticket s"
  "adm_resource_waiting (record_capacity_bypasses s) = adm_resource_waiting s"
  "adm_credits (record_capacity_bypasses s) = adm_credits s"
  "adm_granted (record_capacity_bypasses s) = adm_granted s"
  "adm_in_flight (record_capacity_bypasses s) = adm_in_flight s"
  "adm_admitted (record_capacity_bypasses s) = adm_admitted s"
  "adm_released (record_capacity_bypasses s) = adm_released s"
  "length (adm_waiting (record_capacity_bypasses s)) = length (adm_waiting s)"
  "map w_ticket (adm_waiting (record_capacity_bypasses s)) = map w_ticket (adm_waiting s)"
  "map w_cost (adm_waiting (record_capacity_bypasses s)) = map w_cost (adm_waiting s)"
  "map w_priority (adm_waiting (record_capacity_bypasses s)) = map w_priority (adm_waiting s)"
  "free (record_capacity_bypasses s) = free s"
  "charge (record_capacity_bypasses s) = charge s"
  by (auto simp: record_capacity_bypasses_def free_def charge_def fun_eq_iff)

lemma spend_credit_frame [simp]:
  "adm_active (spend_credit c s) = adm_active s"
  "adm_limit (spend_credit c s) = adm_limit s"
  "adm_ceiling (spend_credit c s) = adm_ceiling s"
  "adm_max_waiters (spend_credit c s) = adm_max_waiters s"
  "adm_next_ticket (spend_credit c s) = adm_next_ticket s"
  "adm_resource_waiting (spend_credit c s) = adm_resource_waiting s"
  "adm_waiting (spend_credit c s) = adm_waiting s"
  "adm_granted (spend_credit c s) = adm_granted s"
  "adm_in_flight (spend_credit c s) = adm_in_flight s"
  "adm_admitted (spend_credit c s) = adm_admitted s"
  "adm_released (spend_credit c s) = adm_released s"
  "free (spend_credit c s) = free s"
  "charge (spend_credit c s) = charge s"
  by (auto simp: spend_credit_def free_def charge_def fun_eq_iff)

lemma credits_update_frame [simp]:
  "free (s\<lparr>adm_credits := cr\<rparr>) = free s" "charge (s\<lparr>adm_credits := cr\<rparr>) = charge s"
  "fits (s\<lparr>adm_credits := cr\<rparr>) = fits s"
  by (auto simp: free_def charge_def fits_def fun_eq_iff)

lemmas selection_frame = record_bypasses_frame spend_credit_frame credits_update_frame

text \<open>
  What every selection does, whichever of its three paths is taken: it leaves the queue in order with
  the same tickets, costs and classes, and only touches credits and bypass counts.
\<close>

definition same_queue :: "adm \<Rightarrow> adm \<Rightarrow> bool" where
  "same_queue s s' \<longleftrightarrow>
     map w_ticket (adm_waiting s') = map w_ticket (adm_waiting s) \<and>
     map w_cost (adm_waiting s') = map w_cost (adm_waiting s) \<and>
     map w_priority (adm_waiting s') = map w_priority (adm_waiting s) \<and>
     adm_active s' = adm_active s \<and> adm_limit s' = adm_limit s \<and> adm_ceiling s' = adm_ceiling s \<and>
     adm_max_waiters s' = adm_max_waiters s \<and> adm_next_ticket s' = adm_next_ticket s \<and>
     adm_resource_waiting s' = adm_resource_waiting s \<and> adm_granted s' = adm_granted s \<and>
     adm_in_flight s' = adm_in_flight s \<and> adm_admitted s' = adm_admitted s \<and>
     adm_released s' = adm_released s"

lemma selected_same_queue: "selected_waiter s = (r, s') \<Longrightarrow> same_queue s s'"
  by (auto simp: selected_waiter_def same_queue_def Let_def
      split: option.splits if_splits prod.splits)

lemma selected_cases:
  assumes "selected_waiter s = (Some i, s')"
  obtains (reserved) "position starved (adm_waiting s) = Some i"
      "charge s (w_cost (adm_waiting s ! i)) \<le> free s"
      "s' = record_capacity_bypasses (spend_credit (priority_index (w_priority (adm_waiting s ! i))) s)"
    | (served) c where "position starved (adm_waiting s) = None"
      "select_class s classes = Some (i, c)"
      "s' = record_capacity_bypasses (spend_credit c s)"
    | (refilled) c where "position starved (adm_waiting s) = None"
      "select_class s classes = None"
      "select_class (s\<lparr>adm_credits := PRIORITY_WEIGHTS\<rparr>) classes = Some (i, c)"
      "s' = record_capacity_bypasses (spend_credit c (s\<lparr>adm_credits := PRIORITY_WEIGHTS\<rparr>))"
  using assms by (auto simp: selected_waiter_def Let_def split: option.splits if_splits prod.splits)

lemma selected_fits:
  assumes "selected_waiter s = (Some i, s')"
  shows "i < length (adm_waiting s) \<and> fits s (adm_waiting s ! i)"
  using assms
proof (cases rule: selected_cases)
  case reserved
  then show ?thesis by (auto simp: position_Some fits_def)
next
  case (served c)
  then show ?thesis using select_class_Some by blast
next
  case (refilled c)
  then show ?thesis using select_class_Some [OF refilled(3)] by simp
qed

lemma selected_credits:
  assumes "adm_wf s" and sel: "selected_waiter s = (r, s')"
  shows "length (adm_credits s') = 3 \<and> (\<forall>c < 3. adm_credits s' ! c \<le> PRIORITY_WEIGHTS ! c)"
proof -
  have spend: "length cr = 3 \<Longrightarrow> (\<forall>c < 3. cr ! c \<le> PRIORITY_WEIGHTS ! c) \<Longrightarrow>
    length (cr[d := cr ! d - 1]) = 3 \<and>
    (\<forall>c < 3. cr[d := cr ! d - 1] ! c \<le> PRIORITY_WEIGHTS ! c)" for cr :: "nat list" and d
    by (cases "d < 3") (auto simp: nth_list_update list_update_beyond intro: le_trans [OF diff_le_self])
  have wf: "length (adm_credits s) = 3" "\<forall>c < 3. adm_credits s ! c \<le> PRIORITY_WEIGHTS ! c"
    using assms by (auto simp: adm_wf_def)
  show ?thesis
    using sel wf spend [of "adm_credits s"] spend [of PRIORITY_WEIGHTS]
    by (auto simp: selected_waiter_def Let_def spend_credit_def
        split: option.splits if_splits prod.splits)
qed

end
