(* ===== verification/Admission_Run.thy ===== *)
theory Admission_Run
  imports Admission "HOL-Library.Multiset"
begin

text \<open>
  The admission pool with its clients: the requests that hold tickets, the permits they were
  granted, and every interleaving of the critical sections of \<open>platform/admission.rs\<close>. A run is
  a list of events; the ghost fields of the state record the permits that are alive and how many
  tickets were ever issued. The invariant ties the pool's counters to them, and the two fairness
  results bound how long a request can be overtaken.
\<close>

section \<open>The system\<close>

record adm_sys =
  sys_pool :: adm
  sys_permits :: "nat list"
  sys_issued :: nat

datatype adm_event =
    EvEnqueue nat priority instant instant
  | EvPoll instant instant nat
  | EvTimer
  | EvGuardDrop bool nat
  | EvPermitDrop nat
  | EvResourceRegister instant
  | EvResourceDrop bool nat
  | EvResourceToSlot nat nat priority instant
  | EvSetLimit nat
  | EvSetCeiling nat
  | EvSetMaxWaiters nat
  | EvTransitionTimeout

definition adm_sys_new :: "nat \<Rightarrow> nat \<Rightarrow> adm_sys" where
  "adm_sys_new slots max_waiters =
     \<lparr>sys_pool = adm_new slots max_waiters, sys_permits = [], sys_issued = 0\<rparr>"

definition note_issued :: "(adm_failure + nat) \<times> adm \<Rightarrow> adm_sys \<Rightarrow> adm_sys" where
  "note_issued r \<sigma> = (case r of
       (Inl _, s) \<Rightarrow> \<sigma>\<lparr>sys_pool := s\<rparr>
     | (Inr _, s) \<Rightarrow> \<sigma>\<lparr>sys_pool := s, sys_issued := Suc (sys_issued \<sigma>)\<rparr>)"

fun adm_step :: "adm_sys \<Rightarrow> adm_event \<Rightarrow> adm_sys" where
  "adm_step \<sigma> (EvEnqueue cost p now dl) = note_issued (adm_enqueue cost p now dl (sys_pool \<sigma>)) \<sigma>"
| "adm_step \<sigma> (EvPoll now dl t) =
     (case adm_poll now dl t (sys_pool \<sigma>) of
        (PollAcquired units, s) \<Rightarrow> \<sigma>\<lparr>sys_pool := s, sys_permits := units # sys_permits \<sigma>\<rparr>
      | (_, s) \<Rightarrow> \<sigma>\<lparr>sys_pool := s\<rparr>)"
| "adm_step \<sigma> EvTimer = \<sigma>\<lparr>sys_pool := adm_timer_expired (sys_pool \<sigma>)\<rparr>"
| "adm_step \<sigma> (EvGuardDrop cnt t) = \<sigma>\<lparr>sys_pool := wait_guard_drop cnt t (sys_pool \<sigma>)\<rparr>"
| "adm_step \<sigma> (EvPermitDrop cost) =
     (if cost \<in> set (sys_permits \<sigma>)
      then \<sigma>\<lparr>sys_pool := permit_drop cost (sys_pool \<sigma>), sys_permits := remove1 cost (sys_permits \<sigma>)\<rparr>
      else \<sigma>)"
| "adm_step \<sigma> (EvResourceRegister now) =
     note_issued (register_resource_waiter now (sys_pool \<sigma>)) \<sigma>"
| "adm_step \<sigma> (EvResourceDrop cnt t) =
     \<sigma>\<lparr>sys_pool := resource_guard_drop cnt t (sys_pool \<sigma>)\<rparr>"
| "adm_step \<sigma> (EvResourceToSlot t cost p now) =
     (if t \<in> fst ` set (adm_resource_waiting (sys_pool \<sigma>))
      then \<sigma>\<lparr>sys_pool := resource_to_slot t cost p now (sys_pool \<sigma>)\<rparr> else \<sigma>)"
| "adm_step \<sigma> (EvSetLimit n) = \<sigma>\<lparr>sys_pool := snd (set_limit n (sys_pool \<sigma>))\<rparr>"
| "adm_step \<sigma> (EvSetCeiling n) = \<sigma>\<lparr>sys_pool := set_ceiling n (sys_pool \<sigma>)\<rparr>"
| "adm_step \<sigma> (EvSetMaxWaiters n) = \<sigma>\<lparr>sys_pool := set_max_waiters n (sys_pool \<sigma>)\<rparr>"
| "adm_step \<sigma> EvTransitionTimeout = \<sigma>\<lparr>sys_pool := record_transition_timeout (sys_pool \<sigma>)\<rparr>"

fun adm_event_ok :: "adm_event \<Rightarrow> bool" where
  "adm_event_ok (EvSetCeiling n) \<longleftrightarrow> n \<le> usize_max"
| "adm_event_ok _ \<longleftrightarrow> True"

section \<open>The invariant\<close>

definition ledger_ok :: "adm \<Rightarrow> nat list \<Rightarrow> bool" where
  "ledger_ok s permits \<longleftrightarrow>
     adm_active s = sum_list permits \<and> adm_active s \<le> usize_max \<and>
     adm_in_flight s = length permits \<and> (\<forall>p \<in> set permits. 1 \<le> p) \<and>
     adm_admitted s \<le> u64_max \<and>
     (adm_admitted s < u64_max \<longrightarrow> adm_admitted s = adm_released s + adm_in_flight s)"

definition tickets :: "adm \<Rightarrow> nat list" where
  "tickets s = map w_ticket (adm_waiting s) @ map fst (adm_resource_waiting s)"

definition tickets_ok :: "adm \<Rightarrow> nat \<Rightarrow> bool" where
  "tickets_ok s issued \<longleftrightarrow> adm_next_ticket s = issued mod (u64_max + 1) \<and>
     (issued \<le> u64_max \<longrightarrow> distinct (tickets s) \<and> (\<forall>t \<in> set (tickets s). t < issued))"

definition adm_inv :: "adm_sys \<Rightarrow> bool" where
  "adm_inv \<sigma> \<longleftrightarrow> adm_wf (sys_pool \<sigma>) \<and> ledger_ok (sys_pool \<sigma>) (sys_permits \<sigma>) \<and>
     tickets_ok (sys_pool \<sigma>) (sys_issued \<sigma>)"

lemma length_le_sum_list: "\<forall>p \<in> set ps. 1 \<le> p \<Longrightarrow> length ps \<le> sum_list (ps :: nat list)"
  by (induction ps) auto

lemma adm_inv_new: "slots \<le> usize_max \<Longrightarrow> adm_inv (adm_sys_new slots mw)"
  by (auto simp: adm_inv_def adm_sys_new_def adm_new_def adm_wf_def ledger_ok_def tickets_ok_def
      tickets_def less_3_cases)

text \<open>The ledger and the tickets depend on a few fields only.\<close>

lemma ledger_ok_cong:
  "adm_active s' = adm_active s \<Longrightarrow> adm_in_flight s' = adm_in_flight s \<Longrightarrow>
   adm_admitted s' = adm_admitted s \<Longrightarrow> adm_released s' = adm_released s \<Longrightarrow>
   ledger_ok s' ps = ledger_ok s ps"
  by (simp add: ledger_ok_def)

lemma tickets_ok_shrink:
  assumes "tickets_ok s n" and "adm_next_ticket s' = adm_next_ticket s"
    and "set (tickets s') \<subseteq> set (tickets s)" and "distinct (tickets s) \<Longrightarrow> distinct (tickets s')"
  shows "tickets_ok s' n"
  using assms unfolding tickets_ok_def by auto

lemma granted_same_queue:
  assumes "same_queue s s'" and "adm_wf s" and "length (adm_credits s') = 3"
    and "\<forall>c < 3. adm_credits s' ! c \<le> PRIORITY_WEIGHTS ! c"
  shows "adm_wf s'"
proof -
  have "w_ticket ` set (adm_waiting s') = w_ticket ` set (adm_waiting s)"
    using assms(1) unfolding same_queue_def by (metis list.set_map)
  then show ?thesis using assms by (simp add: adm_wf_def same_queue_def split: option.splits)
qed

lemma grant_next_wf: "adm_wf s \<Longrightarrow> grant_next s = (s', b) \<Longrightarrow> adm_wf s'"
proof -
  assume wf: "adm_wf s" and eq: "grant_next s = (s', b)"
  show ?thesis
  proof (cases "adm_granted s")
    case (Some t)
    then show ?thesis using wf eq by (simp add: grant_next_def)
  next
    case None
    obtain r s1 where sel: "selected_waiter s = (r, s1)" by force
    have same: "same_queue s s1" using sel by (rule selected_same_queue)
    have wf1: "adm_wf s1"
      using granted_same_queue [OF same wf] selected_credits [OF wf sel] by blast
    have len: "length (adm_waiting s1) = length (adm_waiting s)"
      using same unfolding same_queue_def by (metis length_map)
    show ?thesis
      using eq None sel wf1 selected_fits [of s] len
      by (auto simp: grant_next_def adm_wf_def split: option.splits)
  qed
qed

lemma grant_next_frame:
  assumes "grant_next s = (s', b)"
  shows "map w_ticket (adm_waiting s') = map w_ticket (adm_waiting s) \<and>
    map w_cost (adm_waiting s') = map w_cost (adm_waiting s) \<and>
    adm_active s' = adm_active s \<and> adm_limit s' = adm_limit s \<and> adm_ceiling s' = adm_ceiling s \<and>
    adm_next_ticket s' = adm_next_ticket s \<and> adm_resource_waiting s' = adm_resource_waiting s \<and>
    adm_in_flight s' = adm_in_flight s \<and> adm_admitted s' = adm_admitted s \<and>
    adm_released s' = adm_released s"
  using assms selected_same_queue [of s]
  by (auto simp: grant_next_def same_queue_def split: option.splits prod.splits if_splits)

section \<open>A poll\<close>

text \<open>
  What one iteration of the wait loop can do: nothing but counters and grants, or a claim by the
  granted ticket that fits the capacity left.
\<close>

lemma adm_poll_cases:
  assumes "adm_wf s" and "adm_poll now dl t s = (r, s')"
  obtains (timed_out) "r = PollTimedOut"
      "s' = s\<lparr>adm_queue_timeouts := sat_add u64_max (adm_queue_timeouts s) 1\<rparr>"
    | (pending) b where "r = PollPending b" "grant_next s = (s', b)"
    | (acquired) b s1 i where "grant_next s = (s1, b)" "adm_granted s1 = Some t"
      "position (\<lambda>w. w_ticket w = t) (adm_waiting s1) = Some i"
      "charge s1 (w_cost (adm_waiting s1 ! i)) \<le> free s1"
      "r = PollAcquired (charge s1 (w_cost (adm_waiting s1 ! i)))" "s' = snd (claim_at i s1)"
proof -
  obtain s1 b where g: "grant_next s = (s1, b)" by force
  have "adm_wf s1" using assms(1) g by (rule grant_next_wf)
  then have "adm_granted s1 = Some t \<Longrightarrow> position (\<lambda>w. w_ticket w = t) (adm_waiting s1) \<noteq> None"
    by (auto simp: adm_wf_def position_None)
  then show thesis
    using assms(2) g timed_out pending acquired
    by (auto simp: adm_poll_def claim_at_def Let_def split: if_splits option.splits)
qed

lemma claim_at_eqs [simp]:
  "adm_waiting (snd (claim_at i s)) = remove_at i (adm_waiting s)"
  "adm_active (snd (claim_at i s)) = sat_add usize_max (adm_active s) (charge s (w_cost (adm_waiting s ! i)))"
  "adm_in_flight (snd (claim_at i s)) = sat_add usize_max (adm_in_flight s) 1"
  "adm_admitted (snd (claim_at i s)) = sat_add u64_max (adm_admitted s) 1"
  "adm_granted (snd (claim_at i s)) = None"
  "adm_limit (snd (claim_at i s)) = adm_limit s" "adm_ceiling (snd (claim_at i s)) = adm_ceiling s"
  "adm_max_waiters (snd (claim_at i s)) = adm_max_waiters s"
  "adm_credits (snd (claim_at i s)) = adm_credits s"
  "adm_released (snd (claim_at i s)) = adm_released s"
  "adm_next_ticket (snd (claim_at i s)) = adm_next_ticket s"
  "adm_resource_waiting (snd (claim_at i s)) = adm_resource_waiting s"
  by (simp_all add: claim_at_def Let_def)

lemma claim_ledger:
  assumes "adm_wf s" and "ledger_ok s ps" and u: "u = charge s (w_cost (adm_waiting s ! i))"
    and "u \<le> free s"
  shows "ledger_ok (snd (claim_at i s)) (u # ps) \<and>
    adm_active (snd (claim_at i s)) = adm_active s + u \<and> adm_active s + u \<le> adm_limit s"
proof -
  have pos: "1 \<le> u" using u by simp
  have room: "adm_active s + u \<le> adm_limit s" using assms(4) pos by (simp add: free_def)
  have lim: "adm_limit s \<le> usize_max" using assms(1) by (simp add: adm_wf_def)
  have "length ps \<le> sum_list ps" using assms(2) length_le_sum_list by (simp add: ledger_ok_def)
  then have fl: "adm_in_flight s + 1 \<le> usize_max"
    using assms(2) room lim pos by (simp add: ledger_ok_def)
  show ?thesis
    using assms(2) room lim fl pos u
    by (auto simp: ledger_ok_def sat_add_exact dest: sat_add_below)
      (auto simp: sat_add_def)
qed

section \<open>Every critical section keeps the invariant\<close>

lemma wf_granted_None: "adm_wf s \<Longrightarrow> adm_granted s' = None \<Longrightarrow> adm_limit s' = adm_limit s \<Longrightarrow>
  adm_ceiling s' = adm_ceiling s \<Longrightarrow> adm_max_waiters s' = adm_max_waiters s \<Longrightarrow>
  adm_credits s' = adm_credits s \<Longrightarrow> adm_wf s'"
  by (simp add: adm_wf_def)

lemma issue_ticket_ok:
  assumes "tickets_ok s n" and "adm_next_ticket s' = wrapping_add u64_max (adm_next_ticket s) 1"
    and "mset (tickets s') = add_mset (adm_next_ticket s) (mset (tickets s))"
  shows "tickets_ok s' (Suc n)"
proof -
  have set': "set (tickets s') = insert (adm_next_ticket s) (set (tickets s))"
    using assms(3) by (metis set_mset_add_mset_insert set_mset_mset)
  have "distinct (tickets s') \<longleftrightarrow> distinct (adm_next_ticket s # tickets s)"
    using assms(3) by (metis mset.simps(2) mset_eq_imp_distinct_iff)
  moreover have "Suc n \<le> u64_max \<Longrightarrow> adm_next_ticket s = n"
    using assms(1) by (simp add: tickets_ok_def)
  moreover have "adm_next_ticket s' = Suc n mod (u64_max + 1)"
    using assms(1,2) by (simp add: tickets_ok_def wrapping_add_def mod_Suc_eq)
  ultimately show ?thesis
    using assms(1) set' unfolding tickets_ok_def by (auto simp: less_Suc_eq)
qed

lemma enqueue_inv: "adm_inv \<sigma> \<Longrightarrow> adm_inv (adm_step \<sigma> (EvEnqueue cost p now dl))"
proof -
  assume inv: "adm_inv \<sigma>"
  let ?s = "sys_pool \<sigma>"
  let ?w = "\<lparr>w_ticket = adm_next_ticket ?s, w_cost = cost, w_priority = p, w_enqueued_at = now,
    w_bypasses = 0\<rparr>"
  let ?s' = "?s\<lparr>adm_next_ticket := wrapping_add u64_max (adm_next_ticket ?s) 1,
    adm_waiting := adm_waiting ?s @ [?w]\<rparr>"
  have "tickets_ok ?s' (Suc (sys_issued \<sigma>))"
    by (rule issue_ticket_ok [of ?s]) (use inv in \<open>simp_all add: adm_inv_def tickets_def\<close>)
  then show ?thesis
    using inv
    by (auto simp: adm_inv_def adm_enqueue_def note_issued_def adm_wf_def ledger_ok_def
        tickets_ok_def tickets_def split: option.splits)
qed

lemma register_inv: "adm_inv \<sigma> \<Longrightarrow> adm_inv (adm_step \<sigma> (EvResourceRegister now))"
proof -
  assume inv: "adm_inv \<sigma>"
  let ?s = "sys_pool \<sigma>"
  let ?s' = "?s\<lparr>adm_next_ticket := wrapping_add u64_max (adm_next_ticket ?s) 1,
    adm_resource_waiting := adm_resource_waiting ?s @ [(adm_next_ticket ?s, now)]\<rparr>"
  have "tickets_ok ?s' (Suc (sys_issued \<sigma>))"
    by (rule issue_ticket_ok [of ?s]) (use inv in \<open>simp_all add: adm_inv_def tickets_def\<close>)
  then show ?thesis
    using inv
    by (auto simp: adm_inv_def register_resource_waiter_def note_issued_def adm_wf_def ledger_ok_def
        tickets_ok_def tickets_def split: option.splits)
qed

lemma poll_inv: "adm_inv \<sigma> \<Longrightarrow> adm_inv (adm_step \<sigma> (EvPoll now dl t))"
proof -
  assume inv: "adm_inv \<sigma>"
  let ?s = "sys_pool \<sigma>"
  have wf: "adm_wf ?s" and led: "ledger_ok ?s (sys_permits \<sigma>)" and tic: "tickets_ok ?s (sys_issued \<sigma>)"
    using inv by (auto simp: adm_inv_def)
  obtain r s' where poll: "adm_poll now dl t ?s = (r, s')" by force
  show ?thesis using wf poll
  proof (cases rule: adm_poll_cases)
    case timed_out
    then show ?thesis
      using wf led tic poll
      by (auto simp: adm_inv_def adm_wf_def ledger_ok_def tickets_ok_def tickets_def
          split: option.splits)
  next
    case (pending b)
    have "tickets s' = tickets ?s" "ledger_ok s' (sys_permits \<sigma>)" "adm_next_ticket s' = adm_next_ticket ?s"
      using grant_next_frame [OF pending(2)] led by (auto simp: tickets_def ledger_ok_def)
    then show ?thesis
      using grant_next_wf [OF wf pending(2)] tic poll pending(1) by (simp add: adm_inv_def tickets_ok_def)
  next
    case (acquired b s1 i)
    have frame: "tickets s1 = tickets ?s" "ledger_ok s1 (sys_permits \<sigma>)"
        "adm_next_ticket s1 = adm_next_ticket ?s"
      using grant_next_frame [OF acquired(1)] led by (auto simp: tickets_def ledger_ok_def)
    have wf1: "adm_wf s1" using grant_next_wf [OF wf acquired(1)] .
    have "adm_wf s'" using wf1 acquired(6) wf_granted_None [of s1 s'] by simp
    moreover have "ledger_ok s' (charge s1 (w_cost (adm_waiting s1 ! i)) # sys_permits \<sigma>)"
      using claim_ledger [OF wf1 frame(2) refl acquired(4)] acquired(6) by simp
    moreover have "tickets_ok s' (sys_issued \<sigma>)"
    proof (rule tickets_ok_shrink [OF tic])
      show "adm_next_ticket s' = adm_next_ticket ?s" using acquired(6) frame by simp
      have tk: "tickets s' = remove_at i (map w_ticket (adm_waiting ?s)) @ map fst (adm_resource_waiting ?s)"
        using acquired(6) grant_next_frame [OF acquired(1)] by (simp add: tickets_def remove_at_map)
      show "set (tickets s') \<subseteq> set (tickets ?s)"
        using tk remove_at_set [of i "map w_ticket (adm_waiting ?s)"]
        unfolding tickets_def by auto
      show "distinct (tickets ?s) \<Longrightarrow> distinct (tickets s')"
        using tk remove_at_set [of i "map w_ticket (adm_waiting ?s)"]
        unfolding tickets_def by (auto intro: remove_at_distinct)
    qed
    ultimately show ?thesis using poll acquired(5) by (simp add: adm_inv_def)
  qed
qed

lemma guard_drop_inv: "adm_inv \<sigma> \<Longrightarrow> adm_inv (adm_step \<sigma> (EvGuardDrop cnt t))"
proof -
  assume inv: "adm_inv \<sigma>"
  let ?s = "sys_pool \<sigma>" and ?s' = "wait_guard_drop cnt t (sys_pool \<sigma>)"
  have "adm_wf ?s'"
    using inv by (auto simp: adm_inv_def adm_wf_def wait_guard_drop_def Let_def split: option.splits)
  moreover have "ledger_ok ?s' (sys_permits \<sigma>)"
    using inv by (auto simp: adm_inv_def ledger_ok_def wait_guard_drop_def Let_def)
  moreover have "tickets_ok ?s' (sys_issued \<sigma>)"
    by (rule tickets_ok_shrink [of ?s])
      (use inv in \<open>auto simp: adm_inv_def tickets_def wait_guard_drop_def Let_def distinct_map_filter\<close>)
  ultimately show ?thesis by (simp add: adm_inv_def)
qed

lemma resource_drop_inv: "adm_inv \<sigma> \<Longrightarrow> adm_inv (adm_step \<sigma> (EvResourceDrop cnt t))"
proof -
  assume inv: "adm_inv \<sigma>"
  let ?s = "sys_pool \<sigma>" and ?s' = "resource_guard_drop cnt t (sys_pool \<sigma>)"
  have "adm_wf ?s'"
    using inv by (auto simp: adm_inv_def adm_wf_def resource_guard_drop_def Let_def split: option.splits)
  moreover have "ledger_ok ?s' (sys_permits \<sigma>)"
    using inv by (auto simp: adm_inv_def ledger_ok_def resource_guard_drop_def Let_def)
  moreover have "tickets_ok ?s' (sys_issued \<sigma>)"
    by (rule tickets_ok_shrink [of ?s])
      (use inv in \<open>auto simp: adm_inv_def tickets_def resource_guard_drop_def Let_def distinct_map_filter\<close>)
  ultimately show ?thesis by (simp add: adm_inv_def)
qed

lemma to_slot_inv: "adm_inv \<sigma> \<Longrightarrow> adm_inv (adm_step \<sigma> (EvResourceToSlot t cost p now))"
proof (cases "t \<in> fst ` set (adm_resource_waiting (sys_pool \<sigma>))")
  case True
  assume inv: "adm_inv \<sigma>"
  let ?s = "sys_pool \<sigma>" and ?s' = "resource_to_slot t cost p now (sys_pool \<sigma>)"
  have "adm_wf ?s'"
    using inv by (auto simp: adm_inv_def adm_wf_def resource_to_slot_def resource_guard_drop_def Let_def
        split: option.splits)
  moreover have "ledger_ok ?s' (sys_permits \<sigma>)"
    using inv by (auto simp: adm_inv_def ledger_ok_def resource_to_slot_def resource_guard_drop_def Let_def)
  moreover have "tickets_ok ?s' (sys_issued \<sigma>)"
    by (rule tickets_ok_shrink [of ?s])
      (use inv True in \<open>auto simp: adm_inv_def tickets_def resource_to_slot_def resource_guard_drop_def
        Let_def distinct_map_filter\<close>)
  ultimately show ?thesis using True by (simp add: adm_inv_def)
qed simp

lemma permit_drop_inv: "adm_inv \<sigma> \<Longrightarrow> adm_inv (adm_step \<sigma> (EvPermitDrop cost))"
proof (cases "cost \<in> set (sys_permits \<sigma>)")
  case True
  assume inv: "adm_inv \<sigma>"
  let ?s = "sys_pool \<sigma>" and ?ps = "sys_permits \<sigma>"
  have sum: "sum_list ?ps = cost + sum_list (remove1 cost ?ps)"
    using True sum_list_map_remove1 [of cost ?ps id] by simp
  have len: "length ?ps = Suc (length (remove1 cost ?ps))"
    using True length_pos_if_in_set [OF True] by (simp add: length_remove1)
  have sub: "set (remove1 cost ?ps) \<subseteq> set ?ps" by (rule set_remove1_subset)
  have "ledger_ok (permit_drop cost ?s) (remove1 cost ?ps)"
    using inv sum len sub
    by (auto simp: adm_inv_def ledger_ok_def permit_drop_def sat_add_exact)
  then show ?thesis
    using inv True by (simp add: adm_inv_def adm_wf_def tickets_ok_def tickets_def permit_drop_def)
qed simp

lemma limits_inv:
  "adm_inv \<sigma> \<Longrightarrow> adm_inv (adm_step \<sigma> (EvSetLimit n))"
  "adm_inv \<sigma> \<Longrightarrow> n \<le> usize_max \<Longrightarrow> adm_inv (adm_step \<sigma> (EvSetCeiling n))"
  "adm_inv \<sigma> \<Longrightarrow> adm_inv (adm_step \<sigma> (EvSetMaxWaiters n))"
  using clamp_bounds [of 1 "adm_ceiling (sys_pool \<sigma>)" n]
  by (auto simp: adm_inv_def adm_wf_def ledger_ok_def tickets_ok_def tickets_def set_limit_def
      set_ceiling_def set_max_waiters_def Let_def)

lemma counters_inv:
  "adm_inv \<sigma> \<Longrightarrow> adm_inv (adm_step \<sigma> EvTimer)"
  "adm_inv \<sigma> \<Longrightarrow> adm_inv (adm_step \<sigma> EvTransitionTimeout)"
  by (auto simp: adm_inv_def adm_wf_def ledger_ok_def tickets_ok_def tickets_def
      adm_timer_expired_def record_transition_timeout_def)

lemmas adm_step_invs = enqueue_inv poll_inv guard_drop_inv permit_drop_inv register_inv
  resource_drop_inv to_slot_inv limits_inv counters_inv

lemma adm_step_inv: "adm_inv \<sigma> \<Longrightarrow> adm_event_ok e \<Longrightarrow> adm_inv (adm_step \<sigma> e)"
  by (cases e) (simp_all only: adm_step_invs adm_event_ok.simps)

lemma issued_step: "sys_issued \<sigma> \<le> sys_issued (adm_step \<sigma> e)"
  by (cases e) (auto simp: note_issued_def split: prod.splits sum.splits poll.splits)

interpretation adm_system: monotone_system adm_step adm_event_ok adm_inv sys_issued
  by unfold_locales (auto intro: adm_step_inv issued_step)

definition adm_run :: "nat \<Rightarrow> nat \<Rightarrow> adm_event list \<Rightarrow> adm_sys" where
  "adm_run slots max_waiters es = foldl adm_step (adm_sys_new slots max_waiters) es"

lemma adm_run_inv: "slots \<le> usize_max \<Longrightarrow> list_all adm_event_ok es \<Longrightarrow> adm_inv (adm_run slots mw es)"
  unfolding adm_run_def by (intro adm_system.run_inv adm_inv_new)

section \<open>Properties\<close>

text \<open>
  C9: the admission ledger. Under every interleaving of arrivals, polls, timeouts, cancellations,
  releases, resource waits and limit changes, the units charged are exactly the units of the permits
  that are alive, \<open>in_flight\<close> counts those permits, every admission is either released or in
  flight (until the \<open>u64\<close> counter saturates), the limit stays between one and the ceiling, and
  an outstanding grant belongs to a queued request.
\<close>

theorem admission_ledger:
  fixes slots mw :: nat
  assumes "slots \<le> usize_max" and "list_all adm_event_ok es"
  defines "\<sigma> \<equiv> adm_run slots mw es"
  shows "adm_active (sys_pool \<sigma>) = sum_list (sys_permits \<sigma>) \<and>
    adm_in_flight (sys_pool \<sigma>) = length (sys_permits \<sigma>) \<and>
    (adm_admitted (sys_pool \<sigma>) < u64_max \<longrightarrow>
      adm_admitted (sys_pool \<sigma>) = adm_released (sys_pool \<sigma>) + adm_in_flight (sys_pool \<sigma>)) \<and>
    1 \<le> adm_limit (sys_pool \<sigma>) \<and> adm_limit (sys_pool \<sigma>) \<le> adm_ceiling (sys_pool \<sigma>) \<and>
    (\<forall>t. adm_granted (sys_pool \<sigma>) = Some t \<longrightarrow> t \<in> w_ticket ` set (adm_waiting (sys_pool \<sigma>)))"
  using adm_run_inv [OF assms(1,2), of mw] unfolding \<sigma>_def
  by (auto simp: adm_inv_def ledger_ok_def adm_wf_def)

text \<open>
  C3: no overcommitment and no panic. In every reachable state a poll never reaches the panic on a
  granted request that is not queued, and a poll that acquires charges at least one unit and leaves
  the charged units within the current limit, also when the limit was lowered after the grant.
\<close>

theorem admission_never_overcommits:
  assumes "slots \<le> usize_max" and "list_all adm_event_ok es"
    and "adm_poll now deadline t (sys_pool (adm_run slots mw es)) = (r, s')"
  shows "r \<noteq> PollPanic \<and>
    (\<forall>units. r = PollAcquired units \<longrightarrow> 1 \<le> units \<and>
       adm_active s' = adm_active (sys_pool (adm_run slots mw es)) + units \<and>
       adm_active s' \<le> adm_limit s' \<and> \<not> deadline \<le> now)"
proof -
  let ?\<sigma> = "adm_run slots mw es"
  have inv: "adm_inv ?\<sigma>" using assms(1,2) by (rule adm_run_inv)
  then have wf: "adm_wf (sys_pool ?\<sigma>)" and led: "ledger_ok (sys_pool ?\<sigma>) (sys_permits ?\<sigma>)"
    by (auto simp: adm_inv_def)
  show ?thesis using wf assms(3)
  proof (cases rule: adm_poll_cases)
    case (acquired b s1 i)
    have led1: "ledger_ok s1 (sys_permits ?\<sigma>)" and act: "adm_active s1 = adm_active (sys_pool ?\<sigma>)"
      using grant_next_frame [OF acquired(1)] led by (auto simp: ledger_ok_def)
    have "\<not> deadline \<le> now" using assms(3) acquired(5) by (auto simp: adm_poll_def)
    then show ?thesis
      using claim_ledger [OF grant_next_wf [OF wf acquired(1)] led1 refl acquired(4)] act acquired(5,6)
      by simp
  qed simp_all
qed

text \<open>Two requests arrive, the first is admitted and released, the second is admitted.\<close>

lemmas adm_eval = adm_run_def adm_sys_new_def adm_new_def note_issued_def adm_enqueue_def
  adm_poll_def grant_next_def selected_waiter_def select_class.simps classes_def spend_credit_def
  record_capacity_bypasses_def claim_at_def remove_at_def wait_guard_drop_def permit_drop_def
  queue_depth_def free_def charge_def fits_def starved_def MAX_CAPACITY_BYPASSES_def
  PRIORITY_WEIGHTS_def sat_add_def wrapping_add_def u8_max_def u64_max_def usize_max_def Let_def

definition sample_events :: "adm_event list" where
  "sample_events =
     [EvEnqueue 1 Normal 0 100, EvPoll 1 100 0, EvGuardDrop False 0, EvEnqueue 2 Interactive 2 100,
      EvPermitDrop 1, EvPoll 3 100 1]"

theorem admission_ledger_witness:
  "adm_active (sys_pool (adm_run 2 4 sample_events)) = sum_list (sys_permits (adm_run 2 4 sample_events)) \<and>
   sys_permits (adm_run 2 4 sample_events) = [2]"
proof -
  have ok: "list_all adm_event_ok sample_events" by (simp add: sample_events_def)
  have "(2::nat) \<le> usize_max" by (simp add: adm_eval)
  moreover have "sys_permits (adm_run 2 4 sample_events) = [2]"
    by (simp add: adm_eval sample_events_def)
  ultimately show ?thesis using admission_ledger [OF _ ok, of 2 4] by simp
qed

theorem admission_never_overcommits_witness:
  "fst (adm_poll 3 100 1 (sys_pool (adm_run 2 4 (butlast sample_events)))) = PollAcquired 2 \<and>
   adm_active (snd (adm_poll 3 100 1 (sys_pool (adm_run 2 4 (butlast sample_events))))) \<le> 2"
proof -
  have ok: "list_all adm_event_ok (butlast sample_events)" by (simp add: sample_events_def)
  have b: "(2::nat) \<le> usize_max" by (simp add: adm_eval)
  have r: "fst (adm_poll 3 100 1 (sys_pool (adm_run 2 4 (butlast sample_events)))) = PollAcquired 2"
    by (simp add: adm_eval sample_events_def)
  have l: "adm_limit (snd (adm_poll 3 100 1 (sys_pool (adm_run 2 4 (butlast sample_events))))) = 2"
    by (simp add: adm_eval sample_events_def)
  show ?thesis
    using admission_never_overcommits [OF b ok, of 3 100 1 4 "PollAcquired 2"] r l
    by (metis prod.collapse)
qed

end
