(* ===== verification/Admission_Fair.thy ===== *)
theory Admission_Fair
  imports Admission_Run
begin

text \<open>
  Fairness of the admission pool. A request that was passed over six times is overtaken by at most
  the requests queued in front of it and the one grant that may already be outstanding; and while a
  class has a request that fits, the weighted round robin serves the other classes a bounded number
  of times before it.
\<close>

section \<open>The reservation ends backfill\<close>

definition queued_starved :: "nat \<Rightarrow> adm \<Rightarrow> bool" where
  "queued_starved t s \<longleftrightarrow> (\<exists>w \<in> set (adm_waiting s). w_ticket w = t \<and> starved w)"

definition queued :: "nat \<Rightarrow> adm \<Rightarrow> bool" where
  "queued t s \<longleftrightarrow> t \<in> w_ticket ` set (adm_waiting s)"

definition ahead_of :: "nat \<Rightarrow> nat list \<Rightarrow> nat list" where
  "ahead_of t ts = takeWhile (\<lambda>u. u \<noteq> t) ts"

definition overtake_bound :: "nat \<Rightarrow> adm \<Rightarrow> nat" where
  "overtake_bound t s =
     (let ahead = ahead_of t (map w_ticket (adm_waiting s))
      in length ahead +
         (case adm_granted s of
            None \<Rightarrow> 0
          | Some u \<Rightarrow> if u = t \<or> u \<in> set ahead then 0 else 1))"

definition granted_by :: "adm_sys \<Rightarrow> adm_event \<Rightarrow> nat" where
  "granted_by \<sigma> e = (if length (sys_permits \<sigma>) < length (sys_permits (adm_step \<sigma> e)) then 1 else 0)"

fun grants_while_queued :: "nat \<Rightarrow> adm_sys \<Rightarrow> adm_event list \<Rightarrow> nat" where
  "grants_while_queued t \<sigma> [] = 0"
| "grants_while_queued t \<sigma> (e # es) =
     (if queued t (sys_pool (adm_step \<sigma> e))
      then granted_by \<sigma> e + grants_while_queued t (adm_step \<sigma> e) es
      else 0)"

lemma ahead_append: "t \<in> set ts \<Longrightarrow> ahead_of t (ts @ us) = ahead_of t ts"
  by (simp add: ahead_of_def)

lemma ahead_filter: "u \<noteq> t \<Longrightarrow> ahead_of t (filter (\<lambda>x. x \<noteq> u) ts) = filter (\<lambda>x. x \<noteq> u) (ahead_of t ts)"
  by (induction ts) (auto simp: ahead_of_def)

lemma ahead_index:
  "distinct ts \<Longrightarrow> k < length ts \<Longrightarrow> ts ! k = t \<Longrightarrow> i < k \<Longrightarrow> ts ! i \<in> set (ahead_of t ts)"
proof (induction ts arbitrary: i k)
  case Nil
  then show ?case by simp
next
  case (Cons a ts)
  then obtain j where k: "k = Suc j" by (cases k) auto
  have "a \<noteq> t" using Cons.prems k by auto
  then show ?case
    using Cons k by (cases i) (auto simp: ahead_of_def)
qed

lemma filter_neq_length: "distinct ts \<Longrightarrow> u \<in> set ts \<Longrightarrow> Suc (length (filter (\<lambda>x. x \<noteq> u) ts)) = length ts"
  by (induction ts) (auto intro: arg_cong [where f = length] filter_True)

lemma ahead_distinct: "distinct ts \<Longrightarrow> distinct (ahead_of t ts)"
  by (simp add: ahead_of_def)

lemma starved_bypass_mono: "starved w \<Longrightarrow> starved (w\<lparr>w_bypasses := sat_add u8_max (w_bypasses w) 1\<rparr>)"
  by (auto simp: starved_def sat_add_def MAX_CAPACITY_BYPASSES_def u8_max_def)

lemma queued_starved_bypass: "queued_starved t s \<Longrightarrow> queued_starved t (record_capacity_bypasses s)"
proof -
  assume "queued_starved t s"
  then obtain w where w: "w \<in> set (adm_waiting s)" "w_ticket w = t" "starved w"
    by (auto simp: queued_starved_def)
  let ?f = "\<lambda>w. if free s < min (w_cost w) (adm_limit s)
    then w\<lparr>w_bypasses := sat_add u8_max (w_bypasses w) 1\<rparr> else w"
  have "?f w \<in> set (adm_waiting (record_capacity_bypasses s))"
    using w(1) by (simp add: record_capacity_bypasses_def)
  moreover have "w_ticket (?f w) = t" "starved (?f w)"
    using w starved_bypass_mono by simp_all
  ultimately show ?thesis unfolding queued_starved_def by blast
qed

lemma queued_starved_same_waiting:
  "adm_waiting s' = adm_waiting s \<Longrightarrow> queued_starved t s' = queued_starved t s"
  by (simp add: queued_starved_def)

lemma selected_keeps_starved:
  assumes "selected_waiter s = (r, s')" and "queued_starved t s"
  shows "queued_starved t s'"
proof -
  have "position starved (adm_waiting s) \<noteq> None"
    using assms(2) by (auto simp: queued_starved_def position_None)
  then show ?thesis
    using assms queued_starved_bypass [of t] queued_starved_same_waiting [of "spend_credit _ s" s t]
    by (auto simp: selected_waiter_def split: option.splits if_splits)
qed

text \<open>With a reservation in force only the first reserved request can be selected.\<close>

lemma selected_reserved:
  assumes "selected_waiter s = (Some i, s')" and "queued_starved t s"
    and "distinct (map w_ticket (adm_waiting s))"
  shows "w_ticket (adm_waiting s ! i) = t \<or>
    w_ticket (adm_waiting s ! i) \<in> set (ahead_of t (map w_ticket (adm_waiting s)))"
proof -
  let ?ws = "adm_waiting s"
  obtain k where k: "k < length ?ws" "w_ticket (?ws ! k) = t" "starved (?ws ! k)"
    using assms(2) by (auto simp: queued_starved_def in_set_conv_nth)
  have "position starved ?ws \<noteq> None" using k by (auto simp: position_None)
  then have pos: "position starved ?ws = Some i"
    using assms(1) by (auto elim: selected_cases)
  then have "i \<le> k" using k by (auto simp: position_Some not_less [symmetric])
  moreover have "i < length ?ws" using pos by (simp add: position_Some)
  ultimately show ?thesis
    using ahead_index [OF assms(3), of k t i] k by (cases "i = k") auto
qed

lemma grant_next_overtake:
  assumes "queued_starved t s" and "distinct (map w_ticket (adm_waiting s))"
    and "grant_next s = (s', b)"
  shows "queued_starved t s' \<and> overtake_bound t s' = overtake_bound t s"
proof (cases "adm_granted s")
  case (Some u)
  then show ?thesis using assms by (simp add: grant_next_def)
next
  case None
  obtain r s1 where sel: "selected_waiter s = (r, s1)" by force
  have keep: "queued_starved t s1" using selected_keeps_starved [OF sel assms(1)] .
  have ts: "map w_ticket (adm_waiting s1) = map w_ticket (adm_waiting s)"
    and gr: "adm_granted s1 = None"
    using selected_same_queue [OF sel] None by (simp_all add: same_queue_def)
  show ?thesis
  proof (cases r)
    case None
    then show ?thesis
      using assms(3) \<open>adm_granted s = None\<close> sel keep ts gr
      by (simp add: grant_next_def overtake_bound_def Let_def)
  next
    case (Some i)
    have i: "i < length (adm_waiting s)" using sel Some selected_fits by blast
    have "w_ticket (adm_waiting s1 ! i) = w_ticket (adm_waiting s ! i)"
      using ts i by (metis length_map nth_map)
    then have s': "s' = s1\<lparr>adm_granted := Some (w_ticket (adm_waiting s ! i))\<rparr>"
      using assms(3) \<open>adm_granted s = None\<close> sel Some by (simp add: grant_next_def)
    show ?thesis
      using s' keep ts \<open>adm_granted s = None\<close>
        selected_reserved [OF sel [unfolded Some] assms(1,2)]
      by (auto simp: overtake_bound_def Let_def queued_starved_def)
  qed
qed

lemma overtake_bound_frame:
  "map w_ticket (adm_waiting s') = map w_ticket (adm_waiting s) \<Longrightarrow> adm_granted s' = adm_granted s \<Longrightarrow>
   overtake_bound t s' = overtake_bound t s"
  by (simp add: overtake_bound_def)

text \<open>Removing one other request from the queue never puts more requests in front.\<close>

lemma overtake_drop:
  assumes "u \<noteq> t" and "map w_ticket (adm_waiting s') = filter (\<lambda>x. x \<noteq> u) (map w_ticket (adm_waiting s))"
    and "adm_granted s' = (if adm_granted s = Some u then None else adm_granted s)"
  shows "overtake_bound t s' \<le> overtake_bound t s"
  using assms length_filter_le [of "\<lambda>x. x \<noteq> u" "ahead_of t (map w_ticket (adm_waiting s))"]
  by (auto simp: overtake_bound_def Let_def ahead_filter intro: le_SucI split: option.splits)

lemma overtake_append:
  assumes "queued t s" and "map w_ticket (adm_waiting s') = map w_ticket (adm_waiting s) @ us"
    and "adm_granted s' = adm_granted s"
  shows "overtake_bound t s' = overtake_bound t s"
  using assms ahead_append [of t "map w_ticket (adm_waiting s)" us]
  by (simp add: overtake_bound_def queued_def)

lemma queued_starved_queued: "queued_starved t s \<Longrightarrow> queued t s"
  by (auto simp: queued_starved_def queued_def)

text \<open>A claim by another request uses up one unit of the bound.\<close>

lemma overtake_claim:
  assumes "distinct (map w_ticket (adm_waiting s))" and "adm_granted s = Some u" and "u \<noteq> t"
    and "position (\<lambda>w. w_ticket w = u) (adm_waiting s) = Some i"
  shows "Suc (overtake_bound t (snd (claim_at i s))) = overtake_bound t s"
proof -
  let ?ts = "map w_ticket (adm_waiting s)"
  have i: "i < length ?ts" "?ts ! i = u" using assms(4) by (auto simp: position_Some)
  have ts': "map w_ticket (adm_waiting (snd (claim_at i s))) = filter (\<lambda>x. x \<noteq> u) ?ts"
    using remove_at_filter [OF assms(1) i(1)] i(2) by (simp add: remove_at_map)
  have ah: "ahead_of t (filter (\<lambda>x. x \<noteq> u) ?ts) = filter (\<lambda>x. x \<noteq> u) (ahead_of t ?ts)"
    using assms(3) by (rule ahead_filter)
  show ?thesis
  proof (cases "u \<in> set (ahead_of t ?ts)")
    case True
    have "Suc (length (filter (\<lambda>x. x \<noteq> u) (ahead_of t ?ts))) = length (ahead_of t ?ts)"
      using filter_neq_length [OF ahead_distinct [OF assms(1)] True] .
    then show ?thesis using ts' ah True assms(2) by (simp add: overtake_bound_def Let_def)
  next
    case False
    have "filter (\<lambda>x. x \<noteq> u) (ahead_of t ?ts) = ahead_of t ?ts"
      using False by (intro filter_True) auto
    then show ?thesis using ts' ah False assms(2,3) by (simp add: overtake_bound_def Let_def)
  qed
qed

lemma claim_keeps_starved:
  assumes "queued_starved t s" and "distinct (map w_ticket (adm_waiting s))"
    and "position (\<lambda>w. w_ticket w = u) (adm_waiting s) = Some i" and "u \<noteq> t"
  shows "queued_starved t (snd (claim_at i s))"
proof -
  obtain w where w: "w \<in> set (adm_waiting s)" "w_ticket w = t" "starved w"
    using assms(1) by (auto simp: queued_starved_def)
  obtain j where j: "j < length (adm_waiting s)" "adm_waiting s ! j = w"
    using w(1) by (auto simp: in_set_conv_nth)
  have "w_ticket (adm_waiting s ! i) = u" using assms(3) by (simp add: position_Some)
  then have "j \<noteq> i" using j w(2) assms(4) by auto
  then have "w \<in> set (remove_at i (adm_waiting s))" using remove_at_nth j by metis
  then show ?thesis using w by (auto simp: queued_starved_def)
qed

text \<open>Once claimed, a ticket is gone from the queue.\<close>

lemma claim_removes:
  assumes "distinct (map w_ticket (adm_waiting s))"
    and "position (\<lambda>w. w_ticket w = t) (adm_waiting s) = Some i"
  shows "\<not> queued t (snd (claim_at i s))"
proof -
  have i: "i < length (map w_ticket (adm_waiting s))" "map w_ticket (adm_waiting s) ! i = t"
    using assms(2) by (auto simp: position_Some)
  have "map w_ticket (adm_waiting (snd (claim_at i s))) = filter (\<lambda>x. x \<noteq> t) (map w_ticket (adm_waiting s))"
    using remove_at_filter [OF assms(1) i(1)] i(2) by (simp add: remove_at_map)
  then have "t \<notin> set (map w_ticket (adm_waiting (snd (claim_at i s))))" by simp
  then show ?thesis unfolding queued_def by simp
qed

definition overtake_step :: "nat \<Rightarrow> adm_sys \<Rightarrow> adm_event \<Rightarrow> bool" where
  "overtake_step t \<sigma> e \<longleftrightarrow> queued_starved t (sys_pool (adm_step \<sigma> e)) \<and>
     granted_by \<sigma> e + overtake_bound t (sys_pool (adm_step \<sigma> e)) \<le> overtake_bound t (sys_pool \<sigma>)"

lemma overtake_poll:
  assumes wf: "adm_wf (sys_pool \<sigma>)" and st: "queued_starved t (sys_pool \<sigma>)"
    and dist: "distinct (map w_ticket (adm_waiting (sys_pool \<sigma>)))"
    and q: "queued t (sys_pool (adm_step \<sigma> (EvPoll now dl u)))"
  shows "overtake_step t \<sigma> (EvPoll now dl u)"
proof -
  let ?s = "sys_pool \<sigma>"
  obtain r s' where poll: "adm_poll now dl u ?s = (r, s')" by force
  show ?thesis using wf poll
  proof (cases rule: adm_poll_cases)
    case timed_out
    then show ?thesis
      using poll st by (simp add: overtake_step_def granted_by_def queued_starved_def overtake_bound_def)
  next
    case (pending b)
    then show ?thesis
      using poll grant_next_overtake [OF st dist pending(2)] by (simp add: overtake_step_def granted_by_def)
  next
    case (acquired b s1 i)
    have s1: "queued_starved t s1" "overtake_bound t s1 = overtake_bound t ?s"
      using grant_next_overtake [OF st dist acquired(1)] by simp_all
    have dist1: "distinct (map w_ticket (adm_waiting s1))"
      using grant_next_frame [OF acquired(1)] dist by simp
    have step: "sys_pool (adm_step \<sigma> (EvPoll now dl u)) = snd (claim_at i s1)"
      using poll acquired(5,6) by simp
    have ne: "u \<noteq> t" using q step claim_removes [OF dist1] acquired(3) by auto
    show ?thesis
      using claim_keeps_starved [OF s1(1) dist1 acquired(3) ne]
        overtake_claim [OF dist1 acquired(2) ne acquired(3)] s1(2) step
      by (simp add: overtake_step_def granted_by_def)
  qed
qed

lemma overtake_quiet:
  assumes "queued_starved t (sys_pool \<sigma>)" and "sys_permits (adm_step \<sigma> e) = sys_permits \<sigma>"
    and "queued_starved t (sys_pool (adm_step \<sigma> e))"
    and "overtake_bound t (sys_pool (adm_step \<sigma> e)) \<le> overtake_bound t (sys_pool \<sigma>)"
  shows "overtake_step t \<sigma> e"
  using assms by (simp add: overtake_step_def granted_by_def)

lemma filter_tickets:
  "map w_ticket (filter (\<lambda>w. w_ticket w \<noteq> u) ws) = filter (\<lambda>x. x \<noteq> u) (map w_ticket ws)"
  by (induction ws) auto

lemma overtake_guard_drop:
  assumes "queued_starved t (sys_pool \<sigma>)" and q: "queued t (sys_pool (adm_step \<sigma> (EvGuardDrop cnt u)))"
  shows "overtake_step t \<sigma> (EvGuardDrop cnt u)"
proof -
  have ne: "u \<noteq> t" using q by (auto simp: queued_def wait_guard_drop_def Let_def split: if_splits)
  have "queued_starved t (wait_guard_drop cnt u (sys_pool \<sigma>))"
    using assms(1) ne by (auto simp: queued_starved_def wait_guard_drop_def Let_def)
  moreover have "overtake_bound t (wait_guard_drop cnt u (sys_pool \<sigma>)) \<le> overtake_bound t (sys_pool \<sigma>)"
    by (rule overtake_drop [OF ne]) (simp_all add: wait_guard_drop_def Let_def filter_tickets)
  ultimately show ?thesis using assms(1) by (intro overtake_quiet) simp_all
qed

lemma overtake_arrivals:
  assumes st: "queued_starved t (sys_pool \<sigma>)"
  shows "overtake_step t \<sigma> (EvEnqueue cost p now dl)"
    "overtake_step t \<sigma> (EvResourceToSlot u cost p now)"
proof -
  have app: "queued_starved t s' \<and> overtake_bound t s' \<le> overtake_bound t (sys_pool \<sigma>)"
    if "adm_waiting s' = adm_waiting (sys_pool \<sigma>) @ ws" "adm_granted s' = adm_granted (sys_pool \<sigma>)"
    for s' ws
    using st that overtake_append [OF queued_starved_queued [OF st], of s' "map w_ticket ws"]
    by (auto simp: queued_starved_def)
  have "queued_starved t (snd (adm_enqueue cost p now dl (sys_pool \<sigma>))) \<and>
    overtake_bound t (snd (adm_enqueue cost p now dl (sys_pool \<sigma>))) \<le> overtake_bound t (sys_pool \<sigma>)"
    using app [of "snd (adm_enqueue cost p now dl (sys_pool \<sigma>))" "[]"]
      app [of "snd (adm_enqueue cost p now dl (sys_pool \<sigma>))"]
    by (auto simp: adm_enqueue_def)
  then show "overtake_step t \<sigma> (EvEnqueue cost p now dl)"
    using st by (intro overtake_quiet)
      (auto simp: note_issued_def split: prod.splits sum.splits)
  have "queued_starved t (resource_to_slot u cost p now (sys_pool \<sigma>)) \<and>
    overtake_bound t (resource_to_slot u cost p now (sys_pool \<sigma>)) \<le> overtake_bound t (sys_pool \<sigma>)"
    by (rule app) (simp_all add: resource_to_slot_def resource_guard_drop_def Let_def)
  then show "overtake_step t \<sigma> (EvResourceToSlot u cost p now)"
    using st by (intro overtake_quiet) simp_all
qed

lemma overtake_others:
  assumes st: "queued_starved t (sys_pool \<sigma>)"
    and same: "adm_waiting (sys_pool (adm_step \<sigma> e)) = adm_waiting (sys_pool \<sigma>)"
      "adm_granted (sys_pool (adm_step \<sigma> e)) = adm_granted (sys_pool \<sigma>)"
      "length (sys_permits (adm_step \<sigma> e)) \<le> length (sys_permits \<sigma>)"
  shows "overtake_step t \<sigma> e"
  using assms overtake_bound_frame [of "sys_pool (adm_step \<sigma> e)" "sys_pool \<sigma>" t]
  by (simp add: overtake_step_def granted_by_def queued_starved_def)

lemma overtake_event:
  assumes "adm_inv \<sigma>" and "sys_issued \<sigma> \<le> u64_max" and "queued_starved t (sys_pool \<sigma>)"
    and "queued t (sys_pool (adm_step \<sigma> e))"
  shows "overtake_step t \<sigma> e"
proof -
  have wf: "adm_wf (sys_pool \<sigma>)" and dist: "distinct (map w_ticket (adm_waiting (sys_pool \<sigma>)))"
    using assms(1,2) by (auto simp: adm_inv_def tickets_ok_def tickets_def)
  show ?thesis
  proof (cases e)
    case (EvPoll now dl u)
    then show ?thesis using overtake_poll [OF wf assms(3) dist] assms(4) by blast
  next
    case (EvGuardDrop cnt u)
    then show ?thesis using overtake_guard_drop assms(3,4) by blast
  qed (use assms(3) overtake_arrivals in \<open>auto intro!: overtake_others length_remove1
      simp: adm_timer_expired_def permit_drop_def register_resource_waiter_def note_issued_def
        resource_guard_drop_def set_limit_def set_ceiling_def set_max_waiters_def
        record_transition_timeout_def Let_def length_remove1\<close>)
qed

lemma grants_bounded:
  "adm_inv \<sigma> \<Longrightarrow> sys_issued (foldl adm_step \<sigma> es) \<le> u64_max \<Longrightarrow> list_all adm_event_ok es \<Longrightarrow>
   queued_starved t (sys_pool \<sigma>) \<Longrightarrow>
   grants_while_queued t \<sigma> es \<le> overtake_bound t (sys_pool \<sigma>)"
proof (induction es arbitrary: \<sigma>)
  case Nil
  then show ?case by simp
next
  case (Cons e es)
  have inv': "adm_inv (adm_step \<sigma> e)" using Cons.prems adm_step_inv by simp
  have "sys_issued \<sigma> \<le> u64_max"
    using Cons.prems adm_system.run_mono [of \<sigma> "e # es"] by simp
  then have step: "queued t (sys_pool (adm_step \<sigma> e)) \<Longrightarrow> overtake_step t \<sigma> e"
    using Cons.prems overtake_event by blast
  show ?case
  proof (cases "queued t (sys_pool (adm_step \<sigma> e))")
    case True
    have "grants_while_queued t (adm_step \<sigma> e) es \<le> overtake_bound t (sys_pool (adm_step \<sigma> e))"
      using Cons.IH [OF inv'] Cons.prems step [OF True] by (simp add: overtake_step_def)
    then show ?thesis using step [OF True] True by (simp add: overtake_step_def)
  qed simp
qed

lemma ahead_length:
  "position (\<lambda>w. w_ticket w = t) ws = Some k \<Longrightarrow> length (ahead_of t (map w_ticket ws)) = k"
  by (induction ws arbitrary: k) (auto simp: ahead_of_def split: if_splits)

lemma overtake_bound_position:
  "position (\<lambda>w. w_ticket w = t) (adm_waiting s) = Some k \<Longrightarrow> overtake_bound t s \<le> Suc k"
  by (drule ahead_length) (auto simp: overtake_bound_def Let_def split: option.splits)

section \<open>Weighted round robin between the classes\<close>

definition class_fits :: "nat \<Rightarrow> adm \<Rightarrow> bool" where
  "class_fits c s \<longleftrightarrow> (\<exists>w \<in> set (adm_waiting s). priority_index (w_priority w) = c \<and> fits s w)"

definition no_starved :: "adm \<Rightarrow> bool" where
  "no_starved s \<longleftrightarrow> (\<forall>w \<in> set (adm_waiting s). \<not> starved w)"

definition selected_class :: "adm \<Rightarrow> nat option" where
  "selected_class s = map_option (\<lambda>i. priority_index (w_priority (adm_waiting s ! i)))
     (fst (selected_waiter s))"

text \<open>
  Consecutive selections, each made in a state where class \<open>c\<close> has a request that fits and no
  reservation is in force, none of them of class \<open>c\<close>. Between two selections anything may happen
  to the pool except another selection, so only the credits carry over.
\<close>

fun passed_over :: "nat \<Rightarrow> adm list \<Rightarrow> bool" where
  "passed_over c [] \<longleftrightarrow> True"
| "passed_over c (s # ss) \<longleftrightarrow>
     adm_wf s \<and> no_starved s \<and> class_fits c s \<and> selected_class s \<noteq> Some c \<and>
     (case ss of [] \<Rightarrow> True | s2 # _ \<Rightarrow> adm_credits s2 = adm_credits (snd (selected_waiter s))) \<and>
     passed_over c ss"

definition credit_sum :: "nat list \<Rightarrow> nat" where
  "credit_sum cr = cr ! 0 + cr ! 1 + cr ! 2"

definition pass_bound :: "nat \<Rightarrow> nat list \<Rightarrow> nat" where
  "pass_bound c cr = credit_sum cr - cr ! c +
     (if cr ! c = 0 then credit_sum PRIORITY_WEIGHTS - PRIORITY_WEIGHTS ! c else 0)"

lemma credit_sum_spend:
  assumes "length cr = 3" and "d < 3" and "c < 3" and "d \<noteq> c" and "cr ! d \<noteq> 0"
  shows "Suc (credit_sum (cr[d := cr ! d - 1]) - cr[d := cr ! d - 1] ! c) = credit_sum cr - cr ! c"
  using assms by (auto simp: credit_sum_def less_3_cases nth_list_update)

text \<open>Work conservation: with a fitting request and no reservation, something is selected.\<close>

lemma selection_progress:
  assumes "adm_wf s" and "no_starved s" and "class_fits c s" and "c < 3"
  shows "\<exists>i s'. selected_waiter s = (Some i, s')"
proof -
  obtain w where w: "w \<in> set (adm_waiting s)" "priority_index (w_priority w) = c" "fits s w"
    using assms(3) by (auto simp: class_fits_def)
  have "position starved (adm_waiting s) = None"
    using assms(2) by (simp add: no_starved_def position_None)
  moreover have "select_class (s\<lparr>adm_credits := PRIORITY_WEIGHTS\<rparr>) classes \<noteq> None"
    using w weights_pos [OF assms(4)] assms(4) by (auto simp: select_class_None)
  ultimately show ?thesis by (auto simp: selected_waiter_def Let_def split: option.splits)
qed

lemma pass_bound_decreases:
  assumes "adm_wf s" and "no_starved s" and "class_fits c s" and c: "c < 3"
    and other: "selected_class s \<noteq> Some c"
  shows "pass_bound c (adm_credits (snd (selected_waiter s))) < pass_bound c (adm_credits s)"
proof -
  obtain i s' where sel: "selected_waiter s = (Some i, s')"
    using selection_progress assms(1-4) by blast
  obtain w where w: "w \<in> set (adm_waiting s)" "priority_index (w_priority w) = c" "fits s w"
    using assms(3) by (auto simp: class_fits_def)
  have len: "length (adm_credits s) = 3" using assms(1) by (simp add: adm_wf_def)
  have ns: "position starved (adm_waiting s) = None"
    using assms(2) by (simp add: no_starved_def position_None)
  show ?thesis using sel
  proof (cases rule: selected_cases)
    case reserved
    then show ?thesis using ns by simp
  next
    case (served d)
    have d: "d < 3" "adm_credits s ! d \<noteq> 0" "priority_index (w_priority (adm_waiting s ! i)) = d"
      using select_class_Some [OF served(2)] by auto
    have ne: "d \<noteq> c" using other sel d(3) by (auto simp: selected_class_def)
    have cr: "adm_credits s' = (adm_credits s)[d := adm_credits s ! d - 1]"
      using served(3) by (simp add: spend_credit_def)
    have "Suc (credit_sum (adm_credits s') - adm_credits s' ! c) =
      credit_sum (adm_credits s) - adm_credits s ! c"
      using credit_sum_spend [OF len d(1) c ne d(2)] cr by simp
    moreover have "adm_credits s' ! c = adm_credits s ! c" using cr ne by simp
    ultimately show ?thesis using sel by (simp add: pass_bound_def)
  next
    case (refilled d)
    let ?W = PRIORITY_WEIGHTS
    have d: "d < 3" "?W ! d \<noteq> 0" "priority_index (w_priority (adm_waiting s ! i)) = d"
      using select_class_Some [OF refilled(3)] by auto
    have ne: "d \<noteq> c" using other sel d(3) by (auto simp: selected_class_def)
    have cr: "adm_credits s' = ?W[d := ?W ! d - 1]"
      using refilled(4) by (simp add: spend_credit_def)
    have zero: "adm_credits s ! c = 0"
      using refilled(2) w c by (auto simp: select_class_None)
    have "Suc (credit_sum (adm_credits s') - adm_credits s' ! c) = credit_sum ?W - ?W ! c"
      using credit_sum_spend [OF _ d(1) c ne d(2)] cr by simp
    moreover have "adm_credits s' ! c \<noteq> 0" using cr ne weights_pos [OF c] by simp
    ultimately show ?thesis using sel zero by (simp add: pass_bound_def)
  qed
qed

lemma passed_over_bound:
  "passed_over c (s # ss) \<Longrightarrow> c < 3 \<Longrightarrow> length (s # ss) \<le> pass_bound c (adm_credits s)"
proof (induction ss arbitrary: s)
  case Nil
  then have "pass_bound c (adm_credits (snd (selected_waiter s))) < pass_bound c (adm_credits s)"
    by (intro pass_bound_decreases) auto
  then show ?case by simp
next
  case (Cons s2 ss)
  have "pass_bound c (adm_credits (snd (selected_waiter s))) < pass_bound c (adm_credits s)"
    using Cons.prems by (intro pass_bound_decreases) auto
  moreover have "adm_credits s2 = adm_credits (snd (selected_waiter s))"
    and "passed_over c (s2 # ss)"
    using Cons.prems(1) by auto
  ultimately show ?case using Cons.IH [of s2] Cons.prems(2) by simp
qed

lemma pass_bound_max:
  assumes "adm_wf s" and "c < 3"
  shows "pass_bound c (adm_credits s) \<le> 2 * (6 - PRIORITY_WEIGHTS ! c)"
proof -
  have "\<forall>d < 3. adm_credits s ! d \<le> PRIORITY_WEIGHTS ! d"
    using assms(1) by (simp add: adm_wf_def)
  then have "adm_credits s ! 0 \<le> 3" "adm_credits s ! 1 \<le> 2" "adm_credits s ! 2 \<le> 1"
    by (auto simp: less_3_cases)
  then show ?thesis using assms(2) by (auto simp: pass_bound_def credit_sum_def less_3_cases)
qed

section \<open>Properties\<close>


text \<open>
  Two units, one held: the request for two units (ticket 1) is passed over by seven one-unit
  requests; from then on nobody overtakes it.
\<close>

definition backfill_round :: "nat \<Rightarrow> adm_event list" where
  "backfill_round t = [EvEnqueue 1 Interactive 0 100, EvPoll 1 100 t, EvPermitDrop 1]"

definition starving_events :: "adm_event list" where
  "starving_events =
     [EvEnqueue 1 Normal 0 100, EvPoll 1 100 0, EvEnqueue 2 Normal 0 100] @
     concat (map backfill_round [2, 3, 4, 5, 6, 7])"


text \<open>
  weighted fairness. While requests of a class are waiting that fit the free capacity and no
  reservation is in force, consecutive selections pass the class over at most 6 (interactive), 8
  (normal) or 10 (background) times: a background request is not starved by an interactive stream.
\<close>

theorem class_passed_over_boundedly:
  assumes "passed_over (priority_index p) ss"
  shows "length ss \<le> 2 * (6 - PRIORITY_WEIGHTS ! priority_index p)"
proof (cases ss)
  case (Cons s ss')
  then have "length ss \<le> pass_bound (priority_index p) (adm_credits s)"
    using passed_over_bound assms by simp
  moreover have "adm_wf s" using assms Cons by simp
  ultimately show ?thesis using pass_bound_max [of s "priority_index p"] by simp
qed simp

definition mixed_queue :: adm where
  "mixed_queue = (adm_new 4 8)\<lparr>adm_waiting :=
     [\<lparr>w_ticket = 0, w_cost = 1, w_priority = Background, w_enqueued_at = 0, w_bypasses = 0\<rparr>,
      \<lparr>w_ticket = 1, w_cost = 1, w_priority = Interactive, w_enqueued_at = 0, w_bypasses = 0\<rparr>]\<rparr>"

theorem class_passed_over_boundedly_witness:
  "passed_over 2 [mixed_queue] \<and> length [mixed_queue] \<le> 10"
proof -
  have cr: "adm_credits mixed_queue = [3, 2, 1]" "adm_limit mixed_queue = 4"
      "adm_ceiling mixed_queue = 4" "adm_max_waiters mixed_queue = 8" "adm_granted mixed_queue = None"
    by (simp_all add: adm_eval mixed_queue_def)
  have "adm_wf mixed_queue"
    using cr by (auto simp: adm_wf_def less_3_cases usize_max_def u64_max_def)
  moreover have "no_starved mixed_queue" "class_fits 2 mixed_queue"
      "selected_class mixed_queue \<noteq> Some 2"
    by (simp_all add: adm_eval mixed_queue_def no_starved_def class_fits_def selected_class_def)
  ultimately have p: "passed_over (priority_index Background) [mixed_queue]" by simp
  then show ?thesis using class_passed_over_boundedly [OF p] by simp
qed

text \<open>
  Work conservation. A selection fails only for want of capacity: with a reservation in force,
  when the reserved request (the first in the queue passed over six times) does not fit; otherwise
  when no waiting request fits.
\<close>

theorem selection_fails_only_without_capacity:
  assumes "adm_wf s"
  shows "fst (selected_waiter s) = None \<longleftrightarrow>
    (case position starved (adm_waiting s) of
       Some i \<Rightarrow> free s < charge s (w_cost (adm_waiting s ! i))
     | None \<Rightarrow> (\<forall>w \<in> set (adm_waiting s). \<not> fits s w))"
proof (cases "position starved (adm_waiting s)")
  case (Some i)
  then show ?thesis by (simp add: selected_waiter_def)
next
  case None
  then have ns: "no_starved s" by (simp add: no_starved_def position_None)
  have "fits s w \<Longrightarrow> w \<in> set (adm_waiting s) \<Longrightarrow> fst (selected_waiter s) \<noteq> None" for w
    using selection_progress [OF assms ns, of "priority_index (w_priority w)"]
    by (fastforce simp: class_fits_def)
  moreover have "fst (selected_waiter s) = Some i \<Longrightarrow> \<exists>w \<in> set (adm_waiting s). fits s w" for i
    using selected_fits [of s i "snd (selected_waiter s)"] by (metis nth_mem prod.collapse)
  ultimately show ?thesis using None by fastforce
qed

theorem selection_fails_only_without_capacity_witness:
  "fst (selected_waiter (adm_new 1 1)) = None"
proof -
  have "adm_wf (adm_new 1 1)"
    by (auto simp: adm_new_def adm_wf_def less_3_cases)
  from selection_fails_only_without_capacity [OF this] show ?thesis by (simp add: adm_new_def)
qed

end
