(* ===== verification/Raw_Admission.thy ===== *)
theory Raw_Admission
  imports FL_Prelude
begin

text \<open>
  Admission of raw Ollama-compatible requests (\<open>proxy/admission.rs\<close>): a plain concurrency limit
  with a bounded number of waiters that are woken together and race for a freed slot. \<open>raw\<close> is
  \<open>RawAdmissionState\<close>; each block the code runs under the lock is one definition; the record
  \<open>raw_sys\<close> adds the requests around it: live permits, requests inside the wait loop, requests
  between the loop and the final decrement, and requests whose future was dropped while waiting.
\<close>

section \<open>State and critical sections\<close>

record raw =
  r_active :: nat
  r_limit :: nat
  r_wait :: duration
  r_waiting :: nat
  r_admitted :: nat
  r_rejected :: nat
  r_average_ms :: "nat option"

definition raw_new :: "nat \<Rightarrow> duration \<Rightarrow> raw" where
  "raw_new limit w = \<lparr>r_active = 0, r_limit = max limit 1, r_wait = w, r_waiting = 0,
     r_admitted = 0, r_rejected = 0, r_average_ms = None\<rparr>"

definition raw_set :: "nat \<Rightarrow> duration \<Rightarrow> raw \<Rightarrow> raw" where
  "raw_set limit w s = s\<lparr>r_limit := max limit 1, r_wait := w\<rparr>"

definition raw_retry_after :: "raw \<Rightarrow> nat" where
  "raw_retry_after s =
     (let per_request = max (case r_average_ms s of None \<Rightarrow> 5000 | Some a \<Rightarrow> a) 250;
          ahead = sat_add usize_max (r_waiting s) 1;
          lanes = max (r_limit s) 1
      in clamp 1 120 (div_ceil (sat_mul u64_max ahead per_request div lanes) 1000))"

datatype raw_entry = RawAdmitted | RawRejected nat | RawQueued

text \<open>
  The first block of \<open>acquire\<close>. The counters are plain \<open>+= 1\<close>, and the waiter bound
  \<open>limit * 8\<close> is a product of machine integers: both wrap in a release build.
\<close>

definition raw_enter :: "instant \<Rightarrow> instant \<Rightarrow> raw \<Rightarrow> raw_entry \<times> raw" where
  "raw_enter now deadline s =
     (if r_active s < r_limit s
      then (RawAdmitted, s\<lparr>r_active := r_active s + 1,
                            r_admitted := wrapping_add u64_max (r_admitted s) 1\<rparr>)
      else if deadline \<le> now \<or> r_limit s * 8 mod (usize_max + 1) \<le> r_waiting s
      then (let s' = s\<lparr>r_rejected := wrapping_add u64_max (r_rejected s) 1\<rparr>
            in (RawRejected (raw_retry_after s'), s'))
      else (RawQueued, s\<lparr>r_waiting := r_waiting s + 1\<rparr>))"

text \<open>One look at the state inside the wait loop: \<open>True\<close> when the slot was taken.\<close>

definition raw_retry :: "raw \<Rightarrow> bool \<times> raw" where
  "raw_retry s =
     (if r_active s < r_limit s
      then (True, s\<lparr>r_active := r_active s + 1, r_admitted := wrapping_add u64_max (r_admitted s) 1\<rparr>)
      else (False, s))"

definition raw_expire :: "raw \<Rightarrow> nat \<times> raw" where
  "raw_expire s =
     (let s' = s\<lparr>r_rejected := wrapping_add u64_max (r_rejected s) 1\<rparr> in (raw_retry_after s', s'))"

text \<open>The decrement after the loop.\<close>

definition raw_leave :: "raw \<Rightarrow> raw" where
  "raw_leave s = s\<lparr>r_waiting := (if r_waiting s = 0 then usize_max else r_waiting s - 1)\<rparr>"

text \<open>Dropping a permit after \<open>elapsed\<close> milliseconds.\<close>

definition raw_permit_drop :: "nat \<Rightarrow> raw \<Rightarrow> raw" where
  "raw_permit_drop elapsed s =
     s\<lparr>r_active := r_active s - 1,
       r_average_ms := Some (case r_average_ms s of
           None \<Rightarrow> elapsed
         | Some average \<Rightarrow> sat_add u64_max (sat_mul u64_max average 4) elapsed div 5)\<rparr>"

section \<open>The requests around it\<close>

record raw_sys =
  rs_pool :: raw
  rs_permits :: nat
  rs_looping :: nat
  rs_leaving :: nat
  rs_dropped :: nat

datatype raw_event =
    RwEnter instant instant
  | RwRetry
  | RwExpire
  | RwLeave
  | RwCancel
  | RwPermitDrop nat
  | RwSet nat duration

definition raw_sys_new :: "nat \<Rightarrow> duration \<Rightarrow> raw_sys" where
  "raw_sys_new limit w = \<lparr>rs_pool = raw_new limit w, rs_permits = 0, rs_looping = 0,
     rs_leaving = 0, rs_dropped = 0\<rparr>"

text \<open>
  \<open>RwCancel\<close> drops the future of a request that waits in the loop (its client went away): no
  guard is registered at that point, so no code of the pool runs.
\<close>

fun raw_step :: "raw_sys \<Rightarrow> raw_event \<Rightarrow> raw_sys" where
  "raw_step \<sigma> (RwEnter now dl) =
     (case raw_enter now dl (rs_pool \<sigma>) of
        (RawAdmitted, s) \<Rightarrow> \<sigma>\<lparr>rs_pool := s, rs_permits := rs_permits \<sigma> + 1\<rparr>
      | (RawRejected _, s) \<Rightarrow> \<sigma>\<lparr>rs_pool := s\<rparr>
      | (RawQueued, s) \<Rightarrow> \<sigma>\<lparr>rs_pool := s, rs_looping := rs_looping \<sigma> + 1\<rparr>)"
| "raw_step \<sigma> RwRetry =
     (if rs_looping \<sigma> = 0 then \<sigma>
      else case raw_retry (rs_pool \<sigma>) of
        (True, s) \<Rightarrow> \<sigma>\<lparr>rs_pool := s, rs_permits := rs_permits \<sigma> + 1,
                       rs_looping := rs_looping \<sigma> - 1, rs_leaving := rs_leaving \<sigma> + 1\<rparr>
      | (False, s) \<Rightarrow> \<sigma>\<lparr>rs_pool := s\<rparr>)"
| "raw_step \<sigma> RwExpire =
     (if rs_looping \<sigma> = 0 then \<sigma>
      else \<sigma>\<lparr>rs_pool := snd (raw_expire (rs_pool \<sigma>)),
             rs_looping := rs_looping \<sigma> - 1, rs_leaving := rs_leaving \<sigma> + 1\<rparr>)"
| "raw_step \<sigma> RwLeave =
     (if rs_leaving \<sigma> = 0 then \<sigma>
      else \<sigma>\<lparr>rs_pool := raw_leave (rs_pool \<sigma>), rs_leaving := rs_leaving \<sigma> - 1\<rparr>)"
| "raw_step \<sigma> RwCancel =
     (if rs_looping \<sigma> = 0 then \<sigma>
      else \<sigma>\<lparr>rs_looping := rs_looping \<sigma> - 1, rs_dropped := rs_dropped \<sigma> + 1\<rparr>)"
| "raw_step \<sigma> (RwPermitDrop elapsed) =
     (if rs_permits \<sigma> = 0 then \<sigma>
      else \<sigma>\<lparr>rs_pool := raw_permit_drop elapsed (rs_pool \<sigma>), rs_permits := rs_permits \<sigma> - 1\<rparr>)"
| "raw_step \<sigma> (RwSet limit w) = \<sigma>\<lparr>rs_pool := raw_set limit w (rs_pool \<sigma>)\<rparr>"

definition raw_inv :: "raw_sys \<Rightarrow> bool" where
  "raw_inv \<sigma> \<longleftrightarrow> 1 \<le> r_limit (rs_pool \<sigma>) \<and> r_active (rs_pool \<sigma>) = rs_permits \<sigma> \<and>
     r_waiting (rs_pool \<sigma>) = rs_looping \<sigma> + rs_leaving \<sigma> + rs_dropped \<sigma>"

lemma raw_inv_new: "raw_inv (raw_sys_new limit w)"
  by (simp add: raw_inv_def raw_sys_new_def raw_new_def)

lemma raw_step_inv: "raw_inv \<sigma> \<Longrightarrow> raw_inv (raw_step \<sigma> e)"
  by (cases e)
    (auto simp: raw_inv_def raw_enter_def raw_retry_def raw_expire_def raw_leave_def
      raw_permit_drop_def raw_set_def Let_def)

lemma raw_dropped_step: "rs_dropped \<sigma> \<le> rs_dropped (raw_step \<sigma> e)"
  by (cases e) (auto split: prod.splits raw_entry.splits bool.splits)

interpretation raw_system: monotone_system raw_step "\<lambda>_. True" raw_inv rs_dropped
  by unfold_locales (auto intro: raw_step_inv raw_dropped_step)

definition raw_run :: "nat \<Rightarrow> duration \<Rightarrow> raw_event list \<Rightarrow> raw_sys" where
  "raw_run limit w es = foldl raw_step (raw_sys_new limit w) es"

lemma list_all_True [simp]: "list_all (\<lambda>_. True) xs"
  by (induction xs) auto

lemma raw_run_inv: "raw_inv (raw_run limit w es)"
  unfolding raw_run_def by (rule raw_system.run_inv) (simp_all add: raw_inv_new)

section \<open>Properties\<close>

text \<open>
  the raw slot count. Whatever the interleaving, the active count is the number of live permits,
  and a request is only ever admitted into a free slot, so right after an admission the count is
  within the limit in force.
\<close>

theorem raw_admission_ledger:
  fixes limit :: nat and es :: "raw_event list" and w now deadline :: nat
  defines "s \<equiv> rs_pool (raw_run limit w es)"
  shows "r_active s = rs_permits (raw_run limit w es) \<and>
    (fst (raw_enter now deadline s) = RawAdmitted \<longleftrightarrow> r_active s < r_limit s) \<and>
    (fst (raw_enter now deadline s) = RawAdmitted \<longrightarrow>
       r_active (snd (raw_enter now deadline s)) \<le> r_limit s) \<and>
    (fst (raw_retry s) \<longrightarrow> r_active (snd (raw_retry s)) \<le> r_limit s)"
  using raw_run_inv [of limit w es] unfolding s_def
  by (auto simp: raw_inv_def raw_enter_def raw_retry_def Let_def)

theorem raw_admission_ledger_witness:
  "r_active (rs_pool (raw_run 1 5 [RwEnter 0 9])) = rs_permits (raw_run 1 5 [RwEnter 0 9])"
  using raw_admission_ledger [of 1 5 "[RwEnter 0 9]" 0 0] by blast

text \<open>
  dropped waiters are never uncounted. \<open>acquire\<close> counts a waiter before it awaits and
  uncounts it only after the loop, so a request cancelled while it waits stays counted: once
  eight cancelled requests per slot have accumulated, every request that finds no free slot is
  refused at once, although nobody is waiting and its deadline has not passed.
\<close>

theorem raw_cancelled_waiters_exhaust_the_queue:
  assumes "8 * r_limit (rs_pool (raw_run limit w (es @ fs))) \<le> rs_dropped (raw_run limit w es)"
    and "r_limit (rs_pool (raw_run limit w (es @ fs))) \<le> r_active (rs_pool (raw_run limit w (es @ fs)))"
  shows "\<exists>retry. fst (raw_enter now deadline (rs_pool (raw_run limit w (es @ fs)))) = RawRejected retry"
proof -
  let ?\<sigma> = "raw_run limit w (es @ fs)"
  have "rs_dropped (raw_run limit w es) \<le> rs_dropped ?\<sigma>"
    unfolding raw_run_def foldl_append
    by (rule raw_system.run_mono) (use raw_run_inv in \<open>simp_all add: raw_run_def\<close>)
  moreover have "rs_dropped ?\<sigma> \<le> r_waiting (rs_pool ?\<sigma>)"
    using raw_run_inv [of limit w "es @ fs"] by (simp add: raw_inv_def)
  moreover have "r_limit (rs_pool ?\<sigma>) * 8 mod (usize_max + 1) \<le> 8 * r_limit (rs_pool ?\<sigma>)"
    by (metis mod_less_eq_dividend mult.commute)
  ultimately have "r_limit (rs_pool ?\<sigma>) * 8 mod (usize_max + 1) \<le> r_waiting (rs_pool ?\<sigma>)"
    using assms(1) by linarith
  then show ?thesis using assms(2) by (simp add: raw_enter_def Let_def)
qed

definition leaking_events :: "raw_event list" where
  "leaking_events =
    [RwEnter 0 9,
     RwEnter 0 9, RwCancel, RwEnter 0 9, RwCancel,
     RwEnter 0 9, RwCancel, RwEnter 0 9, RwCancel,
     RwEnter 0 9, RwCancel, RwEnter 0 9, RwCancel,
     RwEnter 0 9, RwCancel, RwEnter 0 9, RwCancel]"

theorem raw_cancelled_waiters_exhaust_the_queue_witness:
  "rs_looping (raw_run 1 5 (leaking_events @ [])) = 0 \<and>
   (\<exists>retry. fst (raw_enter 0 9 (rs_pool (raw_run 1 5 (leaking_events @ [])))) = RawRejected retry)"
proof -
  have run: "raw_run 1 5 (leaking_events @ []) =
    \<lparr>rs_pool = \<lparr>r_active = 1, r_limit = 1, r_wait = 5, r_waiting = 8, r_admitted = 1,
       r_rejected = 0, r_average_ms = None\<rparr>,
     rs_permits = 1, rs_looping = 0, rs_leaving = 0, rs_dropped = 8\<rparr>"
    by (simp add: raw_run_def raw_sys_new_def raw_new_def raw_enter_def leaking_events_def
        wrapping_add_def u64_max_def usize_max_def)
  show ?thesis
    using raw_cancelled_waiters_exhaust_the_queue [of 1 5 leaking_events "[]" 0 9] run by simp
qed

end
