(* ===== verification/Upstream_Retry.thy ===== *)
theory Upstream_Retry
  imports FL_Prelude
begin

text \<open>
  How a request reaches Ollama: the retry loop of \<open>proxy/retry.rs\<close>, which the managed path
  (\<open>platform/execution/upstream.rs\<close>) repeats, and the passthrough's single restart of the Ollama
  application (\<open>forward_inner\<close> in \<open>proxy/mod.rs\<close>). What the upstream answers to the n-th
  send is a parameter, a function of the attempt; so is the sub-second clock reading that the
  jitter is derived from. Durations and instants are nanoseconds.
\<close>

section \<open>The retry policy\<close>

text \<open>
  A transport failure carries the two flags of \<open>reqwest::Error\<close> that the policy reads:
  \<open>is_connect\<close> and \<open>is_timeout\<close>. A connect timeout sets both.
\<close>

datatype outcome = Response nat | Failure bool bool

definition MAX_ATTEMPTS :: nat where "MAX_ATTEMPTS = 3"
definition RETRY_BASE_DELAY :: duration where "RETRY_BASE_DELAY = 200000000"
definition RETRY_JITTER_MAX :: duration where "RETRY_JITTER_MAX = 100000000"
definition RESTART_COOLDOWN :: duration where "RESTART_COOLDOWN = 300000000000"

definition jitter :: "nat \<Rightarrow> duration" where
  "jitter nanos = RETRY_JITTER_MAX * (nanos mod 1000) div 1000"

definition retry_delay :: "nat \<Rightarrow> nat \<Rightarrow> duration" where
  "retry_delay nanos attempt = RETRY_BASE_DELAY * 2 ^ (attempt - 1) + jitter nanos"

definition retryable_upstream_status :: "nat \<Rightarrow> bool" where
  "retryable_upstream_status status \<longleftrightarrow> status = 500 \<or> status = 502"

fun retryable :: "outcome \<Rightarrow> bool" where
  "retryable (Response status) = retryable_upstream_status status"
| "retryable (Failure connect timed_out) = (connect \<and> \<not> timed_out)"

text \<open>
  The loop: \<open>attempt\<close> sends have been made. The result is the list of backoff waits, the number
  of sends and the outcome returned to the caller.
\<close>

function send_from :: "(nat \<Rightarrow> nat) \<Rightarrow> (nat \<Rightarrow> outcome) \<Rightarrow> nat \<Rightarrow> duration list \<times> nat \<times> outcome" where
  "send_from nanos upstream attempt =
     (let attempt' = attempt + 1; r = upstream attempt'
      in if retryable r \<and> attempt' < MAX_ATTEMPTS
         then (let (delays, n, final) = send_from nanos upstream attempt'
               in (retry_delay (nanos attempt') attempt' # delays, n, final))
         else ([], attempt', r))"
  by pat_completeness auto
termination by (relation "measure (\<lambda>(_, _, attempt). MAX_ATTEMPTS - attempt)") auto

declare send_from.simps [simp del]

definition send_with_retries :: "(nat \<Rightarrow> nat) \<Rightarrow> (nat \<Rightarrow> outcome) \<Rightarrow> duration list \<times> nat \<times> outcome" where
  "send_with_retries nanos upstream = send_from nanos upstream 0"

section \<open>The restart\<close>

fun is_connection_refused :: "outcome \<Rightarrow> bool" where
  "is_connection_refused (Response _) = False"
| "is_connection_refused (Failure connect _) = connect"

definition try_restart_ollama :: "instant \<Rightarrow> instant option \<Rightarrow> bool \<times> instant option" where
  "try_restart_ollama now last_attempt =
     (case last_attempt of
        Some previous \<Rightarrow> if now - previous < RESTART_COOLDOWN then (False, last_attempt)
                         else (True, Some now)
      | None \<Rightarrow> (True, Some now))"

text \<open>
  \<open>forward_inner\<close> up to the response it forwards: \<open>first\<close> and \<open>second\<close> are the upstream's
  answers before and after a restart. The result is the number of sends, whether a restart was
  attempted, the outcome, and the remembered time of the last restart.
\<close>

record forwarded =
  fw_sends :: nat
  fw_restarted :: bool
  fw_outcome :: outcome
  fw_last_restart :: "instant option"

definition forward_inner ::
  "(nat \<Rightarrow> nat) \<Rightarrow> bool \<Rightarrow> instant \<Rightarrow> instant option \<Rightarrow> (nat \<Rightarrow> outcome) \<Rightarrow> (nat \<Rightarrow> outcome) \<Rightarrow> forwarded"
  where
  "forward_inner nanos auto_restart now last_restart first second =
     (let (_, n, r) = send_with_retries nanos first
      in if auto_restart \<and> is_connection_refused r
         then (let (go, last') = try_restart_ollama now last_restart
               in if go
                  then (let (_, m, r') = send_with_retries nanos second
                        in \<lparr>fw_sends = n + m, fw_restarted = True, fw_outcome = r',
                            fw_last_restart = last'\<rparr>)
                  else \<lparr>fw_sends = n, fw_restarted = False, fw_outcome = r, fw_last_restart = last'\<rparr>)
         else \<lparr>fw_sends = n, fw_restarted = False, fw_outcome = r, fw_last_restart = last_restart\<rparr>)"

section \<open>Facts about the loop\<close>

lemma jitter_bound: "jitter nanos < RETRY_JITTER_MAX"
proof -
  have "RETRY_JITTER_MAX * (nanos mod 1000) < RETRY_JITTER_MAX * 1000"
    by (simp add: RETRY_JITTER_MAX_def)
  then show ?thesis unfolding jitter_def by (rule less_mult_imp_div_less)
qed

lemma retry_delay_bounds:
  "RETRY_BASE_DELAY * 2 ^ (attempt - 1) \<le> retry_delay nanos attempt \<and>
   retry_delay nanos attempt < RETRY_BASE_DELAY * 2 ^ (attempt - 1) + RETRY_JITTER_MAX"
  using jitter_bound [of nanos] by (simp add: retry_delay_def)

lemma send_from_trace:
  "send_from nanos upstream attempt = (delays, n, final) \<Longrightarrow> attempt < MAX_ATTEMPTS \<Longrightarrow>
   attempt < n \<and> n \<le> MAX_ATTEMPTS \<and> final = upstream n \<and>
   delays = map (\<lambda>k. retry_delay (nanos k) k) [attempt + 1 ..< n] \<and>
   (\<forall>k. attempt < k \<longrightarrow> k < n \<longrightarrow> retryable (upstream k)) \<and>
   (n < MAX_ATTEMPTS \<longrightarrow> \<not> retryable final)"
proof (induction nanos upstream attempt arbitrary: delays n final rule: send_from.induct)
  case (1 nanos upstream attempt)
  let ?a = "attempt + 1"
  show ?case
  proof (cases "retryable (upstream ?a) \<and> ?a < MAX_ATTEMPTS")
    case True
    obtain ds m f where rest: "send_from nanos upstream ?a = (ds, m, f)"
      by (metis prod_cases3)
    have here: "delays = retry_delay (nanos ?a) ?a # ds" "n = m" "final = f"
      using "1.prems"(1) True rest by (auto simp: send_from.simps [of _ _ attempt] Let_def)
    have ih: "?a < m" "m \<le> MAX_ATTEMPTS" "f = upstream m"
      "ds = map (\<lambda>k. retry_delay (nanos k) k) [?a + 1 ..< m]"
      "\<And>k. ?a < k \<Longrightarrow> k < m \<Longrightarrow> retryable (upstream k)" "m < MAX_ATTEMPTS \<Longrightarrow> \<not> retryable f"
      using "1.IH" [of ?a "upstream ?a" ds m f] True rest by auto
    have "[?a ..< m] = ?a # [?a + 1 ..< m]" using upt_conv_Cons [OF ih(1)] by simp
    moreover have "retryable (upstream k)" if "attempt < k" "k < m" for k
      using that True ih(5) [of k] by (cases "k = ?a") auto
    ultimately show ?thesis using ih(1-4,6) unfolding here by auto
  next
    case False
    then have "delays = []" "n = ?a" "final = upstream ?a"
      using "1.prems"(1) by (auto simp: send_from.simps [of _ _ attempt] Let_def)
    then show ?thesis using False "1.prems"(2) by auto
  qed
qed

lemma send_count: "send_with_retries nanos upstream = (delays, n, final) \<Longrightarrow> n \<le> MAX_ATTEMPTS"
  using send_from_trace [of nanos upstream 0 delays n final]
  by (simp add: send_with_retries_def MAX_ATTEMPTS_def)

text \<open>The times at which a series of requests that could not connect restarted Ollama.\<close>

fun restarts :: "instant option \<Rightarrow> instant list \<Rightarrow> instant list" where
  "restarts prev [] = []"
| "restarts prev (now # ts) =
     (case try_restart_ollama now prev of
        (True, prev') \<Rightarrow> now # restarts prev' ts
      | (False, prev') \<Rightarrow> restarts prev' ts)"

lemma restarts_Cons:
  "restarts (Some p) (now # ts) =
    (if now - p < RESTART_COOLDOWN then restarts (Some p) ts else now # restarts (Some now) ts)"
  "restarts None (now # ts) = now # restarts (Some now) ts"
  by (simp_all add: try_restart_ollama_def)

declare restarts.simps(2) [simp del]
declare restarts_Cons [simp]

lemma restarts_spaced_from:
  "sorted (p # ts) \<Longrightarrow> sorted_wrt (\<lambda>a b. a + RESTART_COOLDOWN \<le> b) (restarts (Some p) ts) \<and>
    (\<forall>t \<in> set (restarts (Some p) ts). p + RESTART_COOLDOWN \<le> t)"
proof (induction ts arbitrary: p)
  case Nil
  then show ?case by simp
next
  case (Cons now ts)
  have "sorted (p # ts)" "sorted (now # ts)" using Cons.prems by auto
  note ih = Cons.IH [OF this(1)] Cons.IH [OF this(2)]
  show ?case using ih Cons.prems by force
qed

section \<open>Properties\<close>

text \<open>
  C12: retries are bounded and never replay work Ollama may have accepted. A request is sent at most
  three times; every send but the last met a 500, a 502 or a connection that was not established in
  time to be ambiguous; the outcome returned is the last send's, and it is not retryable unless the
  attempts ran out. Between sends the code waits 200 ms doubled each time plus less than 100 ms.
\<close>

theorem retries_bounded_and_safe:
  fixes nanos :: "nat \<Rightarrow> nat" and upstream :: "nat \<Rightarrow> outcome"
  shows "case send_with_retries nanos upstream of (delays, n, final) \<Rightarrow>
    1 \<le> n \<and> n \<le> 3 \<and> final = upstream n \<and> length delays = n - 1 \<and>
    (\<forall>k \<in> {1..<n}. upstream k \<in> {Response 500, Response 502, Failure True False}) \<and>
    (n < 3 \<longrightarrow> final \<notin> {Response 500, Response 502, Failure True False}) \<and>
    (\<forall>i < length delays. 200000000 * 2 ^ i \<le> delays ! i \<and> delays ! i < 200000000 * 2 ^ i + 100000000)"
proof -
  obtain delays n final where run: "send_with_retries nanos upstream = (delays, n, final)"
    by (metis prod_cases3)
  have t: "0 < n" "n \<le> MAX_ATTEMPTS" "final = upstream n"
    "delays = map (\<lambda>k. retry_delay (nanos k) k) [1 ..< n]"
    "\<And>k. 0 < k \<Longrightarrow> k < n \<Longrightarrow> retryable (upstream k)"
    "n < MAX_ATTEMPTS \<longrightarrow> \<not> retryable final"
    using send_from_trace [of nanos upstream 0 delays n final] run
    by (auto simp: send_with_retries_def MAX_ATTEMPTS_def)
  have retry: "retryable r \<longleftrightarrow> r \<in> {Response 500, Response 502, Failure True False}" for r
    by (cases r) (auto simp: retryable_upstream_status_def)
  have wait: "200000000 * 2 ^ i \<le> delays ! i \<and> delays ! i < 200000000 * 2 ^ i + 100000000"
    if "i < length delays" for i
    using that retry_delay_bounds [of "Suc i" "nanos (Suc i)"]
    by (simp add: t(4) RETRY_BASE_DELAY_def RETRY_JITTER_MAX_def)
  show ?thesis using t retry wait unfolding run by (simp add: MAX_ATTEMPTS_def)
qed

theorem retries_bounded_and_safe_witness:
  "send_with_retries (\<lambda>_. 500) (\<lambda>k. if k = 1 then Response 500 else Response 200) =
     ([250000000], 2, Response 200) \<and> length [250000000 :: nat] = 2 - 1"
proof -
  have run: "send_with_retries (\<lambda>_. 500) (\<lambda>k. if k = 1 then Response 500 else Response 200) =
    ([250000000], 2, Response 200)"
    by (simp add: send_with_retries_def send_from.simps Let_def retryable_upstream_status_def
        MAX_ATTEMPTS_def retry_delay_def jitter_def RETRY_BASE_DELAY_def RETRY_JITTER_MAX_def)
  show ?thesis
    using run retries_bounded_and_safe
      [where nanos = "\<lambda>_. 500" and upstream = "\<lambda>k. if k = 1 then Response 500 else Response 200"]
    by simp
qed

text \<open>
  restarts are spaced. However many requests fail to connect, two restarts of Ollama are at
  least five minutes apart, and the first failure ever seen does restart it.
\<close>

theorem restarts_spaced:
  assumes "sorted ts"
  shows "sorted_wrt (\<lambda>a b. a + 300000000000 \<le> b) (restarts None ts) \<and>
    (ts \<noteq> [] \<longrightarrow> restarts None ts \<noteq> [] \<and> hd (restarts None ts) = hd ts)"
  using assms restarts_spaced_from [of "hd ts" "tl ts"]
  by (cases ts) (auto simp: RESTART_COOLDOWN_def)

theorem restarts_spaced_witness:
  "sorted_wrt (\<lambda>a b. a + 300000000000 \<le> b) (restarts None [0, 5, 300000000000]) \<and>
   restarts None [0, 5, 300000000000] = [0, 300000000000]"
  using restarts_spaced [of "[0, 5, 300000000000]"] by (simp add: RESTART_COOLDOWN_def)

text \<open>
  a passthrough request sends at most six times and restarts Ollama at most once, only when
  the option is on and the last send could not connect. A connect timeout counts as such: it is
  not retried, because it is a timeout, but it does restart the application.
\<close>

theorem forward_bounded_restart:
  fixes auto :: bool and prev :: "instant option" and nanos :: "nat \<Rightarrow> nat"
    and first second :: "nat \<Rightarrow> outcome" and now :: instant
  defines "out \<equiv> forward_inner nanos auto now prev first second"
  shows "fw_sends out \<le> 6 \<and>
    (\<not> fw_restarted out \<longrightarrow> fw_sends out \<le> 3) \<and>
    (fw_restarted out \<longleftrightarrow> auto \<and> is_connection_refused (snd (snd (send_with_retries nanos first))) \<and>
       fst (try_restart_ollama now prev)) \<and>
    (auto \<and> first 1 = Failure True True \<and> prev = None \<longrightarrow> fw_restarted out \<and> fw_last_restart out = Some now)"
proof -
  obtain ds n r where run1: "send_with_retries nanos first = (ds, n, r)" by (metis prod_cases3)
  obtain es m r' where run2: "send_with_retries nanos second = (es, m, r')" by (metis prod_cases3)
  have le: "n \<le> 3" "m \<le> 3"
    using send_count [OF run1] send_count [OF run2] by (simp_all add: MAX_ATTEMPTS_def)
  have timeout: "first 1 = Failure True True \<Longrightarrow> r = Failure True True"
    using run1 by (simp add: send_with_retries_def send_from.simps [of _ _ 0] Let_def)
  show ?thesis
    using le timeout unfolding out_def forward_inner_def run1 run2
    by (auto simp: Let_def try_restart_ollama_def split: prod.splits option.splits if_splits)
qed

theorem forward_bounded_restart_witness:
  "fw_restarted (forward_inner (\<lambda>_. 0) True 7 None (\<lambda>_. Failure True True) (\<lambda>_. Response 200))"
  using forward_bounded_restart
    [where nanos = "\<lambda>_. 0" and auto = True and now = 7 and prev = None
      and first = "\<lambda>_. Failure True True" and second = "\<lambda>_. Response 200"] by blast

end
