(* ===== verification/Breaker.thy ===== *)
theory Breaker
  imports FL_Prelude
begin

text \<open>
  The circuit breaker of each backend (\<open>platform/runtime/breaker.rs\<close>). \<open>brk\<close> is
  \<open>BreakerState\<close> and the registry is a map from backend names; every operation runs under the
  registry's lock, so each is one step. \<open>BreakerProbe\<close>, the guard of the one request let through
  a half-open circuit, is its \<open>Drop\<close>: \<open>probe_drop\<close>. Instants are nanoseconds.
\<close>

section \<open>State and operations\<close>

record brk =
  b_failures :: nat
  b_open_until :: "instant option"
  b_probe :: bool
  b_opened :: nat

type_synonym breakers = "string \<rightharpoonup> brk"

definition brk_default :: brk where
  "brk_default = \<lparr>b_failures = 0, b_open_until = None, b_probe = False, b_opened = 0\<rparr>"

text \<open>\<open>map.entry(backend).or_default()\<close>.\<close>

definition brk_entry :: "breakers \<Rightarrow> string \<Rightarrow> brk" where
  "brk_entry m backend = (case m backend of None \<Rightarrow> brk_default | Some s \<Rightarrow> s)"

datatype brk_check = Closed | Probe | Refused duration

definition one_second :: duration where "one_second = 1000000000"

definition breaker_check :: "instant \<Rightarrow> string \<Rightarrow> breakers \<Rightarrow> brk_check \<times> breakers" where
  "breaker_check now backend m =
     (let s = brk_entry m backend; m' = m(backend \<mapsto> s)
      in case b_open_until s of
           None \<Rightarrow> (Closed, m')
         | Some until \<Rightarrow>
             if now < until then (Refused (until - now), m')
             else if b_probe s then (Refused one_second, m')
             else (Probe, m(backend \<mapsto> s\<lparr>b_probe := True\<rparr>)))"

definition breaker_record ::
  "instant \<Rightarrow> string \<Rightarrow> bool \<Rightarrow> nat \<Rightarrow> duration \<Rightarrow> breakers \<Rightarrow> bool \<times> breakers" where
  "breaker_record now backend success threshold cooldown m =
     (let s = brk_entry m backend; was_probe = b_open_until s \<noteq> None
      in if success
         then (False, m(backend \<mapsto> s\<lparr>b_failures := 0, b_open_until := None\<rparr>))
         else (let s' = s\<lparr>b_failures := sat_add u32_max (b_failures s) 1\<rparr>
               in if 0 < threshold \<and> (was_probe \<or> threshold \<le> b_failures s')
                  then (True, m(backend \<mapsto> s'\<lparr>b_open_until := Some (now + cooldown),
                                              b_opened := wrapping_add u64_max (b_opened s') 1\<rparr>))
                  else (False, m(backend \<mapsto> s'))))"

definition probe_drop :: "string \<Rightarrow> breakers \<Rightarrow> breakers" where
  "probe_drop backend m =
     (case m backend of None \<Rightarrow> m | Some s \<Rightarrow> m(backend \<mapsto> s\<lparr>b_probe := False\<rparr>))"

datatype circuit = CircuitOpen | HalfOpen | CircuitClosed

record brk_receipt =
  br_state :: circuit
  br_failures :: nat
  br_retry_after :: "nat option"
  br_times_opened :: nat

definition breaker_receipt :: "instant \<Rightarrow> breakers \<Rightarrow> string \<rightharpoonup> brk_receipt" where
  "breaker_receipt now m backend =
     map_option (\<lambda>s. \<lparr>
         br_state = (case b_open_until s of
             Some until \<Rightarrow> if now < until then CircuitOpen else HalfOpen
           | None \<Rightarrow> CircuitClosed),
         br_failures = b_failures s,
         br_retry_after = (case b_open_until s of
             Some until \<Rightarrow> if now < until then Some (max ((until - now) div one_second) 1) else None
           | None \<Rightarrow> None),
         br_times_opened = b_opened s\<rparr>) (m backend)"

text \<open>
  What a managed task does with the answer (\<open>managed_task\<close> in \<open>execution/pipeline.rs\<close>): a
  refusal becomes a 503 whose \<open>Retry-After\<close> is at least a second; otherwise the task proceeds,
  holding the probe if it got one. The outcome of its upstream call is recorded after the probe is
  dropped (\<open>record_upstream_outcome\<close> in \<open>execution/forward.rs\<close>).
\<close>

datatype gate = FailFast nat | Proceed bool

definition gate_task :: "instant \<Rightarrow> string \<Rightarrow> breakers \<Rightarrow> gate \<times> breakers" where
  "gate_task now backend m =
     (case breaker_check now backend m of
        (Closed, m') \<Rightarrow> (Proceed False, m')
      | (Probe, m') \<Rightarrow> (Proceed True, m')
      | (Refused remaining, m') \<Rightarrow> (FailFast (max (remaining div one_second) 1), m'))"

definition record_upstream_outcome ::
  "instant \<Rightarrow> string \<Rightarrow> bool \<Rightarrow> bool \<Rightarrow> nat \<Rightarrow> duration \<Rightarrow> breakers \<Rightarrow> bool \<times> breakers" where
  "record_upstream_outcome now backend probe failed threshold cooldown m =
     breaker_record now backend (\<not> failed) threshold cooldown
       (if probe then probe_drop backend m else m)"

section \<open>Runs\<close>

text \<open>The registry with the probes alive in the process.\<close>

record brk_sys =
  bs_map :: breakers
  bs_probes :: "string \<Rightarrow> nat"

datatype brk_event =
    BrCheck instant string
  | BrRecord instant string bool nat duration
  | BrProbeDrop string

fun brk_step :: "brk_sys \<Rightarrow> brk_event \<Rightarrow> brk_sys" where
  "brk_step \<sigma> (BrCheck now b) =
     (case breaker_check now b (bs_map \<sigma>) of
        (Probe, m) \<Rightarrow> \<lparr>bs_map = m, bs_probes = (bs_probes \<sigma>)(b := bs_probes \<sigma> b + 1)\<rparr>
      | (_, m) \<Rightarrow> \<sigma>\<lparr>bs_map := m\<rparr>)"
| "brk_step \<sigma> (BrRecord now b ok threshold cooldown) =
     \<sigma>\<lparr>bs_map := snd (breaker_record now b ok threshold cooldown (bs_map \<sigma>))\<rparr>"
| "brk_step \<sigma> (BrProbeDrop b) =
     (if bs_probes \<sigma> b = 0 then \<sigma>
      else \<lparr>bs_map = probe_drop b (bs_map \<sigma>), bs_probes = (bs_probes \<sigma>)(b := bs_probes \<sigma> b - 1)\<rparr>)"

definition brk_sys_new :: brk_sys where
  "brk_sys_new = \<lparr>bs_map = Map.empty, bs_probes = (\<lambda>_. 0)\<rparr>"

definition brk_inv :: "brk_sys \<Rightarrow> bool" where
  "brk_inv \<sigma> \<longleftrightarrow> (\<forall>b. bs_probes \<sigma> b = (if b_probe (brk_entry (bs_map \<sigma>) b) then 1 else 0))"

lemma brk_entry_upd [simp]:
  "brk_entry (m(b \<mapsto> s)) c = (if c = b then s else brk_entry m c)"
  by (simp add: brk_entry_def)

lemma brk_entry_empty [simp]: "brk_entry Map.empty b = brk_default"
  by (simp add: brk_entry_def)

lemma brk_entry_drop [simp]:
  "brk_entry (probe_drop b m) c =
    (if c = b then brk_entry m b\<lparr>b_probe := False\<rparr> else brk_entry m c)"
  by (simp add: probe_drop_def brk_entry_def brk_default_def split: option.splits)

lemma brk_inv_new: "brk_inv brk_sys_new"
  by (simp add: brk_inv_def brk_sys_new_def brk_default_def)

lemma brk_step_inv: "brk_inv \<sigma> \<Longrightarrow> brk_inv (brk_step \<sigma> e)"
proof (cases e)
  case (BrCheck now b)
  assume "brk_inv \<sigma>"
  then show ?thesis unfolding BrCheck brk_inv_def
    by (auto simp: breaker_check_def Let_def split: option.splits)
next
  case (BrRecord now b ok threshold cooldown)
  assume "brk_inv \<sigma>"
  then show ?thesis unfolding BrRecord brk_inv_def
    by (auto simp: breaker_record_def Let_def)
next
  case (BrProbeDrop b)
  assume "brk_inv \<sigma>"
  then show ?thesis unfolding BrProbeDrop brk_inv_def
    by (auto split: if_splits)
qed

interpretation brk_system: invariant_system brk_step "\<lambda>_. True" brk_inv
  by unfold_locales (rule brk_step_inv)

definition brk_run :: "brk_event list \<Rightarrow> brk_sys" where
  "brk_run es = foldl brk_step brk_sys_new es"

lemma brk_run_inv: "brk_inv (brk_run es)"
  unfolding brk_run_def by (rule brk_system.run_inv [OF brk_inv_new]) (simp add: list_all_iff)

lemma check_closed: "b_open_until (brk_entry m b) = None \<Longrightarrow> fst (breaker_check now b m) = Closed"
  by (simp add: breaker_check_def Let_def)

lemma check_entry_other: "c \<noteq> b \<Longrightarrow> snd (breaker_check now b m) c = m c"
  by (auto simp: breaker_check_def Let_def split: option.splits)

lemma record_entry_other: "c \<noteq> b \<Longrightarrow> snd (breaker_record now b ok th cd m) c = m c"
  by (auto simp: breaker_record_def Let_def)

lemma drop_entry_other: "c \<noteq> b \<Longrightarrow> probe_drop b m c = m c"
  by (simp add: probe_drop_def split: option.splits)

text \<open>A row of failures, recorded at the given times.\<close>

fun record_failures :: "string \<Rightarrow> nat \<Rightarrow> duration \<Rightarrow> instant list \<Rightarrow> breakers \<Rightarrow> breakers" where
  "record_failures b th cd [] m = m"
| "record_failures b th cd (t # ts) m = record_failures b th cd ts (snd (breaker_record t b False th cd m))"

lemma record_failures_below:
  "b_open_until (brk_entry m b) = None \<Longrightarrow> b_failures (brk_entry m b) + length ts < th \<Longrightarrow>
   th \<le> u32_max \<Longrightarrow>
   b_open_until (brk_entry (record_failures b th cd ts m) b) = None \<and>
   b_failures (brk_entry (record_failures b th cd ts m) b) = b_failures (brk_entry m b) + length ts"
proof (induction ts arbitrary: m)
  case Nil
  then show ?case by simp
next
  case (Cons t ts)
  have "sat_add u32_max (b_failures (brk_entry m b)) 1 = b_failures (brk_entry m b) + 1"
    using Cons.prems by (intro sat_add_exact) simp
  then have "b_open_until (brk_entry (snd (breaker_record t b False th cd m)) b) = None"
    and "b_failures (brk_entry (snd (breaker_record t b False th cd m)) b) =
      b_failures (brk_entry m b) + 1"
    using Cons.prems by (simp_all add: breaker_record_def Let_def)
  then show ?case
    using Cons.IH [of "snd (breaker_record t b False th cd m)"] Cons.prems by simp
qed

lemma record_failures_snoc:
  "record_failures b th cd (ts @ [t]) m =
    snd (breaker_record t b False th cd (record_failures b th cd ts m))"
  by (induction ts arbitrary: m) auto

section \<open>Properties\<close>

text \<open>
  one probe per backend. Over any run of checks, recorded outcomes and dropped probes, at most
  one probe of a backend is alive, a check hands out a new probe only when none is, and a check
  that finds the circuit open or its probe out refuses with a positive delay.
\<close>

theorem single_probe_per_backend:
  fixes es :: "brk_event list" and now :: instant and b :: string
  shows "bs_probes (brk_run es) b \<le> 1 \<and>
    (fst (breaker_check now b (bs_map (brk_run es))) = Probe \<longrightarrow> bs_probes (brk_run es) b = 0) \<and>
    (case fst (breaker_check now b (bs_map (brk_run es))) of
       Refused d \<Rightarrow> 0 < d \<and> b_open_until (brk_entry (bs_map (brk_run es)) b) \<noteq> None
     | _ \<Rightarrow> True)"
  using brk_run_inv [of es]
  by (auto simp: brk_inv_def breaker_check_def Let_def one_second_def split: option.splits if_splits)

theorem single_probe_per_backend_witness:
  "bs_probes (brk_run [BrRecord 0 ''gpu'' False 1 5, BrCheck 6 ''gpu'', BrCheck 7 ''gpu'']) ''gpu'' \<le> 1 \<and>
   bs_probes (brk_run [BrRecord 0 ''gpu'' False 1 5, BrCheck 6 ''gpu'', BrCheck 7 ''gpu'']) ''gpu'' = 1"
  using single_probe_per_backend
      [where es = "[BrRecord 0 ''gpu'' False 1 5, BrCheck 6 ''gpu'', BrCheck 7 ''gpu'']"
        and b = "''gpu''" and now = 8]
  by (simp add: brk_run_def brk_sys_new_def breaker_record_def breaker_check_def brk_default_def
      sat_add_def u32_max_def)

text \<open>
  the circuit opens exactly at the threshold. From a closed circuit with no failures, a row of
  failures shorter than the threshold lets every task through; the failure that reaches it opens
  the circuit, and every task until the cooldown has passed fails fast with a \<open>Retry-After\<close> of
  the remaining whole seconds, at least one. A success in between closes it and forgets the count.
\<close>

theorem opens_exactly_at_threshold:
  assumes closed: "b_open_until (brk_entry m b) = None" "b_failures (brk_entry m b) = 0"
    and threshold: "length ts + 1 = threshold" "threshold \<le> u32_max"
  shows "fst (gate_task now b (record_failures b threshold cooldown ts m)) = Proceed False \<and>
    (now < t + cooldown \<longrightarrow>
       fst (gate_task now b (record_failures b threshold cooldown (ts @ [t]) m)) =
         FailFast (max ((t + cooldown - now) div one_second) 1)) \<and>
    fst (gate_task now b (snd (breaker_record t' b True threshold cooldown
       (record_failures b threshold cooldown (ts @ [t]) m)))) = Proceed False \<and>
    b_failures (brk_entry (snd (breaker_record t' b True threshold cooldown
       (record_failures b threshold cooldown (ts @ [t]) m))) b) = 0"
proof -
  let ?m = "record_failures b threshold cooldown ts m"
  have below: "b_open_until (brk_entry ?m b) = None" "b_failures (brk_entry ?m b) = length ts"
    using record_failures_below [of m b ts threshold cooldown] closed threshold by simp_all
  have "sat_add u32_max (length ts) 1 = threshold"
    using threshold by (simp add: sat_add_exact)
  then have opened: "b_open_until (brk_entry (snd (breaker_record t b False threshold cooldown ?m)) b) =
      Some (t + cooldown)"
    using below threshold by (auto simp: breaker_record_def Let_def)
  have recovered: "b_open_until (brk_entry (snd (breaker_record t' b True threshold cooldown m')) b) = None \<and>
      b_failures (brk_entry (snd (breaker_record t' b True threshold cooldown m')) b) = 0" for m'
    by (simp add: breaker_record_def Let_def)
  show ?thesis
    using below opened recovered unfolding record_failures_snoc
    by (auto simp: gate_task_def breaker_check_def Let_def)
qed

theorem opens_exactly_at_threshold_witness:
  "fst (gate_task 5 ''gpu'' (record_failures ''gpu'' 2 9000000000 [1] Map.empty)) = Proceed False \<and>
   fst (gate_task 5 ''gpu'' (record_failures ''gpu'' 2 9000000000 ([1] @ [2]) Map.empty)) = FailFast 8"
  using opens_exactly_at_threshold [of Map.empty "''gpu''" "[1]" 2 5 9000000000 2 0]
  by (simp add: brk_default_def u32_max_def one_second_def)

text \<open>
  a probe decides. After the cooldown one task is let through with the probe; its failure
  reopens the circuit for a full cooldown whatever the failure count, its success closes it; a
  probe dropped without an outcome hands the probe to the next task. No operation touches another
  backend's breaker.
\<close>

theorem probe_decides:
  assumes half: "b_open_until (brk_entry m b) = Some until" "until \<le> now" "\<not> b_probe (brk_entry m b)"
    and on: "0 < threshold"
  shows "fst (gate_task now b m) = Proceed True \<and>
    (let m1 = snd (gate_task now b m);
         failed = snd (record_upstream_outcome t b True True threshold cooldown m1);
         succeeded = snd (record_upstream_outcome t b True False threshold cooldown m1)
     in fst (gate_task now b m1) = FailFast 1 \<and>
        b_open_until (brk_entry failed b) = Some (t + cooldown) \<and> \<not> b_probe (brk_entry failed b) \<and>
        b_open_until (brk_entry succeeded b) = None \<and> \<not> b_probe (brk_entry succeeded b) \<and>
        fst (gate_task now b (probe_drop b m1)) = Proceed True \<and>
        (\<forall>c. c \<noteq> b \<longrightarrow> failed c = m c \<and> succeeded c = m c))"
proof -
  let ?s = "brk_entry m b"
  have m1: "gate_task now b m = (Proceed True, m(b \<mapsto> ?s\<lparr>b_probe := True\<rparr>))"
    using half by (simp add: gate_task_def breaker_check_def Let_def)
  show ?thesis
    using half on unfolding m1 Let_def fst_conv snd_conv
    by (auto simp: gate_task_def breaker_check_def breaker_record_def record_upstream_outcome_def
        probe_drop_def one_second_def)
qed

theorem probe_decides_witness:
  "fst (gate_task 9 ''gpu'' (record_failures ''gpu'' 1 5 [1] Map.empty)) = Proceed True"
  using probe_decides [of "record_failures ''gpu'' 1 5 [1] Map.empty" "''gpu''" 6 9 1 10 5]
  by (simp add: breaker_record_def brk_default_def sat_add_def u32_max_def)

text \<open>
  the outcome of a probe is recorded after the probe is given back. The two are separate
  critical sections, so a task that checks between them is let through as a second probe although
  the first one's failure, which reopens the circuit, has already been observed by its caller.
\<close>

theorem second_probe_before_the_outcome:
  assumes half: "b_open_until (brk_entry m b) = Some until" "until \<le> now" "\<not> b_probe (brk_entry m b)"
    and on: "0 < threshold"
  shows "fst (breaker_check now b (probe_drop b (snd (breaker_check now b m)))) = Probe \<and>
    fst (breaker_record now b False threshold cooldown
      (snd (breaker_check now b (probe_drop b (snd (breaker_check now b m)))))) = True"
proof -
  have m1: "breaker_check now b m = (Probe, m(b \<mapsto> brk_entry m b\<lparr>b_probe := True\<rparr>))"
    using half by (simp add: breaker_check_def Let_def)
  show ?thesis
    using half on unfolding m1 by (auto simp: breaker_check_def breaker_record_def Let_def)
qed

theorem second_probe_before_the_outcome_witness:
  "fst (breaker_check 9 ''gpu'' (probe_drop ''gpu'' (snd (breaker_check 9 ''gpu''
     (record_failures ''gpu'' 1 5 [1] Map.empty))))) = Probe"
  using second_probe_before_the_outcome [of "record_failures ''gpu'' 1 5 [1] Map.empty" "''gpu''" 6 9 1 5]
  by (simp add: breaker_record_def brk_default_def sat_add_def u32_max_def)

end
