(* ===== verification/FL_Json.thy ===== *)
theory FL_Json
  imports FL_Prelude
begin

text \<open>
  JSON documents as the code reads them through \<open>serde_json\<close>: the accessors \<open>get\<close>,
  \<open>pointer\<close>, \<open>as_str\<close>, \<open>as_u64\<close>, \<open>as_array\<close> and the indexing that yields null for
  an absent key. An object is the ordered map \<open>serde_json\<close> uses; numbers are integers, with the
  other numbers left as the 64-bit pattern of the float. Strings are lists of characters.
\<close>

datatype json =
    JNull
  | JBool bool
  | JInt int
  | JFloat "64 word"
  | JStr string
  | JArr "json list"
  | JObj "(string \<times> json) list"

definition json_object :: "(string \<times> json) list \<Rightarrow> json" where
  "json_object kvs = JObj (fold (\<lambda>(k, v). bt_put k v) kvs [])"

fun jget :: "json \<Rightarrow> string \<Rightarrow> json option" where
  "jget (JObj m) k = bt_get m k"
| "jget _ _ = None"

definition jindex :: "json \<Rightarrow> string \<Rightarrow> json" where
  "jindex j k = (case jget j k of None \<Rightarrow> JNull | Some v \<Rightarrow> v)"

fun jset :: "string \<Rightarrow> json \<Rightarrow> json \<Rightarrow> json" where
  "jset k v (JObj m) = JObj (bt_put k v m)"
| "jset k v JNull = JObj [(k, v)]"
| "jset k v j = j"

fun as_str :: "json \<Rightarrow> string option" where
  "as_str (JStr s) = Some s"
| "as_str _ = None"

fun as_u64 :: "json \<Rightarrow> nat option" where
  "as_u64 (JInt i) = (if 0 \<le> i \<and> i \<le> int u64_max then Some (nat i) else None)"
| "as_u64 _ = None"

fun as_array :: "json \<Rightarrow> json list option" where
  "as_array (JArr js) = Some js"
| "as_array _ = None"

fun as_bool :: "json \<Rightarrow> bool option" where
  "as_bool (JBool b) = Some b"
| "as_bool _ = None"

fun jis_object :: "json \<Rightarrow> bool" where
  "jis_object (JObj _) = True"
| "jis_object _ = False"

text \<open>\<open>pointer\<close> along object keys (the code follows no array index).\<close>

fun jpointer :: "json \<Rightarrow> string list \<Rightarrow> json option" where
  "jpointer j [] = Some j"
| "jpointer j (k # ks) = Option.bind (jget j k) (\<lambda>v. jpointer v ks)"

definition jnat :: "nat \<Rightarrow> json" where
  "jnat n = JInt (int n)"

definition jopt :: "('a \<Rightarrow> json) \<Rightarrow> 'a option \<Rightarrow> json" where
  "jopt f v = (case v of None \<Rightarrow> JNull | Some x \<Rightarrow> f x)"

lemma as_u64_jnat [simp]: "n \<le> u64_max \<Longrightarrow> as_u64 (jnat n) = Some n"
  by (simp add: jnat_def)

lemma fold_bt_put_get:
  "distinct (map fst kvs) \<Longrightarrow> (k, v) \<in> set kvs \<Longrightarrow>
    bt_get (fold (\<lambda>(k, v). bt_put k v) kvs m) k = Some v"
proof (induction kvs arbitrary: m)
  case Nil
  then show ?case by simp
next
  case (Cons p kvs)
  obtain a b where p: "p = (a, b)" by force
  have skip: "k \<notin> set (map fst l) \<Longrightarrow> bt_get (fold (\<lambda>(k, v). bt_put k v) l n) k = bt_get n k"
    for l and n :: "('a, 'b) btree"
    by (induction l arbitrary: n) (auto split: prod.splits)
  show ?case
  proof (cases "(k, v) = p")
    case True
    then show ?thesis using Cons.prems p skip [of kvs "bt_put a b m"] by simp
  next
    case False
    then show ?thesis using Cons p by auto
  qed
qed

lemma jget_object [simp]:
  "distinct (map fst kvs) \<Longrightarrow> (k, v) \<in> set kvs \<Longrightarrow> jget (json_object kvs) k = Some v"
  by (simp add: json_object_def fold_bt_put_get)

lemma jget_jset [simp]: "jget (jset k v (JObj m)) l = (if l = k then Some v else jget (JObj m) l)"
  by simp

lemma jset_object [simp]:
  "jis_object j \<Longrightarrow> jis_object (jset k v j)"
  "jis_object j \<Longrightarrow> jget (jset k v j) l = (if l = k then Some v else jget j l)"
  by (cases j; simp)+

lemma jis_object_json_object [simp]: "jis_object (json_object kvs)"
  by (simp add: json_object_def)

lemma jget_jis_object: "jget j k = Some x \<Longrightarrow> jis_object j"
  by (cases j) auto

lemma jget_of_object:
  "distinct (map fst kvs) \<Longrightarrow> jget (json_object kvs) k = map_of kvs k"
proof (cases "map_of kvs k")
  case None
  assume "distinct (map fst kvs)"
  have "bt_get (fold (\<lambda>(k, v). bt_put k v) l n) j = bt_get n j" if "j \<notin> set (map fst l)"
    for l j and n :: "(string, json) btree"
    using that by (induction l arbitrary: n) (auto split: prod.splits)
  moreover have "k \<notin> set (map fst kvs)" using None by (simp add: map_of_eq_None_iff)
  ultimately have "bt_get (fold (\<lambda>(k, v). bt_put k v) kvs []) k = bt_get [] k" by blast
  then show ?thesis using None by (simp add: json_object_def)
next
  case (Some v)
  assume "distinct (map fst kvs)"
  then show ?thesis using Some map_of_SomeD [OF Some] by simp
qed

lemma object_eq:
  "json_object kvs = json_object kvs' \<Longrightarrow> distinct (map fst kvs) \<Longrightarrow> distinct (map fst kvs') \<Longrightarrow>
    map_of kvs k = map_of kvs' k"
  by (metis jget_of_object)

lemma jindex_of_object:
  "distinct (map fst kvs) \<Longrightarrow> jindex (json_object kvs) k = (case map_of kvs k of None \<Rightarrow> JNull | Some v \<Rightarrow> v)"
  by (simp add: jindex_def jget_of_object)

lemma jindex_object [simp]:
  "distinct (map fst kvs) \<Longrightarrow> (k, v) \<in> set kvs \<Longrightarrow> jindex (json_object kvs) k = v"
  by (simp add: jindex_def)

lemma jindex_set [simp]: "jis_object j \<Longrightarrow> jindex (jset k v j) l = (if l = k then v else jindex j l)"
  by (simp add: jindex_def)

end
