(* ===== verification/Repetition.thy ===== *)
theory Repetition
  imports FL_Json
begin

text \<open>
  Detection of an output that repeats itself (\<open>platform/repetition.rs\<close>). A text is the list of
  its characters; nothing but their equality matters, so the detection is polymorphic in them.
\<close>

section \<open>The detector\<close>

definition MAX_PERIOD :: nat where "MAX_PERIOD = 4096"
definition SCAN_WINDOW :: nat where "SCAN_WINDOW = 65536"

record tail_loop =
  tl_unique_prefix :: nat
  tl_period :: nat
  tl_repeated :: nat

text \<open>The number of characters, counted from the end, that equal the one a period earlier.\<close>

definition repeated_tail :: "'a list \<Rightarrow> nat \<Rightarrow> nat" where
  "repeated_tail chars period =
     length (takeWhile (\<lambda>index. chars ! index = chars ! (index - period))
       (rev [period ..< length chars]))"

definition qualifies :: "nat \<Rightarrow> nat \<Rightarrow> bool" where
  "qualifies period repeated \<longleftrightarrow>
     (period \<le> repeated \<and> 48 \<le> repeated + period) \<or> 128 \<le> repeated"

fun scan_periods :: "'a list \<Rightarrow> nat list \<Rightarrow> tail_loop option \<Rightarrow> tail_loop option" where
  "scan_periods chars [] best = best"
| "scan_periods chars (period # rest) best =
     (if (case best of Some current \<Rightarrow> tl_unique_prefix current \<le> period | None \<Rightarrow> False) then best
      else (let repeated = repeated_tail chars period
            in if \<not> qualifies period repeated then scan_periods chars rest best
               else (let start = length chars - repeated - period
                     in scan_periods chars rest
                          (if (case best of None \<Rightarrow> True
                               | Some current \<Rightarrow> start + period < tl_unique_prefix current)
                           then Some \<lparr>tl_unique_prefix = start + period, tl_period = period,
                                      tl_repeated = repeated\<rparr>
                           else best))))"

definition detect_in_window :: "'a list \<Rightarrow> tail_loop option" where
  "detect_in_window chars =
     scan_periods chars [1 ..< Suc (min MAX_PERIOD (length chars - 1))] None"

fun extend_back :: "'a list \<Rightarrow> nat \<Rightarrow> nat \<Rightarrow> nat" where
  "extend_back chars period 0 = 0"
| "extend_back chars period (Suc start) =
     (if chars ! start = chars ! (start + period) then extend_back chars period start else Suc start)"

definition detect_tail_loop :: "'a list \<Rightarrow> tail_loop option" where
  "detect_tail_loop text =
     (let offset = length text - SCAN_WINDOW; window = drop offset text
      in case detect_in_window window of
           None \<Rightarrow> None
         | Some found \<Rightarrow>
             if 0 < offset \<and> tl_unique_prefix found = tl_period found
             then (let start = extend_back text (tl_period found) offset
                   in Some (found\<lparr>tl_repeated := tl_repeated found + (offset - start),
                                  tl_unique_prefix := start + tl_period found\<rparr>))
             else Some (found\<lparr>tl_unique_prefix := tl_unique_prefix found + offset\<rparr>))"

definition should_stop_streaming :: "'a list \<Rightarrow> bool" where
  "should_stop_streaming text =
     (case detect_tail_loop text of
        None \<Rightarrow> False
      | Some found \<Rightarrow> 2 * tl_period found \<le> tl_repeated found \<and> 96 \<le> tl_repeated found)"

section \<open>The receipt\<close>

text \<open>
  \<open>output_check\<close> without the fixed prose of its \<open>note\<close> field.
\<close>

record check =
  ck_stopped_early :: bool
  ck_stop_reason :: string
  ck_loop :: "tail_loop option"

definition output_check :: "json \<Rightarrow> check option" where
  "output_check response =
     Option.bind (Option.bind (jget response ''done_reason'') as_str) (\<lambda>reason.
       let stopped_early = reason = ''repetition'' \<or> reason = ''repeat_limit''
       in if reason \<noteq> ''length'' \<and> \<not> stopped_early then None
          else Option.bind (Option.bind (jpointer response [''message'', ''content'']) as_str)
            (\<lambda>content. case detect_tail_loop content of
                 None \<Rightarrow> if stopped_early
                          then Some \<lparr>ck_stopped_early = True, ck_stop_reason = reason, ck_loop = None\<rparr>
                          else None
               | Some found \<Rightarrow> Some \<lparr>ck_stopped_early = stopped_early, ck_stop_reason = reason,
                                     ck_loop = Some found\<rparr>))"

section \<open>The specification\<close>

text \<open>
  \<open>periodic_from text u p\<close>: every character from position \<open>u\<close> on equals the one \<open>p\<close>
  earlier, so the text from \<open>u - p\<close> on repeats its first \<open>p\<close> characters.
\<close>

definition periodic_from :: "'a list \<Rightarrow> nat \<Rightarrow> nat \<Rightarrow> bool" where
  "periodic_from text u p \<longleftrightarrow> p \<le> u \<and> u \<le> length text \<and>
     (\<forall>i. u \<le> i \<longrightarrow> i < length text \<longrightarrow> text ! i = text ! (i - p))"

lemma periodic_mod:
  assumes "periodic_from text u p" "0 < p" "u + j < length text"
  shows "text ! (u + j) = text ! (u - p + j mod p)"
  using assms(3)
proof (induction j rule: less_induct)
  case (less j)
  have step: "text ! (u + j) = text ! (u + j - p)"
    using assms(1) less.prems by (simp add: periodic_from_def)
  have pu: "p \<le> u" using assms(1) by (simp add: periodic_from_def)
  show ?case
  proof (cases "j < p")
    case True
    then show ?thesis using step pu by simp
  next
    case False
    have "text ! (u + (j - p)) = text ! (u - p + (j - p) mod p)"
      using less.IH [of "j - p"] False assms(2) less.prems by simp
    then show ?thesis using step False pu by (simp add: mod_if [of j p] not_less)
  qed
qed

lemma takeWhile_rev_upt:
  "length (takeWhile P (rev [a ..< n])) = r \<Longrightarrow>
    r \<le> n - a \<and> (\<forall>i. n - r \<le> i \<longrightarrow> i < n \<longrightarrow> a \<le> i \<longrightarrow> P i) \<and> (r < n - a \<longrightarrow> \<not> P (n - r - 1))"
proof (induction n arbitrary: r)
  case 0
  then show ?case by simp
next
  case (Suc n)
  show ?case
  proof (cases "a \<le> n \<and> P n")
    case True
    then obtain q where q: "r = Suc q" "length (takeWhile P (rev [a ..< n])) = q"
      using Suc.prems by auto
    have ih: "q \<le> n - a" "\<And>i. n - q \<le> i \<Longrightarrow> i < n \<Longrightarrow> a \<le> i \<Longrightarrow> P i"
      "q < n - a \<Longrightarrow> \<not> P (n - q - 1)"
      using Suc.IH [OF q(2)] by auto
    have "P i" if "Suc n - r \<le> i" "i < Suc n" "a \<le> i" for i
      using that ih(2) [of i] q True by (cases "i = n") auto
    then show ?thesis using ih q True by auto
  next
    case False
    then have "r = 0" using Suc.prems by (cases "a \<le> n") auto
    then show ?thesis using False by auto
  qed
qed

lemma repeated_tail_spec:
  assumes "period \<le> length chars"
  shows "repeated_tail chars period \<le> length chars - period"
    and "periodic_from chars (length chars - repeated_tail chars period) period"
    and "repeated_tail chars period < length chars - period \<Longrightarrow>
      chars ! (length chars - repeated_tail chars period - 1) \<noteq>
      chars ! (length chars - repeated_tail chars period - 1 - period)"
proof -
  let ?r = "repeated_tail chars period"
  have len: "length (takeWhile (\<lambda>i. chars ! i = chars ! (i - period)) (rev [period ..< length chars])) = ?r"
    by (simp add: repeated_tail_def)
  note facts = takeWhile_rev_upt [OF len]
  show le: "?r \<le> length chars - period" using facts by blast
  have "\<forall>i. length chars - ?r \<le> i \<longrightarrow> i < length chars \<longrightarrow> chars ! i = chars ! (i - period)"
  proof (intro allI impI)
    fix i assume i: "length chars - ?r \<le> i" "i < length chars"
    have "period \<le> i" using i(1) le assms by linarith
    then show "chars ! i = chars ! (i - period)" using facts i by blast
  qed
  then show "periodic_from chars (length chars - ?r) period"
    using le assms by (simp add: periodic_from_def)
  show "?r < length chars - period \<Longrightarrow>
      chars ! (length chars - ?r - 1) \<noteq> chars ! (length chars - ?r - 1 - period)"
    using facts by blast
qed

lemma periodic_repeated:
  assumes "periodic_from chars u p"
  shows "length chars - u \<le> repeated_tail chars p"
proof (rule ccontr)
  let ?r = "repeated_tail chars p"
  assume neg: "\<not> ?thesis"
  have "p \<le> length chars" "p \<le> u" using assms by (auto simp: periodic_from_def)
  then have lt: "?r < length chars - p" using neg by simp
  have "chars ! (length chars - ?r - 1) = chars ! (length chars - ?r - 1 - p)"
    using assms neg lt by (simp add: periodic_from_def)
  then show False using repeated_tail_spec(3) [of p chars] \<open>p \<le> length chars\<close> lt by blast
qed

section \<open>The scan finds the earliest run\<close>

definition candidate :: "'a list \<Rightarrow> nat \<Rightarrow> tail_loop" where
  "candidate chars p =
     \<lparr>tl_unique_prefix = length chars - repeated_tail chars p, tl_period = p,
      tl_repeated = repeated_tail chars p\<rparr>"

lemma scan_step:
  assumes "p \<le> length chars"
  shows "scan_periods chars (p # rest) best =
    (if (case best of Some current \<Rightarrow> tl_unique_prefix current \<le> p | None \<Rightarrow> False) then best
     else if \<not> qualifies p (repeated_tail chars p) then scan_periods chars rest best
     else scan_periods chars rest
       (if (case best of None \<Rightarrow> True
            | Some c \<Rightarrow> tl_unique_prefix (candidate chars p) < tl_unique_prefix c)
        then Some (candidate chars p) else best))"
proof -
  have "length chars - repeated_tail chars p - p + p = length chars - repeated_tail chars p"
    using repeated_tail_spec(1) [OF assms] assms by simp
  then show ?thesis by (cases best) (simp_all add: candidate_def Let_def)
qed

lemma scan_sound:
  "\<forall>p \<in> set ps. p \<le> length chars \<Longrightarrow> scan_periods chars ps best = Some found \<Longrightarrow>
    best = Some found \<or>
    (\<exists>p \<in> set ps. qualifies p (repeated_tail chars p) \<and> found = candidate chars p)"
proof (induction ps arbitrary: best)
  case Nil
  then show ?case by simp
next
  case (Cons p ps)
  have p: "p \<le> length chars" using Cons.prems by simp
  show ?case
    using Cons.IH [of best] Cons.IH [of "Some (candidate chars p)"] Cons.prems
    unfolding scan_step [OF p] by (fastforce split: if_splits option.splits)
qed

lemma scan_keeps:
  "\<forall>p \<in> set ps. p \<le> length chars \<Longrightarrow>
    \<exists>found. scan_periods chars ps (Some c) = Some found \<and> tl_unique_prefix found \<le> tl_unique_prefix c"
proof (induction ps arbitrary: c)
  case Nil
  then show ?case by simp
next
  case (Cons p ps)
  have p: "p \<le> length chars" using Cons.prems by simp
  have ih: "\<exists>found. scan_periods chars ps (Some d) = Some found \<and> tl_unique_prefix found \<le> tl_unique_prefix d"
    for d using Cons by simp
  show ?case
    using ih [of c] ih [of "candidate chars p"] unfolding scan_step [OF p] by auto
qed

lemma scan_complete:
  "\<forall>p \<in> set ps. p \<le> length chars \<Longrightarrow> sorted ps \<Longrightarrow> q \<in> set ps \<Longrightarrow>
    qualifies q (repeated_tail chars q) \<Longrightarrow>
    \<exists>found. scan_periods chars ps best = Some found \<and>
      tl_unique_prefix found \<le> length chars - repeated_tail chars q"
proof (induction ps arbitrary: best)
  case Nil
  then show ?case by simp
next
  case (Cons p ps)
  have p: "p \<le> length chars" using Cons.prems by simp
  have q: "q \<le> length chars - repeated_tail chars q" "p \<le> q"
    using repeated_tail_spec(1) [of q chars] Cons.prems by force+
  show ?case
  proof (cases "case best of Some c \<Rightarrow> tl_unique_prefix c \<le> p | None \<Rightarrow> False")
    case True
    then show ?thesis using q unfolding scan_step [OF p] by (auto split: option.splits)
  next
    case False
    note step = scan_step [OF p, of ps best, unfolded if_not_P [OF False]]
    show ?thesis
    proof (cases "q = p")
      case True
      have "\<forall>p \<in> set ps. p \<le> length chars" using Cons.prems by simp
      note keeps = scan_keeps [OF this]
      show ?thesis
        using True Cons.prems(4) keeps [of "candidate chars p"] keeps [of "the best"] unfolding step
        by (cases best) (auto simp: candidate_def)
    next
      case False
      then show ?thesis using Cons.IH Cons.prems unfolding step by auto
    qed
  qed
qed

definition good_loop :: "'a list \<Rightarrow> tail_loop \<Rightarrow> bool" where
  "good_loop text found \<longleftrightarrow>
     1 \<le> tl_period found \<and> tl_period found \<le> MAX_PERIOD \<and>
     tl_unique_prefix found + tl_repeated found = length text \<and>
     periodic_from text (tl_unique_prefix found) (tl_period found) \<and>
     qualifies (tl_period found) (tl_repeated found) \<and>
     (tl_period found < tl_unique_prefix found \<longrightarrow>
        text ! (tl_unique_prefix found - 1) \<noteq> text ! (tl_unique_prefix found - 1 - tl_period found))"

lemma candidate_good:
  assumes "1 \<le> p" "p \<le> MAX_PERIOD" "p \<le> length chars" "qualifies p (repeated_tail chars p)"
  shows "good_loop chars (candidate chars p)"
proof -
  note spec = repeated_tail_spec [OF assms(3)]
  have "p < length chars - repeated_tail chars p \<Longrightarrow> repeated_tail chars p < length chars - p"
    using spec(1) by linarith
  then show ?thesis
    using spec assms by (auto simp: good_loop_def candidate_def)
qed

lemma window_sound: "detect_in_window chars = Some found \<Longrightarrow> good_loop chars found"
proof -
  assume some: "detect_in_window chars = Some found"
  have "\<forall>p \<in> set [1 ..< Suc (min MAX_PERIOD (length chars - 1))]. p \<le> length chars" by auto
  from scan_sound [OF this, of None found] some obtain p
    where p: "p \<in> set [1 ..< Suc (min MAX_PERIOD (length chars - 1))]"
      "qualifies p (repeated_tail chars p)" "found = candidate chars p"
    unfolding detect_in_window_def by blast
  then have "1 \<le> p" "p \<le> MAX_PERIOD" "p \<le> length chars" by auto
  then show ?thesis using candidate_good [of p chars] p by simp
qed

lemma extend_back_spec:
  "extend_back text p s \<le> s \<and>
   (\<forall>i. extend_back text p s \<le> i \<longrightarrow> i < s \<longrightarrow> text ! i = text ! (i + p)) \<and>
   (0 < extend_back text p s \<longrightarrow>
      text ! (extend_back text p s - 1) \<noteq> text ! (extend_back text p s - 1 + p))"
proof (induction s)
  case 0
  then show ?case by simp
next
  case (Suc s)
  show ?case
  proof (cases "text ! s = text ! (s + p)")
    case True
    then have "extend_back text p (Suc s) = extend_back text p s" by simp
    then show ?thesis using Suc True le_SucI less_SucE by metis
  next
    case False
    then show ?thesis by simp
  qed
qed

lemma qualifies_mono: "qualifies p r \<Longrightarrow> r \<le> r' \<Longrightarrow> qualifies p r'"
  by (auto simp: qualifies_def)

lemma window_shift:
  assumes "good_loop (drop off text) found" "off \<le> length text"
    and "0 < off \<Longrightarrow> tl_period found < tl_unique_prefix found"
  shows "good_loop text (found\<lparr>tl_unique_prefix := tl_unique_prefix found + off\<rparr>)"
proof -
  let ?u = "tl_unique_prefix found" and ?p = "tl_period found"
  have g: "1 \<le> ?p" "?p \<le> MAX_PERIOD" "?u + tl_repeated found = length text - off" "?p \<le> ?u"
    "qualifies ?p (tl_repeated found)"
    "\<And>i. ?u \<le> i \<Longrightarrow> i < length text - off \<Longrightarrow> drop off text ! i = drop off text ! (i - ?p)"
    "?p < ?u \<Longrightarrow> drop off text ! (?u - 1) \<noteq> drop off text ! (?u - 1 - ?p)"
    using assms(1) by (auto simp: good_loop_def periodic_from_def)
  have shift: "drop off text ! i = text ! (off + i)" for i using assms(2) by simp
  have "text ! i = text ! (i - ?p)" if "?u + off \<le> i" "i < length text" for i
  proof -
    have "off + (i - off - ?p) = i - ?p" using that g(4) by linarith
    then show ?thesis using g(6) [of "i - off"] that shift by simp
  qed
  moreover have "text ! (?u + off - 1) \<noteq> text ! (?u + off - 1 - ?p)" if "?p < ?u + off"
  proof -
    have "?p < ?u" using that assms(3) by (cases "off = 0") auto
    moreover have "off + (?u - 1) = ?u + off - 1" "off + (?u - 1 - ?p) = ?u + off - 1 - ?p"
      using \<open>?p < ?u\<close> by linarith+
    ultimately show ?thesis using g(7) shift by metis
  qed
  ultimately show ?thesis using g assms(2) by (auto simp: good_loop_def periodic_from_def)
qed

lemma window_extend:
  assumes "good_loop (drop off text) found" "off \<le> length text" "tl_unique_prefix found = tl_period found"
  defines "start \<equiv> extend_back text (tl_period found) off"
  shows "good_loop text (found\<lparr>tl_repeated := tl_repeated found + (off - start),
    tl_unique_prefix := start + tl_period found\<rparr>)"
proof -
  let ?p = "tl_period found"
  have g: "1 \<le> ?p" "?p \<le> MAX_PERIOD" "?p + tl_repeated found = length text - off"
    "qualifies ?p (tl_repeated found)"
    "\<And>i. ?p \<le> i \<Longrightarrow> i < length text - off \<Longrightarrow> drop off text ! i = drop off text ! (i - ?p)"
    using assms(1,3) by (auto simp: good_loop_def periodic_from_def)
  have e: "start \<le> off" "\<And>i. start \<le> i \<Longrightarrow> i < off \<Longrightarrow> text ! i = text ! (i + ?p)"
    "0 < start \<Longrightarrow> text ! (start - 1) \<noteq> text ! (start - 1 + ?p)"
    using extend_back_spec [of "text" ?p off] unfolding start_def by auto
  have "text ! i = text ! (i - ?p)" if i: "start + ?p \<le> i" "i < length text" for i
  proof (cases "i < off + ?p")
    case True
    then show ?thesis using e(2) [of "i - ?p"] i by simp
  next
    case False
    then have "drop off text ! (i - off) = drop off text ! (i - off - ?p)"
      using g(5) [of "i - off"] i by simp
    moreover have "off + (i - off - ?p) = i - ?p" using False by linarith
    ultimately show ?thesis using False assms(2) by simp
  qed
  then have "periodic_from text (start + ?p) ?p"
    using e(1) g(3) assms(2) by (auto simp: periodic_from_def)
  moreover have "text ! (start + ?p - 1) \<noteq> text ! (start + ?p - 1 - ?p)" if "0 < start"
  proof -
    have "start + ?p - 1 = start - 1 + ?p" using that by simp
    then show ?thesis using e(3) [OF that] by simp
  qed
  ultimately show ?thesis
    using g e(1) assms(2) qualifies_mono [OF g(4), of "tl_repeated found + (off - start)"]
    by (simp add: good_loop_def)
qed

lemma detect_sound: "detect_tail_loop text = Some found \<Longrightarrow> good_loop text found"
proof -
  let ?off = "length text - SCAN_WINDOW"
  assume d: "detect_tail_loop text = Some found"
  then obtain w where w: "detect_in_window (drop ?off text) = Some w"
    by (auto simp: detect_tail_loop_def Let_def split: option.splits)
  have good: "good_loop (drop ?off text) w" by (rule window_sound [OF w])
  show ?thesis
  proof (cases "0 < ?off \<and> tl_unique_prefix w = tl_period w")
    case True
    then show ?thesis
      using window_extend [OF good] d by (simp add: detect_tail_loop_def Let_def w)
  next
    case False
    have "tl_period w \<le> tl_unique_prefix w"
      using good by (simp add: good_loop_def periodic_from_def)
    then have "0 < ?off \<Longrightarrow> tl_period w < tl_unique_prefix w" using False by simp
    from window_shift [OF good _ this] show ?thesis
      using d False by (auto simp: detect_tail_loop_def Let_def w)
  qed
qed

lemma window_whole: "length text \<le> SCAN_WINDOW \<Longrightarrow> detect_tail_loop text = detect_in_window text"
  by (auto simp: detect_tail_loop_def split: option.splits)

lemma repeated_tail_replicate: "p \<le> n \<Longrightarrow> repeated_tail (replicate n c) p = n - p"
proof -
  assume "p \<le> n"
  have "takeWhile (\<lambda>i. replicate n c ! i = replicate n c ! (i - p)) (rev [p ..< n]) = rev [p ..< n]"
    unfolding takeWhile_eq_all_conv by auto
  then show ?thesis unfolding repeated_tail_def length_replicate by (simp only:) simp
qed

lemma scan_stops:
  "\<forall>p \<in> set ps. tl_unique_prefix l \<le> p \<Longrightarrow> scan_periods chars ps (Some l) = Some l"
  by (cases ps) auto

lemma detect_replicate:
  assumes "48 \<le> n" "n \<le> 65536"
  shows "detect_tail_loop (replicate n c) =
    Some \<lparr>tl_unique_prefix = 1, tl_period = 1, tl_repeated = n - 1\<rparr>"
proof -
  let ?l = "\<lparr>tl_unique_prefix = 1, tl_period = 1, tl_repeated = n - 1\<rparr>"
  let ?m = "min MAX_PERIOD (n - 1)"
  have "[1 ..< Suc ?m] = 1 # [2 ..< Suc ?m]"
    using assms by (simp add: MAX_PERIOD_def upt_conv_Cons numeral_2_eq_2)
  moreover have "scan_periods (replicate n c) [2 ..< Suc ?m] (Some ?l) = Some ?l"
    by (rule scan_stops) auto
  moreover have "qualifies (Suc 0) (n - Suc 0)"
    unfolding qualifies_def using assms by linarith
  ultimately have "detect_in_window (replicate n c) = Some ?l"
    using assms by (simp add: detect_in_window_def repeated_tail_replicate Let_def del: upt_Suc)
  then show ?thesis using assms by (simp add: window_whole SCAN_WINDOW_def)
qed

section \<open>Properties\<close>

text \<open>
  a reported loop is one. The reported prefix and the repeated part make up the whole text, the
  unit has 1 to 4096 characters, every character after the prefix continues the last
  \<open>period\<close> characters of the prefix over and over, the run is long enough to qualify, and it
  could not start one character earlier, however long the text is.
\<close>

theorem reported_loop_is_periodic:
  assumes "detect_tail_loop text = Some found"
  defines "u \<equiv> tl_unique_prefix found" and "p \<equiv> tl_period found" and "r \<equiv> tl_repeated found"
  shows "1 \<le> p \<and> p \<le> 4096 \<and> p \<le> u \<and> u + r = length text \<and>
    (\<forall>j < r. text ! (u + j) = text ! (u - p + j mod p)) \<and>
    ((p \<le> r \<and> 48 \<le> r + p) \<or> 128 \<le> r) \<and>
    (p < u \<longrightarrow> text ! (u - 1) \<noteq> text ! (u - 1 - p))"
proof -
  have g: "good_loop text found" by (rule detect_sound [OF assms(1)])
  have "text ! (u + j) = text ! (u - p + j mod p)" if "j < r" for j
    using periodic_mod [of "text" u p j] g that by (simp add: good_loop_def u_def p_def r_def)
  then show ?thesis
    using g by (auto simp: good_loop_def u_def p_def r_def MAX_PERIOD_def qualifies_def periodic_from_def)
qed

theorem reported_loop_is_periodic_witness:
  "1 + 59 = length (replicate 60 CHR ''x'') \<and>
   list_all (\<lambda>j. replicate 60 CHR ''x'' ! (1 + j) = replicate 60 CHR ''x'' ! (1 - 1 + j mod 1)) [0..<59]"
  using reported_loop_is_periodic [OF detect_replicate [of 60 "CHR ''x''"]] by (simp add: list_all_iff)



text \<open>
  a stream is stopped only on three copies in a row. When a growing output is cut, its end is a
  unit of at most 4096 characters written at least three times without a gap, followed by a further
  part of it, and the copies after the first span at least 96 characters.
\<close>

theorem stream_stopped_only_on_three_copies:
  assumes "should_stop_streaming text"
  shows "\<exists>before unit rest. unit \<noteq> [] \<and> length unit \<le> 4096 \<and>
    text = before @ unit @ unit @ unit @ rest \<and> 96 \<le> length (unit @ unit @ rest) \<and>
    (\<forall>j < length rest. rest ! j = unit ! (j mod length unit))"
proof -
  obtain found where found: "detect_tail_loop text = Some found"
    and stop: "2 * tl_period found \<le> tl_repeated found" "96 \<le> tl_repeated found"
    using assms by (auto simp: should_stop_streaming_def split: option.splits)
  let ?u = "tl_unique_prefix found" and ?p = "tl_period found" and ?r = "tl_repeated found"
  have g: "good_loop text found" by (rule detect_sound [OF found])
  have p: "1 \<le> ?p" "?p \<le> 4096" "?p \<le> ?u" "?u + ?r = length text"
    using g by (auto simp: good_loop_def periodic_from_def MAX_PERIOD_def)
  have rep: "text ! (?u + j) = text ! (?u - ?p + j mod ?p)" if "j < ?r" for j
    using periodic_mod [of "text" ?u ?p j] g that by (simp add: good_loop_def)
  define unit where "unit = take ?p (drop (?u - ?p) text)"
  define rest where "rest = drop (?u + 2 * ?p) text"
  have len: "length unit = ?p" "length rest = ?r - 2 * ?p"
    using p stop by (auto simp: unit_def rest_def)
  have nth: "unit ! j = text ! (?u - ?p + j)" if "j < ?p" for j
    using that p by (simp add: unit_def)
  have copy: "take ?p (drop (?u + k * ?p) text) = unit" if "k = 0 \<or> k = 1" for k
  proof (rule nth_equalityI)
    show "length (take ?p (drop (?u + k * ?p) text)) = length unit" using len p stop that by auto
    fix i assume "i < length (take ?p (drop (?u + k * ?p) text))"
    then have i: "i < ?p" "?u + k * ?p + i < length text" by auto
    then have "text ! (?u + (k * ?p + i)) = text ! (?u - ?p + (k * ?p + i) mod ?p)"
      by (intro rep) (use p in linarith)
    then show "take ?p (drop (?u + k * ?p) text) ! i = unit ! i"
      using i that nth [of i] by (auto simp: add.assoc)
  qed
  have "text = take (?u - ?p) text @ drop (?u - ?p) text" by simp
  also have "drop (?u - ?p) text = unit @ drop ?u text"
    using p by (metis unit_def append_take_drop_id drop_drop le_add_diff_inverse)
  also have "drop ?u text = unit @ drop (?u + ?p) text"
    using copy [of 0] append_take_drop_id [of ?p "drop ?u text"] by (simp add: add.commute)
  also have "drop (?u + ?p) text = unit @ rest"
    using copy [of 1] append_take_drop_id [of ?p "drop (?u + ?p) text"]
    by (simp add: rest_def mult_2 add.commute add.left_commute)
  finally have "text = take (?u - ?p) text @ unit @ unit @ unit @ rest" .
  moreover have "rest ! j = unit ! (j mod ?p)" if "j < length rest" for j
  proof -
    have "rest ! j = text ! (?u + (2 * ?p + j))"
      using that p len stop by (simp add: rest_def add.assoc)
    also have "\<dots> = text ! (?u - ?p + (2 * ?p + j) mod ?p)" using that len by (intro rep) simp
    finally show ?thesis using nth [of "j mod ?p"] p by simp
  qed
  moreover have "unit \<noteq> []" "96 \<le> length (unit @ unit @ rest)" using len p stop by auto
  ultimately show ?thesis using len p by metis
qed

theorem stream_stopped_only_on_three_copies_witness:
  "\<exists>before unit rest. unit \<noteq> [] \<and> length unit \<le> 4096 \<and>
    replicate 100 CHR ''x'' = before @ unit @ unit @ unit @ rest \<and> 96 \<le> length (unit @ unit @ rest)"
proof -
  have "should_stop_streaming (replicate 100 CHR ''x'')"
    by (simp add: should_stop_streaming_def detect_replicate)
  from stream_stopped_only_on_three_copies [OF this] show ?thesis by blast
qed

end
