(* ===== verification/FL_F64.thy ===== *)
theory FL_F64
  imports FL_Prelude
begin

text \<open>
  Rust's \<open>f64\<close> as its 64-bit pattern. The comparisons are those of IEEE 754 (a NaN compares with
  nothing), \<open>total_cmp\<close> is the total order of the bit patterns, and the operations round the exact
  result to nearest, ties to even. A finite value is its significand times a power of two; the
  operations compute the exact result as a quotient of naturals times a power of two and round that.
\<close>

type_synonym f64 = "64 word"

definition f_mag :: "f64 \<Rightarrow> nat" where "f_mag x = unat x mod 2 ^ 63"
definition f_neg :: "f64 \<Rightarrow> bool" where "f_neg x \<longleftrightarrow> 2 ^ 63 \<le> unat x"
definition f_inf_mag :: nat where "f_inf_mag = 2047 * 2 ^ 52"

definition is_nan :: "f64 \<Rightarrow> bool" where "is_nan x \<longleftrightarrow> f_inf_mag < f_mag x"
definition is_finite :: "f64 \<Rightarrow> bool" where "is_finite x \<longleftrightarrow> f_mag x < f_inf_mag"

definition f_key :: "f64 \<Rightarrow> int" where
  "f_key x = (if f_neg x then - int (f_mag x) else int (f_mag x))"

definition f_lt :: "f64 \<Rightarrow> f64 \<Rightarrow> bool" where
  "f_lt x y \<longleftrightarrow> \<not> is_nan x \<and> \<not> is_nan y \<and> f_key x < f_key y"

definition f_le :: "f64 \<Rightarrow> f64 \<Rightarrow> bool" where
  "f_le x y \<longleftrightarrow> \<not> is_nan x \<and> \<not> is_nan y \<and> f_key x \<le> f_key y"

definition f_total_key :: "f64 \<Rightarrow> int" where
  "f_total_key x = (if f_neg x then - 1 - int (f_mag x) else int (f_mag x))"

definition f_total_cmp :: "f64 \<Rightarrow> f64 \<Rightarrow> ordering" where
  "f_total_cmp x y = cmp (f_total_key x) (f_total_key y)"

definition f_make :: "bool \<Rightarrow> nat \<Rightarrow> f64" where
  "f_make neg mag = word_of_nat ((if neg then 2 ^ 63 else 0) + mag)"

definition f_nan :: f64 where "f_nan = f_make False (f_inf_mag + 2 ^ 51)"
definition f_zero :: f64 where "f_zero = 0"
definition f_one :: f64 where "f_one = 0x3FF0000000000000"

text \<open>A magnitude is \<open>f_sig * 2 ^ f_exp\<close>; subnormals have the least exponent.\<close>

definition f_sig :: "nat \<Rightarrow> nat" where
  "f_sig mag = (if mag < 2 ^ 52 then mag else 2 ^ 52 + mag mod 2 ^ 52)"

definition f_exp :: "nat \<Rightarrow> int" where
  "f_exp mag = (if mag < 2 ^ 52 then - 1074 else int (mag div 2 ^ 52) - 1075)"

fun bit_len :: "nat \<Rightarrow> nat" where
  "bit_len n =
     (if n = 0 then 0
      else if 2 ^ 64 \<le> n then 64 + bit_len (n div 2 ^ 64)
      else Suc (bit_len (n div 2)))"

declare bit_len.simps [simp del]

definition round_even :: "nat \<Rightarrow> nat \<Rightarrow> nat \<Rightarrow> nat" where
  "round_even q r unit = (if unit < 2 * r \<or> (2 * r = unit \<and> odd q) then q + 1 else q)"

text \<open>
  \<open>f_round num den e\<close> is the magnitude nearest to \<open>num / den * 2 ^ e\<close>. The last place of the
  result has exponent \<open>t\<close>, chosen for 53 digits but never below the least exponent; callers
  give a quotient with at least 53 digits unless it is exact.
\<close>

definition round_quot :: "nat \<Rightarrow> nat \<Rightarrow> nat" where
  "round_quot num unit = round_even (num div unit) (num mod unit) unit"

definition round_at :: "int \<Rightarrow> nat \<Rightarrow> nat \<Rightarrow> int \<Rightarrow> nat" where
  "round_at t num den e =
     min (nat (t + 1074) * 2 ^ 52 + round_quot (num * 2 ^ nat (e - t)) (den * 2 ^ nat (t - e))) f_inf_mag"

definition f_round :: "nat \<Rightarrow> nat \<Rightarrow> int \<Rightarrow> nat" where
  "f_round num den e =
     (if num = 0 then 0 else round_at (max (- 1074) (int (bit_len (num div den)) + e - 53)) num den e)"

definition f_mul :: "f64 \<Rightarrow> f64 \<Rightarrow> f64" where
  "f_mul x y =
     (if is_nan x \<or> is_nan y then f_nan
      else if \<not> is_finite x \<or> \<not> is_finite y
      then (if f_mag x = 0 \<or> f_mag y = 0 then f_nan else f_make (f_neg x \<noteq> f_neg y) f_inf_mag)
      else f_make (f_neg x \<noteq> f_neg y)
             (f_round (f_sig (f_mag x) * f_sig (f_mag y)) 1 (f_exp (f_mag x) + f_exp (f_mag y))))"

definition f_div :: "f64 \<Rightarrow> f64 \<Rightarrow> f64" where
  "f_div x y =
     (if is_nan x \<or> is_nan y then f_nan
      else if \<not> is_finite x
      then (if is_finite y then f_make (f_neg x \<noteq> f_neg y) f_inf_mag else f_nan)
      else if \<not> is_finite y then f_make (f_neg x \<noteq> f_neg y) 0
      else if f_mag y = 0
      then (if f_mag x = 0 then f_nan else f_make (f_neg x \<noteq> f_neg y) f_inf_mag)
      else f_make (f_neg x \<noteq> f_neg y)
             (f_round (f_sig (f_mag x) * 2 ^ 120) (f_sig (f_mag y))
                (f_exp (f_mag x) - f_exp (f_mag y) - 120)))"

definition f_signed :: "f64 \<Rightarrow> int \<Rightarrow> int" where
  "f_signed x e =
     (if f_neg x then -1 else 1) * int (f_sig (f_mag x) * 2 ^ nat (f_exp (f_mag x) - e))"

definition f_of_sum :: "bool \<Rightarrow> int \<Rightarrow> int \<Rightarrow> f64" where
  "f_of_sum neg_zero s e =
     (if s = 0 then f_make neg_zero 0 else f_make (s < 0) (f_round (nat \<bar>s\<bar>) 1 e))"

definition f_add_at :: "int \<Rightarrow> f64 \<Rightarrow> f64 \<Rightarrow> f64" where
  "f_add_at e x y = f_of_sum (f_neg x \<and> f_neg y) (f_signed x e + f_signed y e) e"

definition f_add :: "f64 \<Rightarrow> f64 \<Rightarrow> f64" where
  "f_add x y =
     (if is_nan x \<or> is_nan y then f_nan
      else if \<not> is_finite x
      then (if is_finite y \<or> f_neg x = f_neg y then x else f_nan)
      else if \<not> is_finite y then y
      else f_add_at (min (f_exp (f_mag x)) (f_exp (f_mag y))) x y)"

definition f_flip :: "f64 \<Rightarrow> f64" where
  "f_flip x = f_make (\<not> f_neg x) (f_mag x)"

definition f_sub :: "f64 \<Rightarrow> f64 \<Rightarrow> f64" where
  "f_sub x y = f_add x (f_flip y)"

text \<open>\<open>f64::from\<close> of an unsigned integer.\<close>

definition f_of_nat :: "nat \<Rightarrow> f64" where
  "f_of_nat n = f_make False (f_round n 1 0)"

section \<open>Facts\<close>

lemma f_lt_irrefl [simp]: "\<not> f_lt x x"
  by (simp add: f_lt_def)

lemma f_lt_le_trans: "f_lt x y \<Longrightarrow> f_le y z \<Longrightarrow> f_lt x z"
  by (auto simp: f_lt_def f_le_def)

lemma f_lt_imp_le: "f_lt x y \<Longrightarrow> f_le x y"
  by (auto simp: f_lt_def f_le_def)

lemma f_le_not_lt: "f_le y x \<Longrightarrow> \<not> f_lt x y"
  by (auto simp: f_lt_def f_le_def)

lemma f_lt_not_nan: "f_lt x y \<Longrightarrow> \<not> is_nan x \<and> \<not> is_nan y"
  by (auto simp: f_lt_def)

lemma finite_not_nan: "is_finite x \<Longrightarrow> \<not> is_nan x"
  by (simp add: is_finite_def is_nan_def)

lemma f_bits_less: "unat (x :: f64) < 18446744073709551616"
  by (rule unsigned_less [of x, simplified, where 'a = nat])

lemma f_mag_neg: "unat x = (if f_neg x then 2 ^ 63 + f_mag x else f_mag x)"
proof (cases "2 ^ 63 \<le> unat x")
  case True
  have "unat x < 2 ^ 63 + 2 ^ 63" by (simp add: f_bits_less)
  then have "unat x - 2 ^ 63 < 2 ^ 63" by linarith
  then have "(unat x - 2 ^ 63) mod 2 ^ 63 = unat x - 2 ^ 63" by (rule mod_less)
  moreover have "unat x mod 2 ^ 63 = (unat x - 2 ^ 63) mod 2 ^ 63"
    by (rule le_mod_geq [OF True])
  ultimately show ?thesis using True by (simp add: f_mag_def f_neg_def)
next
  case False
  then show ?thesis by (simp add: f_mag_def f_neg_def)
qed

lemma f_total_key_inject: "f_total_key x = f_total_key y \<Longrightarrow> x = y"
proof -
  assume eq: "f_total_key x = f_total_key y"
  have "f_neg x = f_neg y \<and> f_mag x = f_mag y"
    using eq by (auto simp: f_total_key_def split: if_splits)
  then have "unat x = unat y" using f_mag_neg [of x] f_mag_neg [of y] by simp
  then show ?thesis by (simp add: unsigned_word_eqI)
qed

lemma f_total_cmp_simps [simp]:
  "f_total_cmp x y = Less \<longleftrightarrow> f_total_key x < f_total_key y"
  "f_total_cmp x y = Equal \<longleftrightarrow> x = y"
  "f_total_cmp x y = Greater \<longleftrightarrow> f_total_key y < f_total_key x"
  using f_total_key_inject [of x y] by (auto simp: f_total_cmp_def)

lemma f_total_cmp_lt: "f_lt x y \<Longrightarrow> f_total_cmp x y = Less"
  by (auto simp: f_lt_def f_key_def f_total_key_def split: if_splits)

lemmas f_eval = f_div_def f_mul_def f_sub_def f_add_def f_add_at_def f_of_sum_def f_flip_def
  f_of_nat_def f_make_def f_one_def f_sig_def f_exp_def f_signed_def f_mag_def f_neg_def is_nan_def
  is_finite_def f_inf_mag_def f_lt_def f_le_def f_key_def f_round_def round_at_def round_quot_def
  round_even_def bit_len.simps

lemma f_eval_examples:
  "f_div (f_of_nat 3) (f_of_nat 2) = 0x3FF8000000000000"
  "f_mul 0x3FE6666666666666 (f_of_nat 10) = f_of_nat 7"
  "f_sub f_one 0x3FC999999999999A = 0x3FE999999999999A"
  "f_lt (f_of_nat 6) (f_of_nat 7)"
  "f_of_nat 0 = f_zero"
  by (simp_all add: f_eval f_zero_def)

section \<open>Values\<close>

text \<open>The value of a finite magnitude in units of the least positive one, 2^-1074.\<close>

definition f_value :: "nat \<Rightarrow> nat" where
  "f_value mag = f_sig mag * 2 ^ nat (f_exp mag + 1074)"

lemma f_value_small: "m < 2 ^ 52 \<Longrightarrow> f_value m = m"
  by (simp add: f_value_def f_sig_def f_exp_def)

lemma f_value_normal:
  assumes "1 \<le> k" "r < 2 ^ 52"
  shows "f_value (k * 2 ^ 52 + r) = (2 ^ 52 + r) * 2 ^ (k - 1)"
proof -
  have ge: "\<not> k * 2 ^ 52 + r < 2 ^ 52" using assms(1) by simp
  have d: "(k * 2 ^ 52 + r) div 2 ^ 52 = k" using assms(2) by simp
  have m: "(k * 2 ^ 52 + r) mod 2 ^ 52 = r" using assms(2) by simp
  have e: "nat (int k - 1075 + 1074) = k - 1" using assms(1) by linarith
  show ?thesis unfolding f_value_def f_sig_def f_exp_def d m using ge e by presburger
qed

lemma f_value_cases:
  fixes m :: nat
  obtains "m < 2 ^ 52" | k r where "m = k * 2 ^ 52 + r" "1 \<le> k" "r < 2 ^ 52"
proof (cases "m < 2 ^ 52")
  case False
  then have "1 \<le> m div 2 ^ 52" by (simp add: div_greater_zero_iff Suc_le_eq)
  moreover have "m = m div 2 ^ 52 * 2 ^ 52 + m mod 2 ^ 52" by simp
  moreover have "m mod 2 ^ 52 < 2 ^ 52" by simp
  ultimately show ?thesis using that(2) by blast
qed (use that in blast)

lemma f_value_Suc: "f_value m \<le> f_value (Suc m)"
proof (cases m rule: f_value_cases)
  case 1
  show ?thesis
  proof (cases "Suc m < 2 ^ 52")
    case True
    then show ?thesis by (simp add: f_value_small)
  next
    case False
    then have "Suc m = 1 * 2 ^ 52 + 0" using 1 by linarith
    then have "f_value (Suc m) = 2 ^ 52" using f_value_normal [of 1 0] by simp
    then show ?thesis using 1 f_value_small [OF 1] by linarith
  qed
next
  case (2 k r)
  show ?thesis
  proof (cases "Suc r < 2 ^ 52")
    case True
    then have "f_value (Suc m) = (2 ^ 52 + Suc r) * 2 ^ (k - 1)"
      using f_value_normal [of k "Suc r"] 2 by simp
    then show ?thesis using f_value_normal [of k r] 2 by simp
  next
    case False
    then have r: "r = 2 ^ 52 - 1" using 2 by linarith
    then have "Suc m = Suc k * 2 ^ 52 + 0" using 2 by simp
    then have "f_value (Suc m) = 2 ^ 52 * 2 ^ k" using f_value_normal [of "Suc k" 0] by simp
    moreover have "f_value m = (2 ^ 52 + r) * 2 ^ (k - 1)" using f_value_normal [of k r] 2 by simp
    moreover have "(2 ^ 52 + r) * 2 ^ (k - 1) \<le> (2 ^ 52 * 2) * 2 ^ (k - 1)"
      by (rule mult_right_mono) (use r in simp_all)
    moreover have "(2 :: nat) * 2 ^ (k - 1) = 2 ^ k" using 2 by (cases k) simp_all
    ultimately show ?thesis by (metis mult.assoc)
  qed
qed

lemma f_value_mono: "m \<le> n \<Longrightarrow> f_value m \<le> f_value n"
  by (rule lift_Suc_mono_le [of f_value]) (rule f_value_Suc)

lemma bit_len_bounds: "0 < n \<Longrightarrow> 0 < bit_len n \<and> 2 ^ (bit_len n - 1) \<le> n \<and> n < 2 ^ bit_len n"
proof (induction n rule: bit_len.induct)
  case (1 n)
  show ?case
  proof (cases "2 ^ 64 \<le> n")
    case True
    let ?q = "n div 2 ^ 64"
    have q: "0 < ?q" using True by (simp add: div_greater_zero_iff)
    have ih: "0 < bit_len ?q \<and> 2 ^ (bit_len ?q - 1) \<le> ?q \<and> ?q < 2 ^ bit_len ?q"
      using 1 True q by simp
    have b: "bit_len n = 64 + bit_len ?q" using True by (subst bit_len.simps) auto
    have split: "n = ?q * 2 ^ 64 + n mod 2 ^ 64" by simp
    have "bit_len n - 1 = (bit_len ?q - 1) + 64" using ih b by linarith
    then have "2 ^ (bit_len n - 1) = 2 ^ (bit_len ?q - 1) * (2 :: nat) ^ 64"
      by (simp only: power_add)
    also have "\<dots> \<le> ?q * 2 ^ 64" by (rule mult_right_mono) (use ih in simp_all)
    also have "\<dots> \<le> n" using split by linarith
    finally have lo: "2 ^ (bit_len n - 1) \<le> n" .
    have "n < (?q + 1) * 2 ^ 64"
      using dividend_less_div_times [of "2 ^ 64" n] by (simp only: add_mult_distrib mult_1 add.commute) simp
    also have "\<dots> \<le> 2 ^ bit_len ?q * 2 ^ 64" by (rule mult_right_mono) (use ih in simp_all)
    also have "\<dots> = 2 ^ bit_len n" by (simp add: b power_add)
    finally show ?thesis using lo b by simp
  next
    case False
    show ?thesis
    proof (cases "n = 1")
      case True
      then show ?thesis by (simp add: bit_len.simps)
    next
      case one: False
      let ?q = "n div 2"
      have q: "0 < ?q" using one 1 by simp
      have ih: "0 < bit_len ?q \<and> 2 ^ (bit_len ?q - 1) \<le> ?q \<and> ?q < 2 ^ bit_len ?q"
        using 1 False q by simp
      have b: "bit_len n = Suc (bit_len ?q)" using False 1 by (subst bit_len.simps) auto
      have "2 ^ (bit_len n - 1) = 2 * (2 :: nat) ^ (bit_len ?q - 1)"
        using ih b by (cases "bit_len ?q") simp_all
      then have "2 ^ (bit_len n - 1) \<le> n" using ih by linarith
      moreover have "n < 2 ^ bit_len n"
      proof -
        have "?q + 1 \<le> 2 ^ bit_len ?q" using ih by simp
        moreover have "2 ^ bit_len n = 2 * (2 :: nat) ^ bit_len ?q" by (simp add: b)
        ultimately show ?thesis by linarith
      qed
      ultimately show ?thesis using b by simp
    qed
  qed
qed

lemma f_make_parts:
  assumes "mag < 2 ^ 63"
  shows "f_mag (f_make neg mag) = mag" "f_neg (f_make neg mag) = neg"
proof -
  have u: "unat (f_make neg mag) = (if neg then 2 ^ 63 else 0) + mag"
  proof -
    have "(if neg then 2 ^ 63 else 0) + mag < 2 ^ LENGTH(64)" using assms by simp
    then show ?thesis unfolding f_make_def unat_of_nat by (rule mod_less)
  qed
  show "f_mag (f_make neg mag) = mag" using u assms by (simp add: f_mag_def)
  show "f_neg (f_make neg mag) = neg" using u assms by (simp add: f_neg_def)
qed

text \<open>Integers below 2^53 are exact.\<close>

lemma f_of_nat_mag:
  assumes "0 < n" "n < 2 ^ 53"
  obtains q where "f_round n 1 0 = (bit_len n + 1022) * 2 ^ 52 + q" "q < 2 ^ 52"
    "(2 ^ 52 + q) * 2 ^ (bit_len n + 1021) = n * 2 ^ 1074" "bit_len n \<le> 53"
proof -
  let ?b = "bit_len n" and ?v = "n * 2 ^ (53 - bit_len n)"
  have b: "0 < ?b" "2 ^ (?b - 1) \<le> n" "n < 2 ^ ?b" using bit_len_bounds [OF assms(1)] by auto
  have "(2 :: nat) ^ (?b - 1) < 2 ^ 53" using b(2) assms(2) by linarith
  then have "?b - 1 < 53" by (rule power_less_imp_less_exp [rotated]) simp
  then have le: "?b \<le> 53" by linarith
  have up: "?v < 2 ^ 53"
  proof -
    have "?v < 2 ^ ?b * 2 ^ (53 - ?b)" by (rule mult_strict_right_mono) (use b in simp_all)
    also have "\<dots> = 2 ^ 53" using le by (simp add: power_add [symmetric])
    finally show ?thesis .
  qed
  have lo: "2 ^ 52 \<le> ?v"
  proof -
    have "(2 :: nat) ^ 52 = 2 ^ (?b - 1) * 2 ^ (53 - ?b)" using le b(1) by (simp add: power_add [symmetric])
    also have "\<dots> \<le> ?v" by (rule mult_right_mono) (use b in simp_all)
    finally show ?thesis .
  qed
  have t: "max (- 1074) (int ?b + 0 - 53) = int ?b - 53" by simp
  have n1: "nat (0 - (int ?b - 53)) = 53 - ?b" "nat (int ?b - 53 - 0) = 0"
    "nat (int ?b - 53 + 1074) = ?b + 1021" using le by linarith+
  have inf: "(?b + 1021) * 2 ^ 52 + ?v \<le> f_inf_mag"
  proof -
    have "(?b + 1021) * 2 ^ 52 \<le> (1074 :: nat) * 2 ^ 52" by (rule mult_right_mono) (use le in simp_all)
    then show ?thesis using up by (simp add: f_inf_mag_def)
  qed
  have "f_round n 1 0 = min ((?b + 1021) * 2 ^ 52 + ?v) f_inf_mag"
    unfolding f_round_def round_at_def div_by_1 t n1 round_quot_def round_even_def using assms by simp
  also have "\<dots> = (?b + 1021) * 2 ^ 52 + ?v" using inf by simp
  also have "\<dots> = (?b + 1022) * 2 ^ 52 + (?v - 2 ^ 52)" using lo by simp
  finally have r: "f_round n 1 0 = (?b + 1022) * 2 ^ 52 + (?v - 2 ^ 52)" .
  have "(2 ^ 52 + (?v - 2 ^ 52)) * 2 ^ (?b + 1021) = ?v * 2 ^ (?b + 1021)" using lo by simp
  also have "\<dots> = n * (2 ^ (53 - ?b) * 2 ^ (?b + 1021))" by (simp only: mult.assoc)
  also have "(2 :: nat) ^ (53 - ?b) * 2 ^ (?b + 1021) = 2 ^ 1074"
    using le by (simp only: power_add [symmetric]) simp
  finally have "(2 ^ 52 + (?v - 2 ^ 52)) * 2 ^ (?b + 1021) = n * 2 ^ 1074" .
  moreover have "?v - 2 ^ 52 < 2 ^ 52" using up by simp
  ultimately show ?thesis using that r le by blast
qed

lemma f_of_nat_exact:
  assumes "n < 2 ^ 53"
  shows "f_value (f_round n 1 0) = n * 2 ^ 1074" "f_round n 1 0 < f_inf_mag"
proof -
  have "f_value (f_round n 1 0) = n * 2 ^ 1074 \<and> f_round n 1 0 < f_inf_mag"
  proof (cases "n = 0")
    case True
    then show ?thesis by (simp add: f_round_def f_value_def f_sig_def f_inf_mag_def)
  next
    case False
    then obtain q where q: "f_round n 1 0 = (bit_len n + 1022) * 2 ^ 52 + q" "q < 2 ^ 52"
      "(2 ^ 52 + q) * 2 ^ (bit_len n + 1021) = n * 2 ^ 1074" "bit_len n \<le> 53"
      using f_of_nat_mag assms by blast
    have "f_value (f_round n 1 0) = (2 ^ 52 + q) * 2 ^ (bit_len n + 1022 - 1)"
      unfolding q(1) by (rule f_value_normal) (use q in simp_all)
    moreover have "(bit_len n + 1022) * 2 ^ 52 \<le> (1075 :: nat) * 2 ^ 52"
      by (rule mult_right_mono) (use q in simp_all)
    moreover have "bit_len n + 1022 - 1 = bit_len n + 1021" by simp
    ultimately have "f_value (f_round n 1 0) = n * 2 ^ 1074" using q(3) by metis
    moreover have "f_round n 1 0 < f_inf_mag"
      using q(1,2) \<open>(bit_len n + 1022) * 2 ^ 52 \<le> (1075 :: nat) * 2 ^ 52\<close> by (simp add: f_inf_mag_def)
    ultimately show ?thesis by blast
  qed
  then show "f_value (f_round n 1 0) = n * 2 ^ 1074" "f_round n 1 0 < f_inf_mag" by simp_all
qed

lemma f_of_nat_parts:
  assumes "n < 2 ^ 53"
  shows "f_mag (f_of_nat n) = f_round n 1 0" "\<not> f_neg (f_of_nat n)" "is_finite (f_of_nat n)"
proof -
  have l: "f_round n 1 0 < f_inf_mag" by (rule f_of_nat_exact [OF assms])
  then have l2: "f_round n 1 0 < 2 ^ 63" by (simp add: f_inf_mag_def)
  show m: "f_mag (f_of_nat n) = f_round n 1 0" "\<not> f_neg (f_of_nat n)"
    unfolding f_of_nat_def using f_make_parts [OF l2] by simp_all
  show "is_finite (f_of_nat n)" unfolding is_finite_def m using l .
qed

end
