(* ===== verification/Capability.thy ===== *)
theory Capability
  imports FL_F64 FL_Json
begin

text \<open>
  What an installed model can do (\<open>capability.rs\<close>) and the task vocabulary of the router
  (\<open>platform/routing.rs\<close>): the enumerations with their wire names, and the record of observed
  repetition loops (\<open>platform/loops.rs\<close>).
\<close>

section \<open>Capabilities and the inventory type\<close>

datatype capability =
    CCompletion | CTools | CVision | CAudio | CThinking | CEmbedding | COther

definition capability_parse :: "string \<Rightarrow> capability" where
  "capability_parse s =
     (if s = ''completion'' then CCompletion
      else if s = ''tools'' then CTools
      else if s = ''vision'' then CVision
      else if s = ''audio'' then CAudio
      else if s = ''thinking'' then CThinking
      else if s = ''embedding'' then CEmbedding
      else COther)"

datatype model_type = Generative | Multimodal | EmbeddingOnly | UnknownModel

definition from_capabilities :: "capability set \<Rightarrow> model_type" where
  "from_capabilities caps =
     (if CEmbedding \<in> caps \<and> CCompletion \<notin> caps then EmbeddingOnly
      else if CCompletion \<in> caps \<and> (CVision \<in> caps \<or> CAudio \<in> caps) then Multimodal
      else if CCompletion \<in> caps then Generative
      else UnknownModel)"

section \<open>Tasks\<close>

datatype task_kind =
    TCompletion | TCoding | TCodeRepair | TTools | TBrowser | TVision | TEmbedding | TLongContext

fun task_as_str :: "task_kind \<Rightarrow> string" where
  "task_as_str TCompletion = ''completion''"
| "task_as_str TCoding = ''coding''"
| "task_as_str TCodeRepair = ''code_repair''"
| "task_as_str TTools = ''tools''"
| "task_as_str TBrowser = ''browser''"
| "task_as_str TVision = ''vision''"
| "task_as_str TEmbedding = ''embedding''"
| "task_as_str TLongContext = ''long_context''"

text \<open>The derived \<open>Ord\<close> of the enumeration, which the ordered maps keyed by it use.\<close>

fun task_rank :: "task_kind \<Rightarrow> nat" where
  "task_rank TCompletion = 0"
| "task_rank TCoding = 1"
| "task_rank TCodeRepair = 2"
| "task_rank TTools = 3"
| "task_rank TBrowser = 4"
| "task_rank TVision = 5"
| "task_rank TEmbedding = 6"
| "task_rank TLongContext = 7"

lemma task_rank_inject [simp]: "task_rank a = task_rank b \<longleftrightarrow> a = b"
  by (cases a; cases b; simp)

instantiation task_kind :: linorder
begin

definition less_eq_task_kind :: "task_kind \<Rightarrow> task_kind \<Rightarrow> bool" where
  "less_eq_task_kind a b \<longleftrightarrow> task_rank a \<le> task_rank b"

definition less_task_kind :: "task_kind \<Rightarrow> task_kind \<Rightarrow> bool" where
  "less_task_kind a b \<longleftrightarrow> task_rank a < task_rank b"

instance
proof
  fix a b c :: task_kind
  show "(a < b) = (a \<le> b \<and> \<not> b \<le> a)" by (auto simp: less_eq_task_kind_def less_task_kind_def)
  show "a \<le> a" by (simp add: less_eq_task_kind_def)
  show "a \<le> b \<Longrightarrow> b \<le> c \<Longrightarrow> a \<le> c" by (simp add: less_eq_task_kind_def)
  show "a \<le> b \<Longrightarrow> b \<le> a \<Longrightarrow> a = b" by (simp add: less_eq_task_kind_def)
  show "a \<le> b \<or> b \<le> a" by (auto simp: less_eq_task_kind_def)
qed

end

lemma task_as_str_inject: "task_as_str a = task_as_str b \<Longrightarrow> a = b"
  by (cases a; cases b; simp)

datatype objective = Fastest | Balanced | Quality

datatype backend = Cpu | Gpu

fun backend_as_str :: "backend \<Rightarrow> string" where
  "backend_as_str Cpu = ''cpu''"
| "backend_as_str Gpu = ''gpu''"

section \<open>Observed loops\<close>

record loop_record =
  lr_runs :: nat
  lr_loops :: nat

definition keeps_looping :: "loop_record \<Rightarrow> bool" where
  "keeps_looping r \<longleftrightarrow> 2 \<le> lr_loops r \<and> lr_runs r \<le> sat_mul u32_max (lr_loops r) 2"

type_synonym loop_evidence = "string \<times> task_kind \<Rightarrow> loop_record option"

definition loop_default :: loop_record where
  "loop_default = \<lparr>lr_runs = 0, lr_loops = 0\<rparr>"

definition loop_note :: "string \<Rightarrow> task_kind \<Rightarrow> bool \<Rightarrow> loop_evidence \<Rightarrow> loop_evidence" where
  "loop_note model task looped m =
     (let r = (case m (model, task) of None \<Rightarrow> loop_default | Some r \<Rightarrow> r);
          r' = r\<lparr>lr_runs := sat_add u32_max (lr_runs r) 1\<rparr>
      in m((model, task) \<mapsto>
           (if looped then r'\<lparr>lr_loops := sat_add u32_max (lr_loops r') 1\<rparr> else r')))"

definition for_model :: "string \<Rightarrow> loop_evidence \<Rightarrow> task_kind \<Rightarrow> loop_record option" where
  "for_model model m task = m (model, task)"

fun loop_notes :: "string \<Rightarrow> task_kind \<Rightarrow> bool list \<Rightarrow> loop_evidence \<Rightarrow> loop_evidence" where
  "loop_notes model task [] m = m"
| "loop_notes model task (b # bs) m = loop_notes model task bs (loop_note model task b m)"

lemma loop_notes_counts:
  "(case m (model, task) of None \<Rightarrow> loop_default | Some r \<Rightarrow> r) = \<lparr>lr_runs = a, lr_loops = b\<rparr> \<Longrightarrow>
   b \<le> a \<Longrightarrow> a + length bs \<le> u32_max \<Longrightarrow>
   (case loop_notes model task bs m (model, task) of None \<Rightarrow> loop_default | Some r \<Rightarrow> r) =
     \<lparr>lr_runs = a + length bs, lr_loops = b + length (filter id bs)\<rparr>"
proof (induction bs arbitrary: m a b)
  case Nil
  then show ?case by simp
next
  case (Cons x bs)
  have "(case loop_note model task x m (model, task) of None \<Rightarrow> loop_default | Some r \<Rightarrow> r) =
      \<lparr>lr_runs = a + 1, lr_loops = b + (if x then 1 else 0)\<rparr>"
    using Cons.prems by (simp add: loop_note_def Let_def sat_add_exact)
  then show ?case using Cons.IH [of "loop_note model task x m" "a + 1" "b + (if x then 1 else 0)"] Cons.prems
    by (cases x) auto
qed

lemma loop_notes_other: "(n, t) \<noteq> (model, task) \<Longrightarrow> loop_notes model task bs m (n, t) = m (n, t)"
  by (induction bs arbitrary: m) (auto simp: loop_note_def Let_def)

section \<open>Properties\<close>

text \<open>
  Loop evidence. After any sequence of recorded runs of one model on one task, the record holds
  the number of runs and of loops among them; the model keeps looping exactly when at least two
  runs looped and loops are at least half of the runs; other models and tasks are untouched.
\<close>

theorem loop_evidence_counts:
  assumes "length bs < u32_max div 2" "bs \<noteq> []"
  shows "\<exists>r. for_model model (loop_notes model task bs Map.empty) task = Some r \<and>
    lr_runs r = length bs \<and> lr_loops r = length (filter id bs) \<and>
    (keeps_looping r \<longleftrightarrow> 2 \<le> length (filter id bs) \<and> length bs \<le> 2 * length (filter id bs)) \<and>
    (\<forall>n t. (n, t) \<noteq> (model, task) \<longrightarrow> loop_notes model task bs Map.empty (n, t) = None)"
proof -
  let ?m = "loop_notes model task bs Map.empty"
  have bound: "length bs \<le> u32_max" "2 * length bs \<le> u32_max" using assms(1) by linarith+
  have counts: "(case ?m (model, task) of None \<Rightarrow> loop_default | Some r \<Rightarrow> r) =
      \<lparr>lr_runs = length bs, lr_loops = length (filter id bs)\<rparr>"
    using loop_notes_counts [of Map.empty model task 0 0 bs] bound by (simp add: loop_default_def)
  then obtain r where r: "?m (model, task) = Some r" "lr_runs r = length bs" "lr_loops r = length (filter id bs)"
    using assms(2) by (cases "?m (model, task)") (auto simp: loop_default_def)
  have "length (filter id bs) * 2 \<le> u32_max"
    using bound(2) length_filter_le [of id bs] by linarith
  then have "sat_mul u32_max (lr_loops r) 2 = 2 * length (filter id bs)"
    using r(3) by (simp add: sat_mul_def mult.commute)
  then show ?thesis
    using r loop_notes_other [of _ _ model task bs Map.empty]
    by (auto simp: for_model_def keeps_looping_def)
qed

theorem loop_evidence_counts_witness:
  "\<exists>r. for_model ''m'' (loop_notes ''m'' TVision [True, False, True] Map.empty) TVision = Some r \<and>
    keeps_looping r"
  using loop_evidence_counts [of "[True, False, True]" "''m''" TVision] by (auto simp: u32_max_def)

end
