(* ===== verification/Sessions.thy ===== *)
theory Sessions
  imports FL_Json
begin

text \<open>
  Session affinity (\<open>SessionAffinity\<close> in \<open>platform/routing.rs\<close>) and its HTTP handlers
  (\<open>platform/sessions.rs\<close>). A session is a handle with an optional model and the time of its last
  use. Its \<open>watch\<close> channel is a number; the set of channels whose value became true is kept beside
  the map, because a killed session's receivers outlive its record. A new id is a parameter: the
  code draws a random UUID. Instants are nanoseconds, and every operation holds the session lock.
\<close>

section \<open>The affinity map\<close>

record sess =
  se_model :: "string option"
  se_last_used :: instant
  se_channel :: nat

record affinity =
  af_sessions :: "(string, sess) btree"
  af_next_channel :: nat
  af_killed :: "nat list"

definition aff_new :: affinity where
  "aff_new = \<lparr>af_sessions = [], af_next_channel = 0, af_killed = []\<rparr>"

definition aff_create :: "instant \<Rightarrow> string \<Rightarrow> affinity \<Rightarrow> affinity" where
  "aff_create now sid a =
     a\<lparr>af_sessions := bt_put sid \<lparr>se_model = None, se_last_used = now, se_channel = af_next_channel a\<rparr>
          (af_sessions a),
       af_next_channel := af_next_channel a + 1\<rparr>"

definition aff_assigned :: "string \<Rightarrow> affinity \<Rightarrow> string option" where
  "aff_assigned sid a = Option.bind (bt_get (af_sessions a) sid) se_model"

definition aff_bind :: "instant \<Rightarrow> string \<Rightarrow> string \<Rightarrow> affinity \<Rightarrow> affinity" where
  "aff_bind now sid model a =
     (case bt_get (af_sessions a) sid of
        None \<Rightarrow> a
      | Some r \<Rightarrow> a\<lparr>af_sessions := bt_put sid (r\<lparr>se_model := Some model, se_last_used := now\<rparr>)
                     (af_sessions a)\<rparr>)"

definition aff_prune :: "instant \<Rightarrow> duration \<Rightarrow> affinity \<Rightarrow> affinity" where
  "aff_prune now ttl a = a\<lparr>af_sessions := bt_retain (\<lambda>_ r. now - se_last_used r < ttl) (af_sessions a)\<rparr>"

definition aff_touch :: "instant \<Rightarrow> string \<Rightarrow> duration \<Rightarrow> affinity \<Rightarrow> bool \<times> affinity" where
  "aff_touch now sid ttl a =
     (let a' = aff_prune now ttl a
      in case bt_get (af_sessions a') sid of
           Some r \<Rightarrow> (True, a'\<lparr>af_sessions := bt_put sid (r\<lparr>se_last_used := now\<rparr>) (af_sessions a')\<rparr>)
         | None \<Rightarrow> (False, a'))"

definition aff_remove :: "string \<Rightarrow> affinity \<Rightarrow> bool \<times> affinity" where
  "aff_remove sid a = (bt_get (af_sessions a) sid \<noteq> None, a\<lparr>af_sessions := bt_del sid (af_sessions a)\<rparr>)"

definition aff_cancellation :: "string \<Rightarrow> affinity \<Rightarrow> nat option" where
  "aff_cancellation sid a = map_option se_channel (bt_get (af_sessions a) sid)"

definition aff_kill :: "string \<Rightarrow> affinity \<Rightarrow> bool \<times> affinity" where
  "aff_kill sid a =
     (case bt_get (af_sessions a) sid of
        None \<Rightarrow> (False, a)
      | Some r \<Rightarrow> (True, a\<lparr>af_sessions := bt_del sid (af_sessions a),
                          af_killed := se_channel r # af_killed a\<rparr>))"

definition aff_len :: "affinity \<Rightarrow> nat" where
  "aff_len a = length (af_sessions a)"

section \<open>Handlers\<close>

datatype session_error = SessionNotFound | SessionLimit nat | SessionKilled

fun session_status :: "session_error \<Rightarrow> nat" where
  "session_status SessionNotFound = 404"
| "session_status (SessionLimit _) = 429"
| "session_status SessionKilled = 409"

definition require_active_session ::
  "instant \<Rightarrow> duration \<Rightarrow> string option \<Rightarrow> affinity \<Rightarrow> (session_error + unit) \<times> affinity" where
  "require_active_session now ttl sid a =
     (case sid of
        None \<Rightarrow> (Inr (), a)
      | Some sid \<Rightarrow> (case aff_touch now sid ttl a of
            (True, a') \<Rightarrow> (Inr (), a')
          | (False, a') \<Rightarrow> (Inl SessionNotFound, a')))"

text \<open>
  \<open>with_session_cancellation\<close>: registration under the lock, then a biased race between the kill
  signal and the work. \<open>guard_poll\<close> is one poll of the race: \<open>None\<close> is pending.
\<close>

definition guard_register ::
  "instant \<Rightarrow> duration \<Rightarrow> string option \<Rightarrow> affinity \<Rightarrow> (session_error + nat option) \<times> affinity" where
  "guard_register now ttl sid a =
     (case sid of
        None \<Rightarrow> (Inr None, a)
      | Some sid \<Rightarrow> (case aff_touch now sid ttl a of
            (True, a') \<Rightarrow> (Inr (aff_cancellation sid a'), a')
          | (False, a') \<Rightarrow> (Inl SessionNotFound, a')))"

definition guard_poll :: "nat option \<Rightarrow> (session_error + 'r) option \<Rightarrow> affinity \<Rightarrow> (session_error + 'r) option"
  where
  "guard_poll channel work a =
     (case channel of
        Some c \<Rightarrow> if c \<in> set (af_killed a) then Some (Inl SessionKilled) else work
      | None \<Rightarrow> work)"

definition create_session ::
  "instant \<Rightarrow> duration \<Rightarrow> nat \<Rightarrow> string \<Rightarrow> affinity \<Rightarrow> (session_error + string) \<times> affinity" where
  "create_session now ttl max_sessions sid a =
     (let a' = aff_prune now ttl a
      in if max_sessions \<le> aff_len a' then (Inl (SessionLimit max_sessions), a')
         else (Inr sid, aff_create now sid a'))"

definition delete_session ::
  "instant \<Rightarrow> duration \<Rightarrow> string \<Rightarrow> affinity \<Rightarrow> (session_error + unit) \<times> affinity" where
  "delete_session now ttl sid a =
     (case aff_remove sid (aff_prune now ttl a) of
        (True, a') \<Rightarrow> (Inr (), a')
      | (False, a') \<Rightarrow> (Inl SessionNotFound, a'))"

definition kill_session ::
  "instant \<Rightarrow> duration \<Rightarrow> string \<Rightarrow> affinity \<Rightarrow> (session_error + unit) \<times> affinity" where
  "kill_session now ttl sid a =
     (case aff_kill sid (aff_prune now ttl a) of
        (True, a') \<Rightarrow> (Inr (), a')
      | (False, a') \<Rightarrow> (Inl SessionNotFound, a'))"

section \<open>Runs\<close>

datatype sess_event =
    SeCreate instant string
  | SeTouch instant string
  | SeBind instant string string
  | SeDelete instant string
  | SeKill instant string

fun sess_step :: "duration \<Rightarrow> nat \<Rightarrow> affinity \<Rightarrow> sess_event \<Rightarrow> affinity" where
  "sess_step ttl mx a (SeCreate now sid) = snd (create_session now ttl mx sid a)"
| "sess_step ttl mx a (SeTouch now sid) = snd (require_active_session now ttl (Some sid) a)"
| "sess_step ttl mx a (SeBind now sid model) = aff_bind now sid model a"
| "sess_step ttl mx a (SeDelete now sid) = snd (delete_session now ttl sid a)"
| "sess_step ttl mx a (SeKill now sid) = snd (kill_session now ttl sid a)"

definition channels :: "affinity \<Rightarrow> nat list" where
  "channels a = map (\<lambda>p. se_channel (snd p)) (af_sessions a)"

definition sess_inv :: "nat \<Rightarrow> affinity \<Rightarrow> bool" where
  "sess_inv mx a \<longleftrightarrow> bt_wf (af_sessions a) \<and> aff_len a \<le> mx \<and> inj_on (\<lambda>p. se_channel (snd p)) (set (af_sessions a)) \<and>
     (\<forall>p \<in> set (af_sessions a). se_channel (snd p) < af_next_channel a \<and> se_channel (snd p) \<notin> set (af_killed a)) \<and>
     (\<forall>c \<in> set (af_killed a). c < af_next_channel a)"

lemma sess_inv_new: "sess_inv mx aff_new"
  by (simp add: sess_inv_def aff_new_def aff_len_def)

lemma channel_unique:
  "sess_inv mx a \<Longrightarrow> p \<in> set (af_sessions a) \<Longrightarrow> q \<in> set (af_sessions a) \<Longrightarrow>
    se_channel (snd p) = se_channel (snd q) \<Longrightarrow> p = q"
  unfolding sess_inv_def by (metis (no_types, lifting) inj_on_def)

lemma prune_subset: "set (af_sessions (aff_prune now ttl a)) \<subseteq> set (af_sessions a)"
  by (auto simp: aff_prune_def bt_retain_def)

lemma prune_frame [simp]:
  "af_next_channel (aff_prune now ttl a) = af_next_channel a"
  "af_killed (aff_prune now ttl a) = af_killed a"
  by (simp_all add: aff_prune_def)

lemma sess_inv_subset:
  assumes "sess_inv mx a" "set (af_sessions b) \<subseteq> set (af_sessions a)" "bt_wf (af_sessions b)"
    "length (af_sessions b) \<le> length (af_sessions a)" "af_next_channel b = af_next_channel a" "af_killed b = af_killed a"
  shows "sess_inv mx b"
  using assms unfolding sess_inv_def aff_len_def
  by (auto intro: inj_on_subset)

lemma prune_inv: "sess_inv mx a \<Longrightarrow> sess_inv mx (aff_prune now ttl a)"
  by (rule sess_inv_subset [of mx a]) (auto simp: sess_inv_def prune_subset aff_prune_def bt_retain_def
      intro: bt_wf_filter)

text \<open>Replacing the record of a present session by one with the same channel keeps the invariant.\<close>

lemma put_inv:
  assumes "sess_inv mx a" "bt_get (af_sessions a) sid = Some r" "se_channel r' = se_channel r"
  shows "sess_inv mx (a\<lparr>af_sessions := bt_put sid r' (af_sessions a)\<rparr>)"
proof -
  let ?m = "af_sessions a" and ?m' = "bt_put sid r' (af_sessions a)"
  have wf: "bt_wf ?m" and inj: "inj_on (\<lambda>p. se_channel (snd p)) (set ?m)"
    using assms(1) by (auto simp: sess_inv_def)
  have wf': "bt_wf ?m'" using wf by simp
  have old: "(sid, r) \<in> set ?m" using assms(2) by (rule bt_get_in)
  have mem: "(k, v) \<in> set ?m' \<Longrightarrow> (k = sid \<and> v = r') \<or> (k \<noteq> sid \<and> (k, v) \<in> set ?m)" for k v
    using bt_in_get [OF wf', of k v] by (auto split: if_splits intro: bt_get_in)
  have "inj_on (\<lambda>p. se_channel (snd p)) (set ?m')"
  proof (rule inj_onI, clarify)
    fix k v l w assume a: "(k, v) \<in> set ?m'" "(l, w) \<in> set ?m'" "se_channel (snd (k, v)) = se_channel (snd (l, w))"
    show "k = l \<and> v = w"
      using mem [OF a(1)] mem [OF a(2)] a(3) assms(3) inj old
      by (auto simp: inj_on_def) (metis snd_conv prod.inject)+
  qed
  moreover have "length ?m' = length ?m" using bt_length_put [OF wf, of sid r'] assms(2) by simp
  moreover have "se_channel v < af_next_channel a \<and> se_channel v \<notin> set (af_killed a)"
    if "(k, v) \<in> set ?m'" for k v
    using mem [OF that] assms old by (auto simp: sess_inv_def)
  ultimately show ?thesis using assms(1) wf' by (auto simp: sess_inv_def aff_len_def)
qed

lemma create_inv:
  assumes "sess_inv mx a" "aff_len a < mx"
  shows "sess_inv mx (aff_create now sid a)"
proof -
  let ?m = "af_sessions a" and ?c = "af_next_channel a"
  let ?r = "\<lparr>se_model = None, se_last_used = now, se_channel = ?c\<rparr>"
  have wf: "bt_wf ?m" and inj: "inj_on (\<lambda>p. se_channel (snd p)) (set ?m)"
    and lt: "\<And>p. p \<in> set ?m \<Longrightarrow> se_channel (snd p) < ?c \<and> se_channel (snd p) \<notin> set (af_killed a)"
    and killed: "\<And>c. c \<in> set (af_killed a) \<Longrightarrow> c < ?c"
    using assms(1) by (auto simp: sess_inv_def)
  have sub: "set (bt_put sid ?r ?m) \<subseteq> insert (sid, ?r) (set ?m)" by (rule bt_set_put)
  have "inj_on (\<lambda>p. se_channel (snd p)) (insert (sid, ?r) (set ?m))"
    using inj lt by (fastforce simp: inj_on_insert)
  then have "inj_on (\<lambda>p. se_channel (snd p)) (set (bt_put sid ?r ?m))"
    using sub by (rule inj_on_subset)
  moreover have "length (bt_put sid ?r ?m) \<le> mx"
    using bt_length_put [OF wf, of sid ?r] assms(2) by (auto simp: aff_len_def)
  moreover have "se_channel (snd p) < Suc ?c \<and> se_channel (snd p) \<notin> set (af_killed a)"
    if p: "p \<in> set (bt_put sid ?r ?m)" for p
    using subsetD [OF sub p] lt [of p] killed [of ?c] by auto
  moreover have "c < Suc ?c" if "c \<in> set (af_killed a)" for c
    using killed [OF that] by simp
  ultimately show ?thesis using wf unfolding aff_create_def sess_inv_def aff_len_def by simp
qed

lemma remove_inv: "sess_inv mx a \<Longrightarrow> sess_inv mx (snd (aff_remove sid a))"
  by (rule sess_inv_subset [of mx a])
    (auto simp: aff_remove_def bt_del_def sess_inv_def intro: bt_wf_filter)

lemma kill_inv: "sess_inv mx a \<Longrightarrow> sess_inv mx (snd (aff_kill sid a))"
proof (cases "bt_get (af_sessions a) sid")
  case None
  then show "sess_inv mx a \<Longrightarrow> ?thesis" by (simp add: aff_kill_def)
next
  case (Some r)
  assume inv: "sess_inv mx a"
  have mem: "(sid, r) \<in> set (af_sessions a)" using Some by (rule bt_get_in)
  have inv': "sess_inv mx (snd (aff_remove sid a))" by (rule remove_inv [OF inv])
  have "se_channel (snd p) \<noteq> se_channel r"
    if p: "p \<in> set (bt_del sid (af_sessions a))" for p
  proof
    assume eq: "se_channel (snd p) = se_channel r"
    have "p \<in> set (af_sessions a)" "fst p \<noteq> sid" using p by (auto simp: bt_del_def)
    then have "p = (sid, r)" using channel_unique [OF inv, of p "(sid, r)"] mem eq by simp
    with \<open>fst p \<noteq> sid\<close> show False by simp
  qed
  moreover have "se_channel r < af_next_channel a" using inv mem by (auto simp: sess_inv_def)
  ultimately show ?thesis
    using inv' Some by (auto simp: aff_kill_def aff_remove_def sess_inv_def aff_len_def)
qed

lemma touch_inv: "sess_inv mx a \<Longrightarrow> sess_inv mx (snd (aff_touch now sid ttl a))"
  using prune_inv [of mx a now ttl] put_inv [of mx "aff_prune now ttl a" sid]
  by (auto simp: aff_touch_def Let_def split: option.splits)

lemma bind_inv: "sess_inv mx a \<Longrightarrow> sess_inv mx (aff_bind now sid model a)"
  using put_inv [of mx a sid] by (auto simp: aff_bind_def split: option.splits)

lemma handler_state:
  "snd (require_active_session now ttl (Some sid) a) = snd (aff_touch now sid ttl a)"
  "snd (delete_session now ttl sid a) = snd (aff_remove sid (aff_prune now ttl a))"
  "snd (kill_session now ttl sid a) = snd (aff_kill sid (aff_prune now ttl a))"
  by (auto simp: require_active_session_def delete_session_def kill_session_def split: prod.splits bool.splits)

lemma sess_step_inv: "sess_inv mx a \<Longrightarrow> sess_inv mx (sess_step ttl mx a e)"
  using prune_inv [of mx a] create_inv [of mx] touch_inv [of mx a] bind_inv [of mx a] remove_inv [of mx] kill_inv [of mx]
  by (cases e) (auto simp: handler_state create_session_def Let_def)

interpretation sess_system: invariant_system "sess_step ttl mx" "\<lambda>_. True" "sess_inv mx"
  by unfold_locales (rule sess_step_inv)

definition sess_run :: "duration \<Rightarrow> nat \<Rightarrow> affinity \<Rightarrow> sess_event list \<Rightarrow> affinity" where
  "sess_run ttl mx a es = foldl (sess_step ttl mx) a es"

lemma sess_run_inv: "sess_inv mx a \<Longrightarrow> sess_inv mx (sess_run ttl mx a es)"
  unfolding sess_run_def by (rule sess_system.run_inv) (simp_all add: list_all_iff)

text \<open>A channel belongs to one session name for good: only a kill of that name can signal it.\<close>

definition owned :: "nat \<Rightarrow> string \<Rightarrow> affinity \<Rightarrow> bool" where
  "owned c sid a \<longleftrightarrow> c < af_next_channel a \<and> c \<notin> set (af_killed a) \<and>
     (\<forall>p \<in> set (af_sessions a). se_channel (snd p) = c \<longrightarrow> fst p = sid)"

fun kills :: "string \<Rightarrow> sess_event \<Rightarrow> bool" where
  "kills sid (SeKill _ s) = (s = sid)"
| "kills sid _ = False"

lemma owned_subset:
  "owned c sid a \<Longrightarrow> set (af_sessions b) \<subseteq> set (af_sessions a) \<Longrightarrow>
   af_next_channel b = af_next_channel a \<Longrightarrow> af_killed b = af_killed a \<Longrightarrow> owned c sid b"
  by (auto simp: owned_def)

lemma owned_prune: "owned c sid a \<Longrightarrow> owned c sid (aff_prune now ttl a)"
  by (rule owned_subset [of c sid a]) (simp_all add: prune_subset)

lemma owned_put:
  assumes "owned c sid a" "bt_get (af_sessions a) s = Some r" "se_channel r' = se_channel r"
  shows "owned c sid (a\<lparr>af_sessions := bt_put s r' (af_sessions a)\<rparr>)"
proof -
  have "(s, r) \<in> set (af_sessions a)" using assms(2) by (rule bt_get_in)
  then show ?thesis
    using assms bt_set_put [of s r' "af_sessions a"] by (fastforce simp: owned_def)
qed

lemma owned_step: "owned c sid a \<Longrightarrow> \<not> kills sid e \<Longrightarrow> owned c sid (sess_step ttl mx a e)"
proof (cases e)
  case (SeCreate now s)
  assume o: "owned c sid a"
  show ?thesis
    using owned_prune [OF o, of now ttl]
      bt_set_put [of s "\<lparr>se_model = None, se_last_used = now, se_channel = af_next_channel a\<rparr>"
        "af_sessions (aff_prune now ttl a)"]
    unfolding SeCreate by (fastforce simp: create_session_def aff_create_def owned_def Let_def)
next
  case (SeTouch now s)
  assume o: "owned c sid a"
  show ?thesis
    using owned_prune [OF o, of now ttl] owned_put [of c sid "aff_prune now ttl a" s]
    unfolding SeTouch by (auto simp: handler_state aff_touch_def Let_def split: option.splits)
next
  case (SeBind now s model)
  assume o: "owned c sid a"
  show ?thesis
    using o owned_put [of c sid a s] unfolding SeBind by (auto simp: aff_bind_def split: option.splits)
next
  case (SeDelete now s)
  assume o: "owned c sid a"
  show ?thesis
    using owned_prune [OF o, of now ttl] unfolding SeDelete
    by (auto simp: handler_state aff_remove_def bt_del_def owned_def)
next
  case (SeKill now s)
  assume o: "owned c sid a" and n: "\<not> kills sid e"
  show ?thesis
    using owned_prune [OF o, of now ttl] n unfolding SeKill
    by (auto simp: handler_state aff_kill_def bt_del_def owned_def split: option.splits dest!: bt_get_in)
qed

lemma owned_run: "owned c sid a \<Longrightarrow> list_all (\<lambda>e. \<not> kills sid e) es \<Longrightarrow> owned c sid (sess_run ttl mx a es)"
  unfolding sess_run_def by (induction es arbitrary: a) (auto intro: owned_step)

lemma killed_grows: "set (af_killed a) \<subseteq> set (af_killed (sess_step ttl mx a e))"
  by (cases e) (auto simp: handler_state create_session_def aff_create_def aff_touch_def aff_bind_def
      aff_remove_def aff_kill_def Let_def split: option.splits)

lemma killed_run: "set (af_killed a) \<subseteq> set (af_killed (sess_run ttl mx a es))"
  unfolding sess_run_def
proof (induction es arbitrary: a)
  case (Cons e es)
  show ?case using killed_grows [of a ttl mx e] Cons [of "sess_step ttl mx a e"] by auto
qed simp

lemma register_state:
  assumes "guard_register now ttl (Some sid) a = (Inr (Some c), a')"
  obtains r where "bt_get (af_sessions a') sid = Some r" "se_channel r = c" "se_last_used r = now"
    "a' = snd (aff_touch now sid ttl a)"
  using assms by (auto simp: guard_register_def aff_touch_def aff_cancellation_def Let_def
      split: option.splits prod.splits bool.splits)

section \<open>Properties\<close>

text \<open>
  Sessions are bounded. Over any run of creations, uses, bindings, deletions and kills the number
  of live handles never exceeds the configured maximum, ids stay unique, and no two live sessions
  share a cancellation channel.
\<close>

theorem sessions_bounded:
  fixes es :: "sess_event list"
  shows "aff_len (sess_run ttl mx aff_new es) \<le> mx \<and>
    distinct (map fst (af_sessions (sess_run ttl mx aff_new es))) \<and>
    inj_on (\<lambda>p. se_channel (snd p)) (set (af_sessions (sess_run ttl mx aff_new es)))"
  using sess_run_inv [OF sess_inv_new, of mx ttl es] by (simp add: sess_inv_def bt_wf_distinct)

text \<open>
  a kill reaches exactly the work of its session. A guard that registered on a session is told
  to stop, before any result of its work is looked at, in every state after a kill of that session;
  without such a kill (whatever is deleted, expires or is created again under the same name) it
  only ever returns the result of its work. A kill within the idle lifetime does succeed.
\<close>

theorem kill_reaches_exactly_its_session:
  assumes "sess_inv mx a" and reg: "guard_register now ttl (Some sid) a = (Inr (Some c), a')"
  shows "(list_all (\<lambda>e. \<not> kills sid e) es \<longrightarrow>
      guard_poll (Some c) work (sess_run ttl mx a' es) = work) \<and>
    (later - now < ttl \<longrightarrow> fst (kill_session later ttl sid a') = Inr () \<and>
      guard_poll (Some c) work (sess_run ttl mx (snd (kill_session later ttl sid a')) es) =
        Some (Inl SessionKilled)) \<and>
    (ttl \<le> later - now \<longrightarrow> fst (guard_register later ttl (Some sid) a') = Inl SessionNotFound)"
proof -
  obtain r where r: "bt_get (af_sessions a') sid = Some r" "se_channel r = c" "se_last_used r = now"
    "a' = snd (aff_touch now sid ttl a)"
    by (rule register_state [OF reg])
  have inv: "sess_inv mx a'" unfolding r(4) by (rule touch_inv [OF assms(1)])
  have wf: "bt_wf (af_sessions a')" using inv by (simp add: sess_inv_def)
  have mem: "(sid, r) \<in> set (af_sessions a')" using r(1) by (rule bt_get_in)
  have "fst p = sid" if "p \<in> set (af_sessions a')" "se_channel (snd p) = c" for p
  proof -
    have "p = (sid, r)" using channel_unique [OF inv that(1) mem] that(2) r(2) by simp
    then show ?thesis by simp
  qed
  moreover have "c < af_next_channel a' \<and> c \<notin> set (af_killed a')"
    using inv mem r(2) unfolding sess_inv_def by (metis snd_conv)
  ultimately have owned: "owned c sid a'" by (simp add: owned_def)
  have pruned: "bt_get (af_sessions (aff_prune later ttl a')) sid =
      (if later - now < ttl then Some r else None)"
    using r wf by (simp add: aff_prune_def bt_get_retain)
  have "guard_poll (Some c) work (sess_run ttl mx a' es) = work" if "list_all (\<lambda>e. \<not> kills sid e) es"
    using owned_run [OF owned that] by (simp add: guard_poll_def owned_def)
  moreover have "fst (kill_session later ttl sid a') = Inr () \<and>
      c \<in> set (af_killed (snd (kill_session later ttl sid a')))" if "later - now < ttl"
    using pruned that r(2) by (simp add: kill_session_def aff_kill_def)
  moreover have "fst (guard_register later ttl (Some sid) a') = Inl SessionNotFound" if "ttl \<le> later - now"
    using pruned that by (simp add: guard_register_def aff_touch_def Let_def)
  ultimately show ?thesis
    using killed_run [of "snd (kill_session later ttl sid a')" ttl mx es] by (auto simp: guard_poll_def)
qed

theorem kill_reaches_exactly_its_session_witness:
  "guard_poll (Some 0) (None :: (session_error + nat) option)
     (sess_run 10 4 (snd (kill_session 7 10 ''s'' (aff_create 2 ''s'' aff_new\<lparr>af_sessions :=
        [(''s'', \<lparr>se_model = None, se_last_used = 5, se_channel = 0\<rparr>)], af_next_channel := 1\<rparr>))) []) =
   Some (Inl SessionKilled)"
proof -
  let ?a = "aff_create 2 ''s'' aff_new"
  let ?b = "?a\<lparr>af_sessions := [(''s'', \<lparr>se_model = None, se_last_used = 5, se_channel = 0\<rparr>)], af_next_channel := 1\<rparr>"
  have inv: "sess_inv 4 ?a" by (rule create_inv [OF sess_inv_new]) (simp add: aff_len_def aff_new_def)
  have reg: "guard_register 5 10 (Some ''s'') ?a = (Inr (Some 0), ?b)"
    by (simp add: guard_register_def aff_touch_def aff_prune_def aff_create_def aff_new_def
        aff_cancellation_def bt_retain_def Let_def)
  show ?thesis
    using kill_reaches_exactly_its_session 
      [OF inv reg, of "[]" "None :: (session_error + nat) option" 7] by simp
qed

end
