(* ===== verification/Routing.thy ===== *)
theory Routing
  imports Capability Sessions
begin

text \<open>
  The router (\<open>platform/routing.rs\<close>): which installed model serves a request, with which options,
  on what evidence. It is pure; the model follows it function by function. The maps of a catalog
  entry are partial functions on their finite key types, error messages are constructors that carry
  what the message interpolates.
\<close>

section \<open>Requests and the catalog\<close>

datatype execution_preference = PreferAuto | PreferCpu | PreferGpu
datatype placement_evidence = Configured | Observed

record route_input =
  ri_task :: task_kind
  ri_objective :: objective
  ri_model :: "string option"
  ri_session_id :: "string option"
  ri_required :: "capability set"
  ri_context_tokens :: "nat option"
  ri_preference :: execution_preference
  ri_min_placement :: placement_evidence
  ri_min_confidence :: "string option"

definition route_input_default :: route_input where
  "route_input_default = \<lparr>ri_task = TCompletion, ri_objective = Balanced, ri_model = None,
     ri_session_id = None, ri_required = {}, ri_context_tokens = None, ri_preference = PreferAuto,
     ri_min_placement = Configured, ri_min_confidence = None\<rparr>"

record request_defaults =
  rd_think :: "bool option"
  rd_num_predict :: "nat option"

definition request_defaults_default :: request_defaults where
  "request_defaults_default = \<lparr>rd_think = None, rd_num_predict = None\<rparr>"

record catalog_model =
  cm_name :: string
  cm_digest :: "string option"
  cm_size :: nat
  cm_capabilities :: "capability set"
  cm_advertised_context :: "nat option"
  cm_kv_bytes_per_token :: "nat option"
  cm_modelfile_num_ctx :: "nat option"
  cm_architecture :: "string option"
  cm_resident :: bool
  cm_resident_size :: "nat option"
  cm_resident_vram :: "nat option"
  cm_resident_context :: "nat option"
  cm_benchmark :: "capability \<rightharpoonup> f64"
  cm_observed_loops :: "task_kind \<rightharpoonup> loop_record"
  cm_policy_rank :: "task_kind \<rightharpoonup> nat"
  cm_policy_options :: "task_kind \<rightharpoonup> request_defaults"

datatype route_error =
    AmbiguousModel string "string list"
  | ModelNotInstalled string "string list"
  | ModelNotEligible string
  | NoEligibleModel
  | NoQualityQualified
  | UnknownMinConfidence string
  | BelowMinConfidence string string string string

section \<open>Requirements and evidence\<close>

fun ranking_capability :: "task_kind \<Rightarrow> capability" where
  "ranking_capability TTools = CTools"
| "ranking_capability TBrowser = CTools"
| "ranking_capability TVision = CVision"
| "ranking_capability TEmbedding = CEmbedding"
| "ranking_capability _ = CCompletion"

definition requirements :: "route_input \<Rightarrow> capability set" where
  "requirements input =
     (let required = insert (ranking_capability (ri_task input)) (ri_required input)
      in if ri_task input = TTools \<or> ri_task input = TBrowser \<or> ri_task input = TCodeRepair
         then insert CTools (insert CCompletion required) else required)"

definition general_fallback_fit :: "catalog_model \<Rightarrow> task_kind \<Rightarrow> bool" where
  "general_fallback_fit model task \<longleftrightarrow>
     cm_policy_rank model task \<noteq> None \<or>
     \<not> (case cm_observed_loops model task of None \<Rightarrow> False | Some r \<Rightarrow> keeps_looping r)"

definition confidence_rank :: "string \<Rightarrow> nat option" where
  "confidence_rank grade =
     (if grade = ''low'' then Some 1 else if grade = ''medium'' then Some 2 else None)"

record route_evidence =
  ev_quality :: string
  ev_task :: string
  ev_context_window_fit :: string
  ev_hardware_fit :: string
  ev_confidence :: string
  ev_evidence :: string

definition route_evidence :: "bool \<Rightarrow> bool \<Rightarrow> bool option \<Rightarrow> route_evidence" where
  "route_evidence policy_qualified has_benchmark fits = \<lparr>
     ev_quality = (if policy_qualified then ''strong'' else ''none''),
     ev_task = (if has_benchmark then ''strong'' else ''none''),
     ev_context_window_fit = (case fits of
         Some True \<Rightarrow> ''fits_advertised_window''
       | Some False \<Rightarrow> ''insufficient_context''
       | None \<Rightarrow> ''unknown''),
     ev_hardware_fit = (case fits of
         Some True \<Rightarrow> ''context_window_only''
       | Some False \<Rightarrow> ''insufficient_context''
       | None \<Rightarrow> ''unknown''),
     ev_confidence = (if policy_qualified \<and> has_benchmark then ''medium'' else ''low''),
     ev_evidence = (if policy_qualified then ''configured_task_policy''
                    else if has_benchmark then ''functional_throughput_screen''
                    else ''capability_metadata_only'')\<rparr>"

definition enforce_min_confidence ::
  "route_input \<Rightarrow> string \<Rightarrow> string \<Rightarrow> string \<Rightarrow> route_error + unit" where
  "enforce_min_confidence input confidence evidence would_select =
     (case ri_min_confidence input of
        None \<Rightarrow> Inr ()
      | Some minimum \<Rightarrow>
          (case confidence_rank minimum of
             None \<Rightarrow> Inl (UnknownMinConfidence minimum)
           | Some required \<Rightarrow>
               ensure (required \<le> (case confidence_rank confidence of None \<Rightarrow> 0 | Some r \<Rightarrow> r))
                 (BelowMinConfidence confidence evidence minimum would_select)))"

section \<open>Names\<close>

text \<open>\<open>split_once(':')\<close>.\<close>

fun split_colon :: "string \<Rightarrow> (string \<times> string) option" where
  "split_colon [] = None"
| "split_colon (c # cs) =
     (if c = CHR '':'' then Some ([], cs)
      else map_option (\<lambda>(a, b). (c # a, b)) (split_colon cs))"

definition family_of :: "string \<Rightarrow> catalog_model \<Rightarrow> bool" where
  "family_of requested model \<longleftrightarrow>
     (case split_colon (cm_name model) of None \<Rightarrow> False | Some (name, _) \<Rightarrow> name = requested)"

definition installed_model :: "catalog_model list \<Rightarrow> string \<Rightarrow> route_error + catalog_model" where
  "installed_model models requested =
     (let missing = Inl (ModelNotInstalled requested (map cm_name models))
      in case find (\<lambda>m. cm_name m = requested) models of
           Some exact \<Rightarrow> Inr exact
         | None \<Rightarrow>
             if CHR '':'' \<notin> set requested
             then (case find (\<lambda>m. cm_name m = requested @ '':latest'') models of
                     Some model \<Rightarrow> Inr model
                   | None \<Rightarrow>
                       (case filter (family_of requested) models of
                          [only] \<Rightarrow> Inr only
                        | [] \<Rightarrow> missing
                        | family \<Rightarrow> Inl (AmbiguousModel requested (map cm_name family))))
             else missing)"

section \<open>Ranking\<close>

definition policy_preference :: "catalog_model \<Rightarrow> catalog_model \<Rightarrow> task_kind \<Rightarrow> ordering" where
  "policy_preference left right task =
     (let rank = (\<lambda>m. case cm_policy_rank m task of None \<Rightarrow> usize_max | Some r \<Rightarrow> r)
      in cmp (rank right) (rank left))"

definition score_or_zero :: "catalog_model \<Rightarrow> capability \<Rightarrow> f64" where
  "score_or_zero m c = (case cm_benchmark m c of None \<Rightarrow> f_zero | Some x \<Rightarrow> x)"

definition compare_candidates :: "route_input \<Rightarrow> catalog_model \<Rightarrow> catalog_model \<Rightarrow> ordering" where
  "compare_candidates input left right =
     (let capability = ranking_capability (ri_task input);
          fit = cmp (general_fallback_fit left (ri_task input)) (general_fallback_fit right (ri_task input));
          score = f_total_cmp (score_or_zero left capability) (score_or_zero right capability);
          name = cmp (cm_name right) (cm_name left)
      in case ri_objective input of
           Fastest \<Rightarrow>
             then_with (then_with (then_with fit score) (cmp (cm_size right) (cm_size left))) name
         | Balanced \<Rightarrow>
             then_with (then_with (then_with (then_with (then_with fit
               (cmp (cm_benchmark left capability \<noteq> None) (cm_benchmark right capability \<noteq> None)))
               (cmp (cm_resident left) (cm_resident right)))
               score)
               (policy_preference left right (ri_task input)))
               name
         | Quality \<Rightarrow> then_with (policy_preference left right (ri_task input)) name)"

definition eligible_for_objective ::
  "route_input \<Rightarrow> catalog_model list \<Rightarrow> route_error + catalog_model list" where
  "eligible_for_objective input capable =
     (if ri_model input \<noteq> None \<or> ri_objective input = Fastest then Inr capable
      else (let qualified = filter (\<lambda>m. cm_policy_rank m (ri_task input) \<noteq> None) capable
            in if qualified = [] \<and> ri_objective input = Balanced then Inr capable
               else if qualified = [] then Inl NoQualityQualified
               else Inr qualified))"

section \<open>Request options\<close>

definition requested_context :: "route_input \<Rightarrow> nat" where
  "requested_context input =
     (case ri_context_tokens input of
        Some n \<Rightarrow> n
      | None \<Rightarrow> (case ri_task input of
            TBrowser \<Rightarrow> 8192 | TTools \<Rightarrow> 8192 | TCodeRepair \<Rightarrow> 8192
          | TLongContext \<Rightarrow> 32768
          | TEmbedding \<Rightarrow> 2048
          | _ \<Rightarrow> 16384))"

definition thinking_or_off :: "catalog_model \<Rightarrow> json \<Rightarrow> json" where
  "thinking_or_off model effort =
     (if CThinking \<in> cm_capabilities model then effort else JBool False)"

record task_profile =
  tp_name :: string
  tp_options :: json
  tp_think :: json
  tp_strict :: bool
  tp_policy_options :: bool
  tp_policy_think_dropped :: bool

definition profile_defaults :: "task_kind \<Rightarrow> catalog_model \<Rightarrow> string \<times> nat \<times> json \<times> bool" where
  "profile_defaults task model =
     (case task of
        TBrowser \<Rightarrow> (''browser_action'', 64, JBool False, True)
      | TTools \<Rightarrow> (''tools'', 256, JBool False, True)
      | TCodeRepair \<Rightarrow> (''code_repair'', 2048, thinking_or_off model (JStr ''medium''), True)
      | TCoding \<Rightarrow> (''coding'', 2048, thinking_or_off model (JStr ''medium''), False)
      | TLongContext \<Rightarrow> (''long_context'', 2048, thinking_or_off model (JStr ''medium''), False)
      | TVision \<Rightarrow> (''vision'', 512, JBool False, False)
      | TEmbedding \<Rightarrow> (''embedding'', 0, JNull, False)
      | TCompletion \<Rightarrow> (''completion'', 512, JBool False, False))"

definition profile_num_ctx :: "route_input \<Rightarrow> catalog_model \<Rightarrow> nat" where
  "profile_num_ctx input model =
     min (min (requested_context input)
              (case cm_advertised_context model of None \<Rightarrow> requested_context input | Some n \<Rightarrow> n))
         u32_max"

definition profile :: "route_input \<Rightarrow> catalog_model \<Rightarrow> task_profile" where
  "profile input model =
     (let policy = cm_policy_options model (ri_task input);
          (name, predict, think, strict) = profile_defaults (ri_task input) model;
          predict' = (case Option.bind policy rd_num_predict of None \<Rightarrow> predict | Some n \<Rightarrow> n);
          policy_think = Option.bind policy rd_think;
          think' = (case policy_think of
                      Some True \<Rightarrow> thinking_or_off model (JBool True)
                    | Some False \<Rightarrow> JBool False
                    | None \<Rightarrow> think);
          options = JObj [(''num_ctx'', jnat (profile_num_ctx input model))]
      in \<lparr>tp_name = name,
          tp_options = (if 0 < predict' then jset ''num_predict'' (jnat predict') options else options),
          tp_think = think',
          tp_strict = strict,
          tp_policy_options =
            (case policy of None \<Rightarrow> False | Some entry \<Rightarrow> entry \<noteq> request_defaults_default),
          tp_policy_think_dropped =
            (policy_think = Some True \<and> CThinking \<notin> cm_capabilities model)\<rparr>)"

section \<open>The decision\<close>

definition push_selection_reasons ::
  "route_input \<Rightarrow> catalog_model \<Rightarrow> affinity \<Rightarrow> bool \<Rightarrow> bool \<Rightarrow> string list \<Rightarrow> string list" where
  "push_selection_reasons input chosen sessions policy_qualified has_benchmark reasons =
     (if ri_model input \<noteq> None then reasons @ [''explicit_model'']
      else if Option.bind (ri_session_id input) (\<lambda>s. aff_assigned s sessions) = Some (cm_name chosen)
      then reasons @ [''session_affinity'']
      else reasons @ (if cm_resident chosen then [''resident''] else []) @
             [if policy_qualified then ''configured_task_policy''
              else if has_benchmark then ''functional_screen_rank''
              else ''capability_only_fallback''])"

definition sent_window_fit ::
  "route_input \<Rightarrow> catalog_model \<Rightarrow> json \<Rightarrow> string list \<Rightarrow> bool option \<times> string list" where
  "sent_window_fit input chosen options reasons =
     (let sent = Option.bind (jget options ''num_ctx'') as_u64;
          clamped = (case sent of None \<Rightarrow> False | Some n \<Rightarrow> n < requested_context input)
      in (map_option (\<lambda>window. case sent of None \<Rightarrow> False | Some n \<Rightarrow> n \<le> window)
            (cm_advertised_context chosen),
          if clamped then reasons @ [''context_clamped_to_advertised''] else reasons))"

record rejected =
  rj_model :: string
  rj_reason :: string
  rj_resident :: bool

definition rejected_candidates ::
  "catalog_model list \<Rightarrow> string \<Rightarrow> task_kind \<Rightarrow> capability \<Rightarrow> rejected list" where
  "rejected_candidates eligible chosen task capability =
     map (\<lambda>m. \<lparr>rj_model = cm_name m,
                rj_reason = (if cm_policy_rank m task \<noteq> None then ''policy_qualified_but_ranked_lower''
                             else if cm_benchmark m capability \<noteq> None
                             then ''benchmarked_but_not_policy_qualified''
                             else ''capability_metadata_only''),
                rj_resident = cm_resident m\<rparr>)
       (filter (\<lambda>m. cm_name m \<noteq> chosen) eligible)"

record route_decision =
  dc_selected_model :: string
  dc_task :: task_kind
  dc_objective :: objective
  dc_profile :: string
  dc_required :: "capability set"
  dc_options :: json
  dc_think :: json
  dc_strict :: bool
  dc_resident :: bool
  dc_session_id :: "string option"
  dc_evidence :: route_evidence
  dc_rejected :: "rejected list"
  dc_reasons :: "string list"

text \<open>The models that satisfy the request's capabilities and context.\<close>

definition capable :: "route_input \<Rightarrow> catalog_model \<Rightarrow> bool" where
  "capable input m \<longleftrightarrow>
     requirements input \<subseteq> cm_capabilities m \<and>
     (case ri_context_tokens input of
        None \<Rightarrow> True
      | Some requested \<Rightarrow>
          (case cm_advertised_context m of None \<Rightarrow> False | Some available \<Rightarrow> requested \<le> available))"

definition affine_model ::
  "route_input \<Rightarrow> catalog_model list \<Rightarrow> affinity \<Rightarrow> catalog_model option" where
  "affine_model input eligible sessions =
     (case Option.bind (Option.bind (ri_session_id input) (\<lambda>s. aff_assigned s sessions))
             (\<lambda>name. find (\<lambda>m. cm_name m = name) eligible) of
        Some m \<Rightarrow> if general_fallback_fit m (ri_task input) then Some m else None
      | None \<Rightarrow> None)"

definition choose_model ::
  "route_input \<Rightarrow> catalog_model list \<Rightarrow> catalog_model list \<Rightarrow> affinity \<Rightarrow> route_error + catalog_model" where
  "choose_model input models eligible sessions =
     (case ri_model input of
        Some requested \<Rightarrow>
          and_then (installed_model models requested) (\<lambda>m.
            and_then (ensure (\<exists>c \<in> set eligible. cm_name c = cm_name m) (ModelNotEligible (cm_name m)))
              (\<lambda>_. Inr m))
      | None \<Rightarrow>
          (case affine_model input eligible sessions of
             Some m \<Rightarrow> Inr m
           | None \<Rightarrow>
               (case max_by (compare_candidates input) eligible of
                  Some m \<Rightarrow> Inr m
                | None \<Rightarrow> Inl NoEligibleModel)))"

definition decide :: "route_input \<Rightarrow> catalog_model list \<Rightarrow> catalog_model \<Rightarrow> affinity \<Rightarrow> route_error + route_decision"
  where
  "decide input eligible chosen sessions =
     (let p = profile input chosen;
          capability = ranking_capability (ri_task input);
          has_benchmark = cm_benchmark chosen capability \<noteq> None;
          policy_qualified = cm_policy_rank chosen (ri_task input) \<noteq> None;
          reasons = [''installed'', ''capabilities_satisfied'']
            @ (if ri_model input = None \<and> \<not> general_fallback_fit chosen (ri_task input)
               then [''repeats_on_this_task_last_resort''] else [])
            @ (if tp_policy_options p then [''policy_model_options''] else [])
            @ (if tp_policy_think_dropped p
               then [''policy_think_ignored_without_thinking_capability''] else [])
            @ (if ri_model input = None \<and> ri_objective input = Balanced \<and> \<not> policy_qualified
               then [''balanced_without_quality_policy''] else []);
          (fits, reasons') = sent_window_fit input chosen (tp_options p)
            (push_selection_reasons input chosen sessions policy_qualified has_benchmark reasons);
          graded = route_evidence policy_qualified has_benchmark fits
      in and_then (enforce_min_confidence input (ev_confidence graded) (ev_evidence graded) (cm_name chosen))
           (\<lambda>_. Inr \<lparr>dc_selected_model = cm_name chosen, dc_task = ri_task input,
                     dc_objective = ri_objective input, dc_profile = tp_name p,
                     dc_required = requirements input, dc_options = tp_options p,
                     dc_think = tp_think p, dc_strict = tp_strict p, dc_resident = cm_resident chosen,
                     dc_session_id = ri_session_id input, dc_evidence = graded,
                     dc_rejected = rejected_candidates eligible (cm_name chosen) (ri_task input) capability,
                     dc_reasons = reasons'\<rparr>))"

definition select_route ::
  "route_input \<Rightarrow> catalog_model list \<Rightarrow> affinity \<Rightarrow> route_error + route_decision" where
  "select_route input models sessions =
     and_then (eligible_for_objective input (filter (capable input) models)) (\<lambda>eligible.
       and_then (choose_model input models eligible sessions) (\<lambda>chosen.
         decide input eligible chosen sessions))"

end
