(* ===== verification/Routing_Correct.thy ===== *)
theory Routing_Correct
  imports Routing
begin

text \<open>
  What the router guarantees: the ranking is a total preorder, so the winner is a greatest eligible
  candidate; the selected model satisfies the request; a route exists whenever an eligible model
  does; names denote at most one model; the confidence floor fails closed.
\<close>

section \<open>The ranking is a total preorder\<close>

lemma total_cmpI:
  "(\<And>a b. c a b = Greater \<longleftrightarrow> c b a = Less) \<Longrightarrow>
   (\<And>a b d. c a b \<noteq> Greater \<Longrightarrow> c b d \<noteq> Greater \<Longrightarrow> c a d \<noteq> Greater) \<Longrightarrow> total_cmp c"
  unfolding total_cmp_def by blast

lemma total_cmp_key: "total_cmp (\<lambda>a b. cmp (f a) (f b))"
  by (rule total_cmpI) auto

lemma total_cmp_key_rev: "total_cmp (\<lambda>a b. cmp (f b) (f a))"
  by (rule total_cmpI) auto

lemma total_cmp_float: "total_cmp (\<lambda>a b. f_total_cmp (f a) (f b))"
  by (rule total_cmpI) auto

lemma total_cmp_less_trans:
  assumes "total_cmp c" "c a b = Less" "c b d \<noteq> Greater"
  shows "c a d = Less"
proof (rule ccontr)
  assume "c a d \<noteq> Less"
  then have "c d a \<noteq> Greater" using total_cmpD(1) [OF assms(1), of d a] by simp
  then have "c b a \<noteq> Greater" using total_cmpD(2) [OF assms(1) assms(3)] by blast
  then show False using total_cmpD(1) [OF assms(1), of b a] assms(2) by simp
qed

lemma total_cmp_less_trans2:
  assumes "total_cmp c" "c a b \<noteq> Greater" "c b d = Less"
  shows "c a d = Less"
proof (rule ccontr)
  assume "c a d \<noteq> Less"
  then have "c d a \<noteq> Greater" using total_cmpD(1) [OF assms(1), of d a] by simp
  then have "c d b \<noteq> Greater" using total_cmpD(2) [OF assms(1) _ assms(2)] by blast
  then show False using total_cmpD(1) [OF assms(1), of d b] assms(3) by simp
qed

lemma total_cmp_equal_trans:
  assumes "total_cmp c" "c a b = Equal" "c b d = Equal"
  shows "c a d = Equal"
proof -
  have "c a d \<noteq> Greater" using total_cmpD(2) [OF assms(1), of a b d] assms by simp
  moreover have "c b a \<noteq> Greater" "c d b \<noteq> Greater"
    using total_cmpD(1) [OF assms(1)] assms(2,3) by simp_all
  then have "c d a \<noteq> Greater" using total_cmpD(2) [OF assms(1)] by blast
  then have "c a d \<noteq> Less" using total_cmpD(1) [OF assms(1), of d a] by simp
  ultimately show ?thesis by (cases "c a d") auto
qed

lemma total_cmp_then:
  assumes c: "total_cmp c" and d: "total_cmp d"
  shows "total_cmp (\<lambda>a b. then_with (c a b) (d a b))"
proof (rule total_cmpI)
  fix a b
  have "c a b = Equal \<longleftrightarrow> c b a = Equal"
    using total_cmpD(1) [OF c, of a b] total_cmpD(1) [OF c, of b a]
    by (cases "c a b"; cases "c b a") simp_all
  then show "then_with (c a b) (d a b) = Greater \<longleftrightarrow> then_with (c b a) (d b a) = Less"
    using total_cmpD(1) [OF c, of a b] total_cmpD(1) [OF d, of a b]
    by (cases "c a b"; cases "c b a") simp_all
next
  fix x y z
  assume le: "then_with (c x y) (d x y) \<noteq> Greater" "then_with (c y z) (d y z) \<noteq> Greater"
  have xy: "c x y = Less \<or> (c x y = Equal \<and> d x y \<noteq> Greater)" using le(1) by (cases "c x y") auto
  have yz: "c y z = Less \<or> (c y z = Equal \<and> d y z \<noteq> Greater)" using le(2) by (cases "c y z") auto
  show "then_with (c x z) (d x z) \<noteq> Greater"
  proof (cases "c x y = Less \<or> c y z = Less")
    case True
    then have "c x z = Less"
      using total_cmp_less_trans [OF c, of x y z] total_cmp_less_trans2 [OF c, of x y z] xy yz by auto
    then show ?thesis by simp
  next
    case False
    then have "c x z = Equal" "d x z \<noteq> Greater"
      using total_cmp_equal_trans [OF c, of x y z] total_cmpD(2) [OF d, of x y z] xy yz by auto
    then show ?thesis by simp
  qed
qed

lemma compare_total: "total_cmp (compare_candidates input)"
proof (cases "ri_objective input")
  case Fastest
  then show ?thesis unfolding compare_candidates_def Let_def
    by (simp, intro total_cmp_then total_cmp_key total_cmp_key_rev total_cmp_float)
next
  case Balanced
  then show ?thesis unfolding compare_candidates_def Let_def policy_preference_def
    by (simp, intro total_cmp_then total_cmp_key total_cmp_key_rev total_cmp_float)
next
  case Quality
  then show ?thesis unfolding compare_candidates_def Let_def policy_preference_def
    by (simp, intro total_cmp_then total_cmp_key total_cmp_key_rev)
qed

section \<open>Steps of the decision\<close>

lemma eligible_subset:
  "eligible_for_objective input cs = Inr es \<Longrightarrow> set es \<subseteq> set cs"
  by (auto simp: eligible_for_objective_def Let_def split: if_splits)

lemma eligible_nonempty:
  assumes "ri_model input = None"
  shows "(\<exists>es. eligible_for_objective input cs = Inr es \<and> es \<noteq> []) \<longleftrightarrow>
    (\<exists>m \<in> set cs. ri_objective input = Quality \<longrightarrow> cm_policy_rank m (ri_task input) \<noteq> None)"
proof -
  let ?q = "filter (\<lambda>m. cm_policy_rank m (ri_task input) \<noteq> None) cs"
  have q: "?q = [] \<longleftrightarrow> (\<forall>m \<in> set cs. cm_policy_rank m (ri_task input) = None)"
    by (simp add: filter_empty_conv)
  have cs: "cs \<noteq> [] \<longleftrightarrow> (\<exists>m. m \<in> set cs)" by (cases cs) auto
  show ?thesis
  proof (cases "ri_objective input")
    case Fastest
    then show ?thesis using cs by (simp add: eligible_for_objective_def)
  next
    case Balanced
    then have "(\<exists>es. eligible_for_objective input cs = Inr es \<and> es \<noteq> []) \<longleftrightarrow> cs \<noteq> []"
      using assms q unfolding eligible_for_objective_def Let_def by (cases "?q = []") auto
    then show ?thesis using Balanced cs by simp
  next
    case Quality
    then have "(\<exists>es. eligible_for_objective input cs = Inr es \<and> es \<noteq> []) \<longleftrightarrow> ?q \<noteq> []"
      using assms unfolding eligible_for_objective_def Let_def by (cases "?q = []") auto
    then show ?thesis using Quality q by auto
  qed
qed

lemma find_in: "find P xs = Some x \<Longrightarrow> x \<in> set xs \<and> P x"
  by (induction xs) (auto split: if_splits)

lemma affine_in: "affine_model input es a = Some m \<Longrightarrow> m \<in> set es"
  by (auto simp: affine_model_def split: option.splits if_splits Option.bind_splits dest!: find_in)

lemma installed_in:
  "installed_model models r = Inr m \<Longrightarrow> m \<in> set models"
  by (fastforce simp: installed_model_def Let_def split: option.splits if_splits list.splits
      dest: find_in dest!: arg_cong [where f = set and x = "filter _ _"])

lemma chosen_in:
  assumes "choose_model input models es a = Inr m"
  shows "(ri_model input = None \<longrightarrow> m \<in> set es) \<and>
    (\<forall>r. ri_model input = Some r \<longrightarrow> installed_model models r = Inr m \<and> (\<exists>c \<in> set es. cm_name c = cm_name m))"
  using assms
  by (auto simp: choose_model_def and_then_Inr split: option.splits dest: affine_in max_by_in)

lemma decide_fields:
  assumes "decide input es m a = Inr d"
  shows "dc_selected_model d = cm_name m \<and> dc_options d = tp_options (profile input m) \<and>
    dc_think d = tp_think (profile input m) \<and> dc_strict d = tp_strict (profile input m) \<and>
    ev_confidence (dc_evidence d) =
      (if cm_policy_rank m (ri_task input) \<noteq> None \<and>
          cm_benchmark m (ranking_capability (ri_task input)) \<noteq> None then ''medium'' else ''low'') \<and>
    enforce_min_confidence input (ev_confidence (dc_evidence d)) (ev_evidence (dc_evidence d)) (cm_name m) = Inr ()"
  using assms by (auto simp: decide_def Let_def and_then_Inr route_evidence_def split: prod.splits)

lemma options_num_ctx:
  "jget (tp_options (profile input m)) ''num_ctx'' = Some (jnat (profile_num_ctx input m))"
  by (auto simp: profile_def Let_def jget_jset simp del: jset.simps split: prod.splits)

lemma profile_think:
  "tp_think (profile input m) \<in> {JNull, JBool False} \<or> CThinking \<in> cm_capabilities m"
proof -
  obtain name predict think strict
    where p: "profile_defaults (ri_task input) m = (name, predict, think, strict)"
    by (metis prod_cases4)
  have "think \<in> {JNull, JBool False} \<or> CThinking \<in> cm_capabilities m"
    using p by (cases "ri_task input") (auto simp: profile_defaults_def thinking_or_off_def)
  then show ?thesis
    by (simp add: profile_def p Let_def thinking_or_off_def split: option.split bool.split)
qed

lemma num_ctx_bounds:
  "profile_num_ctx input m \<le> u32_max \<and> profile_num_ctx input m \<le> requested_context input \<and>
   (\<forall>n. cm_advertised_context m = Some n \<longrightarrow> profile_num_ctx input m \<le> n)"
  by (auto simp: profile_num_ctx_def)

lemma select_steps:
  assumes "select_route input models a = Inr d"
  obtains es m where "eligible_for_objective input (filter (capable input) models) = Inr es"
    "choose_model input models es a = Inr m" "decide input es m a = Inr d"
  using assms by (auto simp: select_route_def and_then_Inr)

lemma distinct_names:
  "distinct (map cm_name models) \<Longrightarrow> m \<in> set models \<Longrightarrow> n \<in> set models \<Longrightarrow> cm_name m = cm_name n \<Longrightarrow> m = n"
  by (auto simp: distinct_map inj_on_def)

lemma selected_capable:
  assumes "distinct (map cm_name models)"
    and es: "eligible_for_objective input (filter (capable input) models) = Inr es"
    and m: "choose_model input models es a = Inr m"
  shows "m \<in> set es \<and> m \<in> set models \<and> capable input m"
proof -
  have sub: "c \<in> set es \<Longrightarrow> c \<in> set models \<and> capable input c" for c
    using eligible_subset [OF es] by auto
  show ?thesis
  proof (cases "ri_model input")
    case None
    then show ?thesis using chosen_in [OF m] sub by simp
  next
    case (Some r)
    then obtain c where c: "c \<in> set es" "cm_name c = cm_name m" and "m \<in> set models"
      using chosen_in [OF m] installed_in by blast
    then have "c = m" using distinct_names [OF assms(1)] sub by blast
    then show ?thesis using c sub by simp
  qed
qed

section \<open>Properties\<close>


definition sample_model :: "string \<Rightarrow> capability set \<Rightarrow> catalog_model" where
  "sample_model name caps = \<lparr>cm_name = name, cm_digest = None, cm_size = 1, cm_capabilities = caps,
     cm_advertised_context = Some 4096, cm_kv_bytes_per_token = None, cm_modelfile_num_ctx = None,
     cm_architecture = None, cm_resident = False, cm_resident_size = None, cm_resident_vram = None,
     cm_resident_context = None, cm_benchmark = Map.empty, cm_observed_loops = Map.empty,
     cm_policy_rank = Map.empty, cm_policy_options = Map.empty\<rparr>"

definition sample_catalog :: "catalog_model list" where
  "sample_catalog = [sample_model ''a:1b'' {CCompletion}, sample_model ''b:1b'' {CCompletion, CVision}]"

lemmas route_eval = select_route_def eligible_for_objective_def capable_def requirements_def
  route_input_default_def choose_model_def affine_model_def compare_candidates_def max_step_def
  general_fallback_fit_def policy_preference_def score_or_zero_def decide_def profile_def
  profile_defaults_def profile_num_ctx_def requested_context_def sent_window_fit_def
  push_selection_reasons_def route_evidence_def enforce_min_confidence_def rejected_candidates_def
  sample_catalog_def sample_model_def Let_def cmp_def jnat_def u64_max_def u32_max_def

lemma sample_route: "\<exists>d. select_route route_input_default sample_catalog aff_new = Inr d"
  by (simp add: route_eval)


text \<open>
  C7: the winner is a greatest candidate. Without a named or affine model, no eligible candidate
  ranks above the selected one. So outside the quality objective a model that keeps looping on the
  task is chosen only when every eligible model does, and under the quality objective no eligible
  model has a better policy rank.
\<close>

theorem route_prefers_best:
  assumes es: "eligible_for_objective input (filter (capable input) models) = Inr es"
    and auto: "ri_model input = None" "affine_model input es sessions = None"
    and d: "select_route input models sessions = Inr d"
  shows "\<exists>m \<in> set es. cm_name m = dc_selected_model d \<and>
    (\<forall>c \<in> set es. compare_candidates input c m \<noteq> Greater) \<and>
    (ri_objective input \<noteq> Quality \<longrightarrow> \<not> general_fallback_fit m (ri_task input) \<longrightarrow>
       (\<forall>c \<in> set es. \<not> general_fallback_fit c (ri_task input))) \<and>
    (ri_objective input = Quality \<longrightarrow> (\<forall>c \<in> set es. \<forall>r. cm_policy_rank c (ri_task input) = Some r \<longrightarrow>
       r \<le> usize_max \<longrightarrow> (case cm_policy_rank m (ri_task input) of None \<Rightarrow> usize_max | Some q \<Rightarrow> q) \<le> r))"
proof -
  obtain m where m: "max_by (compare_candidates input) es = Some m" and dec: "decide input es m sessions = Inr d"
    using es auto d by (auto simp: select_route_def and_then_Inr choose_model_def split: option.splits)
  have best: "compare_candidates input c m \<noteq> Greater" if "c \<in> set es" for c
    by (rule max_by_greatest [OF compare_total m that])
  have "\<not> general_fallback_fit c (ri_task input)"
    if "c \<in> set es" "ri_objective input \<noteq> Quality" "\<not> general_fallback_fit m (ri_task input)" for c
    using best [OF that(1)] that(2,3)
    by (cases "ri_objective input") (auto simp: compare_candidates_def Let_def)
  moreover have "(case cm_policy_rank m (ri_task input) of None \<Rightarrow> usize_max | Some q \<Rightarrow> q) \<le> r"
    if "c \<in> set es" "ri_objective input = Quality" "cm_policy_rank c (ri_task input) = Some r" for c r
    using best [OF that(1)] that(2,3)
    by (auto simp: compare_candidates_def policy_preference_def Let_def not_less)
  ultimately show ?thesis
    using max_by_in [OF m] best decide_fields [OF dec] by (intro bexI [of _ m]) auto
qed

theorem route_prefers_best_witness:
  "\<exists>d. select_route route_input_default sample_catalog aff_new = Inr d \<and>
    (\<exists>m \<in> set sample_catalog. cm_name m = dc_selected_model d \<and>
       list_all (\<lambda>c. compare_candidates route_input_default c m \<noteq> Greater) sample_catalog)"
proof -
  have es: "eligible_for_objective route_input_default (filter (capable route_input_default) sample_catalog) =
    Inr sample_catalog"
    by (simp add: route_eval)
  have aff: "ri_model route_input_default = None" "affine_model route_input_default sample_catalog aff_new = None"
    by (simp_all add: route_input_default_def affine_model_def)
  obtain d where "select_route route_input_default sample_catalog aff_new = Inr d"
    using sample_route by blast
  with route_prefers_best [OF es aff this] show ?thesis unfolding list_all_iff by blast
qed

text \<open>
  a route is found whenever one exists. With no named model and no confidence floor, a fastest or
  balanced request fails exactly when no installed model is capable, and a quality request exactly
  when no capable model has a policy rank for the task.
\<close>

theorem route_exists_iff_candidate:
  assumes "ri_model input = None" "ri_min_confidence input = None"
  shows "(\<exists>d. select_route input models sessions = Inr d) \<longleftrightarrow>
    (\<exists>m \<in> set models. capable input m \<and>
       (ri_objective input = Quality \<longrightarrow> cm_policy_rank m (ri_task input) \<noteq> None))"
proof -
  have total: "\<exists>d. decide input es m sessions = Inr d" for es m
    using assms(2) by (simp add: decide_def enforce_min_confidence_def Let_def split: prod.splits)
  have pick: "(\<exists>m. choose_model input models es sessions = Inr m) \<longleftrightarrow> es \<noteq> []" for es
    using assms(1) affine_in [of input es sessions]
      max_by_None [of "compare_candidates input" es]
    unfolding choose_model_def
    by (cases "affine_model input es sessions"; cases "max_by (compare_candidates input) es") force+
  have "(\<exists>d. select_route input models sessions = Inr d) \<longleftrightarrow>
    (\<exists>es. eligible_for_objective input (filter (capable input) models) = Inr es \<and> es \<noteq> [])"
  proof
    assume "\<exists>d. select_route input models sessions = Inr d"
    then obtain d es m where "eligible_for_objective input (filter (capable input) models) = Inr es"
      "choose_model input models es sessions = Inr m"
      by (elim exE) (erule select_steps, rule that)
    then show "\<exists>es. eligible_for_objective input (filter (capable input) models) = Inr es \<and> es \<noteq> []"
      using pick [of es] by auto
  next
    assume "\<exists>es. eligible_for_objective input (filter (capable input) models) = Inr es \<and> es \<noteq> []"
    then obtain es where es: "eligible_for_objective input (filter (capable input) models) = Inr es" "es \<noteq> []"
      by blast
    obtain m where m: "choose_model input models es sessions = Inr m" using pick [of es] es(2) by blast
    obtain d where "decide input es m sessions = Inr d" using total [of es m] by blast
    then have "select_route input models sessions = Inr d" by (simp add: select_route_def es(1) m)
    then show "\<exists>d. select_route input models sessions = Inr d" ..
  qed
  also have "\<dots> \<longleftrightarrow> (\<exists>m \<in> set models. capable input m \<and>
       (ri_objective input = Quality \<longrightarrow> cm_policy_rank m (ri_task input) \<noteq> None))"
    unfolding eligible_nonempty [OF assms(1)] by auto
  finally show ?thesis .
qed

theorem route_exists_iff_candidate_witness:
  "\<exists>d. select_route route_input_default sample_catalog aff_new = Inr d"
  using route_exists_iff_candidate [of route_input_default sample_catalog aff_new]
  by (simp add: route_eval)

text \<open>
  a name denotes one installed model or none. A result of \<open>installed_model\<close> carries exactly the
  requested name, or, for a name without a tag, that name with \<open>latest\<close>, or the only installed tag of
  that family; an exact match always wins, an ambiguous family is refused, and nothing else is
  ever substituted.
\<close>

theorem name_denotes_one_model:
  fixes models :: "catalog_model list" and requested :: string
  shows "case installed_model models requested of
      Inr m \<Rightarrow> m \<in> set models \<and>
        (cm_name m = requested \<or>
         (CHR '':'' \<notin> set requested \<and> (\<forall>n \<in> set models. cm_name n \<noteq> requested) \<and>
          (cm_name m = requested @ '':latest'' \<or>
           (family_of requested m \<and> (\<forall>n \<in> set models. family_of requested n \<longrightarrow> n = m)))))
    | Inl (AmbiguousModel r names) \<Rightarrow> r = requested \<and> 2 \<le> length names \<and> CHR '':'' \<notin> set requested \<and>
        names = map cm_name (filter (family_of requested) models)
    | Inl e \<Rightarrow> e = ModelNotInstalled requested (map cm_name models) \<and>
        (\<forall>n \<in> set models. cm_name n \<noteq> requested)"
proof -
  have single: "m \<in> set models \<and> family_of requested m \<and>
      (\<forall>n \<in> set models. family_of requested n \<longrightarrow> n = m)"
    if "filter (family_of requested) models = [m]" for m
  proof -
    have "set (filter (family_of requested) models) = {m}" by (simp add: that)
    then show ?thesis by auto
  qed
  have exact: "find (\<lambda>m. cm_name m = r) models = Some m \<Longrightarrow> m \<in> set models \<and> cm_name m = r" for r m
    using find_in [of "\<lambda>m. cm_name m = r" models m] by simp
  show ?thesis
  proof (cases "find (\<lambda>m. cm_name m = requested) models")
    case (Some m)
    then show ?thesis using exact [OF Some] by (simp add: installed_model_def)
  next
    case None
    then have no: "\<forall>n \<in> set models. cm_name n \<noteq> requested" by (simp add: find_None_iff)
    show ?thesis
    proof (cases "CHR '':'' \<in> set requested")
      case True
      then show ?thesis using None no by (simp add: installed_model_def)
    next
      case False
      note base = None no False
      show ?thesis
      proof (cases "find (\<lambda>m. cm_name m = requested @ '':latest'') models")
        case (Some m)
        then show ?thesis using base exact [OF Some] by (simp add: installed_model_def)
      next
        case none: None
        show ?thesis
        proof (cases "filter (family_of requested) models" rule: remdups_adj.cases)
          case 1
          then show ?thesis using base none by (simp add: installed_model_def)
        next
          case (2 m)
          then show ?thesis using base none single [OF 2] by (simp add: installed_model_def)
        next
          case (3 m n rest)
          then show ?thesis using base none by (simp add: installed_model_def)
        qed
      qed
    qed
  qed
qed

theorem name_denotes_one_model_witness:
  "installed_model sample_catalog ''a'' = Inr (sample_model ''a:1b'' {CCompletion}) \<and>
   list_all (\<lambda>n. family_of ''a'' n = (n = sample_model ''a:1b'' {CCompletion})) sample_catalog"
proof -
  have run: "installed_model sample_catalog ''a'' = Inr (sample_model ''a:1b'' {CCompletion})"
    by (simp add: installed_model_def sample_catalog_def sample_model_def family_of_def)
  show ?thesis
    using name_denotes_one_model [where models = sample_catalog and requested = "''a''"] unfolding run
    by (auto simp: list_all_iff sample_model_def)
qed

text \<open>
  the confidence floor fails closed. A route returned under a floor is graded at least the floor;
  under \<open>medium\<close> the selected model has both a policy rank for the task and a benchmark of the
  ranking capability; a floor the router does not know never yields a route.
\<close>

theorem confidence_floor_fails_closed:
  assumes "ri_min_confidence input = Some minimum" "select_route input models sessions = Inr d"
  shows "minimum \<in> {''low'', ''medium''} \<and>
    (minimum = ''medium'' \<longrightarrow> ev_confidence (dc_evidence d) = ''medium'' \<and>
      (\<exists>m \<in> set models. cm_name m = dc_selected_model d \<and>
         cm_policy_rank m (ri_task input) \<noteq> None \<and>
         cm_benchmark m (ranking_capability (ri_task input)) \<noteq> None))"
proof -
  obtain es m where es: "eligible_for_objective input (filter (capable input) models) = Inr es"
    and m: "choose_model input models es sessions = Inr m" and d: "decide input es m sessions = Inr d"
    using assms(2) by (rule select_steps)
  note f = decide_fields [OF d]
  have mem: "m \<in> set models"
    using chosen_in [OF m] eligible_subset [OF es] installed_in by (cases "ri_model input") auto
  have floor: "confidence_rank minimum \<noteq> None"
    "the (confidence_rank minimum) \<le> (case confidence_rank (ev_confidence (dc_evidence d)) of None \<Rightarrow> 0 | Some r \<Rightarrow> r)"
    using f assms(1) by (auto simp: enforce_min_confidence_def split: option.splits)
  have known: "minimum \<in> {''low'', ''medium''}"
    using floor(1) by (auto simp: confidence_rank_def split: if_splits)
  have grade: "minimum = ''medium'' \<Longrightarrow> ev_confidence (dc_evidence d) = ''medium''"
    using floor(2) f by (auto simp: confidence_rank_def split: if_splits)
  then have "minimum = ''medium'' \<Longrightarrow> cm_policy_rank m (ri_task input) \<noteq> None \<and>
      cm_benchmark m (ranking_capability (ri_task input)) \<noteq> None"
    using f by (auto split: if_splits)
  with known grade mem f show ?thesis by auto
qed

theorem confidence_floor_fails_closed_witness:
  "\<exists>d. select_route (route_input_default\<lparr>ri_min_confidence := Some ''low''\<rparr>) sample_catalog aff_new = Inr d \<and>
    ''low'' \<in> {''low'', ''medium''}"
proof -
  have "\<exists>d. select_route (route_input_default\<lparr>ri_min_confidence := Some ''low''\<rparr>) sample_catalog aff_new = Inr d"
    by (simp add: route_eval confidence_rank_def ensure_def)
  then obtain d where "select_route (route_input_default\<lparr>ri_min_confidence := Some ''low''\<rparr>) sample_catalog aff_new = Inr d" ..
  with confidence_floor_fails_closed [OF _ this, of "''low''"] show ?thesis by auto
qed

end
