(* ===== verification/Scopes.thy ===== *)
theory Scopes
  imports Routing
begin

text \<open>
  The process-local conversation histories of \<open>platform/scopes.rs\<close>. A scope is a \<open>history\<close> under
  an id; a task that appends to it holds a \<open>scope_lease\<close> from \<open>prepare\<close> until \<open>commit\<close> or drop. The
  length of a serialised document (\<open>serde_json\<close>) is the parameter \<open>len\<close>, a new id is a parameter,
  \<open>now\<close> is the monotonic clock in nanoseconds and \<open>wall\<close> the wall clock in seconds. Every operation
  runs under the store's lock.
\<close>

section \<open>Policy and limits\<close>

record scope_policy =
  sp_max_count :: nat
  sp_max_messages :: nat
  sp_max_bytes :: nat
  sp_max_tokens :: nat
  sp_total_max_bytes :: nat
  sp_ttl_seconds :: nat

definition scope_policy_default :: scope_policy where
  "scope_policy_default = \<lparr>sp_max_count = 128, sp_max_messages = 256, sp_max_bytes = 1048576,
     sp_max_tokens = 32768, sp_total_max_bytes = 16777216, sp_ttl_seconds = 3600\<rparr>"

definition scope_policy_valid :: "scope_policy \<Rightarrow> bool" where
  "scope_policy_valid p \<longleftrightarrow> 0 < sp_max_count p \<and> 0 < sp_max_messages p \<and> 0 < sp_max_bytes p \<and>
     0 < sp_max_tokens p \<and> 0 < sp_total_max_bytes p \<and> 0 < sp_ttl_seconds p"

record limits_input =
  li_max_messages :: "nat option"
  li_max_bytes :: "nat option"
  li_max_tokens :: "nat option"
  li_ttl_seconds :: "nat option"

record limits =
  lm_max_messages :: nat
  lm_max_bytes :: nat
  lm_max_tokens :: nat
  lm_ttl_seconds :: nat

datatype scope_error =
    ScopeLimitInvalid | ScopeEmbeddingUnsupported | ScopeCapacityExceeded | ScopeNotFound
  | ScopeRevisionConflict | ScopeReferenceInvalid | ScopeBusy | ScopeMessagesInvalid
  | ScopeNeedsPrompt | ScopeResponseInvalid | ScopeHistoryLimit | ScopeResultTooLarge
  | ScopeDeadlineExceeded

fun scope_status :: "scope_error \<Rightarrow> nat" where
  "scope_status ScopeCapacityExceeded = 429"
| "scope_status ScopeNotFound = 404"
| "scope_status ScopeRevisionConflict = 409"
| "scope_status ScopeBusy = 409"
| "scope_status ScopeResponseInvalid = 502"
| "scope_status ScopeHistoryLimit = 413"
| "scope_status ScopeResultTooLarge = 413"
| "scope_status ScopeDeadlineExceeded = 504"
| "scope_status _ = 422"

definition or_default :: "'a option \<Rightarrow> 'a \<Rightarrow> 'a" where
  "or_default x d = (case x of None \<Rightarrow> d | Some v \<Rightarrow> v)"

definition limits_resolve :: "limits_input \<Rightarrow> scope_policy \<Rightarrow> scope_error + limits" where
  "limits_resolve inp p =
     (let r = \<lparr>lm_max_messages = or_default (li_max_messages inp) (sp_max_messages p),
               lm_max_bytes = or_default (li_max_bytes inp) (sp_max_bytes p),
               lm_max_tokens = or_default (li_max_tokens inp) (sp_max_tokens p),
               lm_ttl_seconds = or_default (li_ttl_seconds inp) (sp_ttl_seconds p)\<rparr>
      in if lm_max_messages r = 0 \<or> sp_max_messages p < lm_max_messages r
            \<or> lm_max_bytes r = 0 \<or> sp_max_bytes p < lm_max_bytes r
            \<or> lm_max_tokens r = 0 \<or> sp_max_tokens p < lm_max_tokens r
            \<or> lm_ttl_seconds r = 0 \<or> sp_ttl_seconds p < lm_ttl_seconds r
         then Inl ScopeLimitInvalid else Inr r)"

definition limits_bounded :: "scope_policy \<Rightarrow> limits \<Rightarrow> limits" where
  "limits_bounded p l = \<lparr>lm_max_messages = min (lm_max_messages l) (sp_max_messages p),
     lm_max_bytes = min (lm_max_bytes l) (sp_max_bytes p),
     lm_max_tokens = min (lm_max_tokens l) (sp_max_tokens p),
     lm_ttl_seconds = min (lm_ttl_seconds l) (sp_ttl_seconds p)\<rparr>"

section \<open>Route defaults\<close>

record route_defaults =
  rd_task :: "task_kind option"
  rd_objective :: "objective option"
  rd_model :: "string option"
  rd_required :: "capability set option"
  rd_context_tokens :: "nat option"
  rd_preference :: "execution_preference option"
  rd_min_placement :: "placement_evidence option"
  rd_min_confidence :: "string option"

record task_input =
  ti_route :: route_input
  ti_route_fields :: "string set"
  ti_scope_id :: "string option"
  ti_scope_revision :: "nat option"
  ti_messages :: "json list"
  ti_prompt :: "string option"
  ti_images :: "string list option"
  ti_input :: "json option"
  ti_deferred :: bool

definition defaulted :: "string set \<Rightarrow> string \<Rightarrow> 'a option \<Rightarrow> 'a \<Rightarrow> 'a" where
  "defaulted sent key dflt current =
     (case dflt of None \<Rightarrow> current | Some v \<Rightarrow> if key \<in> sent then current else v)"

text \<open>
  \<open>RouteDefaults::apply\<close>: a default fills a key the caller did not send. The merge goes through
  JSON in the code; every default has its field's type, so reading it back cannot fail.
\<close>

definition merged_route :: "route_defaults \<Rightarrow> string set \<Rightarrow> route_input \<Rightarrow> route_input" where
  "merged_route d f r = r\<lparr>
     ri_task := defaulted f ''task'' (rd_task d) (ri_task r),
     ri_objective := defaulted f ''objective'' (rd_objective d) (ri_objective r),
     ri_model := defaulted f ''model'' (map_option Some (rd_model d)) (ri_model r),
     ri_required := defaulted f ''required_capabilities'' (rd_required d) (ri_required r),
     ri_context_tokens := defaulted f ''context_tokens'' (map_option Some (rd_context_tokens d)) (ri_context_tokens r),
     ri_preference := defaulted f ''execution_preference'' (rd_preference d) (ri_preference r),
     ri_min_placement := defaulted f ''min_placement_evidence'' (rd_min_placement d) (ri_min_placement r),
     ri_min_confidence := defaulted f ''min_confidence'' (map_option Some (rd_min_confidence d)) (ri_min_confidence r)\<rparr>"

definition defaults_apply :: "route_defaults \<Rightarrow> task_input \<Rightarrow> scope_error + task_input" where
  "defaults_apply d inp =
     (let inp' = inp\<lparr>ti_route := merged_route d (ti_route_fields inp) (ti_route inp)\<rparr>
      in if ri_task (ti_route inp') = TEmbedding then Inl ScopeEmbeddingUnsupported else Inr inp')"

section \<open>Histories\<close>

record history =
  h_revision :: nat
  h_messages :: "json list"
  h_defaults :: route_defaults
  h_limits :: limits
  h_touched :: instant
  h_expires_at :: nat
  h_lease :: "string option"
  h_forked_from :: "json option"

type_synonym scope_store = "(string, history) btree"

definition history_size :: "(json \<Rightarrow> nat) \<Rightarrow> json list \<Rightarrow> nat \<times> nat" where
  "history_size len messages = (len (JArr messages), div_ceil (len (JArr messages)) 3)"

text \<open>\<open>sum\<close> of machine integers.\<close>

definition total_bytes :: "(json \<Rightarrow> nat) \<Rightarrow> scope_store \<Rightarrow> nat" where
  "total_bytes len entries =
     (\<Sum>p \<leftarrow> entries. fst (history_size len (h_messages (snd p)))) mod (usize_max + 1)"

definition validate_size :: "(json \<Rightarrow> nat) \<Rightarrow> json list \<Rightarrow> limits \<Rightarrow> scope_error + unit" where
  "validate_size len messages l =
     (case history_size len messages of (bytes, tokens) \<Rightarrow>
        ensure (\<not> (lm_max_messages l < length messages \<or> lm_max_bytes l < bytes \<or> lm_max_tokens l < tokens))
          ScopeHistoryLimit)"

definition valid_message :: "json \<Rightarrow> bool" where
  "valid_message m \<longleftrightarrow>
     as_str (jindex m ''role'') \<in> {Some ''system'', Some ''user'', Some ''assistant'', Some ''tool''} \<and>
     (case jget m ''content'' of None \<Rightarrow> True | Some c \<Rightarrow> as_str c \<noteq> None) \<and>
     (case jget m ''tool_calls'' of None \<Rightarrow> True | Some c \<Rightarrow> as_array c \<noteq> None)"

definition validate_messages :: "json list \<Rightarrow> scope_error + unit" where
  "validate_messages ms = ensure (\<forall>m \<in> set ms. valid_message m) ScopeMessagesInvalid"

definition scope_prune :: "instant \<Rightarrow> scope_policy \<Rightarrow> scope_store \<Rightarrow> scope_store" where
  "scope_prune now p entries =
     bt_retain (\<lambda>_ h. now - h_touched h < min (lm_ttl_seconds (h_limits h)) (sp_ttl_seconds p) * 1000000000)
       entries"

definition scope_capacity :: "(json \<Rightarrow> nat) \<Rightarrow> scope_store \<Rightarrow> nat \<Rightarrow> scope_policy \<Rightarrow> scope_error + unit" where
  "scope_capacity len entries bytes p =
     ensure (\<not> (sp_max_count p \<le> length entries \<or>
                sp_total_max_bytes p < sat_add usize_max (total_bytes len entries) bytes))
       ScopeCapacityExceeded"

section \<open>Receipts\<close>

fun objective_str :: "objective \<Rightarrow> string" where
  "objective_str Fastest = ''fastest''"
| "objective_str Balanced = ''balanced''"
| "objective_str Quality = ''quality''"

fun capability_str :: "capability \<Rightarrow> string" where
  "capability_str CCompletion = ''completion''"
| "capability_str CTools = ''tools''"
| "capability_str CVision = ''vision''"
| "capability_str CAudio = ''audio''"
| "capability_str CThinking = ''thinking''"
| "capability_str CEmbedding = ''embedding''"
| "capability_str COther = ''other''"

fun preference_str :: "execution_preference \<Rightarrow> string" where
  "preference_str PreferAuto = ''auto''"
| "preference_str PreferCpu = ''prefer_cpu''"
| "preference_str PreferGpu = ''prefer_gpu''"

fun placement_str :: "placement_evidence \<Rightarrow> string" where
  "placement_str Configured = ''configured''"
| "placement_str Observed = ''observed''"

definition capabilities_json :: "capability set \<Rightarrow> json" where
  "capabilities_json caps = JArr (map (\<lambda>c. JStr (capability_str c))
     (filter (\<lambda>c. c \<in> caps) [CCompletion, CTools, CVision, CAudio, CThinking, CEmbedding, COther]))"

definition optional_field :: "string \<Rightarrow> json option \<Rightarrow> (string \<times> json) list" where
  "optional_field k v = (case v of None \<Rightarrow> [] | Some j \<Rightarrow> [(k, j)])"

definition defaults_json :: "route_defaults \<Rightarrow> json" where
  "defaults_json d = json_object (concat [
     optional_field ''task'' (map_option (\<lambda>t. JStr (task_as_str t)) (rd_task d)),
     optional_field ''objective'' (map_option (\<lambda>t. JStr (objective_str t)) (rd_objective d)),
     optional_field ''model'' (map_option JStr (rd_model d)),
     optional_field ''required_capabilities'' (map_option capabilities_json (rd_required d)),
     optional_field ''context_tokens'' (map_option jnat (rd_context_tokens d)),
     optional_field ''execution_preference'' (map_option (\<lambda>t. JStr (preference_str t)) (rd_preference d)),
     optional_field ''min_placement_evidence'' (map_option (\<lambda>t. JStr (placement_str t)) (rd_min_placement d)),
     optional_field ''min_confidence'' (map_option JStr (rd_min_confidence d))])"

definition limits_json :: "limits \<Rightarrow> json" where
  "limits_json l = json_object [(''max_messages'', jnat (lm_max_messages l)), (''max_bytes'', jnat (lm_max_bytes l)),
     (''max_estimated_tokens'', jnat (lm_max_tokens l)), (''ttl_seconds'', jnat (lm_ttl_seconds l))]"

definition history_receipt :: "(json \<Rightarrow> nat) \<Rightarrow> string \<Rightarrow> bool \<Rightarrow> scope_policy \<Rightarrow> history \<Rightarrow> json" where
  "history_receipt len sid include p h =
     (let l = limits_bounded p (h_limits h);
          expires = h_expires_at h - (lm_ttl_seconds (h_limits h) - lm_ttl_seconds l);
          (bytes, tokens) = history_size len (h_messages h)
      in json_object (concat [
           [(''scope_id'', JStr sid), (''revision'', jnat (h_revision h)),
            (''route_defaults'', defaults_json (h_defaults h)), (''limits'', limits_json l),
            (''storage'', JStr ''process_local''),
            (''privacy'', json_object [(''opt_in'', JBool True), (''persistent'', JBool False),
                                      (''contains_caller_history'', JBool True)]),
            (''message_count'', jnat (length (h_messages h))), (''bytes'', jnat bytes),
            (''estimated_tokens'', jnat tokens), (''token_estimator'', JStr ''utf8_bytes_div_3''),
            (''expires_at'', jnat expires)],
           (if include then [(''messages'', JArr (h_messages h))] else []),
           optional_field ''forked_from'' (h_forked_from h)]))"

section \<open>Operations\<close>

record create_input =
  ci_messages :: "json list"
  ci_defaults :: route_defaults
  ci_limits :: limits_input

definition fresh_history ::
  "instant \<Rightarrow> nat \<Rightarrow> json list \<Rightarrow> route_defaults \<Rightarrow> limits \<Rightarrow> json option \<Rightarrow> history" where
  "fresh_history now wall messages d l forked =
     \<lparr>h_revision = 0, h_messages = messages, h_defaults = d, h_limits = l, h_touched = now,
      h_expires_at = sat_add u64_max wall (lm_ttl_seconds l), h_lease = None, h_forked_from = forked\<rparr>"

definition scope_create ::
  "(json \<Rightarrow> nat) \<Rightarrow> scope_policy \<Rightarrow> instant \<Rightarrow> nat \<Rightarrow> string \<Rightarrow> create_input \<Rightarrow> scope_store \<Rightarrow>
   (scope_error + json) \<times> scope_store" where
  "scope_create len p now wall sid inp entries =
     (case and_then (validate_messages (ci_messages inp)) (\<lambda>_.
             if rd_task (ci_defaults inp) = Some TEmbedding then Inl ScopeEmbeddingUnsupported
             else and_then (limits_resolve (ci_limits inp) p) (\<lambda>l.
               and_then (validate_size len (ci_messages inp) l) (\<lambda>_. Inr l))) of
        Inl e \<Rightarrow> (Inl e, entries)
      | Inr l \<Rightarrow>
          (let entries' = scope_prune now p entries
           in case scope_capacity len entries' (fst (history_size len (ci_messages inp))) p of
                Inl e \<Rightarrow> (Inl e, entries')
              | Inr _ \<Rightarrow>
                  (let h = fresh_history now wall (ci_messages inp) (ci_defaults inp) l None
                   in (Inr (history_receipt len sid False p h), bt_put sid h entries'))))"

definition scope_get ::
  "(json \<Rightarrow> nat) \<Rightarrow> scope_policy \<Rightarrow> instant \<Rightarrow> string \<Rightarrow> bool \<Rightarrow> scope_store \<Rightarrow>
   (scope_error + json) \<times> scope_store" where
  "scope_get len p now sid include entries =
     (let entries' = scope_prune now p entries
      in (case bt_get entries' sid of
            None \<Rightarrow> Inl ScopeNotFound
          | Some h \<Rightarrow> Inr (history_receipt len sid include p h), entries'))"

definition scope_delete ::
  "scope_policy \<Rightarrow> instant \<Rightarrow> string \<Rightarrow> scope_store \<Rightarrow> (scope_error + unit) \<times> scope_store" where
  "scope_delete p now sid entries =
     (let entries' = scope_prune now p entries
      in if bt_get entries' sid = None then (Inl ScopeNotFound, entries')
         else (Inr (), bt_del sid entries'))"

record fork_input =
  fi_revision :: nat
  fi_defaults :: "route_defaults option"
  fi_limits :: "limits_input option"

definition fork_history ::
  "(json \<Rightarrow> nat) \<Rightarrow> scope_policy \<Rightarrow> instant \<Rightarrow> nat \<Rightarrow> string \<Rightarrow> fork_input \<Rightarrow> history \<Rightarrow> scope_error + history"
  where
  "fork_history len p now wall sid inp source =
     and_then (ensure (h_revision source = fi_revision inp) ScopeRevisionConflict) (\<lambda>_.
     and_then (case fi_limits inp of
                 Some l \<Rightarrow> limits_resolve l p
               | None \<Rightarrow> Inr (limits_bounded p (h_limits source))) (\<lambda>l.
     and_then (validate_size len (h_messages source) l) (\<lambda>_.
       let d = or_default (fi_defaults inp) (h_defaults source)
       in if rd_task d = Some TEmbedding then Inl ScopeEmbeddingUnsupported
          else Inr (fresh_history now wall (h_messages source) d l
                 (Some (json_object [(''scope_id'', JStr sid), (''revision'', jnat (fi_revision inp))]))))))"

definition scope_fork ::
  "(json \<Rightarrow> nat) \<Rightarrow> scope_policy \<Rightarrow> instant \<Rightarrow> nat \<Rightarrow> string \<Rightarrow> string \<Rightarrow> fork_input \<Rightarrow> scope_store \<Rightarrow>
   (scope_error + json) \<times> scope_store" where
  "scope_fork len p now wall new_id sid inp entries =
     (let entries' = scope_prune now p entries
      in case bt_get entries' sid of
           None \<Rightarrow> (Inl ScopeNotFound, entries')
         | Some source \<Rightarrow>
             (case and_then (fork_history len p now wall sid inp source) (\<lambda>h.
                     and_then (scope_capacity len entries' (fst (history_size len (h_messages h))) p)
                       (\<lambda>_. Inr h)) of
                Inl e \<Rightarrow> (Inl e, entries')
              | Inr h \<Rightarrow> (Inr (history_receipt len new_id False p h), bt_put new_id h entries')))"

section \<open>Appending under a lease\<close>

record scope_lease =
  sl_id :: string
  sl_revision :: nat
  sl_lease_id :: string
  sl_messages :: "json list"
  sl_budget :: nat

definition MAX_RESULT_BYTES :: nat where "MAX_RESULT_BYTES = 2 * 1024 * 1024"

text \<open>The messages a task adds: its own, or one user message built from its prompt.\<close>

definition task_additions :: "task_input \<Rightarrow> scope_error + json list" where
  "task_additions inp =
     (if ti_messages inp \<noteq> [] then Inr (ti_messages inp)
      else case ti_prompt inp of
             None \<Rightarrow> Inl ScopeNeedsPrompt
           | Some prompt \<Rightarrow> Inr [json_object ([(''role'', JStr ''user''), (''content'', JStr prompt)] @
               optional_field ''images'' (map_option (\<lambda>i. JArr (map JStr i)) (ti_images inp)))])"

text \<open>The checks of \<open>prepare\<close> on the history it found.\<close>

definition prepare_history ::
  "(json \<Rightarrow> nat) \<Rightarrow> scope_policy \<Rightarrow> nat \<Rightarrow> task_input \<Rightarrow> history \<Rightarrow> scope_error + task_input" where
  "prepare_history len p revision inp h =
     and_then (ensure (h_revision h = revision) ScopeRevisionConflict) (\<lambda>_.
     and_then (ensure (h_lease h = None) ScopeBusy) (\<lambda>_.
     and_then (defaults_apply (h_defaults h) inp) (\<lambda>inp'.
     and_then (task_additions inp') (\<lambda>additions.
     and_then (validate_messages additions) (\<lambda>_.
     and_then (validate_size len (h_messages h @ additions) (limits_bounded p (h_limits h))) (\<lambda>_.
       Inr (inp'\<lparr>ti_messages := h_messages h @ additions, ti_prompt := None, ti_images := None\<rparr>)))))))"

definition scope_prepare ::
  "(json \<Rightarrow> nat) \<Rightarrow> scope_policy \<Rightarrow> instant \<Rightarrow> string \<Rightarrow> task_input \<Rightarrow> scope_store \<Rightarrow>
   (scope_error + task_input \<times> scope_lease option) \<times> scope_store" where
  "scope_prepare len p now lease_id inp entries =
     (case (ti_scope_id inp, ti_scope_revision inp) of
        (None, None) \<Rightarrow> (Inr (inp, None), entries)
      | (Some sid, Some revision) \<Rightarrow>
          if ti_input inp \<noteq> None then (Inl ScopeEmbeddingUnsupported, entries)
          else (let entries' = scope_prune now p entries
                in case bt_get entries' sid of
                     None \<Rightarrow> (Inl ScopeNotFound, entries')
                   | Some h \<Rightarrow>
                       (case prepare_history len p revision inp h of
                          Inl e \<Rightarrow> (Inl e, entries')
                        | Inr inp' \<Rightarrow>
                            (Inr (inp', Some \<lparr>sl_id = sid, sl_revision = revision,
                               sl_lease_id = lease_id, sl_messages = ti_messages inp',
                               sl_budget = (if ti_deferred inp then MAX_RESULT_BYTES else usize_max)\<rparr>),
                             bt_put sid (h\<lparr>h_lease := Some lease_id\<rparr>) entries')))
      | _ \<Rightarrow> (Inl ScopeReferenceInvalid, entries))"

text \<open>\<open>Drop\<close> of a lease.\<close>

definition lease_drop :: "scope_lease \<Rightarrow> scope_store \<Rightarrow> scope_store" where
  "lease_drop l entries =
     (case bt_get entries (sl_id l) of
        None \<Rightarrow> entries
      | Some h \<Rightarrow> if h_lease h = Some (sl_lease_id l) then bt_put (sl_id l) (h\<lparr>h_lease := None\<rparr>) entries
                 else entries)"

text \<open>The assistant message of a completed response.\<close>

definition commit_assistant :: "json \<Rightarrow> scope_error + json" where
  "commit_assistant result =
     (let response = jindex result ''response''; assistant = jindex response ''message''
      in if jindex response ''done'' \<noteq> JBool True then Inl ScopeResponseInvalid
         else if \<not> valid_message assistant then Inl ScopeResponseInvalid
         else if jindex assistant ''role'' \<noteq> JStr ''assistant'' then Inl ScopeResponseInvalid
         else Inr assistant)"

definition commit_candidate :: "instant \<Rightarrow> nat \<Rightarrow> json list \<Rightarrow> history \<Rightarrow> history" where
  "commit_candidate now wall messages h =
     h\<lparr>h_revision := wrapping_add u64_max (h_revision h) 1, h_messages := messages, h_touched := now,
       h_expires_at := sat_add u64_max wall (lm_ttl_seconds (h_limits h)), h_lease := None\<rparr>"

text \<open>The transaction on the pruned store; the lease is dropped afterwards in every case.\<close>

definition commit_entry ::
  "(json \<Rightarrow> nat) \<Rightarrow> scope_policy \<Rightarrow> instant \<Rightarrow> nat \<Rightarrow> bool \<Rightarrow> json \<Rightarrow> scope_lease \<Rightarrow> scope_store \<Rightarrow>
   scope_error + json \<times> history" where
  "commit_entry len p now wall expired result l entries =
     and_then (commit_assistant result) (\<lambda>assistant.
       let messages = sl_messages l @ [assistant]
       in case bt_get entries (sl_id l) of
            None \<Rightarrow> Inl ScopeNotFound
          | Some h \<Rightarrow>
              and_then (ensure (h_revision h = sl_revision l \<and> h_lease h = Some (sl_lease_id l))
                          ScopeRevisionConflict) (\<lambda>_.
              and_then (validate_size len messages (limits_bounded p (h_limits h))) (\<lambda>_.
              and_then (ensure (sat_add usize_max
                           (total_bytes len entries - fst (history_size len (h_messages h)))
                           (fst (history_size len messages)) \<le> sp_total_max_bytes p)
                          ScopeCapacityExceeded) (\<lambda>_.
                let candidate = commit_candidate now wall messages h;
                    receipt = jset ''committed'' (JBool True)
                      (jset ''previous_revision'' (jnat (sl_revision l))
                        (history_receipt len (sl_id l) False p candidate));
                    result' = jset ''scope'' receipt result
                in and_then (ensure (len result' \<le> sl_budget l) ScopeResultTooLarge) (\<lambda>_.
                   and_then (ensure (\<not> expired) ScopeDeadlineExceeded) (\<lambda>_.
                     Inr (result', candidate)))))))"

definition scope_commit ::
  "(json \<Rightarrow> nat) \<Rightarrow> scope_policy \<Rightarrow> instant \<Rightarrow> nat \<Rightarrow> bool \<Rightarrow> json \<Rightarrow> scope_lease \<Rightarrow> scope_store \<Rightarrow>
   (scope_error + json) \<times> scope_store" where
  "scope_commit len p now wall expired result l entries =
     (case commit_assistant result of
        Inl e \<Rightarrow> (Inl e, lease_drop l entries)
      | Inr _ \<Rightarrow>
          (let entries' = scope_prune now p entries
           in case commit_entry len p now wall expired result l entries' of
                Inl e \<Rightarrow> (Inl e, lease_drop l entries')
              | Inr (result', candidate) \<Rightarrow>
                  (Inr result', lease_drop l (bt_put (sl_id l) candidate entries'))))"

end
