(* ===== verification/Scopes_Leases.thy ===== *)
theory Scopes_Leases
  imports Scopes_Run
begin

text \<open>
  Leases: every leased history belongs to exactly one live lease, which was taken at the history's
  current revision and extends its current messages. The properties of the history store follow.
\<close>

section \<open>The lease invariant\<close>

definition leases_ok :: "(nat \<Rightarrow> string) \<Rightarrow> nat \<Rightarrow> scope_lease list \<Rightarrow> scope_store \<Rightarrow> bool" where
  "leases_ok uuid nxt ls m \<longleftrightarrow>
     distinct (map sl_lease_id ls) \<and> distinct (map sl_id ls) \<and>
     (\<forall>l \<in> set ls. \<exists>k < nxt. sl_lease_id l = uuid k) \<and>
     (\<forall>l \<in> set ls. \<exists>k < nxt. sl_id l = uuid k) \<and>
     (\<forall>k h. bt_get m k = Some h \<longrightarrow> (\<exists>j < nxt. k = uuid j)) \<and>
     (\<forall>l \<in> set ls. \<forall>h. bt_get m (sl_id l) = Some h \<longrightarrow> h_lease h = Some (sl_lease_id l) \<and>
        sl_revision l = h_revision h \<and> (\<exists>adds. sl_messages l = h_messages h @ adds)) \<and>
     (\<forall>k h x. bt_get m k = Some h \<longrightarrow> h_lease h = Some x \<longrightarrow>
        (\<exists>l \<in> set ls. sl_id l = k \<and> sl_lease_id l = x))"

text \<open>The seven facts of a lease state, for use one at a time.\<close>

lemma leases_okD:
  assumes "leases_ok uuid n ls m"
  shows "distinct (map sl_lease_id ls)" "distinct (map sl_id ls)"
    and "l \<in> set ls \<Longrightarrow> \<exists>k < n. sl_lease_id l = uuid k"
    and "l \<in> set ls \<Longrightarrow> \<exists>k < n. sl_id l = uuid k"
    and "bt_get m k = Some h \<Longrightarrow> \<exists>j < n. k = uuid j"
    and "l \<in> set ls \<Longrightarrow> bt_get m (sl_id l) = Some h \<Longrightarrow> h_lease h = Some (sl_lease_id l)"
    and "l \<in> set ls \<Longrightarrow> bt_get m (sl_id l) = Some h \<Longrightarrow> sl_revision l = h_revision h"
    and "l \<in> set ls \<Longrightarrow> bt_get m (sl_id l) = Some h \<Longrightarrow> \<exists>adds. sl_messages l = h_messages h @ adds"
    and "bt_get m k = Some h \<Longrightarrow> h_lease h = Some x \<Longrightarrow> \<exists>l \<in> set ls. sl_id l = k \<and> sl_lease_id l = x"
  using assms unfolding leases_ok_def by blast+

lemma leases_okI:
  assumes "distinct (map sl_lease_id ls)" "distinct (map sl_id ls)"
    and "\<And>l. l \<in> set ls \<Longrightarrow> \<exists>k < n. sl_lease_id l = uuid k"
    and "\<And>l. l \<in> set ls \<Longrightarrow> \<exists>k < n. sl_id l = uuid k"
    and "\<And>k h. bt_get m k = Some h \<Longrightarrow> \<exists>j < n. k = uuid j"
    and "\<And>l h. l \<in> set ls \<Longrightarrow> bt_get m (sl_id l) = Some h \<Longrightarrow> h_lease h = Some (sl_lease_id l) \<and>
      sl_revision l = h_revision h \<and> (\<exists>adds. sl_messages l = h_messages h @ adds)"
    and "\<And>k h x. bt_get m k = Some h \<Longrightarrow> h_lease h = Some x \<Longrightarrow>
      \<exists>l \<in> set ls. sl_id l = k \<and> sl_lease_id l = x"
  shows "leases_ok uuid n ls m"
  unfolding leases_ok_def using assms by simp

lemma less_Suc_ex: "\<exists>k < n. P k \<Longrightarrow> n \<le> n' \<Longrightarrow> \<exists>k < n'. P k" for n :: nat
  by (meson order_less_le_trans)

text \<open>Steps that only remove histories, or add one under a fresh id without a lease.\<close>

lemma leases_mono:
  assumes ok: "leases_ok uuid n ls m" and le: "n \<le> n'" and inj: "inj uuid"
    and m': "\<And>k h. bt_get m' k = Some h \<Longrightarrow>
      bt_get m k = Some h \<or> (k = uuid n \<and> n < n' \<and> h_lease h = None)"
  shows "leases_ok uuid n' ls m'"
proof (rule leases_okI)
  note d = leases_okD [OF ok]
  have other: "sl_id l \<noteq> uuid n" if "l \<in> set ls" for l
    using d(4) [OF that] inj by (metis injD less_irrefl)
  show "distinct (map sl_lease_id ls)" "distinct (map sl_id ls)" using d(1,2) .
  show "\<exists>k < n'. sl_lease_id l = uuid k" if "l \<in> set ls" for l using less_Suc_ex [OF d(3) [OF that] le] .
  show "\<exists>k < n'. sl_id l = uuid k" if "l \<in> set ls" for l using less_Suc_ex [OF d(4) [OF that] le] .
  show "\<exists>j < n'. k = uuid j" if "bt_get m' k = Some h" for k h
    using m' [OF that] less_Suc_ex [OF d(5), of k h n'] le by blast
  show "h_lease h = Some (sl_lease_id l) \<and> sl_revision l = h_revision h \<and> (\<exists>adds. sl_messages l = h_messages h @ adds)"
    if "l \<in> set ls" "bt_get m' (sl_id l) = Some h" for l h
    using m' [OF that(2)] other [OF that(1)] d(6-8) [OF that(1), of h] by blast
  show "\<exists>l \<in> set ls. sl_id l = k \<and> sl_lease_id l = x"
    if "bt_get m' k = Some h" "h_lease h = Some x" for k h x
    using m' [OF that(1)] that(2) d(9) [of k h x] by auto
qed

text \<open>Giving a lease back: its history, if still there, is left without a lease.\<close>

lemma leases_release:
  assumes ok: "leases_ok uuid n ls m" and i: "i < length ls"
    and m': "\<And>k h. bt_get m' k = Some h \<Longrightarrow>
      bt_get m k \<noteq> None \<and> (if k = sl_id (ls ! i) then h_lease h = None else bt_get m k = Some h)"
  shows "leases_ok uuid n (remove_at i ls) m'"
proof (rule leases_okI)
  note d = leases_okD [OF ok]
  have sub: "l \<in> set ls" if "l \<in> set (remove_at i ls)" for l using that remove_at_set by fast
  have keep: "l \<in> set (remove_at i ls)" if "l \<in> set ls" "l \<noteq> ls ! i" for l
    using that remove_at_nth by (metis in_set_conv_nth)
  have gone: "sl_id l \<noteq> sl_id (ls ! i)" if l: "l \<in> set (remove_at i ls)" for l
  proof -
    have "remove_at i (map sl_id ls) = filter (\<lambda>x. x \<noteq> map sl_id ls ! i) (map sl_id ls)"
      by (rule remove_at_filter [OF d(2)]) (simp add: i)
    then have "set (map sl_id (remove_at i ls)) = set (map sl_id ls) - {sl_id (ls ! i)}"
      using i by (auto simp: remove_at_map)
    then show ?thesis using l by auto
  qed
  show "distinct (map sl_lease_id (remove_at i ls))" "distinct (map sl_id (remove_at i ls))"
    using d(1,2) by (simp_all add: remove_at_map remove_at_distinct)
  show "\<exists>k < n. sl_lease_id l = uuid k" if "l \<in> set (remove_at i ls)" for l using d(3) [OF sub [OF that]] .
  show "\<exists>k < n. sl_id l = uuid k" if "l \<in> set (remove_at i ls)" for l using d(4) [OF sub [OF that]] .
  show "\<exists>j < n. k = uuid j" if "bt_get m' k = Some h" for k h
    using m' [OF that] d(5) [of k] by blast
  show "h_lease h = Some (sl_lease_id l) \<and> sl_revision l = h_revision h \<and> (\<exists>adds. sl_messages l = h_messages h @ adds)"
    if "l \<in> set (remove_at i ls)" "bt_get m' (sl_id l) = Some h" for l h
    using m' [OF that(2)] gone [OF that(1)] d(6-8) [OF sub [OF that(1)], of h] by simp
  show "\<exists>l \<in> set (remove_at i ls). sl_id l = k \<and> sl_lease_id l = x"
    if h: "bt_get m' k = Some h" "h_lease h = Some x" for k h x
  proof -
    have "k \<noteq> sl_id (ls ! i)" "bt_get m k = Some h" using m' [OF h(1)] h(2) by (auto split: if_splits)
    then obtain l where "l \<in> set ls" "sl_id l = k" "sl_lease_id l = x" using d(9) h(2) by blast
    with \<open>k \<noteq> sl_id (ls ! i)\<close> show ?thesis using keep by blast
  qed
qed

lemma prune_get:
  "bt_wf m \<Longrightarrow> bt_get (scope_prune now p m) k = Some h \<Longrightarrow> bt_get m k = Some h"
  by (auto simp: scope_prune_def bt_get_retain split: option.splits if_splits)

lemma prune_wf: "bt_wf m \<Longrightarrow> bt_wf (scope_prune now p m)"
  by (simp add: scope_prune_def bt_wf_retain)

lemma drop_get:
  "bt_get (lease_drop l m) k = Some h \<Longrightarrow> bt_get m k = Some h \<or>
    (k = sl_id l \<and> bt_get m k \<noteq> None \<and> h_lease h = None)"
  by (auto simp: lease_drop_def split: option.splits if_splits)

lemma drop_frees: "bt_get (lease_drop l m) (sl_id l) = Some h \<Longrightarrow> h_lease h \<noteq> Some (sl_lease_id l)"
  by (auto simp: lease_drop_def split: option.splits if_splits)

lemma create_get:
  "bt_wf m \<Longrightarrow> bt_get (snd (scope_create len p now wall s inp m)) k = Some h \<Longrightarrow>
    bt_get m k = Some h \<or> (k = s \<and> h_lease h = None)"
  by (auto simp: scope_create_def Let_def fresh_history_def dest: prune_get split: sum.splits if_splits)

lemma fork_get:
  "bt_wf m \<Longrightarrow> bt_get (snd (scope_fork len p now wall s sid inp m)) k = Some h \<Longrightarrow>
    bt_get m k = Some h \<or> (k = s \<and> h_lease h = None)"
  by (auto simp: scope_fork_def Let_def and_then_Inr dest: prune_get dest!: fork_entry_ok
      split: option.splits sum.splits if_splits)

lemma prepare_fail_get:
  "bt_wf m \<Longrightarrow> scope_prepare len p now s inp m = (r, m') \<Longrightarrow> (\<nexists>i l. r = Inr (i, Some l)) \<Longrightarrow>
    bt_get m' k = Some h \<Longrightarrow> bt_get m k = Some h"
  by (auto simp: scope_prepare_def Let_def dest: prune_get split: option.splits sum.splits if_splits)

lemma prepareD:
  assumes "scope_prepare len p now s inp m = (Inr (inp', Some l), m')"
  obtains h adds where "bt_get (scope_prune now p m) (sl_id l) = Some h" "h_lease h = None"
    "h_revision h = sl_revision l" "sl_lease_id l = s" "sl_messages l = h_messages h @ adds" "adds \<noteq> []"
    "ti_scope_id inp = Some (sl_id l)" "ti_scope_revision inp = Some (sl_revision l)"
    "m' = bt_put (sl_id l) (h\<lparr>h_lease := Some s\<rparr>) (scope_prune now p m)"
    "ti_messages inp' = sl_messages l"
proof -
  have adds: "task_additions i = Inr a \<Longrightarrow> a \<noteq> []" for i a
    by (auto simp: task_additions_def split: if_splits option.splits)
  show ?thesis
    using assms that adds
    by (auto simp: scope_prepare_def prepare_history_def and_then_Inr Let_def
        split: option.splits sum.splits if_splits)
qed

lemma leases_take:
  assumes ok: "leases_ok uuid n ls m" and wf: "bt_wf m" and inj: "inj uuid"
    and p: "scope_prepare len p now (uuid n) inp m = (Inr (inp', Some l), m')"
  shows "leases_ok uuid (Suc n) (ls @ [l]) m'"
proof (rule leases_okI)
  note d = leases_okD [OF ok]
  obtain h adds where h: "bt_get (scope_prune now p m) (sl_id l) = Some h" "h_lease h = None"
    "h_revision h = sl_revision l" "sl_lease_id l = uuid n" "sl_messages l = h_messages h @ adds"
    "m' = bt_put (sl_id l) (h\<lparr>h_lease := Some (uuid n)\<rparr>) (scope_prune now p m)"
    by (rule prepareD [OF p])
  have old: "bt_get m (sl_id l) = Some h" by (rule prune_get [OF wf h(1)])
  have get: "bt_get m' k = (if k = sl_id l then Some (h\<lparr>h_lease := Some (uuid n)\<rparr>) else bt_get (scope_prune now p m) k)" for k
    by (simp add: h(6))
  have same: "bt_get m k = Some g" if "bt_get m' k = Some g" "k \<noteq> sl_id l" for k g
    using that get prune_get [OF wf] by simp
  have fresh: "sl_lease_id x \<noteq> uuid n" if "x \<in> set ls" for x
    using d(3) [OF that] inj by (metis injD less_irrefl)
  have apart: "sl_id x \<noteq> sl_id l" if "x \<in> set ls" for x
    using d(6) [OF that] old h(2) by fastforce
  show "distinct (map sl_lease_id (ls @ [l]))" "distinct (map sl_id (ls @ [l]))"
  proof -
    have "uuid n \<notin> sl_lease_id ` set ls" "sl_id l \<notin> sl_id ` set ls"
      using fresh apart by (metis imageE)+
    then show "distinct (map sl_lease_id (ls @ [l]))" "distinct (map sl_id (ls @ [l]))"
      using d(1,2) h(4) by simp_all
  qed
  show "\<exists>k < Suc n. sl_lease_id x = uuid k" if "x \<in> set (ls @ [l])" for x
    using that h(4) less_Suc_ex [OF d(3), of x "Suc n"] by auto
  show "\<exists>k < Suc n. sl_id x = uuid k" if "x \<in> set (ls @ [l])" for x
    using that less_Suc_ex [OF d(5) [OF old], of "Suc n"] less_Suc_ex [OF d(4), of x "Suc n"] by auto
  show "\<exists>j < Suc n. k = uuid j" if "bt_get m' k = Some g" for k g
    using less_Suc_ex [OF d(5), of k _ "Suc n"] old same [OF that] by (cases "k = sl_id l") auto
  show "h_lease g = Some (sl_lease_id x) \<and> sl_revision x = h_revision g \<and> (\<exists>adds. sl_messages x = h_messages g @ adds)"
    if "x \<in> set (ls @ [l])" "bt_get m' (sl_id x) = Some g" for x g
  proof (cases "x \<in> set ls")
    case True
    then show ?thesis using d(6-8) [OF True same [OF that(2) apart [OF True]]] by blast
  next
    case False
    then show ?thesis using that get [of "sl_id l"] h(3,4,5) by auto
  qed
  show "\<exists>x \<in> set (ls @ [l]). sl_id x = k \<and> sl_lease_id x = y"
    if "bt_get m' k = Some g" "h_lease g = Some y" for k g y
  proof (cases "k = sl_id l")
    case True
    then show ?thesis using that get h(4) by auto
  next
    case False
    then show ?thesis using d(9) [OF same [OF that(1) False] that(2)] by auto
  qed
qed

lemma commit_get:
  assumes ok: "leases_ok uuid n ls m" and l: "l \<in> set ls" and wf: "bt_wf m"
    and g: "bt_get (snd (scope_commit len p now wall expired result l m)) k = Some h"
  shows "bt_get m k \<noteq> None \<and> (if k = sl_id l then h_lease h = None else bt_get m k = Some h)"
proof -
  have dropped: "bt_get m k \<noteq> None \<and> (if k = sl_id l then h_lease h = None else bt_get m k = Some h)"
    if m2: "\<And>k h. bt_get m2 k = Some h \<Longrightarrow> bt_get m k = Some h" and d: "bt_get (lease_drop l m2) k = Some h" for m2
    using drop_get [OF d] drop_frees [of l m2 h] m2 leases_okD(6) [OF ok l, of h] d by (cases "k = sl_id l") auto
  have committed: "bt_get m k \<noteq> None \<and> (if k = sl_id l then h_lease h = None else bt_get m k = Some h)"
    if c: "commit_entry len p now wall expired result l (scope_prune now p m) = Inr (r, c)"
      and d: "bt_get (lease_drop l (bt_put (sl_id l) c (scope_prune now p m))) k = Some h" for r c
  proof -
    obtain h0 a where "bt_get (scope_prune now p m) (sl_id l) = Some h0"
      "c = commit_candidate now wall (sl_messages l @ [a]) h0"
      by (rule commit_entryD [OF c])
    then show ?thesis
      using d prune_get [OF wf] by (auto simp: lease_drop_def commit_candidate_def split: if_splits)
  qed
  show ?thesis
    using g dropped [of m] dropped [of "scope_prune now p m"] prune_get [OF wf] committed
    by (auto simp: scope_commit_def Let_def split: sum.splits prod.splits)
qed

definition scope_inv :: "(json \<Rightarrow> nat) \<Rightarrow> scope_policy \<Rightarrow> (nat \<Rightarrow> string) \<Rightarrow> scope_sys \<Rightarrow> bool" where
  "scope_inv len p uuid \<sigma> \<longleftrightarrow> store_ok len p (ss_store \<sigma>) \<and>
     leases_ok uuid (ss_next \<sigma>) (ss_leases \<sigma>) (ss_store \<sigma>)"

lemma scope_step_inv:
  assumes ok: "policy_ok p \<and> inj uuid" and inv: "scope_inv len p uuid \<sigma>"
  shows "scope_inv len p uuid (scope_step len p uuid \<sigma> e)"
proof -
  have store: "store_ok len p (ss_store (scope_step len p uuid \<sigma> e))"
    using step_store_ok [of p len \<sigma> uuid e] ok inv by (simp add: scope_inv_def)
  have inj: "inj uuid" using ok by simp
  have wf: "bt_wf (ss_store \<sigma>)" and ls: "leases_ok uuid (ss_next \<sigma>) (ss_leases \<sigma>) (ss_store \<sigma>)"
    using inv by (simp_all add: scope_inv_def store_ok_def)
  have "leases_ok uuid (ss_next (scope_step len p uuid \<sigma> e)) (ss_leases (scope_step len p uuid \<sigma> e))
      (ss_store (scope_step len p uuid \<sigma> e))"
  proof (cases e)
    case (ScCreate now wall inp)
    show ?thesis unfolding ScCreate
      by (simp, rule leases_mono [OF ls _ inj]) (auto dest: create_get [OF wf])
  next
    case (ScGet now sid full)
    show ?thesis unfolding ScGet
      by (simp, rule leases_mono [OF ls _ inj]) (auto simp: scope_get_def Let_def intro: prune_get [OF wf])
  next
    case (ScDelete now sid)
    show ?thesis unfolding ScDelete
      by (simp, rule leases_mono [OF ls _ inj])
        (auto simp: scope_delete_def Let_def dest: prune_get [OF wf] split: if_splits)
  next
    case (ScFork now wall sid inp)
    show ?thesis unfolding ScFork
      by (simp, rule leases_mono [OF ls _ inj]) (auto dest: fork_get [OF wf])
  next
    case (ScPrepare now inp)
    obtain r m where p: "scope_prepare len p now (uuid (ss_next \<sigma>)) inp (ss_store \<sigma>) = (r, m)"
      by fastforce
    show ?thesis
    proof (cases "\<exists>i l. r = Inr (i, Some l)")
      case True
      then obtain i l where r: "r = Inr (i, Some l)" by blast
      then show ?thesis
        using leases_take [OF ls wf, of len p now inp i l m] ok p unfolding ScPrepare by simp
    next
      case False
      have "leases_ok uuid (Suc (ss_next \<sigma>)) (ss_leases \<sigma>) m"
        by (rule leases_mono [OF ls _ inj]) (auto intro: prepare_fail_get [OF wf p False])
      moreover have "scope_step len p uuid \<sigma> e = \<sigma>\<lparr>ss_store := m, ss_next := Suc (ss_next \<sigma>)\<rparr>"
        using False p unfolding ScPrepare by (auto split: sum.splits prod.splits option.splits)
      ultimately show ?thesis by simp
    qed
  next
    case (ScCommit i now wall expired result)
    show ?thesis
    proof (cases "i < length (ss_leases \<sigma>)")
      case True
      have "leases_ok uuid (ss_next \<sigma>) (remove_at i (ss_leases \<sigma>))
          (snd (scope_commit len p now wall expired result (ss_leases \<sigma> ! i) (ss_store \<sigma>)))"
        by (rule leases_release [OF ls True]) (rule commit_get [OF ls nth_mem [OF True] wf])
      then show ?thesis using True unfolding ScCommit by simp
    qed (simp add: ScCommit ls)
  next
    case (ScDrop i)
    show ?thesis
    proof (cases "i < length (ss_leases \<sigma>)")
      case True
      have "bt_get (ss_store \<sigma>) k \<noteq> None \<and>
          (if k = sl_id (ss_leases \<sigma> ! i) then h_lease h = None else bt_get (ss_store \<sigma>) k = Some h)"
        if "bt_get (lease_drop (ss_leases \<sigma> ! i) (ss_store \<sigma>)) k = Some h" for k h
        using drop_get [OF that] drop_frees that leases_okD(6) [OF ls nth_mem [OF True], of h] by auto
      then have "leases_ok uuid (ss_next \<sigma>) (remove_at i (ss_leases \<sigma>))
          (lease_drop (ss_leases \<sigma> ! i) (ss_store \<sigma>))"
        by (rule leases_release [OF ls True])
      then show ?thesis using True unfolding ScDrop by simp
    qed (simp add: ScDrop ls)
  qed
  then show ?thesis using store by (simp add: scope_inv_def)
qed

interpretation scope_system: invariant_system "scope_step len p uuid" "\<lambda>_. policy_ok p \<and> inj uuid" "scope_inv len p uuid"
  by unfold_locales (rule scope_step_inv)

lemma scope_run_inv: "policy_ok p \<Longrightarrow> inj uuid \<Longrightarrow> scope_inv len p uuid (scope_run len p uuid es)"
  unfolding scope_run_def
  by (rule scope_system.run_inv)
    (simp_all add: scope_inv_def scope_sys_new_def store_ok_def bytes_sum_def leases_ok_def list_all_iff)

section \<open>A sample run\<close>

definition no_defaults :: route_defaults where
  "no_defaults = \<lparr>rd_task = None, rd_objective = None, rd_model = None, rd_required = None,
     rd_context_tokens = None, rd_preference = None, rd_min_placement = None, rd_min_confidence = None\<rparr>"

definition no_limits :: limits_input where
  "no_limits = \<lparr>li_max_messages = None, li_max_bytes = None, li_max_tokens = None, li_ttl_seconds = None\<rparr>"

definition sample_message :: "string \<Rightarrow> json" where
  "sample_message role = JObj [(''content'', JStr ''hi''), (''role'', JStr role)]"

definition sample_result :: json where
  "sample_result = JObj [(''response'', JObj [(''done'', JBool True), (''message'', sample_message ''assistant'')])]"

definition sample_input :: task_input where
  "sample_input = \<lparr>ti_route = route_input_default, ti_route_fields = {}, ti_scope_id = Some [],
     ti_scope_revision = Some 0, ti_messages = [sample_message ''user''], ti_prompt = None,
     ti_images = None, ti_input = None, ti_deferred = False\<rparr>"

definition sample_uuid :: "nat \<Rightarrow> string" where
  "sample_uuid n = replicate n CHR ''u''"

definition sample_create :: scope_event where
  "sample_create = ScCreate 0 0 \<lparr>ci_messages = [], ci_defaults = no_defaults, ci_limits = no_limits\<rparr>"

definition sample_scope :: "nat \<Rightarrow> json list \<Rightarrow> string option \<Rightarrow> history" where
  "sample_scope revision messages lease =
     \<lparr>h_revision = revision, h_messages = messages, h_defaults = no_defaults,
      h_limits = \<lparr>lm_max_messages = 256, lm_max_bytes = 1048576, lm_max_tokens = 32768, lm_ttl_seconds = 3600\<rparr>,
      h_touched = 0, h_expires_at = 3600, h_lease = lease, h_forked_from = None\<rparr>"

definition sample_lease :: scope_lease where
  "sample_lease = \<lparr>sl_id = [], sl_revision = 0, sl_lease_id = ''u'',
     sl_messages = [sample_message ''user''], sl_budget = usize_max\<rparr>"

lemma sample_uuid_inj: "inj sample_uuid"
  by (rule injI) (metis sample_uuid_def length_replicate)

lemma sample_policy_ok: "policy_ok scope_policy_default"
  by (simp add: policy_ok_def scope_policy_valid_def scope_policy_default_def usize_max_def u64_max_def)

lemmas scope_eval = scope_run_def scope_sys_new_def sample_create_def scope_create_def validate_messages_def
  no_defaults_def no_limits_def limits_resolve_def or_default_def validate_size_def history_size_def
  scope_capacity_def total_bytes_def sat_add_def scope_policy_default_def scope_prune_def bt_retain_def
  usize_max_def u64_max_def fresh_history_def sample_uuid_def div_ceil_def ensure_def Let_def

lemma sample_created:
  "scope_run (\<lambda>_. 3) scope_policy_default sample_uuid [sample_create] =
    \<lparr>ss_store = [([], sample_scope 0 [] None)], ss_leases = [], ss_next = 1\<rparr>"
  by (simp add: scope_eval sample_scope_def)

lemma sample_prepared:
  "scope_run (\<lambda>_. 3) scope_policy_default sample_uuid [sample_create, ScPrepare 2 sample_input] =
    \<lparr>ss_store = [([], sample_scope 0 [] (Some ''u''))], ss_leases = [sample_lease], ss_next = 2\<rparr>"
proof -
  have "scope_step (\<lambda>_. 3) scope_policy_default sample_uuid
      \<lparr>ss_store = [([], sample_scope 0 [] None)], ss_leases = [], ss_next = 1\<rparr> (ScPrepare 2 sample_input) =
    \<lparr>ss_store = [([], sample_scope 0 [] (Some ''u''))], ss_leases = [sample_lease], ss_next = 2\<rparr>"
    by (simp add: scope_eval scope_prepare_def prepare_history_def sample_input_def sample_scope_def
        sample_lease_def defaults_apply_def merged_route_def defaulted_def route_input_default_def
        task_additions_def valid_message_def sample_message_def jindex_def limits_bounded_def)
  then show ?thesis using sample_created by (simp add: scope_run_def)
qed

lemma sample_committed:
  "\<exists>result'. scope_commit (\<lambda>_. 3) scope_policy_default 2 2 False sample_result sample_lease
      [([], sample_scope 0 [] (Some ''u''))] =
    (Inr result', [([], commit_candidate 2 2 [sample_message ''user'', sample_message ''assistant'']
       (sample_scope 0 [] (Some ''u'')))])"
  by (simp add: scope_commit_def commit_entry_def commit_assistant_def commit_candidate_def sample_result_def
      sample_lease_def sample_scope_def sample_message_def valid_message_def jindex_def
      limits_bounded_def lease_drop_def scope_eval)

section \<open>Properties\<close>

text \<open>
  operator caps hold in every reachable state. However scopes are created, forked, appended to,
  expired and deleted, the store holds at most the configured number of histories and bytes, and
  every history respects its own limits, which never exceed the operator's.
\<close>

theorem histories_within_caps:
  fixes es :: "scope_event list" and len :: "json \<Rightarrow> nat" and uuid :: "nat \<Rightarrow> string" and p :: scope_policy
  assumes "policy_ok p"
  defines "m \<equiv> ss_store (scope_run len p uuid es)"
  shows "length m \<le> sp_max_count p \<and> (\<Sum>q \<leftarrow> m. len (JArr (h_messages (snd q)))) \<le> sp_total_max_bytes p \<and>
    (\<forall>q \<in> set m. length (h_messages (snd q)) \<le> lm_max_messages (h_limits (snd q)) \<and>
       len (JArr (h_messages (snd q))) \<le> lm_max_bytes (h_limits (snd q)) \<and>
       lm_max_messages (h_limits (snd q)) \<le> sp_max_messages p \<and>
       lm_max_bytes (h_limits (snd q)) \<le> sp_max_bytes p \<and>
       lm_ttl_seconds (h_limits (snd q)) \<le> sp_ttl_seconds p)"
  using run_store_ok [OF assms(1), of len uuid es] unfolding m_def
  by (auto simp: store_ok_def bytes_sum_def bytes_of_def history_size_def entry_ok_def within_def
      validate_size_def not_less)

theorem histories_within_caps_witness:
  "length (ss_store (scope_run (\<lambda>_. 3) scope_policy_default sample_uuid [sample_create])) \<le> 128 \<and>
   ss_store (scope_run (\<lambda>_. 3) scope_policy_default sample_uuid [sample_create]) \<noteq> []"
  using histories_within_caps [OF sample_policy_ok, where len = "\<lambda>_. 3" and uuid = sample_uuid and es = "[sample_create]"]
    sample_created by (simp add: scope_policy_default_def)



text \<open>
  a failed append changes nothing. Whatever the reason a commit is refused for (an incomplete
  response, an expired or changed scope, a size cap, a deferred result that is too large, the
  deadline), every history still in the store has the messages and the revision it had, and the
  scope is free for the next append.
\<close>

theorem failed_append_changes_nothing:
  assumes "bt_wf m" "scope_commit len p now wall expired result l m = (Inl e, m')"
  shows "(\<forall>k h'. bt_get m' k = Some h' \<longrightarrow> (\<exists>h. bt_get m k = Some h \<and>
      h_messages h' = h_messages h \<and> h_revision h' = h_revision h \<and> h_limits h' = h_limits h)) \<and>
    (\<forall>h'. bt_get m' (sl_id l) = Some h' \<longrightarrow> h_lease h' \<noteq> Some (sl_lease_id l))"
proof -
  have dropped: "m' = lease_drop l m \<or> m' = lease_drop l (scope_prune now p m)"
    using assms(2) by (auto simp: scope_commit_def Let_def split: sum.splits prod.splits)
  have same: "\<exists>h. bt_get m2 k = Some h \<and> h_messages h' = h_messages h \<and> h_revision h' = h_revision h \<and>
      h_limits h' = h_limits h" if "bt_get (lease_drop l m2) k = Some h'" for m2 k h'
    using that by (auto simp: lease_drop_def split: option.splits if_splits)
  from dropped show ?thesis
  proof
    assume m': "m' = lease_drop l m"
    show ?thesis unfolding m' using same [of m] drop_frees [of l m] by blast
  next
    assume m': "m' = lease_drop l (scope_prune now p m)"
    show ?thesis unfolding m'
      using same [of "scope_prune now p m"] prune_get [OF assms(1), of now p]
        drop_frees [of l "scope_prune now p m"] by blast
  qed
qed

theorem failed_append_changes_nothing_witness:
  "snd (scope_commit (\<lambda>_. 3) scope_policy_default 2 2 False JNull sample_lease
      [([], sample_scope 4 [JNull] (Some ''u''))]) = [([], sample_scope 4 [JNull] None)]"
proof -
  have c: "scope_commit (\<lambda>_. 3) scope_policy_default 2 2 False JNull sample_lease
      [([], sample_scope 4 [JNull] (Some ''u''))] =
    (Inl ScopeResponseInvalid, [([], sample_scope 4 [JNull] None)])"
    by (simp add: scope_commit_def commit_assistant_def jindex_def Let_def lease_drop_def sample_lease_def
        sample_scope_def)
  show ?thesis using failed_append_changes_nothing [OF _ c] c by simp
qed

text \<open>
  appends to one scope are exclusive. In every reachable state two live leases are on different
  scopes, and while a lease is out on a scope that has not expired, a task that names the current
  revision is refused as busy and any other as a conflict.
\<close>

theorem appends_are_exclusive:
  assumes "policy_ok p" "inj uuid"
    and l: "l \<in> set (ss_leases (scope_run len p uuid es))"
    and task: "ti_scope_id inp = Some (sl_id l)" "ti_scope_revision inp = Some revision" "ti_input inp = None"
    and live: "bt_get (scope_prune now p (ss_store (scope_run len p uuid es))) (sl_id l) \<noteq> None"
  shows "(\<forall>l2 \<in> set (ss_leases (scope_run len p uuid es)). sl_id l2 = sl_id l \<longrightarrow> l2 = l) \<and>
    fst (scope_prepare len p now fresh inp (ss_store (scope_run len p uuid es))) =
      (if revision = sl_revision l then Inl ScopeBusy else Inl ScopeRevisionConflict)"
proof -
  let ?\<sigma> = "scope_run len p uuid es"
  have inv: "scope_inv len p uuid ?\<sigma>" by (rule scope_run_inv [OF assms(1,2)])
  then have wf: "bt_wf (ss_store ?\<sigma>)" and ok: "leases_ok uuid (ss_next ?\<sigma>) (ss_leases ?\<sigma>) (ss_store ?\<sigma>)"
    by (simp_all add: scope_inv_def store_ok_def)
  note d = leases_okD [OF ok]
  obtain h where h: "bt_get (scope_prune now p (ss_store ?\<sigma>)) (sl_id l) = Some h" using live by blast
  have old: "bt_get (ss_store ?\<sigma>) (sl_id l) = Some h" by (rule prune_get [OF wf h])
  have "prepare_history len p revision inp h =
      (if revision = sl_revision l then Inl ScopeBusy else Inl ScopeRevisionConflict)"
    using d(6,7) [OF l old] by (auto simp: prepare_history_def ensure_def)
  then have "fst (scope_prepare len p now fresh inp (ss_store ?\<sigma>)) =
      (if revision = sl_revision l then Inl ScopeBusy else Inl ScopeRevisionConflict)"
    using h task by (simp add: scope_prepare_def Let_def)
  moreover have "l2 = l" if "l2 \<in> set (ss_leases ?\<sigma>)" "sl_id l2 = sl_id l" for l2
    using d(2) that l by (auto simp: distinct_map inj_on_def)
  ultimately show ?thesis by blast
qed

theorem appends_are_exclusive_witness:
  "fst (scope_prepare (\<lambda>_. 3) scope_policy_default 2 ''x'' sample_input (ss_store
     (scope_run (\<lambda>_. 3) scope_policy_default sample_uuid [sample_create, ScPrepare 2 sample_input]))) =
   Inl ScopeBusy"
proof -
  let ?\<sigma> = "scope_run (\<lambda>_. 3) scope_policy_default sample_uuid [sample_create, ScPrepare 2 sample_input]"
  have l: "sample_lease \<in> set (ss_leases ?\<sigma>)" by (simp add: sample_prepared)
  have live: "bt_get (scope_prune 2 scope_policy_default (ss_store ?\<sigma>)) (sl_id sample_lease) \<noteq> None"
    unfolding sample_prepared
    by (simp add: sample_lease_def sample_scope_def scope_prune_def bt_retain_def scope_policy_default_def)
  show ?thesis
    using appends_are_exclusive [OF sample_policy_ok sample_uuid_inj l _ _ _ live, of sample_input 0 "''x''"]
    by (simp add: sample_input_def sample_lease_def)
qed

end
