(* ===== verification/FL_Error.thy ===== *)
theory FL_Error
  imports FL_Json
begin

text \<open>
  The typed error of the managed endpoints (\<open>platform/error.rs\<close>): a status, a message, an optional
  machine-readable code, and the optional parts of its body. A resource receipt is kept as the
  document it serialises to.
\<close>

record api_error =
  ae_status :: nat
  ae_error :: string
  ae_code :: "string option"
  ae_resource :: "json option"
  ae_upstream :: "json option"
  ae_lifecycle :: "json option"
  ae_retry_after :: "nat option"

definition api_new :: "nat \<Rightarrow> string \<Rightarrow> api_error" where
  "api_new status message = \<lparr>ae_status = status, ae_error = message, ae_code = None,
     ae_resource = None, ae_upstream = None, ae_lifecycle = None, ae_retry_after = None\<rparr>"

definition with_code :: "string \<Rightarrow> api_error \<Rightarrow> api_error" where
  "with_code code e = e\<lparr>ae_code := Some code\<rparr>"

definition with_retry_after :: "nat \<Rightarrow> api_error \<Rightarrow> api_error" where
  "with_retry_after seconds e = e\<lparr>ae_retry_after := Some (max seconds 1)\<rparr>"

definition is_resource_wait :: "api_error \<Rightarrow> bool" where
  "is_resource_wait e \<longleftrightarrow> ae_code e = Some ''resource_admission_unavailable''"

definition bad_request :: "string \<Rightarrow> api_error" where
  "bad_request message = api_new 422 message"

definition task_cancelled :: api_error where
  "task_cancelled = with_code ''task_cancelled'' (api_new 409 ''task cancelled'')"

definition session_killed :: api_error where
  "session_killed = with_code ''session_killed'' (api_new 409 ''session killed; managed request cancelled'')"

definition upstream_error :: "string \<Rightarrow> api_error" where
  "upstream_error message = api_new 502 message"

definition with_upstream_response :: "string \<Rightarrow> json \<Rightarrow> json option \<Rightarrow> api_error \<Rightarrow> api_error" where
  "with_upstream_response code response lifecycle e =
     e\<lparr>ae_code := Some code, ae_upstream := Some response, ae_lifecycle := lifecycle\<rparr>"

definition with_lifecycle :: "json \<Rightarrow> api_error \<Rightarrow> api_error" where
  "with_lifecycle lifecycle e = e\<lparr>ae_lifecycle := Some lifecycle\<rparr>"

definition with_resource_deadline :: "string \<Rightarrow> nat \<Rightarrow> api_error \<Rightarrow> api_error" where
  "with_resource_deadline phase waited_ms e =
     e\<lparr>ae_code := Some ''resource_admission_unavailable'',
       ae_retry_after := Some (case ae_retry_after e of None \<Rightarrow> 5 | Some s \<Rightarrow> s),
       ae_resource := Some (JObj [(''phase'', JStr phase), (''status'', JStr ''deadline_exceeded''),
                                  (''waited_ms'', jnat waited_ms)])\<rparr>"

definition resource_error :: "string \<Rightarrow> json \<Rightarrow> api_error" where
  "resource_error message receipt =
     \<lparr>ae_status = 503, ae_error = message, ae_code = Some ''resource_admission_unavailable'',
      ae_resource = Some receipt, ae_upstream = None, ae_lifecycle = None, ae_retry_after = Some 5\<rparr>"

definition present :: "string \<Rightarrow> json option \<Rightarrow> (string \<times> json) list" where
  "present k v = (case v of None \<Rightarrow> [] | Some j \<Rightarrow> [(k, j)])"

text \<open>The serialised body: absent parts are skipped.\<close>

definition error_body :: "api_error \<Rightarrow> json" where
  "error_body e = JObj (concat [
     present ''code'' (map_option JStr (ae_code e)),
     [(''error'', JStr (ae_error e))],
     present ''lifecycle'' (ae_lifecycle e),
     present ''resource_admission'' (ae_resource e),
     present ''retry_after_seconds'' (map_option jnat (ae_retry_after e)),
     present ''upstream_response'' (ae_upstream e)])"

definition into_batch_result :: "string \<Rightarrow> api_error \<Rightarrow> json" where
  "into_batch_result ident e =
     jset ''status'' (jnat (ae_status e)) (jset ''ok'' (JBool False) (jset ''id'' (JStr ident) (error_body e)))"

lemma batch_result_code:
  "jget (into_batch_result ident e) ''code'' = map_option JStr (ae_code e)"
proof -
  have "jget (error_body e) ''code'' = map_option JStr (ae_code e)"
    by (simp add: error_body_def present_def split: option.split)
  then show ?thesis
    by (simp add: into_batch_result_def error_body_def)
qed

end
