(* ===== verification/Jobs.thy ===== *)
theory Jobs
  imports FL_Error Scopes Admission
begin

text \<open>
  The registry of deferred tasks (\<open>platform/jobs.rs\<close>). A job is shared between the registry, the
  worker that runs it and requests that wait for it, so it lives in a heap and the registry maps
  ids to heap addresses: an evicted entry does not end the job. Each definition is one block the
  code runs under the job's or the registry's lock. \<open>len\<close> is the length of a serialised document.
\<close>

section \<open>Jobs\<close>

datatype job_status =
    Queued | WaitingForAdmission | WaitingForResources | WaitingForRunner | Loading | Running
  | Cancelling | Completed | Failed | Cancelled | Expired

definition terminal :: "job_status \<Rightarrow> bool" where
  "terminal s \<longleftrightarrow> s = Completed \<or> s = Failed \<or> s = Cancelled \<or> s = Expired"

record job =
  j_id :: string
  j_status :: job_status
  j_task :: task_kind
  j_priority :: priority
  j_requested_model :: "string option"
  j_selected_model :: "string option"
  j_backend :: "string option"
  j_reason :: string
  j_detail :: "json option"
  j_created_at :: nat
  j_timeout_seconds :: nat
  j_finished :: "instant option"
  j_result :: "json option"
  j_error :: "json option"
  j_cancel :: bool
  j_done :: bool
  j_committed :: bool

record registry =
  jr_entries :: "(string, nat) btree"
  jr_heap :: "job list"

definition MAX_JOBS :: nat where "MAX_JOBS = 64"
definition RESULT_TTL :: duration where "RESULT_TTL = 600 * 1000000000"
definition MAX_INPUT_BYTES :: nat where "MAX_INPUT_BYTES = 1024 * 1024"

fun status_str :: "job_status \<Rightarrow> string" where
  "status_str Queued = ''queued''"
| "status_str WaitingForAdmission = ''waiting_for_admission''"
| "status_str WaitingForResources = ''waiting_for_resources''"
| "status_str WaitingForRunner = ''waiting_for_runner''"
| "status_str Loading = ''loading''"
| "status_str Running = ''running''"
| "status_str Cancelling = ''cancelling''"
| "status_str Completed = ''completed''"
| "status_str Failed = ''failed''"
| "status_str Cancelled = ''cancelled''"
| "status_str Expired = ''expired''"

fun priority_str :: "priority \<Rightarrow> string" where
  "priority_str Interactive = ''interactive''"
| "priority_str Normal = ''normal''"
| "priority_str Background = ''background''"

definition jopt :: "json option \<Rightarrow> json" where
  "jopt v = (case v of None \<Rightarrow> JNull | Some j \<Rightarrow> j)"

definition job_receipt :: "bool \<Rightarrow> job \<Rightarrow> json" where
  "job_receipt include_result j =
     json_object ([(''id'', JStr (j_id j)), (''status'', JStr (status_str (j_status j))),
        (''task'', JStr (task_as_str (j_task j))), (''priority'', JStr (priority_str (j_priority j))),
        (''requested_model'', jopt (map_option JStr (j_requested_model j))),
        (''selected_model'', jopt (map_option JStr (j_selected_model j))),
        (''backend'', jopt (map_option JStr (j_backend j))), (''reason'', JStr (j_reason j)),
        (''detail'', jopt (j_detail j)), (''created_at'', jnat (j_created_at j)),
        (''timeout_seconds'', jnat (j_timeout_seconds j)),
        (''deadline_at'', jnat (sat_add u64_max (j_created_at j) (j_timeout_seconds j)))]
      @ (if include_result then [(''result'', jopt (j_result j)), (''error'', jopt (j_error j))] else []))"

section \<open>The registry\<close>

definition job_at :: "registry \<Rightarrow> nat \<Rightarrow> job" where
  "job_at r a = jr_heap r ! a"

definition jobs_prune :: "instant \<Rightarrow> registry \<Rightarrow> registry" where
  "jobs_prune now r =
     r\<lparr>jr_entries := bt_retain (\<lambda>_ a. case j_finished (job_at r a) of
          None \<Rightarrow> True | Some at \<Rightarrow> now - at < RESULT_TTL) (jr_entries r)\<rparr>"

definition finished_jobs :: "registry \<Rightarrow> (instant \<times> string) list" where
  "finished_jobs r = concat (map (\<lambda>a. case j_finished (job_at r a) of
      None \<Rightarrow> [] | Some at \<Rightarrow> [(at, j_id (job_at r a))]) (bt_values (jr_entries r)))"

definition evict_oldest :: "registry \<Rightarrow> registry" where
  "evict_oldest r =
     (case min_by_key fst (finished_jobs r) of
        None \<Rightarrow> r
      | Some (_, ident) \<Rightarrow> r\<lparr>jr_entries := bt_del ident (jr_entries r)\<rparr>)"

definition make_room :: "instant \<Rightarrow> registry \<Rightarrow> (api_error + unit) \<times> registry" where
  "make_room now r =
     (let r1 = jobs_prune now r;
          r2 = (if MAX_JOBS \<le> length (jr_entries r1) then evict_oldest r1 else r1)
      in if MAX_JOBS \<le> length (jr_entries r2)
         then (Inl (with_retry_after 5 (with_code ''task_jobs_full''
                (api_new 429 ''deferred task registry is full''))), r2)
         else (Inr (), r2))"

text \<open>
  \<open>submit\<close> from the size check to the insertion; validation of the session and of the timeout comes
  before it. The result is the address of the new job.
\<close>

definition new_job ::
  "string \<Rightarrow> task_kind \<Rightarrow> priority \<Rightarrow> string option \<Rightarrow> nat \<Rightarrow> nat \<Rightarrow> job" where
  "new_job ident task prio model wall timeout = \<lparr>j_id = ident, j_status = Queued, j_task = task,
     j_priority = prio, j_requested_model = model, j_selected_model = None, j_backend = None,
     j_reason = ''discovering_model'', j_detail = None, j_created_at = wall, j_timeout_seconds = timeout,
     j_finished = None, j_result = None, j_error = None, j_cancel = False, j_done = False,
     j_committed = False\<rparr>"

definition job_submit ::
  "instant \<Rightarrow> nat \<Rightarrow> job \<Rightarrow> registry \<Rightarrow> (api_error + nat) \<times> registry" where
  "job_submit now input_bytes j r =
     (if MAX_INPUT_BYTES < input_bytes
      then (Inl (with_code ''task_job_input_too_large'' (api_new 413
              ''deferred input exceeds the 1 MiB retention limit; use synchronous execution or a smaller input'')), r)
      else case make_room now r of
             (Inl e, r') \<Rightarrow> (Inl e, r')
           | (Inr _, r') \<Rightarrow>
               (Inr (length (jr_heap r')),
                r'\<lparr>jr_entries := bt_put (j_id j) (length (jr_heap r')) (jr_entries r'),
                   jr_heap := jr_heap r' @ [j]\<rparr>))"

definition job_lookup :: "instant \<Rightarrow> string \<Rightarrow> registry \<Rightarrow> (api_error + nat) \<times> registry" where
  "job_lookup now ident r =
     (let r' = jobs_prune now r
      in (case bt_get (jr_entries r') ident of
            None \<Rightarrow> Inl (api_new 404 ''job does not exist or has expired'')
          | Some a \<Rightarrow> Inr a, r'))"

definition jobs_snapshot :: "instant \<Rightarrow> registry \<Rightarrow> json list \<times> registry" where
  "jobs_snapshot now r =
     (let r' = jobs_prune now r
      in (map (\<lambda>a. job_receipt False (job_at r' a)) (bt_values (jr_entries r')), r'))"

section \<open>Progress of one job\<close>

definition job_update :: "job_status \<Rightarrow> string \<Rightarrow> json option \<Rightarrow> job \<Rightarrow> job" where
  "job_update status reason detail j =
     (if \<not> terminal (j_status j) \<and> j_status j \<noteq> Cancelling
      then j\<lparr>j_status := status, j_reason := reason, j_detail := detail\<rparr> else j)"

definition job_route :: "string \<Rightarrow> string \<Rightarrow> job \<Rightarrow> job" where
  "job_route model backend j = j\<lparr>j_selected_model := Some model, j_backend := Some backend\<rparr>"

text \<open>\<open>commit\<close> is what the transaction would return; it only runs when the job is not cancelled.\<close>

definition commit_result :: "(api_error + 'a) \<Rightarrow> job \<Rightarrow> (api_error + 'a) \<times> job" where
  "commit_result commit j =
     (if j_cancel j then (Inl task_cancelled, j)
      else case commit of
             Inl e \<Rightarrow> (Inl e, j)
           | Inr x \<Rightarrow> (Inr x, j\<lparr>j_committed := True\<rparr>))"

definition fits_retention_limit :: "(json \<Rightarrow> nat) \<Rightarrow> json \<Rightarrow> bool" where
  "fits_retention_limit len v \<longleftrightarrow> len v \<le> MAX_RESULT_BYTES"

definition finish_status :: "json \<Rightarrow> job_status" where
  "finish_status body =
     (let code = as_str (jindex body ''code'')
      in if code = Some ''task_cancelled'' \<or> code = Some ''session_killed'' then Cancelled
         else if code = Some ''task_deadline_exceeded'' then Expired
         else Failed)"

definition finish_reason :: "job_status \<Rightarrow> string" where
  "finish_reason s = (if s = Cancelled then ''cancelled'' else if s = Expired then ''deadline_exceeded''
     else ''failed'')"

definition result_too_large :: api_error where
  "result_too_large = with_code ''task_job_result_too_large'' (api_new 413
     ''deferred result exceeds the 2 MiB retention limit; use synchronous execution or smaller batches'')"

definition job_finish :: "(json \<Rightarrow> nat) \<Rightarrow> instant \<Rightarrow> (api_error + json) \<Rightarrow> job \<Rightarrow> job" where
  "job_finish len now outcome j =
     (let sized = (case outcome of
                     Inl e \<Rightarrow> Inl e
                   | Inr v \<Rightarrow> if fits_retention_limit len v then Inr v else Inl result_too_large);
          j1 = j\<lparr>j_finished := Some now, j_detail := None\<rparr>;
          decided = (if j_cancel j1 then Inl task_cancelled else sized)
      in case decided of
           Inr v \<Rightarrow> j1\<lparr>j_status := Completed, j_reason := ''completed'', j_result := Some v\<rparr>
         | Inl e \<Rightarrow>
             (let body = into_batch_result (j_id j1) e; status = finish_status body
              in j1\<lparr>j_status := status, j_reason := finish_reason status,
                    j_error := Some (if fits_retention_limit len body then body
                      else JObj [(''code'', JStr ''task_job_error_too_large''),
                                 (''error'', JStr ''deferred error exceeds the 2 MiB retention limit'')])\<rparr>))"

text \<open>\<open>cancel_job\<close> under the job's lock, before it waits for the worker.\<close>

definition job_cancel :: "job \<Rightarrow> job" where
  "job_cancel j =
     (if terminal (j_status j) then j
      else if \<not> j_committed j
      then j\<lparr>j_status := Cancelling, j_reason := ''cancellation_requested'', j_cancel := True\<rparr>
      else j)"

text \<open>The wait is over when the job was already terminal or its worker has signalled.\<close>

definition cancel_returns :: "job \<Rightarrow> bool" where
  "cancel_returns j \<longleftrightarrow> terminal (j_status j) \<or> j_done j"

definition job_discard :: "job \<Rightarrow> job" where
  "job_discard j = j\<lparr>j_result := None, j_error := None\<rparr>"

definition with_job :: "nat \<Rightarrow> (job \<Rightarrow> job) \<Rightarrow> registry \<Rightarrow> registry" where
  "with_job a f r = r\<lparr>jr_heap := (jr_heap r)[a := f (job_at r a)]\<rparr>"

definition job_remove :: "string \<Rightarrow> nat \<Rightarrow> registry \<Rightarrow> registry" where
  "job_remove ident a r =
     (let r' = with_job a job_discard r in r'\<lparr>jr_entries := bt_del ident (jr_entries r')\<rparr>)"

end
