(* ===== verification/Jobs_Run.thy ===== *)
theory Jobs_Run
  imports Jobs
begin

text \<open>
  Runs of the job registry: submissions, worker progress, cancellations and removals in any order,
  the invariant they keep, and the registry's guarantees.
\<close>

section \<open>Runs\<close>

datatype job_event =
    JbSubmit instant nat string task_kind priority "string option" nat nat
  | JbUpdate nat job_status string "json option"
  | JbRoute nat string string
  | JbCommit nat "api_error + unit"
  | JbFinish nat instant "api_error + json"
  | JbDone nat
  | JbLookup instant string
  | JbCancel nat
  | JbRemove string nat

text \<open>
  A worker acts on its job until it has finished it, once; a removal waits for the cancellation it
  starts with.
\<close>

definition working :: "registry \<Rightarrow> nat \<Rightarrow> bool" where
  "working r a \<longleftrightarrow> a < length (jr_heap r) \<and> j_finished (job_at r a) = None"

fun job_step :: "(json \<Rightarrow> nat) \<Rightarrow> registry \<Rightarrow> job_event \<Rightarrow> registry" where
  "job_step len r (JbSubmit now bytes ident task prio model wall timeout) =
     snd (job_submit now bytes (new_job ident task prio model wall timeout) r)"
| "job_step len r (JbUpdate a status reason detail) =
     (if working r a then with_job a (job_update status reason detail) r else r)"
| "job_step len r (JbRoute a model backend) = (if working r a then with_job a (job_route model backend) r else r)"
| "job_step len r (JbCommit a c) = (if working r a then with_job a (\<lambda>j. snd (commit_result c j)) r else r)"
| "job_step len r (JbFinish a now outcome) =
     (if working r a then with_job a (job_finish len now outcome) r else r)"
| "job_step len r (JbDone a) =
     (if a < length (jr_heap r) \<and> \<not> working r a then with_job a (\<lambda>j. j\<lparr>j_done := True\<rparr>) r else r)"
| "job_step len r (JbLookup now ident) = snd (job_lookup now ident r)"
| "job_step len r (JbCancel a) = (if a < length (jr_heap r) then with_job a job_cancel r else r)"
| "job_step len r (JbRemove ident a) =
     (if a < length (jr_heap r) \<and> j_id (job_at r a) = ident \<and> cancel_returns (job_at r a)
      then job_remove ident a r else r)"

text \<open>Workers report the intermediate states only.\<close>

fun job_event_ok :: "job_event \<Rightarrow> bool" where
  "job_event_ok (JbUpdate a status reason detail) = (\<not> terminal status \<and> status \<noteq> Cancelling)"
| "job_event_ok _ = True"

definition registry_new :: registry where
  "registry_new = \<lparr>jr_entries = [], jr_heap = []\<rparr>"

definition job_run :: "(json \<Rightarrow> nat) \<Rightarrow> job_event list \<Rightarrow> registry" where
  "job_run len es = foldl (job_step len) registry_new es"

section \<open>The invariant\<close>

definition job_ok :: "job \<Rightarrow> bool" where
  "job_ok j \<longleftrightarrow> (terminal (j_status j) \<longleftrightarrow> j_finished j \<noteq> None) \<and> \<not> (j_cancel j \<and> j_committed j) \<and>
     (j_status j = Cancelling \<longrightarrow> j_cancel j) \<and>
     (j_cancel j \<longrightarrow> j_status j = Cancelling \<or> j_status j = Cancelled) \<and>
     (j_done j \<longrightarrow> j_finished j \<noteq> None)"

definition entries_ok :: "registry \<Rightarrow> bool" where
  "entries_ok r \<longleftrightarrow> bt_wf (jr_entries r) \<and> length (jr_entries r) \<le> MAX_JOBS \<and>
     (\<forall>q \<in> set (jr_entries r). snd q < length (jr_heap r) \<and> j_id (job_at r (snd q)) = fst q)"

definition registry_inv :: "registry \<Rightarrow> bool" where
  "registry_inv r \<longleftrightarrow> entries_ok r \<and> (\<forall>j \<in> set (jr_heap r). job_ok j)"

lemma terminal_simps [simp]:
  "terminal Completed" "terminal Failed" "terminal Cancelled" "terminal Expired"
  "\<not> terminal Queued" "\<not> terminal WaitingForAdmission" "\<not> terminal WaitingForResources"
  "\<not> terminal WaitingForRunner" "\<not> terminal Loading" "\<not> terminal Running" "\<not> terminal Cancelling"
  by (simp_all add: terminal_def)

lemma with_job_frame [simp]:
  "jr_entries (with_job a f r) = jr_entries r"
  "length (jr_heap (with_job a f r)) = length (jr_heap r)"
  "a < length (jr_heap r) \<Longrightarrow> job_at (with_job a f r) b = (if b = a then f (job_at r a) else job_at r b)"
  by (auto simp: with_job_def job_at_def)

lemma with_job_inv:
  assumes "registry_inv r" "a < length (jr_heap r)"
    and "job_ok (job_at r a) \<Longrightarrow> job_ok (f (job_at r a)) \<and> j_id (f (job_at r a)) = j_id (job_at r a)"
  shows "registry_inv (with_job a f r)"
proof -
  have ok: "job_ok (job_at r a)" using assms(1,2) by (simp add: registry_inv_def job_at_def)
  have "set (jr_heap (with_job a f r)) \<subseteq> insert (f (job_at r a)) (set (jr_heap r))"
    by (simp add: with_job_def set_update_subset_insert)
  then have "\<forall>j \<in> set (jr_heap (with_job a f r)). job_ok j"
    using assms(1) assms(3) [OF ok] by (auto simp: registry_inv_def)
  moreover have "entries_ok (with_job a f r)"
    using assms(1,2) assms(3) [OF ok] by (auto simp: registry_inv_def entries_ok_def)
  ultimately show ?thesis by (simp add: registry_inv_def)
qed

lemma entries_subset_inv:
  assumes "registry_inv r" "jr_heap r' = jr_heap r" "set (jr_entries r') \<subseteq> set (jr_entries r)"
    "bt_wf (jr_entries r')" "length (jr_entries r') \<le> length (jr_entries r)"
  shows "registry_inv r'"
  using assms by (auto simp: registry_inv_def entries_ok_def job_at_def)

lemma prune_registry_inv: "registry_inv r \<Longrightarrow> registry_inv (jobs_prune now r)"
  by (rule entries_subset_inv [of r])
    (auto simp: jobs_prune_def bt_retain_def registry_inv_def entries_ok_def intro: bt_wf_filter)

lemma prune_heap [simp]: "jr_heap (jobs_prune now r) = jr_heap r" "job_at (jobs_prune now r) = job_at r"
  by (auto simp: jobs_prune_def job_at_def)

lemma bt_del_inv:
  assumes "registry_inv r"
  shows "registry_inv (r\<lparr>jr_entries := bt_del ident (jr_entries r)\<rparr>)"
proof (rule entries_subset_inv [OF assms])
  have wf: "bt_wf (jr_entries r)" using assms by (simp add: registry_inv_def entries_ok_def)
  show "set (jr_entries (r\<lparr>jr_entries := bt_del ident (jr_entries r)\<rparr>)) \<subseteq> set (jr_entries r)"
    "length (jr_entries (r\<lparr>jr_entries := bt_del ident (jr_entries r)\<rparr>)) \<le> length (jr_entries r)"
    by (auto simp: bt_del_def intro: length_filter_le)
  show "bt_wf (jr_entries (r\<lparr>jr_entries := bt_del ident (jr_entries r)\<rparr>))"
    using bt_wf_filter [OF wf] by (simp add: bt_del_def)
qed simp

lemma evict_inv: "registry_inv r \<Longrightarrow> registry_inv (evict_oldest r)"
  by (auto simp: evict_oldest_def intro: bt_del_inv split: option.split)

lemma evict_heap [simp]: "jr_heap (evict_oldest r) = jr_heap r"
  by (auto simp: evict_oldest_def split: option.split)

lemma room_inv: "registry_inv r \<Longrightarrow> registry_inv (snd (make_room now r))"
  by (auto simp: make_room_def Let_def intro: evict_inv prune_registry_inv)

lemma room_heap [simp]: "jr_heap (snd (make_room now r)) = jr_heap r"
  by (auto simp: make_room_def Let_def)

lemma new_job_ok: "job_ok (new_job ident task prio model wall timeout)"
  by (simp add: job_ok_def new_job_def)

lemma submit_inv: "registry_inv r \<Longrightarrow> job_ok j \<Longrightarrow> registry_inv (snd (job_submit now bytes j r))"
proof (cases "make_room now r")
  case (Pair res r')
  assume inv: "registry_inv r" and j: "job_ok j"
  have inv': "registry_inv r'" using room_inv [OF inv, of now] Pair by simp
  show ?thesis
  proof (cases res)
    case (Inl e)
    then show ?thesis using inv inv' Pair by (simp add: job_submit_def)
  next
    case (Inr u)
    have wf: "bt_wf (jr_entries r')" using inv' by (simp add: registry_inv_def entries_ok_def)
    have room: "length (jr_entries r') < MAX_JOBS"
      using Pair Inr by (auto simp: make_room_def Let_def split: if_splits)
    let ?a = "length (jr_heap r')"
    let ?r = "r'\<lparr>jr_entries := bt_put (j_id j) ?a (jr_entries r'), jr_heap := jr_heap r' @ [j]\<rparr>"
    have "snd q < length (jr_heap ?r) \<and> j_id (job_at ?r (snd q)) = fst q" if "q \<in> set (jr_entries ?r)" for q
    proof -
      have "q = (j_id j, ?a) \<or> q \<in> set (jr_entries r')" using that bt_set_put by fastforce
      then show ?thesis
      proof
        assume "q \<in> set (jr_entries r')"
        then have "snd q < ?a" "j_id (job_at r' (snd q)) = fst q"
          using inv' by (auto simp: registry_inv_def entries_ok_def)
        then show ?thesis by (simp add: job_at_def nth_append)
      qed (simp add: job_at_def)
    qed
    moreover have "length (jr_entries ?r) \<le> MAX_JOBS"
      using bt_length_put [OF wf, of "j_id j" ?a] room by simp
    ultimately have "registry_inv ?r"
      using inv' wf j by (simp add: registry_inv_def entries_ok_def)
    then show ?thesis using inv inv' Pair Inr by (simp add: job_submit_def)
  qed
qed

lemma update_ok:
  "job_ok j \<Longrightarrow> j_finished j = None \<Longrightarrow> \<not> terminal s \<Longrightarrow> s \<noteq> Cancelling \<Longrightarrow>
    job_ok (job_update s reason detail j) \<and> j_id (job_update s reason detail j) = j_id j"
  by (auto simp: job_ok_def job_update_def)

lemma commit_ok: "job_ok j \<Longrightarrow> job_ok (snd (commit_result c j)) \<and> j_id (snd (commit_result c j)) = j_id j"
  by (auto simp: job_ok_def commit_result_def split: sum.splits)

lemma cancelled_body: "finish_status (into_batch_result ident task_cancelled) = Cancelled"
  by (simp add: finish_status_def jindex_def batch_result_code task_cancelled_def with_code_def api_new_def)

lemma finish_status_terminal [simp]: "terminal (finish_status body)" "finish_status body \<noteq> Cancelling"
  by (auto simp: finish_status_def Let_def)

lemma finish_ok:
  "job_ok j \<Longrightarrow> job_ok (job_finish len now outcome j) \<and> j_id (job_finish len now outcome j) = j_id j"
  by (auto simp: job_ok_def job_finish_def Let_def cancelled_body split: sum.splits)

lemma cancel_ok: "job_ok j \<Longrightarrow> job_ok (job_cancel j) \<and> j_id (job_cancel j) = j_id j"
  by (auto simp: job_ok_def job_cancel_def)

lemma discard_ok: "job_ok j \<Longrightarrow> job_ok (job_discard j) \<and> j_id (job_discard j) = j_id j"
  by (auto simp: job_ok_def job_discard_def)

lemma job_step_inv: "registry_inv r \<Longrightarrow> job_event_ok e \<Longrightarrow> registry_inv (job_step len r e)"
proof (cases e)
  case (JbSubmit now bytes ident task prio model wall timeout)
  assume "registry_inv r"
  then show ?thesis unfolding JbSubmit by (simp add: submit_inv new_job_ok)
next
  case (JbUpdate a status reason detail)
  assume inv: "registry_inv r" and "job_event_ok e"
  then show ?thesis using update_ok with_job_inv [OF inv, of a]
    unfolding JbUpdate by (simp add: working_def)
next
  case (JbRoute a model backend)
  assume inv: "registry_inv r"
  show ?thesis using inv with_job_inv [OF inv, of a "job_route model backend"]
    unfolding JbRoute by (simp add: working_def job_route_def job_ok_def)
next
  case (JbCommit a c)
  assume inv: "registry_inv r"
  show ?thesis using inv commit_ok [of "job_at r a" c] with_job_inv [OF inv, of a "\<lambda>j. snd (commit_result c j)"]
    unfolding JbCommit by (simp add: working_def)
next
  case (JbFinish a now outcome)
  assume inv: "registry_inv r"
  show ?thesis using inv finish_ok with_job_inv [OF inv, of a]
    unfolding JbFinish by (simp add: working_def)
next
  case (JbDone a)
  assume inv: "registry_inv r"
  show ?thesis using inv with_job_inv [OF inv, of a "\<lambda>j. j\<lparr>j_done := True\<rparr>"]
    unfolding JbDone by (auto simp: working_def job_ok_def)
next
  case (JbLookup now ident)
  assume "registry_inv r"
  then show ?thesis unfolding JbLookup by (simp add: job_lookup_def Let_def prune_registry_inv)
next
  case (JbCancel a)
  assume inv: "registry_inv r"
  show ?thesis using inv cancel_ok with_job_inv [OF inv, of a] unfolding JbCancel by simp
next
  case (JbRemove ident a)
  assume inv: "registry_inv r"
  have inv': "a < length (jr_heap r) \<Longrightarrow> registry_inv (with_job a job_discard r)"
    using discard_ok with_job_inv [OF inv, of a job_discard] by simp
  have "a < length (jr_heap r) \<Longrightarrow> registry_inv (job_remove ident a r)"
    using bt_del_inv [OF inv'] by (simp add: job_remove_def Let_def)
  then show ?thesis using inv unfolding JbRemove by simp
qed

interpretation job_system: invariant_system "job_step len" job_event_ok registry_inv
  by unfold_locales (rule job_step_inv)

lemma registry_inv_new: "registry_inv registry_new"
  by (simp add: registry_inv_def registry_new_def entries_ok_def)

lemma job_run_inv: "list_all job_event_ok es \<Longrightarrow> registry_inv (job_run len es)"
  unfolding job_run_def by (rule job_system.run_inv [OF registry_inv_new])

section \<open>Finished jobs stay as they are\<close>

text \<open>A finished job only loses its payload, when it is removed, or gains its worker's last signal.\<close>

definition settled :: "job \<Rightarrow> job \<Rightarrow> bool" where
  "settled j j' \<longleftrightarrow> j_status j' = j_status j \<and> j_reason j' = j_reason j \<and> j_finished j' = j_finished j \<and>
     j_cancel j' = j_cancel j \<and> j_committed j' = j_committed j \<and>
     (j_result j' = j_result j \<and> j_error j' = j_error j \<or> j_result j' = None \<and> j_error j' = None)"

lemma settled_refl [simp]: "settled j j"
  by (simp add: settled_def)

lemma settled_trans: "settled a b \<Longrightarrow> settled b c \<Longrightarrow> settled a c"
  by (auto simp: settled_def)

lemma submit_heap:
  "jr_heap (snd (job_submit now bytes j r)) = jr_heap r \<or>
   jr_heap (snd (job_submit now bytes j r)) = jr_heap r @ [j]"
proof (cases "make_room now r")
  case (Pair res r')
  then have "jr_heap r' = jr_heap r" using room_heap [of now r] by simp
  then show ?thesis using Pair by (cases res) (simp_all add: job_submit_def)
qed

lemma settled_step:
  assumes "registry_inv r" "a < length (jr_heap r)" "j_finished (job_at r a) \<noteq> None"
  shows "a < length (jr_heap (job_step len r e)) \<and> settled (job_at r a) (job_at (job_step len r e) a)"
proof -
  have "terminal (j_status (job_at r a))"
    using assms by (simp add: registry_inv_def job_ok_def job_at_def)
  then have cancel: "job_cancel (job_at r a) = job_at r a" by (simp add: job_cancel_def)
  show ?thesis
  proof (cases e)
    case (JbSubmit now bytes ident task prio model wall timeout)
    show ?thesis
      using submit_heap [of now bytes "new_job ident task prio model wall timeout" r] assms(2)
      unfolding JbSubmit by (auto simp: job_at_def nth_append)
  next
    case (JbRemove ident b)
    show ?thesis using assms(2) unfolding JbRemove
      by (auto simp: job_remove_def Let_def settled_def job_discard_def job_at_def with_job_def nth_list_update)
  qed (use assms cancel in \<open>auto simp: working_def settled_def job_lookup_def Let_def\<close>)
qed

lemma settled_run:
  assumes "registry_inv r" "list_all job_event_ok es" "a < length (jr_heap r)" "j_finished (job_at r a) \<noteq> None"
  shows "settled (job_at r a) (job_at (foldl (job_step len) r es) a)"
  using assms
proof (induction es arbitrary: r)
  case Nil
  then show ?case by simp
next
  case (Cons e es)
  let ?r = "job_step len r e"
  have s: "a < length (jr_heap ?r)" "settled (job_at r a) (job_at ?r a)"
    using settled_step [of r a len e] Cons.prems by simp_all
  have "registry_inv ?r" using Cons.prems by (simp add: job_step_inv)
  moreover have "j_finished (job_at ?r a) \<noteq> None" using s(2) Cons.prems(4) by (simp add: settled_def)
  ultimately have "settled (job_at ?r a) (job_at (foldl (job_step len) ?r es) a)"
    using Cons.IH [of ?r] Cons.prems(2) s(1) by simp
  then show ?case using settled_trans [OF s(2)] by simp
qed

section \<open>Eviction\<close>

lemma prune_entries:
  "q \<in> set (jr_entries (jobs_prune now r)) \<longleftrightarrow> q \<in> set (jr_entries r) \<and>
    (case j_finished (job_at r (snd q)) of None \<Rightarrow> True | Some at \<Rightarrow> now - at < RESULT_TTL)"
  by (auto simp: jobs_prune_def bt_retain_def)

lemma finished_in:
  "(at, ident) \<in> set (finished_jobs r) \<longleftrightarrow>
    (\<exists>q \<in> set (jr_entries r). j_finished (job_at r (snd q)) = Some at \<and> j_id (job_at r (snd q)) = ident)"
  by (auto simp: finished_jobs_def split: option.splits) force+

lemma finished_None: "finished_jobs r = [] \<longleftrightarrow> (\<forall>q \<in> set (jr_entries r). j_finished (job_at r (snd q)) = None)"
proof
  assume n: "finished_jobs r = []"
  show "\<forall>q \<in> set (jr_entries r). j_finished (job_at r (snd q)) = None"
  proof (rule ballI, rule ccontr)
    fix q assume q: "q \<in> set (jr_entries r)" "j_finished (job_at r (snd q)) \<noteq> None"
    then obtain at where "j_finished (job_at r (snd q)) = Some at" by blast
    then have "(at, j_id (job_at r (snd q))) \<in> set (finished_jobs r)" using q(1) finished_in by blast
    then show False using n by simp
  qed
next
  assume "\<forall>q \<in> set (jr_entries r). j_finished (job_at r (snd q)) = None"
  then show "finished_jobs r = []" by (auto simp: finished_jobs_def)
qed

lemma entry_by_id:
  assumes "entries_ok r" "q \<in> set (jr_entries r)" "q' \<in> set (jr_entries r)" "fst q = fst q'"
  shows "q = q'"
proof -
  have "bt_wf (jr_entries r)" using assms(1) by (simp add: entries_ok_def)
  then show ?thesis using bt_wf_distinct assms(2-4) by (metis eq_key_imp_eq_value prod.collapse)
qed

text \<open>The evicted entry is a finished one, and no finished entry finished earlier.\<close>

lemma evict_entries:
  assumes "entries_ok r"
  shows "(finished_jobs r = [] \<and> evict_oldest r = r) \<or>
    (\<exists>q at. q \<in> set (jr_entries r) \<and> j_finished (job_at r (snd q)) = Some at \<and>
       set (jr_entries (evict_oldest r)) = set (jr_entries r) - {q} \<and>
       Suc (length (jr_entries (evict_oldest r))) = length (jr_entries r) \<and>
       (\<forall>q' \<in> set (jr_entries r). \<forall>at'. j_finished (job_at r (snd q')) = Some at' \<longrightarrow> at \<le> at'))"
proof (cases "min_by_key fst (finished_jobs r)")
  case None
  then show ?thesis by (simp add: evict_oldest_def)
next
  case (Some m)
  obtain at ident where m: "m = (at, ident)" by force
  obtain q where q: "q \<in> set (jr_entries r)" "j_finished (job_at r (snd q)) = Some at"
    "j_id (job_at r (snd q)) = ident"
    using min_by_key_in [OF Some] finished_in m by blast
  have key: "fst q = ident" using assms q by (simp add: entries_ok_def)
  have ev: "jr_entries (evict_oldest r) = bt_del ident (jr_entries r)" using Some m by (simp add: evict_oldest_def)
  have wf: "bt_wf (jr_entries r)" using assms by (simp add: entries_ok_def)
  have "bt_get (jr_entries r) ident = Some (snd q)"
    using bt_in_get [OF wf, of ident "snd q"] q(1) key by (metis prod.collapse)
  then have "Suc (length (bt_del ident (jr_entries r))) = length (jr_entries r)"
    by (intro bt_length_del_present [OF wf]) simp
  moreover have "set (bt_del ident (jr_entries r)) = set (jr_entries r) - {q}"
    using entry_by_id [OF assms _ q(1)] key by (auto simp: bt_del_def)
  moreover have "at \<le> at'" if "q' \<in> set (jr_entries r)" "j_finished (job_at r (snd q')) = Some at'" for q' at'
  proof -
    have "(at', j_id (job_at r (snd q'))) \<in> set (finished_jobs r)" using finished_in that by blast
    from min_by_key_le [OF Some this] show ?thesis by (simp add: m)
  qed
  ultimately show ?thesis using q ev by (intro disjI2 exI [of _ q] exI [of _ at]) auto
qed

section \<open>The guarantees of the registry\<close>

lemma make_room_entries:
  assumes "registry_inv r" "q \<in> set (jr_entries r)" "j_finished (job_at r (snd q)) = None"
  shows "q \<in> set (jr_entries (snd (make_room now r)))"
proof -
  let ?p = "jobs_prune now r"
  have p: "q \<in> set (jr_entries ?p)" using assms prune_entries by simp
  have ok: "entries_ok ?p" using prune_registry_inv [OF assms(1)] by (simp add: registry_inv_def)
  have "q \<in> set (jr_entries (evict_oldest ?p))"
    using evict_entries [OF ok] p assms(3) by auto
  then show ?thesis using p by (auto simp: make_room_def Let_def)
qed

lemma bt_put_other:
  assumes "bt_wf m" "q \<in> set m" "fst q \<noteq> k"
  shows "q \<in> set (bt_put k v m)"
proof -
  have "bt_get (bt_put k v m) (fst q) = Some (snd q)"
    using bt_in_get [OF assms(1), of "fst q" "snd q"] assms(2,3) by (simp add: bt_get_put)
  then show ?thesis using bt_get_in [of "bt_put k v m" "fst q" "snd q"] by simp
qed

lemma bt_set_put_new:
  assumes "bt_wf m" "\<forall>q \<in> set m. fst q \<noteq> k"
  shows "set (bt_put k v m) = insert (k, v) (set m)"
proof
  show "set (bt_put k v m) \<subseteq> insert (k, v) (set m)" by (rule bt_set_put)
  have "bt_get (bt_put k v m) k = Some v" by (simp add: bt_get_put)
  then show "insert (k, v) (set m) \<subseteq> set (bt_put k v m)"
    using bt_get_in [of "bt_put k v m" k v] bt_put_other [OF assms(1)] assms(2) by blast
qed

text \<open>
  Submitting never removes a task that is still pending: whatever is pruned or evicted to make
  room has finished, and the submission answers 429 when all 64 retained tasks are pending.
\<close>
theorem submit_keeps_pending_jobs:
  assumes "list_all job_event_ok es" "q \<in> set (jr_entries (job_run len es))"
    "j_finished (job_at (job_run len es) (snd q)) = None" "fst q \<noteq> j_id j"
  shows "length (jr_entries (job_run len es)) \<le> 64 \<and>
    q \<in> set (jr_entries (snd (job_submit now bytes j (job_run len es)))) \<and>
    job_at (snd (job_submit now bytes j (job_run len es))) (snd q) = job_at (job_run len es) (snd q)"
proof -
  let ?r = "job_run len es"
  have inv: "registry_inv ?r" by (rule job_run_inv [OF assms(1)])
  have len: "length (jr_entries ?r) \<le> 64" "snd q < length (jr_heap ?r)"
    using inv assms(2) by (auto simp: registry_inv_def entries_ok_def MAX_JOBS_def)
  obtain res r' where room: "make_room now ?r = (res, r')" by force
  have q: "q \<in> set (jr_entries r')" using make_room_entries [OF inv assms(2,3), of now] room by simp
  have heap: "jr_heap r' = jr_heap ?r" using room_heap [of now ?r] room by simp
  have wf: "bt_wf (jr_entries r')" using room_inv [OF inv, of now] room by (simp add: registry_inv_def entries_ok_def)
  have "q \<in> set (bt_put (j_id j) a (jr_entries r'))" for a
    by (rule bt_put_other [OF wf q assms(4)])
  then show ?thesis using len q heap room assms(2)
    by (cases res) (auto simp: job_submit_def job_at_def nth_append)
qed

theorem submit_keeps_pending_jobs_witness:
  "\<exists>r q. r = job_run (\<lambda>_. 0) [JbSubmit 5 10 ''a'' TCompletion Normal None 100 60] \<and> q \<in> set (jr_entries r) \<and>
     length (jr_entries r) \<le> 64 \<and>
     q \<in> set (jr_entries (snd (job_submit 9 20 (new_job ''b'' TCompletion Normal None 104 60) r)))"
proof -
  let ?es = "[JbSubmit 5 10 ''a'' TCompletion Normal None 100 60]"
  have run: "job_run (\<lambda>_. 0) ?es =
    \<lparr>jr_entries = [(''a'', 0)], jr_heap = [new_job ''a'' TCompletion Normal None 100 60]\<rparr>"
    by (simp add: job_run_def job_submit_def make_room_def jobs_prune_def registry_new_def MAX_INPUT_BYTES_def
        MAX_JOBS_def bt_retain_def new_job_def)
  show ?thesis
    using submit_keeps_pending_jobs [of ?es "(''a'', 0)" "\<lambda>_. 0" "new_job ''b'' TCompletion Normal None 104 60" 9 20]
    by (auto simp: run job_at_def new_job_def)
qed

text \<open>
  a submission to a full registry evicts exactly one entry, a finished one that no other
  retained entry finished before, or is refused with 429 and changes no entry when none has finished.
\<close>
theorem full_registry_evicts_oldest_finished:
  assumes "list_all job_event_ok es" "bytes \<le> MAX_INPUT_BYTES"
    and "r = jobs_prune now (job_run len es)" "length (jr_entries r) = MAX_JOBS"
    and "\<forall>q \<in> set (jr_entries r). fst q \<noteq> j_id j"
  shows "case job_submit now bytes j (job_run len es) of
      (Inl e, r') \<Rightarrow> ae_status e = 429 \<and> jr_entries r' = jr_entries r \<and>
        (\<forall>q \<in> set (jr_entries r). j_finished (job_at r (snd q)) = None)
    | (Inr a, r') \<Rightarrow> job_at r' a = j \<and>
        (\<exists>q at. q \<in> set (jr_entries r) \<and> j_finished (job_at r (snd q)) = Some at \<and>
           set (jr_entries r') = insert (j_id j, a) (set (jr_entries r) - {q}) \<and>
           (\<forall>q' \<in> set (jr_entries r). \<forall>at'. j_finished (job_at r (snd q')) = Some at' \<longrightarrow> at \<le> at'))"
proof -
  have inv: "registry_inv r" unfolding assms(3) by (rule prune_registry_inv [OF job_run_inv [OF assms(1)]])
  have ok: "entries_ok r" using inv by (simp add: registry_inv_def)
  have room: "make_room now (job_run len es) = (if MAX_JOBS \<le> length (jr_entries (evict_oldest r))
      then (Inl (with_retry_after 5 (with_code ''task_jobs_full'' (api_new 429 ''deferred task registry is full''))),
        evict_oldest r) else (Inr (), evict_oldest r))"
    using assms(3,4) by (simp add: make_room_def Let_def)
  consider (none) "finished_jobs r = []" "evict_oldest r = r"
    | (some) q at where "q \<in> set (jr_entries r)" "j_finished (job_at r (snd q)) = Some at"
       "set (jr_entries (evict_oldest r)) = set (jr_entries r) - {q}"
       "Suc (length (jr_entries (evict_oldest r))) = length (jr_entries r)"
       "\<forall>q' \<in> set (jr_entries r). \<forall>at'. j_finished (job_at r (snd q')) = Some at' \<longrightarrow> at \<le> at'"
    using evict_entries [OF ok] by blast
  then show ?thesis
  proof cases
    case none
    then show ?thesis using room assms(2,4) finished_None [of r]
      by (simp add: job_submit_def with_retry_after_def with_code_def api_new_def)
  next
    case some
    have wf: "bt_wf (jr_entries (evict_oldest r))"
      using evict_inv [OF inv] by (simp add: registry_inv_def entries_ok_def)
    have fresh: "\<forall>q \<in> set (jr_entries (evict_oldest r)). fst q \<noteq> j_id j" using some(3) assms(5) by blast
    have "set (bt_put (j_id j) a (jr_entries (evict_oldest r))) = insert (j_id j, a) (set (jr_entries r) - {q})" for a
      using bt_set_put_new [OF wf fresh, of a] some(3) by simp
    note put = this
    define r2 where "r2 = (evict_oldest r)\<lparr>jr_entries := bt_put (j_id j) (length (jr_heap r))
      (jr_entries (evict_oldest r)), jr_heap := jr_heap r @ [j]\<rparr>"
    have submit: "job_submit now bytes j (job_run len es) = (Inr (length (jr_heap r)), r2)"
      using room assms(2,4) some(4) by (simp add: job_submit_def r2_def)
    have "job_at r2 (length (jr_heap r)) = j" by (simp add: r2_def job_at_def)
    moreover have "set (jr_entries r2) = insert (j_id j, length (jr_heap r)) (set (jr_entries r) - {q})"
      by (simp add: r2_def put)
    ultimately show ?thesis using some(1,2,5) unfolding submit prod.case sum.case
      by (intro conjI exI [of _ q] exI [of _ at])
  qed
qed

text \<open>A registry filled by 64 submissions, for the concrete case.\<close>

abbreviation as :: "nat \<Rightarrow> string" where "as i \<equiv> replicate i (CHR ''a'')"

abbreviation fill :: "nat \<Rightarrow> job_event list" where
  "fill n \<equiv> map (\<lambda>i. JbSubmit 5 10 (as i) TCompletion Normal None 100 60) [0..<n]"

lemma bt_put_last: "\<forall>q \<in> set m. fst q < k \<Longrightarrow> bt_put k v m = m @ [(k, v)]"
  by (induction m) (auto simp: cmp_def)

lemma as_less: "i < j \<Longrightarrow> as i < as j"
proof (induction i arbitrary: j)
  case (Suc i)
  then show ?case by (cases j) auto
next
  case 0
  then show ?case by (cases j) auto
qed

lemma as_not_b: "as i \<noteq> ''b''"
  by (cases i) auto

lemma filled:
  "n \<le> 64 \<Longrightarrow> job_run len (fill n) =
     \<lparr>jr_entries = map (\<lambda>i. (as i, i)) [0..<n], jr_heap = map (\<lambda>i. new_job (as i) TCompletion Normal None 100 60) [0..<n]\<rparr>"
proof (induction n)
  case 0
  then show ?case by (simp add: job_run_def registry_new_def)
next
  case (Suc n)
  let ?r = "job_run len (fill n)"
  have r: "?r = \<lparr>jr_entries = map (\<lambda>i. (as i, i)) [0..<n], jr_heap = map (\<lambda>i. new_job (as i) TCompletion Normal None 100 60) [0..<n]\<rparr>"
    using Suc by simp
  have "jobs_prune 5 ?r = ?r"
    unfolding r by (auto simp: jobs_prune_def bt_retain_def job_at_def new_job_def filter_id_conv)
  then have room: "make_room 5 ?r = (Inr (), ?r)" using Suc.prems by (simp add: make_room_def r MAX_JOBS_def)
  have put: "bt_put (as n) n (map (\<lambda>i. (as i, i)) [0..<n]) = map (\<lambda>i. (as i, i)) [0..<n] @ [(as n, n)]"
    by (rule bt_put_last) (auto intro: as_less)
  have "job_run len (fill (Suc n)) = job_step len ?r (JbSubmit 5 10 (as n) TCompletion Normal None 100 60)"
    by (simp add: job_run_def)
  moreover have "j_id (new_job (as n) TCompletion Normal None 100 60) = as n" by (simp add: new_job_def)
  ultimately show ?case using room put by (simp add: job_submit_def MAX_INPUT_BYTES_def r)
qed

theorem full_registry_evicts_oldest_finished_witness:
  "\<exists>a r'. job_submit 9 20 (new_job ''b'' TCompletion Normal None 104 60)
      (job_run (\<lambda>_. 0) (fill 64 @ [JbFinish 3 7 (Inr JNull)])) = (Inr a, r') \<and>
    (''b'', a) \<in> set (jr_entries r') \<and> (''aaa'', 3) \<notin> set (jr_entries r')"
proof -
  let ?es = "fill 64 @ [JbFinish 3 7 (Inr JNull)]"
  let ?r = "job_run (\<lambda>_. 0) ?es"
  let ?p = "jobs_prune 9 ?r"
  let ?j = "new_job ''b'' TCompletion Normal None 104 60"
  define f where "f = job_finish (\<lambda>_. 0) 7 (Inr JNull) (new_job (as 3) TCompletion Normal None 100 60)"
  have f: "j_finished f = Some 7" by (simp add: f_def job_finish_def Let_def fits_retention_limit_def new_job_def)
  have r: "?r = \<lparr>jr_entries = map (\<lambda>i. (as i, i)) [0..<64],
      jr_heap = (map (\<lambda>i. new_job (as i) TCompletion Normal None 100 60) [0..<64])[3 := f]\<rparr>"
    using filled [of 64 "\<lambda>_. 0"]
    by (simp add: job_run_def working_def with_job_def job_at_def new_job_def f_def)
  have fin: "j_finished (job_at ?r i) = (if i = 3 then Some 7 else None)" if "i < 64" for i
    using that unfolding r by (simp add: job_at_def f new_job_def nth_list_update)
  have p: "?p = ?r"
    unfolding jobs_prune_def bt_retain_def using fin by (simp add: r filter_id_conv RESULT_TTL_def)
  have ok: "list_all job_event_ok ?es" by (simp add: list_all_iff)
  have len: "length (jr_entries ?r) = MAX_JOBS" by (simp add: r MAX_JOBS_def)
  have fresh: "\<forall>q \<in> set (jr_entries ?r). fst q \<noteq> j_id ?j" by (auto simp: r new_job_def as_not_b)
  have in3: "(as 3, 3) \<in> set (jr_entries ?r)" by (simp add: r)
  obtain res r' where sub: "job_submit 9 20 ?j ?r = (res, r')" by force
  note evicts = full_registry_evicts_oldest_finished [OF ok _ p [symmetric] len fresh, of 20]
  show ?thesis
  proof (cases res)
    case (Inl e)
    then show ?thesis using evicts in3 fin [of 3] by (auto simp: sub MAX_INPUT_BYTES_def)
  next
    case (Inr a)
    then obtain q at where q: "q \<in> set (jr_entries ?r)" "j_finished (job_at ?r (snd q)) = Some at"
      "set (jr_entries r') = insert (j_id ?j, a) (set (jr_entries ?r) - {q})"
      using evicts by (auto simp: sub MAX_INPUT_BYTES_def)
    have "q = (as 3, 3)" using q(1,2) fin by (auto simp: r split: if_splits)
    then show ?thesis using q(3) sub Inr by (auto simp: new_job_def numeral_3_eq_3)
  qed
qed

section \<open>Final states and cancellation\<close>

lemma flags_step:
  assumes "a < length (jr_heap r)"
  shows "a < length (jr_heap (job_step len r e)) \<and>
    (j_cancel (job_at r a) \<longrightarrow> j_cancel (job_at (job_step len r e) a)) \<and>
    (j_committed (job_at r a) \<longrightarrow> j_committed (job_at (job_step len r e) a))"
proof (cases e)
  case (JbSubmit now bytes ident task prio model wall timeout)
  show ?thesis
    using submit_heap [of now bytes "new_job ident task prio model wall timeout" r] assms
    unfolding JbSubmit by (auto simp: job_at_def nth_append)
next
  case (JbRemove ident b)
  show ?thesis using assms unfolding JbRemove
    by (auto simp: job_remove_def Let_def job_discard_def job_at_def with_job_def nth_list_update)
next
  case (JbFinish b now outcome)
  have "j_cancel (job_finish len now outcome j) = j_cancel j" "j_committed (job_finish len now outcome j) = j_committed j"
    for j by (auto simp: job_finish_def Let_def split: sum.split)
  then show ?thesis using assms unfolding JbFinish by (simp add: working_def)
next
  case (JbCommit b c)
  have "j_cancel (snd (commit_result c j)) = j_cancel j" "j_committed j \<Longrightarrow> j_committed (snd (commit_result c j))"
    for j by (auto simp: commit_result_def split: sum.split)
  then show ?thesis using assms unfolding JbCommit by (auto simp: working_def)
qed (use assms in \<open>auto simp: working_def job_update_def job_route_def job_cancel_def job_lookup_def Let_def\<close>)

lemma flags_run:
  "a < length (jr_heap r) \<Longrightarrow> a < length (jr_heap (foldl (job_step len) r es)) \<and>
    (j_cancel (job_at r a) \<longrightarrow> j_cancel (job_at (foldl (job_step len) r es) a)) \<and>
    (j_committed (job_at r a) \<longrightarrow> j_committed (job_at (foldl (job_step len) r es) a))"
proof (induction es arbitrary: r)
  case (Cons e es)
  then show ?case using flags_step [of a r len e] by auto
qed simp

lemma job_run_append: "job_run len (es @ es') = foldl (job_step len) (job_run len es) es'"
  by (simp add: job_run_def)

lemma job_run_ok: "list_all job_event_ok es \<Longrightarrow> a < length (jr_heap (job_run len es)) \<Longrightarrow>
    job_ok (job_at (job_run len es) a)"
  using job_run_inv [of es len] by (simp add: registry_inv_def job_at_def)

text \<open>
  a job that has reached a final state keeps it, with its reason, its finishing time and its
  flags, whatever happens afterwards: late worker reports, cancellations, prunings and evictions
  change nothing, and its payload is at most discarded by a removal.
\<close>
theorem terminal_is_final:
  assumes "list_all job_event_ok (es @ es')" "a < length (jr_heap (job_run len es))"
    and "terminal (j_status (job_at (job_run len es) a))"
  shows "settled (job_at (job_run len es) a) (job_at (job_run len (es @ es')) a) \<and>
    j_finished (job_at (job_run len (es @ es')) a) \<noteq> None"
proof -
  have "j_finished (job_at (job_run len es) a) \<noteq> None"
    using job_run_ok [of es a len] assms by (simp add: job_ok_def)
  then show ?thesis
    using settled_run [of "job_run len es" es' a len] job_run_inv [of es len] assms
    by (simp add: job_run_append settled_def)
qed

abbreviation one_job :: "job_event list" where
  "one_job \<equiv> [JbSubmit 5 10 ''a'' TCompletion Normal None 100 60]"

lemma one_job_run:
  "job_run len one_job = \<lparr>jr_entries = [(''a'', 0)], jr_heap = [new_job ''a'' TCompletion Normal None 100 60]\<rparr>"
  by (simp add: job_run_def job_submit_def make_room_def jobs_prune_def registry_new_def MAX_INPUT_BYTES_def
      MAX_JOBS_def bt_retain_def new_job_def)

theorem terminal_is_final_witness:
  "j_status (job_at (job_run (\<lambda>_. 0) (one_job @ [JbCancel 0, JbFinish 0 7 (Inr JNull)] @
     [JbUpdate 0 Running ''running'' None, JbRemove ''a'' 0])) 0) = Cancelled"
proof -
  let ?es = "one_job @ [JbCancel 0, JbFinish 0 7 (Inr JNull)]"
  have run: "j_status (job_at (job_run (\<lambda>_. 0) ?es) 0) = Cancelled" "0 < length (jr_heap (job_run (\<lambda>_. 0) ?es))"
    unfolding job_run_append one_job_run
    by (simp_all add: new_job_def job_cancel_def with_job_def job_at_def working_def job_finish_def Let_def cancelled_body)
  show ?thesis
    using terminal_is_final [of ?es "[JbUpdate 0 Running ''running'' None, JbRemove ''a'' 0]" 0 "\<lambda>_. 0"] run
    by (simp add: settled_def)
qed

text \<open>
  C8: cancellation and the commit of a deferred task exclude each other, in either order. Once a
  cancellation is recorded, no later commit succeeds and the job is never reported as anything but
  cancelled; once a commit is recorded, later cancellations change nothing and a result that fits
  the retention limit is reported as completed.
\<close>
theorem cancel_or_commit:
  assumes "list_all job_event_ok (es @ es')" "a < length (jr_heap (job_run len es))"
    and "j = job_at (job_run len es) a" "j' = job_at (job_run len (es @ es')) a"
  shows "(j_cancel j \<longrightarrow> \<not> j_committed j' \<and> fst (commit_result c j') = Inl task_cancelled \<and>
       j_status (job_finish len now outcome j') = Cancelled \<and> (j_status j' = Cancelling \<or> j_status j' = Cancelled))
   \<and> (j_committed j \<longrightarrow> \<not> j_cancel j' \<and> job_cancel j' = j' \<and>
       (fits_retention_limit len v \<longrightarrow> j_status (job_finish len now (Inr v) j') = Completed))"
proof -
  have j': "a < length (jr_heap (job_run len (es @ es')))" "j_cancel j \<longrightarrow> j_cancel j'" "j_committed j \<longrightarrow> j_committed j'"
    using flags_run [OF assms(2), of len es'] assms(3,4) by (simp_all add: job_run_append)
  have ok: "job_ok j'" using job_run_ok [OF assms(1) j'(1)] assms(4) by simp
  show ?thesis
  proof (intro conjI impI)
    assume "j_cancel j"
    then have c: "j_cancel j'" using j' by simp
    show "\<not> j_committed j'" "j_status j' = Cancelling \<or> j_status j' = Cancelled" "fst (commit_result c j') = Inl task_cancelled"
      using ok c by (auto simp: job_ok_def commit_result_def)
    show "j_status (job_finish len now outcome j') = Cancelled"
      using c by (simp add: job_finish_def Let_def cancelled_body)
  next
    assume "j_committed j"
    then have c: "j_committed j'" using j' by simp
    then show n: "\<not> j_cancel j'" using ok by (simp add: job_ok_def)
    show "job_cancel j' = j'" using c by (simp add: job_cancel_def)
    assume "fits_retention_limit len v"
    then show "j_status (job_finish len now (Inr v) j') = Completed"
      using n by (simp add: job_finish_def Let_def)
  qed
qed

theorem cancel_or_commit_witness:
  "let r = job_run (\<lambda>_. 0) (one_job @ [JbCommit 0 (Inr ())] @ [JbCancel 0]) in
     \<not> j_cancel (job_at r 0) \<and> j_status (job_finish (\<lambda>_. 0) 9 (Inr JNull) (job_at r 0)) = Completed"
proof -
  have run: "j_committed (job_at (job_run (\<lambda>_. 0) (one_job @ [JbCommit 0 (Inr ())])) 0)"
    "0 < length (jr_heap (job_run (\<lambda>_. 0) (one_job @ [JbCommit 0 (Inr ())])))"
    unfolding job_run_append one_job_run
    by (simp_all add: new_job_def with_job_def job_at_def working_def commit_result_def)
  show ?thesis
    using cancel_or_commit [of "one_job @ [JbCommit 0 (Inr ())]" "[JbCancel 0]" 0 "\<lambda>_. 0", OF _ _ refl refl,
        where c = "Inr ()" and now = 9 and outcome = "Inr JNull" and v = JNull] run
    by (simp add: Let_def fits_retention_limit_def)
qed

end
