(* ===== verification/Completion.thy ===== *)
theory Completion
  imports Scopes_Leases Jobs_Run Sessions
begin

text \<open>
  The end of a managed task that appends to a scope (\<open>commit_scoped_completion\<close> of
  \<open>platform/execution/mod.rs\<close>): the history store, the session table and the job registry change
  together or not at all. The three are the components of the state; the code takes the session
  lock first, then the job's, then the store's.
\<close>

record managed =
  mg_store :: scope_store
  mg_sessions :: affinity
  mg_jobs :: registry

fun scope_code :: "scope_error \<Rightarrow> string option" where
  "scope_code ScopeLimitInvalid = Some ''scope_limit_invalid''"
| "scope_code ScopeEmbeddingUnsupported = Some ''scope_embedding_unsupported''"
| "scope_code ScopeCapacityExceeded = Some ''scope_capacity_exceeded''"
| "scope_code ScopeNotFound = Some ''scope_not_found''"
| "scope_code ScopeRevisionConflict = Some ''scope_revision_conflict''"
| "scope_code ScopeReferenceInvalid = Some ''scope_reference_invalid''"
| "scope_code ScopeBusy = Some ''scope_busy''"
| "scope_code ScopeMessagesInvalid = None"
| "scope_code ScopeNeedsPrompt = None"
| "scope_code ScopeResponseInvalid = Some ''scope_response_invalid''"
| "scope_code ScopeHistoryLimit = Some ''scope_history_limit_exceeded''"
| "scope_code ScopeResultTooLarge = Some ''task_job_result_too_large''"
| "scope_code ScopeDeadlineExceeded = Some ''task_deadline_exceeded''"

text \<open>The message differs by call site and is a parameter.\<close>

definition scope_api :: "(scope_error \<Rightarrow> string) \<Rightarrow> scope_error \<Rightarrow> api_error" where
  "scope_api msg e =
     (let err = api_new (scope_status e) (msg e)
      in case scope_code e of None \<Rightarrow> err | Some code \<Rightarrow> with_code code err)"

definition abandon :: "scope_lease \<Rightarrow> managed \<Rightarrow> managed" where
  "abandon l \<sigma> = \<sigma>\<lparr>mg_store := lease_drop l (mg_store \<sigma>)\<rparr>"

text \<open>The last block: a session remembers the model its task ran on.\<close>

definition bind_session :: "instant \<Rightarrow> string option \<Rightarrow> json \<Rightarrow> affinity \<Rightarrow> affinity" where
  "bind_session now sid v a =
     (case (sid, as_str (jindex (jindex v ''route'') ''selected_model'')) of
        (Some s, Some model) \<Rightarrow> aff_bind now s model a
      | _ \<Rightarrow> a)"

text \<open>
  \<open>late\<close>: the deadline passed while waiting for the session lock. \<open>channel\<close> is the cancellation
  channel the task registered, \<open>progress\<close> the address of its job.
\<close>

definition commit_scoped_completion ::
  "(json \<Rightarrow> nat) \<Rightarrow> scope_policy \<Rightarrow> (scope_error \<Rightarrow> string) \<Rightarrow> instant \<Rightarrow> nat \<Rightarrow> bool \<Rightarrow> bool \<Rightarrow> json \<Rightarrow>
   scope_lease \<Rightarrow> string option \<Rightarrow> nat option \<Rightarrow> nat option \<Rightarrow> managed \<Rightarrow> (api_error + json) \<times> managed" where
  "commit_scoped_completion len p msg now wall late expired value l sid progress channel \<sigma> =
     (if late then (Inl (scope_api msg ScopeDeadlineExceeded), abandon l \<sigma>)
      else if (case channel of None \<Rightarrow> False | Some c \<Rightarrow> c \<in> set (af_killed (mg_sessions \<sigma>)))
      then (Inl session_killed, abandon l \<sigma>)
      else if (case progress of None \<Rightarrow> False | Some a \<Rightarrow> j_cancel (job_at (mg_jobs \<sigma>) a))
      then (Inl task_cancelled, abandon l \<sigma>)
      else (case scope_commit len p now wall expired value l (mg_store \<sigma>) of
              (Inl e, m') \<Rightarrow> (Inl (scope_api msg e), \<sigma>\<lparr>mg_store := m'\<rparr>)
            | (Inr v, m') \<Rightarrow>
                (Inr v, \<sigma>\<lparr>mg_store := m',
                   mg_sessions := bind_session now sid v (mg_sessions \<sigma>),
                   mg_jobs := (case progress of None \<Rightarrow> mg_jobs \<sigma>
                     | Some a \<Rightarrow> with_job a (\<lambda>j. snd (commit_result (Inr v) j)) (mg_jobs \<sigma>))\<rparr>)))"

text \<open>The commit under the job's lock is the registry's \<open>commit_result\<close>.\<close>

lemma completion_is_commit_result:
  assumes "\<not> late" "channel = None" "\<not> expired"
  shows "map_sum id (\<lambda>_. ()) (fst (commit_scoped_completion len p msg now wall late expired value l sid (Some a) channel \<sigma>)) =
    map_sum id (\<lambda>_. ()) (fst (commit_result (map_sum (scope_api msg) id
      (fst (scope_commit len p now wall expired value l (mg_store \<sigma>)))) (job_at (mg_jobs \<sigma>) a)))"
  using assms by (auto simp: commit_scoped_completion_def commit_result_def split: prod.split sum.split)

section \<open>All or nothing\<close>

definition same_history :: "scope_store \<Rightarrow> scope_store \<Rightarrow> bool" where
  "same_history m m' \<longleftrightarrow> (\<forall>k h'. bt_get m' k = Some h' \<longrightarrow> (\<exists>h. bt_get m k = Some h \<and>
     h_messages h' = h_messages h \<and> h_revision h' = h_revision h))"

lemma same_history_drop: "same_history m (lease_drop l m)"
  by (auto simp: same_history_def lease_drop_def split: option.splits if_splits)

lemma same_history_commit:
  assumes "bt_wf m" "scope_commit len p now wall expired result l m = (Inl e, m')"
  shows "same_history m m'"
proof -
  have "m' = lease_drop l m \<or> m' = lease_drop l (scope_prune now p m)"
    using assms(2) by (auto simp: scope_commit_def Let_def split: sum.splits prod.splits)
  then show ?thesis
    using same_history_drop [of m l] same_history_drop [of "scope_prune now p m" l] prune_get [OF assms(1), of now p]
    unfolding same_history_def by blast
qed

lemma commit_success:
  assumes "scope_commit len p now wall expired result l m = (Inr v, m')"
  shows "\<exists>a h. commit_assistant result = Inr a \<and> bt_get m' (sl_id l) = Some h \<and>
    h_messages h = sl_messages l @ [a] \<and> len v \<le> sl_budget l"
proof -
  let ?m1 = "scope_prune now p m"
  obtain cand where e: "commit_entry len p now wall expired result l ?m1 = Inr (v, cand)"
    and m': "m' = lease_drop l (bt_put (sl_id l) cand ?m1)"
    using assms by (auto simp: scope_commit_def Let_def split: sum.splits prod.splits)
  obtain h a where h: "commit_assistant result = Inr a" "cand = commit_candidate now wall (sl_messages l @ [a]) h"
    "len v \<le> sl_budget l"
    by (rule commit_entryD [OF e])
  have "m' = bt_put (sl_id l) cand ?m1" by (simp add: m' lease_drop_def h(2) commit_candidate_def)
  then show ?thesis using h by (auto simp: commit_candidate_def)
qed


abbreviation deferred_lease :: scope_lease where
  "deferred_lease \<equiv> sample_lease\<lparr>sl_budget := MAX_RESULT_BYTES\<rparr>"

abbreviation one_append :: managed where
  "one_append \<equiv> \<lparr>mg_store = [([], sample_scope 0 [] (Some ''u''))], mg_sessions = aff_new,
     mg_jobs = job_run (\<lambda>_. 3) one_job\<rparr>"


end
