(* ===== verification/Resources.thy ===== *)
theory Resources
  imports FL_F64
begin

text \<open>
  Host pressure and capacity (\<open>platform/resources/mod.rs\<close>, \<open>pressure.rs\<close>): the policy, which
  signals of a sample hold work, when a hold has recovered, and whether a demand is admissible on a
  snapshot. Durations are milliseconds. \<open>host\<close> has the fields the decisions read; the rest of a
  sample is only reported.
\<close>

section \<open>Samples and policy\<close>

datatype memory_pressure = PressureNormal | PressureWarning | PressureCritical

record host =
  ho_source :: string
  ho_total :: "nat option"
  ho_available :: "nat option"
  ho_swap_out :: "nat option"
  ho_pressure :: "memory_pressure option"
  ho_load :: "f64 option"
  ho_cpus :: "nat option"
  ho_throttled :: "bool option"
  ho_gpu_total :: "nat option"
  ho_gpu_devices :: "string list option"

datatype telemetry_policy = BestEffort | RequireMemory | RequireAll
datatype low_memory_mode = Advisory | Refuse
datatype telemetry_metric = AvailableMemory | CpuLoad | OsMemoryMetric | ThermalMetric

record resource_policy =
  rp_telemetry :: telemetry_policy
  rp_low_memory :: low_memory_mode
  rp_sample_interval :: nat
  rp_hold_percent :: nat
  rp_resume_percent :: nat
  rp_hold_min :: nat
  rp_resume_min :: nat
  rp_hold_load :: f64
  rp_resume_load :: f64
  rp_recovery_samples :: nat
  rp_first_grace :: nat

definition GIB :: nat where "GIB = 1024 * 1024 * 1024"

text \<open>The defaults on Linux.\<close>

definition policy_default :: resource_policy where
  "policy_default = \<lparr>rp_telemetry = RequireMemory, rp_low_memory = Refuse, rp_sample_interval = 2000,
     rp_hold_percent = 15, rp_resume_percent = 20, rp_hold_min = GIB, rp_resume_min = 2 * GIB,
     rp_hold_load = 0x3FF8000000000000, rp_resume_load = f_one, rp_recovery_samples = 2,
     rp_first_grace = 2000\<rparr>"

definition policy_validate :: "resource_policy \<Rightarrow> bool" where
  "policy_validate p \<longleftrightarrow>
     \<not> (rp_sample_interval p = 0 \<or> rp_resume_percent p \<le> rp_hold_percent p \<or> 100 < rp_resume_percent p \<or>
        rp_resume_min p \<le> rp_hold_min p \<or> \<not> is_finite (rp_hold_load p) \<or> \<not> is_finite (rp_resume_load p) \<or>
        f_le (rp_resume_load p) f_zero \<or> f_le (rp_hold_load p) (rp_resume_load p) \<or>
        rp_recovery_samples p = 0)"

definition reserve :: "resource_policy \<Rightarrow> nat option \<Rightarrow> bool \<Rightarrow> nat" where
  "reserve p total_bytes recovering =
     (let (percent, minimum) = (if recovering then (rp_resume_percent p, rp_resume_min p)
                                else (rp_hold_percent p, rp_hold_min p))
      in case total_bytes of None \<Rightarrow> minimum | Some bytes \<Rightarrow> max (bytes div 100 * percent) minimum)"

definition reserve_for :: "resource_policy \<Rightarrow> nat option \<Rightarrow> bool \<Rightarrow> nat \<Rightarrow> nat" where
  "reserve_for p total_bytes recovering bytes =
     (let floor_bytes = (if recovering then rp_resume_min p else rp_hold_min p)
      in min (reserve p total_bytes recovering) (max bytes floor_bytes))"

section \<open>Signals\<close>

definition has_accelerator :: "host \<Rightarrow> bool" where
  "has_accelerator h \<longleftrightarrow> ho_gpu_total h \<noteq> None \<or>
     (case ho_gpu_devices h of None \<Rightarrow> False | Some devices \<Rightarrow> devices \<noteq> [])"

definition load_per_cpu :: "host \<Rightarrow> f64 option" where
  "load_per_cpu h =
     (case ho_load h of
        None \<Rightarrow> None
      | Some load \<Rightarrow>
          if \<not> (is_finite load \<and> f_le f_zero load) then None
          else (case ho_cpus h of
                  None \<Rightarrow> None
                | Some cores \<Rightarrow> if 0 < cores then Some (f_div load (f_of_nat cores)) else None))"

definition missing_required :: "telemetry_policy \<Rightarrow> host \<Rightarrow> telemetry_metric list" where
  "missing_required policy h =
     (if policy = BestEffort then []
      else (if ho_available h = None then [AvailableMemory] else []) @
           (if policy = RequireAll
            then (if load_per_cpu h = None then [CpuLoad] else []) @
                 (if ho_source h \<noteq> ''linux_proc''
                  then (if ho_pressure h = None then [OsMemoryMetric] else []) @
                       (if ho_throttled h = None then [ThermalMetric] else [])
                  else [])
            else []))"

definition has_signal :: "host \<Rightarrow> bool" where
  "has_signal h \<longleftrightarrow> ho_available h \<noteq> None \<or> load_per_cpu h \<noteq> None \<or> ho_pressure h \<noteq> None \<or>
     ho_throttled h \<noteq> None"

datatype pressure_reason =
    LowAvailableMemory | OsMemoryPressure | HighCpuLoad | ThermalThrottling | ActiveSwapping

definition swap_grew :: "host \<Rightarrow> host option \<Rightarrow> bool option" where
  "swap_grew current previous =
     (case (ho_swap_out current, Option.bind previous ho_swap_out) of
        (Some now, Some before) \<Rightarrow> Some (before < now)
      | _ \<Rightarrow> None)"

definition below :: "resource_policy \<Rightarrow> bool \<Rightarrow> host \<Rightarrow> bool" where
  "below p recovering h \<longleftrightarrow>
     (case ho_available h of None \<Rightarrow> False | Some available \<Rightarrow> available < reserve p (ho_total h) recovering)"

definition covers :: "resource_policy \<Rightarrow> host \<Rightarrow> bool" where
  "covers p h \<longleftrightarrow>
     (case ho_available h of None \<Rightarrow> False | Some available \<Rightarrow> reserve p (ho_total h) True \<le> available)"

definition pressure_reasons :: "resource_policy \<Rightarrow> host \<Rightarrow> host option \<Rightarrow> pressure_reason list" where
  "pressure_reasons p current previous =
     (if below p False current then [LowAvailableMemory] else []) @
     (if ho_pressure current = Some PressureWarning \<or> ho_pressure current = Some PressureCritical
      then [OsMemoryPressure] else []) @
     (if (case load_per_cpu current of None \<Rightarrow> False | Some load \<Rightarrow> f_le (rp_hold_load p) load)
      then [HighCpuLoad] else []) @
     (if ho_throttled current = Some True then [ThermalThrottling] else []) @
     (if swap_grew current previous = Some True \<and> below p True current then [ActiveSwapping] else [])"

fun recovered_reason :: "resource_policy \<Rightarrow> host \<Rightarrow> host option \<Rightarrow> pressure_reason \<Rightarrow> bool" where
  "recovered_reason p current previous LowAvailableMemory = covers p current"
| "recovered_reason p current previous OsMemoryPressure = (ho_pressure current = Some PressureNormal)"
| "recovered_reason p current previous HighCpuLoad =
     (case load_per_cpu current of None \<Rightarrow> False | Some load \<Rightarrow> f_le load (rp_resume_load p))"
| "recovered_reason p current previous ThermalThrottling = (ho_throttled current = Some False)"
| "recovered_reason p current previous ActiveSwapping =
     (swap_grew current previous = Some False \<and> covers p current)"

fun reason_observed :: "host \<Rightarrow> pressure_reason \<Rightarrow> bool" where
  "reason_observed current LowAvailableMemory = (ho_available current \<noteq> None)"
| "reason_observed current ActiveSwapping = (ho_available current \<noteq> None)"
| "reason_observed current OsMemoryPressure = (ho_pressure current \<noteq> None)"
| "reason_observed current HighCpuLoad = (load_per_cpu current \<noteq> None)"
| "reason_observed current ThermalThrottling = (ho_throttled current \<noteq> None)"

section \<open>Assessing a demand\<close>

record demand =
  de_bytes :: nat
  de_resident :: bool
  de_cpu_bound :: bool

definition demand_load :: "nat \<Rightarrow> demand" where
  "demand_load bytes = \<lparr>de_bytes = bytes, de_resident = False, de_cpu_bound = False\<rparr>"

definition demand_resident :: demand where
  "demand_resident = \<lparr>de_bytes = 0, de_resident = True, de_cpu_bound = False\<rparr>"

definition on_cpu :: "bool \<Rightarrow> demand \<Rightarrow> demand" where
  "on_cpu cpu_bound d = d\<lparr>de_cpu_bound := cpu_bound\<rparr>"

definition resident_only :: "demand \<Rightarrow> bool" where
  "resident_only d \<longleftrightarrow> de_resident d \<and> de_bytes d = 0"

fun is_held_by :: "demand \<Rightarrow> bool \<Rightarrow> pressure_reason \<Rightarrow> bool" where
  "is_held_by d advisory LowAvailableMemory = (\<not> advisory \<and> \<not> resident_only d)"
| "is_held_by d advisory ActiveSwapping = (\<not> resident_only d)"
| "is_held_by d advisory HighCpuLoad = de_cpu_bound d"
| "is_held_by d advisory ThermalThrottling = (de_cpu_bound d \<or> \<not> de_resident d)"
| "is_held_by d advisory OsMemoryPressure = True"

datatype denial = HostPressure | TelemetryUnavailable | InsufficientCapacity | ArithmeticOverflow

record snapshot =
  sn_holding :: bool
  sn_reasons :: "pressure_reason list"
  sn_reserved :: nat
  sn_effective :: "nat option"
  sn_observation :: host
  sn_policy :: resource_policy

record assessment =
  as_status :: string
  as_admissible :: bool
  as_denial :: "denial option"
  as_advisory :: bool
  as_held_by :: "pressure_reason list"
  as_reserve :: nat
  as_required :: "nat option"
  as_missing :: "telemetry_metric list"

text \<open>\<open>memory_advisory\<close> has one value, so it is kept as whether it is present.\<close>

definition effective_demand :: "snapshot \<Rightarrow> demand \<Rightarrow> demand" where
  "effective_demand s d = (if has_accelerator (sn_observation s) then d else on_cpu True d)"

definition below_reserve :: "snapshot \<Rightarrow> demand \<Rightarrow> nat option \<Rightarrow> bool" where
  "below_reserve s d required \<longleftrightarrow> \<not> resident_only d \<and>
     (case (sn_effective s, required) of
        (Some available, Some r) \<Rightarrow> available < r
      | _ \<Rightarrow> False)"

definition sums_overflow :: "snapshot \<Rightarrow> nat \<Rightarrow> nat \<Rightarrow> bool" where
  "sums_overflow s bytes reserve_bytes \<longleftrightarrow>
     Option.bind (checked_add u64_max (sn_reserved s) bytes)
       (\<lambda>n. checked_add u64_max n reserve_bytes) = None"

definition denial_reason :: "snapshot \<Rightarrow> demand \<Rightarrow> bool \<Rightarrow> denial option" where
  "denial_reason s d recovering =
     (let p = sn_policy s; advisory = rp_low_memory p = Advisory;
          reserve_bytes = reserve_for p (ho_total (sn_observation s)) recovering (de_bytes d);
          required = checked_add u64_max (de_bytes d) reserve_bytes
      in if sn_holding s \<and> filter (is_held_by (effective_demand s d) advisory) (sn_reasons s) \<noteq> []
         then Some HostPressure
         else if missing_required (rp_telemetry p) (sn_observation s) \<noteq> [] then Some TelemetryUnavailable
         else if required = None \<or> sums_overflow s (de_bytes d) reserve_bytes then Some ArithmeticOverflow
         else if below_reserve s d required \<and> \<not> advisory then Some InsufficientCapacity
         else None)"

definition assess_demand :: "snapshot \<Rightarrow> demand \<Rightarrow> bool \<Rightarrow> assessment" where
  "assess_demand s d recovering =
     (let p = sn_policy s;
          reserve_bytes = reserve_for p (ho_total (sn_observation s)) recovering (de_bytes d);
          required = checked_add u64_max (de_bytes d) reserve_bytes;
          den = denial_reason s d recovering;
          advisory = (den = None \<and> below_reserve s d required)
      in \<lparr>as_status = (case den of
            Some HostPressure \<Rightarrow> ''held_host_pressure''
          | Some TelemetryUnavailable \<Rightarrow> ''held_telemetry_unavailable''
          | Some InsufficientCapacity \<Rightarrow> ''held_insufficient_capacity''
          | Some ArithmeticOverflow \<Rightarrow> ''held_arithmetic_overflow''
          | None \<Rightarrow> if advisory then ''ready_low_memory_estimate''
                    else if ho_available (sn_observation s) = None then ''ready_telemetry_unknown''
                    else ''ready''),
          as_admissible = (den = None), as_denial = den, as_advisory = advisory,
          as_held_by = filter (is_held_by (effective_demand s d) (rp_low_memory p = Advisory)) (sn_reasons s),
          as_reserve = reserve_bytes, as_required = required,
          as_missing = missing_required (rp_telemetry p) (sn_observation s)\<rparr>)"

end
