(* ===== verification/Governor.thy ===== *)
theory Governor
  imports Resources
begin

text \<open>
  The admission governor (\<open>platform/resources/governor.rs\<close>): cached samples and the holds they
  start and end, the shared reservation counter with its compare-and-exchange loop, and the wait for
  capacity. The sampler is the operating system: the sample a step observes is an argument.
\<close>

section \<open>Samples and holds\<close>

record hold =
  ph_reason :: pressure_reason
  ph_healthy :: nat
  ph_since :: instant

record sample_state =
  sm_saved :: "(instant \<times> host) option"
  sm_count :: nat
  sm_holds :: "hold list"
  sm_stale :: bool

definition MAX_UNOBSERVED_HOLD :: duration where "MAX_UNOBSERVED_HOLD = 60000"

definition sample_new :: sample_state where
  "sample_new = \<lparr>sm_saved = None, sm_count = 0, sm_holds = [], sm_stale = False\<rparr>"

definition invalidate :: "sample_state \<Rightarrow> sample_state" where
  "invalidate st = st\<lparr>sm_stale := True\<rparr>"

definition needs_sample :: "resource_policy \<Rightarrow> instant \<Rightarrow> sample_state \<Rightarrow> bool" where
  "needs_sample p now st \<longleftrightarrow> sm_stale st \<or>
     (case sm_saved st of None \<Rightarrow> True | Some (at, _) \<Rightarrow> rp_sample_interval p \<le> now - at)"

definition healthy_now ::
  "resource_policy \<Rightarrow> instant \<Rightarrow> host \<Rightarrow> host option \<Rightarrow> pressure_reason list \<Rightarrow> hold \<Rightarrow> bool" where
  "healthy_now p now observed previous triggered h \<longleftrightarrow>
     ph_reason h \<notin> set triggered \<and>
     (recovered_reason p observed previous (ph_reason h) \<or>
      (MAX_UNOBSERVED_HOLD \<le> now - ph_since h \<and> \<not> reason_observed observed (ph_reason h)))"

definition add_hold :: "instant \<Rightarrow> hold list \<Rightarrow> pressure_reason \<Rightarrow> hold list" where
  "add_hold now hs r =
     (if \<exists>h \<in> set hs. ph_reason h = r then hs
      else hs @ [\<lparr>ph_reason = r, ph_healthy = 0, ph_since = now\<rparr>])"

definition step_hold :: "pressure_reason list \<Rightarrow> hold \<Rightarrow> hold" where
  "step_hold recovered h =
     h\<lparr>ph_healthy := (if ph_reason h \<in> set recovered then sat_add u32_max (ph_healthy h) 1 else 0)\<rparr>"

definition update_holds ::
  "resource_policy \<Rightarrow> instant \<Rightarrow> host \<Rightarrow> host option \<Rightarrow> hold list \<Rightarrow> hold list" where
  "update_holds p now observed previous hs =
     (let triggered = pressure_reasons p observed previous;
          recovered = map ph_reason (filter (healthy_now p now observed previous triggered) hs);
          hs' = foldl (add_hold now) hs triggered
      in filter (\<lambda>h. ph_healthy h < rp_recovery_samples p) (map (step_hold recovered) hs'))"

definition take_sample :: "resource_policy \<Rightarrow> instant \<Rightarrow> host \<Rightarrow> sample_state \<Rightarrow> sample_state" where
  "take_sample p now observed st =
     st\<lparr>sm_holds := update_holds p now observed (map_option snd (sm_saved st)) (sm_holds st),
        sm_count := sat_add u64_max (sm_count st) 1, sm_saved := Some (now, observed)\<rparr>"

text \<open>\<open>snapshot\<close>: sample when stale, then report with the reservations of the moment.\<close>

definition refresh :: "resource_policy \<Rightarrow> instant \<Rightarrow> host \<Rightarrow> sample_state \<Rightarrow> sample_state" where
  "refresh p now observed st =
     (let st' = st\<lparr>sm_stale := False\<rparr>
      in if needs_sample p now st then take_sample p now observed st' else st')"

definition snapshot_status :: "resource_policy \<Rightarrow> host \<Rightarrow> bool \<Rightarrow> string" where
  "snapshot_status p observation holding =
     (if holding then ''holding''
      else if missing_required (rp_telemetry p) observation \<noteq> [] then ''telemetry_unavailable''
      else if has_signal observation then ''ready'' else ''unknown'')"

definition gov_snapshot ::
  "resource_policy \<Rightarrow> instant \<Rightarrow> host \<Rightarrow> nat \<Rightarrow> sample_state \<Rightarrow> snapshot option \<times> sample_state" where
  "gov_snapshot p now observed reserved_bytes st =
     (let st' = refresh p now observed st
      in (map_option (\<lambda>(_, observation).
            \<lparr>sn_holding = sm_holds st' \<noteq> [], sn_reasons = map ph_reason (sm_holds st'),
             sn_reserved = reserved_bytes,
             sn_effective = map_option (\<lambda>bytes. bytes - reserved_bytes) (ho_available observation),
             sn_observation = observation, sn_policy = p\<rparr>) (sm_saved st'), st'))"

section \<open>Reservations\<close>

datatype reservation = Fits | BelowReserve | Insufficient | NoTelemetry | Overflow

text \<open>One turn of the loop on a loaded value: an outcome, or the value to exchange for.\<close>

definition reserve_turn ::
  "resource_policy \<Rightarrow> nat \<Rightarrow> nat option \<Rightarrow> nat \<Rightarrow> nat \<Rightarrow> reservation + nat \<times> bool" where
  "reserve_turn p bytes available reserve_bytes occupied =
     (case checked_add u64_max occupied bytes of
        None \<Rightarrow> Inl Overflow
      | Some next_value \<Rightarrow>
          (case checked_add u64_max next_value reserve_bytes of
             None \<Rightarrow> Inl Overflow
           | Some required \<Rightarrow>
               let fits = (case available of None \<Rightarrow> True | Some a \<Rightarrow> required \<le> a)
               in if \<not> fits \<and> rp_low_memory p = Refuse then Inl Insufficient
                  else Inr (next_value, fits)))"

definition telemetry_refuses :: "resource_policy \<Rightarrow> nat option \<Rightarrow> bool" where
  "telemetry_refuses p available \<longleftrightarrow> available = None \<and> rp_telemetry p \<noteq> BestEffort"

text \<open>The whole call when no other thread changes the counter between the load and the exchange.\<close>

definition try_reserve ::
  "resource_policy \<Rightarrow> nat \<Rightarrow> nat option \<Rightarrow> nat \<Rightarrow> nat \<Rightarrow> reservation \<times> nat" where
  "try_reserve p bytes available reserve_bytes occupied =
     (if telemetry_refuses p available then (NoTelemetry, occupied)
      else case reserve_turn p bytes available reserve_bytes occupied of
             Inl outcome \<Rightarrow> (outcome, occupied)
           | Inr (next_value, fits) \<Rightarrow> (if fits then Fits else BelowReserve, next_value))"

text \<open>
  Threads share the counter. An attempt carries its arguments and the value it loaded last; the
  exchange succeeds when the counter still has that value and the processor does not fail it
  spuriously, and reloads otherwise. A permit holds its bytes until it is released.
\<close>

record attempt =
  at_bytes :: nat
  at_available :: "nat option"
  at_reserve :: nat
  at_occupied :: nat

record ledger =
  lg_reserved :: nat
  lg_attempts :: "attempt list"
  lg_permits :: "nat list"

datatype ledger_event =
    LgStart nat "nat option" nat
  | LgExchange nat bool
  | LgRelease nat
  | LgDrop nat

definition ledger_start :: "resource_policy \<Rightarrow> nat \<Rightarrow> nat option \<Rightarrow> nat \<Rightarrow> ledger \<Rightarrow> ledger" where
  "ledger_start p bytes available reserve_bytes g =
     (if telemetry_refuses p available then g
      else g\<lparr>lg_attempts := lg_attempts g @ [\<lparr>at_bytes = bytes, at_available = available,
                at_reserve = reserve_bytes, at_occupied = lg_reserved g\<rparr>]\<rparr>)"

definition ledger_exchange :: "resource_policy \<Rightarrow> nat \<Rightarrow> bool \<Rightarrow> ledger \<Rightarrow> reservation option \<times> ledger" where
  "ledger_exchange p i spurious g =
     (let a = lg_attempts g ! i; finished = g\<lparr>lg_attempts := remove_at i (lg_attempts g)\<rparr>
      in case reserve_turn p (at_bytes a) (at_available a) (at_reserve a) (at_occupied a) of
           Inl outcome \<Rightarrow> (Some outcome, finished)
         | Inr (next_value, fits) \<Rightarrow>
             if lg_reserved g = at_occupied a \<and> \<not> spurious
             then (Some (if fits then Fits else BelowReserve),
                   finished\<lparr>lg_reserved := next_value, lg_permits := lg_permits g @ [at_bytes a]\<rparr>)
             else (None, g\<lparr>lg_attempts := (lg_attempts g)[i := a\<lparr>at_occupied := lg_reserved g\<rparr>]\<rparr>))"

definition permit_release :: "nat \<Rightarrow> ledger \<Rightarrow> ledger" where
  "permit_release i g =
     (let bytes = lg_permits g ! i
      in g\<lparr>lg_permits := (lg_permits g)[i := 0], lg_reserved := wrapping_sub u64_max (lg_reserved g) bytes\<rparr>)"

definition permit_drop_bytes :: "nat \<Rightarrow> ledger \<Rightarrow> ledger" where
  "permit_drop_bytes i g =
     (let g' = permit_release i g in g'\<lparr>lg_permits := remove_at i (lg_permits g')\<rparr>)"

fun ledger_step :: "resource_policy \<Rightarrow> ledger \<Rightarrow> ledger_event \<Rightarrow> ledger" where
  "ledger_step p g (LgStart bytes available reserve_bytes) = ledger_start p bytes available reserve_bytes g"
| "ledger_step p g (LgExchange i spurious) =
     (if i < length (lg_attempts g) then snd (ledger_exchange p i spurious g) else g)"
| "ledger_step p g (LgRelease i) = (if i < length (lg_permits g) then permit_release i g else g)"
| "ledger_step p g (LgDrop i) = (if i < length (lg_permits g) then permit_drop_bytes i g else g)"

definition ledger_new :: ledger where
  "ledger_new = \<lparr>lg_reserved = 0, lg_attempts = [], lg_permits = []\<rparr>"

definition ledger_run :: "resource_policy \<Rightarrow> ledger_event list \<Rightarrow> ledger" where
  "ledger_run p es = foldl (ledger_step p) ledger_new es"

section \<open>Waiting for capacity\<close>

definition deny_reservation :: "reservation \<Rightarrow> assessment \<Rightarrow> assessment" where
  "deny_reservation outcome a =
     (case outcome of
        Insufficient \<Rightarrow> a\<lparr>as_admissible := False, as_status := ''held_insufficient_capacity'',
                         as_denial := Some InsufficientCapacity\<rparr>
      | NoTelemetry \<Rightarrow> a\<lparr>as_admissible := False, as_status := ''held_telemetry_unavailable'',
                        as_denial := Some TelemetryUnavailable\<rparr>
      | Overflow \<Rightarrow> a\<lparr>as_admissible := False, as_status := ''held_arithmetic_overflow'',
                     as_denial := Some ArithmeticOverflow\<rparr>
      | _ \<Rightarrow> a)"

record resource_receipt =
  rc_status :: string
  rc_required :: nat
  rc_reserved :: nat
  rc_snapshot :: "snapshot option"
  rc_assessment :: "assessment option"

text \<open>One round of the loop on a snapshot: a receipt, or the denied assessment. The counter changes
  only when bytes are reserved.\<close>

definition wait_reserve :: "snapshot \<Rightarrow> demand \<Rightarrow> assessment \<Rightarrow> nat \<Rightarrow> reservation option \<times> nat" where
  "wait_reserve s d a occupied =
     (if \<not> as_admissible a then (None, occupied)
      else if de_resident d \<and> de_bytes d = 0 then (Some Fits, occupied)
      else case try_reserve (sn_policy s) (de_bytes d) (ho_available (sn_observation s)) (as_reserve a) occupied of
             (outcome, occupied') \<Rightarrow> (Some outcome, occupied'))"

definition admit_receipt :: "snapshot \<Rightarrow> demand \<Rightarrow> reservation \<Rightarrow> assessment \<Rightarrow> resource_receipt" where
  "admit_receipt s d outcome a =
     (let a' = (if outcome = BelowReserve \<and> \<not> as_advisory a
                then a\<lparr>as_advisory := True, as_status := ''ready_low_memory_estimate''\<rparr> else a)
      in \<lparr>rc_status = (if as_advisory a' then ''admitted_low_memory_estimate''
                       else if ho_available (sn_observation s) \<noteq> None then ''admitted''
                       else ''admitted_telemetry_unknown''),
          rc_required = de_bytes d, rc_reserved = de_bytes d, rc_snapshot = Some s,
          rc_assessment = Some a'\<rparr>)"

definition wait_round ::
  "demand \<Rightarrow> bool \<Rightarrow> snapshot \<Rightarrow> nat \<Rightarrow> (assessment + resource_receipt) \<times> nat" where
  "wait_round d recovering s occupied =
     (let a = assess_demand s d recovering
      in case wait_reserve s d a occupied of
           (None, occupied') \<Rightarrow> (Inl a, occupied')
         | (Some outcome, occupied') \<Rightarrow>
             if outcome = Fits \<or> outcome = BelowReserve
             then (Inr (admit_receipt s d outcome a), occupied')
             else (Inl (deny_reservation outcome a), occupied'))"

text \<open>
  What the world shows a waiting request in each round: the snapshot (none when sampling exceeds its
  deadline), the counter, and whether the deadline has passed by the end of the round. A request that
  has used up the list is still waiting. The result is a receipt, granted or refused.
\<close>

record wait_input =
  wi_snapshot :: "snapshot option"
  wi_reserved :: nat
  wi_late :: bool

definition refused_receipt :: "demand \<Rightarrow> (snapshot \<times> assessment) option \<Rightarrow> resource_receipt" where
  "refused_receipt d seen =
     \<lparr>rc_status = ''deadline_exceeded'', rc_required = de_bytes d, rc_reserved = 0,
      rc_snapshot = map_option fst seen, rc_assessment = map_option snd seen\<rparr>"

fun wait_loop ::
  "demand \<Rightarrow> bool \<Rightarrow> (snapshot \<times> assessment) option \<Rightarrow> wait_input list \<Rightarrow>
   (resource_receipt + resource_receipt) option" where
  "wait_loop d recovering seen [] = None"
| "wait_loop d recovering seen (w # ws) =
     (case wi_snapshot w of
        None \<Rightarrow> Some (Inl (refused_receipt d seen))
      | Some s \<Rightarrow>
          (case fst (wait_round d recovering s (wi_reserved w)) of
             Inr receipt \<Rightarrow> Some (Inr receipt)
           | Inl a \<Rightarrow> if wi_late w then Some (Inl (refused_receipt d (Some (s, a))))
                      else wait_loop d True (Some (s, a)) ws))"

definition bypass_receipt :: "demand \<Rightarrow> resource_receipt" where
  "bypass_receipt d =
     \<lparr>rc_status = ''bypassed_remote'', rc_required = de_bytes d, rc_reserved = 0,
      rc_snapshot = None, rc_assessment = None\<rparr>"

definition wait_for_demand ::
  "bool \<Rightarrow> demand \<Rightarrow> wait_input list \<Rightarrow> (resource_receipt + resource_receipt) option" where
  "wait_for_demand is_loopback d ws =
     (if \<not> is_loopback then Some (Inr (bypass_receipt d)) else wait_loop d False None ws)"

end
