(* ===== verification/Governor_Run.thy ===== *)
theory Governor_Run
  imports Governor
begin

text \<open>
  What the resource governor guarantees: the hysteresis of its holds over sequences of samples, the
  ledger of reservations under every interleaving of its atomic operations, and the grants of the
  wait loop.
\<close>

section \<open>The hysteresis band\<close>

lemma reserve_band:
  assumes "policy_validate p"
  shows "reserve p total_bytes False \<le> reserve p total_bytes True"
proof -
  have "rp_hold_percent p \<le> rp_resume_percent p" "rp_hold_min p \<le> rp_resume_min p"
    using assms by (auto simp: policy_validate_def)
  then have "bytes div 100 * rp_hold_percent p \<le> bytes div 100 * rp_resume_percent p" for bytes
    by simp
  then show ?thesis using \<open>rp_hold_min p \<le> rp_resume_min p\<close>
    by (auto simp: reserve_def max.coboundedI1 max.coboundedI2 split: option.split)
qed

lemma reserve_for_band:
  assumes "policy_validate p"
  shows "reserve_for p total_bytes False bytes \<le> reserve_for p total_bytes True bytes"
proof -
  have "rp_hold_min p \<le> rp_resume_min p" using assms by (auto simp: policy_validate_def)
  then show ?thesis using reserve_band [OF assms, of total_bytes]
    by (auto simp: reserve_for_def Let_def min_def max_def)
qed

lemma load_band: "policy_validate p \<Longrightarrow> f_le (rp_hold_load p) x \<Longrightarrow> \<not> f_le x (rp_resume_load p)"
  by (auto simp: policy_validate_def f_le_def finite_not_nan)

lemma recovered_not_triggered:
  assumes "policy_validate p" "recovered_reason p current previous r"
  shows "r \<notin> set (pressure_reasons p current previous)"
proof (cases r)
  case LowAvailableMemory
  then show ?thesis
    using assms(2) reserve_band [OF assms(1), of "ho_total current"]
    by (auto simp: pressure_reasons_def below_def covers_def split: option.splits if_splits)
next
  case HighCpuLoad
  then show ?thesis using assms(2) load_band [OF assms(1)]
    by (auto simp: pressure_reasons_def split: option.splits if_splits)
qed (use assms(2) in \<open>auto simp: pressure_reasons_def split: if_splits\<close>)

text \<open>
  the thresholds that start a hold and those that end it leave a band between them: under a valid
  policy no sample both triggers a pressure reason and counts as its recovery, and the memory needed to
  recover is never less than the memory that holds.
\<close>

theorem hysteresis_band:
  assumes "policy_validate p"
  shows "\<not> (r \<in> set (pressure_reasons p current previous) \<and> recovered_reason p current previous r) \<and>
    reserve_for p total_bytes False bytes \<le> reserve_for p total_bytes True bytes"
  using recovered_not_triggered [OF assms] reserve_for_band [OF assms] by blast

abbreviation quiet_host :: host where
  "quiet_host \<equiv> \<lparr>ho_source = ''linux_proc'', ho_total = None, ho_available = Some (4 * GIB), ho_swap_out = Some 7,
     ho_pressure = None, ho_load = None, ho_cpus = None, ho_throttled = None, ho_gpu_total = None, ho_gpu_devices = None\<rparr>"

lemma policy_default_valid: "policy_validate policy_default"
  by (simp add: policy_validate_def policy_default_def GIB_def f_eval f_zero_def)

theorem hysteresis_band_witness:
  "\<not> (LowAvailableMemory \<in> set (pressure_reasons policy_default quiet_host None) \<and>
     recovered_reason policy_default quiet_host None LowAvailableMemory)"
  using hysteresis_band [OF policy_default_valid, of LowAvailableMemory quiet_host None] by blast

section \<open>Holds over a sequence of samples\<close>

definition run_samples :: "resource_policy \<Rightarrow> (instant \<times> host) list \<Rightarrow> sample_state \<Rightarrow> sample_state" where
  "run_samples p xs st = foldl (\<lambda>st (now, observed). take_sample p now observed st) st xs"

definition held :: "pressure_reason \<Rightarrow> sample_state \<Rightarrow> bool" where
  "held r st \<longleftrightarrow> (\<exists>h \<in> set (sm_holds st). ph_reason h = r)"

definition hold_inv :: "resource_policy \<Rightarrow> sample_state \<Rightarrow> bool" where
  "hold_inv p st \<longleftrightarrow> distinct (map ph_reason (sm_holds st)) \<and>
     (\<forall>h \<in> set (sm_holds st). ph_healthy h < rp_recovery_samples p)"

lemma add_holds_distinct: "distinct (map ph_reason hs) \<Longrightarrow> distinct (map ph_reason (foldl (add_hold now) hs rs))"
proof (induction rs arbitrary: hs)
  case (Cons r rs)
  then have "distinct (map ph_reason (add_hold now hs r))" by (auto simp: add_hold_def)
  then show ?case by (simp add: Cons.IH)
qed simp

lemma add_holds_old: "h \<in> set hs \<Longrightarrow> h \<in> set (foldl (add_hold now) hs rs)"
  by (induction rs arbitrary: hs) (auto simp: add_hold_def)

lemma add_holds_reasons: "ph_reason ` set (foldl (add_hold now) hs rs) = ph_reason ` set hs \<union> set rs"
proof (induction rs arbitrary: hs)
  case (Cons r rs)
  have "ph_reason ` set (add_hold now hs r) = insert r (ph_reason ` set hs)" by (auto simp: add_hold_def)
  then show ?case by (simp add: Cons.IH)
qed simp

lemma add_holds_new:
  "h \<in> set (foldl (add_hold now) hs rs) \<Longrightarrow> h \<in> set hs \<or> ph_healthy h = 0 \<and> ph_since h = now \<and> ph_reason h \<in> set rs"
proof (induction rs arbitrary: hs)
  case (Cons r rs)
  then have "h \<in> set (add_hold now hs r) \<or> ph_healthy h = 0 \<and> ph_since h = now \<and> ph_reason h \<in> set rs" by simp
  then show ?case by (auto simp: add_hold_def split: if_splits)
qed simp

lemma step_hold_reason [simp]: "ph_reason (step_hold q h) = ph_reason h" "ph_since (step_hold q h) = ph_since h"
  by (simp_all add: step_hold_def)

lemma hold_inv_sample:
  assumes "hold_inv p st"
  shows "hold_inv p (take_sample p now observed st)"
proof -
  have "distinct (map ph_reason (foldl (add_hold now) (sm_holds st) rs))" for rs
    using assms add_holds_distinct by (simp add: hold_inv_def)
  then have "distinct (map ph_reason (map (step_hold q) (foldl (add_hold now) (sm_holds st) rs)))" for q rs
    by (simp add: comp_def)
  then have "distinct (map ph_reason (filter P (map (step_hold q) (foldl (add_hold now) (sm_holds st) rs))))" for P q rs
    by (rule distinct_map_filter)
  then show ?thesis by (auto simp: hold_inv_def take_sample_def update_holds_def Let_def)
qed

lemma hold_inv_run: "hold_inv p st \<Longrightarrow> hold_inv p (run_samples p xs st)"
  unfolding run_samples_def
  by (induction xs arbitrary: st) (auto simp: hold_inv_sample)

lemma hold_unique: "hold_inv p st \<Longrightarrow> h \<in> set (sm_holds st) \<Longrightarrow> h' \<in> set (sm_holds st) \<Longrightarrow> ph_reason h = ph_reason h' \<Longrightarrow> h = h'"
  by (auto simp: hold_inv_def distinct_map inj_on_def)

text \<open>What one sample does to the hold of one reason.\<close>

definition sample_ok :: "resource_policy \<Rightarrow> instant \<Rightarrow> host \<Rightarrow> sample_state \<Rightarrow> hold \<Rightarrow> bool" where
  "sample_ok p now observed st h \<longleftrightarrow> healthy_now p now observed (map_option snd (sm_saved st))
      (pressure_reasons p observed (map_option snd (sm_saved st))) h"

definition healthy_next :: "resource_policy \<Rightarrow> instant \<Rightarrow> host \<Rightarrow> sample_state \<Rightarrow> hold \<Rightarrow> nat" where
  "healthy_next p now observed st h =
     (if sample_ok p now observed st h then sat_add u32_max (ph_healthy h) 1 else 0)"

lemma sample_hold:
  assumes "hold_inv p st" "h \<in> set (sm_holds st)"
  shows "held (ph_reason h) (take_sample p now observed st) \<longleftrightarrow>
      healthy_next p now observed st h < rp_recovery_samples p" (is ?A)
    and "healthy_next p now observed st h < rp_recovery_samples p \<Longrightarrow>
      h\<lparr>ph_healthy := healthy_next p now observed st h\<rparr> \<in> set (sm_holds (take_sample p now observed st))"
proof -
  let ?n = "healthy_next p now observed st h"
  let ?t = "pressure_reasons p observed (map_option snd (sm_saved st))"
  let ?q = "map ph_reason (filter (healthy_now p now observed (map_option snd (sm_saved st)) ?t) (sm_holds st))"
  let ?hs = "foldl (add_hold now) (sm_holds st) ?t"
  have q: "ph_reason h \<in> set ?q \<longleftrightarrow> sample_ok p now observed st h"
    using hold_unique [OF assms(1)] assms(2) by (auto simp: sample_ok_def)
  have step: "step_hold ?q h = h\<lparr>ph_healthy := ?n\<rparr>" using q by (simp add: step_hold_def healthy_next_def)
  have holds: "sm_holds (take_sample p now observed st) =
      filter (\<lambda>h. ph_healthy h < rp_recovery_samples p) (map (step_hold ?q) ?hs)"
    by (simp add: take_sample_def update_holds_def Let_def)
  have old: "h \<in> set ?hs" by (rule add_holds_old [OF assms(2)])
  have only: "h' = h" if "h' \<in> set ?hs" "ph_reason h' = ph_reason h" for h'
  proof -
    have "distinct (map ph_reason ?hs)" using assms(1) add_holds_distinct by (simp add: hold_inv_def)
    then show ?thesis using old that by (auto simp: distinct_map inj_on_def)
  qed
  have "step_hold ?q h \<in> set (map (step_hold ?q) ?hs)" using old by simp
  then have new: "?n < rp_recovery_samples p \<Longrightarrow> h\<lparr>ph_healthy := ?n\<rparr> \<in> set (sm_holds (take_sample p now observed st))"
    unfolding holds step by simp
  then show "?n < rp_recovery_samples p \<Longrightarrow> h\<lparr>ph_healthy := ?n\<rparr> \<in> set (sm_holds (take_sample p now observed st))" .
  show ?A
  proof
    assume "held (ph_reason h) (take_sample p now observed st)"
    then obtain h' where "h' \<in> set ?hs" "ph_reason h' = ph_reason h" "ph_healthy (step_hold ?q h') < rp_recovery_samples p"
      unfolding held_def holds by auto
    then show "?n < rp_recovery_samples p" using only step by force
  next
    assume "?n < rp_recovery_samples p"
    from new [OF this] show "held (ph_reason h) (take_sample p now observed st)"
      unfolding held_def by (rule bexI [rotated]) simp
  qed
qed

lemma triggered_held:
  assumes "hold_inv p st" "r \<in> set (pressure_reasons p observed (map_option snd (sm_saved st)))"
    "0 < rp_recovery_samples p"
  shows "\<exists>h \<in> set (sm_holds (take_sample p now observed st)). ph_reason h = r \<and> ph_healthy h = 0"
proof -
  let ?t = "pressure_reasons p observed (map_option snd (sm_saved st))"
  let ?q = "map ph_reason (filter (healthy_now p now observed (map_option snd (sm_saved st)) ?t) (sm_holds st))"
  let ?hs = "foldl (add_hold now) (sm_holds st) ?t"
  have "r \<in> ph_reason ` set ?hs" using assms(2) add_holds_reasons by blast
  then obtain h where h: "h \<in> set ?hs" "ph_reason h = r" by blast
  have "r \<notin> set ?q" using assms(2) by (auto simp: healthy_now_def)
  then have "ph_healthy (step_hold ?q h) = 0" "ph_reason (step_hold ?q h) = r" using h by (simp_all add: step_hold_def)
  moreover have "step_hold ?q h \<in> set (sm_holds (take_sample p now observed st))"
    using h(1) calculation(1) assms(3) by (simp add: take_sample_def update_holds_def Let_def)
  ultimately show ?thesis by blast
qed

lemma hold_outlives:
  "hold_inv p st \<Longrightarrow> h \<in> set (sm_holds st) \<Longrightarrow> length xs + ph_healthy h < rp_recovery_samples p \<Longrightarrow>
    held (ph_reason h) (run_samples p xs st)"
proof (induction xs arbitrary: st h)
  case Nil
  then show ?case by (auto simp: run_samples_def held_def)
next
  case (Cons x xs)
  obtain now observed where x: "x = (now, observed)" by force
  let ?st = "take_sample p now observed st"
  let ?n = "healthy_next p now observed st h"
  have n: "?n \<le> ph_healthy h + 1" by (simp add: healthy_next_def sat_add_def)
  have "?n < rp_recovery_samples p" using n Cons.prems(3) by simp
  then have "h\<lparr>ph_healthy := ?n\<rparr> \<in> set (sm_holds ?st)" by (rule sample_hold(2) [OF Cons.prems(1,2)])
  from Cons.IH [OF hold_inv_sample [OF Cons.prems(1)] this]
  have "held (ph_reason h) (run_samples p xs ?st)" using n Cons.prems(3) by simp
  then show ?case by (simp add: run_samples_def x)
qed

lemma hold_inv_new: "hold_inv p sample_new"
  by (simp add: hold_inv_def sample_new_def)

lemma run_samples_append: "run_samples p (xs @ ys) st = run_samples p ys (run_samples p xs st)"
  by (simp add: run_samples_def)

lemma run_samples_saved:
  "sm_saved (run_samples p xs st) = (if xs = [] then sm_saved st else Some (last xs))"
  by (induction xs arbitrary: st) (auto simp: run_samples_def take_sample_def)

lemma samples_ok_end:
  assumes "hold_inv p st" "h \<in> set (sm_holds st)" "rp_recovery_samples p \<le> u32_max"
    and "xs \<noteq> []" "length xs + ph_healthy h = rp_recovery_samples p"
    and "\<And>i h'. i < length xs \<Longrightarrow> ph_reason h' = ph_reason h \<Longrightarrow> ph_since h' = ph_since h \<Longrightarrow>
      sample_ok p (fst (xs ! i)) (snd (xs ! i)) (run_samples p (take i xs) st) h'"
  shows "\<not> held (ph_reason h) (run_samples p xs st)"
  using assms
proof (induction xs arbitrary: st h)
  case Nil
  then show ?case by simp
next
  case (Cons x xs)
  obtain now observed where x: "x = (now, observed)" by force
  let ?st = "take_sample p now observed st"
  let ?n = "healthy_next p now observed st h"
  have "sample_ok p now observed st h" using Cons.prems(6) [of 0 h] by (simp add: x run_samples_def)
  then have n: "?n = ph_healthy h + 1"
    using Cons.prems(3,5) by (simp add: healthy_next_def sat_add_exact)
  have run: "run_samples p (x # ys) st = run_samples p ys ?st" for ys by (simp add: run_samples_def x)
  show ?case
  proof (cases "xs = []")
    case True
    then have "\<not> held (ph_reason h) ?st"
      using sample_hold(1) [OF Cons.prems(1,2), of now observed] n Cons.prems(5) by simp
    then show ?thesis by (simp add: run True) (simp add: run_samples_def)
  next
    case False
    have "?n < rp_recovery_samples p" using n Cons.prems(5) False by (cases xs) auto
    then have h: "h\<lparr>ph_healthy := ?n\<rparr> \<in> set (sm_holds ?st)" by (rule sample_hold(2) [OF Cons.prems(1,2)])
    have later: "sample_ok p (fst (xs ! i)) (snd (xs ! i)) (run_samples p (take i xs) ?st) h'"
      if "i < length xs" "ph_reason h' = ph_reason h" "ph_since h' = ph_since h" for i h'
      using Cons.prems(6) [of "Suc i" h'] that by (simp add: run)
    have "\<not> held (ph_reason (h\<lparr>ph_healthy := ?n\<rparr>)) (run_samples p xs ?st)"
      by (rule Cons.IH [OF hold_inv_sample [OF Cons.prems(1)] h Cons.prems(3) False])
        (use n Cons.prems(5) later in auto)
    then show ?thesis by (simp add: run)
  qed
qed

text \<open>The sample before the next one of a sequence.\<close>

definition previous_of :: "sample_state \<Rightarrow> (instant \<times> host) list \<Rightarrow> nat \<Rightarrow> host option" where
  "previous_of st xs i = (if i = 0 then map_option snd (sm_saved st) else Some (snd (xs ! (i - 1))))"

lemma previous_of_run:
  "i < length xs \<Longrightarrow> map_option snd (sm_saved (run_samples p (take i xs) st)) = previous_of st xs i"
  by (auto simp: run_samples_saved previous_of_def last_conv_nth) (metis prod.collapse)

text \<open>
  C13: a triggered hold survives every shorter recovery. Whatever the samples before, once a sample
  triggers a pressure reason the reason is held, and it is still held after any sequence of fewer than
  \<open>recovery_samples\<close> further samples, whatever they say.
\<close>

theorem hold_survives_short_recovery:
  assumes "policy_validate p"
    and "r \<in> set (pressure_reasons p observed (map_option snd (sm_saved (run_samples p xs sample_new))))"
    and "length ys < rp_recovery_samples p"
  shows "held r (run_samples p (xs @ (now, observed) # ys) sample_new)"
proof -
  let ?st = "run_samples p xs sample_new"
  have inv: "hold_inv p ?st" by (rule hold_inv_run [OF hold_inv_new])
  have "0 < rp_recovery_samples p" using assms(3) by simp
  from triggered_held [OF inv assms(2) this, of now]
  obtain h where h: "h \<in> set (sm_holds (take_sample p now observed ?st))" "ph_reason h = r" "ph_healthy h = 0" by blast
  have "held r (run_samples p ys (take_sample p now observed ?st))"
    using hold_outlives [OF hold_inv_sample [OF inv] h(1), of ys] h(2,3) assms(3) by simp
  then show ?thesis unfolding run_samples_append by (simp add: run_samples_def)
qed

theorem hold_survives_short_recovery_witness:
  "held LowAvailableMemory (run_samples policy_default
     [(2000, quiet_host), (4000, quiet_host\<lparr>ho_available := Some 5\<rparr>), (6000, quiet_host)] sample_new)"
  using hold_survives_short_recovery [OF policy_default_valid,
      of LowAvailableMemory "quiet_host\<lparr>ho_available := Some 5\<rparr>" "[(2000, quiet_host)]" "[(6000, quiet_host)]" 4000]
  by (simp add: pressure_reasons_def below_def reserve_def policy_default_def GIB_def)

text \<open>
  a hold ends after \<open>recovery_samples\<close> consecutive recovered samples, independently of the other
  signals: if each of them shows the signal of the hold recovered, the hold is gone, whatever else
  the samples show. A hold that is at least a minute old also ends when its signal is silent in each of them.
\<close>

theorem hold_ends_after_recovery:
  assumes "policy_validate p" "rp_recovery_samples p \<le> u32_max" "length ys = rp_recovery_samples p"
    and "h \<in> set (sm_holds (run_samples p xs sample_new))" "ph_healthy h = 0"
    and "\<forall>i < length ys. recovered_reason p (snd (ys ! i)) (previous_of (run_samples p xs sample_new) ys i) (ph_reason h) \<or>
       ph_reason h \<notin> set (pressure_reasons p (snd (ys ! i)) (previous_of (run_samples p xs sample_new) ys i)) \<and>
       \<not> reason_observed (snd (ys ! i)) (ph_reason h) \<and> ph_since h + MAX_UNOBSERVED_HOLD \<le> fst (ys ! i)"
  shows "\<not> held (ph_reason h) (run_samples p (xs @ ys) sample_new)"
proof -
  let ?st = "run_samples p xs sample_new"
  have inv: "hold_inv p ?st" by (rule hold_inv_run [OF hold_inv_new])
  have "0 < rp_recovery_samples p" using inv assms(4) by (auto simp: hold_inv_def)
  then have "ys \<noteq> []" using assms(3) by auto
  have "\<not> held (ph_reason h) (run_samples p ys ?st)"
  proof (rule samples_ok_end [OF inv assms(4,2) \<open>ys \<noteq> []\<close>])
    fix i and h' :: hold assume i: "i < length ys" and h': "ph_reason h' = ph_reason h" "ph_since h' = ph_since h"
    show "sample_ok p (fst (ys ! i)) (snd (ys ! i)) (run_samples p (take i ys) ?st) h'"
      using assms(6) i h' recovered_not_triggered [OF assms(1)]
      unfolding sample_ok_def healthy_now_def previous_of_run [OF i] by fastforce
  qed (use assms in simp)
  then show ?thesis by (simp add: run_samples_append)
qed

lemma low_sample_reasons:
  "pressure_reasons policy_default (quiet_host\<lparr>ho_available := Some 5\<rparr>) None = [LowAvailableMemory]"
  by (simp add: pressure_reasons_def below_def reserve_def policy_default_def GIB_def load_per_cpu_def swap_grew_def)

lemma low_sample_holds:
  "sm_holds (run_samples policy_default [(2000, quiet_host\<lparr>ho_available := Some 5\<rparr>)] sample_new) =
     [\<lparr>ph_reason = LowAvailableMemory, ph_healthy = 0, ph_since = 2000\<rparr>]"
proof -
  have "rp_recovery_samples policy_default = 2" by (simp add: policy_default_def)
  then show ?thesis
    by (simp add: run_samples_def take_sample_def update_holds_def sample_new_def low_sample_reasons add_hold_def
        step_hold_def del: host.update_convs)
qed

theorem hold_ends_after_recovery_witness:
  "\<not> held LowAvailableMemory (run_samples policy_default
     ([(2000, quiet_host\<lparr>ho_available := Some 5\<rparr>)] @ [(4000, quiet_host), (6000, quiet_host)]) sample_new)"
proof -
  let ?h = "\<lparr>ph_reason = LowAvailableMemory, ph_healthy = 0, ph_since = 2000\<rparr>"
  have "recovered_reason policy_default quiet_host prev LowAvailableMemory" for prev
    by (simp add: covers_def reserve_def policy_default_def GIB_def)
  then have "\<forall>i < length [(4000 :: nat, quiet_host), (6000, quiet_host)].
      recovered_reason policy_default (snd ([(4000 :: nat, quiet_host), (6000, quiet_host)] ! i)) prev LowAvailableMemory" for prev
    by (simp add: less_Suc_eq)
  then show ?thesis
    using hold_ends_after_recovery [OF policy_default_valid, of "[(4000, quiet_host), (6000, quiet_host)]" ?h
        "[(2000, quiet_host\<lparr>ho_available := Some 5\<rparr>)]"] low_sample_holds
    by (simp add: policy_default_def u32_max_def less_Suc_eq)
qed

text \<open>
  a swapping hold whose paging counter is no longer reported never ends. As long as samples carry
  the available memory but no swap-out counter, neither the recovery rule, which compares two
  counters, nor the expiry of unobserved holds, which looks at the available memory only, applies,
  however much memory is free and however much time passes.
\<close>

theorem swap_hold_never_ends:
  assumes "policy_validate p" "held ActiveSwapping (run_samples p xs sample_new)"
    and "\<forall>y \<in> set ys. ho_swap_out (snd y) = None \<and> ho_available (snd y) \<noteq> None"
  shows "held ActiveSwapping (run_samples p (xs @ ys) sample_new)"
  using assms(3)
proof (induction ys rule: rev_induct)
  case Nil
  then show ?case using assms(2) by simp
next
  case (snoc y ys)
  obtain now observed where y: "y = (now, observed)" by force
  let ?st = "run_samples p (xs @ ys) sample_new"
  have inv: "hold_inv p ?st" by (rule hold_inv_run [OF hold_inv_new])
  obtain h where h: "h \<in> set (sm_holds ?st)" "ph_reason h = ActiveSwapping"
    using snoc by (auto simp: held_def)
  have "\<not> sample_ok p now observed ?st h"
    using snoc.prems h(2) y by (auto simp: sample_ok_def healthy_now_def swap_grew_def split: option.splits)
  then have "healthy_next p now observed ?st h = 0" by (simp add: healthy_next_def)
  moreover have "0 < rp_recovery_samples p" using assms(1) by (auto simp: policy_validate_def)
  ultimately have "held ActiveSwapping (take_sample p now observed ?st)"
    using sample_hold(1) [OF inv h(1), of now observed] h(2) by simp
  then show ?case
    using run_samples_append [of p "xs @ ys" "[y]" sample_new] by (simp add: y) (simp add: run_samples_def)
qed

theorem swap_hold_never_ends_witness:
  "held ActiveSwapping (run_samples policy_default
     ([(2000, quiet_host\<lparr>ho_available := Some 5\<rparr>), (4000, quiet_host\<lparr>ho_available := Some 5, ho_swap_out := Some 9\<rparr>)] @
      [(900000, quiet_host\<lparr>ho_swap_out := None\<rparr>), (902000, quiet_host\<lparr>ho_swap_out := None\<rparr>)]) sample_new)"
proof -
  have "held ActiveSwapping (run_samples policy_default
     [(2000, quiet_host\<lparr>ho_available := Some 5\<rparr>), (4000, quiet_host\<lparr>ho_available := Some 5, ho_swap_out := Some 9\<rparr>)] sample_new)"
    using triggered_held [OF hold_inv_run [OF hold_inv_new], of ActiveSwapping policy_default
        "quiet_host\<lparr>ho_available := Some 5, ho_swap_out := Some 9\<rparr>" "[(2000, quiet_host\<lparr>ho_available := Some 5\<rparr>)]" 4000]
    by (auto simp: run_samples_def held_def pressure_reasons_def below_def reserve_def policy_default_def GIB_def
        swap_grew_def take_sample_def sample_new_def)
  then show ?thesis by (rule swap_hold_never_ends [OF policy_default_valid]) simp
qed

section \<open>The reservation ledger\<close>

definition ledger_inv :: "resource_policy \<Rightarrow> ledger \<Rightarrow> bool" where
  "ledger_inv p g \<longleftrightarrow> lg_reserved g = sum_list (lg_permits g) \<and> lg_reserved g \<le> u64_max \<and>
     (\<forall>a \<in> set (lg_attempts g). \<not> telemetry_refuses p (at_available a))"

lemma reserve_turn_next:
  "reserve_turn p bytes available reserve_bytes occupied = Inr (n, fits) \<longleftrightarrow>
     n = occupied + bytes \<and> n + reserve_bytes \<le> u64_max \<and>
     fits = (case available of None \<Rightarrow> True | Some a \<Rightarrow> n + reserve_bytes \<le> a) \<and> (fits \<or> rp_low_memory p = Advisory)"
proof -
  have "rp_low_memory p \<noteq> Refuse \<longleftrightarrow> rp_low_memory p = Advisory" by (cases "rp_low_memory p") auto
  then show ?thesis
    by (auto simp: reserve_turn_def checked_add_def Let_def split: option.splits if_splits)
qed

lemma exchange_inv:
  assumes "ledger_inv p g" "i < length (lg_attempts g)"
  shows "ledger_inv p (snd (ledger_exchange p i spurious g))"
proof -
  let ?a = "lg_attempts g ! i"
  have a: "\<not> telemetry_refuses p (at_available ?a)" using assms by (simp add: ledger_inv_def)
  have rest: "\<forall>a \<in> set (remove_at i (lg_attempts g)). \<not> telemetry_refuses p (at_available a)"
    using assms(1) remove_at_set [of i "lg_attempts g"] by (auto simp: ledger_inv_def)
  show ?thesis
  proof (cases "reserve_turn p (at_bytes ?a) (at_available ?a) (at_reserve ?a) (at_occupied ?a)")
    case (Inl out)
    then show ?thesis using assms(1) rest by (simp add: ledger_exchange_def ledger_inv_def)
  next
    case (Inr q)
    obtain n fits where q: "q = (n, fits)" by force
    have n: "n = at_occupied ?a + at_bytes ?a" "n \<le> u64_max" using Inr q reserve_turn_next by auto
    have "set ((lg_attempts g)[i := ?a\<lparr>at_occupied := lg_reserved g\<rparr>]) \<subseteq>
        insert (?a\<lparr>at_occupied := lg_reserved g\<rparr>) (set (lg_attempts g))" by (rule set_update_subset_insert)
    then have upd: "\<forall>a \<in> set ((lg_attempts g)[i := ?a\<lparr>at_occupied := lg_reserved g\<rparr>]). \<not> telemetry_refuses p (at_available a)"
      using a assms(1) by (auto simp: ledger_inv_def)
    show ?thesis
      using assms(1) rest upd Inr q n by (auto simp: ledger_exchange_def ledger_inv_def Let_def)
  qed
qed

lemma release_inv:
  assumes "ledger_inv p g" "i < length (lg_permits g)"
  shows "ledger_inv p (permit_release i g)" "ledger_inv p (permit_drop_bytes i g)"
proof -
  have sum: "lg_permits g ! i + sum_list ((lg_permits g)[i := 0]) = lg_reserved g" "lg_reserved g \<le> u64_max"
    using sum_list_update_nat [OF assms(2), of 0] assms(1) by (auto simp: ledger_inv_def)
  then have "wrapping_sub u64_max (lg_reserved g) (lg_permits g ! i) = sum_list ((lg_permits g)[i := 0])"
    "sum_list ((lg_permits g)[i := 0]) \<le> u64_max"
    by (auto simp: wrapping_sub_def)
  moreover have "sum_list (remove_at i ((lg_permits g)[i := 0])) = sum_list ((lg_permits g)[i := 0])"
    using sum_list_remove_at [of i "(lg_permits g)[i := 0]"] assms(2) by simp
  ultimately show "ledger_inv p (permit_release i g)" "ledger_inv p (permit_drop_bytes i g)"
    using assms(1) by (simp_all add: ledger_inv_def permit_release_def permit_drop_bytes_def Let_def)
qed

lemma ledger_step_inv: "ledger_inv p g \<Longrightarrow> ledger_inv p (ledger_step p g e)"
proof (cases e)
  case (LgStart bytes available reserve_bytes)
  assume "ledger_inv p g"
  then show ?thesis unfolding LgStart by (auto simp: ledger_start_def ledger_inv_def)
next
  case (LgExchange i spurious)
  assume "ledger_inv p g"
  then show ?thesis unfolding LgExchange using exchange_inv by simp
qed (use release_inv in auto)

interpretation reservations: invariant_system "ledger_step p" "\<lambda>_. True" "ledger_inv p"
  by unfold_locales (rule ledger_step_inv)

lemma ledger_run_inv: "ledger_inv p (ledger_run p es)"
proof -
  have "ledger_inv p ledger_new" by (simp add: ledger_inv_def ledger_new_def)
  moreover have "list_all (\<lambda>_. True) es" by (simp add: list_all_iff)
  ultimately show ?thesis unfolding ledger_run_def by (rule reservations.run_inv)
qed

text \<open>
  C5: the shared reservation counter is exact under every interleaving of loads, exchanges, early
  releases and drops: it always equals the bytes of the live permits. An attempt that ends acts as one
  atomic reservation: success takes effect at the exchange as \<open>try_reserve\<close> would on the value of that
  moment, and a refusal changes nothing. In refusing mode a success never takes the reservations and
  the reserve past the memory that was observed as available.
\<close>

theorem reservations_exact:
  fixes p es
  defines "g \<equiv> ledger_run p es"
  assumes "i < length (lg_attempts g)" and a: "a = lg_attempts g ! i"
    and x: "ledger_exchange p i spurious g = (Some outcome, g')"
  shows "lg_reserved g = sum_list (lg_permits g) \<and> lg_reserved g' = sum_list (lg_permits g') \<and>
    (if outcome = Fits \<or> outcome = BelowReserve
     then try_reserve p (at_bytes a) (at_available a) (at_reserve a) (lg_reserved g) = (outcome, lg_reserved g') \<and>
       lg_permits g' = lg_permits g @ [at_bytes a] \<and>
       (\<forall>avail. rp_low_memory p = Refuse \<and> at_available a = Some avail \<longrightarrow>
          sum_list (lg_permits g') + at_reserve a \<le> avail)
     else lg_reserved g' = lg_reserved g \<and> lg_permits g' = lg_permits g)"
proof -
  have inv: "ledger_inv p g" unfolding g_def by (rule ledger_run_inv)
  have inv': "ledger_inv p g'" using exchange_inv [OF inv assms(2), of spurious] x by simp
  have ok: "\<not> telemetry_refuses p (at_available a)" using inv assms(2) a by (simp add: ledger_inv_def)
  show ?thesis
  proof (cases "reserve_turn p (at_bytes a) (at_available a) (at_reserve a) (at_occupied a)")
    case (Inl out)
    then have "outcome = out" "g' = g\<lparr>lg_attempts := remove_at i (lg_attempts g)\<rparr>"
      using x a by (auto simp: ledger_exchange_def Let_def)
    moreover have "out = Overflow \<or> out = Insufficient"
      using Inl by (auto simp: reserve_turn_def checked_add_def Let_def split: option.splits if_splits)
    ultimately show ?thesis using inv by (auto simp: ledger_inv_def)
  next
    case (Inr q)
    obtain n fits where q: "q = (n, fits)" by force
    have done_: "lg_reserved g = at_occupied a" "outcome = (if fits then Fits else BelowReserve)"
      "lg_reserved g' = n" "lg_permits g' = lg_permits g @ [at_bytes a]"
      using x a Inr q by (auto simp: ledger_exchange_def Let_def split: if_splits)
    have turn: "reserve_turn p (at_bytes a) (at_available a) (at_reserve a) (lg_reserved g) = Inr (n, fits)"
      using Inr q done_(1) by simp
    have "n + at_reserve a \<le> avail" if "rp_low_memory p = Refuse" "at_available a = Some avail" for avail
      using turn that unfolding reserve_turn_next by auto
    then show ?thesis using inv inv' done_ turn ok by (auto simp: try_reserve_def ledger_inv_def)
  qed
qed

theorem reservations_exact_witness:
  "lg_reserved (ledger_run policy_default [LgStart 7 (Some 20) 2, LgStart 3 (Some 20) 2, LgExchange 0 False, LgExchange 0 False]) = 7 \<and>
   fst (ledger_exchange policy_default 0 False
     (ledger_run policy_default [LgStart 7 (Some 20) 2, LgStart 3 (Some 20) 2, LgExchange 0 False, LgExchange 0 False])) = Some Fits"
proof -
  let ?es = "[LgStart 7 (Some 20) 2, LgStart 3 (Some 20) 2, LgExchange 0 False, LgExchange 0 False]"
  have run: "ledger_run policy_default ?es = \<lparr>lg_reserved = 7,
      lg_attempts = [\<lparr>at_bytes = 3, at_available = Some 20, at_reserve = 2, at_occupied = 7\<rparr>], lg_permits = [7]\<rparr>"
    by (simp add: ledger_run_def ledger_new_def ledger_start_def telemetry_refuses_def ledger_exchange_def Let_def
        reserve_turn_def checked_add_def u64_max_def remove_at_def policy_default_def)
  have x: "ledger_exchange policy_default 0 False (ledger_run policy_default ?es) =
      (Some Fits, \<lparr>lg_reserved = 10, lg_attempts = [], lg_permits = [7, 3]\<rparr>)"
    by (simp add: run ledger_exchange_def Let_def reserve_turn_def checked_add_def u64_max_def remove_at_def)
  have "0 < length (lg_attempts (ledger_run policy_default ?es))" by (simp add: run)
  from reservations_exact [OF this refl x] show ?thesis using x by (simp add: run)
qed

section \<open>Grants\<close>

lemma admit_receipt_fields [simp]:
  "rc_reserved (admit_receipt s d outcome a) = de_bytes d" "rc_snapshot (admit_receipt s d outcome a) = Some s"
  by (simp_all add: admit_receipt_def Let_def)

lemma assess_fields [simp]:
  "as_admissible (assess_demand s d recovering) \<longleftrightarrow> denial_reason s d recovering = None"
  "as_reserve (assess_demand s d recovering) =
     reserve_for (sn_policy s) (ho_total (sn_observation s)) recovering (de_bytes d)"
  by (simp_all add: assess_demand_def Let_def)

lemma wait_round_grant:
  assumes "wait_round d recovering s occupied = (Inr rc, occupied')"
  shows "denial_reason s d recovering = None \<and> rc_reserved rc = de_bytes d \<and> rc_snapshot rc = Some s \<and>
    (if resident_only d then occupied' = occupied
     else occupied' = occupied + de_bytes d \<and>
       (\<forall>avail. rp_low_memory (sn_policy s) = Refuse \<and> ho_available (sn_observation s) = Some avail \<longrightarrow>
          occupied' + reserve_for (sn_policy s) (ho_total (sn_observation s)) recovering (de_bytes d) \<le> avail))"
proof -
  let ?a = "assess_demand s d recovering"
  obtain outcome where r: "wait_reserve s d ?a occupied = (Some outcome, occupied')"
    "outcome = Fits \<or> outcome = BelowReserve" "rc = admit_receipt s d outcome ?a"
    using assms by (auto simp: wait_round_def Let_def split: prod.splits option.splits if_splits)
  have adm: "denial_reason s d recovering = None" using r(1) by (auto simp: wait_reserve_def split: if_splits)
  show ?thesis
  proof (cases "resident_only d")
    case True
    then show ?thesis using r adm by (auto simp: wait_reserve_def resident_only_def split: if_splits)
  next
    case False
    then have "try_reserve (sn_policy s) (de_bytes d) (ho_available (sn_observation s)) (as_reserve ?a) occupied =
        (outcome, occupied')"
      using r(1) adm by (auto simp: wait_reserve_def resident_only_def split: if_splits prod.splits)
    then obtain fits where "reserve_turn (sn_policy s) (de_bytes d) (ho_available (sn_observation s)) (as_reserve ?a) occupied =
        Inr (occupied', fits)"
      using r(2) by (auto simp: try_reserve_def reserve_turn_def Let_def split: if_splits sum.splits option.splits)
    then show ?thesis using False r(3) adm unfolding reserve_turn_next by auto
  qed
qed

lemma wait_loop_grant:
  "wait_loop d recovering seen ws = Some (Inr rc) \<Longrightarrow>
    \<exists>w s recovering' occupied'. w \<in> set ws \<and> wi_snapshot w = Some s \<and>
      wait_round d recovering' s (wi_reserved w) = (Inr rc, occupied')"
proof (induction ws arbitrary: recovering seen)
  case (Cons w ws)
  show ?case
  proof (cases "wi_snapshot w")
    case None
    then show ?thesis using Cons.prems by simp
  next
    case (Some s)
    obtain res occupied' where r: "wait_round d recovering s (wi_reserved w) = (res, occupied')" by force
    show ?thesis
    proof (cases res)
      case (Inl a)
      then have "wait_loop d True (Some (s, a)) ws = Some (Inr rc)"
        using Cons.prems Some r by (simp split: if_splits)
      from Cons.IH [OF this] show ?thesis by auto
    next
      case (Inr rc')
      then have "rc' = rc" using Cons.prems Some r by simp
      then show ?thesis using Inr r Some by auto
    qed
  qed
qed simp

lemma wait_loop_refusal: "wait_loop d recovering seen ws = Some (Inl rc) \<Longrightarrow> rc_reserved rc = 0"
  by (induction ws arbitrary: recovering seen) (auto simp: refused_receipt_def split: option.splits sum.splits if_splits)

text \<open>
  C10: local work is granted capacity only on an observation that allows it. A grant names the snapshot
  it rests on: no active hold applies to the demand there and the required telemetry is present; and
  in refusing mode, when the demand is more than a resident runner, the counter it left behind
  together with the reserve is within the available memory. A refusal reserves nothing.
\<close>

theorem grants_are_justified:
  assumes "wait_for_demand True d ws = Some res"
  shows "case res of
      Inl rc \<Rightarrow> rc_reserved rc = 0
    | Inr rc \<Rightarrow> rc_reserved rc = de_bytes d \<and>
        (\<exists>w s recovering. w \<in> set ws \<and> wi_snapshot w = Some s \<and> rc_snapshot rc = Some s \<and>
           (sn_holding s \<longrightarrow> (\<forall>r \<in> set (sn_reasons s).
              \<not> is_held_by (effective_demand s d) (rp_low_memory (sn_policy s) = Advisory) r)) \<and>
           missing_required (rp_telemetry (sn_policy s)) (sn_observation s) = [] \<and>
           (\<forall>avail. \<not> resident_only d \<and> rp_low_memory (sn_policy s) = Refuse \<and>
              ho_available (sn_observation s) = Some avail \<longrightarrow>
              wi_reserved w + de_bytes d +
                reserve_for (sn_policy s) (ho_total (sn_observation s)) recovering (de_bytes d) \<le> avail))"
proof (cases res)
  case (Inl rc)
  then show ?thesis using assms wait_loop_refusal by (simp add: wait_for_demand_def)
next
  case (Inr rc)
  then obtain w s recovering occupied' where w: "w \<in> set ws" "wi_snapshot w = Some s"
    and r: "wait_round d recovering s (wi_reserved w) = (Inr rc, occupied')"
    using assms wait_loop_grant [of d False None ws rc] by (auto simp: wait_for_demand_def)
  have g: "denial_reason s d recovering = None" "rc_reserved rc = de_bytes d" "rc_snapshot rc = Some s"
    "if resident_only d then occupied' = wi_reserved w else occupied' = wi_reserved w + de_bytes d \<and>
       (\<forall>avail. rp_low_memory (sn_policy s) = Refuse \<and> ho_available (sn_observation s) = Some avail \<longrightarrow>
          occupied' + reserve_for (sn_policy s) (ho_total (sn_observation s)) recovering (de_bytes d) \<le> avail)"
    using wait_round_grant [OF r] by auto
  have holds: "sn_holding s \<longrightarrow> (\<forall>r \<in> set (sn_reasons s).
      \<not> is_held_by (effective_demand s d) (rp_low_memory (sn_policy s) = Advisory) r)"
    "missing_required (rp_telemetry (sn_policy s)) (sn_observation s) = []"
    using g(1) by (auto simp: denial_reason_def Let_def filter_empty_conv split: if_splits)
  have mem: "wi_reserved w + de_bytes d + reserve_for (sn_policy s) (ho_total (sn_observation s)) recovering (de_bytes d) \<le> avail"
    if "\<not> resident_only d" "rp_low_memory (sn_policy s) = Refuse" "ho_available (sn_observation s) = Some avail" for avail
    using g(4) that by simp
  show ?thesis unfolding Inr sum.case
    by (intro conjI exI [of _ w] exI [of _ s] exI [of _ recovering]) (use w g(2,3) holds mem in blast)+
qed

text \<open>
  a runner that is already loaded is never locked out by the memory it occupies. On a host with an
  accelerator, with the required telemetry and no OS memory pressure held, a request for a resident
  GPU runner is granted at once, whatever other holds are active, and leaves the counter unchanged.
\<close>

theorem resident_runner_stays_usable:
  assumes "gov_snapshot p now observed occupied st = (Some s, st')" "\<not> held OsMemoryPressure st'"
    and "has_accelerator (sn_observation s)" "missing_required (rp_telemetry p) (sn_observation s) = []"
    and "occupied + max (rp_hold_min p) (rp_resume_min p) \<le> u64_max"
  shows "\<exists>rc. wait_round demand_resident recovering s occupied = (Inr rc, occupied) \<and> rc_reserved rc = 0"
proof -
  have s: "sn_policy s = p" "sn_reasons s = map ph_reason (sm_holds st')" "sn_reserved s = occupied"
    using assms(1) by (auto simp: gov_snapshot_def Let_def)
  have held: "\<not> is_held_by (effective_demand s demand_resident) adv r" if "r \<in> set (sn_reasons s)" for r adv
  proof -
    have "r \<noteq> OsMemoryPressure" using that assms(2) s(2) by (auto simp: held_def)
    then show ?thesis using assms(3)
      by (cases r) (auto simp: effective_demand_def demand_resident_def resident_only_def)
  qed
  have "reserve_for p total_bytes recovering 0 \<le> max (rp_hold_min p) (rp_resume_min p)" for total_bytes
    by (auto simp: reserve_for_def Let_def)
  from this [of "ho_total (sn_observation s)"]
  have "occupied + reserve_for p (ho_total (sn_observation s)) recovering 0 \<le> u64_max"
    using assms(5) by linarith
  then have "denial_reason s demand_resident recovering = None"
    using held assms(4) s by (auto simp: denial_reason_def Let_def filter_empty_conv sums_overflow_def
        checked_add_def below_reserve_def demand_resident_def resident_only_def)
  then show ?thesis
    by (simp add: wait_round_def wait_reserve_def demand_resident_def admit_receipt_def Let_def)
qed

theorem grants_are_justified_witness:
  "\<exists>s. rc_reserved (bypass_receipt (demand_load 5)) = 0 \<and>
     wait_for_demand True (demand_load GIB) [\<lparr>wi_snapshot = Some s, wi_reserved = 7, wi_late = False\<rparr>] =
       Some (Inr (admit_receipt s (demand_load GIB) Fits (assess_demand s (demand_load GIB) False))) \<and>
     sn_observation s = quiet_host \<and> (\<exists>recovering. 7 + GIB + reserve_for policy_default None recovering GIB \<le> 4 * GIB)"
proof -
  define s where "s = \<lparr>sn_holding = False, sn_reasons = [], sn_reserved = 7, sn_effective = Some (4 * GIB - 7),
    sn_observation = quiet_host, sn_policy = policy_default\<rparr>"
  let ?d = "demand_load GIB"
  let ?w = "\<lparr>wi_snapshot = Some s, wi_reserved = 7, wi_late = False\<rparr>"
  have r: "reserve_for policy_default None False GIB = GIB"
    by (simp add: reserve_for_def reserve_def policy_default_def GIB_def)
  have den: "denial_reason s ?d False = None"
    by (simp add: denial_reason_def Let_def s_def r missing_required_def sums_overflow_def checked_add_def
        below_reserve_def demand_load_def u64_max_def) (simp add: policy_default_def GIB_def)
  have "try_reserve policy_default GIB (Some (4 * GIB)) GIB 7 = (Fits, 7 + GIB)"
    by (simp add: try_reserve_def telemetry_refuses_def reserve_turn_def checked_add_def GIB_def u64_max_def)
  then have "wait_reserve s ?d (assess_demand s ?d False) 7 = (Some Fits, 7 + GIB)"
    using den by (simp add: wait_reserve_def r demand_load_def s_def)
  then have run: "wait_for_demand True ?d [?w] = Some (Inr (admit_receipt s ?d Fits (assess_demand s ?d False)))"
    by (simp add: wait_for_demand_def wait_round_def Let_def)
  have "rp_low_memory policy_default = Refuse" by (simp add: policy_default_def)
  then have "\<exists>recovering. 7 + GIB + reserve_for policy_default None recovering GIB \<le> 4 * GIB"
    using grants_are_justified [OF run] by (auto simp: s_def demand_load_def resident_only_def)
  then show ?thesis using run by (intro exI [of _ s]) (simp add: s_def bypass_receipt_def)
qed

theorem resident_runner_stays_usable_witness:
  "\<exists>s rc. fst (gov_snapshot policy_default 2000 (quiet_host\<lparr>ho_available := Some 5, ho_gpu_total := Some 9\<rparr>) 7 sample_new) = Some s \<and>
     wait_round demand_resident False s 7 = (Inr rc, 7)"
proof -
  let ?h = "quiet_host\<lparr>ho_available := Some 5, ho_gpu_total := Some 9\<rparr>"
  define st' where "st' = take_sample policy_default 2000 ?h sample_new"
  define s where "s = \<lparr>sn_holding = sm_holds st' \<noteq> [], sn_reasons = map ph_reason (sm_holds st'), sn_reserved = 7,
    sn_effective = Some (5 - 7), sn_observation = ?h, sn_policy = policy_default\<rparr>"
  have new: "sample_new\<lparr>sm_stale := False\<rparr> = sample_new" "needs_sample policy_default 2000 sample_new"
    by (simp_all add: sample_new_def needs_sample_def)
  have saved: "sm_saved st' = Some (2000, ?h)" by (simp add: st'_def take_sample_def)
  have g: "gov_snapshot policy_default 2000 ?h 7 sample_new = (Some s, st')"
    unfolding gov_snapshot_def refresh_def Let_def new(1) if_P [OF new(2)] st'_def [symmetric] saved by (simp add: s_def)
  have obs: "sn_observation s = ?h" by (simp add: s_def)
  have "pressure_reasons policy_default ?h None = [LowAvailableMemory]"
    by (simp add: pressure_reasons_def below_def reserve_def policy_default_def GIB_def load_per_cpu_def swap_grew_def)
  then have "\<not> held OsMemoryPressure st'"
    by (simp add: st'_def held_def take_sample_def update_holds_def Let_def sample_new_def add_hold_def step_hold_def
        del: host.update_convs)
  moreover have "has_accelerator (sn_observation s)" by (simp add: obs has_accelerator_def)
  moreover have "missing_required (rp_telemetry policy_default) (sn_observation s) = []"
    by (simp add: obs missing_required_def policy_default_def)
  moreover have "7 + max (rp_hold_min policy_default) (rp_resume_min policy_default) \<le> u64_max"
    by (simp add: policy_default_def GIB_def u64_max_def)
  ultimately show ?thesis using resident_runner_stays_usable [OF g] g by fastforce
qed

end
