(* ===== verification/FL_Text.thy ===== *)
theory FL_Text
  imports FL_F64
begin

text \<open>
  The functions of Rust's standard library on strings that the code uses. A string is the list of
  its UTF-8 bytes, so \<open>length\<close> is \<open>str::len\<close>.
\<close>

section \<open>White space\<close>

text \<open>The encodings of the characters with the Unicode property \<open>White_Space\<close>.\<close>

definition white_space :: "string list" where
  "white_space =
     map (\<lambda>c. [c]) [CHR 0x09, CHR 0x0A, CHR 0x0B, CHR 0x0C, CHR 0x0D, CHR 0x20] @
     [[CHR 0xC2, CHR 0x85], [CHR 0xC2, CHR 0xA0], [CHR 0xE1, CHR 0x9A, CHR 0x80]] @
     map (\<lambda>c. [CHR 0xE2, CHR 0x80, c])
       [CHR 0x80, CHR 0x81, CHR 0x82, CHR 0x83, CHR 0x84, CHR 0x85, CHR 0x86, CHR 0x87, CHR 0x88,
        CHR 0x89, CHR 0x8A, CHR 0xA8, CHR 0xA9, CHR 0xAF] @
     [[CHR 0xE2, CHR 0x81, CHR 0x9F], [CHR 0xE3, CHR 0x80, CHR 0x80]]"

fun starts_with :: "string \<Rightarrow> string \<Rightarrow> bool" where
  "starts_with s [] = True"
| "starts_with (c # cs) (p # ps) = (c = p \<and> starts_with cs ps)"
| "starts_with [] (p # ps) = False"

fun contains_text :: "string \<Rightarrow> string \<Rightarrow> bool" where
  "contains_text s [] = starts_with [] s"
| "contains_text s (c # cs) = (starts_with (c # cs) s \<or> contains_text s cs)"

function strip_any :: "string list \<Rightarrow> string \<Rightarrow> string" where
  "strip_any ws s =
     (case List.find (\<lambda>w. w \<noteq> [] \<and> starts_with s w) ws of
        None \<Rightarrow> s
      | Some w \<Rightarrow> strip_any ws (drop (length w) s))"
  by pat_completeness auto
termination
proof (relation "measure (\<lambda>(ws, s). length s)")
  show "wf (measure (\<lambda>(ws :: string list, s :: string). length s))" by simp
next
  fix ws s w
  assume "List.find (\<lambda>w. w \<noteq> [] \<and> starts_with s w) ws = Some w"
  then have "w \<noteq> [] \<and> starts_with s w" by (auto simp: find_Some_iff)
  then have "0 < length w \<and> s \<noteq> []" by (cases s; cases w) auto
  then show "((ws, drop (length w) s), ws, s) \<in> measure (\<lambda>(ws, s). length s)" by simp
qed

declare strip_any.simps [simp del]

definition trim_start :: "string \<Rightarrow> string" where "trim_start s = strip_any white_space s"

definition trim_end :: "string \<Rightarrow> string" where
  "trim_end s = rev (strip_any (map rev white_space) (rev s))"

definition str_trim :: "string \<Rightarrow> string" where
  "str_trim s = trim_end (trim_start s)"

section \<open>Numbers\<close>

definition digit_value :: "char \<Rightarrow> nat option" where
  "digit_value c = position (\<lambda>d. d = c) ''0123456789''"

text \<open>\<open>str::parse\<close> of an unsigned type: an optional plus sign, then digits within the width.\<close>

fun parse_digits :: "nat \<Rightarrow> nat \<Rightarrow> string \<Rightarrow> nat option" where
  "parse_digits bound acc [] = Some acc"
| "parse_digits bound acc (c # cs) =
     (case digit_value c of
        None \<Rightarrow> None
      | Some d \<Rightarrow> if bound < acc * 10 + d then None else parse_digits bound (acc * 10 + d) cs)"

definition parse_unsigned :: "nat \<Rightarrow> string \<Rightarrow> nat option" where
  "parse_unsigned bound s =
     (let digits = (case s of c # cs \<Rightarrow> if c = CHR ''+'' then cs else s | [] \<Rightarrow> [])
      in if digits = [] then None else parse_digits bound 0 digits)"

definition parse_u64 :: "string \<Rightarrow> nat option" where "parse_u64 = parse_unsigned u64_max"
definition parse_usize :: "string \<Rightarrow> nat option" where "parse_usize = parse_unsigned usize_max"

lemma parse_digits_bound: "parse_digits bound acc s = Some n \<Longrightarrow> acc \<le> bound \<Longrightarrow> n \<le> bound"
  by (induction bound acc s rule: parse_digits.induct) (auto split: option.splits if_splits)

lemma parse_unsigned_bound: "parse_unsigned bound s = Some n \<Longrightarrow> n \<le> bound"
  by (auto simp: parse_unsigned_def Let_def split: if_splits dest: parse_digits_bound)

text \<open>\<open>Display\<close> of an unsigned number, which parses back within the width.\<close>

fun show_nat :: "nat \<Rightarrow> string" where
  "show_nat n = (if n < 10 then [''0123456789'' ! n] else show_nat (n div 10) @ [''0123456789'' ! (n mod 10)])"

declare show_nat.simps [simp del]

lemma digit_value_digit: "d < 10 \<Longrightarrow> digit_value (''0123456789'' ! d) = Some d"
proof -
  have "list_all (\<lambda>d. digit_value (''0123456789'' ! d) = Some d) [0..<10]"
    by (simp add: upt_rec digit_value_def)
  moreover assume "d < 10"
  ultimately show ?thesis by (simp add: list_all_iff)
qed

lemma parse_digits_append:
  "parse_digits bound acc (xs @ ys) =
     (case parse_digits bound acc xs of None \<Rightarrow> None | Some n \<Rightarrow> parse_digits bound n ys)"
  by (induction bound acc xs rule: parse_digits.induct) (auto split: option.split)

lemma show_nat_digits: "c \<in> set (show_nat n) \<Longrightarrow> c \<in> set ''0123456789''"
proof (induction n rule: show_nat.induct)
  case (1 n)
  have "''0123456789'' ! (n mod 10) \<in> set ''0123456789''" by (rule nth_mem) simp
  then show ?case using 1 by (subst (asm) show_nat.simps) (auto split: if_splits simp del: nth_Cons_numeral)
qed

lemma show_nat_nonempty [simp]: "show_nat n \<noteq> []"
  by (subst show_nat.simps) simp

lemma parse_show_nat: "n \<le> bound \<Longrightarrow> parse_digits bound 0 (show_nat n) = Some n"
proof (induction n rule: show_nat.induct)
  case (1 n)
  show ?case
  proof (cases "n < 10")
    case True
    then have "show_nat n = [''0123456789'' ! n]" by (subst show_nat.simps) simp
    then show ?thesis using digit_value_digit [OF True] 1(2) by (simp del: nth_Cons_numeral)
  next
    case False
    then have "show_nat n = show_nat (n div 10) @ [''0123456789'' ! (n mod 10)]" by (subst show_nat.simps) simp
    moreover have "parse_digits bound 0 (show_nat (n div 10)) = Some (n div 10)"
      using 1 False by (simp add: div_le_dividend le_trans)
    moreover have "n div 10 * 10 + n mod 10 = n" by simp
    ultimately show ?thesis
      using digit_value_digit [of "n mod 10"] 1(2) by (simp add: parse_digits_append del: nth_Cons_numeral)
  qed
qed

definition ascii_lower :: "string \<Rightarrow> string" where
  "ascii_lower =
     map (\<lambda>c. case map_of (zip ''ABCDEFGHIJKLMNOPQRSTUVWXYZ'' ''abcdefghijklmnopqrstuvwxyz'') c of
                Some l \<Rightarrow> l | None \<Rightarrow> c)"

text \<open>
  \<open>str::parse::<f64>\<close>: a sign, then digits with an optional point and exponent, or a name of
  infinity or of a NaN. The exponent saturates as in the standard library.
\<close>

fun span_digits :: "string \<Rightarrow> nat \<Rightarrow> nat \<Rightarrow> nat \<times> nat \<times> string" where
  "span_digits (c # cs) acc n =
     (case digit_value c of Some d \<Rightarrow> span_digits cs (acc * 10 + d) (n + 1) | None \<Rightarrow> (acc, n, c # cs))"
| "span_digits [] acc n = (acc, n, [])"

fun span_exponent :: "string \<Rightarrow> nat \<Rightarrow> nat \<Rightarrow> nat \<times> nat \<times> string" where
  "span_exponent (c # cs) acc n =
     (case digit_value c of
        Some d \<Rightarrow> span_exponent cs (if acc < 65536 then acc * 10 + d else acc) (n + 1)
      | None \<Rightarrow> (acc, n, c # cs))"
| "span_exponent [] acc n = (acc, n, [])"

definition split_sign :: "string \<Rightarrow> bool \<times> string" where
  "split_sign s =
     (case s of c # cs \<Rightarrow> if c = CHR ''-'' then (True, cs) else if c = CHR ''+'' then (False, cs) else (False, s)
      | [] \<Rightarrow> (False, []))"

definition parse_exponent :: "string \<Rightarrow> int option" where
  "parse_exponent s =
     (case s of
        [] \<Rightarrow> Some 0
      | c # cs \<Rightarrow>
          if c \<noteq> CHR ''e'' \<and> c \<noteq> CHR ''E'' then None
          else let (neg, rest) = split_sign cs; (e, n, left) = span_exponent rest 0 0
               in if n = 0 \<or> left \<noteq> [] then None else Some (if neg then - int e else int e))"

definition f_of_ratio :: "bool \<Rightarrow> nat \<Rightarrow> nat \<Rightarrow> f64" where
  "f_of_ratio neg num den =
     f_make neg (f_round (num * 2 ^ (bit_len den + 64)) den (- int (bit_len den + 64)))"

definition f_of_decimal :: "bool \<Rightarrow> nat \<Rightarrow> int \<Rightarrow> f64" where
  "f_of_decimal neg mant e =
     (if mant = 0 then f_make neg 0
      else if 0 \<le> e then f_make neg (f_round (mant * 10 ^ nat e) 1 0)
      else f_of_ratio neg mant (10 ^ nat (- e)))"

definition parse_f64 :: "string \<Rightarrow> f64 option" where
  "parse_f64 s =
     (let (neg, body) = split_sign s;
          (whole, n, rest) = span_digits body 0 0;
          (mant, m, left) = (case rest of
                               c # cs \<Rightarrow> if c = CHR ''.'' then span_digits cs whole 0 else (whole, 0, rest)
                             | [] \<Rightarrow> (whole, 0, []))
      in if n + m = 0
         then (if ascii_lower body \<in> {''inf'', ''infinity''} then Some (f_make neg f_inf_mag)
               else if ascii_lower body = ''nan'' then Some f_nan
               else None)
         else map_option (\<lambda>e. f_of_decimal neg mant (e - int m)) (parse_exponent left))"

lemma text_examples:
  "str_trim '' 42 '' = ''42''"
  "str_trim [CHR 0xE3, CHR 0x80, CHR 0x80, CHR ''x'', CHR 0xC2, CHR 0xA0] = ''x''"
  "parse_u64 ''18446744073709551616'' = None"
  "parse_u64 ''+7'' = Some 7"
  by (simp_all add: str_trim_def trim_start_def trim_end_def strip_any.simps white_space_def
      parse_u64_def parse_unsigned_def digit_value_def u64_max_def)

lemma parse_f64_examples:
  "parse_f64 ''0.25'' = Some 0x3FD0000000000000"
  "parse_f64 ''.1e0'' = Some 0x3FB999999999999A"
  "parse_f64 ''1e'' = None"
  "parse_f64 ''Infinity'' = Some 0x7FF0000000000000"
  by (simp_all add: parse_f64_def split_sign_def digit_value_def parse_exponent_def f_of_decimal_def
      f_of_ratio_def ascii_lower_def f_eval)

end
