(* ===== verification/Adaptive.thy ===== *)
theory Adaptive
  imports Admission Capability FL_F64 FL_Error FL_Text
begin

text \<open>
  The adaptive concurrency limiter (\<open>platform/runtime/adaptive.rs\<close>) on the admission pool it
  steers, and the busy errors of \<open>platform/execution/admit.rs\<close>. One observation runs under the
  limiter's lock; instants are milliseconds.
\<close>

section \<open>Completions\<close>

datatype metric_kind = OutputTokensPerSecond | InputTokensPerSecond

definition metric_for_task :: "task_kind \<Rightarrow> metric_kind" where
  "metric_for_task task = (if task = TEmbedding then InputTokensPerSecond else OutputTokensPerSecond)"

record throughput =
  tm_kind :: metric_kind
  tm_tps :: f64

record exec_profile =
  ep_id :: string
  ep_task :: task_kind
  ep_model :: string
  ep_digest :: string
  ep_context :: nat
  ep_processor :: string
  ep_kind :: metric_kind

record baseline =
  bl_profile :: exec_profile
  bl_rate :: f64
  bl_samples :: nat

datatype slow_reason = UpstreamFailure | HostMemoryPressure | SlowThroughput f64 f64

record adaptive =
  ad_baselines :: "(task_kind, baseline) btree"
  ad_streak :: nat
  ad_last_profile :: "string option"
  ad_last_decrease :: "instant option"
  ad_last_reason :: "slow_reason option"

record completion =
  cp_profile :: "exec_profile option"
  cp_failed :: bool
  cp_pressure :: bool
  cp_metric :: "throughput option"

definition adaptive_new :: adaptive where
  "adaptive_new = \<lparr>ad_baselines = [], ad_streak = 0, ad_last_profile = None, ad_last_decrease = None,
     ad_last_reason = None\<rparr>"

definition DECREASE_SPACING :: duration where "DECREASE_SPACING = 10000"
definition HEALTHY_STREAK_FOR_INCREASE :: nat where "HEALTHY_STREAK_FOR_INCREASE = 5"
definition THROUGHPUT_DROP_RATIO :: f64 where "THROUGHPUT_DROP_RATIO = 0x3FE6666666666666"
definition BASELINE_MIN_SAMPLES :: nat where "BASELINE_MIN_SAMPLES = 3"
definition BASELINE_ALPHA :: f64 where "BASELINE_ALPHA = 0x3FC999999999999A"

section \<open>Observation\<close>

definition positive_rate :: "f64 \<Rightarrow> bool" where
  "positive_rate tps \<longleftrightarrow> is_finite tps \<and> f_lt f_zero tps"

definition slow_against :: "completion \<Rightarrow> adaptive \<Rightarrow> (f64 \<times> f64) option" where
  "slow_against c st =
     Option.bind (cp_metric c) (\<lambda>metric.
       Option.bind (cp_profile c) (\<lambda>profile.
         Option.bind (bt_get (ad_baselines st) (ep_task profile)) (\<lambda>b.
           if bl_profile b = profile \<and> tm_kind metric = ep_kind profile \<and> BASELINE_MIN_SAMPLES \<le> bl_samples b \<and>
              positive_rate (tm_tps metric) \<and> f_lt (tm_tps metric) (f_mul (bl_rate b) THROUGHPUT_DROP_RATIO)
           then Some (tm_tps metric, bl_rate b) else None)))"

definition bad_reason :: "completion \<Rightarrow> adaptive \<Rightarrow> slow_reason option" where
  "bad_reason c st =
     (if cp_failed c then Some UpstreamFailure
      else if cp_pressure c then Some HostMemoryPressure
      else map_option (\<lambda>(tps, rate). SlowThroughput tps rate) (slow_against c st))"

definition comparable_rate :: "completion \<Rightarrow> exec_profile \<Rightarrow> f64 option" where
  "comparable_rate c profile =
     (case cp_metric c of
        None \<Rightarrow> None
      | Some metric \<Rightarrow> if tm_kind metric = ep_kind profile \<and> positive_rate (tm_tps metric)
                       then Some (tm_tps metric) else None)"

definition update_baseline :: "exec_profile \<Rightarrow> f64 \<Rightarrow> baseline option \<Rightarrow> baseline" where
  "update_baseline profile tps entry =
     (let fresh = \<lparr>bl_profile = profile, bl_rate = tps, bl_samples = 0\<rparr>;
          b = (case entry of None \<Rightarrow> fresh | Some b \<Rightarrow> if bl_profile b = profile then b else fresh)
      in b\<lparr>bl_rate := (if bl_samples b = 0 then tps
                       else f_add (f_mul (bl_rate b) (f_sub f_one BASELINE_ALPHA)) (f_mul tps BASELINE_ALPHA)),
           bl_samples := sat_add u32_max (bl_samples b) 1\<rparr>)"

definition note_healthy :: "exec_profile \<Rightarrow> f64 \<Rightarrow> adaptive \<Rightarrow> adaptive" where
  "note_healthy profile tps st =
     (let streak = (if ad_last_profile st = Some (ep_id profile) then ad_streak st else 0)
      in st\<lparr>ad_last_profile := Some (ep_id profile),
            ad_baselines := bt_put (ep_task profile)
              (update_baseline profile tps (bt_get (ad_baselines st) (ep_task profile))) (ad_baselines st),
            ad_streak := sat_add u32_max streak 1\<rparr>)"

datatype direction = Decrease | Increase

definition observe_bad ::
  "instant \<Rightarrow> slow_reason \<Rightarrow> adaptive \<Rightarrow> adm \<Rightarrow> (direction \<times> nat) option \<times> adaptive \<times> adm" where
  "observe_bad now reason st pool =
     (let st1 = st\<lparr>ad_streak := 0\<rparr>
      in if (case ad_last_decrease st of None \<Rightarrow> False | Some before \<Rightarrow> now - before < DECREASE_SPACING)
         then (None, st1, pool)
         else (case set_limit (max (adm_limit pool div 2) 1) pool of
                 (next_limit, pool') \<Rightarrow>
                   (if next_limit < adm_limit pool then Some (Decrease, next_limit) else None,
                    st1\<lparr>ad_last_decrease := Some now, ad_last_reason := Some reason\<rparr>, pool')))"

definition observe_good ::
  "exec_profile \<Rightarrow> f64 \<Rightarrow> adaptive \<Rightarrow> adm \<Rightarrow> (direction \<times> nat) option \<times> adaptive \<times> adm" where
  "observe_good profile tps st pool =
     (let st1 = note_healthy profile tps st
      in if HEALTHY_STREAK_FOR_INCREASE \<le> ad_streak st1 \<and> adm_limit pool < adm_ceiling pool
         then (case set_limit (adm_limit pool + 1) pool of
                 (next_limit, pool') \<Rightarrow>
                   (if adm_limit pool < next_limit then Some (Increase, next_limit) else None,
                    st1\<lparr>ad_streak := 0\<rparr>, pool'))
         else (None, st1, pool))"

definition observe ::
  "instant \<Rightarrow> completion \<Rightarrow> adaptive \<Rightarrow> adm \<Rightarrow> (direction \<times> nat) option \<times> adaptive \<times> adm" where
  "observe now c st pool =
     (case bad_reason c st of
        Some reason \<Rightarrow> observe_bad now reason st pool
      | None \<Rightarrow>
          (case cp_profile c of
             None \<Rightarrow> (None, st\<lparr>ad_streak := 0, ad_last_profile := None\<rparr>, pool)
           | Some profile \<Rightarrow>
               (case comparable_rate c profile of
                  None \<Rightarrow> (None, st\<lparr>ad_streak := 0\<rparr>, pool)
                | Some tps \<Rightarrow> observe_good profile tps st pool)))"

definition reset_healthy_streak :: "adaptive \<Rightarrow> adaptive" where
  "reset_healthy_streak st = st\<lparr>ad_streak := 0, ad_last_profile := None\<rparr>"

text \<open>\<open>Drop\<close> of the completion guard of a forward.\<close>

definition completion_guard_drop :: "bool \<Rightarrow> adaptive \<Rightarrow> adaptive" where
  "completion_guard_drop completed st = (if completed then st else reset_healthy_streak st)"

section \<open>Busy errors\<close>

definition retry_after_seconds :: "nat \<Rightarrow> nat \<Rightarrow> nat option \<Rightarrow> nat" where
  "retry_after_seconds depth limit average_task_ms =
     (let per_task = max (case average_task_ms of None \<Rightarrow> 5000 | Some ms \<Rightarrow> ms) 250;
          ahead = sat_add usize_max depth 1;
          lanes = max limit 1
      in clamp 1 120 (div_ceil (sat_mul u64_max ahead per_task div lanes) 1000))"

fun priority_debug :: "priority \<Rightarrow> string" where
  "priority_debug Interactive = ''Interactive''"
| "priority_debug Normal = ''Normal''"
| "priority_debug Background = ''Background''"

text \<open>The charged cost that \<open>admit\<close> names in its errors.\<close>

definition named_cost :: "nat \<Rightarrow> nat \<Rightarrow> nat" where
  "named_cost pool_total requested = max (min requested (max (min pool_total u32_max) 1)) 1"

definition busy_lanes :: "nat \<Rightarrow> nat \<Rightarrow> nat" where
  "busy_lanes budget cost = max (budget div max cost 1) 1"

definition admission_error ::
  "adm \<Rightarrow> backend \<Rightarrow> nat \<Rightarrow> nat option \<Rightarrow> priority \<Rightarrow> nat \<Rightarrow> adm_failure \<Rightarrow> api_error" where
  "admission_error pool placement wait_seconds average_task_ms priority cost failure =
     (let budget = adm_limit pool;
          retry_after = retry_after_seconds (queue_depth pool) (busy_lanes budget cost) average_task_ms;
          (status, code) = (case failure of
              QueueFull \<Rightarrow> (429, ''admission_queue_full'')
            | TimedOut \<Rightarrow> (503, ''admission_timeout''));
          (reason, setting) = (case failure of
              QueueFull \<Rightarrow> (''admission queue full'',
                if placement = Cpu then ''--cpu-max-queued-tasks'' else ''--max-queued-tasks'')
            | TimedOut \<Rightarrow> (''no admission slot within '' @ show_nat wait_seconds @ ''s'',
                if placement = Cpu then ''--cpu-max-concurrent-tasks'' else ''--max-concurrent-tasks''))
      in with_retry_after retry_after (with_code code (api_new status
           (concat [''server busy: '', reason, '' (task cost '', show_nat cost, '' of '', show_nat budget,
              '' units; priority '', priority_debug priority, '' on the '', backend_as_str placement,
              '' backend). Retry after '', show_nat retry_after, ''s, or raise '', setting, ''.'']))))"

definition transition_timeout :: "backend \<Rightarrow> adm \<Rightarrow> api_error \<times> adm" where
  "transition_timeout placement pool =
     (with_retry_after 5 (api_new 503 (concat [''server busy: '', backend_as_str placement,
        '' backend transition exceeded the admission-and-transition queue deadline''])),
      record_transition_timeout pool)"

end
