(* ===== verification/Adaptive_Run.thy ===== *)
theory Adaptive_Run
  imports Adaptive
begin

text \<open>
  What the adaptive limiter guarantees over a sequence of completions, guard drops and
  reconfigurations. Its only use of the admission pool is the limit, so the moves of the limit are
  proved once for any pool with such a limit, and the admission pool is an instance.
\<close>

section \<open>The interface of a limited pool\<close>

locale limited_pool =
  fixes limit :: "'p \<Rightarrow> nat" and ceiling :: "'p \<Rightarrow> nat" and change :: "nat \<Rightarrow> 'p \<Rightarrow> nat \<times> 'p"
    and valid :: "'p \<Rightarrow> bool"
  assumes limit_range: "valid p \<Longrightarrow> 1 \<le> limit p \<and> limit p \<le> ceiling p"
    and change_valid: "valid p \<Longrightarrow> valid (snd (change n p))"
    and change_ceiling: "valid p \<Longrightarrow> ceiling (snd (change n p)) = ceiling p"
    and change_limit: "valid p \<Longrightarrow> fst (change n p) = max 1 (min n (ceiling p)) \<and>
      limit (snd (change n p)) = max 1 (min n (ceiling p))"
begin

lemma halve:
  assumes "valid p" "change (max (limit p div 2) 1) p = (n, p')"
  shows "valid p' \<and> ceiling p' = ceiling p \<and> limit p' = n \<and> n = max (limit p div 2) 1 \<and> n \<le> limit p"
proof -
  have r: "1 \<le> limit p" "limit p \<le> ceiling p" using limit_range [OF assms(1)] by auto
  then have "max 1 (min (max (limit p div 2) 1) (ceiling p)) = max (limit p div 2) 1" by auto
  then show ?thesis
    using change_valid [OF assms(1)] change_ceiling [OF assms(1)] change_limit [OF assms(1)] r
    by (metis assms(2) div_le_dividend fst_conv max.boundedI snd_conv)
qed

lemma raise_one:
  assumes "valid p" "limit p < ceiling p" "change (limit p + 1) p = (n, p')"
  shows "valid p' \<and> ceiling p' = ceiling p \<and> limit p' = n \<and> n = limit p + 1"
  using assms change_valid [OF assms(1), of "limit p + 1"] change_ceiling [OF assms(1), of "limit p + 1"]
    change_limit [OF assms(1), of "limit p + 1"] by simp

end

definition pool_valid :: "adm \<Rightarrow> bool" where
  "pool_valid s \<longleftrightarrow> 1 \<le> adm_limit s \<and> adm_limit s \<le> adm_ceiling s"

interpretation adm_pool: limited_pool adm_limit adm_ceiling set_limit pool_valid
  by unfold_locales (auto simp: pool_valid_def set_limit_def Let_def clamp_def)

lemma pool_valid_ceiling: "pool_valid s \<Longrightarrow> pool_valid (set_ceiling n s)"
  by (auto simp: pool_valid_def set_ceiling_def Let_def)

section \<open>One observation\<close>

lemma observe_bad_pool:
  assumes "pool_valid s" "observe_bad now reason st s = (r, st', s')"
  shows "pool_valid s' \<and> adm_ceiling s' = adm_ceiling s \<and> ad_streak st' = 0 \<and>
    ad_last_profile st' = ad_last_profile st \<and>
    (if (\<exists>before. ad_last_decrease st = Some before \<and> now - before < DECREASE_SPACING)
     then r = None \<and> s' = s \<and> ad_last_decrease st' = ad_last_decrease st
     else ad_last_decrease st' = Some now \<and> adm_limit s' = max (adm_limit s div 2) 1 \<and>
       r = (if adm_limit s' < adm_limit s then Some (Decrease, adm_limit s') else None))"
proof -
  obtain n q where q: "set_limit (max (adm_limit s div 2) 1) s = (n, q)" by force
  show ?thesis using adm_pool.halve [OF assms(1) q] assms q
    by (auto simp: observe_bad_def Let_def split: option.splits if_splits)
qed

lemma observe_good_pool:
  assumes "pool_valid s" "observe_good profile tps st s = (r, st', s')"
  shows "pool_valid s' \<and> adm_ceiling s' = adm_ceiling s \<and> ad_last_decrease st' = ad_last_decrease st \<and>
    ad_last_profile st' = Some (ep_id profile) \<and>
    (if HEALTHY_STREAK_FOR_INCREASE \<le> ad_streak (note_healthy profile tps st) \<and> adm_limit s < adm_ceiling s
     then r = Some (Increase, adm_limit s + 1) \<and> adm_limit s' = adm_limit s + 1 \<and> ad_streak st' = 0
     else r = None \<and> s' = s \<and> ad_streak st' = ad_streak (note_healthy profile tps st))"
proof -
  obtain n q where q: "set_limit (adm_limit s + 1) s = (n, q)" by force
  have kept: "ad_last_decrease (note_healthy profile tps st) = ad_last_decrease st"
    "ad_last_profile (note_healthy profile tps st) = Some (ep_id profile)"
    by (simp_all add: note_healthy_def Let_def)
  show ?thesis using adm_pool.raise_one [OF assms(1) _ q] assms q kept
    by (auto simp: observe_good_def Let_def split: if_splits)
qed

lemma observe_cases:
  assumes "observe now c st s = (r, st', s')"
  obtains (bad) reason where "bad_reason c st = Some reason" "observe_bad now reason st s = (r, st', s')"
  | (idle) "bad_reason c st = None" "r = None" "s' = s" "ad_streak st' = 0" "ad_last_decrease st' = ad_last_decrease st"
  | (good) profile tps where "bad_reason c st = None" "cp_profile c = Some profile" "comparable_rate c profile = Some tps"
      "observe_good profile tps st s = (r, st', s')"
  using assms by (auto simp: observe_def split: option.splits)

section \<open>Runs\<close>

datatype adaptive_event =
    AdObserve instant completion
  | AdGuardDrop bool
  | AdSetCeiling nat

type_synonym limiter = "adaptive \<times> adm"

fun adaptive_step :: "limiter \<Rightarrow> adaptive_event \<Rightarrow> (direction \<times> nat) option \<times> limiter" where
  "adaptive_step (st, s) (AdObserve now c) = observe now c st s"
| "adaptive_step (st, s) (AdGuardDrop completed) = (None, completion_guard_drop completed st, s)"
| "adaptive_step (st, s) (AdSetCeiling n) = (None, st, set_ceiling n s)"

definition adaptive_run :: "nat \<Rightarrow> nat \<Rightarrow> adaptive_event list \<Rightarrow> limiter" where
  "adaptive_run slots waiters es = foldl (\<lambda>l e. snd (adaptive_step l e)) (adaptive_new, adm_new slots waiters) es"

lemma adaptive_step_valid: "pool_valid (snd l) \<Longrightarrow> pool_valid (snd (snd (adaptive_step l e)))"
proof (cases l)
  case (Pair st s)
  assume v: "pool_valid (snd l)"
  show ?thesis
  proof (cases e)
    case (AdObserve now c)
    obtain r st' s' where o: "observe now c st s = (r, st', s')" by (metis prod_cases3)
    then have "pool_valid s'"
      using v Pair by (cases rule: observe_cases [OF o]) (auto dest: observe_bad_pool observe_good_pool)
    then show ?thesis using Pair AdObserve o by simp
  qed (use v Pair pool_valid_ceiling in auto)
qed

interpretation limiter_system: invariant_system "\<lambda>l e. snd (adaptive_step l e)" "\<lambda>_. True" "\<lambda>l. pool_valid (snd l)"
  by unfold_locales (rule adaptive_step_valid)

lemma adaptive_run_valid: "pool_valid (snd (adaptive_run slots waiters es))"
  unfolding adaptive_run_def
  by (rule limiter_system.run_inv) (simp_all add: pool_valid_def adm_new_def list_all_iff)

lemma adaptive_run_snoc: "adaptive_run a b (es @ [e]) = snd (adaptive_step (adaptive_run a b es) e)"
  by (simp add: adaptive_run_def)

text \<open>
  the limiter only moves the limit inside the configured range and reports exactly what it did.
  In every reachable state the limit is between one and the ceiling; an observation either leaves it,
  or halves it (never below one) and reports a decrease, or raises it by one unit and reports an
  increase; and a report comes with a change of the limit.
\<close>

theorem limit_moves_are_reported:
  assumes "adaptive_run slots waiters es = (st, s)" and o: "observe now c st s = (r, st', s')"
  shows "1 \<le> adm_limit s' \<and> adm_limit s' \<le> adm_ceiling s' \<and> adm_ceiling s' = adm_ceiling s \<and>
    (case r of
       None \<Rightarrow> adm_limit s' = adm_limit s
     | Some (Decrease, n) \<Rightarrow> n = adm_limit s' \<and> adm_limit s' = max (adm_limit s div 2) 1 \<and> adm_limit s' < adm_limit s
     | Some (Increase, n) \<Rightarrow> n = adm_limit s' \<and> adm_limit s' = adm_limit s + 1)"
proof -
  have v: "pool_valid s" using adaptive_run_valid [of slots waiters es] assms(1) by simp
  from o show ?thesis
  proof (cases rule: observe_cases)
    case (bad reason)
    then show ?thesis using observe_bad_pool [OF v bad(2)] v by (auto simp: pool_valid_def split: if_splits)
  next
    case idle
    then show ?thesis using v by (simp add: pool_valid_def)
  next
    case (good profile tps)
    then show ?thesis using observe_good_pool [OF v good(4)] by (auto simp: pool_valid_def split: if_splits)
  qed
qed

section \<open>Spacing of decreases\<close>

lemma decrease_kept:
  assumes "pool_valid (snd l)" "ad_last_decrease (fst l) = Some t" "t1 \<le> t"
    and "\<And>now c. e = AdObserve now c \<Longrightarrow> t1 \<le> now"
  shows "\<exists>t'. ad_last_decrease (fst (snd (adaptive_step l e))) = Some t' \<and> t1 \<le> t'"
proof (cases l)
  case (Pair st s)
  show ?thesis
  proof (cases e)
    case (AdObserve now c)
    obtain r st' s' where o: "observe now c st s = (r, st', s')" by (metis prod_cases3)
    have v: "pool_valid s" using assms(1) Pair by simp
    from o have "\<exists>t'. ad_last_decrease st' = Some t' \<and> t1 \<le> t'"
    proof (cases rule: observe_cases)
      case (bad reason)
      then show ?thesis using observe_bad_pool [OF v bad(2)] assms(2-4) Pair AdObserve by (auto split: if_splits)
    next
      case idle
      then show ?thesis using assms(2,3) Pair by simp
    next
      case (good profile tps)
      then show ?thesis using observe_good_pool [OF v good(4)] assms(2,3) Pair by simp
    qed
    then show ?thesis using Pair AdObserve o by simp
  qed (use assms Pair in \<open>auto simp: completion_guard_drop_def reset_healthy_streak_def\<close>)
qed

lemma decrease_kept_run:
  "pool_valid (snd l) \<Longrightarrow> ad_last_decrease (fst l) = Some t \<Longrightarrow> t1 \<le> t \<Longrightarrow>
    \<forall>now c. AdObserve now c \<in> set es \<longrightarrow> t1 \<le> now \<Longrightarrow>
    \<exists>t'. ad_last_decrease (fst (foldl (\<lambda>l e. snd (adaptive_step l e)) l es)) = Some t' \<and> t1 \<le> t'"
proof (induction es arbitrary: l t)
  case (Cons e es)
  obtain t' where t': "ad_last_decrease (fst (snd (adaptive_step l e))) = Some t'" "t1 \<le> t'"
    using decrease_kept [OF Cons.prems(1-3), of e] Cons.prems(4) by auto
  from Cons.IH [OF adaptive_step_valid [OF Cons.prems(1)] t'] show ?case using Cons.prems(4) by auto
qed auto

lemma decrease_time:
  assumes "pool_valid s" "observe now c st s = (Some (Decrease, n), st', s')"
  shows "ad_last_decrease st' = Some now \<and>
    (\<forall>t. ad_last_decrease st = Some t \<longrightarrow> DECREASE_SPACING \<le> now - t)"
  using assms(2)
proof (cases rule: observe_cases)
  case (bad reason)
  then show ?thesis using observe_bad_pool [OF assms(1) bad(2)] by (auto split: if_splits)
next
  case (good profile tps)
  then show ?thesis using observe_good_pool [OF assms(1) good(4)] by (auto split: if_splits)
qed simp

text \<open>
  decreases are spaced. Whatever happens in between, and however many bad completions arrive,
  two decreases of the limit are at least ten seconds apart.
\<close>

theorem decreases_spaced:
  assumes "observe t1 c1 (fst (adaptive_run slots waiters es)) (snd (adaptive_run slots waiters es)) = (Some (Decrease, n1), l1)"
    and "observe t2 c2 (fst (adaptive_run slots waiters (es @ AdObserve t1 c1 # ys)))
      (snd (adaptive_run slots waiters (es @ AdObserve t1 c1 # ys))) = (Some (Decrease, n2), l2)"
    and "\<forall>now c. AdObserve now c \<in> set ys \<longrightarrow> t1 \<le> now"
  shows "t1 + 10000 \<le> t2"
proof -
  let ?l = "adaptive_run slots waiters es"
  let ?l' = "adaptive_run slots waiters (es @ [AdObserve t1 c1])"
  let ?l2 = "adaptive_run slots waiters (es @ AdObserve t1 c1 # ys)"
  have l': "?l' = l1" using assms(1) adaptive_run_snoc [of slots waiters es "AdObserve t1 c1"]
    by (cases ?l) simp
  obtain st1 s1 where l1: "l1 = (st1, s1)" by force
  have "observe t1 c1 (fst ?l) (snd ?l) = (Some (Decrease, n1), st1, s1)" using assms(1) l1 by simp
  from decrease_time [OF adaptive_run_valid this] have "ad_last_decrease (fst ?l') = Some t1" by (simp add: l' l1)
  from decrease_kept_run [OF adaptive_run_valid this order_refl assms(3)]
  obtain t where t: "ad_last_decrease (fst ?l2) = Some t" "t1 \<le> t" by (auto simp: adaptive_run_def)
  obtain st2 s2 where l2: "l2 = (st2, s2)" by force
  have "observe t2 c2 (fst ?l2) (snd ?l2) = (Some (Decrease, n2), st2, s2)" using assms(2) l2 by simp
  from decrease_time [OF adaptive_run_valid this] have "DECREASE_SPACING \<le> t2 - t" using t(1) by blast
  then show ?thesis using t(2) by (simp add: DECREASE_SPACING_def)
qed

section \<open>Increases\<close>

text \<open>A completion that counts for the streak of one execution profile.\<close>

text \<open>A guard that is dropped after its forward completed leaves no trace, and neither does a new ceiling.\<close>

definition healthy_for :: "string \<Rightarrow> adaptive_event \<Rightarrow> bool" where
  "healthy_for ident e =
     (case e of
        AdObserve _ c \<Rightarrow> \<not> cp_failed c \<and> \<not> cp_pressure c \<and>
          (case cp_profile c of None \<Rightarrow> False
           | Some profile \<Rightarrow> ep_id profile = ident \<and> comparable_rate c profile \<noteq> None)
      | _ \<Rightarrow> False)"

fun feeds :: "adaptive_event \<Rightarrow> bool" where
  "feeds (AdSetCeiling _) = False"
| "feeds (AdGuardDrop completed) = (\<not> completed)"
| "feeds (AdObserve _ _) = True"

definition recent :: "string \<Rightarrow> adaptive_event list \<Rightarrow> nat" where
  "recent ident es = length (takeWhile (healthy_for ident) (rev (filter feeds es)))"

definition streak_ok :: "adaptive \<Rightarrow> adaptive_event list \<Rightarrow> bool" where
  "streak_ok st es \<longleftrightarrow> ad_streak st = 0 \<or>
     (\<exists>ident. ad_last_profile st = Some ident \<and> ad_streak st \<le> recent ident es)"

lemma recent_snoc:
  "recent ident (es @ [e]) = (if \<not> feeds e then recent ident es else if healthy_for ident e then Suc (recent ident es) else 0)"
  by (simp add: recent_def)

lemma note_healthy_streak:
  assumes "streak_ok st es" "bad_reason c st = None" "cp_profile c = Some profile" "comparable_rate c profile = Some tps"
  shows "ad_streak (note_healthy profile tps st) \<le> recent (ep_id profile) (es @ [AdObserve now c])"
proof -
  have h: "healthy_for (ep_id profile) (AdObserve now c)"
    using assms(2-4) by (auto simp: healthy_for_def bad_reason_def split: if_splits)
  have "ad_last_profile st = Some (ep_id profile) \<Longrightarrow> ad_streak st \<le> recent (ep_id profile) es"
    using assms(1) by (auto simp: streak_ok_def)
  then show ?thesis using h by (auto simp: recent_snoc note_healthy_def Let_def sat_add_def min_def)
qed

lemma streak_ok_step:
  assumes "pool_valid s" "streak_ok st es" "adaptive_step (st, s) e = (r, st', s')"
  shows "streak_ok st' (es @ [e])"
proof (cases e)
  case (AdObserve now c)
  then have o: "observe now c st s = (r, st', s')" using assms(3) by simp
  then show ?thesis
  proof (cases rule: observe_cases)
    case (bad reason)
    then show ?thesis using observe_bad_pool [OF assms(1) bad(2)] by (simp add: streak_ok_def)
  next
    case idle
    then show ?thesis by (simp add: streak_ok_def)
  next
    case (good profile tps)
    have "ad_streak st' = 0 \<or> ad_streak st' = ad_streak (note_healthy profile tps st)"
      "ad_last_profile st' = Some (ep_id profile)"
      using observe_good_pool [OF assms(1) good(4)] by (auto split: if_splits)
    then show ?thesis using note_healthy_streak [OF assms(2) good(1-3), of now] AdObserve
      by (auto simp: streak_ok_def)
  qed
next
  case (AdGuardDrop completed)
  then show ?thesis using assms
    by (auto simp: streak_ok_def completion_guard_drop_def reset_healthy_streak_def recent_snoc split: if_splits)
next
  case (AdSetCeiling n)
  then show ?thesis using assms by (auto simp: streak_ok_def recent_snoc)
qed

lemma streak_ok_run: "adaptive_run slots waiters es = (st, s) \<Longrightarrow> streak_ok st es"
proof (induction es arbitrary: st s rule: rev_induct)
  case Nil
  then show ?case by (auto simp: adaptive_run_def streak_ok_def adaptive_new_def)
next
  case (snoc e es)
  obtain st0 s0 where l: "adaptive_run slots waiters es = (st0, s0)" by force
  obtain r where "adaptive_step (st0, s0) e = (r, st, s)"
    using snoc.prems l by (simp add: adaptive_run_snoc) (metis prod.collapse)
  then show ?case using streak_ok_step [OF _ snoc.IH [OF l]] adaptive_run_valid [of slots waiters es] l by simp
qed

lemma take_takeWhile_all: "n \<le> length (takeWhile P xs) \<Longrightarrow> \<forall>x \<in> set (take n xs). P x"
proof (induction xs arbitrary: n)
  case (Cons x xs)
  then show ?case by (cases n) (auto split: if_splits)
qed simp

text \<open>
  the limit is raised only after five healthy completions of one execution profile in a row. When
  an observation reports an increase, the last five events that feed the limiter, this one included,
  are completions of the same profile that did not fail, came without memory pressure and had a
  positive comparable rate: a failure, a slow completion of another profile or an abandoned forward in
  between starts the count again.
\<close>

theorem increases_need_a_streak:
  assumes "adaptive_run slots waiters es = (st, s)"
    and "observe now c st s = (Some (Increase, n), st', s')"
  shows "\<exists>ident. 5 \<le> recent ident (es @ [AdObserve now c]) \<and>
    (\<forall>e \<in> set (take 5 (rev (filter feeds (es @ [AdObserve now c])))). healthy_for ident e)"
proof -
  have v: "pool_valid s" using adaptive_run_valid [of slots waiters es] assms(1) by simp
  from assms(2) have "\<exists>ident. 5 \<le> recent ident (es @ [AdObserve now c])"
  proof (cases rule: observe_cases)
    case (bad reason)
    then show ?thesis using observe_bad_pool [OF v bad(2)] by (auto split: if_splits)
  next
    case (good profile tps)
    have "HEALTHY_STREAK_FOR_INCREASE \<le> ad_streak (note_healthy profile tps st)"
      using observe_good_pool [OF v good(4)] by (auto split: if_splits)
    then show ?thesis
      using note_healthy_streak [OF streak_ok_run [OF assms(1)] good(1-3), of now]
      by (intro exI [of _ "ep_id profile"]) (simp add: HEALTHY_STREAK_FOR_INCREASE_def)
  qed simp
  then obtain ident where r: "5 \<le> recent ident (es @ [AdObserve now c])" by blast
  let ?fs = "rev (filter feeds (es @ [AdObserve now c]))"
  have "\<forall>e \<in> set (take 5 ?fs). healthy_for ident e"
    using r unfolding recent_def by (rule take_takeWhile_all)
  then show ?thesis using r by blast
qed

section \<open>Retry hints\<close>

lemma clamp_mono: "a \<le> b \<Longrightarrow> clamp lo hi a \<le> clamp lo hi b" if "lo \<le> hi" for a b :: nat
  using that by (auto simp: clamp_def)

lemma div_ceil_mono:
  assumes "0 < n" "a \<le> b"
  shows "div_ceil a n \<le> div_ceil b n"
proof (rule ccontr)
  assume "\<not> ?thesis"
  then have "div_ceil b n + 1 \<le> div_ceil a n" by simp
  then have "n * div_ceil b n + n \<le> n * div_ceil a n"
    by (metis add.commute mult.commute mult_le_mono2 mult_Suc_right Suc_eq_plus1)
  moreover have "n * div_ceil a n < a + n" "b \<le> n * div_ceil b n"
    using div_ceil_tight [OF assms(1)] div_ceil_bound [OF assms(1)] by auto
  ultimately show False using assms(2) by linarith
qed

text \<open>
  The retry hint of a busy error is between one second and two minutes, never shrinks when more
  requests wait or the average task takes longer, and never grows when the limit does.
\<close>

theorem retry_hint_bounds:
  assumes "depth \<le> depth'" "limit' \<le> limit" "ms \<le> ms'"
  shows "retry_after_seconds depth limit (Some ms) \<le> retry_after_seconds depth' limit' (Some ms') \<and>
    1 \<le> retry_after_seconds depth limit avg \<and> retry_after_seconds depth limit avg \<le> 120"
proof -
  have "sat_mul u64_max (sat_add usize_max depth 1) (max ms 250) \<le>
      sat_mul u64_max (sat_add usize_max depth' 1) (max ms' 250)"
  proof -
    have "sat_add usize_max depth 1 \<le> sat_add usize_max depth' 1" using assms(1) by (simp add: sat_add_def)
    moreover have "max ms 250 \<le> max ms' 250" using assms(3) by simp
    ultimately have "sat_add usize_max depth 1 * max ms 250 \<le> sat_add usize_max depth' 1 * max ms' 250"
      by (rule mult_le_mono)
    then show ?thesis unfolding sat_mul_def by (rule min.mono [OF order_refl])
  qed
  then have "sat_mul u64_max (sat_add usize_max depth 1) (max ms 250) div max limit 1 \<le>
      sat_mul u64_max (sat_add usize_max depth' 1) (max ms' 250) div max limit' 1"
    using assms(2) by (intro order_trans [OF div_le_mono div_le_mono2]) auto
  then have "retry_after_seconds depth limit (Some ms) \<le> retry_after_seconds depth' limit' (Some ms')"
    unfolding retry_after_seconds_def Let_def option.case by (intro clamp_mono div_ceil_mono) simp_all
  then show ?thesis by (auto simp: retry_after_seconds_def Let_def clamp_def)
qed

section \<open>Concrete runs\<close>

abbreviation run_profile :: exec_profile where
  "run_profile \<equiv> \<lparr>ep_id = ''p'', ep_task = TCompletion, ep_model = ''m'', ep_digest = ''d'', ep_context = 4096,
     ep_processor = ''gpu'', ep_kind = OutputTokensPerSecond\<rparr>"

abbreviation failed_run :: completion where
  "failed_run \<equiv> \<lparr>cp_profile = None, cp_failed = True, cp_pressure = False, cp_metric = None\<rparr>"

abbreviation healthy_run :: completion where
  "healthy_run \<equiv> \<lparr>cp_profile = Some run_profile, cp_failed = False, cp_pressure = False,
     cp_metric = Some \<lparr>tm_kind = OutputTokensPerSecond, tm_tps = f_one\<rparr>\<rparr>"

lemma failed_observed:
  "observe now failed_run st s = observe_bad now UpstreamFailure st s"
  by (simp add: observe_def bad_reason_def)

lemma first_decrease:
  "observe t failed_run adaptive_new (adm_new 8 16) =
     (Some (Decrease, 4), adaptive_new\<lparr>ad_last_decrease := Some t, ad_last_reason := Some UpstreamFailure\<rparr>,
      (adm_new 8 16)\<lparr>adm_limit := 4, adm_policy_epoch := wrapping_add u64_max 0 1\<rparr>)"
  by (simp add: failed_observed observe_bad_def Let_def adaptive_new_def set_limit_def clamp_def adm_new_def)

lemma empty_run: "adaptive_run 8 16 [] = (adaptive_new, adm_new 8 16)"
  by (simp add: adaptive_run_def)

theorem limit_moves_are_reported_witness:
  "\<exists>st' s'. observe 7 failed_run adaptive_new (adm_new 8 16) = (Some (Decrease, 4), st', s') \<and>
     4 = max (adm_limit (adm_new 8 16) div 2) 1 \<and> adm_ceiling s' = 8"
  unfolding first_decrease
  using limit_moves_are_reported [OF empty_run first_decrease [of 7]]
  by (simp add: adm_new_def)

theorem decreases_spaced_witness:
  "\<exists>l2. observe 20000 failed_run (fst (adaptive_run 8 16 [AdObserve 7 failed_run]))
      (snd (adaptive_run 8 16 [AdObserve 7 failed_run])) = (Some (Decrease, 2), l2) \<and> (7 :: nat) + 10000 \<le> 20000"
proof -
  have one: "adaptive_run 8 16 [AdObserve 7 failed_run] =
    (adaptive_new\<lparr>ad_last_decrease := Some 7, ad_last_reason := Some UpstreamFailure\<rparr>,
     (adm_new 8 16)\<lparr>adm_limit := 4, adm_policy_epoch := wrapping_add u64_max 0 1\<rparr>)"
    using adaptive_run_snoc [of 8 16 "[]" "AdObserve 7 failed_run"] by (simp add: empty_run first_decrease)
  then obtain l2 where two: "observe 20000 failed_run (fst (adaptive_run 8 16 ([] @ AdObserve 7 failed_run # [])))
      (snd (adaptive_run 8 16 ([] @ AdObserve 7 failed_run # []))) = (Some (Decrease, 2), l2)"
    by (simp add: failed_observed observe_bad_def Let_def adaptive_new_def set_limit_def clamp_def adm_new_def
        DECREASE_SPACING_def)
  have first: "observe 7 failed_run (fst (adaptive_run 8 16 [])) (snd (adaptive_run 8 16 [])) =
    (Some (Decrease, 4), adaptive_new\<lparr>ad_last_decrease := Some 7, ad_last_reason := Some UpstreamFailure\<rparr>,
     (adm_new 8 16)\<lparr>adm_limit := 4, adm_policy_epoch := wrapping_add u64_max 0 1\<rparr>)"
    by (simp add: empty_run first_decrease)
  show ?thesis using decreases_spaced [OF first two] two by auto
qed

theorem retry_hint_bounds_witness:
  "retry_after_seconds 3 8 (Some 900) \<le> retry_after_seconds 40 2 (Some 1500)"
  using retry_hint_bounds [of 3 40 2 8 900 1500 None] by simp

text \<open>Five healthy completions after a decrease to four units.\<close>

definition raised :: "nat \<Rightarrow> limiter" where
  "raised k = (adaptive_new\<lparr>ad_last_decrease := Some 7, ad_last_reason := Some UpstreamFailure, ad_streak := k,
       ad_last_profile := Some ''p'', ad_baselines := [(TCompletion, \<lparr>bl_profile = run_profile, bl_rate = f_one, bl_samples = k\<rparr>)]\<rparr>,
     (adm_new 8 16)\<lparr>adm_limit := 4, adm_policy_epoch := wrapping_add u64_max 0 1\<rparr>)"

lemma one_rate:
  "f_add (f_mul f_one (f_sub f_one BASELINE_ALPHA)) (f_mul f_one BASELINE_ALPHA) = f_one"
  "\<not> f_lt f_one (f_mul f_one THROUGHPUT_DROP_RATIO)" "positive_rate f_one"
  by (simp_all add: BASELINE_ALPHA_def THROUGHPUT_DROP_RATIO_def positive_rate_def f_zero_def f_eval)

lemma healthy_comparable: "comparable_rate healthy_run run_profile = Some f_one"
  by (simp add: comparable_rate_def one_rate)

lemma raised_note:
  assumes "0 < k" "k < 10"
  shows "note_healthy run_profile f_one (fst (raised k)) = fst (raised (Suc k))"
proof -
  have "sat_add u32_max k 1 = Suc k" using assms(2) by (simp add: sat_add_def u32_max_def)
  then show ?thesis using assms(1)
    by (simp add: note_healthy_def update_baseline_def Let_def raised_def adaptive_new_def one_rate cmp_def)
qed

lemma raised_not_bad: "bad_reason healthy_run (fst (raised k)) = None"
  by (simp add: bad_reason_def slow_against_def raised_def adaptive_new_def one_rate)

lemma raised_step:
  assumes "0 < k" "k < 4"
  shows "observe now healthy_run (fst (raised k)) (snd (raised k)) = (None, raised (Suc k))"
proof -
  have "ad_streak (fst (raised (Suc k))) = Suc k" "snd (raised k) = snd (raised (Suc k))" by (simp_all add: raised_def)
  then show ?thesis using raised_note [of k] raised_not_bad [of k] assms
    by (simp add: observe_def healthy_comparable observe_good_def Let_def HEALTHY_STREAK_FOR_INCREASE_def)
qed

lemma raised_one:
  "observe now healthy_run (adaptive_new\<lparr>ad_last_decrease := Some 7, ad_last_reason := Some UpstreamFailure\<rparr>)
     (snd (raised 1)) = (None, raised 1)"
  by (simp add: observe_def bad_reason_def slow_against_def adaptive_new_def healthy_comparable observe_good_def Let_def
      note_healthy_def update_baseline_def raised_def sat_add_def u32_max_def HEALTHY_STREAK_FOR_INCREASE_def)

lemma raised_run: "k < 4 \<Longrightarrow> adaptive_run 8 16 (AdObserve 7 failed_run # replicate (Suc k) (AdObserve 9 healthy_run)) = raised (Suc k)"
proof (induction k)
  case 0
  have "adaptive_run 8 16 [AdObserve 7 failed_run] =
    (adaptive_new\<lparr>ad_last_decrease := Some 7, ad_last_reason := Some UpstreamFailure\<rparr>, snd (raised 1))"
    using adaptive_run_snoc [of 8 16 "[]" "AdObserve 7 failed_run"] by (simp add: empty_run first_decrease raised_def)
  then show ?case using adaptive_run_snoc [of 8 16 "[AdObserve 7 failed_run]" "AdObserve 9 healthy_run"] raised_one [of 9]
    by simp
next
  case (Suc k)
  have "snd (adaptive_step (raised (Suc k)) (AdObserve 9 healthy_run)) = raised (Suc (Suc k))"
    using raised_step [of "Suc k" 9] Suc.prems by (cases "raised (Suc k)") simp
  moreover have "replicate (Suc (Suc k)) (AdObserve 9 healthy_run) = replicate (Suc k) (AdObserve 9 healthy_run) @ [AdObserve 9 healthy_run]"
    using replicate_append_same [of "Suc k" "AdObserve 9 healthy_run"] by (simp only: replicate.simps)
  ultimately show ?case
    using Suc adaptive_run_snoc [of 8 16 "AdObserve 7 failed_run # replicate (Suc k) (AdObserve 9 healthy_run)" "AdObserve 9 healthy_run"]
    by (simp only: append_Cons snd_conv)
qed

theorem increases_need_a_streak_witness:
  "\<exists>st' s' ident. observe 9 healthy_run (fst (raised 4)) (snd (raised 4)) = (Some (Increase, 5), st', s') \<and>
     5 \<le> recent ident (AdObserve 7 failed_run # replicate 4 (AdObserve 9 healthy_run) @ [AdObserve 9 healthy_run])"
proof -
  have streak: "ad_streak (fst (raised 5)) = 5" by (simp add: raised_def)
  have pool: "adm_limit (snd (raised 4)) = 4" "adm_ceiling (snd (raised 4)) = 8" by (simp_all add: raised_def adm_new_def)
  obtain n q where q: "set_limit (4 + 1) (snd (raised 4)) = (n, q)" by force
  then have n: "n = 5" using pool by (auto simp: set_limit_def Let_def clamp_def)
  have noted: "note_healthy run_profile f_one (fst (raised 4)) = fst (raised (Suc 4))" by (rule raised_note) simp_all
  have "observe_good run_profile f_one (fst (raised 4)) (snd (raised 4)) =
      (Some (Increase, 5), (fst (raised (Suc 4)))\<lparr>ad_streak := 0\<rparr>, q)"
    using q by (simp add: observe_good_def Let_def noted streak pool n HEALTHY_STREAK_FOR_INCREASE_def)
  then have o: "observe 9 healthy_run (fst (raised 4)) (snd (raised 4)) =
      (Some (Increase, 5), (fst (raised (Suc 4)))\<lparr>ad_streak := 0\<rparr>, q)"
    by (simp add: observe_def raised_not_bad healthy_comparable)
  have "Suc 3 = (4 :: nat)" by simp
  then have "adaptive_run 8 16 (AdObserve 7 failed_run # replicate 4 (AdObserve 9 healthy_run)) =
      (fst (raised 4), snd (raised 4))" using raised_run [of 3] by (simp del: replicate.simps)
  from increases_need_a_streak [OF this o] o show ?thesis by (simp del: replicate.simps) blast
qed

end
