(* ===== verification/Feedback.thy ===== *)
theory Feedback
  imports Adaptive Routing
begin

text \<open>
  Placement feedback: the latency statistics per backend and task (\<open>platform/feedback.rs\<close>), the
  placement they suggest, the observed execution prof under which samples are comparable
  (\<open>platform/execution/select.rs\<close>), the metrics of an answer (\<open>platform/execution/feedback.rs\<close>) and the
  observed placement (\<open>platform/execution/observe.rs\<close>). The file of the snapshot holds a document; the
  digest of a prof's material is an argument.
\<close>

section \<open>Statistics\<close>

definition u128_max :: nat where "u128_max = 2 ^ 128 - 1"

record stats =
  fs_model :: "string option"
  fs_completed :: nat
  fs_duration_samples :: nat
  fs_total_work_unit_ns :: nat
  fs_total_queue_wait_ms :: nat
  fs_last_work_unit_ns :: "nat option"
  fs_profile :: "exec_profile option"
  fs_profile_samples :: nat
  fs_profile_total :: nat

definition stats_default :: stats where
  "stats_default = \<lparr>fs_model = None, fs_completed = 0, fs_duration_samples = 0,
     fs_total_work_unit_ns = 0, fs_total_queue_wait_ms = 0, fs_last_work_unit_ns = None,
     fs_profile = None, fs_profile_samples = 0, fs_profile_total = 0\<rparr>"

definition fs_record :: "string \<Rightarrow> nat option \<Rightarrow> nat \<Rightarrow> stats \<Rightarrow> stats" where
  "fs_record model work_unit_ns queue_wait_ms s0 =
     (let s1 = (case fs_model s0 of
                  Some current \<Rightarrow> if current \<noteq> model then stats_default else s0
                | None \<Rightarrow> s0);
          s2 = s1\<lparr>fs_model := Some model,
                  fs_completed := sat_add u64_max (fs_completed s1) 1,
                  fs_total_queue_wait_ms := sat_add u128_max (fs_total_queue_wait_ms s1) queue_wait_ms\<rparr>
      in case work_unit_ns of
           None \<Rightarrow> s2
         | Some duration \<Rightarrow>
             s2\<lparr>fs_duration_samples := sat_add u64_max (fs_duration_samples s2) 1,
                fs_total_work_unit_ns := sat_add u128_max (fs_total_work_unit_ns s2) duration,
                fs_last_work_unit_ns := Some duration\<rparr>)"

definition MIN_FEEDBACK_SAMPLES :: nat where "MIN_FEEDBACK_SAMPLES = 3"
definition MIN_FEEDBACK_IMPROVEMENT_PERCENT :: nat where "MIN_FEEDBACK_IMPROVEMENT_PERCENT = 10"

definition average_work_unit_ns :: "stats \<Rightarrow> nat option" where
  "average_work_unit_ns s =
     (if MIN_FEEDBACK_SAMPLES \<le> fs_duration_samples s \<and> 0 < fs_total_work_unit_ns s
      then Some (fs_total_work_unit_ns s div fs_duration_samples s) else None)"

definition record_profile :: "exec_profile \<Rightarrow> nat \<Rightarrow> stats \<Rightarrow> stats" where
  "record_profile prof duration s0 =
     (let s1 = (if fs_profile s0 \<noteq> Some prof
                then s0\<lparr>fs_profile := Some prof, fs_profile_samples := 0, fs_profile_total := 0\<rparr>
                else s0)
      in s1\<lparr>fs_profile_samples := sat_add u64_max (fs_profile_samples s1) 1,
            fs_profile_total := sat_add u128_max (fs_profile_total s1) duration\<rparr>)"

definition average_for_profile :: "exec_profile \<Rightarrow> stats \<Rightarrow> nat option" where
  "average_for_profile prof s =
     (if fs_profile s = Some prof \<and> MIN_FEEDBACK_SAMPLES \<le> fs_profile_samples s \<and>
         0 < fs_profile_total s
      then Some (fs_profile_total s div fs_profile_samples s) else None)"

section \<open>Placement\<close>

definition meaningfully_faster :: "nat \<Rightarrow> nat \<Rightarrow> bool" where
  "meaningfully_faster candidate base \<longleftrightarrow>
     sat_mul u128_max candidate 100 < sat_mul u128_max base (100 - MIN_FEEDBACK_IMPROVEMENT_PERCENT)"

record placement_signals =
  pl_pinned :: bool
  pl_objective :: objective
  pl_preference :: execution_preference
  pl_gpu_ns :: "nat option"
  pl_cpu_ns :: "nat option"
  pl_gpu_slots :: nat
  pl_cpu_slots :: nat
  pl_gpu_cost :: nat
  pl_cpu_cost :: nat
  pl_cpu_configured :: bool

definition gpu_ready :: "placement_signals \<Rightarrow> bool" where
  "gpu_ready s \<longleftrightarrow> pl_gpu_cost s \<le> pl_gpu_slots s"

definition cpu_ready :: "placement_signals \<Rightarrow> bool" where
  "cpu_ready s \<longleftrightarrow> pl_cpu_configured s \<and> pl_cpu_cost s \<le> pl_cpu_slots s"

definition prefer_cpu :: "string \<Rightarrow> placement_signals \<Rightarrow> backend \<times> string" where
  "prefer_cpu reason s =
     (if cpu_ready s \<or> \<not> gpu_ready s then (Cpu, reason) else (Gpu, ''backend_capacity_available''))"

definition prefer_gpu :: "string \<Rightarrow> placement_signals \<Rightarrow> backend \<times> string" where
  "prefer_gpu reason s =
     (if gpu_ready s \<or> \<not> cpu_ready s then (Gpu, reason) else (Cpu, ''backend_capacity_available''))"

definition by_capacity :: "placement_signals \<Rightarrow> (backend \<times> string) option" where
  "by_capacity s =
     (if \<not> gpu_ready s \<and> cpu_ready s then Some (Cpu, ''backend_capacity_available'')
      else if \<not> cpu_ready s \<and> gpu_ready s then Some (Gpu, ''backend_capacity_available'')
      else None)"

definition desired_placement :: "placement_signals \<Rightarrow> (backend \<times> string) option" where
  "desired_placement s =
     (case pl_preference s of
        PreferCpu \<Rightarrow> Some (prefer_cpu ''preferred_backend_eligible'' s)
      | PreferGpu \<Rightarrow> Some (prefer_gpu ''preferred_backend_eligible'' s)
      | PreferAuto \<Rightarrow>
          (if pl_pinned s \<or> pl_objective s = Quality then None
           else case (pl_gpu_ns s, pl_cpu_ns s) of
             (Some gpu, Some cpu) \<Rightarrow>
               if meaningfully_faster cpu gpu then Some (prefer_cpu ''measured_backend_faster'' s)
               else if meaningfully_faster gpu cpu then Some (prefer_gpu ''measured_backend_faster'' s)
               else by_capacity s
           | _ \<Rightarrow> by_capacity s))"

section \<open>The metrics of an answer\<close>

definition json_f64 :: "f64 \<Rightarrow> json" where
  "json_f64 x = (if is_finite x then JFloat x else JNull)"

definition get_u64 :: "json \<Rightarrow> string \<Rightarrow> nat option" where
  "get_u64 j k = Option.bind (jget j k) as_u64"

definition NANOS :: f64 where "NANOS = f_of_nat 1000000000"

definition tokens_per_second :: "nat option \<Rightarrow> nat option \<Rightarrow> f64 option" where
  "tokens_per_second count duration_ns =
     (case (count, duration_ns) of
        (Some count, Some duration_ns) \<Rightarrow>
          if duration_ns = 0 then None
          else Some (f_div (f_mul (f_of_nat count) NANOS) (f_of_nat duration_ns))
      | _ \<Rightarrow> None)"

definition feedback_work_unit_ns :: "task_kind \<Rightarrow> json \<Rightarrow> nat option" where
  "feedback_work_unit_ns task response =
     (case (if task = TEmbedding
            then (get_u64 response ''total_duration'', get_u64 response ''prompt_eval_count'')
            else (get_u64 response ''eval_duration'', get_u64 response ''eval_count'')) of
        (Some duration, Some units) \<Rightarrow>
          if 0 < duration \<and> 0 < units \<and> 0 < duration div units then Some (duration div units)
          else None
      | _ \<Rightarrow> None)"

definition cached_tokens :: "json \<Rightarrow> nat option" where
  "cached_tokens response =
     Option.bind (get_u64 response ''prompt_eval_cached_count'') (\<lambda>cached.
       case get_u64 response ''prompt_eval_count'' of
         Some whole \<Rightarrow> if cached \<le> whole then Some cached else None
       | None \<Rightarrow> None)"

definition uncached_tokens :: "json \<Rightarrow> nat option" where
  "uncached_tokens response =
     (case (get_u64 response ''prompt_eval_count'', cached_tokens response) of
        (Some whole, Some cached) \<Rightarrow> Some (whole - cached) | _ \<Rightarrow> None)"

definition runtime_metrics :: "json \<Rightarrow> json" where
  "runtime_metrics response =
     (let count = get_u64 response ''eval_count''; duration = get_u64 response ''eval_duration'' in
      json_object [
        (''total_duration_ns'', jopt jnat (get_u64 response ''total_duration'')),
        (''load_duration_ns'', jopt jnat (get_u64 response ''load_duration'')),
        (''prompt_tokens'', jopt jnat (get_u64 response ''prompt_eval_count'')),
        (''cached_prompt_tokens'', jopt jnat (cached_tokens response)),
        (''uncached_prompt_tokens'', jopt jnat (uncached_tokens response)),
        (''prompt_duration_ns'', jopt jnat (get_u64 response ''prompt_eval_duration'')),
        (''prompt_tokens_per_second'',
           jopt json_f64 (tokens_per_second (uncached_tokens response)
                            (get_u64 response ''prompt_eval_duration''))),
        (''output_tokens'', jopt jnat count),
        (''output_duration_ns'', jopt jnat duration),
        (''output_tokens_per_second'', jopt json_f64 (tokens_per_second count duration))])"

fun as_f64 :: "json \<Rightarrow> f64 option" where
  "as_f64 (JFloat x) = Some x"
| "as_f64 (JInt i) = Some (if i < 0 then f_flip (f_of_nat (nat (- i))) else f_of_nat (nat i))"
| "as_f64 _ = None"

definition adaptive_throughput_metric :: "task_kind \<Rightarrow> json \<Rightarrow> throughput option" where
  "adaptive_throughput_metric task response =
     (case (if task = TEmbedding
            then Option.bind (feedback_work_unit_ns task response)
                   (\<lambda>ns. tokens_per_second (Some 1) (Some ns))
            else as_f64 (jindex (runtime_metrics response) ''output_tokens_per_second'')) of
        Some rate \<Rightarrow>
          if is_finite rate \<and> f_lt f_zero rate
          then Some \<lparr>tm_kind = metric_for_task task, tm_tps = rate\<rparr> else None
      | None \<Rightarrow> None)"

section \<open>Observed placement\<close>

definition processor_of :: "nat option \<Rightarrow> nat option \<Rightarrow> string" where
  "processor_of sz size_vram =
     (case (sz, size_vram) of
        (_, Some 0) \<Rightarrow> ''cpu''
      | (Some sz, Some vram) \<Rightarrow>
          if 0 < sz \<and> sz \<le> vram then ''gpu''
          else if 0 < sz \<and> 0 < vram then ''mixed'' else ''unknown''
      | _ \<Rightarrow> ''unknown'')"

definition physical_placement_observation :: "backend \<Rightarrow> nat option \<Rightarrow> nat option \<Rightarrow> json" where
  "physical_placement_observation requested sz size_vram =
     (let processor = processor_of sz size_vram;
          status = (if processor = ''unknown'' then ''unavailable''
                    else if processor = backend_as_str requested then ''verified''
                    else ''mismatch'')
      in json_object [
        (''processor'', JStr processor), (''status'', JStr status),
        (''source'', JStr ''ollama_api_ps_after_execution''),
        (''size'', jopt jnat sz), (''size_vram'', jopt jnat size_vram)])"

definition ps_entry_name :: "json \<Rightarrow> string option" where
  "ps_entry_name entry =
     Option.bind (case jget entry ''name'' of Some v \<Rightarrow> Some v | None \<Rightarrow> jget entry ''model'') as_str"

definition ps_models :: "json \<Rightarrow> json list option" where
  "ps_models ps = Option.bind (jget ps ''models'') as_array"

definition find_ps_entry :: "json \<Rightarrow> string \<Rightarrow> json option" where
  "find_ps_entry ps model =
     Option.bind (ps_models ps) (\<lambda>entries. find (\<lambda>e. ps_entry_name e = Some model) entries)"

definition unobserved :: "string \<Rightarrow> json \<Rightarrow> json" where
  "unobserved status resident = json_object [
     (''processor'', JStr ''unknown''), (''status'', JStr status), (''resident'', resident),
     (''source'', JStr ''ollama_api_ps_after_execution'')]"

text \<open>The answer of \<open>/api/ps\<close>, or that it could not be read, is the argument.\<close>

definition observe_physical_placement :: "json option \<Rightarrow> backend \<Rightarrow> string \<Rightarrow> json" where
  "observe_physical_placement ps placement model =
     (case ps of
        None \<Rightarrow> unobserved ''unavailable'' JNull
      | Some ps \<Rightarrow>
          (case ps_models ps of
             None \<Rightarrow> unobserved ''unavailable'' JNull
           | Some entries \<Rightarrow>
               (case find (\<lambda>e. ps_entry_name e = Some model) entries of
                  None \<Rightarrow> unobserved ''not_resident'' (JBool False)
                | Some running \<Rightarrow>
                    jset ''digest'' (jindex running ''digest'')
                      (jset ''context_length'' (jindex running ''context_length'')
                        (jset ''resident'' (JBool True)
                          (physical_placement_observation placement
                             (get_u64 running ''size'') (get_u64 running ''size_vram'')))))))"

definition require_observed_placement ::
  "route_input \<Rightarrow> catalog_model list \<Rightarrow> string \<Rightarrow> backend \<Rightarrow> string + unit" where
  "require_observed_placement input models selected_model placement =
     (if ri_min_placement input \<noteq> Observed then Inr ()
      else case find (\<lambda>m. cm_name m = selected_model) models of
             None \<Rightarrow> Inl ''selected route comes from the supplied catalog''
           | Some selected \<Rightarrow>
               ensure (jindex (physical_placement_observation placement (cm_resident_size selected)
                         (cm_resident_vram selected)) ''status'' = JStr ''verified'')
                 ''physical placement is not verified'')"

section \<open>Comparable executions\<close>

definition interval_fields :: "string list" where
  "interval_fields = [''admitted'', ''released'', ''policy_epoch'', ''slots_total'', ''slots_ceiling'',
     ''active_units'', ''in_flight'']"

definition unchanged_admission_interval :: "json \<Rightarrow> json \<Rightarrow> bool" where
  "unchanged_admission_interval start finish \<longleftrightarrow>
     list_all (\<lambda>field. case as_u64 (jindex start field) of
                 Some value \<Rightarrow> as_u64 (jindex finish field) = Some value
               | None \<Rightarrow> False) interval_fields"

definition oldest :: "instant \<Rightarrow> instant list \<Rightarrow> json" where
  "oldest now xs = (if xs = [] then JNull else jnat (Max (set (map (\<lambda>t. now - t) xs))))"

definition adm_receipt :: "instant \<Rightarrow> adm \<Rightarrow> json" where
  "adm_receipt now s = json_object [
     (''slots_total'', jnat (adm_limit s)), (''slots_ceiling'', jnat (adm_ceiling s)),
     (''slots_available'', jnat (free s)), (''active_units'', jnat (adm_active s)),
     (''in_flight'', jnat (adm_in_flight s)), (''queue_depth'', jnat (queue_depth s)),
     (''slot_waiters'', jnat (length (adm_waiting s))),
     (''resource_waiters'', jnat (length (adm_resource_waiting s))),
     (''queue_limit'', jnat (adm_max_waiters s)),
     (''oldest_wait_ms'', oldest now (map w_enqueued_at (adm_waiting s) @ map snd (adm_resource_waiting s))),
     (''admitted'', jnat (adm_admitted s)), (''released'', jnat (adm_released s)),
     (''policy_epoch'', jnat (adm_policy_epoch s)),
     (''queue_full_rejections'', jnat (adm_queue_full_rejections s)),
     (''queue_timeouts'', jnat (adm_queue_timeouts s)),
     (''queue_cancellations'', jnat (adm_queue_cancellations s)),
     (''transition_timeouts'', jnat (adm_transition_timeouts s)),
     (''max_capacity_bypasses'', jnat MAX_CAPACITY_BYPASSES),
     (''capacity_reservation_active'',
        JBool (list_ex (\<lambda>w. MAX_CAPACITY_BYPASSES \<le> w_bypasses w) (adm_waiting s)))]"

record profile_evidence =
  pe_task :: task_kind
  pe_model :: string
  pe_catalog_digest :: "string option"
  pe_upstream :: string
  pe_body :: json
  pe_placement :: json
  pe_dispatch :: json
  pe_completion :: json
  pe_dispatch_settings :: "json option"
  pe_completion_settings :: "json option"
  pe_warm :: bool

fun metric_as_str :: "metric_kind \<Rightarrow> string" where
  "metric_as_str OutputTokensPerSecond = ''output_tokens_per_second''"
| "metric_as_str InputTokensPerSecond = ''input_tokens_per_second''"

definition profile_controls :: "string list" where
  "profile_controls = [''options'', ''think'', ''format'', ''tools'', ''logprobs'', ''top_logprobs'', ''dimensions'']"

definition admission_class :: "json \<Rightarrow> json" where
  "admission_class dispatch = json_object [
     (''in_flight'', JInt 1), (''limit'', jindex dispatch ''slots_total''),
     (''ceiling'', jindex dispatch ''slots_ceiling''),
     (''charged_units'', jindex dispatch ''active_units'')]"

definition profile_material :: "profile_evidence \<Rightarrow> string \<Rightarrow> string \<Rightarrow> nat \<Rightarrow> json \<Rightarrow> json" where
  "profile_material e processor digest context settings = json_object [
     (''metric_kind'', JStr (metric_as_str (metric_for_task (pe_task e)))),
     (''task'', JStr (task_as_str (pe_task e))), (''model'', JStr (pe_model e)),
     (''digest'', JStr digest), (''upstream'', JStr (pe_upstream e)),
     (''processor'', JStr processor), (''context_tokens'', jnat context),
     (''controls'', json_object (map (\<lambda>k. (k, jindex (pe_body e) k)) profile_controls)),
     (''backend_settings'', settings), (''admission_class'', admission_class (pe_dispatch e))]"

definition require :: "'e \<Rightarrow> 'a option \<Rightarrow> 'e + 'a" where
  "require err v = (case v of None \<Rightarrow> Inl err | Some x \<Rightarrow> Inr x)"

definition profile_identity :: "profile_evidence \<Rightarrow> string + string \<times> string \<times> nat" where
  "profile_identity e =
     and_then (ensure (jindex (pe_placement e) ''status'' = JStr ''verified'') ''physical_placement_unverified'') (\<lambda>_.
     and_then (require ''processor_identity_unknown'' (as_str (jindex (pe_placement e) ''processor''))) (\<lambda>processor.
     and_then (require ''model_revision_unknown''
       (Option.bind (as_str (jindex (pe_placement e) ''digest'')) (\<lambda>d. if d = [] then None else Some d))) (\<lambda>digest.
     and_then (ensure (pe_catalog_digest e = Some digest) ''model_revision_mismatch_or_unknown'') (\<lambda>_.
     and_then (require ''observed_context_unknown''
       (Option.bind (as_u64 (jindex (pe_placement e) ''context_length'')) (\<lambda>c. if c = 0 then None else Some c))) (\<lambda>context.
     Inr (processor, digest, context))))))"

definition profile_from_observations ::
  "(json \<Rightarrow> string) \<Rightarrow> profile_evidence \<Rightarrow> string + exec_profile" where
  "profile_from_observations sha_hex e =
     and_then (profile_identity e) (\<lambda>(processor, digest, context).
     and_then (ensure (jis_object (jindex (pe_body e) ''options'')) ''effective_options_unknown'') (\<lambda>_.
     and_then (ensure (get_u64 (jindex (pe_body e) ''options'') ''num_ctx'' = Some context)
       ''effective_context_mismatch_or_unknown'') (\<lambda>_.
     and_then (ensure (pe_warm e) ''runner_transition_not_comparable'') (\<lambda>_.
     and_then (ensure (jindex (pe_dispatch e) ''in_flight'' = JInt 1 \<and>
                       jindex (pe_completion e) ''in_flight'' = JInt 1 \<and>
                       unchanged_admission_interval (pe_dispatch e) (pe_completion e))
       ''admission_occupancy_or_policy_not_comparable'') (\<lambda>_.
     and_then (require ''backend_process_settings_unknown'' (pe_dispatch_settings e)) (\<lambda>settings.
     and_then (ensure (pe_completion_settings e = Some settings)
       ''backend_process_settings_changed_or_unknown'') (\<lambda>_.
     Inr \<lparr>ep_id = sha_hex (profile_material e processor digest context settings),
          ep_task = pe_task e, ep_model = pe_model e, ep_digest = digest, ep_context = context,
          ep_processor = processor, ep_kind = metric_for_task (pe_task e)\<rparr>)))))))"

section \<open>Learning from an answer\<close>

record placement_feedback =
  pf_gpu :: "(task_kind, stats) btree"
  pf_cpu :: "(task_kind, stats) btree"

definition learn_stats ::
  "string \<Rightarrow> nat option \<Rightarrow> nat \<Rightarrow> (exec_profile \<times> nat) option \<Rightarrow> stats \<Rightarrow> stats" where
  "learn_stats model work queue_wait_ms learned s =
     (let s1 = fs_record model work queue_wait_ms s
      in case learned of Some (prof, duration) \<Rightarrow> record_profile prof duration s1 | None \<Rightarrow> s1)"

definition learned_sample ::
  "string + exec_profile \<Rightarrow> nat option \<Rightarrow> (exec_profile \<times> nat) option" where
  "learned_sample learning_profile work =
     (case (learning_profile, work) of (Inr prof, Some d) \<Rightarrow> Some (prof, d) | _ \<Rightarrow> None)"

definition learn_feedback ::
  "backend \<Rightarrow> task_kind \<Rightarrow> string \<Rightarrow> bool \<Rightarrow> nat option \<Rightarrow> nat \<Rightarrow> string + exec_profile \<Rightarrow>
   placement_feedback \<Rightarrow> placement_feedback" where
  "learn_feedback placement task model accepted work queue_wait_ms learning_profile f =
     (let by_task = (if placement = Cpu then pf_cpu f else pf_gpu f);
          entry = (case bt_get by_task task of None \<Rightarrow> stats_default | Some s \<Rightarrow> s);
          entry' = (if accepted
                    then learn_stats model work queue_wait_ms (learned_sample learning_profile work) entry
                    else entry);
          by_task' = bt_put task entry' by_task
      in if placement = Cpu then f\<lparr>pf_cpu := by_task'\<rparr> else f\<lparr>pf_gpu := by_task'\<rparr>)"

end
