(* ===== verification/Feedback_Run.thy ===== *)
theory Feedback_Run
  imports Feedback Admission_Run
begin

text \<open>
  What the learned statistics mean (\<open>platform/feedback.rs\<close>): the statistics of a task are a function
  of the samples since the model last changed, and a profile's average is the mean of its last
  unbroken run. Profiles with one identity are comparable executions, and an admission interval that
  the code accepts is one in which nothing else ran under the pool's lock.
\<close>

section \<open>The specification of the statistics\<close>

record sample =
  sm_model :: string
  sm_work :: "nat option"
  sm_wait :: nat
  sm_learned :: "(exec_profile \<times> nat) option"

definition learn :: "stats \<Rightarrow> sample \<Rightarrow> stats" where
  "learn s x = learn_stats (sm_model x) (sm_work x) (sm_wait x) (sm_learned x) s"

text \<open>The samples since the model last changed, latest first, and in them the current profile's run.\<close>

definition model_run :: "sample list \<Rightarrow> sample list" where
  "model_run xs = takeWhile (\<lambda>x. sm_model x = sm_model (last xs)) (rev xs)"

definition works :: "sample list \<Rightarrow> nat list" where
  "works xs = List.map_filter sm_work xs"

definition profiled :: "sample list \<Rightarrow> (exec_profile \<times> nat) list" where
  "profiled xs = List.map_filter sm_learned xs"

definition profile_run :: "exec_profile \<Rightarrow> sample list \<Rightarrow> nat list" where
  "profile_run p xs = map snd (takeWhile (\<lambda>(q, _). q = p) (profiled xs))"

definition current_run :: "sample list \<Rightarrow> nat list" where
  "current_run seg = (case profiled seg of [] \<Rightarrow> [] | (p, _) # _ \<Rightarrow> profile_run p seg)"

definition head :: "'a list \<Rightarrow> 'a option" where
  "head xs = (case xs of [] \<Rightarrow> None | x # _ \<Rightarrow> Some x)"

definition stats_of :: "sample list \<Rightarrow> stats" where
  "stats_of seg = \<lparr>fs_model = map_option sm_model (head seg), fs_completed = length seg,
     fs_duration_samples = length (works seg), fs_total_work_unit_ns = sum_list (works seg),
     fs_total_queue_wait_ms = sum_list (map sm_wait seg), fs_last_work_unit_ns = head (works seg),
     fs_profile = map_option fst (head (profiled seg)),
     fs_profile_samples = length (current_run seg), fs_profile_total = sum_list (current_run seg)\<rparr>"

definition sample_ok :: "sample \<Rightarrow> bool" where
  "sample_ok x \<longleftrightarrow> (case sm_work x of Some d \<Rightarrow> d \<le> u64_max | None \<Rightarrow> True) \<and>
     (case sm_learned x of Some (_, d) \<Rightarrow> d \<le> u64_max | None \<Rightarrow> True)"

lemma head_simps [simp]: "head [] = None" "head (y # ys) = Some y"
  by (simp_all add: head_def)

lemma run_simps [simp]:
  "works [] = []" "profiled [] = []" "current_run [] = []"
  "works (x # xs) = (case sm_work x of Some d \<Rightarrow> d # works xs | None \<Rightarrow> works xs)"
  "profiled (x # xs) = (case sm_learned x of Some d \<Rightarrow> d # profiled xs | None \<Rightarrow> profiled xs)"
  by (simp_all add: works_def profiled_def current_run_def List.map_filter_def split: option.split)

lemma model_run_single [simp]: "model_run [x] = [x]"
  by (simp add: model_run_def)

lemma model_run_snoc:
  "xs \<noteq> [] \<Longrightarrow> model_run (xs @ [x]) =
    (if sm_model x = sm_model (last xs) then x # model_run xs else [x])"
proof -
  assume "xs \<noteq> []"
  then obtain ys y where "xs = ys @ [y]" by (metis rev_exhaust)
  then show ?thesis by (simp add: model_run_def)
qed

lemma model_run_hd: "xs \<noteq> [] \<Longrightarrow> head (model_run xs) = Some (last xs)"
  by (cases xs rule: rev_exhaust) (simp_all add: model_run_def)

lemma model_run_length: "length (model_run xs) \<le> length xs"
  unfolding model_run_def using length_takeWhile_le [of _ "rev xs"] by simp

lemma model_run_waits: "sum_list (map sm_wait (model_run xs)) \<le> sum_list (map sm_wait xs)"
proof -
  have "sum_list (map sm_wait (takeWhile P ys)) \<le> sum_list (map sm_wait ys)" for P ys
    by (induction ys) auto
  from this [of _ "rev xs"] show ?thesis by (simp add: model_run_def rev_map [symmetric])
qed

lemma model_run_ok: "list_all sample_ok xs \<Longrightarrow> list_all sample_ok (model_run xs)"
  by (auto simp: model_run_def list_all_iff dest: set_takeWhileD)

lemma works_bound:
  "list_all sample_ok seg \<Longrightarrow> length (works seg) \<le> length seg \<and>
    sum_list (works seg) \<le> length seg * u64_max"
  by (induction seg) (auto simp: sample_ok_def split: option.splits)

lemma profiled_bound:
  "list_all sample_ok seg \<Longrightarrow> length (profiled seg) \<le> length seg \<and>
    (\<forall>(p, d) \<in> set (profiled seg). d \<le> u64_max)"
  by (induction seg) (auto simp: sample_ok_def split: option.splits)

lemma profile_run_bound:
  assumes "list_all sample_ok seg"
  shows "length (profile_run p seg) \<le> length seg \<and> sum_list (profile_run p seg) \<le> length seg * u64_max"
proof -
  let ?tw = "takeWhile (\<lambda>(q, _). q = p) (profiled seg)"
  have len: "length ?tw \<le> length seg"
    using profiled_bound [OF assms] length_takeWhile_le order_trans by blast
  have "sum_list (map snd ?tw) \<le> length ?tw * u64_max"
  proof -
    have "sum_list (map snd zs) \<le> length zs * u64_max" if "\<forall>(q, d) \<in> set zs. d \<le> u64_max"
      for zs :: "(exec_profile \<times> nat) list"
      using that by (induction zs) auto
    moreover have "\<forall>(q, d) \<in> set ?tw. d \<le> u64_max"
      using profiled_bound [OF assms] by (auto dest: set_takeWhileD)
    ultimately show ?thesis by blast
  qed
  also have "\<dots> \<le> length seg * u64_max" using len by (rule mult_le_mono1)
  finally show ?thesis using len by (simp add: profile_run_def)
qed

lemma current_run_bound:
  assumes "list_all sample_ok seg"
  shows "length (current_run seg) \<le> length seg \<and> sum_list (current_run seg) \<le> length seg * u64_max"
  using profile_run_bound [OF assms] by (auto simp: current_run_def split: list.splits)

lemma square_bound: "n < u64_max \<Longrightarrow> d \<le> u64_max \<Longrightarrow> a \<le> n * u64_max \<Longrightarrow> a + d \<le> u128_max"
proof -
  assume n: "n < u64_max" and d: "d \<le> u64_max" and a: "a \<le> n * u64_max"
  have "n * u64_max \<le> (u64_max - 1) * u64_max" using n by (intro mult_le_mono1) linarith
  moreover have "(u64_max - 1) * u64_max + u64_max \<le> u128_max" by (simp add: u128_max_def u64_max_def)
  ultimately show ?thesis using a d by linarith
qed

lemma current_run_Cons:
  "current_run (x # seg) =
    (case sm_learned x of None \<Rightarrow> current_run seg
     | Some (p, d) \<Rightarrow> d # (if map_option fst (head (profiled seg)) = Some p then current_run seg else []))"
  by (auto simp: current_run_def profile_run_def head_def split: option.splits list.splits)

lemma learn_stats_of:
  assumes "sample_ok x" and "list_all sample_ok seg" and "length seg < u64_max"
    and "sum_list (map sm_wait (x # seg)) \<le> u128_max"
    and "seg \<noteq> [] \<Longrightarrow> sm_model x = sm_model (hd seg)"
  shows "learn (stats_of seg) x = stats_of (x # seg)"
proof -
  have w: "length (works seg) \<le> length seg" "sum_list (works seg) \<le> length seg * u64_max"
    using works_bound [OF assms(2)] by auto
  have r: "length (current_run seg) \<le> length seg" "sum_list (current_run seg) \<le> length seg * u64_max"
    using current_run_bound [OF assms(2)] by auto
  have model: "fs_model (stats_of seg) = None \<or> fs_model (stats_of seg) = Some (sm_model x)"
    using assms(5) by (cases seg) (auto simp: stats_of_def)
  have work: "d \<le> u64_max" if "sm_work x = Some d" for d
    using assms(1) that by (simp add: sample_ok_def)
  have learned: "d \<le> u64_max" if "sm_learned x = Some (p, d)" for p d
    using assms(1) that by (simp add: sample_ok_def)
  have waits: "sm_wait x + sum_list (map sm_wait seg) \<le> u128_max" using assms(4) by simp
  have recorded: "fs_record (sm_model x) (sm_work x) (sm_wait x) (stats_of seg) =
     (stats_of seg)\<lparr>fs_model := Some (sm_model x), fs_completed := Suc (length seg),
        fs_duration_samples := length (works (x # seg)),
        fs_total_work_unit_ns := sum_list (works (x # seg)),
        fs_total_queue_wait_ms := sum_list (map sm_wait (x # seg)),
        fs_last_work_unit_ns := head (works (x # seg))\<rparr>"
    using model waits assms(3) w square_bound [OF assms(3) work w(2)]
    by (auto simp: fs_record_def stats_of_def Let_def sat_add_exact add.commute split: option.splits)
  show ?thesis
  proof (cases "sm_learned x")
    case None
    then show ?thesis
      using recorded by (simp add: learn_def learn_stats_def stats_of_def current_run_Cons)
  next
    case (Some pd)
    obtain p d where pd: "pd = (p, d)" by force
    have "d \<le> u64_max" using learned Some pd by simp
    then have "sum_list (current_run seg) + d \<le> u128_max"
      by (rule square_bound [OF assms(3) _ r(2)])
    moreover from this have "d \<le> u128_max" by linarith
    ultimately show ?thesis
      using recorded Some pd r(1) assms(3)
      by (auto simp: learn_def learn_stats_def record_profile_def stats_of_def current_run_Cons Let_def
          sat_add_exact add.commute)
  qed
qed

lemma learn_forgets:
  "fs_model s \<noteq> None \<Longrightarrow> fs_model s \<noteq> Some (sm_model x) \<Longrightarrow> learn s x = learn stats_default x"
  by (auto simp: learn_def learn_stats_def fs_record_def Let_def stats_default_def split: option.splits)

lemma stats_default_is_empty: "stats_default = stats_of []"
  by (simp add: stats_default_def stats_of_def)

lemma learned_stats:
  "list_all sample_ok xs \<Longrightarrow> length xs \<le> u64_max \<Longrightarrow> sum_list (map sm_wait xs) \<le> u128_max \<Longrightarrow>
    foldl learn stats_default xs = stats_of (model_run xs)"
proof (induction xs rule: rev_induct)
  case Nil
  then show ?case by (simp add: stats_default_is_empty model_run_def)
next
  case (snoc x xs)
  have IH: "foldl learn stats_default xs = stats_of (model_run xs)" using snoc by simp
  have single: "learn stats_default x = stats_of [x]"
    using learn_stats_of [of x "[]"] snoc.prems by (simp add: stats_default_is_empty u64_max_def)
  show ?case
  proof (cases "xs = []")
    case True
    then show ?thesis using single by simp
  next
    case False
    then have hd: "head (model_run xs) = Some (last xs)" by (rule model_run_hd)
    then have ne: "model_run xs \<noteq> []" "hd (model_run xs) = last xs"
      by (auto simp: head_def split: list.splits)
    show ?thesis
    proof (cases "sm_model x = sm_model (last xs)")
      case True
      have "learn (stats_of (model_run xs)) x = stats_of (x # model_run xs)"
      proof (rule learn_stats_of)
        show "length (model_run xs) < u64_max"
          using model_run_length [of xs] snoc.prems(2) by simp
        show "sum_list (map sm_wait (x # model_run xs)) \<le> u128_max"
          using model_run_waits [of xs] snoc.prems(3) by simp
      qed (use snoc.prems ne True model_run_ok in auto)
      then show ?thesis using IH True False by (simp add: model_run_snoc)
    next
      case other: False
      have "fs_model (stats_of (model_run xs)) = Some (sm_model (last xs))"
        using hd by (simp add: stats_of_def)
      then have "learn (stats_of (model_run xs)) x = learn stats_default x"
        using other by (intro learn_forgets) auto
      then show ?thesis using IH single other False by (simp add: model_run_snoc)
    qed
  qed
qed

lemma average_is_run_mean:
  "average_for_profile p (stats_of seg) =
    (let r = profile_run p seg in
     if 3 \<le> length r \<and> 0 < sum_list r then Some (sum_list r div length r) else None)"
proof (cases "profiled seg")
  case Nil
  then show ?thesis
    by (simp add: average_for_profile_def stats_of_def profile_run_def)
next
  case (Cons pd rest)
  obtain q d where pd: "pd = (q, d)" by force
  show ?thesis
  proof (cases "q = p")
    case True
    then have "current_run seg = profile_run p seg" using Cons pd by (simp add: current_run_def)
    then have "fs_profile_samples (stats_of seg) = length (profile_run p seg)"
      "fs_profile_total (stats_of seg) = sum_list (profile_run p seg)"
      by (simp_all add: stats_of_def)
    moreover have "fs_profile (stats_of seg) = Some p" using Cons pd True by (simp add: stats_of_def)
    ultimately show ?thesis
      unfolding average_for_profile_def MIN_FEEDBACK_SAMPLES_def Let_def by (simp only: simp_thms)
  next
    case False
    then show ?thesis using Cons pd
      by (simp add: average_for_profile_def stats_of_def profile_run_def)
  qed
qed

section \<open>The admission interval\<close>

lemma as_u64_jnatD: "as_u64 (jnat n) = Some v \<Longrightarrow> v = n"
  by (auto simp: jnat_def split: if_splits)

lemma receipt_fields [simp]:
  "jindex (adm_receipt now s) ''admitted'' = jnat (adm_admitted s)"
  "jindex (adm_receipt now s) ''released'' = jnat (adm_released s)"
  "jindex (adm_receipt now s) ''policy_epoch'' = jnat (adm_policy_epoch s)"
  "jindex (adm_receipt now s) ''slots_total'' = jnat (adm_limit s)"
  "jindex (adm_receipt now s) ''slots_ceiling'' = jnat (adm_ceiling s)"
  "jindex (adm_receipt now s) ''active_units'' = jnat (adm_active s)"
  "jindex (adm_receipt now s) ''in_flight'' = jnat (adm_in_flight s)"
  by (simp_all add: adm_receipt_def jindex_def)

lemma unchanged_receipts:
  assumes "unchanged_admission_interval (adm_receipt now s) (adm_receipt now' s')"
  shows "adm_admitted s' = adm_admitted s \<and> adm_released s' = adm_released s \<and>
    adm_policy_epoch s' = adm_policy_epoch s \<and> adm_in_flight s' = adm_in_flight s"
  using assms
  by (auto simp: unchanged_admission_interval_def interval_fields_def dest!: as_u64_jnatD split: option.splits)

definition policy_of :: "adm \<Rightarrow> nat \<times> nat" where
  "policy_of s = (adm_limit s, adm_ceiling s)"

text \<open>What one critical section does to the permits, to the policy and to their counters.\<close>

definition permits_step :: "adm_sys \<Rightarrow> adm_sys \<Rightarrow> bool" where
  "permits_step \<sigma> \<tau> \<longleftrightarrow>
     (sys_permits \<tau> = sys_permits \<sigma> \<and> adm_admitted (sys_pool \<tau>) = adm_admitted (sys_pool \<sigma>) \<and>
        adm_released (sys_pool \<tau>) = adm_released (sys_pool \<sigma>)) \<or>
     (adm_admitted (sys_pool \<tau>) = sat_add u64_max (adm_admitted (sys_pool \<sigma>)) 1 \<and>
        adm_released (sys_pool \<tau>) = adm_released (sys_pool \<sigma>)) \<or>
     (adm_admitted (sys_pool \<tau>) = adm_admitted (sys_pool \<sigma>) \<and>
        adm_released (sys_pool \<tau>) = sat_add u64_max (adm_released (sys_pool \<sigma>)) 1)"

definition policy_step :: "adm \<Rightarrow> adm \<Rightarrow> bool" where
  "policy_step s t \<longleftrightarrow>
     (policy_of t = policy_of s \<and> adm_policy_epoch t = adm_policy_epoch s) \<or>
     adm_policy_epoch t = wrapping_add u64_max (adm_policy_epoch s) 1"

lemma selected_epoch: "selected_waiter s = (r, s') \<Longrightarrow> adm_policy_epoch s' = adm_policy_epoch s"
  by (auto simp: selected_waiter_def record_capacity_bypasses_def spend_credit_def Let_def
      split: option.splits if_splits)

lemma grant_next_policy:
  assumes "grant_next s = (s', b)"
  shows "adm_admitted s' = adm_admitted s \<and> adm_released s' = adm_released s \<and>
    adm_policy_epoch s' = adm_policy_epoch s \<and> policy_of s' = policy_of s"
proof (cases "adm_granted s")
  case None
  obtain r s1 where sel: "selected_waiter s = (r, s1)" by force
  show ?thesis
    using assms None sel selected_same_queue [OF sel] selected_epoch [OF sel]
    by (auto simp: grant_next_def same_queue_def policy_of_def split: option.splits)
next
  case (Some t)
  then show ?thesis using assms by (simp add: grant_next_def)
qed

lemma poll_policy:
  assumes "adm_poll now dl t s = (r, s')"
  shows "adm_released s' = adm_released s \<and> adm_policy_epoch s' = adm_policy_epoch s \<and>
    policy_of s' = policy_of s \<and>
    adm_admitted s' = (case r of PollAcquired _ \<Rightarrow> sat_add u64_max (adm_admitted s) 1 | _ \<Rightarrow> adm_admitted s)"
proof -
  obtain s1 b where g: "grant_next s = (s1, b)" by force
  show ?thesis
    using assms g grant_next_policy [OF g]
    by (auto simp: adm_poll_def claim_at_def Let_def policy_of_def split: if_splits option.splits)
qed

lemmas pool_ops = adm_enqueue_def register_resource_waiter_def adm_timer_expired_def
  wait_guard_drop_def resource_guard_drop_def resource_to_slot_def set_max_waiters_def
  record_transition_timeout_def note_issued_def Let_def policy_of_def

lemma step_permits: "permits_step \<sigma> (adm_step \<sigma> e)"
proof (cases e)
  case (EvPoll now dl t)
  obtain r s' where p: "adm_poll now dl t (sys_pool \<sigma>) = (r, s')" by force
  show ?thesis using poll_policy [OF p] p EvPoll
    by (auto simp: permits_step_def split: poll.splits)
next
  case (EvSetCeiling n)
  then show ?thesis by (simp add: permits_step_def set_ceiling_def Let_def)
next
  case (EvSetLimit n)
  then show ?thesis by (simp add: permits_step_def set_limit_def Let_def)
next
  case (EvPermitDrop c)
  then show ?thesis by (auto simp: permits_step_def permit_drop_def)
qed (auto simp: permits_step_def pool_ops)

lemma step_policy: "policy_step (sys_pool \<sigma>) (sys_pool (adm_step \<sigma> e))"
proof (cases e)
  case (EvPoll now dl t)
  obtain r s' where p: "adm_poll now dl t (sys_pool \<sigma>) = (r, s')" by force
  show ?thesis using poll_policy [OF p] p EvPoll
    by (auto simp: policy_step_def split: poll.splits)
next
  case (EvSetCeiling n)
  then show ?thesis by (auto simp: policy_step_def policy_of_def set_ceiling_def Let_def)
next
  case (EvSetLimit n)
  then show ?thesis by (auto simp: policy_step_def policy_of_def set_limit_def Let_def)
next
  case (EvPermitDrop c)
  then show ?thesis by (auto simp: policy_step_def policy_of_def permit_drop_def)
qed (auto simp: policy_step_def pool_ops)

abbreviation after :: "adm_sys \<Rightarrow> adm_event list \<Rightarrow> nat \<Rightarrow> adm_sys" where
  "after \<sigma> es k \<equiv> foldl adm_step \<sigma> (take k es)"

lemma released_bounded: "adm_released (sys_pool \<sigma>) \<le> u64_max \<Longrightarrow>
    adm_released (sys_pool (adm_step \<sigma> e)) \<le> u64_max"
  using step_permits [of \<sigma> e] by (auto simp: permits_step_def)

interpretation admitted: monotone_system adm_step adm_event_ok adm_inv "\<lambda>\<sigma>. adm_admitted (sys_pool \<sigma>)"
proof unfold_locales
  fix \<sigma> e assume "adm_inv \<sigma>"
  then have "adm_admitted (sys_pool \<sigma>) \<le> u64_max" by (simp add: adm_inv_def ledger_ok_def)
  then show "adm_admitted (sys_pool \<sigma>) \<le> adm_admitted (sys_pool (adm_step \<sigma> e))"
    using step_permits [of \<sigma> e] by (auto simp: permits_step_def sat_add_mono)
qed

interpretation released: monotone_system adm_step adm_event_ok
  "\<lambda>\<sigma>. adm_inv \<sigma> \<and> adm_released (sys_pool \<sigma>) \<le> u64_max" "\<lambda>\<sigma>. adm_released (sys_pool \<sigma>)"
proof unfold_locales
  fix \<sigma> e assume "adm_inv \<sigma> \<and> adm_released (sys_pool \<sigma>) \<le> u64_max"
  then show "adm_released (sys_pool \<sigma>) \<le> adm_released (sys_pool (adm_step \<sigma> e))"
    using step_permits [of \<sigma> e] by (auto simp: permits_step_def sat_add_mono)
qed (auto intro: adm_step_inv released_bounded)

lemma quiet_permits:
  "adm_inv \<sigma> \<Longrightarrow> list_all adm_event_ok es \<Longrightarrow>
   adm_admitted (sys_pool (foldl adm_step \<sigma> es)) = adm_admitted (sys_pool \<sigma>) \<Longrightarrow>
   adm_released (sys_pool (foldl adm_step \<sigma> es)) = adm_released (sys_pool \<sigma>) \<Longrightarrow>
   adm_admitted (sys_pool \<sigma>) < u64_max \<Longrightarrow> sys_permits (after \<sigma> es k) = sys_permits \<sigma>"
proof (induction es arbitrary: \<sigma> k)
  case Nil
  then show ?case by simp
next
  case (Cons e es)
  let ?\<tau> = "adm_step \<sigma> e"
  have inv: "adm_inv ?\<tau>" using Cons.prems adm_step_inv by simp
  have rel: "adm_released (sys_pool \<sigma>) < u64_max"
    using Cons.prems by (simp add: adm_inv_def ledger_ok_def)
  have mono: "adm_admitted (sys_pool ?\<tau>) \<le> adm_admitted (sys_pool \<sigma>)"
    using admitted.run_mono [OF inv, of es] Cons.prems by simp
  have "adm_released (sys_pool ?\<tau>) \<le> adm_released (sys_pool \<sigma>)"
    using released.run_mono [of ?\<tau> es] inv released_bounded [of \<sigma> e] rel Cons.prems by simp
  then have same: "sys_permits ?\<tau> = sys_permits \<sigma>"
      "adm_admitted (sys_pool ?\<tau>) = adm_admitted (sys_pool \<sigma>)"
      "adm_released (sys_pool ?\<tau>) = adm_released (sys_pool \<sigma>)"
    using step_permits [of \<sigma> e] mono rel Cons.prems(5)
    by (auto simp: permits_step_def sat_add_exact)
  show ?case
  proof (cases k)
    case (Suc j)
    then show ?thesis using Cons.IH [OF inv, of j] Cons.prems same by simp
  qed simp
qed

lemma policy_changes:
  "\<exists>c \<le> length es.
     adm_policy_epoch (sys_pool (foldl adm_step \<sigma> es)) mod 2 ^ 64 =
       (adm_policy_epoch (sys_pool \<sigma>) + c) mod 2 ^ 64 \<and>
     (c = 0 \<longrightarrow> (\<forall>k. policy_of (sys_pool (after \<sigma> es k)) = policy_of (sys_pool \<sigma>)))"
proof (induction es arbitrary: \<sigma>)
  case Nil
  then show ?case by auto
next
  case (Cons e es)
  let ?\<tau> = "adm_step \<sigma> e"
  obtain c where c: "c \<le> length es"
    "adm_policy_epoch (sys_pool (foldl adm_step ?\<tau> es)) mod 2 ^ 64 =
       (adm_policy_epoch (sys_pool ?\<tau>) + c) mod 2 ^ 64"
    "c = 0 \<Longrightarrow> policy_of (sys_pool (after ?\<tau> es k)) = policy_of (sys_pool ?\<tau>)" for k
    using Cons.IH [of ?\<tau>] by blast
  have take: "after \<sigma> (e # es) k = (case k of 0 \<Rightarrow> \<sigma> | Suc j \<Rightarrow> after ?\<tau> es j)" for k
    by (cases k) simp_all
  show ?case
  proof (cases "policy_of (sys_pool ?\<tau>) = policy_of (sys_pool \<sigma>) \<and>
      adm_policy_epoch (sys_pool ?\<tau>) = adm_policy_epoch (sys_pool \<sigma>)")
    case True
    then show ?thesis using c by (intro exI [of _ c]) (auto simp: take split: nat.split)
  next
    case False
    then have "adm_policy_epoch (sys_pool ?\<tau>) = wrapping_add u64_max (adm_policy_epoch (sys_pool \<sigma>)) 1"
      using step_policy [of \<sigma> e] by (auto simp: policy_step_def)
    then have "(adm_policy_epoch (sys_pool ?\<tau>) + c) mod 2 ^ 64 =
        (adm_policy_epoch (sys_pool \<sigma>) + Suc c) mod 2 ^ 64"
      by (simp add: wrapping_add_def u64_max_def mod_add_left_eq)
    then show ?thesis using c by (intro exI [of _ "Suc c"]) auto
  qed
qed

lemma epoch_unchanged: "(e + c) mod 2 ^ 64 = e mod (2 :: nat) ^ 64 \<Longrightarrow> c < 2 ^ 64 \<Longrightarrow> c = 0"
proof -
  assume eq: "(e + c) mod 2 ^ 64 = e mod (2 :: nat) ^ 64" and c: "c < 2 ^ 64"
  have "(2 :: nat) ^ 64 dvd (e + c) - e" using eq by (metis le_add1 mod_eq_dvd_iff_nat)
  then show ?thesis using c by (auto dest: dvd_imp_le)
qed

section \<open>Comparable executions\<close>

lemma require_Inr [simp]: "require err v = Inr x \<longleftrightarrow> v = Some x"
  by (simp add: require_def split: option.split)

definition comparable :: "profile_evidence \<Rightarrow> profile_evidence \<Rightarrow> bool" where
  "comparable a b \<longleftrightarrow>
     pe_task a = pe_task b \<and> pe_model a = pe_model b \<and> pe_upstream a = pe_upstream b \<and>
     pe_catalog_digest a = pe_catalog_digest b \<and>
     jindex (pe_placement a) ''processor'' = jindex (pe_placement b) ''processor'' \<and>
     get_u64 (jindex (pe_body a) ''options'') ''num_ctx'' = get_u64 (jindex (pe_body b) ''options'') ''num_ctx'' \<and>
     list_all (\<lambda>k. jindex (pe_body a) k = jindex (pe_body b) k) profile_controls \<and>
     pe_dispatch_settings a = pe_dispatch_settings b \<and>
     list_all (\<lambda>k. jindex (pe_dispatch a) k = jindex (pe_dispatch b) k)
       [''slots_total'', ''slots_ceiling'', ''active_units'', ''in_flight'']"

lemma profile_observed:
  assumes "profile_from_observations sha e = Inr p"
  obtains processor digest ctx settings where
    "jindex (pe_placement e) ''status'' = JStr ''verified''"
    "jindex (pe_placement e) ''processor'' = JStr processor"
    "pe_catalog_digest e = Some digest" "digest \<noteq> []" "0 < ctx"
    "get_u64 (jindex (pe_body e) ''options'') ''num_ctx'' = Some ctx" "pe_warm e"
    "jindex (pe_dispatch e) ''in_flight'' = JInt 1"
    "unchanged_admission_interval (pe_dispatch e) (pe_completion e)"
    "pe_dispatch_settings e = Some settings" "pe_completion_settings e = Some settings"
    "ep_id p = sha (profile_material e processor digest ctx settings)"
    "ep_model p = pe_model e" "ep_task p = pe_task e"
proof -
  have str: "as_str j = Some x \<Longrightarrow> j = JStr x" for j x by (cases j) auto
  show ?thesis
    using assms that
    by (auto simp: profile_from_observations_def profile_identity_def and_then_Inr ensure_def
        Option.bind_eq_Some_conv dest!: str split: if_splits)
qed

lemma material_comparable:
  assumes eq: "profile_material a p d c s = profile_material b p' d' c' s'"
  shows "task_as_str (pe_task a) = task_as_str (pe_task b) \<and> pe_model a = pe_model b \<and>
    pe_upstream a = pe_upstream b \<and> d = d' \<and> p = p' \<and> c = c' \<and> s = s' \<and>
    list_all (\<lambda>k. jindex (pe_body a) k = jindex (pe_body b) k) profile_controls \<and>
    list_all (\<lambda>k. jindex (pe_dispatch a) k = jindex (pe_dispatch b) k)
      [''slots_total'', ''slots_ceiling'', ''active_units'']"
proof -
  note fields = object_eq [OF eq [unfolded profile_material_def], simplified]
  have controls: "json_object (map (\<lambda>k. (k, jindex (pe_body a) k)) profile_controls) =
      json_object (map (\<lambda>k. (k, jindex (pe_body b) k)) profile_controls)"
    and class_eq: "admission_class (pe_dispatch a) = admission_class (pe_dispatch b)"
    using fields [of "''controls''"] fields [of "''admission_class''"] by simp_all
  have keys: "map fst (map (\<lambda>k. (k, jindex body k)) profile_controls) = profile_controls" for body
    by (simp add: o_def)
  have dist: "distinct profile_controls" by (simp add: profile_controls_def)
  have "jindex (pe_body a) k = jindex (pe_body b) k" if k: "k \<in> set profile_controls" for k
  proof -
    have "map_of (map (\<lambda>k. (k, jindex body k)) profile_controls) k = Some (jindex body k)" for body
      using k by (simp add: map_of_map_restrict)
    then show ?thesis using object_eq [OF controls, of k] keys dist by simp
  qed
  moreover note classes = object_eq [OF class_eq [unfolded admission_class_def], simplified]
  have "jindex (pe_dispatch a) ''slots_total'' = jindex (pe_dispatch b) ''slots_total''"
    "jindex (pe_dispatch a) ''slots_ceiling'' = jindex (pe_dispatch b) ''slots_ceiling''"
    "jindex (pe_dispatch a) ''active_units'' = jindex (pe_dispatch b) ''active_units''"
    using classes [of "''limit''"] classes [of "''ceiling''"] classes [of "''charged_units''"]
    by simp_all
  ultimately show ?thesis
    using fields [of "''task''"] fields [of "''model''"] fields [of "''upstream''"] fields [of "''digest''"]
      fields [of "''processor''"] fields [of "''context_tokens''"] fields [of "''backend_settings''"]
    by (simp add: list_all_iff jnat_def)
qed

section \<open>Properties\<close>

text \<open>
  learned statistics. After any sequence of accepted samples the statistics are those of the
  samples since the model last changed, and the average that placement compares for a profile is the
  mean of the latest unbroken run of that profile, once it has three samples; no counter saturates.
\<close>

theorem profile_average_is_its_run_mean:
  assumes "list_all sample_ok xs" and "length xs \<le> u64_max" and "sum_list (map sm_wait xs) \<le> u128_max"
  shows "foldl learn stats_default xs = stats_of (model_run xs) \<and>
    average_for_profile p (foldl learn stats_default xs) =
      (let r = profile_run p (model_run xs) in
       if 3 \<le> length r \<and> 0 < sum_list r then Some (sum_list r div length r) else None)"
  using learned_stats [OF assms] average_is_run_mean [of p "model_run xs"] by simp

definition sample_profile :: exec_profile where
  "sample_profile = \<lparr>ep_id = ''a'', ep_task = TCoding, ep_model = ''m'', ep_digest = ''d'',
     ep_context = 4096, ep_processor = ''gpu'', ep_kind = OutputTokensPerSecond\<rparr>"

definition sample_at :: "string \<Rightarrow> nat \<Rightarrow> sample" where
  "sample_at m d = \<lparr>sm_model = m, sm_work = Some d, sm_wait = 5, sm_learned = Some (sample_profile, d)\<rparr>"

theorem profile_average_is_its_run_mean_witness:
  "average_for_profile sample_profile
     (foldl learn stats_default [sample_at ''n'' 900, sample_at ''m'' 10, sample_at ''m'' 20, sample_at ''m'' 31]) =
   Some 20"
proof -
  let ?xs = "[sample_at ''n'' 900, sample_at ''m'' 10, sample_at ''m'' 20, sample_at ''m'' 31]"
  have "list_all sample_ok ?xs" "length ?xs \<le> u64_max" "sum_list (map sm_wait ?xs) \<le> u128_max"
    by (simp_all add: sample_ok_def sample_at_def u64_max_def u128_max_def)
  note mean = profile_average_is_its_run_mean [OF this, of sample_profile, THEN conjunct2]
  have "profile_run sample_profile (model_run ?xs) = [31, 20, 10]"
    by (simp add: model_run_def profile_run_def profiled_def sample_at_def List.map_filter_def)
  then show ?thesis unfolding mean by (simp add: Let_def)
qed

text \<open>
  the placement hint. A hint names a backend without free capacity only when the other one has
  none either; a measured hint is given only to an unpinned automatic request outside the quality
  objective, and only for an advantage of more than ten percent in the exact averages; without a
  preference there is no hint for a pinned route.
\<close>

theorem placement_hint_sound:
  assumes "desired_placement s = Some (b, why)"
  shows "(if b = Cpu then cpu_ready s \<or> \<not> gpu_ready s else gpu_ready s \<or> \<not> cpu_ready s) \<and>
    (why = ''measured_backend_faster'' \<longrightarrow>
       (\<exists>g c. pl_gpu_ns s = Some g \<and> pl_cpu_ns s = Some c \<and>
          (if b = Cpu then 100 * c < 90 * g else 100 * g < 90 * c))) \<and>
    (pl_preference s = PreferAuto \<longrightarrow> \<not> pl_pinned s \<and> pl_objective s \<noteq> Quality)"
proof -
  have faster: "meaningfully_faster x y \<Longrightarrow> 100 * x < 90 * y" for x y
    by (auto simp: meaningfully_faster_def MIN_FEEDBACK_IMPROVEMENT_PERCENT_def sat_mul_def min_def
        split: if_splits)
  show ?thesis
    using assms
    by (auto simp: desired_placement_def prefer_cpu_def prefer_gpu_def by_capacity_def
        dest: faster split: execution_preference.splits option.splits if_splits)
qed

definition sample_signals :: placement_signals where
  "sample_signals = \<lparr>pl_pinned = False, pl_objective = Fastest, pl_preference = PreferAuto,
     pl_gpu_ns = Some 100, pl_cpu_ns = Some 89, pl_gpu_slots = 2, pl_cpu_slots = 1, pl_gpu_cost = 1,
     pl_cpu_cost = 1, pl_cpu_configured = True\<rparr>"

theorem placement_hint_sound_witness:
  "desired_placement sample_signals = Some (Cpu, ''measured_backend_faster'') \<and> cpu_ready sample_signals"
proof -
  have d: "desired_placement sample_signals = Some (Cpu, ''measured_backend_faster'')"
    by (simp add: desired_placement_def sample_signals_def meaningfully_faster_def prefer_cpu_def
        cpu_ready_def MIN_FEEDBACK_IMPROVEMENT_PERCENT_def sat_mul_def u128_max_def)
  then show ?thesis using placement_hint_sound [OF d] by (simp add: gpu_ready_def sample_signals_def)
qed

text \<open>
  one identity, one kind of execution. When two observations are given profiles with the same
  identity, they agree on task, model, revision, backend, processor, context, every request control,
  the backend's process settings and the admission class, unless the digest collides.
\<close>

theorem shared_profile_is_comparable:
  assumes "profile_from_observations sha_hex a = Inr p" and "profile_from_observations sha_hex b = Inr q"
    and "ep_id p = ep_id q"
  shows "comparable a b \<or> (\<exists>m n. m \<noteq> n \<and> sha_hex m = sha_hex n)"
proof -
  obtain pr d c s where a: "jindex (pe_placement a) ''processor'' = JStr pr"
    "pe_catalog_digest a = Some d" "get_u64 (jindex (pe_body a) ''options'') ''num_ctx'' = Some c"
    "jindex (pe_dispatch a) ''in_flight'' = JInt 1" "pe_dispatch_settings a = Some s"
    "ep_id p = sha_hex (profile_material a pr d c s)"
    using profile_observed [OF assms(1)] by metis
  obtain pr' d' c' s' where b: "jindex (pe_placement b) ''processor'' = JStr pr'"
    "pe_catalog_digest b = Some d'" "get_u64 (jindex (pe_body b) ''options'') ''num_ctx'' = Some c'"
    "jindex (pe_dispatch b) ''in_flight'' = JInt 1" "pe_dispatch_settings b = Some s'"
    "ep_id q = sha_hex (profile_material b pr' d' c' s')"
    using profile_observed [OF assms(2)] by metis
  show ?thesis
  proof (cases "profile_material a pr d c s = profile_material b pr' d' c' s'")
    case True
    from material_comparable [OF True] show ?thesis
      using a b task_as_str_inject [of "pe_task a" "pe_task b"] by (simp add: comparable_def)
  next
    case False
    then show ?thesis using a(6) b(6) assms(3) by metis
  qed
qed

text \<open>
  the learning interval is serial. If the admission receipts at dispatch and at completion are
  accepted as one unchanged interval with one task in flight, then at every moment between them the
  pool had exactly that one permit, and the same limit and ceiling: no other task was admitted or
  released in between, under any interleaving of arrivals, cancellations and reconfigurations.
\<close>

theorem learning_interval_is_serial:
  assumes "adm_inv \<sigma>" and "list_all adm_event_ok es" and "length es < 2 ^ 64"
    and "adm_admitted (sys_pool \<sigma>) < u64_max"
    and "unchanged_admission_interval (adm_receipt t (sys_pool \<sigma>))
           (adm_receipt t' (sys_pool (foldl adm_step \<sigma> es)))"
    and "jindex (adm_receipt t (sys_pool \<sigma>)) ''in_flight'' = JInt 1"
  shows "\<exists>cost. \<forall>k. sys_permits (after \<sigma> es k) = [cost] \<and>
    policy_of (sys_pool (after \<sigma> es k)) = policy_of (sys_pool \<sigma>)"
proof -
  note same = unchanged_receipts [OF assms(5)]
  have permits: "sys_permits (after \<sigma> es k) = sys_permits \<sigma>" for k
    using quiet_permits [OF assms(1,2) _ _ assms(4)] same by blast
  have "adm_in_flight (sys_pool \<sigma>) = 1" using assms(6) by (simp add: jnat_def)
  then have "length (sys_permits \<sigma>) = 1" using assms(1) by (simp add: adm_inv_def ledger_ok_def)
  then obtain cost where cost: "sys_permits \<sigma> = [cost]" by (auto simp: length_Suc_conv)
  obtain c where c: "c \<le> length es"
    "adm_policy_epoch (sys_pool (foldl adm_step \<sigma> es)) mod 2 ^ 64 =
       (adm_policy_epoch (sys_pool \<sigma>) + c) mod 2 ^ 64"
    "c = 0 \<Longrightarrow> policy_of (sys_pool (after \<sigma> es k)) = policy_of (sys_pool \<sigma>)" for k
    using policy_changes [of es \<sigma>] by blast
  have "c = 0" using epoch_unchanged [of "adm_policy_epoch (sys_pool \<sigma>)" c] c(1,2) same assms(3) by simp
  then show ?thesis using permits cost c(3) by (intro exI [of _ cost]) simp
qed

definition interval_start :: adm_sys where
  "interval_start = adm_run 4 4 [EvEnqueue 2 Normal 0 100, EvPoll 0 100 0]"

theorem learning_interval_is_serial_witness:
  "sys_permits (after interval_start [EvEnqueue 1 Normal 1 9, EvGuardDrop True 1] 1) = [2]"
proof -
  let ?es = "[EvEnqueue 1 Normal 1 9, EvGuardDrop True 1]"
  have inv: "adm_inv interval_start"
    unfolding interval_start_def by (rule adm_run_inv) (simp_all add: usize_max_def u64_max_def)
  have ok: "list_all adm_event_ok ?es" "length ?es < 2 ^ 64" by simp_all
  have lt: "adm_admitted (sys_pool interval_start) < u64_max"
    by (simp add: interval_start_def adm_eval)
  have same: "unchanged_admission_interval (adm_receipt 0 (sys_pool interval_start))
      (adm_receipt 9 (sys_pool (foldl adm_step interval_start ?es)))"
    unfolding unchanged_admission_interval_def interval_fields_def list.pred_inject receipt_fields
    by (simp add: interval_start_def adm_eval)
  have one: "jindex (adm_receipt 0 (sys_pool interval_start)) ''in_flight'' = JInt 1"
    unfolding receipt_fields by (simp add: interval_start_def adm_eval jnat_def)
  obtain cost where cost: "sys_permits (after interval_start ?es k) = [cost]" for k
    using learning_interval_is_serial [OF inv ok lt same one] by blast
  have "sys_permits (after interval_start ?es 0) = [2]"
    by (simp add: interval_start_def adm_eval)
  then show ?thesis using cost [of 0] cost [of 1] by simp
qed

definition sample_receipt :: json where
  "sample_receipt = adm_receipt 0 (sys_pool interval_start)"

definition sample_evidence :: profile_evidence where
  "sample_evidence = \<lparr>pe_task = TCoding, pe_model = ''m'', pe_catalog_digest = Some ''d'',
     pe_upstream = ''u'', pe_body = JObj [(''options'', JObj [(''num_ctx'', JInt 4096)])],
     pe_placement = JObj [(''context_length'', JInt 4096), (''digest'', JStr ''d''),
       (''processor'', JStr ''gpu''), (''status'', JStr ''verified'')],
     pe_dispatch = sample_receipt, pe_completion = sample_receipt,
     pe_dispatch_settings = Some (JObj []), pe_completion_settings = Some (JObj []), pe_warm = True\<rparr>"

definition other_evidence :: profile_evidence where
  "other_evidence = sample_evidence\<lparr>pe_body := JObj [(''options'', JObj [(''num_ctx'', JInt 4096)]),
     (''prompt'', JStr ''p'')], pe_warm := True\<rparr>"

theorem shared_profile_is_comparable_witness:
  "(\<exists>p. profile_from_observations (\<lambda>_. ''x'') other_evidence = Inr p) \<and>
   (comparable sample_evidence other_evidence \<or> (\<exists>m n :: json. m \<noteq> n))"
proof -
  have recv: "unchanged_admission_interval sample_receipt sample_receipt"
    "jindex sample_receipt ''in_flight'' = JInt 1"
    unfolding sample_receipt_def unchanged_admission_interval_def interval_fields_def list.pred_inject receipt_fields
    by (simp_all add: interval_start_def adm_eval jnat_def)
  have ok: "\<exists>p. profile_from_observations (\<lambda>_. ''x'') e = Inr p \<and> ep_id p = ''x''"
    if "e = sample_evidence \<or> e = other_evidence" for e
    using recv that
    by (auto simp: profile_from_observations_def profile_identity_def sample_evidence_def
        other_evidence_def jindex_def require_def get_u64_def u64_max_def ensure_def)
  obtain p where p: "profile_from_observations (\<lambda>_. ''x'') sample_evidence = Inr p" "ep_id p = ''x''"
    using ok [of sample_evidence] by auto
  obtain q where q: "profile_from_observations (\<lambda>_. ''x'') other_evidence = Inr q" "ep_id q = ''x''"
    using ok [of other_evidence] by auto
  have "ep_id p = ep_id q" using p q by simp
  from shared_profile_is_comparable [OF p(1) q(1) this] q(1) show ?thesis by blast
qed

end
