(* ===== verification/Feedback_Store.thy ===== *)
theory Feedback_Store
  imports Feedback_Run
begin

text \<open>
  The persisted feedback snapshot (\<open>load_feedback\<close> and \<open>persist_feedback\<close> of \<open>platform/feedback.rs\<close>):
  the documents that the derived serialisation of the structs writes and reads, the atomic
  replacement of the file, and the writers of concurrent completions in
  \<open>platform/execution/forward.rs\<close>. Printing and parsing a document are arguments.
\<close>

section \<open>Documents of the structs\<close>

definition FEEDBACK_SCHEMA_VERSION :: nat where "FEEDBACK_SCHEMA_VERSION = 1"

definition enc_profile :: "exec_profile \<Rightarrow> json" where
  "enc_profile p = json_object [
     (''id'', JStr (ep_id p)), (''task'', JStr (task_as_str (ep_task p))),
     (''model'', JStr (ep_model p)), (''digest'', JStr (ep_digest p)),
     (''context_tokens'', jnat (ep_context p)), (''processor'', JStr (ep_processor p)),
     (''metric_kind'', JStr (metric_as_str (ep_kind p)))]"

definition enc_stats :: "stats \<Rightarrow> json" where
  "enc_stats s = json_object [
     (''model'', jopt JStr (fs_model s)), (''completed'', jnat (fs_completed s)),
     (''duration_samples'', jnat (fs_duration_samples s)),
     (''total_work_unit_ns'', jnat (fs_total_work_unit_ns s)),
     (''total_queue_wait_ms'', jnat (fs_total_queue_wait_ms s)),
     (''last_work_unit_ns'', jopt jnat (fs_last_work_unit_ns s)),
     (''profile'', jopt enc_profile (fs_profile s)),
     (''profile_duration_samples'', jnat (fs_profile_samples s)),
     (''profile_total_work_unit_ns'', jnat (fs_profile_total s))]"

definition enc_by_task :: "(task_kind, stats) btree \<Rightarrow> json" where
  "enc_by_task m = JObj (map (\<lambda>(t, s). (task_as_str t, enc_stats s)) m)"

definition enc_snapshot :: "placement_feedback \<Rightarrow> json" where
  "enc_snapshot f = json_object [
     (''schema_version'', jnat FEEDBACK_SCHEMA_VERSION),
     (''feedback'', json_object [(''gpu'', enc_by_task (pf_gpu f)), (''cpu'', enc_by_task (pf_cpu f))])]"

text \<open>
  Reading: an unsigned field within its width, an optional field that may be absent, a field with
  \<open>serde(default)\<close>. Unknown keys are ignored.
\<close>

definition dec_uint :: "nat \<Rightarrow> json \<Rightarrow> nat option" where
  "dec_uint bound j = (case j of JInt i \<Rightarrow> if 0 \<le> i \<and> i \<le> int bound then Some (nat i) else None | _ \<Rightarrow> None)"

definition dec_opt :: "(json \<Rightarrow> 'a option) \<Rightarrow> json \<Rightarrow> 'a option option" where
  "dec_opt d j = (if j = JNull then Some None else map_option Some (d j))"

definition field :: "(json \<Rightarrow> 'a option) \<Rightarrow> json \<Rightarrow> string \<Rightarrow> 'a option" where
  "field d j k = Option.bind (jget j k) d"

definition opt_field :: "(json \<Rightarrow> 'a option) \<Rightarrow> json \<Rightarrow> string \<Rightarrow> 'a option option" where
  "opt_field d j k = (case jget j k of None \<Rightarrow> Some None | Some v \<Rightarrow> dec_opt d v)"

definition default_field :: "'a \<Rightarrow> (json \<Rightarrow> 'a option) \<Rightarrow> json \<Rightarrow> string \<Rightarrow> 'a option" where
  "default_field x d j k = (case jget j k of None \<Rightarrow> Some x | Some v \<Rightarrow> d v)"

definition all_tasks :: "task_kind list" where
  "all_tasks = [TCompletion, TCoding, TCodeRepair, TTools, TBrowser, TVision, TEmbedding, TLongContext]"

definition parse_task :: "string \<Rightarrow> task_kind option" where
  "parse_task s = find (\<lambda>t. task_as_str t = s) all_tasks"

definition dec_task :: "json \<Rightarrow> task_kind option" where
  "dec_task j = Option.bind (as_str j) parse_task"

definition dec_metric :: "json \<Rightarrow> metric_kind option" where
  "dec_metric j = Option.bind (as_str j)
     (\<lambda>s. find (\<lambda>k. metric_as_str k = s) [OutputTokensPerSecond, InputTokensPerSecond])"

definition dec_profile :: "json \<Rightarrow> exec_profile option" where
  "dec_profile j =
     Option.bind (field as_str j ''id'') (\<lambda>i.
     Option.bind (field dec_task j ''task'') (\<lambda>task.
     Option.bind (field as_str j ''model'') (\<lambda>model.
     Option.bind (field as_str j ''digest'') (\<lambda>digest.
     Option.bind (field (dec_uint u64_max) j ''context_tokens'') (\<lambda>ctx.
     Option.bind (field as_str j ''processor'') (\<lambda>processor.
     Option.bind (default_field OutputTokensPerSecond dec_metric j ''metric_kind'') (\<lambda>kind.
     Some \<lparr>ep_id = i, ep_task = task, ep_model = model, ep_digest = digest, ep_context = ctx,
           ep_processor = processor, ep_kind = kind\<rparr>)))))))"

definition dec_stats :: "json \<Rightarrow> stats option" where
  "dec_stats j =
     Option.bind (opt_field as_str j ''model'') (\<lambda>model.
     Option.bind (field (dec_uint u64_max) j ''completed'') (\<lambda>completed.
     Option.bind (field (dec_uint u64_max) j ''duration_samples'') (\<lambda>samples.
     Option.bind (field (dec_uint u128_max) j ''total_work_unit_ns'') (\<lambda>work.
     Option.bind (field (dec_uint u128_max) j ''total_queue_wait_ms'') (\<lambda>wait.
     Option.bind (opt_field (dec_uint u64_max) j ''last_work_unit_ns'') (\<lambda>latest.
     Option.bind (opt_field dec_profile j ''profile'') (\<lambda>prof.
     Option.bind (default_field 0 (dec_uint u64_max) j ''profile_duration_samples'') (\<lambda>psamples.
     Option.bind (default_field 0 (dec_uint u128_max) j ''profile_total_work_unit_ns'') (\<lambda>ptotal.
     Some \<lparr>fs_model = model, fs_completed = completed, fs_duration_samples = samples,
           fs_total_work_unit_ns = work, fs_total_queue_wait_ms = wait, fs_last_work_unit_ns = latest,
           fs_profile = prof, fs_profile_samples = psamples, fs_profile_total = ptotal\<rparr>)))))))))"

fun dec_entries :: "(string \<times> json) list \<Rightarrow> (task_kind, stats) btree \<Rightarrow> (task_kind, stats) btree option" where
  "dec_entries [] m = Some m"
| "dec_entries ((k, v) # rest) m =
     (case (parse_task k, dec_stats v) of
        (Some t, Some s) \<Rightarrow> dec_entries rest (bt_put t s m)
      | _ \<Rightarrow> None)"

fun dec_by_task :: "json \<Rightarrow> (task_kind, stats) btree option" where
  "dec_by_task (JObj kvs) = dec_entries kvs []"
| "dec_by_task _ = None"

definition dec_feedback :: "json \<Rightarrow> placement_feedback option" where
  "dec_feedback j =
     Option.bind (field dec_by_task j ''gpu'') (\<lambda>gpu.
     Option.bind (field dec_by_task j ''cpu'') (\<lambda>cpu. Some \<lparr>pf_gpu = gpu, pf_cpu = cpu\<rparr>))"

definition dec_snapshot :: "json \<Rightarrow> (nat \<times> placement_feedback) option" where
  "dec_snapshot j =
     Option.bind (field (dec_uint u32_max) j ''schema_version'') (\<lambda>version.
     Option.bind (field dec_feedback j ''feedback'') (\<lambda>f. Some (version, f)))"

section \<open>The file\<close>

datatype load_error = ParseFailed | UnsupportedSchema nat

record disk =
  dk_file :: "string option"
  dk_temp :: "string option"

definition feedback_default :: placement_feedback where
  "feedback_default = \<lparr>pf_gpu = [], pf_cpu = []\<rparr>"

definition load_feedback ::
  "(string \<Rightarrow> json option) \<Rightarrow> disk \<Rightarrow> load_error + placement_feedback" where
  "load_feedback parse d =
     (case dk_file d of
        None \<Rightarrow> Inr feedback_default
      | Some bytes \<Rightarrow>
          (case Option.bind (parse bytes) dec_snapshot of
             None \<Rightarrow> Inl ParseFailed
           | Some (version, f) \<Rightarrow>
               if version = FEEDBACK_SCHEMA_VERSION then Inr f else Inl (UnsupportedSchema version)))"

text \<open>
  \<open>persist_feedback\<close> as its file-system steps: the directory, the temporary file, the document, the
  newline, \<open>sync_all\<close>, and the rename. A step may fail, which drops the temporary file.
\<close>

datatype persist_op = CreateDir | CreateTemp | WriteJson | WriteNewline | SyncAll | Rename

definition persist_steps :: "persist_op list" where
  "persist_steps = [CreateDir, CreateTemp, WriteJson, WriteNewline, SyncAll, Rename]"

fun persist_step :: "string \<Rightarrow> persist_op \<Rightarrow> disk \<Rightarrow> disk" where
  "persist_step doc CreateDir d = d"
| "persist_step doc CreateTemp d = d\<lparr>dk_temp := Some []\<rparr>"
| "persist_step doc WriteJson d = d\<lparr>dk_temp := map_option (\<lambda>t. t @ doc) (dk_temp d)\<rparr>"
| "persist_step doc WriteNewline d = d\<lparr>dk_temp := map_option (\<lambda>t. t @ [CHR 0x0A]) (dk_temp d)\<rparr>"
| "persist_step doc SyncAll d = d"
| "persist_step doc Rename d = d\<lparr>dk_file := dk_temp d, dk_temp := None\<rparr>"

fun persist_run :: "string \<Rightarrow> (persist_op \<times> bool) list \<Rightarrow> disk \<Rightarrow> bool \<times> disk" where
  "persist_run doc [] d = (True, d)"
| "persist_run doc ((s, ok) # rest) d =
     (if ok then persist_run doc rest (persist_step doc s d) else (False, d\<lparr>dk_temp := None\<rparr>))"

definition persist_feedback ::
  "(json \<Rightarrow> string) \<Rightarrow> bool list \<Rightarrow> placement_feedback \<Rightarrow> disk \<Rightarrow> bool \<times> disk" where
  "persist_feedback print oks f d = persist_run (print (enc_snapshot f)) (zip persist_steps oks) d"

text \<open>The process may also stop between two steps.\<close>

definition persist_stopped :: "(json \<Rightarrow> string) \<Rightarrow> nat \<Rightarrow> placement_feedback \<Rightarrow> disk \<Rightarrow> disk" where
  "persist_stopped print k f d = fold (persist_step (print (enc_snapshot f))) (take k persist_steps) d"

section \<open>Widths\<close>

definition profile_wf :: "exec_profile \<Rightarrow> bool" where
  "profile_wf p \<longleftrightarrow> ep_context p \<le> u64_max"

definition stats_wf :: "stats \<Rightarrow> bool" where
  "stats_wf s \<longleftrightarrow> fs_completed s \<le> u64_max \<and> fs_duration_samples s \<le> u64_max \<and>
     fs_total_work_unit_ns s \<le> u128_max \<and> fs_total_queue_wait_ms s \<le> u128_max \<and>
     (case fs_last_work_unit_ns s of Some d \<Rightarrow> d \<le> u64_max | None \<Rightarrow> True) \<and>
     (case fs_profile s of Some p \<Rightarrow> profile_wf p | None \<Rightarrow> True) \<and>
     fs_profile_samples s \<le> u64_max \<and> fs_profile_total s \<le> u128_max"

definition entries_wf :: "(task_kind, stats) btree \<Rightarrow> bool" where
  "entries_wf m \<longleftrightarrow> bt_wf m \<and> (\<forall>e \<in> set m. stats_wf (snd e))"

definition feedback_wf :: "placement_feedback \<Rightarrow> bool" where
  "feedback_wf f \<longleftrightarrow> entries_wf (pf_gpu f) \<and> entries_wf (pf_cpu f)"

lemma stats_default_wf: "stats_wf stats_default"
  by (simp add: stats_wf_def stats_default_def)

lemma record_wf:
  "stats_wf s \<Longrightarrow> (case work of Some d \<Rightarrow> d \<le> u64_max | None \<Rightarrow> True) \<Longrightarrow> stats_wf (fs_record m work q s)"
  using stats_default_wf by (auto simp: fs_record_def stats_wf_def Let_def split: option.splits)

lemma record_profile_wf: "stats_wf s \<Longrightarrow> profile_wf p \<Longrightarrow> stats_wf (record_profile p d s)"
  by (auto simp: record_profile_def stats_wf_def Let_def split: option.splits)

lemma observed_profile_wf: "profile_from_observations sha e = Inr p \<Longrightarrow> profile_wf p"
proof -
  have bound: "as_u64 j = Some n \<Longrightarrow> n \<le> u64_max" for j n
    by (cases j) (auto split: if_splits)
  assume "profile_from_observations sha e = Inr p"
  then show ?thesis
    by (auto simp: profile_from_observations_def profile_identity_def and_then_Inr ensure_def
        Option.bind_eq_Some_conv profile_wf_def dest: bound split: if_splits)
qed

section \<open>Reading back\<close>

lemma dec_uint_jnat [simp]: "n \<le> bound \<Longrightarrow> dec_uint bound (jnat n) = Some n"
  by (simp add: dec_uint_def jnat_def)

lemma parse_task_as_str [simp]: "parse_task (task_as_str t) = Some t"
  by (cases t) (simp_all add: parse_task_def all_tasks_def)

lemma dec_task_str [simp]: "dec_task (JStr (task_as_str t)) = Some t"
  by (simp add: dec_task_def)

lemma dec_metric_str [simp]: "dec_metric (JStr (metric_as_str k)) = Some k"
  by (cases k) (simp_all add: dec_metric_def)

lemma dec_opt_jopt: "(\<And>x. v = Some x \<Longrightarrow> enc x \<noteq> JNull \<and> d (enc x) = Some x) \<Longrightarrow> dec_opt d (jopt enc v) = Some v"
  by (cases v) (auto simp: dec_opt_def jopt_def)

lemma json_object_not_null [simp]: "json_object kvs \<noteq> JNull"
  by (simp add: json_object_def)

lemma jnat_not_null [simp]: "jnat n \<noteq> JNull"
  by (simp add: jnat_def)

lemma profile_roundtrip: "profile_wf p \<Longrightarrow> dec_profile (enc_profile p) = Some p"
  by (simp add: dec_profile_def enc_profile_def field_def default_field_def profile_wf_def)

lemma enc_profile_not_null [simp]: "enc_profile p \<noteq> JNull"
  by (simp add: enc_profile_def)

lemma stats_roundtrip:
  assumes "stats_wf s"
  shows "dec_stats (enc_stats s) = Some s"
proof -
  have "dec_opt as_str (jopt JStr (fs_model s)) = Some (fs_model s)"
    by (rule dec_opt_jopt) simp
  moreover have "dec_opt (dec_uint u64_max) (jopt jnat (fs_last_work_unit_ns s)) = Some (fs_last_work_unit_ns s)"
    by (rule dec_opt_jopt) (use assms in \<open>auto simp: stats_wf_def\<close>)
  moreover have "dec_opt dec_profile (jopt enc_profile (fs_profile s)) = Some (fs_profile s)"
    by (rule dec_opt_jopt) (use assms in \<open>auto simp: stats_wf_def profile_roundtrip\<close>)
  ultimately show ?thesis
    using assms
    by (simp add: dec_stats_def enc_stats_def field_def opt_field_def default_field_def stats_wf_def)
qed

lemma bt_put_append: "bt_wf (acc @ (t, s) # rest) \<Longrightarrow> bt_put t s acc = acc @ [(t, s)]"
  by (induction acc) (auto simp: bt_wf_def cmp_def)

lemma entries_roundtrip:
  "bt_wf (acc @ m) \<Longrightarrow> \<forall>e \<in> set m. stats_wf (snd e) \<Longrightarrow>
    dec_entries (map (\<lambda>(t, s). (task_as_str t, enc_stats s)) m) acc = Some (acc @ m)"
proof (induction m arbitrary: acc)
  case Nil
  then show ?case by simp
next
  case (Cons e m)
  obtain t s where e: "e = (t, s)" by force
  then have "stats_wf s" using Cons.prems(2) by simp
  moreover have "bt_put t s acc = acc @ [(t, s)]" using Cons.prems(1) unfolding e by (rule bt_put_append)
  ultimately show ?case using Cons e by (simp add: stats_roundtrip)
qed

lemma by_task_roundtrip:
  "entries_wf m \<Longrightarrow> dec_by_task (enc_by_task m) = Some m"
  using entries_roundtrip [of "[]" m] by (simp add: enc_by_task_def entries_wf_def)

lemma snapshot_roundtrip:
  "feedback_wf f \<Longrightarrow> dec_snapshot (enc_snapshot f) = Some (FEEDBACK_SCHEMA_VERSION, f)"
  by (simp add: dec_snapshot_def enc_snapshot_def dec_feedback_def field_def by_task_roundtrip
      feedback_wf_def FEEDBACK_SCHEMA_VERSION_def u32_max_def)

lemma persisted_file:
  "length oks = 6 \<Longrightarrow> persist_feedback print oks f d = (ok, d') \<Longrightarrow>
    (if ok then dk_file d' = Some (print (enc_snapshot f) @ [CHR 0x0A]) else dk_file d' = dk_file d)"
  by (auto simp: persist_feedback_def persist_steps_def numeral_eq_Suc length_Suc_conv split: if_splits)

lemma stopped_file:
  "dk_file (persist_stopped print k f d) \<in> {dk_file d, Some (print (enc_snapshot f) @ [CHR 0x0A])}"
proof (cases "6 \<le> k")
  case True
  then show ?thesis by (simp add: persist_stopped_def persist_steps_def)
next
  case False
  then consider "k = 0" | "k = 1" | "k = 2" | "k = 3" | "k = 4" | "k = 5" by linarith
  then show ?thesis by cases (simp_all add: persist_stopped_def persist_steps_def numeral_eq_Suc)
qed

lemma load_new:
  assumes "feedback_wf f" and "parse (print (enc_snapshot f) @ [CHR 0x0A]) = Some (enc_snapshot f)"
    and "dk_file d = Some (print (enc_snapshot f) @ [CHR 0x0A])"
  shows "load_feedback parse d = Inr f"
  using assms by (simp add: load_feedback_def snapshot_roundtrip)

lemma bounded_work: "feedback_work_unit_ns task response = Some d \<Longrightarrow> d \<le> u64_max"
proof -
  have bound: "get_u64 j k = Some n \<Longrightarrow> n \<le> u64_max" for j k n
    unfolding get_u64_def by (cases "jget j k"; cases "the (jget j k)") (auto split: if_splits)
  assume "feedback_work_unit_ns task response = Some d"
  then obtain a b k l where "get_u64 response k = Some a" "get_u64 response l = Some b" "d = a div b"
    by (auto simp: feedback_work_unit_ns_def split: option.splits if_splits)
  then show ?thesis using bound div_le_dividend le_trans by blast
qed

lemma learn_stats_wf:
  assumes "stats_wf s" and "case work of Some d \<Rightarrow> d \<le> u64_max | None \<Rightarrow> True"
    and "case learned of Some (p, _) \<Rightarrow> profile_wf p | None \<Rightarrow> True"
  shows "stats_wf (learn_stats m work q learned s)"
  using record_wf [OF assms(1,2)] assms(3)
  by (auto simp: learn_stats_def Let_def record_profile_wf split: option.splits)

lemma entries_put:
  assumes "entries_wf m" and "\<And>s. stats_wf s \<Longrightarrow> stats_wf (g s)"
  shows "entries_wf (bt_put t (g (case bt_get m t of None \<Rightarrow> stats_default | Some s \<Rightarrow> s)) m)"
proof -
  have "stats_wf (case bt_get m t of None \<Rightarrow> stats_default | Some s \<Rightarrow> s)"
    using assms(1) by (force simp: entries_wf_def stats_default_wf dest: bt_get_in split: option.split)
  then show ?thesis
    using assms bt_set_put [of t _ m] by (fastforce simp: entries_wf_def)
qed

lemma all_steps_succeed:
  "persist_feedback print (replicate 6 True) f d =
    (True, d\<lparr>dk_file := Some (print (enc_snapshot f) @ [CHR 0x0A]), dk_temp := None\<rparr>)"
proof -
  have "replicate 6 True = [True, True, True, True, True, True]" by (simp add: numeral_eq_Suc)
  then show ?thesis by (simp add: persist_feedback_def persist_steps_def)
qed

section \<open>Concurrent writers\<close>

text \<open>
  An accepted completion learns under the write lock, clones the whole feedback there and writes the
  clone later, on a blocking thread and under no lock.
\<close>

record learner =
  ln_feedback :: placement_feedback
  ln_pending :: "placement_feedback list"
  ln_disk :: disk

datatype learner_event = LearnEvent backend task_kind string "nat option" nat "string + exec_profile"
  | WriteEvent nat

fun learner_step :: "(json \<Rightarrow> string) \<Rightarrow> learner \<Rightarrow> learner_event \<Rightarrow> learner" where
  "learner_step print \<sigma> (LearnEvent b task model work wait prof) =
     (let f = learn_feedback b task model True work wait prof (ln_feedback \<sigma>)
      in \<sigma>\<lparr>ln_feedback := f, ln_pending := ln_pending \<sigma> @ [f]\<rparr>)"
| "learner_step print \<sigma> (WriteEvent i) =
     (if i < length (ln_pending \<sigma>)
      then \<sigma>\<lparr>ln_disk := snd (persist_feedback print (replicate 6 True) (ln_pending \<sigma> ! i) (ln_disk \<sigma>)),
             ln_pending := remove_at i (ln_pending \<sigma>)\<rparr>
      else \<sigma>)"

section \<open>Properties\<close>

text \<open>
  the feedback is well typed. Whatever answers, observations and queue waits are recorded, every
  counter stays within its width and the per-task maps stay ordered, so the snapshot can be read back.
\<close>

theorem learned_feedback_is_well_formed:
  assumes "feedback_wf f"
  shows "feedback_wf (learn_feedback b task model accepted
           (if warm then feedback_work_unit_ns task response else None) wait
           (profile_from_observations sha_hex e) f)"
proof -
  define work where "work = (if warm then feedback_work_unit_ns task response else None)"
  define learned where "learned = learned_sample (profile_from_observations sha_hex e) work"
  have w: "case work of Some d \<Rightarrow> d \<le> u64_max | None \<Rightarrow> True"
    by (auto simp: work_def dest: bounded_work split: option.split)
  have l: "case learned of Some (p, _) \<Rightarrow> profile_wf p | None \<Rightarrow> True"
    by (auto simp: learned_def learned_sample_def dest: observed_profile_wf split: sum.splits option.splits)
  have "stats_wf s \<Longrightarrow> stats_wf (if accepted then learn_stats model work wait learned s else s)" for s
    using learn_stats_wf [OF _ w l] by simp
  note put = entries_put [of _ "\<lambda>s. if accepted then learn_stats model work wait learned s else s", OF _ this]
  show ?thesis
    using assms put [of "pf_cpu f" task] put [of "pf_gpu f" task]
    unfolding feedback_wf_def learn_feedback_def Let_def work_def [symmetric] learned_def [symmetric]
    by (cases b; cases accepted) simp_all
qed

theorem learned_feedback_is_well_formed_witness:
  "feedback_wf (learn_feedback Gpu TCoding ''m'' True
     (if True then feedback_work_unit_ns TCoding JNull else None) 7
     (profile_from_observations (\<lambda>_. ''x'') sample_evidence) feedback_default)"
  by (rule learned_feedback_is_well_formed) (simp add: feedback_wf_def entries_wf_def feedback_default_def)

text \<open>
  C18: the feedback survives a restart. A successful write is read back as exactly the feedback that
  was written; a write that fails at any step leaves the file as it was; and a process that stops
  between any two steps leaves a file that reads as the old or as the new feedback.
\<close>

theorem feedback_survives_restart:
  assumes "feedback_wf f" and "parse (print (enc_snapshot f) @ [CHR 0x0A]) = Some (enc_snapshot f)"
    and "length oks = 6" and "persist_feedback print oks f d = (ok, d')"
  shows "(if ok then load_feedback parse d' = Inr f else load_feedback parse d' = load_feedback parse d) \<and>
    load_feedback parse (persist_stopped print k f d) \<in> {load_feedback parse d, Inr f}"
proof -
  have cong: "load_feedback parse a = load_feedback parse b" if "dk_file a = dk_file b" for a b :: disk
    using that unfolding load_feedback_def by (simp only:)
  note new = load_new [of f parse print, OF assms(1,2)]
  have "load_feedback parse (persist_stopped print k f d) \<in> {load_feedback parse d, Inr f}"
    using stopped_file [of print k f d] new cong by blast
  moreover have "if ok then load_feedback parse d' = Inr f else load_feedback parse d' = load_feedback parse d"
    using persisted_file [OF assms(3,4)] new [of d'] cong [of d' d] by presburger
  ultimately show ?thesis by blast
qed

theorem feedback_survives_restart_witness:
  "load_feedback (\<lambda>_. Some (enc_snapshot feedback_default))
     (snd (persist_feedback (\<lambda>_. ''x'') (replicate 6 True) feedback_default \<lparr>dk_file = None, dk_temp = None\<rparr>)) =
   Inr feedback_default"
proof -
  let ?d = "\<lparr>dk_file = None, dk_temp = None\<rparr> :: disk"
  have wf: "feedback_wf feedback_default" by (simp add: feedback_wf_def entries_wf_def feedback_default_def)
  note done6 = all_steps_succeed [of "\<lambda>_. ''x''" feedback_default ?d]
  have len: "length (replicate 6 True) = 6" by simp
  have parse: "(\<lambda>_. Some (enc_snapshot feedback_default)) ((\<lambda>_. ''x'') (enc_snapshot feedback_default) @ [CHR 0x0A]) =
      Some (enc_snapshot feedback_default)" by (rule refl)
  note r = feedback_survives_restart [OF wf parse len done6, of 0, THEN conjunct1, unfolded if_True]
  show ?thesis unfolding done6 snd_conv by (rule r)
qed

text \<open>
  C19: an older snapshot may win. Two completions that learn in one order may write in the other: then
  no write is left to be done and the file holds the feedback before the second sample, so a restart
  loses a sample that was reported as persisted.
\<close>

theorem older_snapshot_may_win:
  fixes print :: "json \<Rightarrow> string"
  defines "start \<equiv> \<lparr>ln_feedback = feedback_default, ln_pending = [],
                     ln_disk = \<lparr>dk_file = None, dk_temp = None\<rparr>\<rparr>"
  defines "learn1 \<equiv> LearnEvent Gpu TCoding ''m'' (Some 10) 1 (Inl ''x'')"
  defines "\<sigma> \<equiv> foldl (learner_step print) start [learn1, learn1, WriteEvent 1, WriteEvent 0]"
  shows "ln_pending \<sigma> = [] \<and>
    dk_file (ln_disk \<sigma>) = Some (print (enc_snapshot (ln_feedback (learner_step print start learn1))) @ [CHR 0x0A]) \<and>
    ln_feedback (learner_step print start learn1) \<noteq> ln_feedback \<sigma>"
proof -
  let ?f1 = "ln_feedback (learner_step print start learn1)"
  let ?f2 = "learn_feedback Gpu TCoding ''m'' True (Some 10) 1 (Inl ''x'') ?f1"
  have f1: "map_option fs_completed (bt_get (pf_gpu ?f1) TCoding) = Some 1"
    and f2: "map_option fs_completed (bt_get (pf_gpu ?f2) TCoding) = Some 2"
    by (simp_all add: start_def learn1_def learn_feedback_def feedback_default_def learn_stats_def
        learned_sample_def fs_record_def stats_default_def sat_add_def u64_max_def Let_def)
  have run: "\<sigma> = learner_step print (learner_step print
      \<lparr>ln_feedback = ?f2, ln_pending = [?f1, ?f2], ln_disk = \<lparr>dk_file = None, dk_temp = None\<rparr>\<rparr>
      (WriteEvent 1)) (WriteEvent 0)"
    by (simp add: \<sigma>_def start_def learn1_def Let_def)
  have "ln_pending \<sigma> = [] \<and> ln_feedback \<sigma> = ?f2 \<and>
      dk_file (ln_disk \<sigma>) = Some (print (enc_snapshot ?f1) @ [CHR 0x0A])"
    unfolding run by (simp add: remove_at_def all_steps_succeed)
  moreover have "?f1 \<noteq> ?f2" using f1 f2 by force
  ultimately show ?thesis by simp
qed

end
