(* ===== verification/Residency.thy ===== *)
theory Residency
  imports Feedback FL_Text "HOL-Library.Product_Lexorder"
begin

text \<open>
  Which resident runners to unload when a load needs room (\<open>platform/residency.rs\<close>): the per-model
  demand that tasks leave behind, the cost of losing a runner, the exact search for the cheapest
  covering set, the greedy fallback, and the plan. Instants are nanoseconds. The power function of
  the floating-point library and the current time are arguments.
\<close>

section \<open>Demand\<close>

definition USE_HALF_LIFE :: duration where "USE_HALF_LIFE = 30 * 60 * 1000000000"
definition MIN_LEARNED_LOAD_MS :: nat where "MIN_LEARNED_LOAD_MS = 200"
definition ASSUMED_LOAD_BYTES_PER_SECOND :: f64 where
  "ASSUMED_LOAD_BYTES_PER_SECOND = f_of_nat 1500000000"
definition MAX_EXACT_CANDIDATES :: nat where "MAX_EXACT_CANDIDATES = 14"

definition f_half :: f64 where "f_half = 0x3FE0000000000000"

definition as_secs_f64 :: "duration \<Rightarrow> f64" where
  "as_secs_f64 d =
     f_add (f_of_nat (d div 1000000000)) (f_div (f_of_nat (d mod 1000000000)) (f_of_nat 1000000000))"

record activity =
  av_active :: nat
  av_last_used :: "instant option"
  av_uses :: f64
  av_decayed_at :: "instant option"
  av_load_ms :: "f64 option"

definition activity_default :: activity where
  "activity_default = \<lparr>av_active = 0, av_last_used = None, av_uses = f_zero, av_decayed_at = None,
     av_load_ms = None\<rparr>"

definition decay :: "(f64 \<Rightarrow> f64 \<Rightarrow> f64) \<Rightarrow> instant \<Rightarrow> activity \<Rightarrow> activity" where
  "decay powf now a =
     (let a' = (case av_decayed_at a of
                  None \<Rightarrow> a
                | Some since \<Rightarrow>
                    a\<lparr>av_uses := f_mul (av_uses a)
                        (powf f_half (f_div (as_secs_f64 (now - since)) (as_secs_f64 USE_HALF_LIFE)))\<rparr>)
      in a'\<lparr>av_decayed_at := Some now\<rparr>)"

type_synonym model_key = "string \<times> string"
type_synonym activities = "model_key \<Rightarrow> activity option"

definition entry_of :: "model_key \<Rightarrow> activities \<Rightarrow> activity" where
  "entry_of k m = (case m k of None \<Rightarrow> activity_default | Some a \<Rightarrow> a)"

definition activity_begin ::
  "(f64 \<Rightarrow> f64 \<Rightarrow> f64) \<Rightarrow> instant \<Rightarrow> model_key \<Rightarrow> activities \<Rightarrow> activities" where
  "activity_begin powf now k m =
     (let a = decay powf now (entry_of k m)
      in m(k \<mapsto> a\<lparr>av_active := av_active a + 1, av_last_used := Some now\<rparr>))"

definition active_model_drop :: "model_key \<Rightarrow> activities \<Rightarrow> activities" where
  "active_model_drop k m =
     (case m k of None \<Rightarrow> m | Some a \<Rightarrow> m(k \<mapsto> a\<lparr>av_active := av_active a - 1\<rparr>))"

definition learned_load :: "nat \<Rightarrow> f64 option \<Rightarrow> f64 option" where
  "learned_load load_ms previous =
     (if MIN_LEARNED_LOAD_MS \<le> load_ms
      then Some (case previous of
                   None \<Rightarrow> f_of_nat load_ms
                 | Some p \<Rightarrow> f_add (f_mul p 0x3FE6666666666666)
                                (f_mul (f_of_nat load_ms) 0x3FD3333333333333))
      else previous)"

definition activity_completed ::
  "(f64 \<Rightarrow> f64 \<Rightarrow> f64) \<Rightarrow> instant \<Rightarrow> model_key \<Rightarrow> nat \<Rightarrow> activities \<Rightarrow> activities" where
  "activity_completed powf now k load_ms m =
     (let a = decay powf now (entry_of k m)
      in m(k \<mapsto> a\<lparr>av_uses := f_add (av_uses a) f_one, av_last_used := Some now,
                   av_load_ms := learned_load load_ms (av_load_ms a)\<rparr>))"

record usage =
  us_active :: nat
  us_idle_seconds :: "f64 option"
  us_recent_uses :: f64
  us_load_ms :: "f64 option"

definition usage_default :: usage where
  "usage_default = \<lparr>us_active = 0, us_idle_seconds = None, us_recent_uses = f_zero, us_load_ms = None\<rparr>"

definition activity_usage ::
  "(f64 \<Rightarrow> f64 \<Rightarrow> f64) \<Rightarrow> instant \<Rightarrow> model_key \<Rightarrow> activities \<Rightarrow> usage \<times> activities" where
  "activity_usage powf now k m =
     (case m k of
        None \<Rightarrow> (usage_default, m)
      | Some e \<Rightarrow>
          (let a = decay powf now e
           in (\<lparr>us_active = av_active a,
                us_idle_seconds = map_option (\<lambda>since. as_secs_f64 (now - since)) (av_last_used a),
                us_recent_uses = av_uses a, us_load_ms = av_load_ms a\<rparr>, m(k \<mapsto> a))))"

section \<open>Candidates\<close>

datatype freed = FreedTotal | FreedVram | FreedHostSpill

record candidate =
  cd_name :: string
  cd_bytes :: nat
  cd_reload_seconds :: f64
  cd_reload_source :: string
  cd_recent_uses :: f64
  cd_idle_seconds :: "f64 option"
  cd_weight :: f64
  cd_expires_at :: string

definition f_max :: "f64 \<Rightarrow> f64 \<Rightarrow> f64" where
  "f_max x y = (if is_nan x then y else if is_nan y then x else if f_lt x y then y else x)"

definition candidate_cost :: "candidate \<Rightarrow> f64" where
  "candidate_cost c =
     f_mul (f_mul (cd_weight c) (f_max (cd_reload_seconds c) f_half)) (f_add f_one (cd_recent_uses c))"

record plan_inputs =
  pi_backend :: string
  pi_keep :: string
  pi_pinned :: "string set"
  pi_weights :: "(string, f64) btree"
  pi_freed :: freed
  pi_shortfall :: nat

record eviction_plan =
  ev_victims :: "candidate list"
  ev_skipped :: "(string \<times> string) list"
  ev_shortfall :: nat
  ev_covers :: bool

definition pinned_expiry :: "nat \<Rightarrow> string \<Rightarrow> bool" where
  "pinned_expiry unix_seconds expires_at =
     (if length expires_at < 4 then False
      else case parse_u64 (take 4 expires_at) of
             None \<Rightarrow> False
           | Some year \<Rightarrow> 1970 + unix_seconds div 31556952 + 1 < year)"

definition skip_reason :: "plan_inputs \<Rightarrow> nat \<Rightarrow> string \<Rightarrow> string \<Rightarrow> usage \<Rightarrow> string option" where
  "skip_reason inputs unix_seconds name expires_at usage =
     (if name = pi_keep inputs then Some ''target''
      else if name \<in> pi_pinned inputs then Some ''pinned''
      else if pinned_expiry unix_seconds expires_at then Some ''keep_alive_forever''
      else if starts_with expires_at ''0001-'' then Some ''loading''
      else if 0 < us_active usage then Some ''busy''
      else None)"

definition freed_bytes :: "freed \<Rightarrow> nat \<Rightarrow> nat \<Rightarrow> nat" where
  "freed_bytes f whole vram =
     (case f of FreedTotal \<Rightarrow> whole | FreedVram \<Rightarrow> vram | FreedHostSpill \<Rightarrow> whole - vram)"

definition or_zero :: "nat option \<Rightarrow> nat" where
  "or_zero v = (case v of None \<Rightarrow> 0 | Some n \<Rightarrow> n)"

definition entry_expiry :: "json \<Rightarrow> string" where
  "entry_expiry entry =
     (case Option.bind (jget entry ''expires_at'') as_str of None \<Rightarrow> [] | Some s \<Rightarrow> s)"

definition reload_estimate :: "nat \<Rightarrow> f64 option \<Rightarrow> f64 \<times> string" where
  "reload_estimate whole load_ms =
     (case load_ms of
        None \<Rightarrow> (f_div (f_of_nat whole) ASSUMED_LOAD_BYTES_PER_SECOND, ''size_estimate'')
      | Some ms \<Rightarrow> (f_div ms (f_of_nat 1000), ''measured_load_duration''))"

definition candidate_of :: "plan_inputs \<Rightarrow> json \<Rightarrow> string \<Rightarrow> usage \<Rightarrow> candidate" where
  "candidate_of inputs entry name usage =
     (let whole = or_zero (get_u64 entry ''size'');
          reload = reload_estimate whole (us_load_ms usage)
      in \<lparr>cd_name = name,
          cd_bytes = freed_bytes (pi_freed inputs) whole (or_zero (get_u64 entry ''size_vram'')),
          cd_reload_seconds = fst reload, cd_reload_source = snd reload,
          cd_recent_uses = us_recent_uses usage, cd_idle_seconds = us_idle_seconds usage,
          cd_weight = f_max (case bt_get (pi_weights inputs) name of None \<Rightarrow> f_one | Some w \<Rightarrow> w) f_zero,
          cd_expires_at = entry_expiry entry\<rparr>)"

datatype verdict = Unnamed | Skipped string string | Eligible candidate

definition judge :: "plan_inputs \<Rightarrow> nat \<Rightarrow> (string \<Rightarrow> usage) \<Rightarrow> json \<Rightarrow> verdict" where
  "judge inputs unix_seconds usage_of entry =
     (case ps_entry_name entry of
        None \<Rightarrow> Unnamed
      | Some name \<Rightarrow>
          (case skip_reason inputs unix_seconds name (entry_expiry entry) (usage_of name) of
             Some reason \<Rightarrow> if name = pi_keep inputs then Unnamed else Skipped name reason
           | None \<Rightarrow>
               (let c = candidate_of inputs entry name (usage_of name)
                in if cd_bytes c = 0 then Skipped name ''frees_nothing_needed'' else Eligible c)))"

section \<open>Covering sets\<close>

definition set_cost :: "candidate list \<Rightarrow> f64" where
  "set_cost cs = foldl (\<lambda>cost c. f_add cost (candidate_cost c)) f_zero cs"

definition set_bytes :: "candidate list \<Rightarrow> nat" where
  "set_bytes cs = foldl (\<lambda>bytes c. sat_add u64_max bytes (cd_bytes c)) 0 cs"

definition chosen_from :: "nat \<Rightarrow> nat \<Rightarrow> 'a list \<Rightarrow> 'a list" where
  "chosen_from k msk cs = map snd (filter (\<lambda>(i, _). bit msk i) (enumerate k cs))"

abbreviation chosen :: "nat \<Rightarrow> 'a list \<Rightarrow> 'a list" where
  "chosen \<equiv> chosen_from 0"

fun count_ones :: "nat \<Rightarrow> nat" where
  "count_ones n = (if n = 0 then 0 else n mod 2 + count_ones (n div 2))"

declare count_ones.simps [simp del]

type_synonym set_key = "int \<times> nat \<times> nat"

definition mask_key :: "candidate list \<Rightarrow> nat \<Rightarrow> nat \<Rightarrow> set_key" where
  "mask_key cs shortfall msk =
     (f_total_key (set_cost (chosen msk cs)), count_ones msk, set_bytes (chosen msk cs) - shortfall)"

definition try_mask ::
  "candidate list \<Rightarrow> nat \<Rightarrow> (set_key \<times> nat) option \<Rightarrow> nat \<Rightarrow> (set_key \<times> nat) option" where
  "try_mask cs shortfall best msk =
     (if set_bytes (chosen msk cs) < shortfall then best
      else (let key = mask_key cs shortfall msk
            in case best of
                 None \<Rightarrow> Some (key, msk)
               | Some (current, _) \<Rightarrow> if key < current then Some (key, msk) else best))"

definition cheapest_covering_set :: "candidate list \<Rightarrow> nat \<Rightarrow> candidate list" where
  "cheapest_covering_set cs shortfall =
     (case foldl (try_mask cs shortfall) None [1..<2 ^ length cs] of
        None \<Rightarrow> []
      | Some (_, msk) \<Rightarrow> chosen msk cs)"

definition cost_per_byte :: "candidate \<Rightarrow> int" where
  "cost_per_byte c = f_total_key (f_div (candidate_cost c) (f_of_nat (cd_bytes c)))"

fun take_needed :: "nat \<Rightarrow> nat \<Rightarrow> candidate list \<Rightarrow> candidate list" where
  "take_needed shortfall freed [] = []"
| "take_needed shortfall freed (c # cs) =
     (if freed < shortfall then c # take_needed shortfall (sat_add u64_max freed (cd_bytes c)) cs
      else [])"

definition greedy_covering_set :: "candidate list \<Rightarrow> nat \<Rightarrow> candidate list" where
  "greedy_covering_set cs shortfall = take_needed shortfall 0 (sort_key cost_per_byte cs)"

section \<open>The plan\<close>

definition eligible :: "plan_inputs \<Rightarrow> nat \<Rightarrow> (string \<Rightarrow> usage) \<Rightarrow> json \<Rightarrow> candidate list" where
  "eligible inputs unix_seconds usage_of ps =
     List.map_filter (\<lambda>e. case judge inputs unix_seconds usage_of e of Eligible c \<Rightarrow> Some c | _ \<Rightarrow> None)
       (case as_array (jindex ps ''models'') of None \<Rightarrow> [] | Some es \<Rightarrow> es)"

definition skipped :: "plan_inputs \<Rightarrow> nat \<Rightarrow> (string \<Rightarrow> usage) \<Rightarrow> json \<Rightarrow> (string \<times> string) list" where
  "skipped inputs unix_seconds usage_of ps =
     List.map_filter (\<lambda>e. case judge inputs unix_seconds usage_of e of Skipped n r \<Rightarrow> Some (n, r) | _ \<Rightarrow> None)
       (case as_array (jindex ps ''models'') of None \<Rightarrow> [] | Some es \<Rightarrow> es)"

text \<open>The sum of the candidates' bytes wraps at 64 bits, as the release build does.\<close>

definition total_freed :: "candidate list \<Rightarrow> nat" where
  "total_freed cs = sum_list (map cd_bytes cs) mod 2 ^ 64"

definition choose_victims :: "candidate list \<Rightarrow> nat \<Rightarrow> candidate list" where
  "choose_victims cs shortfall =
     (if shortfall = 0 then []
      else if total_freed cs < shortfall then cs
      else if length cs \<le> MAX_EXACT_CANDIDATES then cheapest_covering_set cs shortfall
      else greedy_covering_set cs shortfall)"

definition victim_order :: "candidate \<Rightarrow> int \<times> string" where
  "victim_order c = (f_total_key (candidate_cost c), cd_expires_at c)"

definition eviction_plan_of :: "nat \<Rightarrow> json \<Rightarrow> (string \<Rightarrow> usage) \<Rightarrow> plan_inputs \<Rightarrow> eviction_plan" where
  "eviction_plan_of unix_seconds ps usage_of inputs =
     (let cs = eligible inputs unix_seconds usage_of ps
      in \<lparr>ev_victims = sort_key victim_order (choose_victims cs (pi_shortfall inputs)),
          ev_skipped = skipped inputs unix_seconds usage_of ps,
          ev_shortfall = pi_shortfall inputs,
          ev_covers = pi_shortfall inputs \<le> total_freed cs\<rparr>)"

end
