(* ===== verification/Residency_Run.thy ===== *)
theory Residency_Run
  imports Residency "HOL-Library.Multiset"
begin

text \<open>
  The eviction plan (\<open>platform/residency.rs\<close>): the mask search returns the cheapest of all covering
  subsets, the greedy fallback a covering prefix with no superfluous runner, the plan leaves every
  protected runner alone, and the demand it reads counts the tasks that are alive.
\<close>

section \<open>Masks are subsets\<close>

lemma chosen_simps:
  "chosen_from k m [] = []"
  "chosen_from k m (c # cs) = (if bit m k then c # chosen_from (Suc k) m cs else chosen_from (Suc k) m cs)"
  by (simp_all add: chosen_from_def)

lemma chosen_shift: "chosen_from (Suc k) m cs = chosen_from k (m div 2) cs"
  by (induction cs arbitrary: k) (simp_all add: chosen_simps bit_Suc)

lemma chosen_Cons: "chosen m (c # cs) = (if odd m then c # chosen (m div 2) cs else chosen (m div 2) cs)"
  using chosen_shift [of 0 m cs] by (simp add: chosen_simps bit_0)

lemma chosen_Nil [simp]: "chosen m [] = []"
  by (simp add: chosen_simps)

lemma chosen_in_subseqs: "chosen m cs \<in> set (subseqs cs)"
  by (induction cs arbitrary: m) (auto simp: chosen_Cons Let_def)

lemma subseq_is_chosen: "ys \<in> set (subseqs cs) \<Longrightarrow> \<exists>m < 2 ^ length cs. chosen m cs = ys"
proof (induction cs arbitrary: ys)
  case Nil
  then show ?case by (auto intro: exI [of _ 0])
next
  case (Cons c cs)
  then consider zs where "ys = c # zs" "zs \<in> set (subseqs cs)" | "ys \<in> set (subseqs cs)"
    by (auto simp: Let_def)
  then show ?case
  proof cases
    case (1 zs)
    then obtain m where "m < 2 ^ length cs" "chosen m cs = zs" using Cons.IH by blast
    then show ?thesis using 1 by (intro exI [of _ "2 * m + 1"]) (simp add: chosen_Cons)
  next
    case 2
    then obtain m where "m < 2 ^ length cs" "chosen m cs = ys" using Cons.IH by blast
    then show ?thesis by (intro exI [of _ "2 * m"]) (simp add: chosen_Cons)
  qed
qed

lemma count_ones_chosen: "m < 2 ^ length cs \<Longrightarrow> count_ones m = length (chosen m cs)"
proof (induction cs arbitrary: m)
  case Nil
  then show ?case by (simp add: count_ones.simps)
next
  case (Cons c cs)
  then have "count_ones (m div 2) = length (chosen (m div 2) cs)" by simp
  then show ?case
    by (cases "m = 0") (simp_all add: count_ones.simps [of m] chosen_Cons odd_iff_mod_2_eq_one, presburger?)
qed

section \<open>Bytes\<close>

lemma fold_bytes:
  "foldl (\<lambda>b c. sat_add u64_max b (cd_bytes c)) a cs = min u64_max (a + sum_list (map cd_bytes cs))"
  if "a \<le> u64_max" for a
  using that
proof (induction cs arbitrary: a)
  case Nil
  then show ?case by simp
next
  case (Cons c cs)
  have "foldl (\<lambda>b c. sat_add u64_max b (cd_bytes c)) a (c # cs) =
      min u64_max (sat_add u64_max a (cd_bytes c) + sum_list (map cd_bytes cs))"
    using Cons.IH [of "sat_add u64_max a (cd_bytes c)"] by simp
  then show ?case by (auto simp: sat_add_def min_def)
qed

lemma set_bytes_sum: "set_bytes cs = min u64_max (sum_list (map cd_bytes cs))"
  by (simp add: set_bytes_def fold_bytes)

lemma total_le_bytes: "shortfall \<le> total_freed cs \<Longrightarrow> shortfall \<le> set_bytes cs"
proof -
  assume "shortfall \<le> total_freed cs"
  moreover have "total_freed cs \<le> sum_list (map cd_bytes cs)" by (simp add: total_freed_def)
  moreover have "total_freed cs \<le> u64_max" unfolding total_freed_def u64_max_def
    using mod_less_divisor [of "2 ^ 64" "sum_list (map cd_bytes cs)"] by simp
  ultimately show ?thesis by (simp add: set_bytes_sum)
qed

section \<open>The exact search\<close>

definition covers :: "nat \<Rightarrow> candidate list \<Rightarrow> bool" where
  "covers shortfall cs \<longleftrightarrow> shortfall \<le> set_bytes cs"

definition set_rank :: "nat \<Rightarrow> candidate list \<Rightarrow> set_key" where
  "set_rank shortfall cs = (f_total_key (set_cost cs), length cs, set_bytes cs - shortfall)"

lemma search_best:
  "foldl (try_mask cs shortfall) b ms = r \<Longrightarrow>
   (case r of
      None \<Rightarrow> b = None \<and> (\<forall>m \<in> set ms. \<not> covers shortfall (chosen m cs))
    | Some (key, m) \<Rightarrow>
        (b = Some (key, m) \<or> m \<in> set ms \<and> covers shortfall (chosen m cs) \<and> key = mask_key cs shortfall m) \<and>
        (\<forall>k n. b = Some (k, n) \<longrightarrow> key \<le> k) \<and>
        (\<forall>n \<in> set ms. covers shortfall (chosen n cs) \<longrightarrow> key \<le> mask_key cs shortfall n))"
proof (induction ms arbitrary: b)
  case Nil
  then show ?case by (auto split: option.split)
next
  case (Cons m ms)
  let ?b = "try_mask cs shortfall b m"
  have IH: "case r of
      None \<Rightarrow> ?b = None \<and> (\<forall>m \<in> set ms. \<not> covers shortfall (chosen m cs))
    | Some (key, n) \<Rightarrow>
        (?b = Some (key, n) \<or> n \<in> set ms \<and> covers shortfall (chosen n cs) \<and> key = mask_key cs shortfall n) \<and>
        (\<forall>k n. ?b = Some (k, n) \<longrightarrow> key \<le> k) \<and>
        (\<forall>n \<in> set ms. covers shortfall (chosen n cs) \<longrightarrow> key \<le> mask_key cs shortfall n)"
    using Cons.IH [of ?b] Cons.prems by simp
  have step: "?b = (if covers shortfall (chosen m cs) then
       (case b of None \<Rightarrow> Some (mask_key cs shortfall m, m)
        | Some (k, n) \<Rightarrow> if mask_key cs shortfall m < k then Some (mask_key cs shortfall m, m) else b)
     else b)"
    by (auto simp: try_mask_def covers_def Let_def split: option.split)
  show ?case
  proof (cases r)
    case None
    then show ?thesis using IH step by (auto split: option.splits if_splits)
  next
    case (Some p)
    obtain key n where p: "p = (key, n)" by (cases p)
    have a: "?b = Some (key, n) \<or> n \<in> set ms \<and> covers shortfall (chosen n cs) \<and> key = mask_key cs shortfall n"
      and le: "\<And>k n. ?b = Some (k, n) \<Longrightarrow> key \<le> k"
      and rest: "\<forall>n \<in> set ms. covers shortfall (chosen n cs) \<longrightarrow> key \<le> mask_key cs shortfall n"
      using IH Some p by auto
    have old: "key \<le> k" if "b = Some (k, j)" for k j
      using step le that by (auto split: if_splits intro: order_trans less_imp_le)
    have new: "key \<le> mask_key cs shortfall m" if cov: "covers shortfall (chosen m cs)"
    proof (cases b)
      case None
      then show ?thesis using step le cov by simp
    next
      case (Some q)
      obtain k j where q: "q = (k, j)" by (cases q)
      show ?thesis
      proof (cases "mask_key cs shortfall m < k")
        case True
        then show ?thesis using step le [of "mask_key cs shortfall m" m] cov Some q by simp
      next
        case False
        then have "key \<le> k" using old Some q by simp
        then show ?thesis using False by simp
      qed
    qed
    have "b = Some (key, n) \<or> n \<in> set (m # ms) \<and> covers shortfall (chosen n cs) \<and> key = mask_key cs shortfall n"
      using a step by (auto split: if_splits option.splits)
    then show ?thesis using Some p old new rest by auto
  qed
qed

lemma mask_key_rank: "m < 2 ^ length cs \<Longrightarrow> mask_key cs shortfall m = set_rank shortfall (chosen m cs)"
  by (simp add: mask_key_def set_rank_def count_ones_chosen)

lemma cheapest_is_least:
  assumes "0 < shortfall" and "covers shortfall cs"
  shows "cheapest_covering_set cs shortfall \<in> set (subseqs cs) \<and>
    covers shortfall (cheapest_covering_set cs shortfall) \<and>
    (\<forall>ys \<in> set (subseqs cs). covers shortfall ys \<longrightarrow>
       set_rank shortfall (cheapest_covering_set cs shortfall) \<le> set_rank shortfall ys)"
proof -
  let ?ms = "[1..<2 ^ length cs]"
  have masks: "\<exists>m \<in> set ?ms. chosen m cs = ys" if ys: "ys \<in> set (subseqs cs)" "covers shortfall ys" for ys
  proof -
    obtain m where m: "m < 2 ^ length cs" "chosen m cs = ys" using subseq_is_chosen [OF ys(1)] by blast
    have "ys \<noteq> []" using ys(2) assms(1) by (auto simp: covers_def set_bytes_def)
    moreover have "chosen 0 cs = []" by (induction cs) (simp_all add: chosen_Cons)
    ultimately have "m \<noteq> 0" using m by metis
    then show ?thesis using m by (intro bexI [of _ m]) auto
  qed
  obtain r where r: "foldl (try_mask cs shortfall) None ?ms = r" by blast
  note best = search_best [OF r]
  have "r \<noteq> None"
    using best masks [OF subseqs_refl assms(2)] assms(2) by (auto split: option.splits)
  then obtain key m where some: "r = Some (key, m)" by force
  then have m: "m \<in> set ?ms" "covers shortfall (chosen m cs)" "key = mask_key cs shortfall m"
    and least: "\<And>n. n \<in> set ?ms \<Longrightarrow> covers shortfall (chosen n cs) \<Longrightarrow> key \<le> mask_key cs shortfall n"
    using best by auto
  have eq: "cheapest_covering_set cs shortfall = chosen m cs"
    using r some by (simp add: cheapest_covering_set_def)
  have "set_rank shortfall (chosen m cs) \<le> set_rank shortfall ys"
    if ys: "ys \<in> set (subseqs cs)" "covers shortfall ys" for ys
  proof -
    obtain n where n: "n \<in> set ?ms" "chosen n cs = ys" using masks [OF ys] by blast
    then show ?thesis using least [of n] m ys mask_key_rank [of m cs] mask_key_rank [of n cs] by simp
  qed
  then show ?thesis using eq m chosen_in_subseqs by simp
qed

section \<open>The greedy fallback\<close>

lemma take_needed_prefix:
  "\<exists>rest. cs = take_needed shortfall f cs @ rest"
  by (induction cs arbitrary: f) auto

lemma take_needed_spec:
  "f \<le> u64_max \<Longrightarrow> shortfall \<le> u64_max \<Longrightarrow> shortfall \<le> f + sum_list (map cd_bytes cs) \<Longrightarrow>
    (let r = take_needed shortfall f cs in
     shortfall \<le> f + sum_list (map cd_bytes r) \<and>
     (r \<noteq> [] \<longrightarrow> f + sum_list (map cd_bytes (butlast r)) < shortfall))"
proof (induction cs arbitrary: f)
  case Nil
  then show ?case by simp
next
  case (Cons c cs)
  show ?case
  proof (cases "f < shortfall")
    case True
    let ?f = "sat_add u64_max f (cd_bytes c)"
    have f: "?f \<le> u64_max" by simp
    consider "f + cd_bytes c \<le> u64_max" | "u64_max < f + cd_bytes c" by linarith
    then show ?thesis
    proof cases
      case 1
      then have "?f = f + cd_bytes c" by (simp add: sat_add_exact)
      then show ?thesis using Cons.IH [of ?f] Cons.prems True f by (auto simp: Let_def add.assoc)
    next
      case 2
      then have "?f = u64_max" by (simp add: sat_add_def)
      then have "take_needed shortfall ?f cs = []" using Cons.prems by (cases cs) auto
      then show ?thesis using 2 True Cons.prems by (simp add: Let_def)
    qed
  next
    case False
    then show ?thesis by simp
  qed
qed

lemma sum_bytes_sort: "sum_list (map cd_bytes (sort_key k cs)) = sum_list (map cd_bytes cs)"
  by (metis mset_map mset_sort sum_mset_sum_list)

lemma greedy_covers:
  assumes "covers shortfall cs"
  shows "covers shortfall (greedy_covering_set cs shortfall) \<and>
    (greedy_covering_set cs shortfall \<noteq> [] \<longrightarrow>
       \<not> covers shortfall (butlast (greedy_covering_set cs shortfall)))"
proof -
  have le: "shortfall \<le> u64_max" "shortfall \<le> sum_list (map cd_bytes cs)"
    using assms by (auto simp: covers_def set_bytes_sum)
  then show ?thesis
    using take_needed_spec [of 0 shortfall "sort_key cost_per_byte cs"]
    by (auto simp: greedy_covering_set_def covers_def set_bytes_sum sum_bytes_sort Let_def)
qed

lemma greedy_subset: "mset (greedy_covering_set cs shortfall) \<subseteq># mset cs"
proof -
  obtain rest where "sort_key cost_per_byte cs = greedy_covering_set cs shortfall @ rest"
    using take_needed_prefix [of "sort_key cost_per_byte cs" shortfall 0] by (auto simp: greedy_covering_set_def)
  then have "mset cs = mset (greedy_covering_set cs shortfall) + mset rest"
    by (metis mset_append mset_sort)
  then show ?thesis by simp
qed

section \<open>Demand\<close>

record activity_sys =
  as_map :: activities
  as_guards :: "model_key list"

datatype activity_event =
    EvBegin instant model_key
  | EvGuardGone model_key
  | EvCompleted instant model_key nat
  | EvUsage instant model_key

fun activity_step :: "(f64 \<Rightarrow> f64 \<Rightarrow> f64) \<Rightarrow> activity_sys \<Rightarrow> activity_event \<Rightarrow> activity_sys" where
  "activity_step powf \<sigma> (EvBegin now k) =
     \<sigma>\<lparr>as_map := activity_begin powf now k (as_map \<sigma>), as_guards := k # as_guards \<sigma>\<rparr>"
| "activity_step powf \<sigma> (EvGuardGone k) =
     (if k \<in> set (as_guards \<sigma>)
      then \<sigma>\<lparr>as_map := active_model_drop k (as_map \<sigma>), as_guards := remove1 k (as_guards \<sigma>)\<rparr>
      else \<sigma>)"
| "activity_step powf \<sigma> (EvCompleted now k ms) =
     \<sigma>\<lparr>as_map := activity_completed powf now k ms (as_map \<sigma>)\<rparr>"
| "activity_step powf \<sigma> (EvUsage now k) = \<sigma>\<lparr>as_map := snd (activity_usage powf now k (as_map \<sigma>))\<rparr>"

definition activity_inv :: "activity_sys \<Rightarrow> bool" where
  "activity_inv \<sigma> \<longleftrightarrow> (\<forall>k. av_active (entry_of k (as_map \<sigma>)) = count_list (as_guards \<sigma>) k)"

lemma activity_invD: "activity_inv \<sigma> \<Longrightarrow> av_active (entry_of k (as_map \<sigma>)) = count_list (as_guards \<sigma>) k"
  unfolding activity_inv_def by (rule spec)

lemma entry_of_upd [simp]: "entry_of j (m(k \<mapsto> a)) = (if j = k then a else entry_of j m)"
  by (simp add: entry_of_def)

lemma entry_of_Some [simp]: "m k = Some a \<Longrightarrow> entry_of k m = a"
  by (simp add: entry_of_def)

lemma active_of_Some: "m k = Some a \<Longrightarrow> \<forall>k. av_active (entry_of k m) = f k \<Longrightarrow> av_active a = f k"
  using entry_of_Some by metis

lemma decay_active [simp]: "av_active (decay powf now a) = av_active a"
  by (simp add: decay_def Let_def split: option.split)

lemma count_remove1: "count_list (remove1 x xs) y = (if x = y then count_list xs y - 1 else count_list xs y)"
  by (induction xs) (auto simp: count_list_0_iff intro!: Suc_pred)

lemma activity_step_inv: "activity_inv \<sigma> \<Longrightarrow> activity_inv (activity_step powf \<sigma> e)"
proof (cases e)
  case (EvGuardGone k)
  assume inv: "activity_inv \<sigma>"
  show ?thesis
  proof (cases "k \<in> set (as_guards \<sigma>)")
    case True
    then have "av_active (entry_of k (as_map \<sigma>)) \<noteq> 0"
      using activity_invD [OF inv, of k] True by (simp add: count_list_0_iff)
    then have "as_map \<sigma> k \<noteq> None"
      by (cases "as_map \<sigma> k") (simp_all add: entry_of_def activity_default_def)
    then obtain a where a: "as_map \<sigma> k = Some a" by blast
    then have "av_active a = count_list (as_guards \<sigma>) k" using activity_invD [OF inv, of k] by simp
    then show ?thesis
      using inv EvGuardGone True a
      by (auto simp: activity_inv_def active_model_drop_def count_remove1 simp del: split_paired_All split: option.splits)
  next
    case False
    then show ?thesis using inv EvGuardGone by simp
  qed
qed (auto simp: activity_inv_def activity_begin_def activity_completed_def activity_usage_def Let_def
    simp del: split_paired_All intro: active_of_Some split: option.splits)

interpretation activity: invariant_system "activity_step powf" "\<lambda>_. True" activity_inv
  by unfold_locales (rule activity_step_inv)

definition activity_run :: "(f64 \<Rightarrow> f64 \<Rightarrow> f64) \<Rightarrow> activity_event list \<Rightarrow> activity_sys" where
  "activity_run powf es = foldl (activity_step powf) \<lparr>as_map = Map.empty, as_guards = []\<rparr> es"

lemma activity_run_inv: "activity_inv (activity_run powf es)"
  unfolding activity_run_def
  by (rule activity.run_inv) (auto simp: activity_inv_def entry_of_def activity_default_def list_all_iff)

lemma usage_counts_guards:
  "us_active (fst (activity_usage powf now k (as_map (activity_run powf es)))) =
    count_list (as_guards (activity_run powf es)) k"
  using activity_invD [OF activity_run_inv, of k powf es]
  by (auto simp: activity_usage_def entry_of_def usage_default_def activity_default_def Let_def split: option.splits)

section \<open>The plan\<close>

lemma choose_victims_subset: "set (choose_victims cs shortfall) \<subseteq> set cs"
proof -
  have "set (chosen m cs) \<subseteq> set cs" for m
    using chosen_in_subseqs [of m cs] subseqs_powset [of cs] by blast
  then have "set (cheapest_covering_set cs shortfall) \<subseteq> set cs"
    by (auto simp: cheapest_covering_set_def split: option.splits)
  moreover have "set (greedy_covering_set cs shortfall) \<subseteq> set cs"
    using greedy_subset [of cs shortfall] by (metis mset_subset_eqD set_mset_mset subsetI)
  ultimately show ?thesis by (auto simp: choose_victims_def)
qed

lemma choose_victims_covers:
  "0 < shortfall \<Longrightarrow> shortfall \<le> total_freed cs \<Longrightarrow> covers shortfall (choose_victims cs shortfall)"
  using cheapest_is_least [of shortfall cs] greedy_covers [of shortfall cs] total_le_bytes [of shortfall cs]
  by (auto simp: choose_victims_def covers_def)

definition runner_protected :: "plan_inputs \<Rightarrow> nat \<Rightarrow> (string \<Rightarrow> usage) \<Rightarrow> candidate \<Rightarrow> bool" where
  "runner_protected inputs unix_seconds usage_of c \<longleftrightarrow>
     cd_name c = pi_keep inputs \<or> cd_name c \<in> pi_pinned inputs \<or>
     pinned_expiry unix_seconds (cd_expires_at c) \<or> starts_with (cd_expires_at c) ''0001-'' \<or>
     0 < us_active (usage_of (cd_name c)) \<or> cd_bytes c = 0"

lemma judge_Eligible:
  "judge inputs unix_seconds usage_of e = Eligible c \<Longrightarrow>
    \<exists>name. skip_reason inputs unix_seconds name (entry_expiry e) (usage_of name) = None \<and>
      c = candidate_of inputs e name (usage_of name) \<and> cd_bytes c \<noteq> 0"
  by (auto simp: judge_def Let_def split: option.splits if_splits)

lemma skip_None:
  "skip_reason inputs unix_seconds name ex u = None \<longleftrightarrow>
    name \<noteq> pi_keep inputs \<and> name \<notin> pi_pinned inputs \<and> \<not> pinned_expiry unix_seconds ex \<and>
    \<not> starts_with ex ''0001-'' \<and> us_active u = 0"
  by (simp add: skip_reason_def)

lemma candidate_of_simps [simp]:
  "cd_name (candidate_of inputs e name u) = name" "cd_expires_at (candidate_of inputs e name u) = entry_expiry e"
  by (simp_all add: candidate_of_def Let_def)

lemma eligible_unprotected:
  assumes "c \<in> set (eligible inputs unix_seconds usage_of ps)"
  shows "\<not> runner_protected inputs unix_seconds usage_of c"
proof -
  obtain e where "judge inputs unix_seconds usage_of e = Eligible c"
    using assms by (auto simp: eligible_def List.map_filter_def split: verdict.splits)
  from judge_Eligible [OF this] show ?thesis by (auto simp: skip_None runner_protected_def)
qed

section \<open>Properties\<close>

text \<open>
  C15: the plan spares protected runners. Whatever tasks began, completed or ended before the plan
  read the demand, it unloads neither the model about to load, nor an operator-pinned one, nor one
  kept alive forever or still loading, nor a model to which a live task is routed.
\<close>

theorem plan_spares_protected:
  assumes "c \<in> set (ev_victims (eviction_plan_of unix_seconds ps
             (\<lambda>n. fst (activity_usage powf (now n) (pi_backend inputs, n) (as_map (activity_run powf es)))) inputs))"
  shows "cd_name c \<noteq> pi_keep inputs \<and> cd_name c \<notin> pi_pinned inputs \<and>
    \<not> pinned_expiry unix_seconds (cd_expires_at c) \<and> \<not> starts_with (cd_expires_at c) ''0001-'' \<and>
    (pi_backend inputs, cd_name c) \<notin> set (as_guards (activity_run powf es)) \<and> 0 < cd_bytes c"
proof -
  let ?use = "\<lambda>n. fst (activity_usage powf (now n) (pi_backend inputs, n) (as_map (activity_run powf es)))"
  have "c \<in> set (eligible inputs unix_seconds ?use ps)"
    using assms choose_victims_subset by (auto simp: eviction_plan_of_def Let_def)
  from eligible_unprotected [OF this] show ?thesis
    by (auto simp: runner_protected_def usage_counts_guards count_list_0_iff)
qed

text \<open>
  the plan covers the shortfall or says so. No shortfall unloads nothing; a plan that claims to
  cover frees at least the shortfall; a plan that does not claim it unloads every eligible runner; and
  nothing but eligible runners is ever unloaded.
\<close>

theorem plan_covers_or_says_so:
  fixes unix_seconds :: nat and ps :: json and usage_of :: "string \<Rightarrow> usage" and inputs :: plan_inputs
  defines "plan \<equiv> eviction_plan_of unix_seconds ps usage_of inputs"
    and "cs \<equiv> eligible inputs unix_seconds usage_of ps"
  shows "set (ev_victims plan) \<subseteq> set cs \<and>
    (pi_shortfall inputs = 0 \<longrightarrow> ev_victims plan = []) \<and>
    (ev_covers plan \<longrightarrow> pi_shortfall inputs \<le> sum_list (map cd_bytes (ev_victims plan))) \<and>
    (\<not> ev_covers plan \<longrightarrow> mset (ev_victims plan) = mset cs)"
proof -
  have victims: "ev_victims plan = sort_key victim_order (choose_victims cs (pi_shortfall inputs))"
    and cov: "ev_covers plan \<longleftrightarrow> pi_shortfall inputs \<le> total_freed cs"
    by (simp_all add: plan_def cs_def eviction_plan_of_def Let_def)
  have "pi_shortfall inputs \<le> sum_list (map cd_bytes (choose_victims cs (pi_shortfall inputs)))" if "ev_covers plan"
    using choose_victims_covers [of "pi_shortfall inputs" cs] that cov
    by (cases "pi_shortfall inputs = 0") (simp_all add: covers_def set_bytes_sum)
  moreover have "choose_victims cs (pi_shortfall inputs) = cs" if "\<not> ev_covers plan"
    using that cov by (auto simp: choose_victims_def)
  ultimately show ?thesis
    using choose_victims_subset [of cs "pi_shortfall inputs"]
    by (auto simp: victims sum_bytes_sort choose_victims_def)
qed

text \<open>
  C14: the exact plan is the cheapest. With at most fourteen eligible runners that together cover a
  positive shortfall, the unloaded set covers it, and no covering subset of the eligible runners has a
  smaller total cost, or the same cost with fewer runners, or both the same and less memory freed
  beyond the need.
\<close>

theorem exact_plan_is_cheapest:
  assumes "0 < shortfall" and "shortfall \<le> total_freed cs" and "length cs \<le> MAX_EXACT_CANDIDATES"
  shows "choose_victims cs shortfall \<in> set (subseqs cs) \<and> covers shortfall (choose_victims cs shortfall) \<and>
    (\<forall>ys \<in> set (subseqs cs). covers shortfall ys \<longrightarrow>
       set_rank shortfall (choose_victims cs shortfall) \<le> set_rank shortfall ys)"
proof -
  have "covers shortfall cs" using total_le_bytes [OF assms(2)] by (simp add: covers_def)
  from cheapest_is_least [OF assms(1) this] show ?thesis
    using assms by (simp add: choose_victims_def)
qed

text \<open>
  the greedy plan frees no more than it needs. Beyond fourteen runners the unloaded ones still cover the
  shortfall, and leaving out the last of them would not.
\<close>

theorem greedy_plan_stops_when_covered:
  assumes "0 < shortfall" and "shortfall \<le> total_freed cs" and "MAX_EXACT_CANDIDATES < length cs"
  shows "covers shortfall (choose_victims cs shortfall) \<and>
    \<not> covers shortfall (butlast (choose_victims cs shortfall)) \<and>
    (\<exists>rest. sort_key cost_per_byte cs = choose_victims cs shortfall @ rest)"
proof -
  have "covers shortfall cs" using total_le_bytes [OF assms(2)] by (simp add: covers_def)
  moreover have eq: "choose_victims cs shortfall = greedy_covering_set cs shortfall"
    using assms by (simp add: choose_victims_def)
  moreover have "greedy_covering_set cs shortfall \<noteq> []"
    using assms greedy_covers [OF \<open>covers shortfall cs\<close>] by (auto simp: covers_def set_bytes_def)
  moreover have "\<exists>rest. sort_key cost_per_byte cs = greedy_covering_set cs shortfall @ rest"
    using take_needed_prefix [of "sort_key cost_per_byte cs" shortfall 0] by (simp add: greedy_covering_set_def)
  ultimately show ?thesis using greedy_covers [of shortfall cs] by simp
qed

section \<open>Witnesses\<close>

definition sample_candidate :: "string \<Rightarrow> nat \<Rightarrow> f64 \<Rightarrow> candidate" where
  "sample_candidate n b w = \<lparr>cd_name = n, cd_bytes = b, cd_reload_seconds = f_one,
     cd_reload_source = ''size_estimate'', cd_recent_uses = f_zero, cd_idle_seconds = None,
     cd_weight = w, cd_expires_at = []\<rparr>"

theorem exact_plan_is_cheapest_witness:
  "covers 3 (choose_victims [sample_candidate ''a'' 4 f_one, sample_candidate ''b'' 3 f_one] 3) \<and>
   length (choose_victims [sample_candidate ''a'' 4 f_one, sample_candidate ''b'' 3 f_one] 3) \<le> 2"
proof -
  let ?cs = "[sample_candidate ''a'' 4 f_one, sample_candidate ''b'' 3 f_one]"
  have h: "0 < (3::nat)" "3 \<le> total_freed ?cs" "length ?cs \<le> MAX_EXACT_CANDIDATES"
    by (simp_all add: total_freed_def sample_candidate_def MAX_EXACT_CANDIDATES_def)
  note best = exact_plan_is_cheapest [OF h]
  have "set (subseqs ?cs) = {?cs, [?cs ! 0], [?cs ! 1], []}" by (auto simp: Let_def)
  then have "length (choose_victims ?cs 3) \<le> 2" using best by auto
  then show ?thesis using best by simp
qed

definition many_candidates :: "candidate list" where
  "many_candidates = map (\<lambda>i. sample_candidate [] (i + 1) f_one) [0..<15]"

theorem greedy_plan_stops_when_covered_witness:
  "covers 100 (choose_victims many_candidates 100) \<and>
   \<not> covers 100 (butlast (choose_victims many_candidates 100))"
proof -
  have "0 < (100::nat)" "100 \<le> total_freed many_candidates" "MAX_EXACT_CANDIDATES < length many_candidates"
    by (simp_all add: total_freed_def many_candidates_def sample_candidate_def MAX_EXACT_CANDIDATES_def upt_rec)
  from greedy_plan_stops_when_covered [OF this] show ?thesis by simp
qed

definition sample_ps :: json where
  "sample_ps = JObj [(''models'', JArr [
     JObj [(''name'', JStr ''a''), (''size'', JInt 5)],
     JObj [(''name'', JStr ''b''), (''size'', JInt 5)],
     JObj [(''name'', JStr ''c''), (''size'', JInt 5)]])]"

definition sample_inputs :: "nat \<Rightarrow> plan_inputs" where
  "sample_inputs n = \<lparr>pi_backend = ''gpu'', pi_keep = ''a'', pi_pinned = {}, pi_weights = [],
     pi_freed = FreedTotal, pi_shortfall = n\<rparr>"

definition sample_activity :: "activity_event list" where
  "sample_activity = [EvBegin 1 (''gpu'', ''b'')]"

definition sample_usage :: "string \<Rightarrow> usage" where
  "sample_usage n = fst (activity_usage (\<lambda>x _. x) 2 (''gpu'', n) (as_map (activity_run (\<lambda>x _. x) sample_activity)))"

lemma sample_usage_active: "us_active (sample_usage n) = (if n = ''b'' then 1 else 0)"
  unfolding sample_usage_def usage_counts_guards by (simp add: activity_run_def sample_activity_def)

lemma sample_eligible:
  "map cd_name (eligible (sample_inputs n) 0 sample_usage sample_ps) = [''c'']"
  "map cd_bytes (eligible (sample_inputs n) 0 sample_usage sample_ps) = [5]"
  using sample_usage_active
  by (simp_all add: eligible_def sample_ps_def jindex_def List.map_filter_def judge_def ps_entry_name_def
      skip_reason_def entry_expiry_def sample_inputs_def pinned_expiry_def candidate_of_def get_u64_def
      or_zero_def freed_bytes_def Let_def u64_max_def)

theorem plan_spares_protected_witness:
  "map cd_name (ev_victims (eviction_plan_of 0 sample_ps sample_usage (sample_inputs 9))) = [''c''] \<and>
   (''gpu'', ''c'') \<notin> set (as_guards (activity_run (\<lambda>x _. x) sample_activity))"
proof -
  let ?cs = "eligible (sample_inputs 9) 0 sample_usage sample_ps"
  have one: "length ?cs = 1" using arg_cong [OF sample_eligible(1) [of 9], of length] by simp
  have "total_freed ?cs < 9" unfolding total_freed_def sample_eligible(2) by simp
  then have victims: "ev_victims (eviction_plan_of 0 sample_ps sample_usage (sample_inputs 9)) = ?cs"
    using one by (auto simp: eviction_plan_of_def choose_victims_def Let_def length_Suc_conv sample_inputs_def)
  obtain c where c: "?cs = [c]" "cd_name c = ''c''"
    using one sample_eligible(1) [of 9] by (auto simp: length_Suc_conv)
  have "c \<in> set (ev_victims (eviction_plan_of 0 sample_ps (\<lambda>n. fst (activity_usage (\<lambda>x _. x) ((\<lambda>_. 2) n)
      (pi_backend (sample_inputs 9), n) (as_map (activity_run (\<lambda>x _. x) sample_activity)))) (sample_inputs 9)))"
    using victims c by (simp add: sample_usage_def [abs_def] sample_inputs_def)
  from plan_spares_protected [OF this] show ?thesis
    using victims c by (simp add: sample_inputs_def)
qed

theorem plan_covers_or_says_so_witness:
  "map cd_name (ev_victims (eviction_plan_of 0 sample_ps sample_usage (sample_inputs 9))) = [''c'']"
proof -
  let ?cs = "eligible (sample_inputs 9) 0 sample_usage sample_ps"
  have "total_freed ?cs < 9" unfolding total_freed_def sample_eligible(2) by simp
  then have "\<not> ev_covers (eviction_plan_of 0 sample_ps sample_usage (sample_inputs 9))"
    by (simp add: eviction_plan_of_def Let_def sample_inputs_def)
  then have "mset (ev_victims (eviction_plan_of 0 sample_ps sample_usage (sample_inputs 9))) = mset ?cs"
    using plan_covers_or_says_so [of 0 sample_ps sample_usage "sample_inputs 9"] by blast
  then have "mset (map cd_name (ev_victims (eviction_plan_of 0 sample_ps sample_usage (sample_inputs 9)))) =
      {#''c''#}"
    using sample_eligible(1) [of 9] by (metis mset.simps(1) mset.simps(2) mset_map)
  then show ?thesis by (simp del: mset_map)
qed

end
