(* ===== verification/Streaming.thy ===== *)
theory Streaming
  imports Upstream_Retry Repetition FL_Error FL_Text
begin

text \<open>
  The managed transport to Ollama (\<open>platform/execution/upstream.rs\<close>): a whole JSON answer, or a
  streamed chat whose newline-delimited documents are accumulated into one answer and which is
  stopped when its text repeats itself. A byte is a character of a string. What one send answers and
  the bytes that follow, the parser of a line and the wall time are arguments.
\<close>

section \<open>The accumulated message\<close>

record streamed =
  sd_content :: string
  sd_thinking :: string
  sd_calls :: "json list"
  sd_tokens :: nat

definition streamed_default :: streamed where
  "streamed_default = \<lparr>sd_content = [], sd_thinking = [], sd_calls = [], sd_tokens = 0\<rparr>"

definition message_text :: "string \<Rightarrow> json \<Rightarrow> string option" where
  "message_text key chunk = Option.bind (jpointer chunk [''message'', key]) as_str"

definition absorb :: "json \<Rightarrow> streamed \<Rightarrow> streamed" where
  "absorb chunk m =
     (let m1 = (case message_text ''content'' chunk of
                  Some piece \<Rightarrow>
                    if piece \<noteq> [] then m\<lparr>sd_content := sd_content m @ piece, sd_tokens := sd_tokens m + 1\<rparr>
                    else m
                | None \<Rightarrow> m);
          m2 = (case message_text ''thinking'' chunk of
                  Some piece \<Rightarrow> m1\<lparr>sd_thinking := sd_thinking m1 @ piece\<rparr> | None \<Rightarrow> m1)
      in case Option.bind (jpointer chunk [''message'', ''tool_calls'']) as_array of
           Some calls \<Rightarrow> m2\<lparr>sd_calls := sd_calls m2 @ calls\<rparr> | None \<Rightarrow> m2)"

definition streamed_message :: "streamed \<Rightarrow> json" where
  "streamed_message m =
     (let m0 = json_object [(''role'', JStr ''assistant''), (''content'', JStr (sd_content m))];
          m1 = (if sd_thinking m \<noteq> [] then jset ''thinking'' (JStr (sd_thinking m)) m0 else m0)
      in if sd_calls m \<noteq> [] then jset ''tool_calls'' (JArr (sd_calls m)) m1 else m1)"

definition streamed_completion :: "json \<Rightarrow> json \<Rightarrow> nat \<Rightarrow> nat \<Rightarrow> string \<Rightarrow> json" where
  "streamed_completion latest message tokens elapsed_ns reason = json_object [
     (''model'', jindex latest ''model''), (''created_at'', jindex latest ''created_at''),
     (''message'', message), (''done'', JBool True), (''done_reason'', JStr reason),
     (''eval_count'', jnat tokens), (''total_duration'', jnat (min elapsed_ns u64_max))]"

definition LOOP_CHECK_TOKENS :: nat where "LOOP_CHECK_TOKENS = 16"

section \<open>One document of the stream\<close>

record stream_state =
  ss_streamed :: streamed
  ss_last :: json
  ss_checked :: nat

datatype progress = Continue stream_state | Finish nat json

definition reported_error :: "json \<Rightarrow> json option" where
  "reported_error chunk =
     (case jget chunk ''error'' of None \<Rightarrow> None | Some e \<Rightarrow> if e = JNull then None else Some e)"

definition repeat_limit :: "json \<Rightarrow> bool" where
  "repeat_limit e = (case as_str e of None \<Rightarrow> False | Some s \<Rightarrow> contains_text ''repeat limit'' s)"

definition is_done :: "json \<Rightarrow> bool" where
  "is_done chunk \<longleftrightarrow> jindex chunk ''done'' = JBool True"

definition handle_chunk :: "nat \<Rightarrow> nat \<Rightarrow> json \<Rightarrow> stream_state \<Rightarrow> progress" where
  "handle_chunk status elapsed_ns chunk st =
     (case reported_error chunk of
        Some e \<Rightarrow>
          let m = ss_streamed st in
          if repeat_limit e \<and> sd_content m \<noteq> []
          then Finish 200 (streamed_completion (ss_last st) (streamed_message m) (sd_tokens m) elapsed_ns
                 ''repeat_limit'')
          else Finish status (jset ''message'' (streamed_message m) chunk)
      | None \<Rightarrow>
          let m = absorb chunk (ss_streamed st) in
          if is_done chunk then Finish status (jset ''message'' (streamed_message m) chunk)
          else if ss_checked st + LOOP_CHECK_TOKENS \<le> sd_tokens m
          then (if should_stop_streaming (sd_content m)
                then Finish 200 (streamed_completion chunk (streamed_message m) (sd_tokens m) elapsed_ns
                       ''repetition'')
                else Continue \<lparr>ss_streamed = m, ss_last = chunk, ss_checked = sd_tokens m\<rparr>)
          else Continue \<lparr>ss_streamed = m, ss_last = chunk, ss_checked = ss_checked st\<rparr>)"

definition stream_start :: stream_state where
  "stream_start = \<lparr>ss_streamed = streamed_default, ss_last = JNull, ss_checked = 0\<rparr>"

section \<open>Bytes and lines\<close>

definition newline :: char where "newline = CHR 0x0A"

definition handle_line :: "(string \<Rightarrow> json option) \<Rightarrow> nat \<Rightarrow> nat \<Rightarrow> string \<Rightarrow> stream_state \<Rightarrow> progress" where
  "handle_line parse status elapsed_ns line st =
     (case parse line of None \<Rightarrow> Continue st | Some chunk \<Rightarrow> handle_chunk status elapsed_ns chunk st)"

text \<open>The inner loop takes complete lines off the pending bytes until there is none or it returns.\<close>

function drain ::
  "(string \<Rightarrow> stream_state \<Rightarrow> progress) \<Rightarrow> string \<Rightarrow> stream_state \<Rightarrow> string \<times> progress" where
  "drain on_line pending st =
     (case position (\<lambda>b. b = newline) pending of
        None \<Rightarrow> (pending, Continue st)
      | Some e \<Rightarrow>
          (case on_line (take (Suc e) pending) st of
             Finish status value \<Rightarrow> (drop (Suc e) pending, Finish status value)
           | Continue st' \<Rightarrow> drain on_line (drop (Suc e) pending) st'))"
  by pat_completeness auto
termination by (relation "measure (\<lambda>(_, pending, _). length pending)") (auto dest: position_exists simp: position_Some)

declare drain.simps [simp del]

definition unfinished :: "nat \<Rightarrow> stream_state \<Rightarrow> nat \<times> json" where
  "unfinished status st =
     (status, json_object [(''done'', JBool False), (''message'', streamed_message (ss_streamed st))])"

text \<open>The chunks of the body, and the transport error that ends it, if any.\<close>

fun read_chunks ::
  "(string \<Rightarrow> stream_state \<Rightarrow> progress) \<Rightarrow> nat \<Rightarrow> string option \<Rightarrow> string list \<Rightarrow> string \<Rightarrow> stream_state \<Rightarrow>
   api_error + nat \<times> json" where
  "read_chunks on_line status failure [] pending st =
     (case failure of Some e \<Rightarrow> Inl (upstream_error e) | None \<Rightarrow> Inr (unfinished status st))"
| "read_chunks on_line status failure (bytes # rest) pending st =
     (case drain on_line (pending @ bytes) st of
        (_, Finish s value) \<Rightarrow> Inr (s, value)
      | (pending', Continue st') \<Rightarrow> read_chunks on_line status failure rest pending' st')"

definition read_stream ::
  "(string \<Rightarrow> json option) \<Rightarrow> nat \<Rightarrow> nat \<Rightarrow> string option \<Rightarrow> string list \<Rightarrow> api_error + nat \<times> json" where
  "read_stream parse status elapsed_ns failure chunks =
     read_chunks (handle_line parse status elapsed_ns) status failure chunks [] stream_start"

section \<open>The two posts\<close>

text \<open>The body behind a response: its chunks and the failure that may end them.\<close>

type_synonym response_body = "string list \<times> string option"

definition body_value ::
  "(string \<Rightarrow> json option) \<Rightarrow> (string \<Rightarrow> string) \<Rightarrow> nat \<Rightarrow> response_body \<Rightarrow> api_error + nat \<times> json" where
  "body_value parse lossy status body =
     (case snd body of
        Some e \<Rightarrow> Inl (upstream_error e)
      | None \<Rightarrow>
          Inr (status, case parse (concat (fst body)) of
                         Some v \<Rightarrow> v
                       | None \<Rightarrow> json_object [(''error'', JStr (str_trim (lossy (concat (fst body)))))]))"

definition is_success :: "nat \<Rightarrow> bool" where
  "is_success status \<longleftrightarrow> 200 \<le> status \<and> status < 300"

definition post_json_with_retries ::
  "(string \<Rightarrow> json option) \<Rightarrow> (string \<Rightarrow> string) \<Rightarrow> (nat \<Rightarrow> nat) \<Rightarrow> (nat \<Rightarrow> outcome) \<Rightarrow> (nat \<Rightarrow> response_body) \<Rightarrow>
   api_error + nat \<times> json" where
  "post_json_with_retries parse lossy nanos upstream bodies =
     (case send_with_retries nanos upstream of
        (_, n, Failure _ _) \<Rightarrow> Inl (upstream_error ''transport'')
      | (_, n, Response status) \<Rightarrow> body_value parse lossy status (bodies n))"

definition post_streaming_chat_with_retries ::
  "(string \<Rightarrow> json option) \<Rightarrow> (string \<Rightarrow> string) \<Rightarrow> (nat \<Rightarrow> nat) \<Rightarrow> nat \<Rightarrow> (nat \<Rightarrow> outcome) \<Rightarrow>
   (nat \<Rightarrow> response_body) \<Rightarrow> api_error + nat \<times> json" where
  "post_streaming_chat_with_retries parse lossy nanos elapsed_ns upstream bodies =
     (case send_with_retries nanos upstream of
        (_, n, Failure _ _) \<Rightarrow> Inl (upstream_error ''transport'')
      | (_, n, Response status) \<Rightarrow>
          if \<not> is_success status then body_value parse lossy status (bodies n)
          else read_stream parse status elapsed_ns (snd (bodies n)) (fst (bodies n)))"

section \<open>Lines do not depend on chunks\<close>

lemma position_append:
  "position P (xs @ ys) =
    (case position P xs of Some i \<Rightarrow> Some i | None \<Rightarrow> map_option (\<lambda>i. length xs + i) (position P ys))"
  by (induction xs; cases "position P ys") (auto split: option.splits)

lemma position_less: "position P xs = Some i \<Longrightarrow> i < length xs"
  by (simp add: position_Some)

lemma drain_append:
  "drain f (p @ b) st =
    (case drain f p st of
       (rest, Finish s v) \<Rightarrow> (rest @ b, Finish s v)
     | (rest, Continue st') \<Rightarrow> drain f (rest @ b) st')"
proof (induction f p st rule: drain.induct)
  case (1 f p st)
  show ?case
  proof (cases "position (\<lambda>c. c = newline) p")
    case None
    then show ?thesis by (simp add: drain.simps [of f p st])
  next
    case (Some e)
    then have pos: "position (\<lambda>c. c = newline) (p @ b) = Some e" by (simp add: position_append)
    have e: "Suc e \<le> length p" using position_less [OF Some] by simp
    show ?thesis
    proof (cases "f (take (Suc e) p) st")
      case (Continue st')
      then show ?thesis
        using "1.IH" [OF Some Continue] e
        by (simp add: drain.simps [of f "p @ b" st] drain.simps [of f p st] pos Some)
    next
      case (Finish s v)
      then show ?thesis using e
        by (simp add: drain.simps [of f "p @ b" st] drain.simps [of f p st] pos Some)
    qed
  qed
qed

lemma drain_rest: "drain f p st = (rest, Continue st') \<Longrightarrow> newline \<notin> set rest"
proof (induction f p st arbitrary: rest st' rule: drain.induct)
  case (1 f p st)
  show ?case
  proof (cases "position (\<lambda>c. c = newline) p")
    case None
    have "rest = p" using "1.prems" by (simp add: drain.simps [of f p st] None)
    then show ?thesis using None by (auto simp: position_None)
  next
    case (Some e)
    then show ?thesis using "1.prems" "1.IH" [OF Some]
      by (auto simp: drain.simps [of f p st] split: progress.splits)
  qed
qed

lemma drain_none: "newline \<notin> set p \<Longrightarrow> drain f p st = (p, Continue st)"
proof -
  assume "newline \<notin> set p"
  then have "position (\<lambda>c. c = newline) p = None" by (auto simp: position_None)
  then show ?thesis by (simp add: drain.simps [of f p st])
qed

definition stream_result ::
  "nat \<Rightarrow> string option \<Rightarrow> progress \<Rightarrow> api_error + nat \<times> json" where
  "stream_result status failure p =
     (case p of
        Finish s v \<Rightarrow> Inr (s, v)
      | Continue st \<Rightarrow> (case failure of Some e \<Rightarrow> Inl (upstream_error e) | None \<Rightarrow> Inr (unfinished status st)))"

lemma read_chunks_drain:
  "newline \<notin> set pending \<Longrightarrow>
    read_chunks f status failure cs pending st =
      stream_result status failure (snd (drain f (pending @ concat cs) st))"
proof (induction cs arbitrary: pending st)
  case Nil
  then show ?case by (simp add: drain_none stream_result_def)
next
  case (Cons b cs)
  obtain rest r where d: "drain f (pending @ b) st = (rest, r)" by force
  show ?case
  proof (cases r)
    case (Continue st')
    then have "newline \<notin> set rest" using d drain_rest by blast
    then show ?thesis
      using Cons.IH [of rest st'] d Continue drain_append [of f "pending @ b" "concat cs" st] by simp
  next
    case (Finish s v)
    then show ?thesis
      using d drain_append [of f "pending @ b" "concat cs" st] by (simp add: stream_result_def)
  qed
qed

section \<open>Documents\<close>

fun run_docs :: "nat \<Rightarrow> nat \<Rightarrow> json list \<Rightarrow> stream_state \<Rightarrow> progress" where
  "run_docs status elapsed_ns [] st = Continue st"
| "run_docs status elapsed_ns (j # js) st =
     (case handle_chunk status elapsed_ns j st of
        Continue st' \<Rightarrow> run_docs status elapsed_ns js st'
      | Finish s v \<Rightarrow> Finish s v)"

definition ndjson :: "(json \<Rightarrow> string) \<Rightarrow> json list \<Rightarrow> string" where
  "ndjson print js = concat (map (\<lambda>j. print j @ [newline]) js)"

definition line_ok :: "(json \<Rightarrow> string) \<Rightarrow> (string \<Rightarrow> json option) \<Rightarrow> json \<Rightarrow> bool" where
  "line_ok print parse j \<longleftrightarrow> newline \<notin> set (print j) \<and> parse (print j @ [newline]) = Some j"

lemma drain_line:
  assumes "newline \<notin> set l"
  shows "drain f (l @ newline # rest) st =
    (case f (l @ [newline]) st of
       Finish s v \<Rightarrow> (rest, Finish s v)
     | Continue st' \<Rightarrow> drain f rest st')"
proof -
  have "position (\<lambda>c. c = newline) l = None" using assms by (auto simp: position_None)
  then have "position (\<lambda>c. c = newline) (l @ newline # rest) = Some (length l)" by (simp add: position_append)
  moreover have "drop (Suc (length l)) (l @ newline # rest) = rest"
    by (subst drop_append) (simp add: Suc_diff_le)
  ultimately show ?thesis by (simp add: drain.simps [of f "l @ newline # rest" st] split: progress.split)
qed

lemma drain_ndjson:
  "list_all (line_ok print parse) js \<Longrightarrow>
    snd (drain (handle_line parse status elapsed_ns) (ndjson print js) st) = run_docs status elapsed_ns js st"
proof (induction js arbitrary: st)
  case Nil
  then show ?case by (simp add: ndjson_def drain_none)
next
  case (Cons j js)
  have split: "ndjson print (j # js) = print j @ newline # ndjson print js" by (simp add: ndjson_def)
  have j: "newline \<notin> set (print j)" "parse (print j @ [newline]) = Some j"
    using Cons.prems by (auto simp: line_ok_def)
  have line: "handle_line parse status elapsed_ns (print j @ [newline]) st = handle_chunk status elapsed_ns j st"
    by (simp add: handle_line_def j(2))
  show ?case
    unfolding split drain_line [OF j(1)] line using Cons
    by (cases "handle_chunk status elapsed_ns j st") simp_all
qed

section \<open>What an answer holds\<close>

definition absorbed :: "json list \<Rightarrow> streamed" where
  "absorbed js = foldl (\<lambda>m j. absorb j m) streamed_default js"

definition pieces :: "string \<Rightarrow> json list \<Rightarrow> string" where
  "pieces key js = concat (map (\<lambda>j. case message_text key j of None \<Rightarrow> [] | Some p \<Rightarrow> p) js)"

definition plain :: "json \<Rightarrow> bool" where
  "plain j \<longleftrightarrow> reported_error j = None \<and> \<not> is_done j"

lemma absorbed_snoc: "absorbed (js @ [j]) = absorb j (absorbed js)"
  by (simp add: absorbed_def)

lemma absorb_fields:
  "sd_content (absorb j m) = sd_content m @ pieces ''content'' [j]"
  "sd_thinking (absorb j m) = sd_thinking m @ pieces ''thinking'' [j]"
  "sd_tokens (absorb j m) = sd_tokens m + (if pieces ''content'' [j] = [] then 0 else 1)"
  by (auto simp: absorb_def pieces_def Let_def split: option.split)

lemma absorbed_content:
  "sd_content (absorbed js) = pieces ''content'' js" "sd_thinking (absorbed js) = pieces ''thinking'' js"
proof (induction js rule: rev_induct)
  case Nil
  {
    case 1
    show ?case by (simp add: absorbed_def streamed_default_def pieces_def)
  next
    case 2
    show ?case by (simp add: absorbed_def streamed_default_def pieces_def)
  }
next
  case (snoc j js)
  {
    case 1
    show ?case using snoc by (simp add: absorbed_snoc absorb_fields pieces_def)
  next
    case 2
    show ?case using snoc by (simp add: absorbed_snoc absorb_fields pieces_def)
  }
qed

text \<open>The state after plain documents in which no check found a loop.\<close>

definition state_ok :: "json list \<Rightarrow> stream_state \<Rightarrow> bool" where
  "state_ok js st \<longleftrightarrow> ss_streamed st = absorbed js \<and> ss_last st = (if js = [] then JNull else last js) \<and>
     ss_checked st = 16 * (sd_tokens (absorbed js) div 16)"

definition unlooped :: "json list \<Rightarrow> bool" where
  "unlooped js \<longleftrightarrow> (\<forall>k \<le> length js. let m = absorbed (take k js) in
     0 < sd_tokens m \<longrightarrow> 16 dvd sd_tokens m \<longrightarrow> \<not> should_stop_streaming (sd_content m))"

definition ends_with :: "nat \<Rightarrow> nat \<Rightarrow> json list \<Rightarrow> json list \<Rightarrow> nat \<times> json \<Rightarrow> bool" where
  "ends_with status elapsed_ns ds rest r \<longleftrightarrow>
     (\<exists>j js. rest = j # js \<and>
        (let m = absorbed ds; m' = absorbed (ds @ [j]); latest = (if ds = [] then JNull else last ds) in
         (\<exists>e. reported_error j = Some e \<and>
            r = (if repeat_limit e \<and> sd_content m \<noteq> []
                 then (200, streamed_completion latest (streamed_message m) (sd_tokens m) elapsed_ns ''repeat_limit'')
                 else (status, jset ''message'' (streamed_message m) j))) \<or>
         (reported_error j = None \<and> is_done j \<and> r = (status, jset ''message'' (streamed_message m') j)) \<or>
         (plain j \<and> 16 dvd sd_tokens m' \<and> should_stop_streaming (sd_content m') \<and>
            r = (200, streamed_completion j (streamed_message m') (sd_tokens m') elapsed_ns ''repetition''))))"

lemma next_check:
  assumes "m = n \<or> m = Suc n"
  shows "16 * (n div 16) + 16 \<le> m \<longleftrightarrow> 16 dvd m \<and> m \<noteq> n"
    and "\<not> (16 dvd m \<and> m \<noteq> n) \<Longrightarrow> m div 16 = n div (16 :: nat)"
proof -
  have n: "n = 16 * (n div 16) + n mod 16" "n mod 16 < 16" by simp_all
  have suc: "16 dvd Suc n \<longleftrightarrow> n mod 16 = 15" by presburger
  show "16 * (n div 16) + 16 \<le> m \<longleftrightarrow> 16 dvd m \<and> m \<noteq> n"
  proof (cases "m = n")
    case True
    then show ?thesis using n by linarith
  next
    case False
    then have "m = Suc n" using assms by simp
    then have "16 * (n div 16) + 16 \<le> m \<longleftrightarrow> n mod 16 = 15" using n by linarith
    then show ?thesis using suc \<open>m = Suc n\<close> by simp
  qed
  show "\<not> (16 dvd m \<and> m \<noteq> n) \<Longrightarrow> m div 16 = n div 16"
    using assms by (auto simp: div_Suc dvd_eq_mod_eq_0)
qed

lemma check_due:
  assumes "state_ok ds st"
  shows "ss_checked st + LOOP_CHECK_TOKENS \<le> sd_tokens (absorbed (ds @ [j])) \<longleftrightarrow>
    16 dvd sd_tokens (absorbed (ds @ [j])) \<and> sd_tokens (absorbed (ds @ [j])) \<noteq> sd_tokens (absorbed ds)"
    and "sd_tokens (absorbed (ds @ [j])) \<le> Suc (sd_tokens (absorbed ds))"
proof -
  let ?n = "sd_tokens (absorbed ds)" and ?m = "sd_tokens (absorbed (ds @ [j]))"
  show le: "?m \<le> Suc ?n" by (simp add: absorbed_snoc absorb_fields)
  have "?n \<le> ?m" by (simp add: absorbed_snoc absorb_fields)
  then consider "?m = ?n" | "?m = Suc ?n" using le by linarith
  then show "ss_checked st + LOOP_CHECK_TOKENS \<le> ?m \<longleftrightarrow> 16 dvd ?m \<and> ?m \<noteq> ?n"
    using assms next_check(1) [of ?m ?n] by (auto simp: state_ok_def LOOP_CHECK_TOKENS_def)
qed

lemma same_tokens_same_content:
  "sd_tokens (absorbed (ds @ [j])) = sd_tokens (absorbed ds) \<Longrightarrow>
    sd_content (absorbed (ds @ [j])) = sd_content (absorbed ds)"
  by (simp add: absorbed_snoc absorb_fields split: if_splits)

lemma unlooped_snoc:
  "unlooped (ds @ [j]) \<longleftrightarrow> unlooped ds \<and>
    (0 < sd_tokens (absorbed (ds @ [j])) \<longrightarrow> 16 dvd sd_tokens (absorbed (ds @ [j])) \<longrightarrow>
      \<not> should_stop_streaming (sd_content (absorbed (ds @ [j]))))"
  by (auto simp: unlooped_def Let_def le_Suc_eq)

lemma handle_chunk_step:
  assumes st: "state_ok ds st" and un: "unlooped ds"
  shows "case handle_chunk status elapsed_ns j st of
      Continue st' \<Rightarrow> plain j \<and> state_ok (ds @ [j]) st' \<and> unlooped (ds @ [j])
    | Finish s v \<Rightarrow> ends_with status elapsed_ns ds (j # js) (s, v)"
proof -
  let ?m = "absorbed (ds @ [j])"
  have absorb: "absorb j (ss_streamed st) = ?m" using st by (simp add: state_ok_def absorbed_snoc)
  note due = check_due [OF st, of j]
  show ?thesis
  proof (cases "reported_error j")
    case (Some e)
    then show ?thesis using st by (auto simp: handle_chunk_def ends_with_def state_ok_def Let_def)
  next
    case None
    show ?thesis
    proof (cases "is_done j")
      case True
      then show ?thesis using None absorb by (auto simp: handle_chunk_def ends_with_def Let_def)
    next
      case False
      have plain: "plain j" using None False by (simp add: plain_def)
      show ?thesis
      proof (cases "ss_checked st + LOOP_CHECK_TOKENS \<le> sd_tokens ?m")
        case True
        then have dvd: "16 dvd sd_tokens ?m" using due by simp
        then have "16 * (sd_tokens ?m div 16) = sd_tokens ?m" by simp
        then show ?thesis
          using None False absorb True dvd plain un
          by (auto simp: handle_chunk_def ends_with_def state_ok_def unlooped_snoc Let_def)
      next
        case notdue: False
        have "sd_tokens (absorbed ds) \<le> sd_tokens ?m" by (simp add: absorbed_snoc absorb_fields)
        then have div: "sd_tokens ?m div 16 = sd_tokens (absorbed ds) div 16"
          using due notdue by (intro next_check(2)) linarith+
        have "\<not> should_stop_streaming (sd_content ?m)" if "0 < sd_tokens ?m" "16 dvd sd_tokens ?m"
        proof -
          have same: "sd_tokens ?m = sd_tokens (absorbed ds)" using due notdue that by blast
          have "0 < sd_tokens (absorbed (take (length ds) ds)) \<longrightarrow>
              16 dvd sd_tokens (absorbed (take (length ds) ds)) \<longrightarrow>
              \<not> should_stop_streaming (sd_content (absorbed (take (length ds) ds)))"
            using un unfolding unlooped_def Let_def by blast
          then show ?thesis using that same same_tokens_same_content [OF same] by simp
        qed
        then show ?thesis
          using None False absorb notdue plain un div st
          by (simp add: handle_chunk_def state_ok_def unlooped_snoc Let_def)
      qed
    qed
  qed
qed

lemma run_docs_step:
  "state_ok ds st \<Longrightarrow> unlooped ds \<Longrightarrow>
   (case run_docs status elapsed_ns js st of
      Continue st' \<Rightarrow> list_all plain js \<and> state_ok (ds @ js) st' \<and> unlooped (ds @ js)
    | Finish s v \<Rightarrow> \<exists>es rest. js = es @ rest \<and> list_all plain es \<and> unlooped (ds @ es) \<and>
        ends_with status elapsed_ns (ds @ es) rest (s, v))"
proof (induction js arbitrary: ds st)
  case Nil
  then show ?case by simp
next
  case (Cons j js)
  note step = handle_chunk_step [OF Cons.prems, where status = status and elapsed_ns = elapsed_ns and j = j and js = js]
  show ?case
  proof (cases "handle_chunk status elapsed_ns j st")
    case (Finish s v)
    then have "ends_with status elapsed_ns ds (j # js) (s, v)" using step by simp
    then have "\<exists>es rest. j # js = es @ rest \<and> list_all plain es \<and> unlooped (ds @ es) \<and>
        ends_with status elapsed_ns (ds @ es) rest (s, v)"
      using Cons.prems by (intro exI [of _ "[]"] exI [of _ "j # js"]) simp
    then show ?thesis using Finish by simp
  next
    case (Continue st1)
    then have st1: "plain j" "state_ok (ds @ [j]) st1" "unlooped (ds @ [j])" using step by auto
    note ih = Cons.IH [OF st1(2,3)]
    show ?thesis
    proof (cases "run_docs status elapsed_ns js st1")
      case c: (Continue st2)
      then show ?thesis using ih Continue st1 by simp
    next
      case f: (Finish s v)
      then obtain es rest where "js = es @ rest" "list_all plain es" "unlooped ((ds @ [j]) @ es)"
        "ends_with status elapsed_ns ((ds @ [j]) @ es) rest (s, v)"
        using ih by auto
      then have "\<exists>es rest. j # js = es @ rest \<and> list_all plain es \<and> unlooped (ds @ es) \<and>
          ends_with status elapsed_ns (ds @ es) rest (s, v)"
        using st1 by (intro exI [of _ "j # es"] exI [of _ rest]) simp
      then show ?thesis using f Continue by simp
    qed
  qed
qed

lemma start_ok: "state_ok [] stream_start" "unlooped []"
  by (simp_all add: state_ok_def stream_start_def absorbed_def streamed_default_def unlooped_def)

lemma message_content: "jpointer (streamed_message m) [''content''] = Some (JStr (sd_content m))"
  by (simp add: streamed_message_def Let_def)

lemma set_message:
  "jget j k = Some x \<Longrightarrow> jpointer (jset ''message'' m j) (''message'' # ks) = jpointer m ks"
  by (simp add: jget_jis_object)

lemma ends_with_text:
  assumes "ends_with status elapsed_ns ds rest (s, v)"
  shows "\<exists>n. n \<le> 1 \<and> n \<le> length rest \<and>
    jpointer v [''message'', ''content''] = Some (JStr (pieces ''content'' (ds @ take n rest)))"
proof -
  obtain j js where rest: "rest = j # js" using assms by (auto simp: ends_with_def)
  have err: "reported_error j = Some e \<Longrightarrow> \<exists>x. jget j ''error'' = Some x" for e
    by (auto simp: reported_error_def split: option.splits)
  have fin: "is_done j \<Longrightarrow> \<exists>x. jget j ''done'' = Some x"
    by (auto simp: is_done_def jindex_def split: option.splits)
  have completion: "jpointer (streamed_completion l (streamed_message m) t e r) [''message'', ''content''] =
      Some (JStr (sd_content m))" for l m t e r
    using message_content by (simp add: streamed_completion_def)
  have msg: "jpointer (jset ''message'' (streamed_message m) j) [''message'', ''content''] =
      Some (JStr (sd_content m))" if "jget j k = Some x" for m k x
    using set_message [OF that, of "streamed_message m" "[''content'']"] message_content by simp
  from assms rest consider
      (before) "jpointer v [''message'', ''content''] = Some (JStr (sd_content (absorbed ds)))"
    | (through) "jpointer v [''message'', ''content''] = Some (JStr (sd_content (absorbed (ds @ [j]))))"
    unfolding ends_with_def Let_def using err fin completion msg
    by (elim exE conjE disjE; clarsimp split: if_splits; metis)
  then show ?thesis
  proof cases
    case before
    then show ?thesis by (intro exI [of _ 0]) (simp add: absorbed_content)
  next
    case through
    then show ?thesis using rest by (intro exI [of _ 1]) (simp add: absorbed_content)
  qed
qed

section \<open>Properties\<close>

text \<open>
  C16: chunk boundaries do not matter. However the transport cuts the bytes of a streamed answer into
  chunks, also in the middle of a line or of a character, the task gets the same answer or the same
  error.
\<close>

theorem chunk_boundaries_do_not_matter:
  assumes "concat cs = concat ds"
  shows "read_stream parse status elapsed_ns failure cs = read_stream parse status elapsed_ns failure ds"
  using assms by (simp add: read_stream_def read_chunks_drain)

theorem chunk_boundaries_do_not_matter_witness:
  "read_stream (\<lambda>_. Some (JObj [(''done'', JBool True)])) 200 0 None [[CHR ''{'', newline]] =
   read_stream (\<lambda>_. Some (JObj [(''done'', JBool True)])) 200 0 None [''{'', [newline]]"
  by (rule chunk_boundaries_do_not_matter) simp

text \<open>
  every document of the stream is read once, in order. When the bytes are newline-delimited
  printed documents that the parser reads back, the answer is that of handling exactly those
  documents one after the other.
\<close>

theorem streamed_documents_are_read_back:
  assumes "concat cs = ndjson print js" and "list_all (line_ok print parse) js"
  shows "read_stream parse status elapsed_ns failure cs =
    stream_result status failure (run_docs status elapsed_ns js stream_start)"
  using read_chunks_drain [of "[]" "handle_line parse status elapsed_ns" status failure cs stream_start]
    drain_ndjson [OF assms(2), of status elapsed_ns stream_start] assms(1)
  by (simp add: read_stream_def)

definition sample_print :: "json \<Rightarrow> string" where
  "sample_print j = (if j = JNull then ''n'' else ''{'')"

definition sample_parse :: "string \<Rightarrow> json option" where
  "sample_parse s = (if s = [CHR ''n'', newline] then Some JNull
     else if s = [CHR ''{'', newline] then Some (JObj [(''done'', JBool True)]) else None)"

lemma sample_lines: "list_all (line_ok sample_print sample_parse) [JNull, JObj [(''done'', JBool True)]]"
  by (simp add: line_ok_def sample_print_def sample_parse_def newline_def)

theorem streamed_documents_are_read_back_witness:
  "read_stream sample_parse 200 0 None [''n'', [newline, CHR ''{'', newline]] =
   stream_result 200 None (run_docs 200 0 [JNull, JObj [(''done'', JBool True)]] stream_start)"
  by (rule streamed_documents_are_read_back [OF _ sample_lines])
    (simp add: ndjson_def sample_print_def)

text \<open>
  no generated text is lost and a stop is justified. The answer to a stream of documents holds, in
  order, all the text pieces of the documents up to where it ended; it ended at the final document, at
  a reported error, at the end of the stream, or at a check that found a loop in that text; and every
  sixteenth token before that was checked and was not a loop.
\<close>

theorem answer_keeps_the_text:
  assumes "concat cs = ndjson print js" and "list_all (line_ok print parse) js"
    and "read_stream parse status elapsed_ns None cs = Inr (s, v)"
  shows "\<exists>es rest n. js = es @ rest \<and> list_all plain es \<and> unlooped es \<and>
    (rest = [] \<and> s = status \<and> jindex v ''done'' = JBool False \<or> ends_with status elapsed_ns es rest (s, v)) \<and>
    n \<le> 1 \<and> n \<le> length rest \<and>
    jpointer v [''message'', ''content''] = Some (JStr (pieces ''content'' (es @ take n rest)))"
proof -
  have "read_stream parse status elapsed_ns None cs =
      stream_result status None (run_docs status elapsed_ns js stream_start)"
    using read_chunks_drain [of "[]" "handle_line parse status elapsed_ns" status None cs stream_start]
      drain_ndjson [OF assms(2), of status elapsed_ns stream_start] assms(1)
    by (simp add: read_stream_def)
  then have r: "stream_result status None (run_docs status elapsed_ns js stream_start) = Inr (s, v)"
    using assms(3) by simp
  note step = run_docs_step [OF start_ok, where status = status and elapsed_ns = elapsed_ns and js = js]
  show ?thesis
  proof (cases "run_docs status elapsed_ns js stream_start")
    case (Continue st)
    then have st: "list_all plain js" "state_ok js st" "unlooped js" using step by auto
    have v: "s = status" "v = json_object [(''done'', JBool False), (''message'', streamed_message (absorbed js))]"
      using r Continue st(2) by (simp_all add: stream_result_def unfinished_def state_ok_def)
    have "jpointer v [''message'', ''content''] = Some (JStr (pieces ''content'' js))"
      using message_content [of "absorbed js"] by (simp add: v absorbed_content)
    moreover have "jindex v ''done'' = JBool False" by (simp add: v jindex_def)
    ultimately show ?thesis using st v(1) by (intro exI [of _ js] exI [of _ "[]"] exI [of _ 0]) simp
  next
    case (Finish s' v')
    then obtain es rest where *: "js = es @ rest" "list_all plain es" "unlooped es"
      "ends_with status elapsed_ns es rest (s', v')" using step by auto
    have "s' = s" "v' = v" using r Finish by (simp_all add: stream_result_def)
    then show ?thesis using * ends_with_text [of status elapsed_ns es rest s v] by blast
  qed
qed

theorem answer_keeps_the_text_witness:
  "\<exists>es rest n s v. [JNull, JObj [(''done'', JBool True)]] = es @ rest \<and> list_all plain es \<and>
    read_stream sample_parse 200 0 None [[CHR ''n'', newline, CHR ''{'', newline]] = Inr (s, v) \<and>
    jpointer v [''message'', ''content''] = Some (JStr (pieces ''content'' (es @ take n rest)))"
proof -
  let ?cs = "[[CHR ''n'', newline, CHR ''{'', newline]]"
  have cs: "concat ?cs = ndjson sample_print [JNull, JObj [(''done'', JBool True)]]"
    by (simp add: ndjson_def sample_print_def)
  obtain s v where r: "read_stream sample_parse 200 0 None ?cs = Inr (s, v)"
    using read_chunks_drain [of "[]" "handle_line sample_parse 200 0" 200 None ?cs stream_start]
    by (force simp: read_stream_def stream_result_def split: progress.splits)
  from answer_keeps_the_text [OF cs sample_lines r] r show ?thesis by blast
qed

end
