(* ===== verification/Request.thy ===== *)
theory Request
  imports Scopes Feedback FL_Text
begin

text \<open>
  The Ollama request of a managed task: its options and body (\<open>platform/execution/request.rs\<close>) and
  the sizing of its context window (\<open>platform/context.rs\<close>, \<open>context_left_to_ollama\<close> of
  \<open>platform/execution/pipeline.rs\<close>). A string is its UTF-8 bytes; printing a document is an argument,
  and so are the number of processors and the environment.
\<close>

section \<open>The task\<close>

datatype operation = Generate | Warm

record request_options =
  ro_format :: "json option"
  ro_think :: "json option"
  ro_options :: "(string \<times> json) list option"
  ro_logprobs :: "bool option"
  ro_top_logprobs :: "nat option"

record managed_input = task_input +
  mi_operation :: operation
  mi_tools :: "json option"
  mi_keep_alive :: "string option"
  mi_request_options :: request_options
  mi_stop_on_repetition :: bool

datatype request_error =
    RoutingOwned string | BadFormat | BadThink | LogprobsRequired | EmbeddingControls
  | EmbeddingNeedsInput | NeedsPrompt | OptionsNotObject | ScopeOutputBudget | ScopeNeedsContext
  | AboveConfiguredContext nat nat | AboveAutomaticCap nat nat

definition jkind_string :: "json \<Rightarrow> bool" where
  "jkind_string j \<longleftrightarrow> as_str j \<noteq> None"

definition jextend :: "(string \<times> json) list \<Rightarrow> json \<Rightarrow> json" where
  "jextend kvs j = fold (\<lambda>(k, v). jset k v) kvs j"

section \<open>Options\<close>

definition requests_immediate_unload :: "string option \<Rightarrow> bool" where
  "requests_immediate_unload value =
     (case value of None \<Rightarrow> False | Some s \<Rightarrow> str_trim s \<in> {''0'', ''0s'', ''0m'', ''0h''})"

definition cpu_num_thread :: "nat option \<Rightarrow> bool \<Rightarrow> nat option \<Rightarrow> nat option" where
  "cpu_num_thread configured macos parallelism =
     (case Option.bind configured (\<lambda>n. if 0 < n then Some n else None) of
        Some value \<Rightarrow> Some value
      | None \<Rightarrow> if macos then None else map_option (\<lambda>cores. max (cores div 2) 1) parallelism)"

definition apply_execution_options :: "nat option \<Rightarrow> backend \<Rightarrow> json \<Rightarrow> json" where
  "apply_execution_options threads placement body =
     (if placement = Cpu
      then (let options = jindex body ''options'';
                options' = (case threads of
                   Some n \<Rightarrow> if jis_object options \<and> jget options ''num_thread'' = None
                             then jset ''num_thread'' (jnat n) options else options
                 | None \<Rightarrow> options)
            in jset ''options'' (jset ''num_gpu'' (JInt 0) options') body)
      else body)"

definition option_sent :: "request_options \<Rightarrow> string \<Rightarrow> bool" where
  "option_sent r key = (case ro_options r of None \<Rightarrow> False | Some kvs \<Rightarrow> key \<in> set (map fst kvs))"

definition format_ok :: "json \<Rightarrow> bool" where
  "format_ok f \<longleftrightarrow> jis_object f \<or> as_str f = Some ''json''"

definition think_ok :: "json \<Rightarrow> bool" where
  "think_ok t \<longleftrightarrow> as_bool t \<noteq> None \<or> as_str t \<in> {Some ''low'', Some ''medium'', Some ''high''}"

definition apply_request_options ::
  "task_kind \<Rightarrow> request_options \<Rightarrow> route_decision \<Rightarrow> request_error + route_decision" where
  "apply_request_options task r d =
     and_then (ensure (\<not> option_sent r ''num_ctx'') (RoutingOwned ''num_ctx'')) (\<lambda>_.
     and_then (ensure (\<not> option_sent r ''num_gpu'') (RoutingOwned ''num_gpu'')) (\<lambda>_.
     and_then (ensure (case ro_format r of None \<Rightarrow> True | Some f \<Rightarrow> format_ok f) BadFormat) (\<lambda>_.
     and_then (ensure (case ro_think r of None \<Rightarrow> True | Some t \<Rightarrow> think_ok t) BadThink) (\<lambda>_.
     and_then (ensure (ro_top_logprobs r = None \<or> ro_logprobs r = Some True) LogprobsRequired) (\<lambda>_.
     and_then (ensure (task \<noteq> TEmbedding \<or> (ro_format r = None \<and> ro_think r = None \<and>
                         ro_logprobs r = None \<and> ro_top_logprobs r = None)) EmbeddingControls) (\<lambda>_.
     and_then (ensure (jis_object (dc_options d)) OptionsNotObject) (\<lambda>_.
       Inr (d\<lparr>dc_options := jextend (case ro_options r of None \<Rightarrow> [] | Some kvs \<Rightarrow> kvs) (dc_options d),
              dc_think := (case ro_think r of None \<Rightarrow> dc_think d | Some t \<Rightarrow> t)\<rparr>))))))))"

section \<open>The body\<close>

definition warm_body :: "route_decision \<Rightarrow> json \<Rightarrow> json" where
  "warm_body d keep_alive = json_object [
     (''model'', JStr (dc_selected_model d)), (''messages'', JArr []), (''stream'', JBool False),
     (''truncate'', JBool False), (''shift'', JBool False), (''keep_alive'', keep_alive),
     (''options'', dc_options d)]"

definition embed_body :: "route_decision \<Rightarrow> json \<Rightarrow> json \<Rightarrow> json" where
  "embed_body d keep_alive value = json_object [
     (''model'', JStr (dc_selected_model d)), (''input'', value), (''truncate'', JBool False),
     (''keep_alive'', keep_alive), (''options'', dc_options d)]"

definition request_messages :: "'a managed_input_scheme \<Rightarrow> request_error + json list" where
  "request_messages inp =
     (if ti_messages inp \<noteq> [] then Inr (ti_messages inp)
      else case ti_prompt inp of
             None \<Rightarrow> Inl NeedsPrompt
           | Some prompt \<Rightarrow>
               let message = json_object [(''role'', JStr ''user''), (''content'', JStr prompt)]
               in Inr [case ti_images inp of
                         Some images \<Rightarrow> jset ''images'' (JArr (map JStr images)) message
                       | None \<Rightarrow> message])"

definition opt_set :: "string \<Rightarrow> json option \<Rightarrow> json \<Rightarrow> json" where
  "opt_set k v body = (case v of None \<Rightarrow> body | Some x \<Rightarrow> jset k x body)"

definition chat_body :: "'a managed_input_scheme \<Rightarrow> route_decision \<Rightarrow> json \<Rightarrow> json list \<Rightarrow> json" where
  "chat_body inp d keep_alive messages =
     opt_set ''top_logprobs'' (map_option jnat (ro_top_logprobs (mi_request_options inp)))
     (opt_set ''logprobs'' (map_option JBool (ro_logprobs (mi_request_options inp)))
     (opt_set ''format'' (ro_format (mi_request_options inp))
     (opt_set ''tools'' (mi_tools inp)
     (opt_set ''think'' (if dc_think d = JNull then None else Some (dc_think d))
     (json_object [
        (''model'', JStr (dc_selected_model d)), (''messages'', JArr messages),
        (''stream'', JBool (mi_stop_on_repetition inp)), (''truncate'', JBool False),
        (''shift'', JBool False), (''keep_alive'', keep_alive), (''options'', dc_options d)])))))"

definition build_managed_request ::
  "'a managed_input_scheme \<Rightarrow> route_decision \<Rightarrow> json \<Rightarrow> request_error + string \<times> json" where
  "build_managed_request inp d keep_alive =
     (if mi_operation inp = Warm then Inr (''/api/chat'', warm_body d keep_alive)
      else if ri_task (ti_route inp) = TEmbedding
      then (case ti_input inp of
              None \<Rightarrow> Inl EmbeddingNeedsInput
            | Some value \<Rightarrow> Inr (''/api/embed'', embed_body d keep_alive value))
      else and_then (request_messages inp) (\<lambda>messages.
             Inr (''/api/chat'', chat_body inp d keep_alive messages)))"

definition nonempty_images :: "json \<Rightarrow> bool" where
  "nonempty_images message =
     (case Option.bind (jget message ''images'') as_array of None \<Rightarrow> False | Some images \<Rightarrow> images \<noteq> [])"

definition own_images :: "'a task_input_scheme \<Rightarrow> bool" where
  "own_images inp = (case ti_images inp of None \<Rightarrow> False | Some images \<Rightarrow> images \<noteq> [])"

definition task_has_images :: "'a task_input_scheme \<Rightarrow> bool" where
  "task_has_images inp \<longleftrightarrow> own_images inp \<or> list_ex nonempty_images (ti_messages inp)"

text \<open>The cost of a task; \<open>base\<close> is the configured cost of its kind.\<close>

definition task_cost_for :: "task_kind \<Rightarrow> nat \<Rightarrow> nat \<Rightarrow> nat" where
  "task_cost_for task batch_items base =
     (if task \<noteq> TEmbedding then base
      else sat_mul u32_max (div_ceil (min (max batch_items 1) u32_max) 4) base)"

definition input_batch_items :: "'a task_input_scheme \<Rightarrow> nat" where
  "input_batch_items inp =
     max (case Option.bind (ti_input inp) as_array of None \<Rightarrow> 1 | Some xs \<Rightarrow> length xs) 1"

section \<open>The context window\<close>

definition AUTO_CONTEXT_LIMIT :: nat where "AUTO_CONTEXT_LIMIT = 32768"
definition TEMPLATE_MARGIN :: nat where "TEMPLATE_MARGIN = 512"

definition estimated_text_tokens :: "string \<Rightarrow> nat" where
  "estimated_text_tokens s = div_ceil (length s) 3"

definition unestimated_message :: "json \<Rightarrow> bool" where
  "unestimated_message m \<longleftrightarrow> jget m ''images'' \<noteq> None \<or> jget m ''audio'' \<noteq> None \<or>
     (case jget m ''content'' of None \<Rightarrow> False | Some content \<Rightarrow> \<not> jkind_string content)"

definition has_unestimated_modality :: "'a task_input_scheme \<Rightarrow> bool" where
  "has_unestimated_modality inp \<longleftrightarrow>
     ri_task (ti_route inp) = TEmbedding \<or> ri_task (ti_route inp) = TVision \<or>
     own_images inp \<or> list_ex unestimated_message (ti_messages inp)"

fun text_fields :: "json \<Rightarrow> json" where
  "text_fields (JObj kvs) =
     JObj (filter (\<lambda>(k, v). k \<notin> {''images'', ''audio''} \<and> (k \<noteq> ''content'' \<or> jkind_string v)) kvs)"
| "text_fields j = j"

definition scoped_text_payload :: "(json \<Rightarrow> string) \<Rightarrow> 'a task_input_scheme \<Rightarrow> string" where
  "scoped_text_payload to_text inp = to_text (JArr (map text_fields (ti_messages inp)))"

definition schemas :: "'a managed_input_scheme \<Rightarrow> json list" where
  "schemas inp = List.map_filter (\<lambda>x. x) [mi_tools inp, ro_format (mi_request_options inp)]"

definition estimate_payload :: "(json \<Rightarrow> string) \<Rightarrow> string \<Rightarrow> json list \<Rightarrow> nat" where
  "estimate_payload to_text payload ss =
     foldl (\<lambda>e s. sat_add u64_max e (estimated_text_tokens (to_text s))) (estimated_text_tokens payload) ss"

definition num_predict :: "route_decision \<Rightarrow> nat option" where
  "num_predict d = get_u64 (dc_options d) ''num_predict''"

definition required_tokens :: "nat \<Rightarrow> nat \<Rightarrow> nat" where
  "required_tokens estimated output = sat_add u64_max (sat_add u64_max estimated output) TEMPLATE_MARGIN"

definition size_scoped_explicit_context ::
  "(json \<Rightarrow> string) \<Rightarrow> 'a managed_input_scheme \<Rightarrow> route_decision \<Rightarrow> bool \<Rightarrow> request_error + json" where
  "size_scoped_explicit_context to_text inp d unestimated =
     (let payload = (if unestimated then scoped_text_payload to_text inp
                     else to_text (JArr (ti_messages inp)));
          estimated = estimate_payload to_text payload (schemas inp)
      in case num_predict d of
           None \<Rightarrow> Inl ScopeOutputBudget
         | Some output \<Rightarrow>
             (let required = required_tokens estimated output;
                  available = (case get_u64 (dc_options d) ''num_ctx'' of None \<Rightarrow> 0 | Some n \<Rightarrow> n)
              in if available < required then Inl (AboveConfiguredContext required available)
                 else if unestimated
                 then Inr (json_object [
                   (''mode'', JStr ''scope_explicit_multimodal''), (''tokens'', jnat available),
                   (''estimator'', JStr ''utf8_bytes_div_3''), (''estimate_scope'', JStr ''text_and_metadata_only''),
                   (''estimated_text_input_tokens'', jnat estimated), (''estimated_input_tokens'', JNull),
                   (''modality_tokens'', JNull), (''reason'', JStr ''modality_requires_model_specific_estimator''),
                   (''output_reserve_tokens'', jnat output), (''template_margin_tokens'', jnat TEMPLATE_MARGIN),
                   (''total_fit_verified'', JBool False), (''exact_token_count'', JBool False)])
                 else Inr (json_object [
                   (''mode'', JStr ''scope_explicit_estimate''), (''tokens'', jnat available),
                   (''estimated_input_tokens'', jnat estimated), (''output_reserve_tokens'', jnat output),
                   (''template_margin_tokens'', jnat TEMPLATE_MARGIN), (''exact_token_count'', JBool False)])))"

definition context_buckets :: "nat list" where
  "context_buckets = [2048, 4096, 8192, 16384, AUTO_CONTEXT_LIMIT]"

definition automatic_cap :: "route_decision \<Rightarrow> catalog_model \<Rightarrow> nat" where
  "automatic_cap d model =
     min (case cm_advertised_context model of
            Some n \<Rightarrow> n
          | None \<Rightarrow> (case get_u64 (dc_options d) ''num_ctx'' of None \<Rightarrow> 2048 | Some n \<Rightarrow> n))
         AUTO_CONTEXT_LIMIT"

definition selected_context :: "nat \<Rightarrow> nat \<Rightarrow> nat" where
  "selected_context cap required =
     min (case find (\<lambda>bucket. required \<le> bucket) context_buckets of None \<Rightarrow> cap | Some b \<Rightarrow> b) cap"

definition size_prompt_context ::
  "(json \<Rightarrow> string) \<Rightarrow> 'a managed_input_scheme \<Rightarrow> route_decision \<Rightarrow> catalog_model \<Rightarrow> nat \<Rightarrow>
   request_error + json \<times> route_decision" where
  "size_prompt_context to_text inp d model output =
     (let payload = (if ti_messages inp = [] then (case ti_prompt inp of None \<Rightarrow> [] | Some p \<Rightarrow> p)
                     else to_text (JArr (ti_messages inp)));
          estimated = estimate_payload to_text payload (schemas inp);
          required = required_tokens estimated output;
          cap = automatic_cap d model;
          selected = selected_context cap required
      in if cap < required then Inl (AboveAutomaticCap required cap)
         else Inr (json_object [
             (''mode'', JStr ''prompt_estimate''), (''estimator'', JStr ''utf8_bytes_div_3''),
             (''estimated_input_tokens'', jnat estimated), (''output_reserve_tokens'', jnat output),
             (''template_margin_tokens'', jnat TEMPLATE_MARGIN), (''tokens'', jnat selected),
             (''automatic_cap_tokens'', jnat cap), (''exact_token_count'', JBool False)],
           d\<lparr>dc_options := jset ''num_ctx'' (jnat selected) (dc_options d),
             dc_reasons := filter (\<lambda>r. r \<noteq> ''context_clamped_to_advertised'') (dc_reasons d)
               @ [''context_sized_from_execution_payload'']\<rparr>))"

definition scoped :: "'a task_input_scheme \<Rightarrow> bool" where
  "scoped inp \<longleftrightarrow> ti_scope_id inp \<noteq> None"

definition explicit_context :: "'a task_input_scheme \<Rightarrow> bool" where
  "explicit_context inp \<longleftrightarrow> ri_context_tokens (ti_route inp) \<noteq> None"

definition size_context ::
  "(json \<Rightarrow> string) \<Rightarrow> 'a managed_input_scheme \<Rightarrow> route_decision \<Rightarrow> catalog_model \<Rightarrow>
   request_error + json \<times> route_decision" where
  "size_context to_text inp d model =
     (if mi_operation inp = Warm
      then Inr (json_object [(''mode'', JStr ''warm_profile''), (''tokens'', jindex (dc_options d) ''num_ctx'')], d)
      else let unestimated = has_unestimated_modality inp in
      and_then (ensure (\<not> scoped inp \<or> (case num_predict d of None \<Rightarrow> False | Some n \<Rightarrow> n \<noteq> 0)) ScopeOutputBudget) (\<lambda>_.
      and_then (ensure (\<not> (scoped inp \<and> unestimated \<and> \<not> explicit_context inp)) ScopeNeedsContext) (\<lambda>_.
        if scoped inp \<and> explicit_context inp
        then and_then (size_scoped_explicit_context to_text inp d unestimated) (\<lambda>r. Inr (r, d))
        else if explicit_context inp
        then Inr (json_object [(''mode'', JStr ''explicit''), (''tokens'', jindex (dc_options d) ''num_ctx'')], d)
        else if \<not> scoped inp \<and> unestimated
        then Inr (json_object [(''mode'', JStr ''profile''),
                               (''reason'', JStr ''modality_requires_model_specific_estimator'')], d)
        else case num_predict d of
               None \<Rightarrow>
                 if scoped inp then Inl ScopeOutputBudget
                 else Inr (json_object [(''mode'', JStr ''profile''), (''reason'', JStr ''output_budget_not_bounded'')], d)
             | Some output \<Rightarrow> size_prompt_context to_text inp d model output)))"

definition reuse_resident_context ::
  "catalog_model \<Rightarrow> json option \<Rightarrow> route_decision \<Rightarrow> nat option \<times> route_decision" where
  "reuse_resident_context model loaded d =
     (case loaded of
        None \<Rightarrow> (None, d)
      | Some entry \<Rightarrow>
          (case (get_u64 (dc_options d) ''num_ctx'', get_u64 entry ''context_length'') of
             (Some requested, Some loaded_context) \<Rightarrow>
               (let same_revision =
                      (case (cm_digest model, Option.bind (jget entry ''digest'') as_str) of
                         (Some expected, Some actual) \<Rightarrow> expected = actual | _ \<Rightarrow> False)
                in if \<not> same_revision \<or> loaded_context < requested \<or> loaded_context = requested
                   then (None, d)
                   else (Some loaded_context,
                         d\<lparr>dc_options := jset ''num_ctx'' (jnat loaded_context) (dc_options d),
                           dc_reasons := dc_reasons d @ [''context_reused_from_resident_runner'']\<rparr>))
           | _ \<Rightarrow> (None, d)))"

text \<open>
  \<open>context_left_to_ollama\<close>: \<open>ollama_default\<close> is what is known of Ollama's own default and \<open>loaded\<close>
  the runner's \<open>/api/ps\<close> entry.
\<close>

definition context_left_to_ollama ::
  "bool \<Rightarrow> nat \<Rightarrow> json \<Rightarrow> (nat \<times> json) option \<Rightarrow> json option \<Rightarrow> catalog_model \<Rightarrow> route_decision \<Rightarrow>
   json option \<times> route_decision" where
  "context_left_to_ollama default_mode auto_context_max sizing ollama_default loaded model d =
     (if \<not> default_mode \<or> jindex sizing ''mode'' \<noteq> JStr ''prompt_estimate'' \<or>
         jget sizing ''reused_resident_context'' \<noteq> None
      then (None, d)
      else case (get_u64 (dc_options d) ''num_ctx'', ollama_default) of
        (Some sized, Some (dflt, source)) \<Rightarrow>
          (let window = (case cm_advertised_context model of None \<Rightarrow> u64_max | Some n \<Rightarrow> n)
           in if dflt < sized \<or> auto_context_max < dflt \<or> window < dflt then (None, d)
              else if dc_resident d \<and>
                (case Option.bind loaded (\<lambda>e. as_u64 (jindex e ''context_length'')) of
                   None \<Rightarrow> False | Some n \<Rightarrow> n \<noteq> dflt)
              then (None, d)
              else (Some (json_object [(''tokens'', jnat dflt), (''source'', source)]),
                    d\<lparr>dc_options := jset ''num_ctx'' (jnat dflt) (dc_options d),
                      dc_reasons := dc_reasons d @ [''context_left_to_ollama_default'']\<rparr>))
      | _ \<Rightarrow> (None, d))"

section \<open>In the pipeline\<close>

text \<open>The part of \<open>run_session_task\<close> that fixes the window: sizing, reuse, and leaving it to Ollama.\<close>

definition plan_context ::
  "(json \<Rightarrow> string) \<Rightarrow> bool \<Rightarrow> nat \<Rightarrow> (nat \<times> json) option \<Rightarrow> json option \<Rightarrow> 'a managed_input_scheme \<Rightarrow>
   catalog_model \<Rightarrow> route_decision \<Rightarrow> request_error + json \<times> json option \<times> route_decision" where
  "plan_context to_text default_mode auto_context_max ollama_default loaded inp model d =
     and_then (size_context to_text inp d model) (\<lambda>(sizing, d1).
       let (reused, d2) = (if dc_resident d1 \<and> jindex sizing ''mode'' = JStr ''prompt_estimate''
                           then reuse_resident_context model loaded d1 else (None, d1));
           sizing' = (case reused of None \<Rightarrow> sizing
                      | Some n \<Rightarrow> jset ''reused_resident_context'' (jnat n) sizing);
           (left, d3) = context_left_to_ollama default_mode auto_context_max sizing' ollama_default loaded model d2
       in Inr (sizing', left, d3))"

fun jremove :: "string \<Rightarrow> json \<Rightarrow> json" where
  "jremove k (JObj kvs) = JObj (bt_del k kvs)"
| "jremove k j = j"

definition final_body :: "nat option \<Rightarrow> backend \<Rightarrow> json option \<Rightarrow> json \<Rightarrow> json" where
  "final_body threads placement left body =
     (let body' = apply_execution_options threads placement body
      in if left = None then body'
         else if jis_object (jindex body' ''options'')
         then jset ''options'' (jremove ''num_ctx'' (jindex body' ''options'')) body' else body')"

end
