(* ===== verification/Request_Run.thy ===== *)
theory Request_Run
  imports Request
begin

text \<open>
  What the request of a managed task guarantees: the window covers the estimated prompt, the output
  budget and the margin; window and placement stay with the router whatever the caller sends.
\<close>

lemma get_u64_set: "jis_object j \<Longrightarrow> get_u64 (jset k v j) l = (if l = k then as_u64 v else get_u64 j l)"
  by (simp add: get_u64_def)

lemma get_u64_object: "get_u64 j k = Some n \<Longrightarrow> jis_object j"
  by (cases j) (auto simp: get_u64_def)

lemma get_u64_bound: "get_u64 j k = Some n \<Longrightarrow> n \<le> u64_max"
  unfolding get_u64_def by (cases "jget j k"; cases "the (jget j k)") (auto split: if_splits)

section \<open>The window\<close>

definition prompt_mode :: "json \<Rightarrow> bool" where
  "prompt_mode sizing \<longleftrightarrow> jindex sizing ''mode'' = JStr ''prompt_estimate''"

definition prompt_tokens :: "(json \<Rightarrow> string) \<Rightarrow> 'a managed_input_scheme \<Rightarrow> nat" where
  "prompt_tokens to_text inp =
     estimate_payload to_text
       (if ti_messages inp = [] then (case ti_prompt inp of None \<Rightarrow> [] | Some p \<Rightarrow> p)
        else to_text (JArr (ti_messages inp))) (schemas inp)"

lemma selected_context_bounds:
  "required \<le> cap \<Longrightarrow> cap \<le> AUTO_CONTEXT_LIMIT \<Longrightarrow>
    required \<le> selected_context cap required \<and> selected_context cap required \<le> cap"
  by (auto simp: selected_context_def context_buckets_def AUTO_CONTEXT_LIMIT_def)

lemma size_prompt_result:
  assumes "size_prompt_context to_text inp d model output = Inr (sizing, d1)"
  shows "prompt_mode sizing \<and> jget sizing ''reused_resident_context'' = None \<and>
    required_tokens (prompt_tokens to_text inp) output \<le> automatic_cap d model \<and>
    dc_options d1 = jset ''num_ctx'' (jnat (selected_context (automatic_cap d model)
       (required_tokens (prompt_tokens to_text inp) output))) (dc_options d) \<and> dc_resident d1 = dc_resident d"
  using assms
  by (auto simp: size_prompt_context_def prompt_tokens_def prompt_mode_def jget_of_object jindex_of_object Let_def
      split: if_splits)

lemma size_context_prompt:
  assumes "size_context to_text inp d model = Inr (sizing, d1)"
  shows "(prompt_mode sizing \<and> (\<exists>output. num_predict d = Some output \<and>
      size_prompt_context to_text inp d model output = Inr (sizing, d1))) \<or>
    (\<not> prompt_mode sizing \<and> d1 = d)"
  using assms size_prompt_result [of to_text inp d model _ sizing d1]
  by (auto simp: size_context_def size_scoped_explicit_context_def and_then_Inr prompt_mode_def jindex_of_object Let_def
      split: if_splits option.splits)

lemma reuse_result:
  assumes "reuse_resident_context model loaded d = (r, d')"
  shows "(r = None \<and> d' = d) \<or>
    (\<exists>e m n. r = Some n \<and> loaded = Some e \<and> get_u64 (dc_options d) ''num_ctx'' = Some m \<and> m < n \<and>
       n \<le> u64_max \<and> get_u64 e ''context_length'' = Some n \<and>
       dc_options d' = jset ''num_ctx'' (jnat n) (dc_options d) \<and>
       cm_digest model \<noteq> None \<and> Option.bind (jget e ''digest'') as_str = cm_digest model)"
  using assms get_u64_bound
  by (auto simp: reuse_resident_context_def Let_def split: option.splits if_splits)

lemma left_result:
  assumes "context_left_to_ollama mode auto_max sizing dflt loaded model d = (r, d')"
  shows "(r = None \<and> d' = d) \<or>
    (\<exists>m n src. r \<noteq> None \<and> dflt = Some (n, src) \<and> get_u64 (dc_options d) ''num_ctx'' = Some m \<and> m \<le> n \<and>
       n \<le> auto_max \<and> n \<le> (case cm_advertised_context model of None \<Rightarrow> u64_max | Some w \<Rightarrow> w) \<and>
       dc_options d' = jset ''num_ctx'' (jnat n) (dc_options d) \<and>
       jget sizing ''reused_resident_context'' = None)"
  using assms by (auto simp: context_left_to_ollama_def Let_def split: option.splits if_splits)

definition window_source ::
  "nat \<Rightarrow> (nat \<times> json) option \<Rightarrow> json option \<Rightarrow> catalog_model \<Rightarrow> route_decision \<Rightarrow> nat \<Rightarrow> bool" where
  "window_source auto_max dflt loaded model d n \<longleftrightarrow>
     n \<le> automatic_cap d model \<or>
     (\<exists>e. loaded = Some e \<and> get_u64 e ''context_length'' = Some n \<and> cm_digest model \<noteq> None \<and>
        Option.bind (jget e ''digest'') as_str = cm_digest model) \<or>
     (map_option fst dflt = Some n \<and> n \<le> auto_max \<and>
        n \<le> (case cm_advertised_context model of None \<Rightarrow> u64_max | Some w \<Rightarrow> w))"

lemma plan_context_cases:
  assumes "plan_context to_text mode auto_max dflt loaded inp model d = Inr (sizing, left, d')"
  obtains sizing0 d1 reused d2 where "size_context to_text inp d model = Inr (sizing0, d1)"
    "(reused, d2) = (if dc_resident d1 \<and> prompt_mode sizing0 then reuse_resident_context model loaded d1
                     else (None, d1))"
    "sizing = (case reused of None \<Rightarrow> sizing0 | Some n \<Rightarrow> jset ''reused_resident_context'' (jnat n) sizing0)"
    "context_left_to_ollama mode auto_max sizing dflt loaded model d2 = (left, d')"
proof -
  obtain sizing0 d1 where size: "size_context to_text inp d model = Inr (sizing0, d1)"
    using assms by (auto simp: plan_context_def and_then_Inr)
  obtain reused d2 where r: "(if dc_resident d1 \<and> prompt_mode sizing0 then reuse_resident_context model loaded d1
      else (None, d1)) = (reused, d2)" by (metis surj_pair)
  let ?s = "case reused of None \<Rightarrow> sizing0 | Some n \<Rightarrow> jset ''reused_resident_context'' (jnat n) sizing0"
  obtain l d3 where l: "context_left_to_ollama mode auto_max ?s dflt loaded model d2 = (l, d3)" by force
  have "sizing = ?s" "l = left" "d3 = d'"
    using assms size r l unfolding plan_context_def prompt_mode_def Let_def by auto
  then show ?thesis using that [OF size r [symmetric]] l by blast
qed

lemma options_step:
  "reuse_resident_context model loaded d = (r, d') \<Longrightarrow> jis_object (dc_options d) \<Longrightarrow>
    jis_object (dc_options d') \<and> (\<forall>k. k \<noteq> ''num_ctx'' \<longrightarrow> jget (dc_options d') k = jget (dc_options d) k)"
  "context_left_to_ollama mode auto_max sizing dflt loaded model d = (l, d') \<Longrightarrow> jis_object (dc_options d) \<Longrightarrow>
    jis_object (dc_options d') \<and> (\<forall>k. k \<noteq> ''num_ctx'' \<longrightarrow> jget (dc_options d') k = jget (dc_options d) k)"
  using reuse_result [of model loaded d r d'] left_result [of mode auto_max sizing dflt loaded model d l d']
  by auto

lemma plan_context_options:
  assumes "plan_context to_text mode auto_max dflt loaded inp model d = Inr (sizing, left, d')"
    and obj: "jis_object (dc_options d)"
  shows "jis_object (dc_options d') \<and> (\<forall>k. k \<noteq> ''num_ctx'' \<longrightarrow> jget (dc_options d') k = jget (dc_options d) k)"
proof -
  from plan_context_cases [OF assms(1)] obtain sizing0 d1 reused d2 where
    c: "size_context to_text inp d model = Inr (sizing0, d1)"
    "(reused, d2) = (if dc_resident d1 \<and> prompt_mode sizing0 then reuse_resident_context model loaded d1
                     else (None, d1))"
    "context_left_to_ollama mode auto_max sizing dflt loaded model d2 = (left, d')"
    by metis
  have d1: "jis_object (dc_options d1) \<and> (\<forall>k. k \<noteq> ''num_ctx'' \<longrightarrow> jget (dc_options d1) k = jget (dc_options d) k)"
    using size_context_prompt [OF c(1)] size_prompt_result obj by fastforce
  have d2: "jis_object (dc_options d2) \<and> (\<forall>k. k \<noteq> ''num_ctx'' \<longrightarrow> jget (dc_options d2) k = jget (dc_options d1) k)"
    using c(2) options_step(1) [of model loaded d1 reused d2] d1 by (auto split: if_splits)
  show ?thesis using options_step(2) [OF c(3)] d1 d2 by auto
qed

section \<open>The body\<close>

lemma jextend_object:
  "jis_object j \<Longrightarrow> jis_object (jextend kvs j)"
  "jis_object j \<Longrightarrow> k \<notin> set (map fst kvs) \<Longrightarrow> jget (jextend kvs j) k = jget j k"
  "jis_object j \<Longrightarrow> distinct (map fst kvs) \<Longrightarrow> (k, v) \<in> set kvs \<Longrightarrow> jget (jextend kvs j) k = Some v"
proof -
  show obj: "jis_object j \<Longrightarrow> jis_object (jextend kvs j)" for j
    unfolding jextend_def by (induction kvs arbitrary: j) auto
  show skip: "jis_object j \<Longrightarrow> k \<notin> set (map fst kvs) \<Longrightarrow> jget (jextend kvs j) k = jget j k" for j kvs
    unfolding jextend_def by (induction kvs arbitrary: j) auto
  show "jis_object j \<Longrightarrow> distinct (map fst kvs) \<Longrightarrow> (k, v) \<in> set kvs \<Longrightarrow> jget (jextend kvs j) k = Some v"
  proof (induction kvs arbitrary: j)
    case Nil
    then show ?case by simp
  next
    case (Cons p kvs)
    obtain a b where p: "p = (a, b)" by force
    have step: "jextend ((a, b) # kvs) j = jextend kvs (jset a b j)" by (simp add: jextend_def)
    show ?case
    proof (cases "(k, v) = p")
      case True
      then show ?thesis using Cons.prems skip [of "jset a b j" kvs] p by (auto simp: step)
    next
      case False
      then show ?thesis using Cons p by (auto simp: step)
    qed
  qed
qed

lemma request_options_applied:
  assumes "apply_request_options task r d = Inr d1"
  shows "jis_object (dc_options d1) \<and> jget (dc_options d1) ''num_ctx'' = jget (dc_options d) ''num_ctx'' \<and>
    jget (dc_options d1) ''num_gpu'' = jget (dc_options d) ''num_gpu'' \<and>
    (\<forall>kvs k v. ro_options r = Some kvs \<longrightarrow> distinct (map fst kvs) \<longrightarrow> (k, v) \<in> set kvs \<longrightarrow>
       k \<noteq> ''num_ctx'' \<and> k \<noteq> ''num_gpu'' \<and> jget (dc_options d1) k = Some v)"
proof -
  have obj: "jis_object (dc_options d)"
    and sent: "\<not> option_sent r ''num_ctx''" "\<not> option_sent r ''num_gpu''"
    and d1: "dc_options d1 = jextend (case ro_options r of None \<Rightarrow> [] | Some kvs \<Rightarrow> kvs) (dc_options d)"
    using assms by (auto simp: apply_request_options_def and_then_Inr)
  let ?kvs = "case ro_options r of None \<Rightarrow> [] | Some kvs \<Rightarrow> kvs"
  have keys: "''num_ctx'' \<notin> set (map fst ?kvs)" "''num_gpu'' \<notin> set (map fst ?kvs)"
    using sent by (auto simp: option_sent_def split: option.splits)
  have "k \<noteq> ''num_ctx'' \<and> k \<noteq> ''num_gpu'' \<and> jget (dc_options d1) k = Some v"
    if "ro_options r = Some kvs" "distinct (map fst kvs)" "(k, v) \<in> set kvs" for kvs k v
    using that keys jextend_object(3) [OF obj that(2,3)] by (force simp: d1)
  then show ?thesis
    using jextend_object(1) [OF obj, of ?kvs] jextend_object(2) [OF obj keys(1)] jextend_object(2) [OF obj keys(2)]
    unfolding d1 by blast
qed

lemma opt_set_object [simp]:
  "jis_object b \<Longrightarrow> jis_object (opt_set k v b)"
  "jis_object b \<Longrightarrow> l \<noteq> k \<Longrightarrow> jindex (opt_set k v b) l = jindex b l"
  by (simp_all add: opt_set_def split: option.split)

lemma body_options:
  assumes "build_managed_request inp d keep_alive = Inr (path, body)"
  shows "jis_object body \<and> jindex body ''options'' = dc_options d"
  using assms
  by (auto simp: build_managed_request_def and_then_Inr warm_body_def embed_body_def chat_body_def
      split: if_splits option.splits)

lemma removed: "jis_object j \<Longrightarrow> jis_object (jremove k j) \<and> jget (jremove k j) l = (if l = k then None else jget j l)"
  by (cases j) simp_all

definition cpu_options :: "nat option \<Rightarrow> json \<Rightarrow> json" where
  "cpu_options threads options =
     jset ''num_gpu'' (JInt 0)
       (case threads of
          Some n \<Rightarrow> if jis_object options \<and> jget options ''num_thread'' = None
                    then jset ''num_thread'' (jnat n) options else options
        | None \<Rightarrow> options)"

lemma cpu_options_get:
  assumes "jis_object options"
  shows "jis_object (cpu_options threads options)"
    and "jget (cpu_options threads options) ''num_gpu'' = Some (JInt 0)"
    and "k \<noteq> ''num_gpu'' \<Longrightarrow> jget options k = Some v \<Longrightarrow> jget (cpu_options threads options) k = Some v"
    and "jget (cpu_options threads options) ''num_ctx'' = jget options ''num_ctx''"
  using assms by (auto simp: cpu_options_def split: option.split)

lemma final_options:
  assumes "jis_object body" and "jindex body ''options'' = options" and "jis_object options"
  shows "jindex (final_body threads placement left body) ''options'' =
    (let o1 = (if placement = Cpu then cpu_options threads options else options)
     in if left = None then o1 else jremove ''num_ctx'' o1)"
  using assms cpu_options_get(1) [OF assms(3), of threads]
  by (auto simp: final_body_def apply_execution_options_def cpu_options_def Let_def)

section \<open>Properties\<close>


text \<open>
  routing owns window and placement. Whatever options the caller sends, the options that reach
  Ollama have the router's window, or none where Ollama's equal default is left to apply; they pin the
  CPU exactly on the CPU backend; and every option the caller did send is passed on unchanged.
\<close>

theorem routing_owns_window_and_placement:
  fixes threads :: "nat option" and placement :: backend
  assumes "apply_request_options task r d = Inr d1"
    and "plan_context to_text mode auto_max dflt loaded inp model d1 = Inr (sizing, left, d2)"
    and "build_managed_request inp d2 keep_alive = Inr (path, body)"
    and "distinct (map fst (case ro_options r of None \<Rightarrow> [] | Some kvs \<Rightarrow> kvs))"
  defines "opts \<equiv> jindex (final_body threads placement left body) ''options''"
  shows "jget opts ''num_ctx'' = (if left = None then jget (dc_options d2) ''num_ctx'' else None) \<and>
    jget opts ''num_gpu'' = (if placement = Cpu then Some (JInt 0) else jget (dc_options d) ''num_gpu'') \<and>
    (\<forall>(k, v) \<in> set (case ro_options r of None \<Rightarrow> [] | Some kvs \<Rightarrow> kvs). jget opts k = Some v)"
proof -
  note r = request_options_applied [OF assms(1)]
  have o2: "jis_object (dc_options d2)"
    "k \<noteq> ''num_ctx'' \<Longrightarrow> jget (dc_options d2) k = jget (dc_options d1) k" for k
    using plan_context_options [OF assms(2)] r by blast+
  note body = body_options [OF assms(3)]
  define o1 where "o1 = (if placement = Cpu then cpu_options threads (dc_options d2) else dc_options d2)"
  have opts: "opts = (if left = None then o1 else jremove ''num_ctx'' o1)"
    using final_options [of body "dc_options d2" threads placement left] body o2(1)
    by (simp add: opts_def o1_def Let_def)
  have obj1: "jis_object o1" using cpu_options_get(1) o2(1) by (simp add: o1_def)
  have get: "jget opts k = (if left \<noteq> None \<and> k = ''num_ctx'' then None else jget o1 k)" for k
    using removed [OF obj1, of "''num_ctx''" k] by (auto simp: opts)
  have "jget o1 ''num_ctx'' = jget (dc_options d2) ''num_ctx''"
    "jget o1 ''num_gpu'' = (if placement = Cpu then Some (JInt 0) else jget (dc_options d2) ''num_gpu'')"
    using cpu_options_get [OF o2(1)] by (simp_all add: o1_def)
  moreover have "jget o1 k = Some v" if "k \<noteq> ''num_gpu''" "jget (dc_options d2) k = Some v" for k v
    using cpu_options_get(3) [OF o2(1)] that by (simp add: o1_def)
  moreover have "k \<noteq> ''num_ctx'' \<and> k \<noteq> ''num_gpu'' \<and> jget (dc_options d1) k = Some v"
    if "(k, v) \<in> set (case ro_options r of None \<Rightarrow> [] | Some kvs \<Rightarrow> kvs)" for k v
    using r that assms(4) by (auto split: option.splits)
  ultimately show ?thesis using o2(2) r by (auto simp: get)
qed

section \<open>Witnesses\<close>

definition request_model :: catalog_model where
  "request_model = \<lparr>cm_name = ''m'', cm_digest = Some ''d'', cm_size = 1, cm_capabilities = {},
     cm_advertised_context = Some 8192, cm_kv_bytes_per_token = None, cm_modelfile_num_ctx = None,
     cm_architecture = None, cm_resident = True, cm_resident_size = None, cm_resident_vram = None,
     cm_resident_context = None, cm_benchmark = Map.empty, cm_observed_loops = Map.empty,
     cm_policy_rank = Map.empty, cm_policy_options = Map.empty\<rparr>"

definition request_decision :: route_decision where
  "request_decision = \<lparr>dc_selected_model = ''m'', dc_task = TCompletion, dc_objective = Balanced,
     dc_profile = ''completion'', dc_required = {},
     dc_options = JObj [(''num_ctx'', JInt 8192), (''num_predict'', JInt 100)], dc_think = JBool False,
     dc_strict = False, dc_resident = True, dc_session_id = None,
     dc_evidence = route_evidence False False None, dc_rejected = [], dc_reasons = []\<rparr>"

definition request_sample_options :: request_options where
  "request_sample_options = \<lparr>ro_format = None, ro_think = None, ro_options = Some [(''seed'', JInt 7)],
     ro_logprobs = None, ro_top_logprobs = None\<rparr>"

definition request_task :: managed_input where
  "request_task = \<lparr>ti_route = route_input_default, ti_route_fields = {}, ti_scope_id = None,
     ti_scope_revision = None, ti_messages = [], ti_prompt = Some ''hello'', ti_images = None,
     ti_input = None, ti_deferred = False, mi_operation = Generate, mi_tools = None,
     mi_keep_alive = None, mi_request_options = request_sample_options, mi_stop_on_repetition = False\<rparr>"

definition request_loaded :: json where
  "request_loaded = JObj [(''context_length'', JInt 4096), (''digest'', JStr ''d'')]"

lemma request_sizing:
  "\<exists>sizing d'. plan_context (\<lambda>_. []) False 32768 None (Some request_loaded) request_task request_model request_decision =
    Inr (sizing, None, d') \<and> prompt_mode sizing \<and> get_u64 (dc_options d') ''num_ctx'' = Some 4096"
proof -
  have tok: "prompt_tokens (\<lambda>_. []) request_task = 2"
    by (simp add: prompt_tokens_def request_task_def schemas_def request_sample_options_def estimate_payload_def
        estimated_text_tokens_def div_ceil_def List.map_filter_def)
  have cap: "automatic_cap request_decision request_model = 8192"
    by (simp add: automatic_cap_def request_model_def AUTO_CONTEXT_LIMIT_def)
  have req: "required_tokens 2 100 = 614"
    by (simp add: required_tokens_def sat_add_def u64_max_def TEMPLATE_MARGIN_def)
  have sel: "selected_context 8192 614 = 2048" by (simp add: selected_context_def context_buckets_def)
  obtain sizing d1 where sp: "size_prompt_context (\<lambda>_. []) request_task request_decision request_model 100 =
      Inr (sizing, d1)"
    using tok cap req by (simp add: size_prompt_context_def prompt_tokens_def Let_def)
  note result = size_prompt_result [OF sp, unfolded tok cap req sel]
  have "num_predict request_decision = Some 100"
    by (simp add: num_predict_def get_u64_def request_decision_def u64_max_def)
  then have sc: "size_context (\<lambda>_. []) request_task request_decision request_model = Inr (sizing, d1)"
    using sp by (simp add: size_context_def scoped_def explicit_context_def has_unestimated_modality_def
        own_images_def request_task_def route_input_default_def)
  have obj: "jis_object (dc_options request_decision)" by (simp add: request_decision_def)
  have n1: "get_u64 (dc_options d1) ''num_ctx'' = Some 2048"
    using result obj by (simp add: get_u64_set u64_max_def)
  have "jis_object (dc_options d1)" using n1 by (rule get_u64_object)
  then obtain d2 where reuse: "reuse_resident_context request_model (Some request_loaded) d1 = (Some 4096, d2)"
    "get_u64 (dc_options d2) ''num_ctx'' = Some 4096"
    using n1 by (simp add: reuse_resident_context_def request_loaded_def request_model_def get_u64_set
        get_u64_def [of "JObj kvs" for kvs] u64_max_def)
  have res: "dc_resident d1" using result by (simp add: request_decision_def)
  have "jis_object sizing" using result jget_jis_object
    by (auto simp: prompt_mode_def jindex_def split: option.splits)
  then have "prompt_mode (jset ''reused_resident_context'' (jnat 4096) sizing)"
    using result by (simp add: prompt_mode_def)
  then show ?thesis
    using sc reuse res result
    by (simp add: plan_context_def context_left_to_ollama_def prompt_mode_def)
qed


theorem routing_owns_window_and_placement_witness:
  "\<exists>body. jget (jindex (final_body (Some 4) Cpu None body) ''options'') ''num_gpu'' = Some (JInt 0) \<and>
    jget (jindex (final_body (Some 4) Cpu None body) ''options'') ''seed'' = Some (JInt 7)"
proof -
  have obj: "jis_object (dc_options request_decision)" by (simp add: request_decision_def)
  obtain d1 where d1: "apply_request_options TCompletion request_sample_options request_decision = Inr d1"
    using obj by (auto simp: apply_request_options_def option_sent_def request_sample_options_def)
  have warm: "plan_context (\<lambda>_. []) False 32768 None None (request_task\<lparr>mi_operation := Warm\<rparr>) request_model d1 =
      Inr (json_object [(''mode'', JStr ''warm_profile''), (''tokens'', jindex (dc_options d1) ''num_ctx'')], None, d1)"
    by (simp add: plan_context_def size_context_def context_left_to_ollama_def request_task_def jindex_of_object)
  have built: "build_managed_request (request_task\<lparr>mi_operation := Warm\<rparr>) d1 JNull = Inr (''/api/chat'', warm_body d1 JNull)"
    by (simp add: build_managed_request_def request_task_def)
  have dist: "distinct (map fst (case ro_options request_sample_options of None \<Rightarrow> [] | Some kvs \<Rightarrow> kvs))"
    by (simp add: request_sample_options_def)
  from routing_owns_window_and_placement [OF d1 warm built dist, of "Some 4" Cpu] show ?thesis
    by (auto simp: request_sample_options_def)
qed

end
