(* ===== verification/Warming.thy ===== *)
theory Warming
  imports Residency Request
begin

text \<open>
  How long a model stays loaded (\<open>platform/warming.rs\<close>): the operator's policy, the seconds computed
  from recent reuse, load cost and memory pressure, the value sent to Ollama, and the request that
  only loads a model. \<open>f64::round\<close> and \<open>Duration::try_from_secs_f64\<close> are modelled on bit patterns.
\<close>

section \<open>Rounding\<close>

text \<open>\<open>f64::round\<close>: half away from zero; a magnitude of 2^52 or more has no fraction.\<close>

definition f_nearest :: "nat \<Rightarrow> nat" where
  "f_nearest mag = (let unit = 2 ^ nat (- f_exp mag) in (2 * f_sig mag + unit) div (2 * unit))"

definition f_round_away :: "f64 \<Rightarrow> f64" where
  "f_round_away x =
     (if \<not> is_finite x \<or> 0 \<le> f_exp (f_mag x) then x
      else f_make (f_neg x) (f_round (f_nearest (f_mag x)) 1 0))"

text \<open>\<open>Duration::try_from_secs_f64\<close> in nanoseconds, rounded to nearest, ties to even.\<close>

definition try_from_secs_f64 :: "f64 \<Rightarrow> duration option" where
  "try_from_secs_f64 x =
     (if is_nan x \<or> f_lt x f_zero \<or> \<not> is_finite x then None
      else let nanos = round_quot (f_sig (f_mag x) * 1000000000 * 2 ^ nat (f_exp (f_mag x)))
                         (2 ^ nat (- f_exp (f_mag x)))
           in if u64_max < nanos div 1000000000 then None else Some nanos)"

text \<open>\<open>f64::clamp\<close> panics (\<open>None\<close>) unless the bounds are ordered.\<close>

definition f_clamp :: "f64 \<Rightarrow> f64 \<Rightarrow> f64 \<Rightarrow> f64 option" where
  "f_clamp lo hi x =
     (if \<not> f_le lo hi then None
      else let y = (if f_lt x lo then lo else x) in Some (if f_lt hi y then hi else y))"

section \<open>Policy\<close>

record warming_policy =
  wp_min_seconds :: nat
  wp_max_seconds :: nat
  wp_base_seconds :: nat
  wp_reuse_gain_seconds :: nat
  wp_load_multiplier :: f64
  wp_pressure_factor :: f64

definition warming_policy_default :: warming_policy where
  "warming_policy_default = \<lparr>wp_min_seconds = 15, wp_max_seconds = 900, wp_base_seconds = 60,
     wp_reuse_gain_seconds = 30, wp_load_multiplier = 0x4000000000000000,
     wp_pressure_factor = 0x3FD0000000000000\<rparr>"

definition warming_policy_valid :: "warming_policy \<Rightarrow> bool" where
  "warming_policy_valid p \<longleftrightarrow>
     0 < wp_min_seconds p \<and> wp_min_seconds p \<le> wp_base_seconds p \<and>
     wp_base_seconds p \<le> wp_max_seconds p \<and>
     is_finite (wp_load_multiplier p) \<and> f_le f_zero (wp_load_multiplier p) \<and>
     is_finite (wp_pressure_factor p) \<and> f_lt f_zero (wp_pressure_factor p) \<and>
     f_le (wp_pressure_factor p) f_one"

definition THOUSAND :: f64 where "THOUSAND = 0x408F400000000000"

definition raw_seconds :: "warming_policy \<Rightarrow> usage \<Rightarrow> bool \<Rightarrow> f64" where
  "raw_seconds p u holding =
     (let reuse = f_mul (us_recent_uses u) (f_of_nat (wp_reuse_gain_seconds p));
          load = f_mul (f_div (case us_load_ms u of Some ms \<Rightarrow> ms | None \<Rightarrow> f_zero) THOUSAND)
                   (wp_load_multiplier p);
          pressure = (if holding then wp_pressure_factor p else f_one)
      in f_mul (f_add (f_add (f_of_nat (wp_base_seconds p)) reuse) load) pressure)"

definition warming_duration :: "warming_policy \<Rightarrow> usage \<Rightarrow> bool \<Rightarrow> nat option" where
  "warming_duration p u holding =
     map_option
       (\<lambda>clamped. case try_from_secs_f64 (f_round_away clamped) of
                    None \<Rightarrow> wp_max_seconds p
                  | Some nanos \<Rightarrow> nanos div 1000000000)
       (f_clamp (f_of_nat (wp_min_seconds p)) (f_of_nat (wp_max_seconds p)) (raw_seconds p u holding))"

section \<open>The value sent to Ollama\<close>

definition wire_override :: "string \<Rightarrow> json" where
  "wire_override v = (if v = ''-1'' then JInt (-1) else JStr v)"

definition override_receipt :: "string \<Rightarrow> json" where
  "override_receipt v =
     json_object [(''mode'', JStr ''explicit''), (''value'', wire_override v),
       (''reason'', JStr ''caller_override''),
       (''finite'', JBool (\<not> starts_with (trim_start v) ''-'')),
       (''physical_placement'', JStr ''reported_separately_in_execution_observation'')]"

definition adaptive_reason :: "usage \<Rightarrow> bool \<Rightarrow> string" where
  "adaptive_reason u holding =
     (if holding then ''host_pressure''
      else if f_lt f_zero (us_recent_uses u) then ''recent_model_reuse_and_load_cost''
      else ''initial_finite_residency'')"

definition adaptive_receipt ::
  "warming_policy \<Rightarrow> usage \<Rightarrow> bool \<Rightarrow> string list \<Rightarrow> nat \<Rightarrow> json" where
  "adaptive_receipt p u holding reasons seconds =
     json_object [(''mode'', JStr ''adaptive''), (''value'', JStr (show_nat seconds @ ''s'')),
       (''seconds'', jnat seconds), (''finite'', JBool True),
       (''reason'', JStr (adaptive_reason u holding)),
       (''recent_uses'', json_f64 (us_recent_uses u)),
       (''observed_load_ms'', jopt json_f64 (us_load_ms u)),
       (''pressure_observed'', JBool holding),
       (''pressure_reasons'', JArr (map JStr reasons)),
       (''bounds'', json_object [(''min_seconds'', jnat (wp_min_seconds p)),
                                 (''max_seconds'', jnat (wp_max_seconds p))]),
       (''physical_placement'', JStr ''reported_separately_in_execution_observation'')]"

definition keep_alive ::
  "warming_policy \<Rightarrow> string option \<Rightarrow> usage \<Rightarrow> bool \<Rightarrow> string list \<Rightarrow> (json \<times> json) option" where
  "keep_alive p override u holding reasons =
     (case override of
        Some v \<Rightarrow> Some (wire_override v, override_receipt v)
      | None \<Rightarrow>
          map_option (\<lambda>seconds. (JStr (show_nat seconds @ ''s''), adaptive_receipt p u holding reasons seconds))
            (warming_duration p u holding))"

section \<open>A request that only loads\<close>

record warm_input =
  wi_model :: string
  wi_task :: "task_kind option"
  wi_context_tokens :: "nat option"
  wi_execution_preference :: "execution_preference option"
  wi_min_placement_evidence :: "placement_evidence option"
  wi_priority :: "priority option"
  wi_keep_alive :: "string option"
  wi_max_wait_seconds :: "nat option"
  wi_timeout_seconds :: "nat option"
  wi_defer :: "bool option"

record managed_task = managed_input +
  mt_priority :: priority
  mt_max_wait_seconds :: "nat option"
  mt_timeout_seconds :: "nat option"
  mt_defer :: bool

definition sent_fields :: "warm_input \<Rightarrow> string set" where
  "sent_fields w = set (map fst (filter snd
     [(''model'', True), (''task'', wi_task w \<noteq> None), (''context_tokens'', wi_context_tokens w \<noteq> None),
      (''execution_preference'', wi_execution_preference w \<noteq> None),
      (''min_placement_evidence'', wi_min_placement_evidence w \<noteq> None),
      (''priority'', wi_priority w \<noteq> None), (''keep_alive'', wi_keep_alive w \<noteq> None),
      (''max_wait_seconds'', wi_max_wait_seconds w \<noteq> None),
      (''timeout_seconds'', wi_timeout_seconds w \<noteq> None), (''defer'', wi_defer w \<noteq> None)]))"

definition or_else :: "'a \<Rightarrow> 'a option \<Rightarrow> 'a" where
  "or_else d v = (case v of None \<Rightarrow> d | Some x \<Rightarrow> x)"

definition warm_route :: "warm_input \<Rightarrow> route_input" where
  "warm_route w = route_input_default\<lparr>ri_model := Some (wi_model w),
     ri_task := or_else TCompletion (wi_task w), ri_context_tokens := wi_context_tokens w,
     ri_preference := or_else PreferAuto (wi_execution_preference w),
     ri_min_placement := or_else Configured (wi_min_placement_evidence w)\<rparr>"

definition no_request_options :: request_options where
  "no_request_options = \<lparr>ro_format = None, ro_think = None, ro_options = None, ro_logprobs = None,
     ro_top_logprobs = None\<rparr>"

definition into_task :: "warm_input \<Rightarrow> unit + managed_task" where
  "into_task w =
     (if str_trim (wi_model w) = [] \<or> wi_task w = Some TEmbedding then Inl ()
      else Inr \<lparr>ti_route = warm_route w, ti_route_fields = sent_fields w, ti_scope_id = None,
                ti_scope_revision = None, ti_messages = [], ti_prompt = None, ti_images = None,
                ti_input = None, ti_deferred = False, mi_operation = Warm, mi_tools = None,
                mi_keep_alive = wi_keep_alive w, mi_request_options = no_request_options,
                mi_stop_on_repetition = False, mt_priority = or_else Normal (wi_priority w),
                mt_max_wait_seconds = wi_max_wait_seconds w, mt_timeout_seconds = wi_timeout_seconds w,
                mt_defer = or_else False (wi_defer w)\<rparr>)"

definition completion_receipt :: "json \<Rightarrow> json" where
  "completion_receipt execution =
     (let unloading = (jindex (jindex execution ''lifecycle'') ''requested'' = JStr ''immediate_unload'');
          observation = (if unloading then jindex (jindex execution ''lifecycle'') ''post_unload_observation''
                         else jindex execution ''observation'')
      in json_object [(''requested'', JBool True), (''loaded'', jindex observation ''resident''),
           (''load_response_validated'', JBool True),
           (''residency_source'', JStr (if unloading then ''ollama_api_ps_after_unload''
                                        else ''ollama_api_ps_after_execution'')),
           (''model_shared_across_scopes'', JBool True), (''kv_transfer_between_models'', JBool False)])"

section \<open>The range of the duration\<close>

lemma round_quot_exact: "0 < u \<Longrightarrow> round_quot (k * u) u = k"
  by (simp add: round_quot_def round_even_def)

lemma f_exp_ge: "- 1074 \<le> f_exp m"
proof (cases "m < 2 ^ 52")
  case False
  then have "1 \<le> m div 2 ^ 52" by (simp add: div_greater_zero_iff Suc_le_eq)
  then show ?thesis by (simp add: f_exp_def)
qed (simp add: f_exp_def)

lemma f_value_scaled: "f_value m * 2 ^ nat (- f_exp m) = f_sig m * 2 ^ nat (f_exp m) * 2 ^ 1074"
proof (cases "0 \<le> f_exp m")
  case True
  then have "nat (f_exp m + 1074) = nat (f_exp m) + 1074" "nat (- f_exp m) = 0" by linarith+
  then show ?thesis by (simp only: f_value_def power_add mult.assoc power_0 mult_1_right)
next
  case False
  then have z: "nat (f_exp m) = 0" by linarith
  have "nat (f_exp m + 1074) + nat (- f_exp m) = 1074" using False f_exp_ge [of m] by linarith
  then have "(2 :: nat) ^ nat (f_exp m + 1074) * 2 ^ nat (- f_exp m) = 2 ^ 1074"
    by (simp only: power_add [symmetric])
  then show ?thesis by (simp only: f_value_def z mult.assoc power_0 mult_1)
qed

text \<open>A magnitude whose value is an integer is turned into that many seconds.\<close>

lemma seconds_of_integral:
  assumes fin: "is_finite x" and pos: "\<not> f_neg x" and v: "f_value (f_mag x) = n * 2 ^ 1074" and n: "n \<le> u64_max"
  shows "try_from_secs_f64 x = Some (n * 1000000000)"
proof -
  let ?e = "f_exp (f_mag x)"
  have "n * 2 ^ nat (- ?e) * 2 ^ 1074 = f_sig (f_mag x) * 2 ^ nat ?e * 2 ^ 1074"
    using f_value_scaled [of "f_mag x"] unfolding v by (simp only: mult.assoc mult.commute mult.left_commute)
  then have eq: "f_sig (f_mag x) * 2 ^ nat ?e = n * 2 ^ nat (- ?e)"
    by (metis mult_right_cancel power_not_zero zero_neq_numeral)
  have "f_sig (f_mag x) * 1000000000 * 2 ^ nat ?e = f_sig (f_mag x) * 2 ^ nat ?e * 1000000000"
    by (simp only: mult.assoc mult.commute mult.left_commute)
  also have "\<dots> = n * 1000000000 * 2 ^ nat (- ?e)" unfolding eq
    by (simp only: mult.assoc mult.commute mult.left_commute)
  finally have scale: "f_sig (f_mag x) * 1000000000 * 2 ^ nat ?e = n * 1000000000 * 2 ^ nat (- ?e)" .
  have q: "round_quot (f_sig (f_mag x) * 1000000000 * 2 ^ nat ?e) (2 ^ nat (- ?e)) = n * 1000000000"
    unfolding scale by (rule round_quot_exact) simp
  have "\<not> f_lt x f_zero" using pos by (simp add: f_lt_def f_key_def f_zero_def f_mag_def f_neg_def)
  then show ?thesis
    using fin n by (simp add: try_from_secs_f64_def q finite_not_nan Let_def)
qed

lemma seconds_of_nat: "n < 2 ^ 53 \<Longrightarrow> try_from_secs_f64 (f_of_nat n) = Some (n * 1000000000)"
  using f_of_nat_parts [of n] f_of_nat_exact(1) [of n]
  by (intro seconds_of_integral) (simp_all add: u64_max_def)

lemma mult_le_scale: "x * c \<le> y * c \<Longrightarrow> 0 < c \<Longrightarrow> x \<le> y" for x y c :: nat
  by simp

lemma rounded_seconds:
  assumes a: "0 < a" "a < 2 ^ 53" and b: "b < 2 ^ 53"
    and lo: "f_le (f_of_nat a) x" and hi: "f_le x (f_of_nat b)"
  obtains n where "try_from_secs_f64 (f_round_away x) = Some (n * 1000000000)" "a \<le> n" "n \<le> b"
proof -
  have fb: "f_mag (f_of_nat b) = f_round b 1 0" "\<not> f_neg (f_of_nat b)"
    "f_value (f_round b 1 0) = b * 2 ^ 1074" "f_round b 1 0 < f_inf_mag"
    using f_of_nat_parts [OF b] f_of_nat_exact [OF b] by auto
  have keys: "f_key (f_of_nat a) \<le> f_key x" "f_key x \<le> f_key (f_of_nat b)" "\<not> is_nan x"
    using lo hi by (auto simp: f_le_def)
  have fa: "f_mag (f_of_nat a) = f_round a 1 0" "\<not> f_neg (f_of_nat a)"
    "f_value (f_round a 1 0) = a * 2 ^ 1074"
    using f_of_nat_parts [OF a(2)] f_of_nat_exact [OF a(2)] by auto
  have "f_round a 1 0 \<noteq> 0"
  proof
    assume "f_round a 1 0 = 0"
    then have "a * 2 ^ 1074 = f_value 0" using fa by simp
    then show False using a(1) by (simp add: f_value_small)
  qed
  then have pos: "\<not> f_neg x" and lo': "f_round a 1 0 \<le> f_mag x" and hi': "f_mag x \<le> f_round b 1 0"
    using keys fa fb by (auto simp: f_key_def split: if_splits)
  have fin: "is_finite x" using hi' fb by (simp add: is_finite_def)
  let ?m = "f_mag x" let ?e = "f_exp (f_mag x)" let ?v = "f_value (f_mag x)"
  have v: "a * 2 ^ 1074 \<le> ?v" "?v \<le> b * 2 ^ 1074"
    using f_value_mono [OF lo'] f_value_mono [OF hi'] fa fb by simp_all
  show ?thesis
  proof (cases "0 \<le> ?e")
    case True
    define n where "n = f_sig ?m * 2 ^ nat ?e"
    have eq: "?v = n * 2 ^ 1074"
    proof -
      have "nat (- ?e) = 0" using True by linarith
      then show ?thesis using f_value_scaled [of ?m] unfolding n_def by (metis mult_1_right power_0)
    qed
    have bounds: "a \<le> n" "n \<le> b"
      using mult_le_scale [of a "2 ^ 1074" n] mult_le_scale [of n "2 ^ 1074" b] v unfolding eq
    by (simp_all del: power_numeral)
    have "f_round_away x = x" using True by (simp add: f_round_away_def)
    moreover have "n \<le> u64_max" using bounds b by (simp add: u64_max_def)
    ultimately show ?thesis using seconds_of_integral [OF fin pos eq] bounds that by simp
  next
    case False
    define u :: nat where "u = 2 ^ nat (- ?e)"
    define n where "n = (2 * f_sig ?m + u) div (2 * u)"
    have u: "0 < u" by (simp add: u_def)
    have "nat ?e = 0" using False by linarith
    then have sv: "?v * u = f_sig ?m * 2 ^ 1074"
      using f_value_scaled [of ?m] unfolding u_def by (metis mult_1_right power_0)
    have sa: "a * u \<le> f_sig ?m"
    proof -
      have "a * 2 ^ 1074 * u \<le> ?v * u" by (rule mult_le_mono1) (rule v)
      then have "(a * u) * 2 ^ 1074 \<le> f_sig ?m * 2 ^ 1074"
        unfolding sv by (metis mult.assoc mult.commute)
      then show ?thesis by (rule mult_le_scale) simp
    qed
    have sb: "f_sig ?m \<le> b * u"
    proof -
      have "?v * u \<le> b * 2 ^ 1074 * u" by (rule mult_le_mono1) (rule v)
      then have "f_sig ?m * 2 ^ 1074 \<le> (b * u) * 2 ^ 1074"
        unfolding sv by (metis mult.assoc mult.commute)
      then show ?thesis by (rule mult_le_scale) simp
    qed
    have "a * (2 * u) \<le> 2 * f_sig ?m + u" using sa by (simp add: mult.left_commute)
    then have "a \<le> n" unfolding n_def using u by (simp add: less_eq_div_iff_mult_less_eq)
    moreover have "2 * f_sig ?m + u < (b + 1) * (2 * u)" using sb u by (simp add: algebra_simps)
    then have "n \<le> b" unfolding n_def using u by (simp add: div_less_iff_less_mult less_Suc_eq_le [symmetric])
    moreover have "f_round_away x = f_of_nat n"
      using False fin pos
      by (simp add: f_round_away_def f_nearest_def n_def u_def f_of_nat_def Let_def)
    ultimately show ?thesis using seconds_of_nat [of n] b that by simp
  qed
qed

lemma clamp_range:
  assumes c: "f_clamp lo hi x = Some y"
  shows "is_nan y \<or> f_le lo y \<and> f_le y hi"
proof -
  have order: "f_le lo hi" and y: "y = (if f_lt hi (if f_lt x lo then lo else x) then hi
      else if f_lt x lo then lo else x)"
    using c by (auto simp: f_clamp_def Let_def split: if_splits)
  have refl: "f_le lo lo" "f_le hi hi" using order by (auto simp: f_le_def)
  show ?thesis
  proof (cases "f_lt x lo")
    case True
    then have "y = lo" using y f_le_not_lt [OF order] by simp
    then show ?thesis using order refl by simp
  next
    case below: False
    show ?thesis
    proof (cases "f_lt hi x")
      case True
      then show ?thesis using y below order refl by simp
    next
      case False
      then show ?thesis using y below order by (auto simp: f_lt_def f_le_def)
    qed
  qed
qed

lemma f_of_nat_mono:
  assumes "a \<le> b" "b < 2 ^ 53"
  shows "f_le (f_of_nat a) (f_of_nat b)"
proof -
  have a: "a < 2 ^ 53" using assms by linarith
  have "f_round a 1 0 \<le> f_round b 1 0"
  proof (rule ccontr)
    assume above: "\<not> f_round a 1 0 \<le> f_round b 1 0"
    then have le: "f_round b 1 0 \<le> f_round a 1 0" by simp
    have "b * 2 ^ 1074 \<le> a * 2 ^ 1074"
      using f_value_mono [OF le] unfolding f_of_nat_exact(1) [OF a] f_of_nat_exact(1) [OF assms(2)] .
    then have "b \<le> a" by (rule mult_le_scale) simp
    then show False using above assms by simp
  qed
  then show ?thesis
    using f_of_nat_parts [OF a] f_of_nat_parts [OF assms(2)] by (simp add: f_le_def f_key_def finite_not_nan)
qed

text \<open>
  For every valid policy whose bounds a double holds exactly, whatever the measured reuse, load
  time and pressure, including values that are not numbers, the assertion of \<open>clamp\<close> holds and the
  model is kept loaded for a whole number of seconds within the operator's bounds.
\<close>

theorem keep_alive_within_bounds:
  assumes valid: "warming_policy_valid p" and exact: "wp_max_seconds p < 2 ^ 53"
  shows "\<exists>n. warming_duration p u holding = Some n \<and> wp_min_seconds p \<le> n \<and> n \<le> wp_max_seconds p \<and>
    keep_alive p None u holding reasons =
      Some (JStr (show_nat n @ ''s''), adaptive_receipt p u holding reasons n)"
proof -
  have order: "0 < wp_min_seconds p" "wp_min_seconds p \<le> wp_max_seconds p"
    using valid by (auto simp: warming_policy_valid_def)
  then have small: "wp_min_seconds p < 2 ^ 53" using exact by linarith
  obtain y where y: "f_clamp (f_of_nat (wp_min_seconds p)) (f_of_nat (wp_max_seconds p)) (raw_seconds p u holding)
      = Some y"
    using f_of_nat_mono [OF order(2) exact] by (simp add: f_clamp_def Let_def)
  have "\<exists>n. (case try_from_secs_f64 (f_round_away y) of None \<Rightarrow> wp_max_seconds p
      | Some nanos \<Rightarrow> nanos div 1000000000) = n \<and> wp_min_seconds p \<le> n \<and> n \<le> wp_max_seconds p"
  proof (cases "is_nan y")
    case True
    then have "try_from_secs_f64 (f_round_away y) = None"
      by (auto simp: f_round_away_def try_from_secs_f64_def dest: finite_not_nan)
    then show ?thesis using order by simp
  next
    case False
    then have "f_le (f_of_nat (wp_min_seconds p)) y" "f_le y (f_of_nat (wp_max_seconds p))"
      using clamp_range [OF y] by auto
    then obtain n where "try_from_secs_f64 (f_round_away y) = Some (n * 1000000000)"
      "wp_min_seconds p \<le> n" "n \<le> wp_max_seconds p"
      using rounded_seconds [OF order(1) small exact] by blast
    then show ?thesis by simp
  qed
  then show ?thesis using y by (simp add: warming_duration_def keep_alive_def)
qed

definition busy_usage :: usage where
  "busy_usage = \<lparr>us_active = 0, us_idle_seconds = None, us_recent_uses = f_of_nat 4,
     us_load_ms = Some (f_of_nat 2000)\<rparr>"

lemma default_policy_valid: "warming_policy_valid warming_policy_default"
  by (simp add: warming_policy_valid_def warming_policy_default_def f_eval f_zero_def)

lemma busy_raw:
  "raw_seconds warming_policy_default busy_usage False = f_of_nat 184"
  "raw_seconds warming_policy_default busy_usage True = f_of_nat 46"
proof -
  have "f_mul (f_of_nat 4) (f_of_nat 30) = f_of_nat 120"
    "f_mul (f_div (f_of_nat 2000) THOUSAND) 0x4000000000000000 = f_of_nat 4"
    "f_add (f_of_nat 60) (f_of_nat 120) = f_of_nat 180" "f_add (f_of_nat 180) (f_of_nat 4) = f_of_nat 184"
    "f_mul (f_of_nat 184) f_one = f_of_nat 184" "f_mul (f_of_nat 184) 0x3FD0000000000000 = f_of_nat 46"
    by (simp_all add: THOUSAND_def f_eval)
  then show "raw_seconds warming_policy_default busy_usage False = f_of_nat 184"
    "raw_seconds warming_policy_default busy_usage True = f_of_nat 46"
    by (simp_all add: raw_seconds_def warming_policy_default_def busy_usage_def Let_def)
qed

lemma busy_durations:
  "warming_duration warming_policy_default busy_usage False = Some 184"
  "warming_duration warming_policy_default busy_usage True = Some 46"
proof -
  have "f_clamp (f_of_nat 15) (f_of_nat 900) (f_of_nat 184) = Some (f_of_nat 184)"
    "f_clamp (f_of_nat 15) (f_of_nat 900) (f_of_nat 46) = Some (f_of_nat 46)"
    by (simp_all add: f_clamp_def f_of_nat_mono f_le_not_lt)
  moreover have "f_round_away (f_of_nat 184) = f_of_nat 184" "f_round_away (f_of_nat 46) = f_of_nat 46"
    by (simp_all add: f_round_away_def f_nearest_def f_eval)
  ultimately show "warming_duration warming_policy_default busy_usage False = Some 184"
    "warming_duration warming_policy_default busy_usage True = Some 46"
    using seconds_of_nat [of 184] seconds_of_nat [of 46]
    by (simp_all add: warming_duration_def busy_raw) (simp_all add: warming_policy_default_def)
qed

theorem keep_alive_within_bounds_witness:
  "\<exists>n. warming_duration warming_policy_default busy_usage True = Some n \<and> 15 \<le> n \<and> n \<le> 900 \<and>
     keep_alive warming_policy_default None busy_usage True [''memory''] =
       Some (JStr (show_nat n @ ''s''), adaptive_receipt warming_policy_default busy_usage True [''memory''] n)"
  using keep_alive_within_bounds [OF default_policy_valid, where u = busy_usage and holding = True
      and reasons = "[''memory'']"]
  by (simp add: warming_policy_default_def)

end
