(* ===== verification/Settings.thy ===== *)
theory Settings
  imports Warming "HOL-Library.State_Monad"
begin

text \<open>
  Tunables and their resolution (\<open>platform/runtime/mod.rs\<close>, \<open>platform/runtime/resolve.rs\<close>) and the
  live settings that reload a configuration file (\<open>platform/runtime/settings.rs\<close>). The environment
  is a function, the TOML parser and the file system are arguments. A warning keeps the name and the
  value of the variable; the sentence printed about it is not modelled.
\<close>

section \<open>Data\<close>

datatype adaptive_mode = AdaptiveOff | AdaptiveCpu | AdaptiveAll
datatype context_mode = ContextExplicit | ContextOllamaDefault

record runtime_file =
  rf_max_concurrent_tasks :: "nat option"
  rf_cpu_max_concurrent_tasks :: "nat option"
  rf_max_queued_tasks :: "nat option"
  rf_cpu_max_queued_tasks :: "nat option"
  rf_max_queue_wait_seconds :: "nat option"
  rf_raw_queue_wait_seconds :: "nat option"
  rf_raw_max_concurrent_requests :: "nat option"
  rf_pinned_models :: "string list option"
  rf_evict_idle_models :: "bool option"
  rf_eviction_costs :: "(string, f64) btree option"
  rf_adaptive_concurrency :: "adaptive_mode option"
  rf_task_costs :: "(task_kind, nat) btree option"
  rf_context_mode :: "context_mode option"
  rf_ollama_default_context :: "nat option"
  rf_auto_context_max :: "nat option"
  rf_usage_queue_capacity :: "nat option"
  rf_scopes :: "scope_policy option"
  rf_warming :: "warming_policy option"
  rf_breaker_failures :: "nat option"
  rf_breaker_cooldown_seconds :: "nat option"

definition runtime_file_default :: runtime_file where
  "runtime_file_default = \<lparr>rf_max_concurrent_tasks = None, rf_cpu_max_concurrent_tasks = None,
     rf_max_queued_tasks = None, rf_cpu_max_queued_tasks = None, rf_max_queue_wait_seconds = None,
     rf_raw_queue_wait_seconds = None, rf_raw_max_concurrent_requests = None, rf_pinned_models = None,
     rf_evict_idle_models = None, rf_eviction_costs = None, rf_adaptive_concurrency = None,
     rf_task_costs = None, rf_context_mode = None, rf_ollama_default_context = None,
     rf_auto_context_max = None, rf_usage_queue_capacity = None, rf_scopes = None, rf_warming = None,
     rf_breaker_failures = None, rf_breaker_cooldown_seconds = None\<rparr>"

record pinned_tunables =
  pt_max_concurrent_tasks :: "nat option"
  pt_cpu_max_concurrent_tasks :: "nat option"
  pt_max_queued_tasks :: "nat option"
  pt_cpu_max_queued_tasks :: "nat option"
  pt_max_queue_wait :: "duration option"
  pt_raw_max_concurrent_requests :: "nat option"
  pt_raw_queue_wait :: "duration option"

record tunables =
  tn_max_concurrent_tasks :: nat
  tn_cpu_max_concurrent_tasks :: nat
  tn_max_queued_tasks :: nat
  tn_cpu_max_queued_tasks :: nat
  tn_max_queue_wait_ms :: nat
  tn_raw_queue_wait_seconds :: nat
  tn_raw_max_concurrent_requests :: nat
  tn_pinned_models :: "string set"
  tn_evict_idle_models :: bool
  tn_eviction_costs :: "(string, f64) btree"
  tn_adaptive_concurrency :: adaptive_mode
  tn_task_costs :: "(task_kind, nat) btree"
  tn_context_mode :: context_mode
  tn_ollama_default_context :: "nat option"
  tn_auto_context_max :: nat
  tn_usage_queue_capacity :: nat
  tn_scopes :: scope_policy
  tn_warming :: warming_policy
  tn_breaker_failures :: nat
  tn_breaker_cooldown_seconds :: nat
  tn_sources :: "(string, string) btree"
  tn_env_warnings :: "(string \<times> string) list"

definition default_task_cost :: "task_kind \<Rightarrow> nat" where
  "default_task_cost task = (case task of TEmbedding \<Rightarrow> 1 | TVision \<Rightarrow> 4 | _ \<Rightarrow> 2)"

definition task_cost :: "tunables \<Rightarrow> task_kind \<Rightarrow> nat" where
  "task_cost t task = (case bt_get (tn_task_costs t) task of None \<Rightarrow> default_task_cost task | Some c \<Rightarrow> c)"

definition max_queue_wait :: "tunables \<Rightarrow> duration" where
  "max_queue_wait t = max (tn_max_queue_wait_ms t) 1 * 1000000"

definition raw_queue_wait :: "tunables \<Rightarrow> duration" where
  "raw_queue_wait t = tn_raw_queue_wait_seconds t * 1000000000"

definition breaker_cooldown :: "tunables \<Rightarrow> duration" where
  "breaker_cooldown t = max (tn_breaker_cooldown_seconds t) 1 * 1000000000"

section \<open>Reading the environment\<close>

text \<open>What a resolution accumulates: the invalid variables so far and the source of each setting.\<close>

record resolution =
  rs_warnings :: "(string \<times> string) list"
  rs_sources :: "(string, string) btree"

type_synonym environ = "string \<Rightarrow> string option"
type_synonym 'a resolver = "(resolution, 'a) state"

definition env_raw :: "(string \<Rightarrow> string option) \<Rightarrow> string \<Rightarrow> string option" where
  "env_raw env name = map_option str_trim (env name)"

definition checked :: "(string \<Rightarrow> string option) \<Rightarrow> string \<Rightarrow> (string \<Rightarrow> 'a option) \<Rightarrow> 'a option resolver" where
  "checked env name parse = State (\<lambda>r.
     (case env_raw env name of
        None \<Rightarrow> (None, r)
      | Some raw \<Rightarrow>
          if raw = [] then (None, r)
          else case parse raw of
                 None \<Rightarrow> (None, r\<lparr>rs_warnings := rs_warnings r @ [(name, raw)]\<rparr>)
               | Some v \<Rightarrow> (Some v, r)))"

definition env_none :: "'a option resolver" where "env_none = State_Monad.return None"

definition invalid_count :: "nat resolver" where
  "invalid_count = State (\<lambda>r. (length (rs_warnings r), r))"

definition note_source :: "string \<Rightarrow> string \<Rightarrow> unit resolver" where
  "note_source key source = State (\<lambda>r. ((), r\<lparr>rs_sources := bt_put key source (rs_sources r)\<rparr>))"

definition positive_only :: "nat option \<Rightarrow> nat option" where
  "positive_only v = (case v of Some n \<Rightarrow> if 0 < n then Some n else None | None \<Rightarrow> None)"

definition env_number :: "(string \<Rightarrow> string option) \<Rightarrow> string \<Rightarrow> nat option resolver" where
  "env_number env name = checked env name parse_u64"

definition env_positive :: "(string \<Rightarrow> string option) \<Rightarrow> string \<Rightarrow> nat option resolver" where
  "env_positive env name = checked env name (\<lambda>v. positive_only (parse_u64 v))"

definition env_usize_positive :: "(string \<Rightarrow> string option) \<Rightarrow> string \<Rightarrow> nat option resolver" where
  "env_usize_positive env name = checked env name (\<lambda>v. positive_only (parse_usize v))"

definition parse_boolean :: "string \<Rightarrow> bool option" where
  "parse_boolean v =
     (if ascii_lower v \<in> {''1'', ''true'', ''yes'', ''on''} then Some True
      else if ascii_lower v \<in> {''0'', ''false'', ''no'', ''off''} then Some False
      else None)"

definition env_boolean :: "(string \<Rightarrow> string option) \<Rightarrow> string \<Rightarrow> bool option resolver" where
  "env_boolean env name = checked env name parse_boolean"

definition env_finite :: "(string \<Rightarrow> string option) \<Rightarrow> string \<Rightarrow> f64 option resolver" where
  "env_finite env name = checked env name parse_f64"

section \<open>Resolution\<close>

definition pick_env :: "string \<Rightarrow> 'a option resolver \<Rightarrow> 'a option \<Rightarrow> 'a \<Rightarrow> string \<Rightarrow> 'a resolver" where
  "pick_env key from_env file dflt dflt_source = do {
     invalid_before \<leftarrow> invalid_count;
     v \<leftarrow> from_env;
     (case v of
        Some value \<Rightarrow> do { _ \<leftarrow> note_source key ''env''; State_Monad.return value }
      | None \<Rightarrow> do {
          invalid_after \<leftarrow> invalid_count;
          let (value, source) = (case file of Some value \<Rightarrow> (value, ''file'') | None \<Rightarrow> (dflt, dflt_source));
          _ \<leftarrow> note_source key (if invalid_before < invalid_after then ''env_invalid'' else source);
          State_Monad.return value })
   }"

definition pick :: "string \<Rightarrow> 'a option \<Rightarrow> 'a option resolver \<Rightarrow> 'a option \<Rightarrow> 'a \<Rightarrow> string \<Rightarrow> 'a resolver" where
  "pick key pinned from_env file dflt dflt_source =
     (case pinned of
        Some value \<Rightarrow> do { _ \<leftarrow> note_source key ''cli''; State_Monad.return value }
      | None \<Rightarrow> pick_env key from_env file dflt dflt_source)"

definition env_override :: "string \<Rightarrow> 'b option resolver \<Rightarrow> ('b \<Rightarrow> 'a \<Rightarrow> 'a) \<Rightarrow> 'a \<Rightarrow> 'a resolver" where
  "env_override key from_env upd policy = do {
     v \<leftarrow> from_env;
     (case v of
        None \<Rightarrow> State_Monad.return policy
      | Some value \<Rightarrow> do { _ \<leftarrow> note_source key ''env''; State_Monad.return (upd value policy) })
   }"

definition DEFAULT_CPU_MAX_CONCURRENT_TASKS :: nat where "DEFAULT_CPU_MAX_CONCURRENT_TASKS = 1"
definition DEFAULT_MAX_QUEUED_TASKS :: nat where "DEFAULT_MAX_QUEUED_TASKS = 16"
definition DEFAULT_CPU_MAX_QUEUED_TASKS :: nat where "DEFAULT_CPU_MAX_QUEUED_TASKS = 8"
definition LEDGER_QUEUE_CAPACITY :: nat where "LEDGER_QUEUE_CAPACITY = 128"

definition parallel_units :: "nat \<Rightarrow> nat" where
  "parallel_units num_parallel = sat_mul u64_max (max num_parallel 1) 2"

definition seconds_to_ms :: "nat \<Rightarrow> nat" where "seconds_to_ms s = sat_mul u64_max s 1000"

definition pinned_wait_ms :: "duration \<Rightarrow> nat" where
  "pinned_wait_ms wait = max (min (wait div 1000000) u64_max) 1"

definition usable_costs :: "(string, f64) btree \<Rightarrow> (string, f64) btree" where
  "usable_costs = bt_retain (\<lambda>_ weight. is_finite weight \<and> f_le f_zero weight)"

definition all_task_kinds :: "task_kind list" where
  "all_task_kinds = [TCompletion, TCoding, TCodeRepair, TTools, TBrowser, TVision, TEmbedding, TLongContext]"

definition default_task_costs :: "(task_kind, nat) btree" where
  "default_task_costs = fold (\<lambda>t. bt_put t (default_task_cost t)) all_task_kinds []"

definition resolve_task_costs :: "runtime_file \<Rightarrow> (task_kind, nat) btree resolver" where
  "resolve_task_costs file =
     (case rf_task_costs file of
        Some overrides \<Rightarrow> do {
          _ \<leftarrow> note_source ''task_costs'' ''file'';
          State_Monad.return (fold (\<lambda>(t, c). bt_put t c) overrides default_task_costs) }
      | None \<Rightarrow> do { _ \<leftarrow> note_source ''task_costs'' ''default''; State_Monad.return default_task_costs })"

definition scopes_from_env :: "(string \<Rightarrow> string option) \<Rightarrow> scope_policy \<Rightarrow> scope_policy resolver" where
  "scopes_from_env env p0 = do {
     p1 \<leftarrow> env_override ''scopes'' (env_usize_positive env ''FREELLAMA_SCOPE_MAX_COUNT'')
             (\<lambda>v p. p\<lparr>sp_max_count := v\<rparr>) p0;
     p2 \<leftarrow> env_override ''scopes'' (env_usize_positive env ''FREELLAMA_SCOPE_MAX_MESSAGES'')
             (\<lambda>v p. p\<lparr>sp_max_messages := v\<rparr>) p1;
     p3 \<leftarrow> env_override ''scopes'' (env_usize_positive env ''FREELLAMA_SCOPE_MAX_BYTES'')
             (\<lambda>v p. p\<lparr>sp_max_bytes := v\<rparr>) p2;
     p4 \<leftarrow> env_override ''scopes'' (env_positive env ''FREELLAMA_SCOPE_MAX_ESTIMATED_TOKENS'')
             (\<lambda>v p. p\<lparr>sp_max_tokens := v\<rparr>) p3;
     p5 \<leftarrow> env_override ''scopes'' (env_usize_positive env ''FREELLAMA_SCOPE_TOTAL_MAX_BYTES'')
             (\<lambda>v p. p\<lparr>sp_total_max_bytes := v\<rparr>) p4;
     env_override ''scopes'' (env_positive env ''FREELLAMA_SCOPE_TTL_SECONDS'')
       (\<lambda>v p. p\<lparr>sp_ttl_seconds := v\<rparr>) p5
   }"

definition warming_from_env :: "(string \<Rightarrow> string option) \<Rightarrow> warming_policy \<Rightarrow> warming_policy resolver" where
  "warming_from_env env p0 = do {
     p1 \<leftarrow> env_override ''warming'' (env_positive env ''FREELLAMA_KEEP_ALIVE_MIN_SECONDS'')
             (\<lambda>v p. p\<lparr>wp_min_seconds := v\<rparr>) p0;
     p2 \<leftarrow> env_override ''warming'' (env_positive env ''FREELLAMA_KEEP_ALIVE_MAX_SECONDS'')
             (\<lambda>v p. p\<lparr>wp_max_seconds := v\<rparr>) p1;
     p3 \<leftarrow> env_override ''warming'' (env_positive env ''FREELLAMA_KEEP_ALIVE_BASE_SECONDS'')
             (\<lambda>v p. p\<lparr>wp_base_seconds := v\<rparr>) p2;
     p4 \<leftarrow> env_override ''warming'' (env_number env ''FREELLAMA_KEEP_ALIVE_REUSE_GAIN_SECONDS'')
             (\<lambda>v p. p\<lparr>wp_reuse_gain_seconds := v\<rparr>) p3;
     p5 \<leftarrow> env_override ''warming'' (env_finite env ''FREELLAMA_KEEP_ALIVE_LOAD_MULTIPLIER'')
             (\<lambda>v p. p\<lparr>wp_load_multiplier := v\<rparr>) p4;
     env_override ''warming'' (env_finite env ''FREELLAMA_KEEP_ALIVE_PRESSURE_FACTOR'')
       (\<lambda>v p. p\<lparr>wp_pressure_factor := v\<rparr>) p5
   }"

definition nonzero_capacity :: "string \<Rightarrow> nat option" where
  "nonzero_capacity v = positive_only (parse_usize v)"

definition resolver ::
  "pinned_tunables \<Rightarrow> runtime_file \<Rightarrow> nat \<Rightarrow> (string \<Rightarrow> string option) \<Rightarrow> tunables resolver" where
  "resolver pinned file num_parallel env = do {
     concurrent \<leftarrow> pick ''max_concurrent_tasks'' (pt_max_concurrent_tasks pinned) env_none
       (positive_only (rf_max_concurrent_tasks file)) (parallel_units num_parallel) ''ollama_num_parallel'';
     cpu_concurrent \<leftarrow> pick ''cpu_max_concurrent_tasks'' (pt_cpu_max_concurrent_tasks pinned) env_none
       (positive_only (rf_cpu_max_concurrent_tasks file)) DEFAULT_CPU_MAX_CONCURRENT_TASKS ''default'';
     queued \<leftarrow> pick ''max_queued_tasks'' (pt_max_queued_tasks pinned) env_none
       (positive_only (rf_max_queued_tasks file)) DEFAULT_MAX_QUEUED_TASKS ''default'';
     cpu_queued \<leftarrow> pick ''cpu_max_queued_tasks'' (pt_cpu_max_queued_tasks pinned) env_none
       (positive_only (rf_cpu_max_queued_tasks file)) DEFAULT_CPU_MAX_QUEUED_TASKS ''default'';
     wait_ms \<leftarrow> pick ''max_queue_wait_ms'' (map_option pinned_wait_ms (pt_max_queue_wait pinned))
       (do { v \<leftarrow> env_positive env ''FREELLAMA_MAX_QUEUE_WAIT_SECONDS'';
             State_Monad.return (map_option seconds_to_ms v) })
       (map_option seconds_to_ms (positive_only (rf_max_queue_wait_seconds file))) 120000 ''default'';
     raw_wait \<leftarrow> pick ''raw_queue_wait_seconds'' (map_option (\<lambda>w. w div 1000000000) (pt_raw_queue_wait pinned))
       env_none (rf_raw_queue_wait_seconds file) 10 ''default'';
     raw_requests \<leftarrow> pick ''raw_max_concurrent_requests'' (pt_raw_max_concurrent_requests pinned) env_none
       (positive_only (rf_raw_max_concurrent_requests file)) 1 ''default'';
     pinned_models \<leftarrow> pick ''pinned_models'' None env_none (map_option set (rf_pinned_models file)) {} ''default'';
     evict \<leftarrow> pick ''evict_idle_models'' None (env_boolean env ''FREELLAMA_EVICT_IDLE_MODELS'')
       (rf_evict_idle_models file) True ''default'';
     costs \<leftarrow> pick ''eviction_costs'' None env_none (map_option usable_costs (rf_eviction_costs file)) [] ''default'';
     adaptive \<leftarrow> pick ''adaptive_concurrency'' None env_none (rf_adaptive_concurrency file) AdaptiveCpu ''default'';
     task_costs \<leftarrow> resolve_task_costs file;
     context_mode \<leftarrow> pick ''context_mode'' None env_none (rf_context_mode file) ContextOllamaDefault ''default'';
     ollama_context \<leftarrow> pick ''ollama_default_context'' None env_none
       (map_option Some (positive_only (rf_ollama_default_context file))) None ''probe'';
     auto_max \<leftarrow> pick ''auto_context_max'' None env_none (positive_only (rf_auto_context_max file)) 32768 ''default'';
     failures \<leftarrow> pick ''breaker_failures'' None env_none (rf_breaker_failures file) 3 ''default'';
     cooldown \<leftarrow> pick ''breaker_cooldown_seconds'' None env_none
       (positive_only (rf_breaker_cooldown_seconds file)) 15 ''default'';
     capacity \<leftarrow> pick ''usage_queue_capacity'' None
       (checked env ''FREELLAMA_USAGE_QUEUE_CAPACITY'' nonzero_capacity)
       (rf_usage_queue_capacity file) LEDGER_QUEUE_CAPACITY ''default'';
     scopes0 \<leftarrow> pick ''scopes'' None env_none (rf_scopes file) scope_policy_default ''default'';
     warming0 \<leftarrow> pick ''warming'' None env_none (rf_warming file) warming_policy_default ''default'';
     scopes \<leftarrow> scopes_from_env env scopes0;
     warming \<leftarrow> warming_from_env env warming0;
     State (\<lambda>r. (\<lparr>tn_max_concurrent_tasks = concurrent, tn_cpu_max_concurrent_tasks = cpu_concurrent,
        tn_max_queued_tasks = queued, tn_cpu_max_queued_tasks = cpu_queued, tn_max_queue_wait_ms = wait_ms,
        tn_raw_queue_wait_seconds = raw_wait, tn_raw_max_concurrent_requests = raw_requests,
        tn_pinned_models = pinned_models, tn_evict_idle_models = evict, tn_eviction_costs = costs,
        tn_adaptive_concurrency = adaptive, tn_task_costs = task_costs, tn_context_mode = context_mode,
        tn_ollama_default_context = ollama_context, tn_auto_context_max = auto_max,
        tn_usage_queue_capacity = capacity, tn_scopes = scopes, tn_warming = warming,
        tn_breaker_failures = failures, tn_breaker_cooldown_seconds = cooldown,
        tn_sources = rs_sources r, tn_env_warnings = rs_warnings r\<rparr>, r))
   }"

definition resolve ::
  "pinned_tunables \<Rightarrow> runtime_file \<Rightarrow> nat \<Rightarrow> (string \<Rightarrow> string option) \<Rightarrow> tunables" where
  "resolve pinned file num_parallel env =
     fst (run_state (resolver pinned file num_parallel env) \<lparr>rs_warnings = [], rs_sources = []\<rparr>)"

end
