(* ===== verification/Settings_Run.thy ===== *)
theory Settings_Run
  imports Settings
begin

text \<open>
  What a resolution gives: every setting is the strongest layer that has a usable value, its source
  is reported, and the variables that do not parse are listed; and the ranges that follow.
\<close>

section \<open>Layers\<close>

fun first_set :: "'a option list \<Rightarrow> 'a \<Rightarrow> 'a" where
  "first_set [] d = d"
| "first_set (Some v # vs) d = v"
| "first_set (None # vs) d = first_set vs d"

definition env_value :: "(string \<Rightarrow> string option) \<Rightarrow> string \<Rightarrow> (string \<Rightarrow> 'a option) \<Rightarrow> 'a option" where
  "env_value env name parse =
     (case env_raw env name of None \<Rightarrow> None | Some raw \<Rightarrow> if raw = [] then None else parse raw)"

definition env_bad :: "(string \<Rightarrow> string option) \<Rightarrow> string \<Rightarrow> (string \<Rightarrow> 'a option) \<Rightarrow> (string \<times> string) list" where
  "env_bad env name parse =
     (case env_raw env name of None \<Rightarrow> []
      | Some raw \<Rightarrow> if raw = [] \<or> parse raw \<noteq> None then [] else [(name, raw)])"

definition source_of :: "'a option \<Rightarrow> 'a option \<Rightarrow> bool \<Rightarrow> 'a option \<Rightarrow> string \<Rightarrow> string" where
  "source_of pinned from_env invalid file dflt_source =
     (if pinned \<noteq> None then ''cli'' else if from_env \<noteq> None then ''env''
      else if invalid then ''env_invalid'' else if file \<noteq> None then ''file'' else dflt_source)"

definition picked :: "string \<Rightarrow> string \<Rightarrow> (string \<times> string) list \<Rightarrow> resolution \<Rightarrow> resolution" where
  "picked key source bad r =
     r\<lparr>rs_warnings := rs_warnings r @ bad, rs_sources := bt_put key source (rs_sources r)\<rparr>"

lemma picked_simps [simp]:
  "rs_warnings (picked key source bad r) = rs_warnings r @ bad"
  "rs_sources (picked key source bad r) = bt_put key source (rs_sources r)"
  by (simp_all add: picked_def)

lemma run_bind: "run_state (State_Monad.bind m f) r = (case run_state m r of (a, r') \<Rightarrow> run_state (f a) r')"
  by (simp add: State_Monad.bind_def)

lemma run_checked:
  "run_state (checked env name parse) r =
     (env_value env name parse, r\<lparr>rs_warnings := rs_warnings r @ env_bad env name parse\<rparr>)"
  by (auto simp: checked_def env_value_def env_bad_def split: option.splits)

lemma env_bad_value: "env_value env name parse \<noteq> None \<Longrightarrow> env_bad env name parse = []"
  by (auto simp: env_value_def env_bad_def split: option.splits if_splits)

lemma run_pick_env:
  assumes "run_state fe r = (v, r\<lparr>rs_warnings := rs_warnings r @ bad\<rparr>)" "v \<noteq> None \<Longrightarrow> bad = []"
  shows "run_state (pick_env key fe file d ds) r =
    (first_set [v, file] d, picked key (source_of None v (bad \<noteq> []) file ds) bad r)"
  using assms
  by (cases v; cases "file")
     (auto simp: pick_env_def run_bind invalid_count_def note_source_def State_Monad.return_def
       picked_def source_of_def)

lemma run_pick_none:
  "run_state (pick key pinned env_none file d ds) r =
     (first_set [pinned, file] d, picked key (source_of pinned None False file ds) [] r)"
proof (cases pinned)
  case None
  have "run_state env_none r = (None, r\<lparr>rs_warnings := rs_warnings r @ []\<rparr>)"
    by (simp add: env_none_def State_Monad.return_def)
  from run_pick_env [OF this] show ?thesis using None by (simp add: pick_def)
next
  case (Some v)
  then show ?thesis
    by (simp add: pick_def run_bind note_source_def State_Monad.return_def picked_def source_of_def)
qed

lemma run_pick_checked:
  "run_state (pick key None (checked env name parse) file d ds) r =
     (first_set [env_value env name parse, file] d,
      picked key (source_of None (env_value env name parse) (env_bad env name parse \<noteq> []) file ds)
        (env_bad env name parse) r)"
proof -
  from run_pick_env [OF run_checked env_bad_value] show ?thesis by (simp add: pick_def)
qed

lemma run_pick_mapped:
  "run_state (pick key pinned (do { v \<leftarrow> checked env name parse; State_Monad.return (map_option g v) }) file d ds) r =
     (first_set [pinned, map_option g (env_value env name parse), file] d,
      picked key (source_of pinned (map_option g (env_value env name parse)) (env_bad env name parse \<noteq> []) file ds)
        (if pinned = None then env_bad env name parse else []) r)"
proof (cases pinned)
  case None
  let ?fe = "do { v \<leftarrow> checked env name parse; State_Monad.return (map_option g v) }"
  have "run_state ?fe r = (map_option g (env_value env name parse),
      r\<lparr>rs_warnings := rs_warnings r @ env_bad env name parse\<rparr>)"
    by (simp add: run_bind run_checked State_Monad.return_def)
  moreover have "map_option g (env_value env name parse) \<noteq> None \<Longrightarrow> env_bad env name parse = []"
    using env_bad_value [of env name parse] by simp
  ultimately have "run_state (pick_env key ?fe file d ds) r =
      (first_set [map_option g (env_value env name parse), file] d,
       picked key (source_of None (map_option g (env_value env name parse)) (env_bad env name parse \<noteq> []) file ds)
         (env_bad env name parse) r)"
    by (rule run_pick_env)
  then show ?thesis using None by (simp add: pick_def)
next
  case (Some v)
  then show ?thesis
    by (simp add: pick_def run_bind note_source_def State_Monad.return_def picked_def source_of_def)
qed

definition overridden :: "string \<Rightarrow> 'b option \<Rightarrow> (string \<times> string) list \<Rightarrow> resolution \<Rightarrow> resolution" where
  "overridden key v bad r =
     (let r' = r\<lparr>rs_warnings := rs_warnings r @ bad\<rparr>
      in if v = None then r' else r'\<lparr>rs_sources := bt_put key ''env'' (rs_sources r')\<rparr>)"

lemma overridden_simps [simp]:
  "rs_warnings (overridden key v bad r) = rs_warnings r @ bad"
  "rs_sources (overridden key v bad r) = (if v = None then rs_sources r else bt_put key ''env'' (rs_sources r))"
  by (simp_all add: overridden_def Let_def)

definition apply_override :: "('b \<Rightarrow> 'a \<Rightarrow> 'a) \<Rightarrow> 'b option \<Rightarrow> 'a \<Rightarrow> 'a" where
  "apply_override upd v p = (case v of None \<Rightarrow> p | Some x \<Rightarrow> upd x p)"

lemma run_override:
  "run_state (env_override key (checked env name parse) upd p) r =
     (apply_override upd (env_value env name parse) p,
      overridden key (env_value env name parse) (env_bad env name parse) r)"
  by (cases "env_value env name parse")
     (simp_all add: env_override_def run_bind run_checked State_Monad.return_def note_source_def
       overridden_def apply_override_def)

lemma run_task_costs:
  "run_state (resolve_task_costs file) r =
     (case rf_task_costs file of
        Some overrides \<Rightarrow> (fold (\<lambda>(t, c). bt_put t c) overrides default_task_costs, picked ''task_costs'' ''file'' [] r)
      | None \<Rightarrow> (default_task_costs, picked ''task_costs'' ''default'' [] r))"
  by (simp add: resolve_task_costs_def run_bind note_source_def State_Monad.return_def picked_def
      split: option.split)

lemmas env_readers = env_positive_def env_usize_positive_def env_number_def env_boolean_def env_finite_def
lemmas run_steps = run_bind run_pick_none run_pick_checked run_pick_mapped run_override run_task_costs

abbreviation pos_u64 :: "string \<Rightarrow> nat option" where "pos_u64 v \<equiv> positive_only (parse_u64 v)"
abbreviation pos_usize :: "string \<Rightarrow> nat option" where "pos_usize v \<equiv> positive_only (parse_usize v)"

section \<open>The values of a resolution\<close>

definition layered_scopes :: "(string \<Rightarrow> string option) \<Rightarrow> scope_policy option \<Rightarrow> scope_policy" where
  "layered_scopes env file_scopes =
     (let p = first_set [file_scopes] scope_policy_default
      in \<lparr>sp_max_count = first_set [env_value env ''FREELLAMA_SCOPE_MAX_COUNT'' pos_usize] (sp_max_count p),
          sp_max_messages = first_set [env_value env ''FREELLAMA_SCOPE_MAX_MESSAGES'' pos_usize] (sp_max_messages p),
          sp_max_bytes = first_set [env_value env ''FREELLAMA_SCOPE_MAX_BYTES'' pos_usize] (sp_max_bytes p),
          sp_max_tokens = first_set [env_value env ''FREELLAMA_SCOPE_MAX_ESTIMATED_TOKENS'' pos_u64] (sp_max_tokens p),
          sp_total_max_bytes =
            first_set [env_value env ''FREELLAMA_SCOPE_TOTAL_MAX_BYTES'' pos_usize] (sp_total_max_bytes p),
          sp_ttl_seconds = first_set [env_value env ''FREELLAMA_SCOPE_TTL_SECONDS'' pos_u64] (sp_ttl_seconds p)\<rparr>)"

definition layered_warming :: "(string \<Rightarrow> string option) \<Rightarrow> warming_policy option \<Rightarrow> warming_policy" where
  "layered_warming env file_warming =
     (let p = first_set [file_warming] warming_policy_default
      in \<lparr>wp_min_seconds = first_set [env_value env ''FREELLAMA_KEEP_ALIVE_MIN_SECONDS'' pos_u64] (wp_min_seconds p),
          wp_max_seconds = first_set [env_value env ''FREELLAMA_KEEP_ALIVE_MAX_SECONDS'' pos_u64] (wp_max_seconds p),
          wp_base_seconds = first_set [env_value env ''FREELLAMA_KEEP_ALIVE_BASE_SECONDS'' pos_u64] (wp_base_seconds p),
          wp_reuse_gain_seconds =
            first_set [env_value env ''FREELLAMA_KEEP_ALIVE_REUSE_GAIN_SECONDS'' parse_u64] (wp_reuse_gain_seconds p),
          wp_load_multiplier =
            first_set [env_value env ''FREELLAMA_KEEP_ALIVE_LOAD_MULTIPLIER'' parse_f64] (wp_load_multiplier p),
          wp_pressure_factor =
            first_set [env_value env ''FREELLAMA_KEEP_ALIVE_PRESSURE_FACTOR'' parse_f64] (wp_pressure_factor p)\<rparr>)"

lemma first_set_one: "first_set [v] d = (case v of None \<Rightarrow> d | Some x \<Rightarrow> x)"
  by (cases v) simp_all

lemma run_scopes: "fst (run_state (scopes_from_env env p) r) = layered_scopes env (Some p)"
  by (simp add: scopes_from_env_def env_readers run_steps layered_scopes_def apply_override_def
      first_set_one split: option.split)

lemma run_warming: "fst (run_state (warming_from_env env p) r) = layered_warming env (Some p)"
  by (simp add: warming_from_env_def env_readers run_steps layered_warming_def apply_override_def
      first_set_one split: option.split)

lemma layered_file: "layered_scopes env (Some (first_set [f] scope_policy_default)) = layered_scopes env f"
  by (simp add: layered_scopes_def)

lemma layered_file': "layered_warming env (Some (first_set [f] warming_policy_default)) = layered_warming env f"
  by (simp add: layered_warming_def)

definition scope_variables :: "(string \<Rightarrow> string option) \<Rightarrow> (string \<times> string) list" where
  "scope_variables env =
     env_bad env ''FREELLAMA_SCOPE_MAX_COUNT'' pos_usize @ env_bad env ''FREELLAMA_SCOPE_MAX_MESSAGES'' pos_usize @
     env_bad env ''FREELLAMA_SCOPE_MAX_BYTES'' pos_usize @
     env_bad env ''FREELLAMA_SCOPE_MAX_ESTIMATED_TOKENS'' pos_u64 @
     env_bad env ''FREELLAMA_SCOPE_TOTAL_MAX_BYTES'' pos_usize @ env_bad env ''FREELLAMA_SCOPE_TTL_SECONDS'' pos_u64"

definition warming_variables :: "(string \<Rightarrow> string option) \<Rightarrow> (string \<times> string) list" where
  "warming_variables env =
     env_bad env ''FREELLAMA_KEEP_ALIVE_MIN_SECONDS'' pos_u64 @ env_bad env ''FREELLAMA_KEEP_ALIVE_MAX_SECONDS'' pos_u64 @
     env_bad env ''FREELLAMA_KEEP_ALIVE_BASE_SECONDS'' pos_u64 @
     env_bad env ''FREELLAMA_KEEP_ALIVE_REUSE_GAIN_SECONDS'' parse_u64 @
     env_bad env ''FREELLAMA_KEEP_ALIVE_LOAD_MULTIPLIER'' parse_f64 @
     env_bad env ''FREELLAMA_KEEP_ALIVE_PRESSURE_FACTOR'' parse_f64"

lemma scopes_state:
  "rs_warnings (snd (run_state (scopes_from_env env p) r)) = rs_warnings r @ scope_variables env"
  "k \<noteq> ''scopes'' \<Longrightarrow> bt_get (rs_sources (snd (run_state (scopes_from_env env p) r))) k = bt_get (rs_sources r) k"
  by (simp_all add: scopes_from_env_def env_readers run_steps scope_variables_def)

lemma warming_state:
  "rs_warnings (snd (run_state (warming_from_env env p) r)) = rs_warnings r @ warming_variables env"
  "k \<noteq> ''warming'' \<Longrightarrow> bt_get (rs_sources (snd (run_state (warming_from_env env p) r))) k = bt_get (rs_sources r) k"
  by (simp_all add: warming_from_env_def env_readers run_steps warming_variables_def)

lemma nonzero_capacity_eq: "nonzero_capacity = (\<lambda>v. positive_only (parse_usize v))"
  by (rule ext) (simp add: nonzero_capacity_def)

lemmas run_resolver = resolve_def resolver_def env_readers run_steps case_prod_unfold run_scopes run_warming
  layered_file layered_file'

text \<open>The resolution is evaluated once; the facts about single settings project from it.\<close>

definition resolved_values :: "pinned_tunables \<Rightarrow> runtime_file \<Rightarrow> nat \<Rightarrow> environ \<Rightarrow> tunables" where
  "resolved_values pinned cf np env =
     \<lparr>tn_max_concurrent_tasks =
        first_set [pt_max_concurrent_tasks pinned, positive_only (rf_max_concurrent_tasks cf)] (parallel_units np),
      tn_cpu_max_concurrent_tasks =
        first_set [pt_cpu_max_concurrent_tasks pinned, positive_only (rf_cpu_max_concurrent_tasks cf)] 1,
      tn_max_queued_tasks = first_set [pt_max_queued_tasks pinned, positive_only (rf_max_queued_tasks cf)] 16,
      tn_cpu_max_queued_tasks =
        first_set [pt_cpu_max_queued_tasks pinned, positive_only (rf_cpu_max_queued_tasks cf)] 8,
      tn_max_queue_wait_ms =
        first_set [map_option pinned_wait_ms (pt_max_queue_wait pinned),
          map_option seconds_to_ms (env_value env ''FREELLAMA_MAX_QUEUE_WAIT_SECONDS'' pos_u64),
          map_option seconds_to_ms (positive_only (rf_max_queue_wait_seconds cf))] 120000,
      tn_raw_queue_wait_seconds =
        first_set [map_option (\<lambda>w. w div 1000000000) (pt_raw_queue_wait pinned), rf_raw_queue_wait_seconds cf] 10,
      tn_raw_max_concurrent_requests =
        first_set [pt_raw_max_concurrent_requests pinned, positive_only (rf_raw_max_concurrent_requests cf)] 1,
      tn_pinned_models = first_set [map_option set (rf_pinned_models cf)] {},
      tn_evict_idle_models =
        first_set [env_value env ''FREELLAMA_EVICT_IDLE_MODELS'' parse_boolean, rf_evict_idle_models cf] True,
      tn_eviction_costs = first_set [map_option usable_costs (rf_eviction_costs cf)] [],
      tn_adaptive_concurrency = first_set [rf_adaptive_concurrency cf] AdaptiveCpu,
      tn_task_costs = (case rf_task_costs cf of None \<Rightarrow> default_task_costs
        | Some costs \<Rightarrow> fold (\<lambda>(t, c). bt_put t c) costs default_task_costs),
      tn_context_mode = first_set [rf_context_mode cf] ContextOllamaDefault,
      tn_ollama_default_context = positive_only (rf_ollama_default_context cf),
      tn_auto_context_max = first_set [positive_only (rf_auto_context_max cf)] 32768,
      tn_usage_queue_capacity =
        first_set [env_value env ''FREELLAMA_USAGE_QUEUE_CAPACITY'' pos_usize, rf_usage_queue_capacity cf] 128,
      tn_scopes = layered_scopes env (rf_scopes cf),
      tn_warming = layered_warming env (rf_warming cf),
      tn_breaker_failures = first_set [rf_breaker_failures cf] 3,
      tn_breaker_cooldown_seconds = first_set [positive_only (rf_breaker_cooldown_seconds cf)] 15,
      tn_sources = [], tn_env_warnings = []\<rparr>"

lemma first_set_Some: "first_set [map_option Some v, None] None = v" "first_set [map_option Some v] None = v"
  by (cases v; simp)+

lemma resolve_fields:
  "(resolve pinned cf np env)\<lparr>tn_sources := [], tn_env_warnings := []\<rparr> = resolved_values pinned cf np env"
  by (simp add: run_resolver resolved_values_def nonzero_capacity_eq first_set_Some LEDGER_QUEUE_CAPACITY_def
      DEFAULT_CPU_MAX_CONCURRENT_TASKS_def DEFAULT_MAX_QUEUED_TASKS_def DEFAULT_CPU_MAX_QUEUED_TASKS_def
      split: option.split)

lemma resolve_capacities:
  fixes pinned :: pinned_tunables and cf :: runtime_file and np env
  defines "r \<equiv> resolve pinned cf np env"
  shows "tn_max_concurrent_tasks r =
      first_set [pt_max_concurrent_tasks pinned, positive_only (rf_max_concurrent_tasks cf)] (parallel_units np)"
    "tn_cpu_max_concurrent_tasks r =
      first_set [pt_cpu_max_concurrent_tasks pinned, positive_only (rf_cpu_max_concurrent_tasks cf)] 1"
    "tn_max_queued_tasks r = first_set [pt_max_queued_tasks pinned, positive_only (rf_max_queued_tasks cf)] 16"
    "tn_cpu_max_queued_tasks r =
      first_set [pt_cpu_max_queued_tasks pinned, positive_only (rf_cpu_max_queued_tasks cf)] 8"
    "tn_raw_max_concurrent_requests r =
      first_set [pt_raw_max_concurrent_requests pinned, positive_only (rf_raw_max_concurrent_requests cf)] 1"
    "tn_auto_context_max r = first_set [positive_only (rf_auto_context_max cf)] 32768"
    "tn_breaker_cooldown_seconds r = first_set [positive_only (rf_breaker_cooldown_seconds cf)] 15"
    "tn_breaker_failures r = first_set [rf_breaker_failures cf] 3"
  using resolve_fields [of pinned cf np env] unfolding r_def resolved_values_def
  by (cases "resolve pinned cf np env"; simp)+

lemma resolve_environment:
  fixes pinned :: pinned_tunables and cf :: runtime_file and np env
  defines "r \<equiv> resolve pinned cf np env"
  shows "tn_max_queue_wait_ms r =
      first_set [map_option pinned_wait_ms (pt_max_queue_wait pinned),
        map_option seconds_to_ms (env_value env ''FREELLAMA_MAX_QUEUE_WAIT_SECONDS'' pos_u64),
        map_option seconds_to_ms (positive_only (rf_max_queue_wait_seconds cf))] 120000"
    "tn_evict_idle_models r =
      first_set [env_value env ''FREELLAMA_EVICT_IDLE_MODELS'' parse_boolean, rf_evict_idle_models cf] True"
    "tn_usage_queue_capacity r =
      first_set [env_value env ''FREELLAMA_USAGE_QUEUE_CAPACITY'' pos_usize, rf_usage_queue_capacity cf] 128"
    "tn_scopes r = layered_scopes env (rf_scopes cf)"
    "tn_warming r = layered_warming env (rf_warming cf)"
    "tn_eviction_costs r = first_set [map_option usable_costs (rf_eviction_costs cf)] []"
    "tn_task_costs r = (case rf_task_costs cf of None \<Rightarrow> default_task_costs
       | Some costs \<Rightarrow> fold (\<lambda>(t, c). bt_put t c) costs default_task_costs)"
  using resolve_fields [of pinned cf np env] unfolding r_def resolved_values_def
  by (cases "resolve pinned cf np env"; simp)+

text \<open>
  Every setting is taken from the strongest layer that has a usable value: the command line, the
  environment where the setting has a variable, the file, the default; a variable overrides one field
  of a policy and leaves the others to the file. The reported source is that layer, \<open>env_invalid\<close> when
  a set variable did not parse, and the warnings are exactly the set variables that do not parse.
\<close>

theorem settings_are_layered:
  fixes pinned :: pinned_tunables and cf :: runtime_file and np env
  defines "r \<equiv> resolve pinned cf np env"
    and "wait \<equiv> map_option seconds_to_ms (env_value env ''FREELLAMA_MAX_QUEUE_WAIT_SECONDS'' pos_u64)"
    and "wait_bad \<equiv> env_bad env ''FREELLAMA_MAX_QUEUE_WAIT_SECONDS'' pos_u64"
    and "wait_file \<equiv> map_option seconds_to_ms (positive_only (rf_max_queue_wait_seconds cf))"
  shows "tn_max_concurrent_tasks r = first_set
      [pt_max_concurrent_tasks pinned, positive_only (rf_max_concurrent_tasks cf)] (parallel_units np) \<and>
    tn_max_queue_wait_ms r =
      first_set [map_option pinned_wait_ms (pt_max_queue_wait pinned), wait, wait_file] 120000 \<and>
    tn_evict_idle_models r = first_set
      [env_value env ''FREELLAMA_EVICT_IDLE_MODELS'' parse_boolean, rf_evict_idle_models cf] True \<and>
    tn_scopes r = layered_scopes env (rf_scopes cf) \<and>
    tn_warming r = layered_warming env (rf_warming cf) \<and>
    bt_get (tn_sources r) ''max_queue_wait_ms'' = Some (source_of
      (map_option pinned_wait_ms (pt_max_queue_wait pinned)) wait (wait_bad \<noteq> []) wait_file ''default'') \<and>
    tn_env_warnings r = (if pt_max_queue_wait pinned = None then wait_bad else []) @
      env_bad env ''FREELLAMA_EVICT_IDLE_MODELS'' parse_boolean @
      env_bad env ''FREELLAMA_USAGE_QUEUE_CAPACITY'' pos_usize @ scope_variables env @ warming_variables env"
proof -
  have "bt_get (tn_sources r) ''max_queue_wait_ms'' = Some (source_of
      (map_option pinned_wait_ms (pt_max_queue_wait pinned)) wait (wait_bad \<noteq> []) wait_file ''default'')"
    unfolding r_def wait_def wait_bad_def wait_file_def
    by (simp add: run_resolver scopes_state warming_state split: option.split)
  moreover have "tn_env_warnings r = (if pt_max_queue_wait pinned = None then wait_bad else []) @
      env_bad env ''FREELLAMA_EVICT_IDLE_MODELS'' parse_boolean @
      env_bad env ''FREELLAMA_USAGE_QUEUE_CAPACITY'' pos_usize @ scope_variables env @ warming_variables env"
    unfolding r_def wait_bad_def
    by (simp add: run_resolver scopes_state warming_state nonzero_capacity_eq split: option.split)
  ultimately show ?thesis
    by (simp add: r_def wait_def wait_file_def resolve_capacities resolve_environment)
qed

section \<open>Ranges\<close>

text \<open>What the types of the file promise: the \<open>NonZero\<close> fields are positive.\<close>

definition file_typed :: "runtime_file \<Rightarrow> bool" where
  "file_typed cf \<longleftrightarrow>
     (case rf_usage_queue_capacity cf of None \<Rightarrow> True | Some n \<Rightarrow> 0 < n) \<and>
     (case rf_task_costs cf of None \<Rightarrow> True | Some costs \<Rightarrow> list_all (\<lambda>(_, c). 0 < c) costs)"

definition pinned_positive :: "pinned_tunables \<Rightarrow> bool" where
  "pinned_positive p \<longleftrightarrow>
     list_all (\<lambda>v. v \<noteq> Some 0) [pt_max_concurrent_tasks p, pt_cpu_max_concurrent_tasks p,
       pt_max_queued_tasks p, pt_cpu_max_queued_tasks p, pt_raw_max_concurrent_requests p]"

definition tunables_in_range :: "tunables \<Rightarrow> bool" where
  "tunables_in_range t \<longleftrightarrow>
     0 < tn_max_concurrent_tasks t \<and> 0 < tn_cpu_max_concurrent_tasks t \<and> 0 < tn_max_queued_tasks t \<and>
     0 < tn_cpu_max_queued_tasks t \<and> 0 < tn_raw_max_concurrent_requests t \<and> 0 < tn_max_queue_wait_ms t \<and>
     0 < tn_auto_context_max t \<and> 0 < tn_breaker_cooldown_seconds t \<and> 0 < tn_usage_queue_capacity t \<and>
     (\<forall>task. 0 < task_cost t task) \<and>
     list_all (\<lambda>(_, w). is_finite w \<and> f_le f_zero w) (tn_eviction_costs t)"

lemma positive_only_pos: "positive_only v \<noteq> Some 0"
  by (cases v) (simp_all add: positive_only_def)

lemma first_set_pos: "list_all (\<lambda>v. v \<noteq> Some 0) vs \<Longrightarrow> 0 < d \<Longrightarrow> 0 < first_set vs (d :: nat)"
  by (induction vs d rule: first_set.induct) auto

lemma env_value_pos: "(\<And>s. parse s \<noteq> Some 0) \<Longrightarrow> env_value env name parse \<noteq> Some 0"
  by (auto simp: env_value_def split: option.splits)

lemma seconds_to_ms_pos: "map_option seconds_to_ms v = Some 0 \<longleftrightarrow> v = Some 0"
  by (cases v) (auto simp: seconds_to_ms_def sat_mul_def u64_max_def)

lemma default_cost_pos: "0 < default_task_cost task"
  by (cases task) (simp_all add: default_task_cost_def)

lemma default_costs_get: "bt_get default_task_costs task = Some (default_task_cost task)"
  by (cases task) (simp_all add: default_task_costs_def all_task_kinds_def del: bt_put.simps)

lemma put_costs_pos:
  assumes "list_all (\<lambda>(_, c). 0 < c) costs" "\<forall>t c. bt_get m t = Some c \<longrightarrow> 0 < c"
  shows "\<forall>t c. bt_get (fold (\<lambda>(t, c). bt_put t c) costs m) t = Some c \<longrightarrow> 0 < (c :: nat)"
  using assms
proof (induction costs arbitrary: m)
  case (Cons kv costs)
  obtain t0 c0 where kv: "kv = (t0, c0)" by (cases kv)
  have "\<forall>t c. bt_get (bt_put t0 c0 m) t = Some c \<longrightarrow> 0 < c"
    using Cons.prems kv by (simp add: fun_upd_apply del: bt_put.simps)
  from Cons.IH [OF _ this] show ?case using Cons.prems by (simp add: kv)
qed simp

lemma usable_costs_ok: "list_all (\<lambda>(_, w). is_finite w \<and> f_le f_zero w) (usable_costs costs)"
  by (auto simp: usable_costs_def bt_retain_def list_all_iff)

lemma resolve_in_range:
  assumes pinned: "pinned_positive pinned" and cf: "file_typed cf"
  shows "tunables_in_range (resolve pinned cf np env)"
proof -
  have wait: "0 < pinned_wait_ms w" for w by (simp add: pinned_wait_ms_def)
  then have pw: "map_option pinned_wait_ms v \<noteq> Some 0" for v by (cases v) auto
  have units: "0 < parallel_units np" by (simp add: parallel_units_def sat_mul_def u64_max_def)
  have ew: "env_value env ''FREELLAMA_MAX_QUEUE_WAIT_SECONDS'' pos_u64 \<noteq> Some 0"
    and ec: "env_value env ''FREELLAMA_USAGE_QUEUE_CAPACITY'' pos_usize \<noteq> Some 0"
    by (rule env_value_pos, rule positive_only_pos)+
  have fc: "rf_usage_queue_capacity cf \<noteq> Some 0" using cf by (auto simp: file_typed_def)
  have costs: "0 < task_cost (resolve pinned cf np env) task" for task
  proof (cases "rf_task_costs cf")
    case None
    then show ?thesis
      by (simp add: task_cost_def resolve_environment default_costs_get default_cost_pos)
  next
    case (Some costs)
    have "\<forall>t c. bt_get (fold (\<lambda>(t, c). bt_put t c) costs default_task_costs) t = Some c \<longrightarrow> 0 < c"
      by (rule put_costs_pos) (use cf Some in \<open>auto simp: file_typed_def default_costs_get default_cost_pos\<close>)
    then show ?thesis using Some
      by (auto simp: task_cost_def resolve_environment default_cost_pos split: option.split)
  qed
  have weights: "list_all (\<lambda>(_, w). is_finite w \<and> f_le f_zero w) (tn_eviction_costs (resolve pinned cf np env))"
    by (cases "rf_eviction_costs cf") (simp_all add: resolve_environment usable_costs_ok)
  have "0 < tn_max_queue_wait_ms (resolve pinned cf np env)"
    unfolding resolve_environment
    by (rule first_set_pos) (simp_all only: list.pred_inject seconds_to_ms_pos pw ew positive_only_pos, simp_all)
  moreover have "0 < tn_usage_queue_capacity (resolve pinned cf np env)"
    unfolding resolve_environment by (rule first_set_pos) (use ec fc in simp_all)
  ultimately show ?thesis
    using pinned costs weights units
    by (simp add: tunables_in_range_def resolve_capacities pinned_positive_def first_set_pos positive_only_pos)
qed

end
