(* ===== verification/Settings_Reload.thy ===== *)
theory Settings_Reload
  imports Settings_Run
begin

text \<open>
  The live settings (\<open>platform/runtime/settings.rs\<close>): startup, and the reload of the configuration
  file. A reload is four critical sections: it looks at the modification time, reads the file,
  records the outcome under the status lock, and publishes the new values under the lock of the
  values. Several reloads (the poller of \<open>serve\<close> and requests to \<open>config/reload\<close>) may interleave
  and the file may be edited at any time. The TOML parser \<open>parse\<close> is an argument.
\<close>

section \<open>The file\<close>

datatype settings_error =
  NoFile | LoadFailed string | ScopesInvalid | WarmingInvalid | CapacityFixed | BadCapacity

record config_file =
  cf_exists :: bool
  cf_modified :: "nat option"
  cf_text :: "string + string"

type_synonym toml = "string \<Rightarrow> string + runtime_file"

definition load_failed :: "string + 'a \<Rightarrow> settings_error + 'a" where
  "load_failed r = (case r of Inl e \<Rightarrow> Inl (LoadFailed e) | Inr v \<Rightarrow> Inr v)"

definition policy_ok :: "('a \<Rightarrow> bool) \<Rightarrow> 'a option \<Rightarrow> bool" where
  "policy_ok valid p = (case p of None \<Rightarrow> True | Some q \<Rightarrow> valid q)"

definition runtime_file_load :: "toml \<Rightarrow> config_file \<Rightarrow> settings_error + runtime_file" where
  "runtime_file_load parse cf =
     and_then (load_failed (cf_text cf)) (\<lambda>content.
     and_then (load_failed (parse content)) (\<lambda>f.
     and_then (ensure (policy_ok scope_policy_valid (rf_scopes f)) ScopesInvalid) (\<lambda>_.
     and_then (ensure (policy_ok warming_policy_valid (rf_warming f)) WarmingInvalid) (\<lambda>_. Inr f))))"

definition read_config :: "toml \<Rightarrow> config_file \<Rightarrow> settings_error + runtime_file" where
  "read_config parse cf = (if cf_exists cf then runtime_file_load parse cf else Inr runtime_file_default)"

definition policies_validate :: "tunables \<Rightarrow> settings_error + unit" where
  "policies_validate t =
     and_then (ensure (scope_policy_valid (tn_scopes t)) ScopesInvalid)
       (\<lambda>_. ensure (warming_policy_valid (tn_warming t)) WarmingInvalid)"

section \<open>Startup\<close>

record settings =
  st_current :: tunables
  st_pinned :: pinned_tunables
  st_file :: "string option"
  st_num_parallel :: nat
  st_modified :: "nat option"
  st_reloads :: nat
  st_last_error :: "settings_error option"
  st_last_reload_unix :: "nat option"

definition settings_new ::
  "toml \<Rightarrow> environ \<Rightarrow> pinned_tunables \<Rightarrow> string option \<Rightarrow> nat \<Rightarrow> config_file \<Rightarrow> settings_error + settings" where
  "settings_new parse env pinned path np cf =
     and_then (if path = None then Inr runtime_file_default else read_config parse cf) (\<lambda>parsed.
     and_then (ensure (case env ''FREELLAMA_USAGE_QUEUE_CAPACITY'' of None \<Rightarrow> True
                       | Some v \<Rightarrow> nonzero_capacity (str_trim v) \<noteq> None) BadCapacity) (\<lambda>_.
     let t = resolve pinned parsed np env
     in and_then (policies_validate t) (\<lambda>_.
          Inr \<lparr>st_current = t, st_pinned = pinned, st_file = path, st_num_parallel = np,
               st_modified = (if path = None then None else cf_modified cf), st_reloads = 0,
               st_last_error = None, st_last_reload_unix = None\<rparr>)))"

section \<open>Reload\<close>

datatype reload_start = Refused settings_error | Unchanged | Proceed "nat option"

definition reload_start :: "bool \<Rightarrow> config_file \<Rightarrow> settings \<Rightarrow> reload_start" where
  "reload_start force cf s =
     (if st_file s = None then (if force then Refused NoFile else Unchanged)
      else if \<not> force \<and> st_modified s = cf_modified cf then Unchanged
      else Proceed (cf_modified cf))"

definition fail_reload :: "settings_error \<Rightarrow> settings \<Rightarrow> (settings_error + 'a) \<times> settings" where
  "fail_reload e s = (Inl e, s\<lparr>st_last_error := Some e\<rparr>)"

definition reload_decide ::
  "environ \<Rightarrow> nat \<Rightarrow> nat option \<Rightarrow> settings_error + runtime_file \<Rightarrow> settings \<Rightarrow> (settings_error + tunables) \<times> settings" where
  "reload_decide env now modified parsed s =
     (let s1 = s\<lparr>st_modified := modified\<rparr>
      in case parsed of
           Inl e \<Rightarrow> fail_reload e s1
         | Inr f \<Rightarrow>
             (let t = resolve (st_pinned s) f (st_num_parallel s) env
              in case policies_validate t of
                   Inl e \<Rightarrow> fail_reload e s1
                 | Inr _ \<Rightarrow>
                     if tn_usage_queue_capacity t \<noteq> tn_usage_queue_capacity (st_current s)
                     then fail_reload CapacityFixed s1
                     else (Inr t, s1\<lparr>st_last_error := None, st_reloads := st_reloads s1 + 1,
                                      st_last_reload_unix := Some now\<rparr>)))"

definition reload_publish :: "tunables \<Rightarrow> settings \<Rightarrow> tunables option \<times> settings" where
  "reload_publish t s =
     (if st_current s = t then (None, s) else (Some t, s\<lparr>st_current := t\<rparr>))"

definition reload ::
  "toml \<Rightarrow> environ \<Rightarrow> nat \<Rightarrow> bool \<Rightarrow> config_file \<Rightarrow> settings \<Rightarrow> (settings_error + tunables option) \<times> settings" where
  "reload parse env now force cf s =
     (case reload_start force cf s of
        Refused e \<Rightarrow> (Inl e, s)
      | Unchanged \<Rightarrow> (Inr None, s)
      | Proceed modified \<Rightarrow>
          (case reload_decide env now modified (read_config parse cf) s of
             (Inl e, s1) \<Rightarrow> (Inl e, s1)
           | (Inr t, s1) \<Rightarrow> (case reload_publish t s1 of (r, s2) \<Rightarrow> (Inr r, s2))))"

section \<open>Concurrent reloads\<close>

datatype phase =
    Idle
  | Stated "nat option"
  | Parsed "nat option" "settings_error + runtime_file"
  | Decided tunables

record plant =
  pl_settings :: settings
  pl_disk :: config_file
  pl_phase :: "nat \<Rightarrow> phase"

datatype reload_event = Edit config_file | Start nat bool | ReadFile nat | Decide nat nat | Publish nat

definition set_phase :: "nat \<Rightarrow> phase \<Rightarrow> plant \<Rightarrow> plant" where
  "set_phase i p w = w\<lparr>pl_phase := (pl_phase w)(i := p)\<rparr>"

fun reload_step :: "toml \<Rightarrow> environ \<Rightarrow> plant \<Rightarrow> reload_event \<Rightarrow> plant" where
  "reload_step parse env w (Edit cf) = w\<lparr>pl_disk := cf\<rparr>"
| "reload_step parse env w (Start i force) =
     (case (pl_phase w i, reload_start force (pl_disk w) (pl_settings w)) of
        (Idle, Proceed modified) \<Rightarrow> set_phase i (Stated modified) w
      | _ \<Rightarrow> w)"
| "reload_step parse env w (ReadFile i) =
     (case pl_phase w i of
        Stated modified \<Rightarrow> set_phase i (Parsed modified (read_config parse (pl_disk w))) w
      | _ \<Rightarrow> w)"
| "reload_step parse env w (Decide i now) =
     (case pl_phase w i of
        Parsed modified parsed \<Rightarrow>
          (case reload_decide env now modified parsed (pl_settings w) of
             (Inl e, s) \<Rightarrow> set_phase i Idle (w\<lparr>pl_settings := s\<rparr>)
           | (Inr t, s) \<Rightarrow> set_phase i (Decided t) (w\<lparr>pl_settings := s\<rparr>))
      | _ \<Rightarrow> w)"
| "reload_step parse env w (Publish i) =
     (case pl_phase w i of
        Decided t \<Rightarrow> set_phase i Idle (w\<lparr>pl_settings := snd (reload_publish t (pl_settings w))\<rparr>)
      | _ \<Rightarrow> w)"

definition plant_of :: "settings \<Rightarrow> config_file \<Rightarrow> plant" where
  "plant_of s cf = \<lparr>pl_settings = s, pl_disk = cf, pl_phase = (\<lambda>_. Idle)\<rparr>"

section \<open>Facts\<close>

text \<open>The parser returns values of the fields' types.\<close>

definition parse_typed :: "toml \<Rightarrow> bool" where
  "parse_typed parse \<longleftrightarrow> (\<forall>content f. parse content = Inr f \<longrightarrow> file_typed f)"

lemma read_config_typed: "parse_typed parse \<Longrightarrow> read_config parse cf = Inr f \<Longrightarrow> file_typed f"
  by (auto simp: read_config_def runtime_file_load_def load_failed_def parse_typed_def and_then_Inr
      runtime_file_default_def file_typed_def split: if_splits sum.splits)

lemma policies_validate_ok:
  "policies_validate t = Inr u \<longleftrightarrow> scope_policy_valid (tn_scopes t) \<and> warming_policy_valid (tn_warming t)"
  by (auto simp: policies_validate_def and_then_Inr)

definition live_ok :: "nat \<Rightarrow> tunables \<Rightarrow> bool" where
  "live_ok capacity t \<longleftrightarrow> tunables_in_range t \<and> scope_policy_valid (tn_scopes t) \<and>
     warming_policy_valid (tn_warming t) \<and> tn_usage_queue_capacity t = capacity"

fun phase_ok :: "nat \<Rightarrow> phase \<Rightarrow> bool" where
  "phase_ok capacity (Decided t) = live_ok capacity t"
| "phase_ok capacity (Parsed _ (Inr f)) = file_typed f"
| "phase_ok capacity _ = True"

definition plant_ok :: "nat \<Rightarrow> plant \<Rightarrow> bool" where
  "plant_ok capacity w \<longleftrightarrow> live_ok capacity (st_current (pl_settings w)) \<and>
     pinned_positive (st_pinned (pl_settings w)) \<and> (\<forall>i. phase_ok capacity (pl_phase w i))"

lemma set_phase_ok:
  "plant_ok capacity w \<Longrightarrow> phase_ok capacity p \<Longrightarrow> plant_ok capacity (set_phase i p w)"
  by (auto simp: plant_ok_def set_phase_def)

lemma decide_keeps:
  assumes "reload_decide env now modified parsed s = (r, s')"
  shows "st_current s' = st_current s \<and> st_pinned s' = st_pinned s"
  using assms by (auto simp: reload_decide_def fail_reload_def Let_def split: sum.splits if_splits)

lemma decide_ok:
  assumes "reload_decide env now modified parsed s = (Inr t, s')" "pinned_positive (st_pinned s)"
    "live_ok capacity (st_current s)" "phase_ok capacity (Parsed modified parsed)"
  shows "live_ok capacity t"
proof -
  obtain f where f: "parsed = Inr f" "t = resolve (st_pinned s) f (st_num_parallel s) env"
    and v: "scope_policy_valid (tn_scopes t)" "warming_policy_valid (tn_warming t)"
    and c: "tn_usage_queue_capacity t = tn_usage_queue_capacity (st_current s)"
    using assms(1)
    by (auto simp: reload_decide_def fail_reload_def Let_def policies_validate_ok split: sum.splits if_splits)
  have "tunables_in_range t" unfolding f(2) by (rule resolve_in_range) (use assms f in simp_all)
  then show ?thesis using v c assms(3) by (simp add: live_ok_def)
qed

lemma reload_step_ok:
  assumes typed: "parse_typed parse" and ok: "plant_ok capacity w"
  shows "plant_ok capacity (reload_step parse env w e)"
proof (cases e)
  case (Edit cf)
  then show ?thesis using ok by (simp add: plant_ok_def)
next
  case (Start i force)
  then show ?thesis using ok
    by (auto intro!: set_phase_ok split: phase.split reload_start.split)
next
  case (ReadFile i)
  show ?thesis
  proof (cases "pl_phase w i")
    case (Stated modified)
    have "phase_ok capacity (Parsed modified (read_config parse (pl_disk w)))"
      using read_config_typed [OF typed] by (cases "read_config parse (pl_disk w)") simp_all
    then show ?thesis using ReadFile Stated ok by (simp add: set_phase_ok)
  qed (use ReadFile ok in simp_all)
next
  case (Decide i now)
  show ?thesis
  proof (cases "pl_phase w i")
    case (Parsed modified parsed)
    obtain r s where d: "reload_decide env now modified parsed (pl_settings w) = (r, s)" by fastforce
    have p: "phase_ok capacity (Parsed modified parsed)" using ok Parsed unfolding plant_ok_def by metis
    have base: "plant_ok capacity (w\<lparr>pl_settings := s\<rparr>)" using decide_keeps [OF d] ok by (simp add: plant_ok_def)
    show ?thesis
    proof (cases r)
      case (Inl err)
      then show ?thesis using Decide Parsed d base by (simp add: set_phase_ok)
    next
      case (Inr t)
      have "live_ok capacity t"
        by (rule decide_ok [OF d [unfolded Inr] _ _ p]) (use ok in \<open>simp_all add: plant_ok_def\<close>)
      then show ?thesis using Decide Parsed d base Inr by (simp add: set_phase_ok)
    qed
  qed (use Decide ok in simp_all)
next
  case (Publish i)
  show ?thesis
  proof (cases "pl_phase w i")
    case (Decided t)
    then have "live_ok capacity t" using ok unfolding plant_ok_def by (metis phase_ok.simps(1))
    then have "plant_ok capacity (w\<lparr>pl_settings := snd (reload_publish t (pl_settings w))\<rparr>)"
      using ok by (auto simp: plant_ok_def reload_publish_def)
    then show ?thesis using Publish Decided by (simp add: set_phase_ok)
  qed (use Publish ok in simp_all)
qed

lemma startup_ok:
  assumes typed: "parse_typed parse" and pinned: "pinned_positive pinned"
    and s: "settings_new parse env pinned path np cf = Inr s"
  shows "plant_ok (tn_usage_queue_capacity (st_current s)) (plant_of s cf)"
proof -
  obtain f where f: "(if path = None then Inr runtime_file_default else read_config parse cf) = Inr f"
    and t: "st_current s = resolve pinned f np env" and p: "st_pinned s = pinned"
    and v: "scope_policy_valid (tn_scopes (st_current s))" "warming_policy_valid (tn_warming (st_current s))"
    using s by (auto simp: settings_new_def and_then_Inr Let_def policies_validate_ok)
  have "file_typed f"
  proof (cases path)
    case None
    then show ?thesis using f by (auto simp: file_typed_def runtime_file_default_def)
  qed (use f read_config_typed [OF typed] in auto)
  then have "tunables_in_range (st_current s)" unfolding t by (rule resolve_in_range [OF pinned])
  then show ?thesis using v pinned p by (simp add: plant_ok_def plant_of_def live_ok_def)
qed

interpretation reloads: invariant_system "reload_step parse env"
  "\<lambda>_. True" "\<lambda>w. parse_typed parse \<and> plant_ok capacity w" for parse env capacity
  by unfold_locales (auto intro: reload_step_ok)

text \<open>
  C20: Whatever reloads run, however they interleave with each other and with edits of the file, the
  values in force are in range, their scope and warming policies are valid, and the capacity of the
  usage queue is the one fixed at startup.
\<close>

theorem live_settings_stay_valid:
  assumes typed: "parse_typed parse" and pinned: "pinned_positive pinned"
    and start: "settings_new parse env pinned path np cf = Inr s"
  shows "live_ok (tn_usage_queue_capacity (st_current s))
    (st_current (pl_settings (foldl (reload_step parse env) (plant_of s cf) es)))"
  using reloads.run_inv [of parse "tn_usage_queue_capacity (st_current s)" "plant_of s cf" es env]
    startup_ok [OF typed pinned start] typed
  by (simp add: plant_ok_def list_all_iff)

text \<open>
  A reload takes effect wholly or not at all. A file that cannot be read or parsed, an invalid
  policy or a changed queue capacity keeps every value and is recorded; a reload that reports new
  values has put in force exactly the resolution of the file it read and cleared the error; and after
  any outcome of a file that was looked at, the same modification time is not looked at again.
\<close>

theorem reload_all_or_nothing:
  assumes "reload parse env now force cf s = (r, s')"
  shows "(case r of
      Inl e \<Rightarrow> st_current s' = st_current s \<and> st_last_error s' = (if st_file s = None then st_last_error s else Some e)
    | Inr None \<Rightarrow> st_current s' = st_current s
    | Inr (Some t) \<Rightarrow> st_current s' = t \<and> st_current s \<noteq> t \<and> st_last_error s' = None \<and>
        Inr t = and_then (read_config parse cf) (\<lambda>f. Inr (resolve (st_pinned s) f (st_num_parallel s) env))) \<and>
    st_file s' = st_file s \<and> (st_file s = None \<or> reload_start False cf s' = Unchanged)"
  using assms
  by (auto simp: reload_def reload_start_def reload_decide_def reload_publish_def fail_reload_def Let_def
      split: if_splits sum.splits option.splits)

section \<open>Examples\<close>

definition sample_pinned :: pinned_tunables where
  "sample_pinned = \<lparr>pt_max_concurrent_tasks = None, pt_cpu_max_concurrent_tasks = None,
     pt_max_queued_tasks = None, pt_cpu_max_queued_tasks = None, pt_max_queue_wait = None,
     pt_raw_max_concurrent_requests = None, pt_raw_queue_wait = None\<rparr>"

definition sample_toml :: toml where
  "sample_toml content = Inr (runtime_file_default\<lparr>rf_max_concurrent_tasks := Some (length content)\<rparr>)"

definition sample_tunables :: "string \<Rightarrow> tunables" where
  "sample_tunables content = resolve sample_pinned
     (runtime_file_default\<lparr>rf_max_concurrent_tasks := Some (length content)\<rparr>) 1 (\<lambda>_. None)"

definition sample_file :: "nat \<Rightarrow> string \<Rightarrow> config_file" where
  "sample_file modified content = \<lparr>cf_exists = True, cf_modified = Some modified, cf_text = Inr content\<rparr>"

definition sample_settings :: "nat \<Rightarrow> string \<Rightarrow> settings" where
  "sample_settings modified content = \<lparr>st_current = sample_tunables content, st_pinned = sample_pinned,
     st_file = Some ''freellama.toml'', st_num_parallel = 1, st_modified = Some modified, st_reloads = 0,
     st_last_error = None, st_last_reload_unix = None\<rparr>"

lemma sample_fields [simp]:
  "cf_modified (sample_file m content) = Some m"
  "st_current (sample_settings m content) = sample_tunables content"
  "st_pinned (sample_settings m content) = sample_pinned"
  "st_file (sample_settings m content) = Some ''freellama.toml''"
  "st_num_parallel (sample_settings m content) = 1"
  "st_modified (sample_settings m content) = Some m"
  by (simp_all add: sample_file_def sample_settings_def)

lemma no_env: "env_value (\<lambda>_. None) name parse = None"
  by (simp add: env_value_def env_raw_def)

lemma sample_policies:
  "tn_scopes (sample_tunables content) = scope_policy_default"
  "tn_warming (sample_tunables content) = warming_policy_default"
  "tn_usage_queue_capacity (sample_tunables content) = 128"
  "policies_validate (sample_tunables content) = Inr ()"
proof -
  show "tn_scopes (sample_tunables content) = scope_policy_default"
    "tn_warming (sample_tunables content) = warming_policy_default"
    by (simp_all add: sample_tunables_def resolve_environment layered_scopes_def layered_warming_def no_env
        runtime_file_default_def Let_def)
  then show "policies_validate (sample_tunables content) = Inr ()"
    by (simp add: policies_validate_ok default_policy_valid scope_policy_valid_def scope_policy_default_def)
  show "tn_usage_queue_capacity (sample_tunables content) = 128"
    by (simp add: sample_tunables_def resolve_environment no_env runtime_file_default_def)
qed

lemma sample_concurrent:
  "content \<noteq> [] \<Longrightarrow> tn_max_concurrent_tasks (sample_tunables content) = length content"
  by (simp add: sample_tunables_def resolve_capacities sample_pinned_def positive_only_def)

lemma sample_read:
  "read_config sample_toml (sample_file m content) =
     Inr (runtime_file_default\<lparr>rf_max_concurrent_tasks := Some (length content)\<rparr>)"
  by (simp add: read_config_def runtime_file_load_def load_failed_def sample_file_def sample_toml_def
      runtime_file_default_def policy_ok_def)

lemma sample_decide:
  assumes "st_pinned s = sample_pinned" "st_num_parallel s = 1" "st_current s = sample_tunables c"
  shows "reload_decide (\<lambda>_. None) now m (read_config sample_toml (sample_file k content)) s =
    (Inr (sample_tunables content), s\<lparr>st_modified := m, st_last_error := None,
       st_reloads := st_reloads s + 1, st_last_reload_unix := Some now\<rparr>)"
proof -
  have t: "resolve sample_pinned (runtime_file_default\<lparr>rf_max_concurrent_tasks := Some (length content)\<rparr>) 1
      (\<lambda>_. None) = sample_tunables content" by (simp add: sample_tunables_def)
  show ?thesis using assms
    by (simp add: reload_decide_def sample_read t [simplified] sample_policies Let_def)
qed

lemma sample_start:
  "settings_new sample_toml (\<lambda>_. None) sample_pinned (Some ''freellama.toml'') 1 (sample_file m content) =
     Inr (sample_settings m content)"
proof -
  have t: "resolve sample_pinned (runtime_file_default\<lparr>rf_max_concurrent_tasks := Some (length content)\<rparr>) 1
      (\<lambda>_. None) = sample_tunables content" by (simp add: sample_tunables_def)
  show ?thesis
    by (simp add: settings_new_def sample_read t [simplified] sample_policies Let_def sample_settings_def)
qed

lemma sample_typed: "parse_typed sample_toml"
  by (simp add: parse_typed_def sample_toml_def file_typed_def runtime_file_default_def)

lemma sample_positive: "pinned_positive sample_pinned"
  by (simp add: pinned_positive_def sample_pinned_def)

definition sample_edits :: "reload_event list" where
  "sample_edits = [Edit (sample_file 8 ''five5''), Start 0 True, ReadFile 0, Decide 0 100,
     Edit (sample_file 9 ''sixsix''), Start 1 False, ReadFile 1, Decide 1 101, Publish 1, Publish 0]"

theorem live_settings_stay_valid_witness:
  "live_ok 128 (st_current (pl_settings (foldl (reload_step sample_toml (\<lambda>_. None))
     (plant_of (sample_settings 7 ''four'') (sample_file 7 ''four'')) sample_edits)))"
  using live_settings_stay_valid [OF sample_typed sample_positive sample_start [of 7 "''four''"],
      where es = sample_edits]
  by (simp add: sample_policies)

theorem reload_all_or_nothing_witness:
  "st_current (snd (reload sample_toml (\<lambda>_. None) 100 False (sample_file 8 ''five5'') (sample_settings 7 ''four''))) =
     sample_tunables ''five5''"
proof -
  obtain r s' where rs: "reload sample_toml (\<lambda>_. None) 100 False (sample_file 8 ''five5'') (sample_settings 7 ''four'')
      = (r, s')" by fastforce
  have ne: "sample_tunables ''four'' \<noteq> sample_tunables ''five5''"
    using sample_concurrent [of "''four''"] sample_concurrent [of "''five5''"] by fastforce
  have d: "reload_decide (\<lambda>_. None) 100 (Some 8) (read_config sample_toml (sample_file 8 ''five5''))
      (sample_settings 7 ''four'') = (Inr (sample_tunables ''five5''), (sample_settings 7 ''four'')
        \<lparr>st_modified := Some 8, st_last_error := None, st_reloads := st_reloads (sample_settings 7 ''four'') + 1,
         st_last_reload_unix := Some 100\<rparr>)"
    by (rule sample_decide) simp_all
  have "reload_start False (sample_file 8 ''five5'') (sample_settings 7 ''four'') = Proceed (Some 8)"
    by (simp add: reload_start_def)
  then have "r = Inr (Some (sample_tunables ''five5''))"
    using rs ne by (simp add: reload_def d reload_publish_def)
  then show ?thesis using reload_all_or_nothing [OF rs] rs by simp
qed

text \<open>
  C21: The values are published after the status lock is released, so of two reloads the one that read
  the older file may publish last: then the recorded modification time is that of the new file, the
  values in force are those of the old one, and no later poll looks at the file again.
\<close>

theorem older_config_may_stick:
  "let w = foldl (reload_step sample_toml (\<lambda>_. None))
             (plant_of (sample_settings 7 ''four'') (sample_file 7 ''four'')) sample_edits
   in pl_disk w = sample_file 9 ''sixsix'' \<and>
      tn_max_concurrent_tasks (st_current (pl_settings w)) = 5 \<and>
      reload sample_toml (\<lambda>_. None) 102 False (pl_disk w) (pl_settings w) = (Inr None, pl_settings w) \<and>
      fst (reload sample_toml (\<lambda>_. None) 102 True (pl_disk w) (pl_settings w)) =
        Inr (Some (sample_tunables ''sixsix''))"
proof -
  have ne: "sample_tunables ''four'' \<noteq> sample_tunables ''sixsix''"
    "sample_tunables ''sixsix'' \<noteq> sample_tunables ''five5''"
    using sample_concurrent [of "''four''"] sample_concurrent [of "''five5''"] sample_concurrent [of "''sixsix''"]
    by fastforce+
  show ?thesis
    using ne sample_concurrent [of "''five5''"]
    by (simp add: sample_edits_def plant_of_def set_phase_def reload_start_def sample_decide reload_publish_def
        reload_def Let_def)
qed

end
