(* ===== verification/Batch.thy ===== *)
theory Batch
  imports Warming
begin

text \<open>
  The batch endpoint (\<open>run_task_batch\<close>, \<open>next_batch_task\<close> of \<open>platform/tasks_api.rs\<close>): validation,
  the weighted choice of the next task, the bounded set of running workers and the collection of the
  answers. Which worker finishes next is an argument (\<open>finish\<close>, by round), and so is what a task
  answers (\<open>outcome\<close>, by index), a panic of its worker included. The loop is a partial function, so
  not returning is \<open>None\<close>.
\<close>

section \<open>Input\<close>

record batch_item =
  bi_id :: string
  bi_independent :: bool
  bi_task :: managed_task

definition MAX_BATCH_TASKS :: nat where "MAX_BATCH_TASKS = 64"
definition DEFAULT_BATCH_PARALLELISM :: nat where "DEFAULT_BATCH_PARALLELISM = 8"

fun check_items :: "string set \<Rightarrow> batch_item list \<Rightarrow> api_error + unit" where
  "check_items ids [] = Inr ()"
| "check_items ids (item # items) =
     (if str_trim (bi_id item) = [] \<or> bi_id item \<in> ids
      then Inl (bad_request ''every batch item needs a distinct, non-empty id'')
      else if mt_defer (bi_task item)
      then Inl (bad_request ''batch tasks cannot defer; submit individual jobs instead'')
      else if \<not> bi_independent item
      then Inl (bad_request (''batch task '' @ bi_id item @
             '' must declare independent=true; dependency scheduling is not supported''))
      else check_items (insert (bi_id item) ids) items)"

definition check_batch :: "batch_item list \<Rightarrow> api_error + unit" where
  "check_batch items =
     (if items = [] \<or> MAX_BATCH_TASKS < length items
      then Inl (bad_request ''tasks must contain 1 to 64 items'')
      else check_items {} items)"

definition batch_parallelism :: "nat option \<Rightarrow> nat \<Rightarrow> nat" where
  "batch_parallelism requested n =
     min (clamp 1 MAX_BATCH_TASKS (case requested of None \<Rightarrow> DEFAULT_BATCH_PARALLELISM | Some p \<Rightarrow> p)) n"

section \<open>The next task\<close>

type_synonym class_of = "nat \<Rightarrow> nat"

definition item_class :: "batch_item list \<Rightarrow> class_of" where
  "item_class items i = priority_index (mt_priority (bi_task (items ! i)))"

fun batch_pass :: "class_of \<Rightarrow> nat list \<Rightarrow> nat list \<Rightarrow> nat list \<Rightarrow> (nat \<times> nat) option" where
  "batch_pass cls pending credits [] = None"
| "batch_pass cls pending credits (class # rest) =
     (if credits ! class = 0 then batch_pass cls pending credits rest
      else case position (\<lambda>i. cls i = class) pending of
             Some p \<Rightarrow> Some (p, class)
           | None \<Rightarrow> batch_pass cls pending credits rest)"

definition take_task :: "nat list \<Rightarrow> nat list \<Rightarrow> nat \<times> nat \<Rightarrow> nat \<times> nat list \<times> nat list" where
  "take_task pending credits pc =
     (pending ! fst pc, remove_at (fst pc) pending, credits[snd pc := credits ! snd pc - 1])"

definition next_batch_task :: "class_of \<Rightarrow> nat list \<Rightarrow> nat list \<Rightarrow> nat \<times> nat list \<times> nat list" where
  "next_batch_task cls pending credits =
     (case batch_pass cls pending credits classes of
        Some pc \<Rightarrow> take_task pending credits pc
      | None \<Rightarrow>
          (case batch_pass cls pending PRIORITY_WEIGHTS classes of
             Some pc \<Rightarrow> take_task pending PRIORITY_WEIGHTS pc
           | None \<Rightarrow> (pending ! 0, remove_at 0 pending, PRIORITY_WEIGHTS)))"

lemma batch_pass_Some:
  "batch_pass cls pending credits cs = Some (p, c) \<Longrightarrow>
     p < length pending \<and> cls (pending ! p) = c \<and> c \<in> set cs \<and> credits ! c \<noteq> 0 \<and>
     (\<forall>j < p. cls (pending ! j) \<noteq> c)"
  by (induction cs) (auto simp: position_Some split: if_splits option.splits)

lemma next_batch_task_takes:
  assumes "pending \<noteq> []"
  obtains p credits' where "p < length pending"
    "next_batch_task cls pending credits = (pending ! p, remove_at p pending, credits')"
proof -
  have take: "\<exists>p credits'. p < length pending \<and>
      take_task pending cr pc = (pending ! p, remove_at p pending, credits')"
    if "batch_pass cls pending cr classes = Some pc" for cr pc
    using that batch_pass_Some [of cls pending cr classes "fst pc" "snd pc"]
    by (intro exI [of _ "fst pc"]) (simp add: take_task_def)
  have "\<exists>p credits'. p < length pending \<and>
      next_batch_task cls pending credits = (pending ! p, remove_at p pending, credits')"
    using assms take by (cases "batch_pass cls pending credits classes";
      cases "batch_pass cls pending PRIORITY_WEIGHTS classes") (auto simp: next_batch_task_def)
  then show ?thesis using that by blast
qed

section \<open>Running\<close>

datatype task_outcome = Answered json | Failed api_error | Panicked string

definition item_result :: "string \<Rightarrow> task_outcome \<Rightarrow> json" where
  "item_result ident out =
     (case out of
        Answered response \<Rightarrow> json_object [(''id'', JStr ident), (''ok'', JBool True), (''response'', response)]
      | Failed e \<Rightarrow> into_batch_result ident e
      | Panicked message \<Rightarrow> into_batch_result ident (api_new 500 (''batch worker failed: '' @ message)))"

text \<open>\<open>bs_running\<close> are the worker ids of the \<open>JoinSet\<close>; \<open>bs_started\<close> only records the order of starts.\<close>

record batch =
  bs_pending :: "nat list"
  bs_credits :: "nat list"
  bs_results :: "json option list"
  bs_running :: "nat list"
  bs_in_flight :: "(nat, nat) btree"
  bs_next_id :: nat
  bs_started :: "nat list"

definition batch_new :: "nat \<Rightarrow> batch" where
  "batch_new n = \<lparr>bs_pending = [0..<n], bs_credits = PRIORITY_WEIGHTS, bs_results = replicate n None,
     bs_running = [], bs_in_flight = [], bs_next_id = 0, bs_started = []\<rparr>"

definition batch_spawn :: "class_of \<Rightarrow> batch \<Rightarrow> batch" where
  "batch_spawn cls s =
     (let (index, pending, credits) = next_batch_task cls (bs_pending s) (bs_credits s)
      in s\<lparr>bs_pending := pending, bs_credits := credits,
           bs_running := bs_running s @ [bs_next_id s],
           bs_in_flight := bt_put (bs_next_id s) index (bs_in_flight s),
           bs_next_id := bs_next_id s + 1, bs_started := bs_started s @ [index]\<rparr>)"

lemma spawn_parts:
  assumes "bs_pending s \<noteq> []"
  obtains p credits' where "p < length (bs_pending s)"
    "batch_spawn cls s = s\<lparr>bs_pending := remove_at p (bs_pending s), bs_credits := credits',
       bs_running := bs_running s @ [bs_next_id s],
       bs_in_flight := bt_put (bs_next_id s) (bs_pending s ! p) (bs_in_flight s),
       bs_next_id := bs_next_id s + 1, bs_started := bs_started s @ [bs_pending s ! p]\<rparr>"
proof -
  obtain p credits' where "p < length (bs_pending s)"
    "next_batch_task cls (bs_pending s) (bs_credits s) =
       (bs_pending s ! p, remove_at p (bs_pending s), credits')"
    by (rule next_batch_task_takes [OF assms])
  then show ?thesis by (intro that [of p credits']) (simp_all add: batch_spawn_def)
qed

function batch_fill :: "class_of \<Rightarrow> nat \<Rightarrow> batch \<Rightarrow> batch" where
  "batch_fill cls max_parallelism s =
     (if length (bs_running s) < max_parallelism \<and> bs_pending s \<noteq> []
      then batch_fill cls max_parallelism (batch_spawn cls s) else s)"
  by pat_completeness auto
termination
proof (relation "measure (\<lambda>(cls, m, s). length (bs_pending s))")
  show "wf (measure (\<lambda>(cls :: class_of, m :: nat, s :: batch). length (bs_pending s)))" by simp
next
  fix cls :: class_of and m :: nat and s :: batch
  assume "length (bs_running s) < m \<and> bs_pending s \<noteq> []"
  then have "bs_pending s \<noteq> []" by simp
  then have "length (bs_pending (batch_spawn cls s)) < length (bs_pending s)"
    by (rule spawn_parts [of s cls]) (simp add: remove_at_def)
  then show "((cls, m, batch_spawn cls s), cls, m, s) \<in> measure (\<lambda>(cls, m, s). length (bs_pending s))"
    by simp
qed

declare batch_fill.simps [simp del]

definition batch_join :: "batch_item list \<Rightarrow> (nat \<Rightarrow> task_outcome) \<Rightarrow> nat \<Rightarrow> batch \<Rightarrow> batch" where
  "batch_join items outcome k s =
     (let worker = bs_running s ! k; s' = s\<lparr>bs_running := remove_at k (bs_running s)\<rparr>
      in case bt_get (bs_in_flight s) worker of
           None \<Rightarrow> s'
         | Some index \<Rightarrow>
             s'\<lparr>bs_in_flight := bt_del worker (bs_in_flight s),
                bs_results := (bs_results s)[index := Some (item_result (bi_id (items ! index)) (outcome index))]\<rparr>)"

definition batch_round ::
  "batch_item list \<Rightarrow> (nat \<Rightarrow> task_outcome) \<Rightarrow> nat \<Rightarrow> nat \<Rightarrow> batch \<Rightarrow> batch" where
  "batch_round items outcome max_parallelism pick s =
     (let s' = batch_fill (item_class items) max_parallelism s
      in if bs_running s' = [] then s'
         else batch_join items outcome (pick mod length (bs_running s')) s')"

partial_function (option) batch_loop ::
  "batch_item list \<Rightarrow> (nat \<Rightarrow> task_outcome) \<Rightarrow> nat \<Rightarrow> (nat \<Rightarrow> nat) \<Rightarrow> nat \<Rightarrow> batch \<Rightarrow> batch option" where
  "batch_loop items outcome max_parallelism finish n s =
     (if bs_pending s = [] \<and> bs_running s = [] then Some s
      else batch_loop items outcome max_parallelism finish (Suc n)
             (batch_round items outcome max_parallelism (finish n) s))"

definition batch_reply :: "nat \<Rightarrow> json option list \<Rightarrow> json" where
  "batch_reply max_parallelism results =
     json_object [(''independent_only'', JBool True), (''max_parallelism'', jnat max_parallelism),
       (''scheduler'', json_object [
          (''scope'', JStr ''batch_dispatch_and_global_managed_admission''),
          (''policy'', JStr ''weighted_fair_round_robin''),
          (''weights'', json_object [(''interactive'', jnat 3), (''normal'', jnat 2), (''background'', jnat 1)]),
          (''note'', JStr ''priority affects start order and admission fairness, never route eligibility or capacity'')]),
       (''results'', JArr (map the (filter (\<lambda>r. r \<noteq> None) results)))]"

definition run_task_batch ::
  "batch_item list \<Rightarrow> nat option \<Rightarrow> (nat \<Rightarrow> task_outcome) \<Rightarrow> (nat \<Rightarrow> nat) \<Rightarrow> (api_error + json) option" where
  "run_task_batch items requested outcome finish =
     (case check_batch items of
        Inl e \<Rightarrow> Some (Inl e)
      | Inr _ \<Rightarrow>
          (let p = batch_parallelism requested (length items)
           in map_option (\<lambda>s. Inr (batch_reply p (bs_results s)))
                (batch_loop items outcome p finish 0 (batch_new (length items)))))"

section \<open>The invariant of the loop\<close>

definition batch_inv :: "batch_item list \<Rightarrow> (nat \<Rightarrow> task_outcome) \<Rightarrow> nat \<Rightarrow> batch \<Rightarrow> bool" where
  "batch_inv items outcome m s \<longleftrightarrow>
     (let flight = bt_get (bs_in_flight s); pending = set (bs_pending s)
      in distinct (bs_running s) \<and> set (bs_running s) = dom flight \<and> (\<forall>w \<in> dom flight. w < bs_next_id s) \<and>
         inj_on flight (dom flight) \<and> distinct (bs_pending s) \<and> pending \<inter> ran flight = {} \<and>
         pending \<union> ran flight \<subseteq> {..<length items} \<and> length (bs_results s) = length items \<and>
         (\<forall>i < length items. bs_results s ! i =
            (if i \<in> pending \<union> ran flight then None
             else Some (item_result (bi_id (items ! i)) (outcome i)))) \<and>
         length (bs_running s) \<le> m \<and> distinct (bs_started s) \<and>
         set (bs_started s) = {..<length items} - pending)"

lemma ran_del: "inj_on f (dom f) \<Longrightarrow> f k = Some v \<Longrightarrow> ran (f(k := None)) = ran f - {v}"
proof -
  assume inj: "inj_on f (dom f)" and k: "f k = Some v"
  have other: "y \<noteq> v" if "a \<noteq> k" "f a = Some y" for a y
    using inj k that by (metis domI inj_onD)
  show ?thesis using k other by (auto simp: ran_def) (metis option.inject)
qed

lemma set_remove_at: "distinct xs \<Longrightarrow> i < length xs \<Longrightarrow> set (remove_at i xs) = set xs - {xs ! i}"
proof -
  assume d: "distinct xs" and i: "i < length xs"
  have xs: "xs = take i xs @ xs ! i # drop (Suc i) xs" by (rule id_take_nth_drop [OF i])
  have "distinct (take i xs @ xs ! i # drop (Suc i) xs)" using d xs by simp
  moreover have "set xs = set (take i xs) \<union> insert (xs ! i) (set (drop (Suc i) xs))"
    by (subst xs) simp
  ultimately show ?thesis by (auto simp: remove_at_def)
qed

lemma batch_new_inv: "batch_inv items outcome m (batch_new (length items))"
  by (auto simp: batch_inv_def batch_new_def Let_def)

lemma spawn_inv:
  assumes inv: "batch_inv items outcome m s" and room: "length (bs_running s) < m" "bs_pending s \<noteq> []"
  shows "batch_inv items outcome m (batch_spawn cls s)"
proof -
  obtain p credits' where p: "p < length (bs_pending s)"
    and s': "batch_spawn cls s = s\<lparr>bs_pending := remove_at p (bs_pending s), bs_credits := credits',
       bs_running := bs_running s @ [bs_next_id s],
       bs_in_flight := bt_put (bs_next_id s) (bs_pending s ! p) (bs_in_flight s),
       bs_next_id := bs_next_id s + 1, bs_started := bs_started s @ [bs_pending s ! p]\<rparr>"
    by (rule spawn_parts [OF room(2)])
  let ?f = "bt_get (bs_in_flight s)" and ?x = "bs_pending s ! p"
  have d: "distinct (bs_pending s)" and new: "?f (bs_next_id s) = None"
    using inv by (auto simp: batch_inv_def Let_def)
  have x: "?x \<in> set (bs_pending s)" by (rule nth_mem [OF p])
  moreover have "set (bs_pending s) \<inter> ran ?f = {}" using inv by (simp add: batch_inv_def Let_def)
  ultimately have out: "?x \<notin> ran ?f" by blast
  have rest: "set (remove_at p (bs_pending s)) = set (bs_pending s) - {?x}" by (rule set_remove_at [OF d p])
  have inj: "inj_on (?f(bs_next_id s \<mapsto> ?x)) (insert (bs_next_id s) (dom ?f))"
    using inv new out by (auto simp: batch_inv_def Let_def inj_on_def ran_def)
  have ran: "ran (?f(bs_next_id s \<mapsto> ?x)) = insert ?x (ran ?f)" using new by (rule ran_map_upd)
  have same: "i \<in> set (remove_at p (bs_pending s)) \<union> insert ?x (ran ?f) \<longleftrightarrow> i \<in> set (bs_pending s) \<union> ran ?f" for i
    using x by (auto simp: rest)
  note facts = inv [unfolded batch_inv_def Let_def]
  have res: "\<forall>i < length items. bs_results s ! i =
      (if i \<in> set (remove_at p (bs_pending s)) \<union> insert ?x (ran ?f) then None
       else Some (item_result (bi_id (items ! i)) (outcome i)))"
    unfolding same using facts by blast
  have upd: "dom (?f(bs_next_id s \<mapsto> ?x)) = insert (bs_next_id s) (dom ?f)" by simp
  have fresh: "bs_next_id s \<notin> dom ?f" using new by auto
  have started: "?x \<notin> set (bs_started s)" "?x < length items" using facts x by auto
  show ?thesis
    unfolding batch_inv_def Let_def s' using facts res room inj started fresh remove_at_distinct [OF d, of p] out x
    by (simp add: upd ran rest less_Suc_eq del: Un_insert_right Un_insert_left Un_iff) blast
qed

lemma fill_inv:
  "batch_inv items outcome m s \<Longrightarrow> batch_inv items outcome m (batch_fill cls m s)"
proof (induction cls m s rule: batch_fill.induct)
  case (1 cls m s)
  then show ?case by (subst batch_fill.simps) (simp add: spawn_inv)
qed

definition batch_left :: "batch \<Rightarrow> nat" where
  "batch_left s = length (bs_pending s) + length (bs_running s)"

lemma spawn_left: "bs_pending s \<noteq> [] \<Longrightarrow> batch_left (batch_spawn cls s) = batch_left s"
  by (rule spawn_parts [of s cls]) (auto simp: batch_left_def remove_at_def)

lemma spawn_runs: "bs_pending s \<noteq> [] \<Longrightarrow> bs_running (batch_spawn cls s) \<noteq> []"
  by (rule spawn_parts [of s cls]) auto

lemma fill_left: "batch_left (batch_fill cls m s) = batch_left s"
proof (induction cls m s rule: batch_fill.induct)
  case (1 cls m s)
  then show ?case by (subst batch_fill.simps) (simp add: spawn_left)
qed

lemma fill_keeps_running: "bs_running s \<noteq> [] \<Longrightarrow> bs_running (batch_fill cls m s) \<noteq> []"
proof (induction cls m s rule: batch_fill.induct)
  case (1 cls m s)
  then show ?case by (subst batch_fill.simps) (simp add: spawn_runs)
qed

lemma fill_running:
  assumes "0 < m" "batch_left s \<noteq> 0"
  shows "bs_running (batch_fill cls m s) \<noteq> []"
proof (cases "bs_running s = []")
  case True
  then have "bs_pending s \<noteq> []" using assms(2) by (simp add: batch_left_def)
  then have "batch_fill cls m s = batch_fill cls m (batch_spawn cls s)"
    using True assms(1) by (subst batch_fill.simps) simp
  then show ?thesis using \<open>bs_pending s \<noteq> []\<close> by (simp add: fill_keeps_running spawn_runs)
qed (rule fill_keeps_running)

lemma join_inv:
  assumes inv: "batch_inv items outcome m s" and k: "k < length (bs_running s)"
  shows "batch_inv items outcome m (batch_join items outcome k s) \<and>
    batch_left (batch_join items outcome k s) < batch_left s"
proof -
  let ?f = "bt_get (bs_in_flight s)" and ?w = "bs_running s ! k"
  note facts = inv [unfolded batch_inv_def Let_def]
  have "?w \<in> set (bs_running s)" by (rule nth_mem [OF k])
  then have "?w \<in> dom ?f" using facts by metis
  then obtain x where x: "?f ?w = Some x" by blast
  have d: "distinct (bs_running s)" and inj: "inj_on ?f (dom ?f)" using facts by metis+
  have rest: "set (remove_at k (bs_running s)) = set (bs_running s) - {?w}" by (rule set_remove_at [OF d k])
  have ran: "ran (?f(?w := None)) = ran ?f - {x}" by (rule ran_del [OF inj x])
  have xin: "x \<in> ran ?f" using x by (rule ranI)
  have xlen: "x < length items" "x \<notin> set (bs_pending s)" using facts xin by blast+
  have join: "batch_join items outcome k s = s\<lparr>bs_running := remove_at k (bs_running s),
      bs_in_flight := bt_del ?w (bs_in_flight s),
      bs_results := (bs_results s)[x := Some (item_result (bi_id (items ! x)) (outcome x))]\<rparr>"
    by (simp add: batch_join_def x Let_def)
  have short: "length (remove_at k (bs_running s)) < length (bs_running s)" using k by (simp add: remove_at_def)
  have res: "\<forall>i < length items. (bs_results s)[x := Some (item_result (bi_id (items ! x)) (outcome x))] ! i =
      (if i \<in> set (bs_pending s) \<union> (ran ?f - {x}) then None
       else Some (item_result (bi_id (items ! i)) (outcome i)))"
    using facts xlen by (auto simp: nth_list_update)
  have inj': "inj_on (?f(?w := None)) (dom ?f - {?w})" using inj by (auto simp: inj_on_def)
  have "batch_inv items outcome m (batch_join items outcome k s)"
    unfolding batch_inv_def Let_def join using facts res short inj' remove_at_distinct [OF d, of k]
    by (simp add: ran rest) blast
  then show ?thesis using short by (simp add: join batch_left_def)
qed

lemma round_inv:
  assumes inv: "batch_inv items outcome m s" and m: "0 < m" and left: "batch_left s \<noteq> 0"
  shows "batch_inv items outcome m (batch_round items outcome m pick s) \<and>
    batch_left (batch_round items outcome m pick s) < batch_left s"
proof -
  let ?s = "batch_fill (item_class items) m s"
  have ne: "bs_running ?s \<noteq> []" by (rule fill_running [OF m left])
  then have "pick mod length (bs_running ?s) < length (bs_running ?s)" by simp
  from join_inv [OF fill_inv [OF inv] this] show ?thesis
    using ne by (simp add: batch_round_def Let_def fill_left)
qed

lemma loop_ends:
  assumes "batch_inv items outcome m s" "0 < m"
  shows "\<exists>s'. batch_loop items outcome m finish n s = Some s' \<and> batch_inv items outcome m s' \<and> batch_left s' = 0"
  using assms
proof (induction "batch_left s" arbitrary: s n rule: less_induct)
  case less
  show ?case
  proof (cases "batch_left s = 0")
    case True
    then have "bs_pending s = [] \<and> bs_running s = []" by (simp add: batch_left_def)
    then have "batch_loop items outcome m finish n s = Some s" by (simp add: batch_loop.simps)
    then show ?thesis using True less.prems by blast
  next
    case False
    then have "\<not> (bs_pending s = [] \<and> bs_running s = [])" by (auto simp: batch_left_def)
    then have "batch_loop items outcome m finish n s =
        batch_loop items outcome m finish (Suc n) (batch_round items outcome m (finish n) s)"
      by (subst batch_loop.simps) (rule if_not_P)
    moreover note round_inv [OF less.prems False, of "finish n"]
    ultimately show ?thesis using less.hyps less.prems(2) by metis
  qed
qed

lemma all_answered:
  assumes "batch_inv items outcome m s" "batch_left s = 0"
  shows "bs_results s = map (\<lambda>i. Some (item_result (bi_id (items ! i)) (outcome i))) [0..<length items]"
proof -
  have "bs_pending s = []" "bs_running s = []" using assms(2) by (simp_all add: batch_left_def)
  then have "ran (bt_get (bs_in_flight s)) = {}" using assms(1) by (auto simp: batch_inv_def Let_def ran_def)
  then show ?thesis
    using assms(1) \<open>bs_pending s = []\<close> by (intro nth_equalityI) (simp_all add: batch_inv_def Let_def)
qed

lemma batch_parallelism_bounds:
  "0 < n \<Longrightarrow> 0 < batch_parallelism requested n \<and> batch_parallelism requested n \<le> n \<and>
     batch_parallelism requested n \<le> 64"
  by (auto simp: batch_parallelism_def clamp_def MAX_BATCH_TASKS_def)

text \<open>
  C22: An accepted batch always comes back, whatever its tasks answer and in whatever order their
  workers finish, panics included: the reply lists for every item, in the order of submission, exactly
  one result, that of its own task under its own id.
\<close>

theorem batch_answers_every_task:
  assumes "check_batch items = Inr ()"
  shows "run_task_batch items requested outcome finish =
    Some (Inr (batch_reply (batch_parallelism requested (length items))
      (map (\<lambda>i. Some (item_result (bi_id (items ! i)) (outcome i))) [0..<length items])))"
proof -
  have n: "0 < length items" using assms by (auto simp: check_batch_def split: if_splits)
  then have m: "0 < batch_parallelism requested (length items)" using batch_parallelism_bounds by blast
  obtain s where "batch_loop items outcome (batch_parallelism requested (length items)) finish 0
      (batch_new (length items)) = Some s"
    and inv: "batch_inv items outcome (batch_parallelism requested (length items)) s" "batch_left s = 0"
    using loop_ends [OF batch_new_inv m] by blast
  then show ?thesis using all_answered [OF inv] assms by (simp add: run_task_batch_def Let_def)
qed

text \<open>The rounds up to the \<open>n\<close>-th, with the order in which tasks were started.\<close>

fun batch_rounds :: "batch_item list \<Rightarrow> (nat \<Rightarrow> task_outcome) \<Rightarrow> nat \<Rightarrow> (nat \<Rightarrow> nat) \<Rightarrow> nat \<Rightarrow> batch \<Rightarrow> batch" where
  "batch_rounds items outcome m finish 0 s = s"
| "batch_rounds items outcome m finish (Suc n) s =
     (let s' = batch_rounds items outcome m finish n s
      in if batch_left s' = 0 then s' else batch_round items outcome m (finish n) s')"

lemma rounds_inv:
  "0 < m \<Longrightarrow> batch_inv items outcome m s \<Longrightarrow> batch_inv items outcome m (batch_rounds items outcome m finish n s)"
  by (induction n) (simp_all add: Let_def round_inv)

section \<open>The order of starts\<close>

text \<open>The order in which the tasks are started does not depend on the workers.\<close>

function schedule :: "class_of \<Rightarrow> nat list \<Rightarrow> nat list \<Rightarrow> nat list" where
  "schedule cls pending credits =
     (if pending = [] then []
      else let (i, pending', credits') = next_batch_task cls pending credits
           in i # schedule cls pending' credits')"
  by pat_completeness auto
termination
proof (relation "measure (\<lambda>(cls, pending, credits). length pending)")
  show "wf (measure (\<lambda>(cls :: class_of, pending :: nat list, credits :: nat list). length pending))" by simp
next
  fix cls :: class_of and pending credits :: "nat list" and x i y pending' credits'
  assume "pending \<noteq> []" "x = next_batch_task cls pending credits" "(i, y) = x" "(pending', credits') = y"
  then show "((cls, pending', credits'), cls, pending, credits) \<in> measure (\<lambda>(cls, pending, credits). length pending)"
    by (auto simp: remove_at_def elim!: next_batch_task_takes [of pending cls credits])
qed

declare schedule.simps [simp del]

lemma schedule_Nil [simp]: "schedule cls [] credits = []"
  by (simp add: schedule.simps)

lemma schedule_step:
  "pending \<noteq> [] \<Longrightarrow> next_batch_task cls pending credits = (i, pending', credits') \<Longrightarrow>
     schedule cls pending credits = i # schedule cls pending' credits'"
  by (subst schedule.simps) simp

definition follows :: "class_of \<Rightarrow> nat list \<Rightarrow> batch \<Rightarrow> bool" where
  "follows cls order s \<longleftrightarrow> bs_started s @ schedule cls (bs_pending s) (bs_credits s) = order"

lemma spawn_follows:
  assumes "follows cls order s" "bs_pending s \<noteq> []"
  shows "follows cls order (batch_spawn cls s)"
proof -
  obtain i pending' credits' where n: "next_batch_task cls (bs_pending s) (bs_credits s) = (i, pending', credits')"
    by (cases "next_batch_task cls (bs_pending s) (bs_credits s)") auto
  then show ?thesis
    using assms schedule_step [OF assms(2) n] by (simp add: follows_def batch_spawn_def)
qed

lemma fill_follows: "follows cls order s \<Longrightarrow> follows cls order (batch_fill cls m s)"
proof (induction cls m s rule: batch_fill.induct)
  case (1 cls m s)
  then show ?case by (subst batch_fill.simps) (simp add: spawn_follows)
qed

lemma join_follows: "follows cls order s \<Longrightarrow> follows cls order (batch_join items outcome k s)"
  by (simp add: follows_def batch_join_def Let_def split: option.split)

lemma rounds_follow:
  "follows (item_class items) order s \<Longrightarrow>
     follows (item_class items) order (batch_rounds items outcome m finish n s)"
  by (induction n) (simp_all add: Let_def batch_round_def fill_follows join_follows)

definition credits_ok :: "nat list \<Rightarrow> bool" where
  "credits_ok cr \<longleftrightarrow> length cr = 3 \<and> (\<forall>d < 3. cr ! d \<le> PRIORITY_WEIGHTS ! d)"

definition classes_ok :: "class_of \<Rightarrow> nat list \<Rightarrow> bool" where
  "classes_ok cls pending \<longleftrightarrow> (\<forall>i \<in> set pending. cls i \<in> set classes)"

lemma pass_None:
  "batch_pass cls pending cr cs = None \<Longrightarrow> i \<in> set pending \<Longrightarrow> cls i \<in> set cs \<Longrightarrow> cr ! cls i = 0"
  by (induction cs) (auto simp: position_None split: if_splits option.splits)

text \<open>One choice: the first of its class, at the cost of one credit, after a refill if it was needed.\<close>

lemma next_choice:
  assumes ok: "classes_ok cls pending" and cr: "credits_ok cr" and ne: "pending \<noteq> []"
  obtains p c cr0 where "p < length pending" "cls (pending ! p) = c" "c < 3" "cr0 ! c \<noteq> 0"
    "\<forall>j < p. cls (pending ! j) \<noteq> c" "credits_ok cr0"
    "cr0 = cr \<or> cr0 = PRIORITY_WEIGHTS \<and> (\<forall>i \<in> set pending. cr ! cls i = 0)"
    "next_batch_task cls pending cr = (pending ! p, remove_at p pending, cr0[c := cr0 ! c - 1])"
proof -
  have weights: "credits_ok PRIORITY_WEIGHTS" by (simp add: credits_ok_def PRIORITY_WEIGHTS_def)
  have three: "c \<in> set classes \<Longrightarrow> c < 3" for c by (auto simp: classes_def)
  show ?thesis
  proof (cases "batch_pass cls pending cr classes")
    case (Some pc)
    obtain p c where pc: "pc = (p, c)" by (cases pc)
    note chosen = batch_pass_Some [OF Some [unfolded pc]]
    have "next_batch_task cls pending cr = (pending ! p, remove_at p pending, cr[c := cr ! c - 1])"
      by (simp add: next_batch_task_def take_task_def Some pc)
    then show ?thesis using that [of p c cr] chosen cr three by blast
  next
    case none: None
    have zero: "\<forall>i \<in> set pending. cr ! cls i = 0"
      using pass_None [OF none] ok by (auto simp: classes_ok_def)
    show ?thesis
    proof (cases "batch_pass cls pending PRIORITY_WEIGHTS classes")
      case (Some pc)
      obtain p c where pc: "pc = (p, c)" by (cases pc)
      note chosen = batch_pass_Some [OF Some [unfolded pc]]
      have "next_batch_task cls pending cr =
          (pending ! p, remove_at p pending, PRIORITY_WEIGHTS[c := PRIORITY_WEIGHTS ! c - 1])"
        by (simp add: next_batch_task_def take_task_def none Some pc)
      then show ?thesis using that [of p c PRIORITY_WEIGHTS] chosen weights three zero by blast
    next
      case None
      have "hd pending \<in> set pending" using ne by simp
      then have "PRIORITY_WEIGHTS ! cls (hd pending) = 0" "cls (hd pending) \<in> set classes"
        using pass_None [OF None] ok by (auto simp: classes_ok_def)
      then have False by (auto simp: classes_def PRIORITY_WEIGHTS_def)
      then show ?thesis ..
    qed
  qed
qed

definition others :: "nat \<Rightarrow> nat list \<Rightarrow> nat" where
  "others c cr = (\<Sum>d \<leftarrow> filter (\<lambda>d. d \<noteq> c) classes. cr ! d)"

definition wait_bound :: "nat \<Rightarrow> nat list \<Rightarrow> nat" where
  "wait_bound c cr = others c cr + (if cr ! c = 0 then others c PRIORITY_WEIGHTS else 0)"

lemma three_cases: "c < 3 \<longleftrightarrow> c = 0 \<or> c = 1 \<or> c = (2 :: nat)"
  by auto

lemma others_spend:
  "length cr = 3 \<Longrightarrow> d < 3 \<Longrightarrow> d \<noteq> c \<Longrightarrow> cr ! d \<noteq> 0 \<Longrightarrow> others c (cr[d := cr ! d - 1]) < others c cr"
  by (auto simp: others_def classes_def three_cases)

lemma wait_bound_max: "c < 3 \<Longrightarrow> credits_ok cr \<Longrightarrow> wait_bound c cr \<le> 10"
proof -
  assume c: "c < 3" and ok: "credits_ok cr"
  have "cr ! 0 \<le> 3" "cr ! 1 \<le> 2" "cr ! 2 \<le> 1"
    using ok by (auto simp: credits_ok_def PRIORITY_WEIGHTS_def dest: spec [of _ 0] spec [of _ 1] spec [of _ 2])
  then show ?thesis using c by (auto simp: wait_bound_def others_def classes_def PRIORITY_WEIGHTS_def three_cases)
qed

lemma credits_ok_spend: "credits_ok cr \<Longrightarrow> credits_ok (cr[c := cr ! c - 1])"
proof -
  assume ok: "credits_ok cr"
  have "cr[c := cr ! c - 1] ! d \<le> PRIORITY_WEIGHTS ! d" if "d < 3" for d
  proof -
    have "cr ! d \<le> PRIORITY_WEIGHTS ! d" using ok that by (simp add: credits_ok_def)
    moreover have "c < 3 \<or> cr[c := cr ! c - 1] = cr"
      using ok by (cases "c < 3") (simp_all add: credits_ok_def list_update_beyond)
    ultimately show ?thesis using ok
      by (cases "d = c") (auto simp: credits_ok_def intro: le_trans [OF diff_le_self])
  qed
  then show ?thesis using ok by (simp add: credits_ok_def)
qed

lemma sorted_remove_at: "sorted xs \<Longrightarrow> p < length xs \<Longrightarrow> sorted (remove_at p xs)"
proof -
  assume "sorted xs" "p < length xs"
  then have "sorted (take p xs @ xs ! p # drop (Suc p) xs)" by (metis id_take_nth_drop)
  then show ?thesis by (auto simp: remove_at_def sorted_append)
qed

lemma wait_bound_drops:
  assumes "cr0 = cr \<or> cr0 = PRIORITY_WEIGHTS \<and> cr ! c = 0" "credits_ok cr0" "d < 3" "d \<noteq> c" "cr0 ! d \<noteq> 0" "c < 3"
  shows "wait_bound c (cr0[d := cr0 ! d - 1]) < wait_bound c cr"
proof -
  have l: "length cr0 = 3" using assms by (simp add: credits_ok_def)
  have less: "others c (cr0[d := cr0 ! d - 1]) < others c cr0" by (rule others_spend [OF l assms(3,4,5)])
  have same: "cr0[d := x] ! c = cr0 ! c" for x using assms(4) by simp
  have w: "PRIORITY_WEIGHTS ! c \<noteq> 0" using assms(6) by (auto simp: PRIORITY_WEIGHTS_def three_cases)
  show ?thesis using assms(1) less w by (auto simp: wait_bound_def same)
qed

lemma classes_ok_remove: "classes_ok cls pending \<Longrightarrow> classes_ok cls (remove_at p pending)"
  using remove_at_set [of p pending] by (auto simp: classes_ok_def)

text \<open>The oldest pending task of a class is started within the bound.\<close>

lemma schedule_soon:
  assumes "classes_ok cls pending" "credits_ok cr" "sorted pending" "distinct pending" "i \<in> set pending"
  shows "\<exists>j \<in> set (take (Suc (wait_bound (cls i) cr)) (schedule cls pending cr)). cls j = cls i \<and> j \<le> i"
  using assms
proof (induction "length pending" arbitrary: pending cr rule: less_induct)
  case less
  have ne: "pending \<noteq> []" using less.prems by auto
  have ci: "cls i < 3" using less.prems by (auto simp: classes_ok_def classes_def)
  obtain p c cr0 where p: "p < length pending" "cls (pending ! p) = c" "c < 3" "cr0 ! c \<noteq> 0"
    "\<forall>j < p. cls (pending ! j) \<noteq> c" "credits_ok cr0"
    and cr0: "cr0 = cr \<or> cr0 = PRIORITY_WEIGHTS \<and> (\<forall>i \<in> set pending. cr ! cls i = 0)"
    and nxt: "next_batch_task cls pending cr = (pending ! p, remove_at p pending, cr0[c := cr0 ! c - 1])"
    by (rule next_choice [OF less.prems(1,2) ne])
  let ?cr = "cr0[c := cr0 ! c - 1]" and ?rest = "remove_at p pending"
  have order: "schedule cls pending cr = pending ! p # schedule cls ?rest ?cr" by (rule schedule_step [OF ne nxt])
  obtain q where q: "q < length pending" "pending ! q = i" using less.prems(5) by (auto simp: in_set_conv_nth)
  show ?case
  proof (cases "c = cls i")
    case True
    then have "p \<le> q" using p(5) q by (metis not_le)
    then have "pending ! p \<le> i" using less.prems(3) q sorted_nth_mono by metis
    then show ?thesis using p(2) True order by simp
  next
    case False
    have "wait_bound (cls i) ?cr < wait_bound (cls i) cr"
      by (rule wait_bound_drops) (use cr0 p ci False less.prems(5) in auto)
    moreover have "\<exists>j \<in> set (take (Suc (wait_bound (cls i) ?cr)) (schedule cls ?rest ?cr)). cls j = cls i \<and> j \<le> i"
    proof (rule less.hyps)
      show "length ?rest < length pending" using p(1) by (simp add: remove_at_def)
      show "classes_ok cls ?rest" by (rule classes_ok_remove [OF less.prems(1)])
      show "credits_ok ?cr" by (rule credits_ok_spend [OF p(6)])
      show "distinct ?rest" by (rule remove_at_distinct [OF less.prems(4)])
      show "sorted ?rest" by (rule sorted_remove_at [OF less.prems(3) p(1)])
      show "i \<in> set ?rest" using False p(2) less.prems(5) set_remove_at [OF less.prems(4) p(1)] by auto
    qed
    ultimately obtain j where j: "j \<in> set (take (Suc (wait_bound (cls i) ?cr)) (schedule cls ?rest ?cr))"
      "cls j = cls i" "j \<le> i" and le: "Suc (wait_bound (cls i) ?cr) \<le> wait_bound (cls i) cr"
      by (auto simp: Suc_le_eq)
    have "j \<in> set (take (wait_bound (cls i) cr) (schedule cls ?rest ?cr))"
      by (rule subsetD [OF set_take_subset_set_take [OF le] j(1)])
    then show ?thesis using j order by auto
  qed
qed

lemma schedule_tail:
  assumes "classes_ok cls pending" "credits_ok cr" "sorted pending" "distinct pending" "i \<in> set (drop k (schedule cls pending cr))"
  shows "\<exists>j \<in> set (take 11 (drop k (schedule cls pending cr))). cls j = cls i \<and> j \<le> i"
  using assms
proof (induction k arbitrary: pending cr)
  case 0
  have members: "set (schedule cls pending cr) \<subseteq> set pending" for pending cr
  proof (induction "length pending" arbitrary: pending cr rule: less_induct)
    case less
    show ?case
    proof (cases "pending = []")
      case False
      obtain p cr' where p: "p < length pending"
        "next_batch_task cls pending cr = (pending ! p, remove_at p pending, cr')"
        by (rule next_batch_task_takes [OF False])
      have "length (remove_at p pending) < length pending" using p(1) by (simp add: remove_at_def)
      from less [OF this, of cr'] have "set (schedule cls (remove_at p pending) cr') \<subseteq> set pending"
        using remove_at_set by fastforce
      then show ?thesis using schedule_step [OF False p(2)] p(1) by simp
    qed simp
  qed
  then have i: "i \<in> set pending" using 0 by auto
  have "cls i < 3" using 0 i by (auto simp: classes_ok_def classes_def)
  then have le: "Suc (wait_bound (cls i) cr) \<le> 11" using wait_bound_max [of "cls i" cr] 0 by simp
  show ?case
    using schedule_soon [OF 0(1,2,3,4) i] set_take_subset_set_take [OF le, of "schedule cls pending cr"] by auto
next
  case (Suc k)
  have ne: "pending \<noteq> []" using Suc.prems by auto
  obtain p c cr0 where p: "p < length pending" "credits_ok cr0"
    "next_batch_task cls pending cr = (pending ! p, remove_at p pending, cr0[c := cr0 ! c - 1])"
    by (rule next_choice [OF Suc.prems(1,2) ne]) blast
  let ?rest = "remove_at p pending" and ?cr = "cr0[c := cr0 ! c - 1]"
  have order: "schedule cls pending cr = pending ! p # schedule cls ?rest ?cr" by (rule schedule_step [OF ne p(3)])
  have "i \<in> set (drop k (schedule cls ?rest ?cr))" using Suc.prems(5) order by simp
  from Suc.IH [OF classes_ok_remove [OF Suc.prems(1)] credits_ok_spend [OF p(2)]
      sorted_remove_at [OF Suc.prems(3) p(1)] remove_at_distinct [OF Suc.prems(4)] this]
  show ?case by (simp add: order)
qed

lemma item_classes_ok: "classes_ok (item_class items) pending"
proof -
  have "priority_index p \<in> set classes" for p by (cases p) (simp_all add: classes_def)
  then show ?thesis by (simp add: classes_ok_def item_class_def)
qed

text \<open>
  In every round of a batch at most the allowed number of workers run and no task is started
  twice; the tasks are started in one order, which does not depend on when workers finish, and in
  which every task not yet started is preceded by fewer than eleven others before the oldest task of
  its class is started: no class of a batch starves.
\<close>

theorem batch_starts_are_fair:
  fixes items :: "batch_item list" and requested outcome finish n
  defines "m \<equiv> batch_parallelism requested (length items)"
    and "order \<equiv> schedule (item_class items) [0..<length items] PRIORITY_WEIGHTS"
  defines "s \<equiv> batch_rounds items outcome m finish n (batch_new (length items))"
  assumes "items \<noteq> []"
  shows "length (bs_running s) \<le> m \<and> distinct (bs_started s) \<and>
    bs_started s = take (length (bs_started s)) order \<and>
    list_all (\<lambda>k. list_all (\<lambda>i. list_ex (\<lambda>j. item_class items j = item_class items i \<and> j \<le> i)
      (take 11 (drop k order))) (drop k order)) [0..<length items]"
proof -
  have m: "0 < m" unfolding m_def using assms(4) batch_parallelism_bounds by simp
  have inv: "batch_inv items outcome m s" unfolding s_def by (rule rounds_inv [OF m batch_new_inv])
  have "follows (item_class items) order s"
    unfolding s_def by (rule rounds_follow) (simp add: follows_def batch_new_def order_def)
  then have "bs_started s = take (length (bs_started s)) order"
    unfolding follows_def by (metis append_eq_conv_conj)
  moreover have "\<exists>j \<in> set (take 11 (drop k order)). item_class items j = item_class items i \<and> j \<le> i"
    if "i \<in> set (drop k order)" for k i
    unfolding order_def
    by (rule schedule_tail) (use that in \<open>simp_all add: item_classes_ok credits_ok_def PRIORITY_WEIGHTS_def order_def\<close>)
  ultimately show ?thesis using inv by (simp add: batch_inv_def Let_def list_all_iff list_ex_iff)
qed

section \<open>Examples\<close>

definition sample_item :: "string \<Rightarrow> priority \<Rightarrow> batch_item" where
  "sample_item ident p = \<lparr>bi_id = ident, bi_independent = True,
     bi_task = \<lparr>ti_route = route_input_default, ti_route_fields = {}, ti_scope_id = None,
       ti_scope_revision = None, ti_messages = [], ti_prompt = Some ''hi'', ti_images = None,
       ti_input = None, ti_deferred = False, mi_operation = Generate, mi_tools = None,
       mi_keep_alive = None, mi_request_options = no_request_options, mi_stop_on_repetition = False,
       mt_priority = p, mt_max_wait_seconds = None, mt_timeout_seconds = None, mt_defer = False\<rparr>\<rparr>"

definition sample_batch :: "batch_item list" where
  "sample_batch = [sample_item ''a'' Background, sample_item ''b'' Interactive, sample_item ''c'' Interactive]"

definition sample_outcome :: "nat \<Rightarrow> task_outcome" where
  "sample_outcome i = (if i = 1 then Panicked ''worker'' else Answered (jnat i))"

lemma sample_batch_ok: "check_batch sample_batch = Inr ()"
  by (simp add: check_batch_def sample_batch_def sample_item_def MAX_BATCH_TASKS_def str_trim_def
      trim_start_def trim_end_def strip_any.simps white_space_def)

theorem batch_answers_every_task_witness:
  "run_task_batch sample_batch (Some 2) sample_outcome (\<lambda>n. n) = Some (Inr (batch_reply 2
     [Some (item_result ''a'' (Answered (jnat 0))), Some (item_result ''b'' (Panicked ''worker'')),
      Some (item_result ''c'' (Answered (jnat 2)))]))"
  using batch_answers_every_task [OF sample_batch_ok, of "Some 2" sample_outcome "\<lambda>n. n"]
  by (simp add: sample_batch_def sample_item_def sample_outcome_def batch_parallelism_def clamp_def
      MAX_BATCH_TASKS_def upt_rec eval_nat_numeral)

theorem batch_starts_are_fair_witness:
  "bs_started (batch_rounds sample_batch sample_outcome 2 (\<lambda>n. n) 1 (batch_new 3)) =
     take (length (bs_started (batch_rounds sample_batch sample_outcome 2 (\<lambda>n. n) 1 (batch_new 3))))
       (schedule (item_class sample_batch) [0..<3] PRIORITY_WEIGHTS)"
proof -
  have "batch_parallelism (Some 2) (length sample_batch) = 2" "length sample_batch = 3" "sample_batch \<noteq> []"
    by (simp_all add: batch_parallelism_def clamp_def MAX_BATCH_TASKS_def sample_batch_def)
  then show ?thesis
    using batch_starts_are_fair [of sample_batch sample_outcome "Some 2" "\<lambda>n. n" 1] by simp
qed

end
