(* ===== verification/Footprint.thy ===== *)
theory Footprint
  imports Routing FL_Text Resources
begin

text \<open>
  Measured runner sizes (\<open>platform/footprint.rs\<close>) and the memory a load is charged for
  (\<open>model_memory_requirement\<close> of \<open>platform/execution/memory.rs\<close>). A snapshot is taken under the lock of the
  history and written later by a blocking task, under the lock of the written generation; the writes
  of several snapshots interleave. Printing and parsing the samples are arguments.
\<close>

section \<open>Data\<close>

record runtime_hints =
  rh_num_parallel :: nat
  rh_kv_cache_percent :: nat

definition runtime_hints_default :: runtime_hints where
  "runtime_hints_default = \<lparr>rh_num_parallel = 1, rh_kv_cache_percent = 100\<rparr>"

definition hints_from_lookup :: "(string \<Rightarrow> string option) \<Rightarrow> runtime_hints" where
  "hints_from_lookup env =
     (let parallel = (case Option.bind (env ''OLLAMA_NUM_PARALLEL'') (\<lambda>v. parse_u64 (str_trim v)) of
                        Some n \<Rightarrow> if 0 < n then n else 1 | None \<Rightarrow> 1);
          flash = (case env ''OLLAMA_FLASH_ATTENTION'' of
                     Some v \<Rightarrow> str_trim v \<in> {''1'', ''true'', ''TRUE'', ''True''} | None \<Rightarrow> False);
          cache = map_option str_trim (env ''OLLAMA_KV_CACHE_TYPE'')
      in \<lparr>rh_num_parallel = parallel,
          rh_kv_cache_percent = (if cache = Some ''q8_0'' \<and> flash then 50
                                 else if cache = Some ''q4_0'' \<and> flash then 25 else 100)\<rparr>)"

definition GRAPH_MARGIN_PERCENT :: nat where "GRAPH_MARGIN_PERCENT = 10"
definition UNKNOWN_KV_PERCENT_OF_FILE :: nat where "UNKNOWN_KV_PERCENT_OF_FILE = 25"
definition HISTORY_LIMIT :: nat where "HISTORY_LIMIT = 64"

record footprint_sample =
  fp_backend :: string
  fp_digest :: string
  fp_context :: nat
  fp_bytes :: nat
  fp_num_parallel :: nat
  fp_kv_cache_percent :: nat

definition taken_under :: "string \<Rightarrow> string \<Rightarrow> runtime_hints \<Rightarrow> footprint_sample \<Rightarrow> bool" where
  "taken_under backend digest h s \<longleftrightarrow> fp_backend s = backend \<and> fp_digest s = digest \<and>
     fp_num_parallel s = rh_num_parallel h \<and> fp_kv_cache_percent s = rh_kv_cache_percent h"

record footprint_history =
  fh_samples :: "footprint_sample list"
  fh_hints :: runtime_hints
  fh_backend_hints :: "(string, runtime_hints) btree"
  fh_file :: bool
  fh_generation :: nat

definition with_hints :: "runtime_hints \<Rightarrow> footprint_history" where
  "with_hints h = \<lparr>fh_samples = [], fh_hints = h, fh_backend_hints = [], fh_file = False, fh_generation = 0\<rparr>"

definition set_backend_hints :: "string \<Rightarrow> runtime_hints \<Rightarrow> footprint_history \<Rightarrow> footprint_history" where
  "set_backend_hints backend h f = f\<lparr>fh_backend_hints := bt_put backend h (fh_backend_hints f)\<rparr>"

definition keep_newest :: "footprint_sample list \<Rightarrow> footprint_sample list" where
  "keep_newest samples = rev (take HISTORY_LIMIT (rev samples))"

definition with_file ::
  "(string \<Rightarrow> footprint_sample list option) \<Rightarrow> string option \<Rightarrow> footprint_history \<Rightarrow> footprint_history" where
  "with_file parse bytes f =
     (case Option.bind bytes parse of
        Some samples \<Rightarrow> f\<lparr>fh_samples := keep_newest samples, fh_file := True\<rparr>
      | None \<Rightarrow> f\<lparr>fh_file := True\<rparr>)"

section \<open>Recording\<close>

definition hints_for :: "string \<Rightarrow> footprint_history \<Rightarrow> runtime_hints" where
  "hints_for backend f =
     (case bt_get (fh_backend_hints f) backend of Some h \<Rightarrow> h | None \<Rightarrow> fh_hints f)"

fun pop_oldest :: "'a list \<Rightarrow> 'a list" where
  "pop_oldest (x # xs) = (if HISTORY_LIMIT < length (x # xs) then pop_oldest xs else x # xs)"
| "pop_oldest [] = []"

definition store_measurement ::
  "string \<Rightarrow> string \<Rightarrow> nat \<Rightarrow> nat \<Rightarrow> footprint_history \<Rightarrow> bool \<times> footprint_history" where
  "store_measurement backend digest ctx bytes f =
     (let h = hints_for backend f;
          same = (\<lambda>s. taken_under backend digest h s \<and> fp_context s = ctx);
          previous = (case List.find same (fh_samples f) of Some s \<Rightarrow> fp_bytes s | None \<Rightarrow> 0)
      in if bytes \<le> previous then (False, f)
         else (True, f\<lparr>fh_samples := pop_oldest (filter (\<lambda>s. \<not> same s) (fh_samples f) @
                [\<lparr>fp_backend = backend, fp_digest = digest, fp_context = ctx, fp_bytes = max bytes previous,
                  fp_num_parallel = rh_num_parallel h, fp_kv_cache_percent = rh_kv_cache_percent h\<rparr>])\<rparr>))"

definition footprint_record ::
  "string \<Rightarrow> string option \<Rightarrow> json \<Rightarrow> footprint_history \<Rightarrow> bool \<times> footprint_history" where
  "footprint_record backend digest observation f =
     (case digest of
        None \<Rightarrow> (False, f)
      | Some d \<Rightarrow>
          if d = [] \<or> jindex observation ''status'' \<noteq> JStr ''verified'' \<or>
             as_str (jindex observation ''digest'') \<noteq> Some d
          then (False, f)
          else (case (as_u64 (jindex observation ''context_length''), as_u64 (jindex observation ''size'')) of
                  (Some ctx, Some bytes) \<Rightarrow>
                    if ctx = 0 \<or> bytes = 0 then (False, f) else store_measurement backend d ctx bytes f
                | _ \<Rightarrow> (False, f)))"

text \<open>A snapshot to be written: its bytes and its generation.\<close>

definition snapshot ::
  "(footprint_sample list \<Rightarrow> string option) \<Rightarrow> footprint_history \<Rightarrow> (string \<times> nat) option \<times> footprint_history" where
  "snapshot print f =
     (if \<not> fh_file f then (None, f)
      else case print (fh_samples f) of
             None \<Rightarrow> (None, f)
           | Some bytes \<Rightarrow> (let f' = f\<lparr>fh_generation := fh_generation f + 1\<rparr>
                           in (Some (bytes, fh_generation f'), f')))"

definition footprint_observe ::
  "(footprint_sample list \<Rightarrow> string option) \<Rightarrow> string \<Rightarrow> string option \<Rightarrow> json \<Rightarrow> footprint_history \<Rightarrow>
   (string \<times> nat) option \<times> footprint_history" where
  "footprint_observe print backend digest observation f =
     (case footprint_record backend digest observation f of
        (True, f') \<Rightarrow> snapshot print f'
      | (False, f') \<Rightarrow> (None, f'))"

fun record_entries :: "string \<Rightarrow> json list \<Rightarrow> bool \<Rightarrow> footprint_history \<Rightarrow> bool \<times> footprint_history" where
  "record_entries backend [] changed f = (changed, f)"
| "record_entries backend (entry # entries) changed f =
     (case footprint_record backend (as_str (jindex entry ''digest'')) (jset ''status'' (JStr ''verified'') entry) f of
        (now, f') \<Rightarrow> record_entries backend entries (changed \<or> now) f')"

definition array_items :: "json \<Rightarrow> json list" where
  "array_items j = (case j of JArr xs \<Rightarrow> xs | _ \<Rightarrow> [])"

definition observe_resident ::
  "(footprint_sample list \<Rightarrow> string option) \<Rightarrow> string \<Rightarrow> json \<Rightarrow> footprint_history \<Rightarrow>
   (string \<times> nat) option \<times> footprint_history" where
  "observe_resident print backend ps f =
     (case record_entries backend (array_items (jindex ps ''models'')) False f of
        (True, f') \<Rightarrow> snapshot print f'
      | (False, f') \<Rightarrow> (None, f'))"

section \<open>Saving\<close>

record saved =
  sv_file :: "string option"
  sv_persisted :: nat

text \<open>One write, under the lock of the written generation; \<open>ok\<close> says that write and rename succeed.\<close>

definition save_write :: "string \<times> nat \<Rightarrow> bool \<Rightarrow> saved \<Rightarrow> saved" where
  "save_write save ok d =
     (if snd save \<le> sv_persisted d then d
      else if ok then d\<lparr>sv_file := Some (fst save), sv_persisted := snd save\<rparr> else d)"

section \<open>Requirements\<close>

definition checked_mul :: "nat \<Rightarrow> nat \<Rightarrow> nat option" where
  "checked_mul a b = (if u64_max < a * b then None else Some (a * b))"

definition is_warm :: "catalog_model \<Rightarrow> nat \<Rightarrow> json option \<Rightarrow> bool" where
  "is_warm model ctx current =
     (case current of
        None \<Rightarrow> False
      | Some entry \<Rightarrow>
          (case as_u64 (jindex entry ''context_length'') of None \<Rightarrow> False | Some loaded \<Rightarrow> ctx \<le> loaded) \<and>
          (case cm_digest model of None \<Rightarrow> False | Some d \<Rightarrow> as_str (jindex entry ''digest'') = Some d))"

fun max_nat :: "nat list \<Rightarrow> nat option" where
  "max_nat [] = None"
| "max_nat (x # xs) = Some (case max_nat xs of None \<Rightarrow> x | Some m \<Rightarrow> max x m)"

definition comparable :: "string \<Rightarrow> catalog_model \<Rightarrow> footprint_history \<Rightarrow> footprint_sample list" where
  "comparable backend model f =
     (let digest = (case cm_digest model of None \<Rightarrow> [] | Some d \<Rightarrow> d)
      in filter (\<lambda>s. digest \<noteq> [] \<and> taken_under backend digest (hints_for backend f) s) (fh_samples f))"

definition observed_bytes :: "nat \<Rightarrow> footprint_sample list \<Rightarrow> nat option" where
  "observed_bytes ctx samples = max_nat (map fp_bytes (filter (\<lambda>s. ctx \<le> fp_context s) samples))"

definition kv_bytes :: "catalog_model \<Rightarrow> nat \<Rightarrow> runtime_hints \<Rightarrow> nat option" where
  "kv_bytes model ctx h =
     map_option (\<lambda>bytes. bytes div 100 * rh_kv_cache_percent h)
       (Option.bind (Option.bind (cm_kv_bytes_per_token model) (\<lambda>per. checked_mul per ctx))
          (\<lambda>bytes. checked_mul bytes (rh_num_parallel h)))"

text \<open>The largest smaller context, then the largest size: the maximum of the pairs in the order of tuples.\<close>

fun max_pair :: "(nat \<times> nat) list \<Rightarrow> (nat \<times> nat) option" where
  "max_pair [] = None"
| "max_pair (x # xs) =
     Some (case max_pair xs of None \<Rightarrow> x
           | Some m \<Rightarrow> if fst x < fst m \<or> fst x = fst m \<and> snd x \<le> snd m then m else x)"

definition measured_plus_kv :: "catalog_model \<Rightarrow> nat \<Rightarrow> runtime_hints \<Rightarrow> footprint_sample list \<Rightarrow> nat option" where
  "measured_plus_kv model ctx h samples =
     Option.bind (cm_kv_bytes_per_token model) (\<lambda>per.
     Option.bind (max_pair (map (\<lambda>s. (fp_context s, fp_bytes s)) (filter (\<lambda>s. fp_context s < ctx) samples)))
       (\<lambda>(smaller, bytes).
     Option.bind (checked_mul per (ctx - smaller)) (\<lambda>more.
     Option.bind (checked_mul more (rh_num_parallel h)) (\<lambda>all.
       Some (sat_add u64_max bytes (all div 100 * rh_kv_cache_percent h))))))"

definition file_estimate :: "catalog_model \<Rightarrow> nat option \<Rightarrow> nat" where
  "file_estimate model kv =
     sat_add u64_max
       (sat_add u64_max (cm_size model)
          (case kv of Some b \<Rightarrow> b | None \<Rightarrow> cm_size model div 100 * UNKNOWN_KV_PERCENT_OF_FILE))
       (cm_size model div 100 * GRAPH_MARGIN_PERCENT)"

definition estimate_source :: "nat option \<Rightarrow> nat option \<Rightarrow> nat option \<Rightarrow> string" where
  "estimate_source observed measured kv =
     (if observed \<noteq> None then ''observed_same_digest_at_equal_or_larger_context''
      else if measured \<noteq> None then ''observed_smaller_context_plus_kv''
      else if kv \<noteq> None then ''model_file_plus_kv_plus_graph''
      else ''model_file_plus_assumed_kv_plus_graph'')"

definition no_requirement :: "string \<Rightarrow> (string \<times> json) list \<Rightarrow> json" where
  "no_requirement source extra =
     json_object ([(''required_available_bytes'', jnat 0), (''source'', JStr source), (''exact'', JBool False)] @ extra)"

definition requirement ::
  "string \<Rightarrow> catalog_model \<Rightarrow> nat \<Rightarrow> json option \<Rightarrow> bool \<Rightarrow> footprint_history \<Rightarrow> json" where
  "requirement backend model ctx current host_relevant f =
     (if \<not> host_relevant then no_requirement ''host_memory_not_applicable'' []
      else if is_warm model ctx current
      then no_requirement ''matching_resident_context''
             [(''note'', JStr ''resident allocation already reflected in host telemetry; runner growth remains possible'')]
      else let h = hints_for backend f; samples = comparable backend model f;
               observed = observed_bytes ctx samples; kv = kv_bytes model ctx h;
               measured = (if observed \<noteq> None then None else measured_plus_kv model ctx h samples);
               estimate = (case observed of Some b \<Rightarrow> b | None \<Rightarrow>
                             (case measured of Some b \<Rightarrow> b | None \<Rightarrow> file_estimate model kv))
           in json_object
                [(''required_available_bytes'', jnat estimate),
                 (''source'', JStr (estimate_source observed measured kv)), (''exact'', JBool False),
                 (''kv_metadata_available'', JBool (kv \<noteq> None)), (''history_samples'', jnat (length (fh_samples f))),
                 (''ollama_num_parallel'', jnat (rh_num_parallel h)),
                 (''kv_cache_percent_of_f16'', jnat (rh_kv_cache_percent h)),
                 (''note'', JStr ''capacity reservation estimate; OS telemetry and Ollama final admission remain authoritative'')])"

end
