(* ===== verification/Footprint_Run.thy ===== *)
theory Footprint_Run
  imports Footprint
begin

text \<open>
  Facts about the measured footprints: a measurement is charged from then on, and the writes of the
  snapshots, in whatever order they happen, leave the newest one on disk.
\<close>

section \<open>Measurements are charged\<close>

lemma max_nat_ge: "x \<in> set xs \<Longrightarrow> \<exists>m. max_nat xs = Some m \<and> x \<le> m"
  by (induction xs) (auto split: option.split)

lemma max_nat_in: "max_nat xs = Some m \<Longrightarrow> m \<in> set xs"
  by (induction xs arbitrary: m) (auto simp: max_def split: option.splits if_splits)

lemma pop_oldest_short: "length (pop_oldest xs) \<le> HISTORY_LIMIT"
  by (induction xs) (auto simp: HISTORY_LIMIT_def)

lemma pop_oldest_set: "set (pop_oldest xs) \<subseteq> set xs"
  by (induction xs) auto

lemma pop_oldest_last: "x \<in> set (pop_oldest (xs @ [x]))"
  by (induction xs) (auto simp: HISTORY_LIMIT_def)

lemma store_frame:
  assumes "store_measurement backend digest ctx bytes f = (changed, f')"
  shows "fh_backend_hints f' = fh_backend_hints f \<and> fh_hints f' = fh_hints f \<and> fh_file f' = fh_file f \<and>
    fh_generation f' = fh_generation f \<and> (changed \<or> f' = f)"
  using assms by (auto simp: store_measurement_def Let_def split: if_splits)

lemma store_measured:
  assumes "store_measurement backend digest ctx bytes f = (changed, f')" "0 < bytes"
  shows "\<exists>s \<in> set (fh_samples f'). taken_under backend digest (hints_for backend f) s \<and> fp_context s = ctx \<and>
    bytes \<le> fp_bytes s"
proof -
  let ?h = "hints_for backend f"
  let ?same = "\<lambda>s. taken_under backend digest ?h s \<and> fp_context s = ctx"
  show ?thesis
  proof (cases "List.find ?same (fh_samples f)")
    case None
    then show ?thesis using assms
      by (auto simp: store_measurement_def Let_def taken_under_def intro!: bexI [OF _ pop_oldest_last])
  next
    case (Some s)
    then have s: "s \<in> set (fh_samples f)" "?same s" by (auto simp: find_Some_iff)
    show ?thesis
    proof (cases "bytes \<le> fp_bytes s")
      case True
      then show ?thesis using assms Some s by (auto simp: store_measurement_def Let_def)
    next
      case False
      then show ?thesis using assms Some
        by (auto simp: store_measurement_def Let_def taken_under_def intro!: bexI [OF _ pop_oldest_last])
    qed
  qed
qed

lemma record_stored:
  assumes "footprint_record backend digest observation f = (True, f')"
  obtains d ctx bytes where "digest = Some d" "d \<noteq> []" "as_u64 (jindex observation ''context_length'') = Some ctx"
    "as_u64 (jindex observation ''size'') = Some bytes" "0 < bytes"
    "store_measurement backend d ctx bytes f = (True, f')"
  using assms by (auto simp: footprint_record_def split: option.splits if_splits)

lemma record_frame:
  assumes "footprint_record backend digest observation f = (changed, f')"
  shows "fh_backend_hints f' = fh_backend_hints f \<and> fh_hints f' = fh_hints f \<and> fh_file f' = fh_file f \<and>
    fh_generation f' = fh_generation f \<and> (changed \<or> f' = f)"
  using assms by (auto simp: footprint_record_def split: option.splits if_splits dest: store_frame)

lemma required_charge:
  assumes "cm_digest model = Some d" "d \<noteq> []" "s \<in> set (fh_samples f)"
    "taken_under backend d (hints_for backend f) s" "ctx \<le> fp_context s" "\<not> is_warm model ctx current"
  obtains r where "jindex (requirement backend model ctx current True f) ''required_available_bytes'' = jnat r"
    "fp_bytes s \<le> r" "r \<in> set (map fp_bytes (fh_samples f))"
proof -
  have "s \<in> set (comparable backend model f)" using assms by (simp add: comparable_def Let_def)
  then have "fp_bytes s \<in> set (map fp_bytes (filter (\<lambda>s. ctx \<le> fp_context s) (comparable backend model f)))"
    using assms by auto
  from max_nat_ge [OF this] obtain m where m: "observed_bytes ctx (comparable backend model f) = Some m" "fp_bytes s \<le> m"
    by (auto simp: observed_bytes_def)
  have "m \<in> set (map fp_bytes (fh_samples f))"
    using max_nat_in [of _ m] m(1) by (fastforce simp: observed_bytes_def comparable_def Let_def)
  moreover have "jindex (requirement backend model ctx current True f) ''required_available_bytes'' = jnat m"
    using m assms(6) by (simp add: requirement_def Let_def)
  ultimately show ?thesis using that m by blast
qed

text \<open>
  A verified measurement counts from the moment it is recorded: every later load of the same
  revision on that backend, at the measured context or a smaller one, is charged at least the measured
  size, and a size that was itself measured, unless a runner that already covers it is resident.
\<close>

theorem measured_size_is_charged:
  assumes "footprint_record backend (Some d) observation f = (True, f')"
    and "as_u64 (jindex observation ''context_length'') = Some measured"
    and "as_u64 (jindex observation ''size'') = Some bytes"
    and "cm_digest model = Some d" "ctx \<le> measured" "\<not> is_warm model ctx current"
  shows "\<exists>r. jindex (requirement backend model ctx current True f') ''required_available_bytes'' = jnat r \<and>
    bytes \<le> r \<and> r \<in> set (map fp_bytes (fh_samples f'))"
proof -
  have d: "d \<noteq> []" "0 < bytes" and st: "store_measurement backend d measured bytes f = (True, f')"
    using record_stored [OF assms(1)] assms(2,3) by auto
  obtain s where s: "s \<in> set (fh_samples f')" "taken_under backend d (hints_for backend f) s"
    "fp_context s = measured" "bytes \<le> fp_bytes s"
    using store_measured [OF st d(2)] by blast
  have "fh_backend_hints f' = fh_backend_hints f" "fh_hints f' = fh_hints f" using store_frame [OF st] by auto
  then have "hints_for backend f' = hints_for backend f" by (simp add: hints_for_def split: option.split)
  then have "taken_under backend d (hints_for backend f') s" using s(2) by simp
  from required_charge [OF assms(4) d(1) s(1) this _ assms(6)] s(3,4) assms(5) obtain r
    where "jindex (requirement backend model ctx current True f') ''required_available_bytes'' = jnat r"
      "fp_bytes s \<le> r" "r \<in> set (map fp_bytes (fh_samples f'))" by blast
  with s(4) show ?thesis by (intro exI [of _ r]) simp
qed

section \<open>Snapshots\<close>

text \<open>The history, the snapshots taken and not yet written, and the disk.\<close>

record footprints =
  fs_history :: footprint_history
  fs_pending :: "(string \<times> nat) list"
  fs_saved :: saved

datatype footprint_event =
    Measure string "string option" json
  | Scan string json
  | Write nat bool

definition add_save :: "(string \<times> nat) option \<times> footprint_history \<Rightarrow> footprints \<Rightarrow> footprints" where
  "add_save r w = w\<lparr>fs_history := snd r,
     fs_pending := fs_pending w @ (case fst r of None \<Rightarrow> [] | Some save \<Rightarrow> [save])\<rparr>"

fun footprint_step :: "(footprint_sample list \<Rightarrow> string option) \<Rightarrow> footprints \<Rightarrow> footprint_event \<Rightarrow> footprints" where
  "footprint_step print w (Measure backend digest observation) =
     add_save (footprint_observe print backend digest observation (fs_history w)) w"
| "footprint_step print w (Scan backend ps) = add_save (observe_resident print backend ps (fs_history w)) w"
| "footprint_step print w (Write k ok) =
     (if k < length (fs_pending w)
      then w\<lparr>fs_pending := remove_at k (fs_pending w),
             fs_saved := save_write (fs_pending w ! k) ok (fs_saved w)\<rparr>
      else w)"

definition footprints_new :: "footprint_history \<Rightarrow> string option \<Rightarrow> footprints" where
  "footprints_new f bytes = \<lparr>fs_history = f, fs_pending = [], fs_saved = \<lparr>sv_file = bytes, sv_persisted = 0\<rparr>\<rparr>"

text \<open>
  The newest snapshot has the generation of the history and shows its samples; it is on disk or still
  to be written, unless its write failed.
\<close>

definition newest_is :: "string \<Rightarrow> footprints \<Rightarrow> bool" where
  "newest_is bytes w \<longleftrightarrow> (let g = fh_generation (fs_history w)
     in if sv_persisted (fs_saved w) = g then sv_file (fs_saved w) = Some bytes
        else (bytes, g) \<in> set (fs_pending w))"

definition footprints_inv :: "(footprint_sample list \<Rightarrow> string option) \<Rightarrow> footprints \<Rightarrow> bool" where
  "footprints_inv print w \<longleftrightarrow>
     (let g = fh_generation (fs_history w)
      in fh_file (fs_history w) \<and> sv_persisted (fs_saved w) \<le> g \<and>
         (\<forall>save \<in> set (fs_pending w). 0 < snd save \<and> snd save \<le> g \<and>
            (snd save = g \<longrightarrow> Some (fst save) = print (fh_samples (fs_history w)))) \<and>
         (0 < g \<longrightarrow> newest_is (the (print (fh_samples (fs_history w)))) w))"

definition write_ok :: "footprint_event \<Rightarrow> bool" where
  "write_ok e = (case e of Write _ ok \<Rightarrow> ok | _ \<Rightarrow> True)"

lemma entries_frame:
  assumes "record_entries backend entries c f = (changed, f')"
  shows "fh_file f' = fh_file f \<and> fh_generation f' = fh_generation f \<and> (c \<longrightarrow> changed) \<and> (changed \<or> f' = f)"
  using assms
proof (induction entries arbitrary: c f)
  case (Cons entry entries)
  obtain now f1 where r: "footprint_record backend (as_str (jindex entry ''digest''))
      (jset ''status'' (JStr ''verified'') entry) f = (now, f1)" by fastforce
  then show ?case
    using Cons.IH [of "c \<or> now" f1] Cons.prems record_frame [OF r] by auto
qed simp

lemma save_cases:
  assumes total: "\<And>samples. print samples \<noteq> None" and "fh_file f" and r: "r = (changed, f1)"
    and same: "fh_file f1 = fh_file f" "fh_generation f1 = fh_generation f" "changed \<or> f1 = f"
    and inv: "footprints_inv print w" and w: "fs_history w = f"
  shows "footprints_inv print (add_save (case r of (True, g) \<Rightarrow> snapshot print g | (False, g) \<Rightarrow> (None, g)) w)"
proof (cases changed)
  case True
  obtain bytes where b: "print (fh_samples f1) = Some bytes" using total by blast
  let ?g = "fh_generation f"
  have "snapshot print f1 = (Some (bytes, ?g + 1), f1\<lparr>fh_generation := ?g + 1\<rparr>)"
    using same assms(2) b by (simp add: snapshot_def Let_def)
  then show ?thesis
    using True r inv w same assms(2) b
    by (auto simp: footprints_inv_def newest_is_def add_save_def Let_def)
next
  case False
  then have "add_save (case r of (True, g) \<Rightarrow> snapshot print g | (False, g) \<Rightarrow> (None, g)) w = w"
    using r same w by (simp add: add_save_def)
  then show ?thesis using inv by simp
qed

lemma write_inv:
  assumes inv: "footprints_inv print w" and k: "k < length (fs_pending w)"
  shows "footprints_inv print (footprint_step print w (Write k True))"
proof -
  obtain bytes g where save: "fs_pending w ! k = (bytes, g)" by fastforce
  have mem: "(bytes, g) \<in> set (fs_pending w)" using k save nth_mem by metis
  have rest: "set (remove_at k (fs_pending w)) \<subseteq> set (fs_pending w)" by (rule remove_at_set)
  have split: "set (fs_pending w) \<subseteq> insert (bytes, g) (set (remove_at k (fs_pending w)))"
    using id_take_nth_drop [OF k] save
    by (metis Un_insert_right insert_is_Un list.simps(15) remove_at_def set_append subset_refl)
  have facts: "0 < g" "g \<le> fh_generation (fs_history w)"
    "g = fh_generation (fs_history w) \<longrightarrow> print (fh_samples (fs_history w)) = Some bytes"
    using inv mem by (fastforce simp: footprints_inv_def Let_def dest: sym)+
  show ?thesis
    using inv k facts rest split
    by (auto simp: footprints_inv_def newest_is_def Let_def save save_write_def)
qed

lemma footprint_step_inv:
  assumes total: "\<And>samples. print samples \<noteq> None" and inv: "footprints_inv print w" and ok: "write_ok e"
  shows "footprints_inv print (footprint_step print w e)"
proof -
  have fh: "fh_file (fs_history w)" using inv by (simp add: footprints_inv_def Let_def)
  show ?thesis
  proof (cases e)
    case (Measure backend digest observation)
    obtain c f1 where r: "footprint_record backend digest observation (fs_history w) = (c, f1)" by fastforce
    show ?thesis
      using save_cases [OF total fh r _ _ _ inv refl] record_frame [OF r] unfolding Measure
      by (simp add: footprint_observe_def)
  next
    case (Scan backend ps)
    obtain c f1 where r: "record_entries backend (array_items (jindex ps ''models'')) False (fs_history w) = (c, f1)"
      by fastforce
    show ?thesis
      using save_cases [OF total fh r _ _ _ inv refl] entries_frame [OF r] unfolding Scan
      by (simp add: observe_resident_def)
  next
    case (Write k w_ok)
    then show ?thesis using ok inv write_inv [OF inv, of k] by (cases "k < length (fs_pending w)") (simp_all add: write_ok_def)
  qed
qed

interpretation footprints: invariant_system "footprint_step print" write_ok
  "\<lambda>w. (\<forall>samples. print samples \<noteq> None) \<and> footprints_inv print w" for print
  by unfold_locales (simp add: footprint_step_inv)

text \<open>A history never holds more than the limit, however many measurements it has seen.\<close>

lemma store_limit:
  assumes "store_measurement backend digest ctx bytes f = (changed, f')" "length (fh_samples f) \<le> HISTORY_LIMIT"
  shows "length (fh_samples f') \<le> HISTORY_LIMIT"
  using assms pop_oldest_short by (auto simp: store_measurement_def Let_def split: if_splits)

lemma record_limit:
  assumes "footprint_record backend digest observation f = (changed, f')" "length (fh_samples f) \<le> HISTORY_LIMIT"
  shows "length (fh_samples f') \<le> HISTORY_LIMIT"
  using assms by (auto simp: footprint_record_def split: option.splits if_splits dest: store_limit)

lemma entries_limit:
  assumes "record_entries backend entries c f = (changed, f')" "length (fh_samples f) \<le> HISTORY_LIMIT"
  shows "length (fh_samples f') \<le> HISTORY_LIMIT"
  using assms
proof (induction entries arbitrary: c f)
  case (Cons entry entries)
  obtain now f1 where r: "footprint_record backend (as_str (jindex entry ''digest''))
      (jset ''status'' (JStr ''verified'') entry) f = (now, f1)" by fastforce
  then show ?case using Cons.IH [of "c \<or> now" f1] Cons.prems record_limit [OF r] by auto
qed simp

lemma snapshot_samples: "fh_samples (snd (snapshot print f)) = fh_samples f"
  by (auto simp: snapshot_def Let_def split: option.split)

lemma step_limit:
  assumes "length (fh_samples (fs_history w)) \<le> HISTORY_LIMIT"
  shows "length (fh_samples (fs_history (footprint_step print w e))) \<le> HISTORY_LIMIT"
proof (cases e)
  case (Measure backend digest observation)
  obtain c f1 where r: "footprint_record backend digest observation (fs_history w) = (c, f1)" by fastforce
  then show ?thesis using record_limit [OF r assms] unfolding Measure
    by (cases c) (simp_all add: footprint_observe_def add_save_def snapshot_samples)
next
  case (Scan backend ps)
  obtain c f1 where r: "record_entries backend (array_items (jindex ps ''models'')) False (fs_history w) = (c, f1)"
    by fastforce
  then show ?thesis using entries_limit [OF r assms] unfolding Scan
    by (cases c) (simp_all add: observe_resident_def add_save_def snapshot_samples)
next
  case (Write k w_ok)
  then show ?thesis using assms by simp
qed

interpretation bounded_footprints: invariant_system "footprint_step print" "\<lambda>_. True"
  "\<lambda>w. length (fh_samples (fs_history w)) \<le> HISTORY_LIMIT" for print
  by unfold_locales (rule step_limit)

lemma footprints_start:
  assumes "fh_file f" "fh_generation f = 0"
  shows "footprints_inv print (footprints_new f bytes)"
  using assms by (simp add: footprints_inv_def footprints_new_def Let_def)

lemma run_written:
  assumes "\<And>samples. print samples \<noteq> None" "fh_file f" "fh_generation f = 0" "list_all write_ok es"
    and \<sigma>: "\<sigma> = foldl (footprint_step print) (footprints_new f bytes) es" and "fs_pending \<sigma> = []"
  shows "fh_generation (fs_history \<sigma>) = 0 \<or> sv_file (fs_saved \<sigma>) = print (fh_samples (fs_history \<sigma>))"
proof -
  have "footprints_inv print \<sigma>"
    using footprints.run_inv [of print "footprints_new f bytes" es] footprints_start [OF assms(2,3)] assms(1,4)
    unfolding \<sigma> by blast
  then show ?thesis using assms(1,6)
    by (auto simp: footprints_inv_def newest_is_def Let_def split: if_splits)
qed

text \<open>
  The newest measurements win, and the history stays bounded. Whatever measurements and scans come
  in, and in whatever order the blocking tasks get to write their snapshots, once no write is left to be
  done the file holds exactly the samples the history holds now (or nothing was ever measured), and there
  are at most the limit of them.
\<close>

theorem newest_footprints_win:
  assumes "\<And>samples. print samples \<noteq> None" "list_all write_ok es"
    and "\<sigma> = foldl (footprint_step print) (footprints_new (with_file parse bytes (with_hints h)) bytes) es"
    and "fs_pending \<sigma> = []"
  shows "(fh_generation (fs_history \<sigma>) = 0 \<or> sv_file (fs_saved \<sigma>) = print (fh_samples (fs_history \<sigma>))) \<and>
    length (fh_samples (fs_history \<sigma>)) \<le> HISTORY_LIMIT"
proof -
  let ?f = "with_file parse bytes (with_hints h)"
  have f: "fh_file ?f" "fh_generation ?f = 0" "length (fh_samples ?f) \<le> HISTORY_LIMIT"
    by (auto simp: with_file_def with_hints_def keep_newest_def split: option.split)
  have "length (fh_samples (fs_history \<sigma>)) \<le> HISTORY_LIMIT"
    unfolding assms(3) using f(3) by (intro bounded_footprints.run_inv) (simp_all add: footprints_new_def list_all_iff)
  then show ?thesis using run_written [OF assms(1) f(1,2) assms(2,3,4)] by blast
qed

section \<open>Witnesses\<close>

definition sample_ps :: "nat \<Rightarrow> json" where
  "sample_ps bytes = json_object [(''status'', JStr ''verified''), (''digest'', JStr ''d''),
     (''context_length'', jnat 4096), (''size'', jnat bytes)]"

lemma sample_ps_fields [simp]:
  "jindex (sample_ps bytes) ''status'' = JStr ''verified''" "jindex (sample_ps bytes) ''digest'' = JStr ''d''"
  "jindex (sample_ps bytes) ''context_length'' = jnat 4096" "jindex (sample_ps bytes) ''size'' = jnat bytes"
  by (simp_all add: sample_ps_def)

lemma sample_measured:
  assumes "0 < bytes" "bytes \<le> u64_max" "fh_samples f = []"
  shows "footprint_record ''local'' (Some ''d'') (sample_ps bytes) f =
    (True, f\<lparr>fh_samples := [\<lparr>fp_backend = ''local'', fp_digest = ''d'', fp_context = 4096, fp_bytes = bytes,
       fp_num_parallel = rh_num_parallel (hints_for ''local'' f),
       fp_kv_cache_percent = rh_kv_cache_percent (hints_for ''local'' f)\<rparr>]\<rparr>)"
  using assms by (simp add: footprint_record_def store_measurement_def Let_def HISTORY_LIMIT_def u64_max_def)

lemma sample_measured_history:
  "footprint_record ''local'' (Some ''d'') (sample_ps 100) (with_hints runtime_hints_default) =
    (True, (with_hints runtime_hints_default)\<lparr>fh_samples := [\<lparr>fp_backend = ''local'', fp_digest = ''d'',
       fp_context = 4096, fp_bytes = 100, fp_num_parallel = 1, fp_kv_cache_percent = 100\<rparr>]\<rparr>)"
  by (subst sample_measured) (simp_all add: u64_max_def with_hints_def hints_for_def runtime_hints_default_def)

definition sample_installed :: catalog_model where
  "sample_installed = \<lparr>cm_name = ''m'', cm_digest = Some ''d'', cm_size = 10, cm_capabilities = {},
     cm_advertised_context = None, cm_kv_bytes_per_token = None, cm_modelfile_num_ctx = None,
     cm_architecture = None, cm_resident = False, cm_resident_size = None, cm_resident_vram = None,
     cm_resident_context = None, cm_benchmark = (\<lambda>_. None), cm_observed_loops = (\<lambda>_. None),
     cm_policy_rank = (\<lambda>_. None), cm_policy_options = (\<lambda>_. None)\<rparr>"

lemma measured_size_is_charged_witness:
  "\<exists>f' r. footprint_record ''local'' (Some ''d'') (sample_ps 100) (with_hints runtime_hints_default) = (True, f') \<and>
    jindex (requirement ''local'' sample_installed 2048 None True f') ''required_available_bytes'' = jnat r \<and> 100 \<le> r"
proof -
  have "as_u64 (jindex (sample_ps 100) ''context_length'') = Some 4096"
    "as_u64 (jindex (sample_ps 100) ''size'') = Some 100"
    by (simp_all add: u64_max_def)
  from measured_size_is_charged [OF sample_measured_history this, where model = sample_installed and ctx = 2048 and current = None]
  show ?thesis by (simp add: sample_measured_history sample_installed_def is_warm_def) blast
qed

definition witness_events :: "footprint_event list" where
  "witness_events = [Measure ''local'' (Some ''d'') (sample_ps 100), Measure ''local'' (Some ''d'') (sample_ps 200),
     Write 1 True, Write 0 True]"

lemma newest_footprints_win_witness:
  "length (fh_samples (fs_history (foldl (footprint_step (\<lambda>_. Some ''x''))
     (footprints_new (with_file (\<lambda>_. None) None (with_hints runtime_hints_default)) None) witness_events))) \<le> HISTORY_LIMIT"
proof -
  let ?w = "foldl (footprint_step (\<lambda>_. Some ''x''))
     (footprints_new (with_file (\<lambda>_. None) None (with_hints runtime_hints_default)) None) witness_events"
  have "fs_pending ?w = []"
    by (simp add: witness_events_def footprints_new_def with_file_def with_hints_def add_save_def
        footprint_observe_def footprint_record_def store_measurement_def snapshot_def u64_max_def remove_at_def
        HISTORY_LIMIT_def taken_under_def hints_for_def Let_def)
  then show ?thesis
    by (intro newest_footprints_win [where print = "\<lambda>_. Some ''x''", THEN conjunct2, OF _ _ refl])
      (simp_all add: witness_events_def write_ok_def)
qed

end
