(* ===== verification/Calendar.thy ===== *)
theory Calendar
  imports FL_Text
begin

text \<open>
  The day arithmetic of the usage ledger (\<open>civil_day\<close>, \<open>day_number\<close> and \<open>unix_day\<close> of
  \<open>platform/telemetry/ledger.rs\<close>). Every dividend is non-negative where the code truncates, so \<open>div\<close>
  is both of its divisions. No step leaves 64 bits on the days of a 64-bit number of seconds.
\<close>

section \<open>Days\<close>

definition unix_day :: "nat \<Rightarrow> nat" where
  "unix_day seconds = seconds div 86400"

definition year_of_era :: "int \<Rightarrow> int" where
  "year_of_era doe = (doe - doe div 1460 + doe div 36524 - doe div 146096) div 365"

definition year_start :: "int \<Rightarrow> int" where
  "year_start yoe = 365 * yoe + yoe div 4 - yoe div 100"

definition month_day :: "int \<Rightarrow> int \<times> int" where
  "month_day doy =
     (let mp = (5 * doy + 2) div 153;
          day = doy - (153 * mp + 2) div 5 + 1
      in (if mp < 10 then mp + 3 else mp - 9, day))"

definition civil :: "int \<Rightarrow> int \<times> int \<times> int" where
  "civil days =
     (let z = days + 719468;
          era = z div 146097;
          doe = z - era * 146097;
          yoe = year_of_era doe;
          (month, day) = month_day (doe - year_start yoe)
      in (yoe + era * 400 + (if month \<le> 2 then 1 else 0), month, day))"

definition pad_zero :: "nat \<Rightarrow> int \<Rightarrow> string" where
  "pad_zero width n =
     (let digits = show_nat (nat n) in replicate (width - length digits) (CHR ''0'') @ digits)"

definition i64_max :: nat where "i64_max = 9223372036854775807"

fun date_text :: "int \<times> int \<times> int \<Rightarrow> string" where
  "date_text (year, month, day) = pad_zero 4 year @ ''-'' @ pad_zero 2 month @ ''-'' @ pad_zero 2 day"

definition civil_day :: "nat \<Rightarrow> string" where
  "civil_day days = date_text (civil (if days \<le> i64_max then int days else 0))"

section \<open>Back\<close>

fun split_at :: "char \<Rightarrow> string \<Rightarrow> string list" where
  "split_at c [] = [[]]"
| "split_at c (x # xs) =
     (if x = c then [] # split_at c xs
      else case split_at c xs of [] \<Rightarrow> [[x]] | part # parts \<Rightarrow> (x # part) # parts)"

text \<open>\<open>str::parse::<i64>\<close> of a part, which has no minus sign.\<close>

definition parse_part :: "string \<Rightarrow> int option" where
  "parse_part s = map_option int (parse_unsigned i64_max s)"

definition days_from_civil :: "int \<Rightarrow> int \<Rightarrow> int \<Rightarrow> int" where
  "days_from_civil year month day =
     (let y = (if month \<le> 2 then year - 1 else year);
          era = y div 400;
          yoe = y - era * 400;
          mp = (if 2 < month then month - 3 else month + 9);
          doy = (153 * mp + 2) div 5 + day - 1;
          doe = yoe * 365 + yoe div 4 - yoe div 100 + doy
      in era * 146097 + doe - 719468)"

definition day_number :: "string \<Rightarrow> nat option" where
  "day_number s =
     (case split_at (CHR ''-'') s of
        y # m # d # _ \<Rightarrow>
          (case (parse_part y, parse_part m, parse_part d) of
             (Some year, Some month, Some day) \<Rightarrow>
               (let n = days_from_civil year month day
                in if 0 \<le> n \<and> n \<le> int u64_max then Some (nat n) else None)
           | _ \<Rightarrow> None)
      | _ \<Rightarrow> None)"

section \<open>The Gregorian calendar\<close>

definition leap_year :: "int \<Rightarrow> bool" where
  "leap_year y \<longleftrightarrow> y mod 4 = 0 \<and> (y mod 100 \<noteq> 0 \<or> y mod 400 = 0)"

definition month_length :: "int \<Rightarrow> int \<Rightarrow> int" where
  "month_length y m =
     (if m = 2 then (if leap_year y then 29 else 28) else if m = 4 \<or> m = 6 \<or> m = 9 \<or> m = 11 then 30 else 31)"

fun next_day :: "int \<times> int \<times> int \<Rightarrow> int \<times> int \<times> int" where
  "next_day (y, m, d) =
     (if d < month_length y m then (y, m, d + 1)
      else if m < 12 then (y, m + 1, 1) else (y + 1, 1, 1))"

subsection \<open>Years of an era\<close>

text \<open>The first and the last day of each year of an era, by computation; the rest by monotonicity.\<close>

definition year_table :: bool where
  "year_table \<longleftrightarrow> list_all (\<lambda>y. year_of_era (year_start y) = y \<and>
     (y = 0 \<or> year_of_era (year_start y - 1) = y - 1) \<and>
     (y = 399 \<or> year_start (y + 1) = year_start y + (if leap_year (y + 1) then 366 else 365))) [0..399]"

lemma year_table: year_table
  by code_simp

lemma div_slow: "a \<le> b \<Longrightarrow> 0 < k \<Longrightarrow> b div k \<le> a div k + (b - a)" for a b k :: int
proof -
  assume "a \<le> b" "0 < k"
  then have "b - a \<le> (b - a) * k" by (simp add: mult_le_cancel_left1)
  then have "b \<le> a + (b - a) * k" by simp
  then have "b div k \<le> (a + (b - a) * k) div k" using \<open>0 < k\<close> by (rule zdiv_mono1)
  then show ?thesis using \<open>0 < k\<close> by simp
qed

lemma year_of_era_mono:
  assumes "0 \<le> a" "a \<le> b" "b \<le> 146096"
  shows "year_of_era a \<le> year_of_era b"
proof -
  have 1: "b div 1460 \<le> a div 1460 + (b - a)" using assms by (intro div_slow) simp_all
  have 2: "a div 36524 \<le> b div 36524" using assms by (intro zdiv_mono1) simp_all
  have "a - a div 1460 + a div 36524 - a div 146096 \<le> b - b div 1460 + b div 36524 - b div 146096"
  proof (cases "b = 146096 \<and> a < b")
    case True
    then have "a div 36524 < 4" "a div 146096 = 0" using assms by (auto simp: div_pos_pos_trivial)
    then show ?thesis using True 1 by simp
  next
    case False
    then have "a div 146096 = b div 146096" using assms by (cases "a = b") (auto simp: div_pos_pos_trivial)
    then show ?thesis using 1 2 by simp
  qed
  then show ?thesis unfolding year_of_era_def by (rule zdiv_mono1) simp
qed

lemma year_tableD:
  assumes "0 \<le> y" "y \<le> 399"
  shows "year_of_era (year_start y) = y" "0 < y \<Longrightarrow> year_of_era (year_start y - 1) = y - 1"
    "y < 399 \<Longrightarrow> year_start (y + 1) = year_start y + (if leap_year (y + 1) then 366 else 365)"
proof -
  have y: "y \<in> set [0..399]" using assms by simp
  note facts = year_table [unfolded year_table_def list_all_iff, THEN bspec, OF y]
  show "year_of_era (year_start y) = y" using facts by blast
  show "0 < y \<Longrightarrow> year_of_era (year_start y - 1) = y - 1" using facts by linarith
  show "y < 399 \<Longrightarrow> year_start (y + 1) = year_start y + (if leap_year (y + 1) then 366 else 365)"
    using facts by linarith
qed

lemma year_start_bounds:
  assumes "0 \<le> y" "y \<le> 399"
  shows "0 \<le> year_start y" "year_start y \<le> 145731"
  using assms by (auto simp: year_start_def)

text \<open>A day of an era lies in the year that the formula gives.\<close>

lemma year_of_era_bounds:
  assumes "0 \<le> doe" "doe \<le> 146096"
  shows "0 \<le> year_of_era doe" "year_of_era doe \<le> 399"
  using year_of_era_mono [of 0 doe] year_of_era_mono [of doe 146096] assms by (simp_all add: year_of_era_def)

lemma day_in_year:
  assumes "0 \<le> doe" "doe \<le> 146096"
  shows "year_start (year_of_era doe) \<le> doe"
    and "year_of_era doe < 399 \<Longrightarrow> doe < year_start (year_of_era doe + 1)"
proof -
  let ?y = "year_of_era doe"
  note y = year_of_era_bounds [OF assms]
  show "year_start ?y \<le> doe"
  proof (rule ccontr)
    assume less: "\<not> year_start ?y \<le> doe"
    have "?y \<noteq> 0" using less assms by (auto simp: year_start_def)
    then have "0 < ?y" using y by simp
    have "?y \<le> year_of_era (year_start ?y - 1)"
      using less assms year_start_bounds [OF y] by (intro year_of_era_mono) simp_all
    then show False using year_tableD(2) [OF y \<open>0 < ?y\<close>] by simp
  qed
  assume "?y < 399"
  then have y': "0 \<le> ?y + 1" "?y + 1 \<le> 399" using y by simp_all
  show "doe < year_start (?y + 1)"
  proof (rule ccontr)
    assume "\<not> doe < year_start (?y + 1)"
    then have "year_of_era (year_start (?y + 1)) \<le> ?y"
      using assms year_start_bounds [OF y'] by (intro year_of_era_mono) simp_all
    then show False using year_tableD(1) [OF y'] by simp
  qed
qed

lemma year_unique:
  assumes "0 \<le> y" "y \<le> 399" "year_start y \<le> doe" "doe \<le> 146096" "y = 399 \<or> doe < year_start (y + 1)"
  shows "year_of_era doe = y"
proof -
  have "y \<le> year_of_era doe"
    using year_of_era_mono [of "year_start y" doe] year_tableD(1) [OF assms(1,2)] year_start_bounds [OF assms(1,2)] assms
    by simp
  moreover have "year_of_era doe \<le> y"
  proof (cases "y = 399")
    case True
    then show ?thesis using year_of_era_bounds [of doe] assms year_start_bounds [OF assms(1,2)] by simp
  next
    case False
    then have y': "0 \<le> y + 1" "y + 1 \<le> 399" "0 < y + 1" using assms by simp_all
    have "year_of_era doe \<le> year_of_era (year_start (y + 1) - 1)"
      using assms False year_start_bounds [OF y'(1,2)] year_start_bounds [OF assms(1,2)]
      by (intro year_of_era_mono) simp_all
    then show ?thesis using year_tableD(2) [OF y'] by simp
  qed
  ultimately show ?thesis by simp
qed

text \<open>
  A March year has a 29 February at its end exactly when the civil year after it is a leap year; the
  last year of an era has one.
\<close>

lemma leap_year_era: "leap_year (y + era * 400) = leap_year y"
proof -
  have 4: "y + era * 400 = y + (era * 100) * 4" by simp
  have 100: "y + era * 400 = y + (era * 4) * 100" by simp
  have "(y + era * 400) mod 4 = y mod 4" by (simp only: 4 mod_mult_self1)
  moreover have "(y + era * 400) mod 100 = y mod 100" by (simp only: 100 mod_mult_self1)
  moreover have "(y + era * 400) mod 400 = y mod 400" by simp
  ultimately show ?thesis by (simp add: leap_year_def)
qed

subsection \<open>Months\<close>

definition month_start :: "int \<Rightarrow> int" where
  "month_start mp = (153 * mp + 2) div 5"

lemma month_start_less: "month_start mp < month_start (mp + 1)"
proof -
  have "(153 * mp + 2 + 1 * 5) div 5 \<le> (153 * (mp + 1) + 2) div 5" by (rule zdiv_mono1) simp_all
  then show ?thesis unfolding month_start_def by (simp only: div_mult_self1)
qed

lemma month_of: "(5 * doy + 2) div 153 = mp \<longleftrightarrow> month_start mp \<le> doy \<and> doy < month_start (mp + 1)"
proof -
  have "month_start k \<le> doy \<longleftrightarrow> 153 * k \<le> 5 * doy + 2" for k unfolding month_start_def by linarith
  moreover have "(5 * doy + 2) div 153 = mp \<longleftrightarrow> 153 * mp \<le> 5 * doy + 2 \<and> 5 * doy + 2 < 153 * (mp + 1)"
    by (auto simp: int_div_pos_eq)
  ultimately show ?thesis by (simp only: not_le [symmetric])
qed

definition month_number :: "int \<Rightarrow> int" where
  "month_number mp = (if mp < 10 then mp + 3 else mp - 9)"

lemma month_day_at:
  assumes "month_start mp \<le> doy" "doy < month_start (mp + 1)"
  shows "month_day doy = (month_number mp, doy - month_start mp + 1)"
  using assms month_of [of doy mp] by (simp add: month_day_def month_number_def month_start_def Let_def)

lemma month_exists:
  assumes "0 \<le> doy" "doy \<le> 365"
  obtains mp where "0 \<le> mp" "mp \<le> 11" "month_start mp \<le> doy" "doy < month_start (mp + 1)"
proof -
  let ?mp = "(5 * doy + 2) div 153"
  have "0 \<le> ?mp" "?mp \<le> 11" using assms by simp_all
  then show ?thesis using that [of ?mp] month_of [of doy ?mp] by blast
qed

lemma eleven_cases:
  assumes "0 \<le> mp" "mp \<le> (11 :: int)"
  obtains "mp = 0" | "mp = 1" | "mp = 2" | "mp = 3" | "mp = 4" | "mp = 5" | "mp = 6" | "mp = 7" | "mp = 8" |
    "mp = 9" | "mp = 10" | "mp = 11"
proof -
  have "mp \<in> set [0..11]" using assms by simp
  also have "[0..11] = [0, 1, 2, 3, 4, 5, 6, 7, 8, 9, 10, 11 :: int]" by (simp add: upto_rec1)
  finally show ?thesis using that by auto
qed

lemma month_lengths:
  assumes "0 \<le> mp" "mp \<le> 10"
  shows "month_start (mp + 1) = month_start mp + month_length y (month_number mp)" "month_number mp \<noteq> 2"
    "month_number (mp + 1) = (if month_number mp < 12 then month_number mp + 1 else 1)"
proof -
  have "mp \<le> 11" using assms by simp
  from eleven_cases [OF assms(1) this]
  show "month_start (mp + 1) = month_start mp + month_length y (month_number mp)"
    by cases (use assms in \<open>simp_all add: month_start_def month_length_def month_number_def\<close>)
  from eleven_cases [OF assms(1) \<open>mp \<le> 11\<close>]
  show "month_number mp \<noteq> 2" by cases (use assms in \<open>simp_all add: month_number_def\<close>)
  from eleven_cases [OF assms(1) \<open>mp \<le> 11\<close>]
  show "month_number (mp + 1) = (if month_number mp < 12 then month_number mp + 1 else 1)"
    by cases (use assms in \<open>simp_all add: month_number_def\<close>)
qed

subsection \<open>Days of an era\<close>

text \<open>The place of a day: era, March year, March month and day within it, all counted from zero.\<close>

definition placed :: "int \<Rightarrow> int \<Rightarrow> int \<Rightarrow> int \<Rightarrow> int \<Rightarrow> bool" where
  "placed days era y mp k \<longleftrightarrow>
     (let doy = month_start mp + k; doe = year_start y + doy
      in days + 719468 = era * 146097 + doe \<and> 0 \<le> y \<and> y \<le> 399 \<and> doe \<le> 146096 \<and>
         (y = 399 \<or> doe < year_start (y + 1)) \<and> 0 \<le> mp \<and> mp \<le> 11 \<and> 0 \<le> k \<and> doy < month_start (mp + 1))"

lemma month_start_nonneg: "0 \<le> mp \<Longrightarrow> 0 \<le> month_start mp"
  by (simp add: month_start_def)

lemma civil_placed:
  assumes "placed days era y mp k"
  shows "civil days = (y + era * 400 + (if month_number mp \<le> 2 then 1 else 0), month_number mp, k + 1)"
proof -
  let ?doy = "month_start mp + k" and ?z = "days + 719468"
  let ?doe = "year_start y + ?doy"
  note p = assms [unfolded placed_def Let_def]
  have doe: "0 \<le> ?doe" "?doe \<le> 146096" "?z = ?doe + era * 146097"
    using p year_start_bounds [of y] month_start_nonneg [of mp] by simp_all
  have era: "?z div 146097 = era" unfolding doe(3) using doe(1,2) by (simp add: div_pos_pos_trivial)
  have year: "year_of_era ?doe = y" using p month_start_nonneg [of mp] by (intro year_unique) simp_all
  have "month_day ?doy = (month_number mp, k + 1)" using month_day_at [of mp ?doy] p by simp
  moreover have "?z - era * 146097 = ?doe" using doe(3) by simp
  ultimately show ?thesis by (simp add: civil_def Let_def era year)
qed

lemma placed_exists: obtains era y mp k where "placed days era y mp k"
proof -
  let ?z = "days + 719468"
  let ?era = "?z div 146097" and ?doe = "?z mod 146097"
  let ?y = "year_of_era ?doe"
  let ?doy = "?doe - year_start ?y"
  have doe: "0 \<le> ?doe" "?doe \<le> 146096" using pos_mod_bound [of 146097 ?z] by simp_all
  note y = year_of_era_bounds [OF doe]
  have start: "year_start ?y \<le> ?doe" "?y = 399 \<or> ?doe < year_start (?y + 1)"
    using day_in_year [OF doe] y by fastforce+
  have "?doy \<le> 365"
  proof (cases "?y = 399")
    case True
    have "year_start 399 = 145731" by (simp add: year_start_def)
    then show ?thesis using True doe by simp
  next
    case False
    then show ?thesis using start year_tableD(3) [of ?y] y by (auto split: if_splits)
  qed
  moreover have "0 \<le> ?doy" using start by simp
  ultimately obtain mp where mp: "0 \<le> mp" "mp \<le> 11" "month_start mp \<le> ?doy" "?doy < month_start (mp + 1)"
    using month_exists [of ?doy] by blast
  have "?z = ?era * 146097 + ?doe" by simp
  then have "placed days ?era ?y mp (?doy - month_start mp)"
    using doe y start mp by (simp add: placed_def Let_def)
  then show ?thesis by (rule that)
qed

lemma march_half: "0 \<le> mp \<Longrightarrow> mp \<le> 10 \<Longrightarrow> month_start (mp + 1) \<le> 337"
  using zdiv_mono1 [of "153 * (mp + 1) + 2" 1685 5] by (simp add: month_start_def)

lemma civil_next:
  "civil (days + 1) = next_day (civil days)"
proof -
  obtain era y mp k where placed: "placed days era y mp k" by (rule placed_exists)
  let ?Y = "y + era * 400 + (if month_number mp \<le> 2 then 1 else 0)"
  let ?doe = "year_start y + month_start mp + k"
  note p = placed [unfolded placed_def Let_def]
  have now: "civil days = (?Y, month_number mp, k + 1)" by (rule civil_placed [OF placed])
  have last: "year_start 399 = 145731" by (simp add: year_start_def)
  have start: "year_start y \<le> 145731" using p year_start_bounds by blast
  have year_end: "y = 399 \<or> year_start (y + 1) = year_start y + (if leap_year (y + 1) then 366 else 365)"
    using year_tableD(3) [of y] p by fastforce
  show ?thesis
  proof (cases "mp \<le> 10")
    case True
    have "0 \<le> mp" using p by simp
    note len = month_lengths(1) [OF this True, of ?Y] month_lengths(2,3) [OF this True]
    have fits: "?doe + 1 \<le> 146096" "y = 399 \<or> ?doe + 1 < year_start (y + 1)"
      using p march_half [OF \<open>0 \<le> mp\<close> True] year_end start by (auto split: if_splits)
    show ?thesis
    proof (cases "month_start mp + k + 1 < month_start (mp + 1)")
      case True
      then have "placed (days + 1) era y mp (k + 1)" using p fits by (auto simp: placed_def Let_def)
      from civil_placed [OF this] show ?thesis using True len p by (simp add: now)
    next
      case False
      then have k: "month_start mp + k + 1 = month_start (mp + 1)" using p by simp
      have "month_start (mp + 1) < month_start (mp + 1 + 1)" by (rule month_start_less)
      then have "placed (days + 1) era y (mp + 1) 0" using p fits k True by (auto simp: placed_def Let_def)
      from civil_placed [OF this] show ?thesis using k len p by (auto simp: now)
    qed
  next
    case False
    then have mp: "mp = 11" using p by simp
    have feb: "month_number mp = 2" "month_start mp = 337" "month_start (mp + 1) = 367"
      by (simp_all add: mp month_number_def month_start_def)
    have leap: "leap_year (y + era * 400 + 1) \<longleftrightarrow> leap_year (y + 1)"
      using leap_year_era [of "y + 1" era] by (simp add: ac_simps)
    have "leap_year 400" by (simp add: leap_year_def)
    then have len: "month_length (y + era * 400 + 1) 2 = (if y = 399 \<or> leap_year (y + 1) then 29 else 28)"
      by (auto simp: month_length_def leap)
    show ?thesis
    proof (cases "?doe + 1 \<le> 146096 \<and> (y = 399 \<or> ?doe + 1 < year_start (y + 1))")
      case True
      then have "placed (days + 1) era y mp (k + 1)" using p feb mp year_end last
        by (auto simp: placed_def Let_def split: if_splits)
      from civil_placed [OF this] show ?thesis using True feb len year_end last
        by (auto simp: now split: if_splits)
    next
      case False
      show ?thesis
      proof (cases "y = 399")
        case True
        then have "placed (days + 1) (era + 1) 0 0 0" using p False feb
          by (simp add: placed_def Let_def year_start_def month_start_def)
        from civil_placed [OF this] show ?thesis using True False p feb len last
          by (simp add: now month_number_def)
      next
        case y: False
        have "y + 1 = 399 \<or> year_start (y + 1) < year_start (y + 1 + 1)"
          using year_tableD(3) [of "y + 1"] p y by (cases "y < 398") (simp_all, linarith?)
        then have "placed (days + 1) era (y + 1) 0 0" using y p False feb year_end year_start_bounds [of "y + 1"]
          by (auto simp: placed_def Let_def month_start_def)
        from civil_placed [OF this] show ?thesis using y False p feb len year_end year_start_bounds(2) [of "y + 1"]
          by (auto simp: now month_number_def split: if_splits)
      qed
    qed
  qed
qed

lemma civil_epoch: "civil 0 = (1970, 1, 1)"
  by code_simp

section \<open>Round trip\<close>

lemma months_back:
  assumes "0 \<le> mp" "mp \<le> 11"
  shows "(if 2 < month_number mp then month_number mp - 3 else month_number mp + 9) = mp"
    "(month_number mp \<le> 2) = (10 \<le> mp)" "1 \<le> month_number mp \<and> month_number mp \<le> 12"
  using assms by (auto simp: month_number_def)

lemma days_from_placed:
  assumes "placed days era y mp k"
  shows "days_from_civil (y + era * 400 + (if month_number mp \<le> 2 then 1 else 0)) (month_number mp) (k + 1) = days"
proof -
  note p = assms [unfolded placed_def Let_def]
  let ?Y = "y + era * 400 + (if month_number mp \<le> 2 then 1 else 0)"
  have y: "(if month_number mp \<le> 2 then ?Y - 1 else ?Y) = y + era * 400" by simp
  have era: "(y + era * 400) div 400 = era" using p by (simp add: div_pos_pos_trivial)
  have mp: "(if 2 < month_number mp then month_number mp - 3 else month_number mp + 9) = mp"
    using p by (intro months_back) simp_all
  show ?thesis unfolding days_from_civil_def y Let_def era mp
    using p by (simp add: month_start_def year_start_def)
qed

lemma placed_bounds:
  assumes "placed days era y mp k" "0 \<le> days"
  shows "0 \<le> era" "146097 * era \<le> days + 719468" "k < 31"
proof -
  note p = assms [unfolded placed_def Let_def]
  have doe: "0 \<le> year_start y + month_start mp + k" "year_start y + month_start mp + k \<le> 146096"
    using p year_start_bounds [of y] month_start_nonneg [of mp] by simp_all
  then show "0 \<le> era" "146097 * era \<le> days + 719468" using p assms(2) by simp_all
  show "k < 31"
  proof (cases "mp \<le> 10")
    case True
    then show ?thesis using month_lengths(1) [of mp 1] p by (auto simp: month_length_def split: if_splits)
  next
    case False
    then have "mp = 11" using p by simp
    then show ?thesis using p by (simp add: month_start_def)
  qed
qed

lemma split_at_part: "c \<notin> set xs \<Longrightarrow> split_at c (xs @ c # ys) = xs # split_at c ys"
  by (induction xs) auto

lemma split_at_last: "c \<notin> set xs \<Longrightarrow> split_at c xs = [xs]"
  by (induction xs) auto

lemma pad_zero_digits: "c \<in> set (pad_zero w n) \<Longrightarrow> c \<in> set ''0123456789''"
  using show_nat_digits [of c "nat n"] by (auto simp: pad_zero_def Let_def)

lemma parse_pad_zero:
  assumes "0 \<le> n" "nat n \<le> i64_max"
  shows "parse_part (pad_zero w n) = Some n"
proof -
  have zeros: "parse_digits i64_max 0 (replicate j (CHR ''0'') @ s) = parse_digits i64_max 0 s" for j s
    by (induction j) (simp_all add: digit_value_def)
  obtain c cs where s: "pad_zero w n = c # cs" by (cases "pad_zero w n") (auto simp: pad_zero_def Let_def)
  have "c \<noteq> CHR ''+''" using pad_zero_digits [of c w n] s by auto
  then have "parse_unsigned i64_max (pad_zero w n) = parse_digits i64_max 0 (pad_zero w n)"
    by (simp add: parse_unsigned_def s)
  also have "\<dots> = Some (nat n)" using parse_show_nat [OF assms(2)] by (simp add: pad_zero_def Let_def zeros)
  finally show ?thesis using assms(1) by (simp add: parse_part_def)
qed

lemma parse_date_text:
  assumes "0 \<le> y" "nat y \<le> i64_max" "0 \<le> m" "nat m \<le> i64_max" "0 \<le> d" "nat d \<le> i64_max"
  shows "day_number (date_text (y, m, d)) =
    (let n = days_from_civil y m d in if 0 \<le> n \<and> n \<le> int u64_max then Some (nat n) else None)"
proof -
  have dash: "CHR ''-'' \<notin> set (pad_zero w n)" for w n using pad_zero_digits by force
  have "split_at (CHR ''-'') (date_text (y, m, d)) = [pad_zero 4 y, pad_zero 2 m, pad_zero 2 d]"
    by (simp add: split_at_part [OF dash] split_at_last [OF dash])
  then show ?thesis using assms by (simp add: day_number_def parse_pad_zero del: date_text.simps)
qed

text \<open>The days of a 64-bit number of seconds.\<close>

definition last_day :: nat where "last_day = unix_day u64_max"

lemma day_number_civil:
  assumes "d \<le> last_day"
  shows "day_number (civil_day d) = Some d"
proof -
  obtain era y mp k where placed: "placed (int d) era y mp k" by (rule placed_exists)
  note p = placed [unfolded placed_def Let_def] and b = placed_bounds [OF placed]
  let ?Y = "y + era * 400 + (if month_number mp \<le> 2 then 1 else 0)"
  have d: "d \<le> 213503982334601" using assms by (simp add: last_day_def unix_day_def u64_max_def)
  have Y: "0 \<le> ?Y" "nat ?Y \<le> i64_max" using p b d by (auto simp: i64_max_def)
  have M: "0 \<le> month_number mp" "nat (month_number mp) \<le> i64_max"
    using months_back(3) [of mp] p by (auto simp: i64_max_def)
  have D: "0 \<le> k + 1" "nat (k + 1) \<le> i64_max" using p b by (auto simp: i64_max_def)
  have "civil_day d = date_text (?Y, month_number mp, k + 1)"
    using d civil_placed [OF placed] by (simp add: civil_day_def i64_max_def del: date_text.simps)
  then show ?thesis using parse_date_text [OF Y M D] days_from_placed [OF placed] d
    by (simp add: u64_max_def del: date_text.simps)
qed

lemma civil_iterate: "civil (int d) = (next_day ^^ d) (1970, 1, 1)"
proof (induction d)
  case (Suc d)
  then show ?case using civil_next [of "int d"] by (simp add: add.commute del: next_day.simps)
qed (simp add: civil_epoch)

text \<open>
  The days of the ledger are the days of the calendar. For every 64-bit number of seconds the day
  that is recorded is the day of the Gregorian calendar that many days after 1 January 1970, and reading
  the text back gives the day number that was printed.
\<close>

theorem ledger_days_are_gregorian:
  assumes "seconds \<le> u64_max"
  shows "civil_day (unix_day seconds) = date_text ((next_day ^^ unix_day seconds) (1970, 1, 1)) \<and>
    day_number (civil_day (unix_day seconds)) = Some (unix_day seconds)"
proof
  have "unix_day seconds \<le> last_day" using assms unfolding last_day_def unix_day_def by (rule div_le_mono)
  then show "day_number (civil_day (unix_day seconds)) = Some (unix_day seconds)" by (rule day_number_civil)
  have "unix_day seconds \<le> i64_max"
    using \<open>unix_day seconds \<le> last_day\<close> by (simp add: last_day_def unix_day_def u64_max_def i64_max_def)
  then show "civil_day (unix_day seconds) = date_text ((next_day ^^ unix_day seconds) (1970, 1, 1))"
    by (simp add: civil_day_def civil_iterate del: date_text.simps next_day.simps)
qed

lemma ledger_days_are_gregorian_witness:
  "civil_day 59 = ''1970-03-01'' \<and> day_number ''1970-03-01'' = Some 59"
proof -
  have "civil 59 = (1970, 3, 1)" by code_simp
  then have day: "civil_day 59 = ''1970-03-01''"
    by (simp add: civil_day_def i64_max_def pad_zero_def show_nat.simps Let_def)
  have secs: "5100000 \<le> u64_max" and unix: "unix_day 5100000 = 59" by (simp_all add: unix_day_def u64_max_def)
  have "day_number (civil_day 59) = Some 59"
    using ledger_days_are_gregorian [OF secs, THEN conjunct2] by (simp only: unix)
  then show ?thesis by (simp only: day conj_absorb simp_thms)
qed

end
