(* ===== verification/Telemetry.thy ===== *)
theory Telemetry
  imports Calendar Feedback "HOL-Library.Product_Lexorder"
begin

text \<open>
  Counters, the usage totals per day and the usage ledger (\<open>platform/telemetry/mod.rs\<close> and
  \<open>ledger.rs\<close>). The state behind the lock, the bounded channel to the writer thread, the record the
  writer holds and the files are one state; every critical section and every step of the writer is a
  function on it, so that calls and writer interleave freely. Printing and parsing a record are
  arguments; a string is its bytes. Counts of events are not wrapped at 64 bits.
\<close>

section \<open>Records and totals\<close>

record task_record =
  tr_ts :: nat
  tr_model :: string
  tr_backend :: string
  tr_task :: string
  tr_priority :: string
  tr_outcome :: string
  tr_status :: nat
  tr_prompt_tokens :: nat
  tr_output_tokens :: nat
  tr_duration_ms :: nat
  tr_queue_wait_ms :: nat
  tr_load_ms :: nat
  tr_output_tokens_per_second :: "f64 option"

record usage_totals =
  ut_tasks :: nat
  ut_errors :: nat
  ut_prompt_tokens :: nat
  ut_output_tokens :: nat
  ut_busy_ms :: nat
  ut_queue_wait_ms :: nat

definition totals_zero :: usage_totals where
  "totals_zero = \<lparr>ut_tasks = 0, ut_errors = 0, ut_prompt_tokens = 0, ut_output_tokens = 0, ut_busy_ms = 0,
     ut_queue_wait_ms = 0\<rparr>"

definition totals_add :: "task_record \<Rightarrow> usage_totals \<Rightarrow> usage_totals" where
  "totals_add r t =
     \<lparr>ut_tasks = ut_tasks t + 1,
      ut_errors = (if tr_outcome r \<noteq> ''ok'' then ut_errors t + 1 else ut_errors t),
      ut_prompt_tokens = sat_add u64_max (ut_prompt_tokens t) (tr_prompt_tokens r),
      ut_output_tokens = sat_add u64_max (ut_output_tokens t) (tr_output_tokens r),
      ut_busy_ms = sat_add u64_max (ut_busy_ms t) (tr_duration_ms r),
      ut_queue_wait_ms = sat_add u64_max (ut_queue_wait_ms t) (tr_queue_wait_ms r)\<rparr>"

definition totals_merge :: "usage_totals \<Rightarrow> usage_totals \<Rightarrow> usage_totals" where
  "totals_merge other t =
     \<lparr>ut_tasks = ut_tasks t + ut_tasks other, ut_errors = ut_errors t + ut_errors other,
      ut_prompt_tokens = sat_add u64_max (ut_prompt_tokens t) (ut_prompt_tokens other),
      ut_output_tokens = sat_add u64_max (ut_output_tokens t) (ut_output_tokens other),
      ut_busy_ms = sat_add u64_max (ut_busy_ms t) (ut_busy_ms other),
      ut_queue_wait_ms = sat_add u64_max (ut_queue_wait_ms t) (ut_queue_wait_ms other)\<rparr>"

record task_counters =
  tc_count :: nat
  tc_prompt_tokens :: nat
  tc_output_tokens :: nat
  tc_duration_ms :: nat
  tc_queue_wait_ms :: nat
  tc_load_ms :: nat

definition counters_zero :: task_counters where
  "counters_zero = \<lparr>tc_count = 0, tc_prompt_tokens = 0, tc_output_tokens = 0, tc_duration_ms = 0,
     tc_queue_wait_ms = 0, tc_load_ms = 0\<rparr>"

definition counters_add :: "task_record \<Rightarrow> task_counters \<Rightarrow> task_counters" where
  "counters_add r c =
     \<lparr>tc_count = tc_count c + 1,
      tc_prompt_tokens = sat_add u64_max (tc_prompt_tokens c) (tr_prompt_tokens r),
      tc_output_tokens = sat_add u64_max (tc_output_tokens c) (tr_output_tokens r),
      tc_duration_ms = sat_add u64_max (tc_duration_ms c) (tr_duration_ms r),
      tc_queue_wait_ms = sat_add u64_max (tc_queue_wait_ms c) (tr_queue_wait_ms r),
      tc_load_ms = sat_add u64_max (tc_load_ms c) (tr_load_ms r)\<rparr>"

text \<open>
  The row of a finished call (\<open>task_record\<close> of \<open>execution/feedback.rs\<close>): from the answer, or from the
  error's status.
\<close>

definition u64_field :: "json \<Rightarrow> string \<Rightarrow> nat" where
  "u64_field j k = (case as_u64 (jindex j k) of None \<Rightarrow> 0 | Some n \<Rightarrow> n)"

definition task_row :: "api_error + json \<Rightarrow> nat \<Rightarrow> nat \<Rightarrow> string \<Rightarrow> string \<Rightarrow> string option \<Rightarrow> task_record" where
  "task_row result now duration task priority requested =
     (let r = \<lparr>tr_ts = now, tr_model = (case requested of None \<Rightarrow> ''unrouted'' | Some m \<Rightarrow> m), tr_backend = ''none'',
               tr_task = task, tr_priority = priority, tr_outcome = ''ok'', tr_status = 200, tr_prompt_tokens = 0,
               tr_output_tokens = 0, tr_duration_ms = duration, tr_queue_wait_ms = 0, tr_load_ms = 0,
               tr_output_tokens_per_second = None\<rparr>
      in case result of
           Inl e \<Rightarrow> r\<lparr>tr_outcome := ''error'', tr_status := ae_status e\<rparr>
         | Inr v \<Rightarrow>
             (let metrics = jindex v ''metrics''
              in r\<lparr>tr_model := (case as_str (jindex (jindex v ''route'') ''selected_model'') of
                                  None \<Rightarrow> tr_model r | Some m \<Rightarrow> m),
                   tr_backend := (case as_str (jindex (jindex v ''execution'') ''placement'') of
                                    None \<Rightarrow> tr_backend r | Some b \<Rightarrow> b),
                   tr_prompt_tokens := u64_field metrics ''prompt_tokens'',
                   tr_output_tokens := u64_field metrics ''output_tokens'',
                   tr_load_ms := u64_field metrics ''load_duration_ns'' div 1000000,
                   tr_output_tokens_per_second := as_f64 (jindex metrics ''output_tokens_per_second''),
                   tr_queue_wait_ms := u64_field (jindex v ''admission'') ''total_wait_ms''\<rparr>))"

section \<open>Counters and usage\<close>

definition bt_modify :: "'k::linorder \<Rightarrow> 'v \<Rightarrow> ('v \<Rightarrow> 'v) \<Rightarrow> ('k, 'v) btree \<Rightarrow> ('k, 'v) btree" where
  "bt_modify k d f m = bt_put k (f (case bt_get m k of None \<Rightarrow> d | Some v \<Rightarrow> v)) m"

type_synonym usage_map = "(string \<times> string, usage_totals) btree"

record inner =
  te_tasks :: "(string \<times> string \<times> string \<times> string, task_counters) btree"
  te_usage :: usage_map
  te_raw :: "(string \<times> string, nat) btree"
  te_evictions :: "(string, nat) btree"
  te_breaker_opens :: "(string, nat) btree"
  te_limit_changes :: "(string \<times> string, nat) btree"
  te_ledger_error :: "string option"
  te_ledger_records :: nat
  te_ledger_pending :: nat
  te_ledger_failed :: nat
  te_ledger_dropped :: nat
  te_average_ms :: "(string, nat) btree"

definition inner_default :: inner where
  "inner_default = \<lparr>te_tasks = [], te_usage = [], te_raw = [], te_evictions = [], te_breaker_opens = [],
     te_limit_changes = [], te_ledger_error = None, te_ledger_records = 0, te_ledger_pending = 0,
     te_ledger_failed = 0, te_ledger_dropped = 0, te_average_ms = []\<rparr>"

definition MAX_USAGE_DAYS :: nat where "MAX_USAGE_DAYS = 400"

definition usage_days :: "usage_map \<Rightarrow> string list" where
  "usage_days m = remdups (map (fst \<circ> fst) m)"

function keep_days :: "usage_map \<Rightarrow> usage_map" where
  "keep_days m =
     (if MAX_USAGE_DAYS < length (usage_days m)
      then case m of
             [] \<Rightarrow> m
           | (key, _) # _ \<Rightarrow> keep_days (bt_retain (\<lambda>k _. fst k \<noteq> fst key) m)
      else m)"
  by pat_completeness auto
termination
  by (relation "measure length") (auto simp: bt_retain_def le_imp_less_Suc)

declare keep_days.simps [simp del]

definition usage_key :: "task_record \<Rightarrow> string \<times> string" where
  "usage_key r = (civil_day (unix_day (tr_ts r)), tr_model r)"

definition usage_put :: "task_record \<Rightarrow> usage_map \<Rightarrow> usage_map" where
  "usage_put r m = keep_days (bt_modify (usage_key r) totals_zero (totals_add r) m)"

definition add_usage :: "task_record \<Rightarrow> inner \<Rightarrow> inner" where
  "add_usage r te = te\<lparr>te_usage := usage_put r (te_usage te)\<rparr>"

definition learn_average :: "task_record \<Rightarrow> inner \<Rightarrow> inner" where
  "learn_average r te =
     (if tr_outcome r = ''ok''
      then let service = tr_duration_ms r - tr_queue_wait_ms r
           in te\<lparr>te_average_ms := bt_modify (tr_backend r) service
                   (\<lambda>average. sat_add u64_max (sat_mul u64_max average 4) service div 5) (te_average_ms te)\<rparr>
      else te)"

definition count_task :: "task_record \<Rightarrow> inner \<Rightarrow> inner" where
  "count_task r te =
     add_usage r (learn_average r
       (te\<lparr>te_tasks := bt_modify (tr_model r, tr_backend r, tr_task r, tr_outcome r) counters_zero
             (counters_add r) (te_tasks te)\<rparr>))"

definition average_task_ms :: "string \<Rightarrow> inner \<Rightarrow> nat option" where
  "average_task_ms backend te = bt_get (te_average_ms te) backend"

definition record_raw :: "string \<Rightarrow> string \<Rightarrow> inner \<Rightarrow> inner" where
  "record_raw kind outcome te = te\<lparr>te_raw := bt_modify (kind, outcome) 0 Suc (te_raw te)\<rparr>"

definition record_evictions :: "string \<Rightarrow> nat \<Rightarrow> inner \<Rightarrow> inner" where
  "record_evictions backend n te =
     (if 0 < n then te\<lparr>te_evictions := bt_modify backend 0 (\<lambda>c. c + n) (te_evictions te)\<rparr> else te)"

definition record_breaker_open :: "string \<Rightarrow> inner \<Rightarrow> inner" where
  "record_breaker_open backend te = te\<lparr>te_breaker_opens := bt_modify backend 0 Suc (te_breaker_opens te)\<rparr>"

definition record_limit_change :: "string \<Rightarrow> string \<Rightarrow> inner \<Rightarrow> inner" where
  "record_limit_change backend direction te =
     te\<lparr>te_limit_changes := bt_modify (backend, direction) 0 Suc (te_limit_changes te)\<rparr>"

section \<open>The ledger file\<close>

definition LEDGER_MAX_BYTES :: nat where "LEDGER_MAX_BYTES = 16 * 1024 * 1024"

record ledger_disk =
  ld_main :: "string option"
  ld_rotated :: "string option"

text \<open>
  What fails in an append, with the error text; \<open>WriteAll n\<close> fails after \<open>n\<close> bytes of the line. A path
  that is not a regular file fails at \<open>Stat\<close> or \<open>OpenLedger\<close>.
\<close>

datatype append_stage = MakeDir | Stat | Rotate | OpenLedger | WriteAll nat
type_synonym append_fault = "(append_stage \<times> string) option"

definition ledger_append ::
  "(task_record \<Rightarrow> string) \<Rightarrow> append_fault \<Rightarrow> task_record \<Rightarrow> ledger_disk \<Rightarrow> (string + unit) \<times> ledger_disk" where
  "ledger_append print fault r d =
     (let full = (case ld_main d of None \<Rightarrow> False | Some bytes \<Rightarrow> LEDGER_MAX_BYTES \<le> length bytes);
          rotated = (if full then \<lparr>ld_main = None, ld_rotated = ld_main d\<rparr> else d);
          bytes = (case ld_main rotated of None \<Rightarrow> [] | Some bytes \<Rightarrow> bytes);
          line = print r @ [CHR 0x0A]
      in case fault of
           Some (MakeDir, e) \<Rightarrow> (Inl e, d)
         | Some (Stat, e) \<Rightarrow> (Inl e, d)
         | Some (OpenLedger, e) \<Rightarrow> (Inl e, rotated)
         | Some (WriteAll n, e) \<Rightarrow> (Inl e, rotated\<lparr>ld_main := Some (bytes @ take n line)\<rparr>)
         | Some (Rotate, e) \<Rightarrow>
             if full then (Inl e, d) else (Inr (), rotated\<lparr>ld_main := Some (bytes @ line)\<rparr>)
         | None \<Rightarrow> (Inr (), rotated\<lparr>ld_main := Some (bytes @ line)\<rparr>))"

text \<open>
  Lines of text: a line feed ends a line and takes a carriage return before it along; a line that is not
  UTF-8 ends the reading.
\<close>

definition strip_cr :: "string \<Rightarrow> string" where
  "strip_cr line = (if line \<noteq> [] \<and> last line = CHR 0x0D then butlast line else line)"

fun byte_lines :: "string \<Rightarrow> string \<Rightarrow> string list" where
  "byte_lines line [] = (if line = [] then [] else [line])"
| "byte_lines line (c # cs) =
     (if c = CHR 0x0A then strip_cr line # byte_lines [] cs else byte_lines (line @ [c]) cs)"

definition utf8_rest :: "nat \<Rightarrow> (nat \<times> nat) list" where
  "utf8_rest n =
     (if 194 \<le> n \<and> n \<le> 223 then [(128, 191)]
      else if n = 224 then [(160, 191), (128, 191)]
      else if n = 237 then [(128, 159), (128, 191)]
      else if 225 \<le> n \<and> n \<le> 239 then [(128, 191), (128, 191)]
      else if n = 240 then [(144, 191), (128, 191), (128, 191)]
      else if 241 \<le> n \<and> n \<le> 243 then [(128, 191), (128, 191), (128, 191)]
      else if n = 244 then [(128, 143), (128, 191), (128, 191)]
      else [])"

fun utf8_run :: "(nat \<times> nat) list \<Rightarrow> string \<Rightarrow> bool" where
  "utf8_run need [] \<longleftrightarrow> need = []"
| "utf8_run ((lo, hi) # need) (c # cs) \<longleftrightarrow> lo \<le> of_char c \<and> of_char c \<le> hi \<and> utf8_run need cs"
| "utf8_run [] (c # cs) \<longleftrightarrow>
     (if of_char c < (128 :: nat) then utf8_run [] cs
      else utf8_rest (of_char c) \<noteq> [] \<and> utf8_run (utf8_rest (of_char c)) cs)"

definition utf8_ok :: "string \<Rightarrow> bool" where "utf8_ok = utf8_run []"

definition replay :: "(string \<Rightarrow> task_record option) \<Rightarrow> string option \<Rightarrow> string option \<Rightarrow> string + task_record list" where
  "replay parse fault bytes =
     (case (fault, bytes) of
        (Some e, _) \<Rightarrow> Inl e
      | (None, None) \<Rightarrow> Inr []
      | (None, Some bytes) \<Rightarrow>
          Inr (List.map_filter parse (takeWhile utf8_ok (byte_lines [] (take LEDGER_MAX_BYTES bytes)))))"

section \<open>The ledger queue\<close>

definition LEDGER_QUEUE_CAPACITY :: nat where "LEDGER_QUEUE_CAPACITY = 128"

datatype ledger_command = Record task_record | Flush nat

text \<open>
  \<open>tl_calls\<close> are the calls of \<open>record_task\<close> between their two critical sections, \<open>tl_hand\<close> is the record the
  writer holds, with the result of its append once that is done, \<open>tl_flushed\<close> the answered flushes.
\<close>

record telemetry =
  tl_inner :: inner
  tl_ledger :: bool
  tl_writer :: bool
  tl_capacity :: nat
  tl_calls :: "task_record list"
  tl_queue :: "ledger_command list"
  tl_hand :: "(task_record \<times> (string + unit) option) option"
  tl_flushed :: "nat list"
  tl_disk :: ledger_disk

definition replay_into :: "(string \<Rightarrow> task_record option) \<Rightarrow> string option \<Rightarrow> ledger_disk \<Rightarrow> inner \<Rightarrow> inner" where
  "replay_into parse fault d te =
     (case replay parse fault (ld_main d) of
        Inr records \<Rightarrow> (fold add_usage records te)\<lparr>te_ledger_records := length records\<rparr>
      | Inl e \<Rightarrow> te\<lparr>te_ledger_error := Some e\<rparr>)"

definition with_ledger_capacity ::
  "(string \<Rightarrow> task_record option) \<Rightarrow> bool \<Rightarrow> nat \<Rightarrow> string option \<Rightarrow> string option \<Rightarrow> ledger_disk \<Rightarrow> telemetry" where
  "with_ledger_capacity parse ledger capacity read_fault spawn_fault d =
     (let te = (if ledger then replay_into parse read_fault d inner_default else inner_default);
          te' = (case (ledger, spawn_fault) of (True, Some e) \<Rightarrow> te\<lparr>te_ledger_error := Some e\<rparr> | _ \<Rightarrow> te)
      in \<lparr>tl_inner = te', tl_ledger = ledger, tl_writer = (ledger \<and> spawn_fault = None), tl_capacity = capacity,
          tl_calls = [], tl_queue = [], tl_hand = None, tl_flushed = [], tl_disk = d\<rparr>)"

definition telemetry_new ::
  "(string \<Rightarrow> task_record option) \<Rightarrow> bool \<Rightarrow> string option \<Rightarrow> string option \<Rightarrow> ledger_disk \<Rightarrow> telemetry" where
  "telemetry_new parse ledger = with_ledger_capacity parse ledger LEDGER_QUEUE_CAPACITY"

text \<open>The writer thread lives as long as the process, so a send to it fails only on a full queue.\<close>

datatype send_result = Sent | Full | Unavailable

definition try_send :: "ledger_command \<Rightarrow> telemetry \<Rightarrow> send_result \<times> telemetry" where
  "try_send command t =
     (if \<not> tl_writer t then (Unavailable, t)
      else if tl_capacity t \<le> length (tl_queue t) then (Full, t)
      else (Sent, t\<lparr>tl_queue := tl_queue t @ [command]\<rparr>))"

definition dropped_error :: "send_result \<Rightarrow> string" where
  "dropped_error r =
     (if r = Full then ''Usage ledger queue is full; record dropped.''
      else ''Usage ledger worker is unavailable; record dropped.'')"

text \<open>The two critical sections of \<open>record_task\<close>.\<close>

definition task_counted :: "task_record \<Rightarrow> telemetry \<Rightarrow> telemetry" where
  "task_counted r t =
     t\<lparr>tl_inner := count_task r (tl_inner t),
       tl_calls := (if tl_ledger t then tl_calls t @ [r] else tl_calls t)\<rparr>"

definition task_enqueued :: "task_record \<Rightarrow> telemetry \<Rightarrow> telemetry" where
  "task_enqueued r t =
     (let t1 = t\<lparr>tl_inner := (tl_inner t)\<lparr>te_ledger_pending := te_ledger_pending (tl_inner t) + 1\<rparr>\<rparr>
      in case try_send (Record r) t1 of
           (Sent, t2) \<Rightarrow> t2
         | (refused, t2) \<Rightarrow>
             t2\<lparr>tl_inner := (tl_inner t2)
                  \<lparr>te_ledger_pending := te_ledger_pending (tl_inner t2) - 1,
                   te_ledger_dropped := te_ledger_dropped (tl_inner t2) + 1,
                   te_ledger_error := Some (dropped_error refused)\<rparr>\<rparr>)"

text \<open>The writer: it takes a command, appends its record, and counts the result under the lock.\<close>

definition worker_receive :: "telemetry \<Rightarrow> telemetry" where
  "worker_receive t =
     (case (tl_hand t, tl_queue t) of
        (None, Record r # rest) \<Rightarrow> t\<lparr>tl_queue := rest, tl_hand := Some (r, None)\<rparr>
      | (None, Flush k # rest) \<Rightarrow> t\<lparr>tl_queue := rest, tl_flushed := tl_flushed t @ [k]\<rparr>
      | _ \<Rightarrow> t)"

definition worker_append :: "(task_record \<Rightarrow> string) \<Rightarrow> append_fault \<Rightarrow> telemetry \<Rightarrow> telemetry" where
  "worker_append print fault t =
     (case tl_hand t of
        Some (r, None) \<Rightarrow>
          (let (written, d) = ledger_append print fault r (tl_disk t)
           in t\<lparr>tl_hand := Some (r, Some written), tl_disk := d\<rparr>)
      | _ \<Rightarrow> t)"

definition worker_settle :: "telemetry \<Rightarrow> telemetry" where
  "worker_settle t =
     (case tl_hand t of
        Some (_, Some written) \<Rightarrow>
          (let te = (tl_inner t)\<lparr>te_ledger_pending := te_ledger_pending (tl_inner t) - 1\<rparr>
           in t\<lparr>tl_hand := None,
                tl_inner := (case written of
                   Inr _ \<Rightarrow> te\<lparr>te_ledger_records := te_ledger_records te + 1\<rparr>
                 | Inl e \<Rightarrow> te\<lparr>te_ledger_failed := te_ledger_failed te + 1, te_ledger_error := Some e\<rparr>)\<rparr>)
      | _ \<Rightarrow> t)"

text \<open>
  One attempt of \<open>flush_ledger\<close> to send its command: it ends the wait unless the queue is full. The wait
  for the answer ends with it or with the timeout.
\<close>

definition flush_send :: "nat \<Rightarrow> telemetry \<Rightarrow> send_result \<times> telemetry" where
  "flush_send k = try_send (Flush k)"

definition flush_failed :: "telemetry \<Rightarrow> telemetry" where
  "flush_failed t =
     t\<lparr>tl_inner := (tl_inner t)\<lparr>te_ledger_error :=
         Some ''Usage ledger flush did not complete within its bounded wait.''\<rparr>\<rparr>"

datatype telemetry_event =
    Finished task_record
  | Enqueued nat
  | Received
  | Appended append_fault
  | Settled
  | FlushSent nat
  | FlushFailed
  | RawRequest string string
  | Evicted string nat
  | BreakerOpened string
  | LimitChanged string string

definition on_inner :: "(inner \<Rightarrow> inner) \<Rightarrow> telemetry \<Rightarrow> telemetry" where
  "on_inner f t = t\<lparr>tl_inner := f (tl_inner t)\<rparr>"

fun telemetry_step :: "(task_record \<Rightarrow> string) \<Rightarrow> telemetry \<Rightarrow> telemetry_event \<Rightarrow> telemetry" where
  "telemetry_step print t (Finished r) = task_counted r t"
| "telemetry_step print t (Enqueued k) =
     (if k < length (tl_calls t)
      then task_enqueued (tl_calls t ! k) (t\<lparr>tl_calls := remove_at k (tl_calls t)\<rparr>) else t)"
| "telemetry_step print t Received = worker_receive t"
| "telemetry_step print t (Appended fault) = worker_append print fault t"
| "telemetry_step print t Settled = worker_settle t"
| "telemetry_step print t (FlushSent k) = snd (flush_send k t)"
| "telemetry_step print t FlushFailed = flush_failed t"
| "telemetry_step print t (RawRequest kind outcome) = on_inner (record_raw kind outcome) t"
| "telemetry_step print t (Evicted backend n) = on_inner (record_evictions backend n) t"
| "telemetry_step print t (BreakerOpened backend) = on_inner (record_breaker_open backend) t"
| "telemetry_step print t (LimitChanged backend direction) = on_inner (record_limit_change backend direction) t"

section \<open>The usage report\<close>

definition totals_json :: "usage_totals \<Rightarrow> json" where
  "totals_json t =
     json_object [(''tasks'', jnat (ut_tasks t)), (''errors'', jnat (ut_errors t)),
       (''prompt_tokens'', jnat (ut_prompt_tokens t)), (''output_tokens'', jnat (ut_output_tokens t)),
       (''busy_ms'', jnat (ut_busy_ms t)), (''queue_wait_ms'', jnat (ut_queue_wait_ms t))]"

definition first_day :: "nat \<Rightarrow> nat \<Rightarrow> nat" where
  "first_day now days = unix_day now - (max days 1 - 1)"

definition in_window :: "nat \<Rightarrow> string \<Rightarrow> bool" where
  "in_window first day = (case day_number day of None \<Rightarrow> False | Some n \<Rightarrow> first \<le> n)"

definition window_usage :: "nat \<Rightarrow> usage_map \<Rightarrow> usage_map" where
  "window_usage first m = filter (\<lambda>((day, _), _). in_window first day) m"

definition usage_total :: "usage_map \<Rightarrow> usage_totals" where
  "usage_total m = fold (\<lambda>(_, t). totals_merge t) m totals_zero"

definition usage_by_model :: "usage_map \<Rightarrow> (string, usage_totals) btree" where
  "usage_by_model m = fold (\<lambda>((_, model), t). bt_modify model totals_zero (totals_merge t)) m []"

definition usage_by_day :: "usage_map \<Rightarrow> (string, (string, usage_totals) btree) btree" where
  "usage_by_day m = fold (\<lambda>((day, model), t). bt_modify day [] (bt_put model t)) m []"

definition ledger_fields :: "string option \<Rightarrow> telemetry \<Rightarrow> (string \<times> json) list" where
  "ledger_fields path t =
     [(''path'', jopt JStr path), (''records'', jnat (te_ledger_records (tl_inner t))),
      (''last_error'', jopt JStr (te_ledger_error (tl_inner t))),
      (''pending'', jnat (te_ledger_pending (tl_inner t))), (''failed'', jnat (te_ledger_failed (tl_inner t))),
      (''dropped'', jnat (te_ledger_dropped (tl_inner t))), (''capacity'', jnat (tl_capacity t)),
      (''durability'', JStr ''asynchronous_best_effort'')]"

definition ledger_receipt :: "string option \<Rightarrow> telemetry \<Rightarrow> json" where
  "ledger_receipt path t = json_object ((''enabled'', JBool (tl_ledger t)) # ledger_fields path t)"

definition totals_object :: "(string, usage_totals) btree \<Rightarrow> json" where
  "totals_object m = JObj (map (\<lambda>(k, t). (k, totals_json t)) m)"

definition usage_report :: "string option \<Rightarrow> nat \<Rightarrow> nat \<Rightarrow> telemetry \<Rightarrow> json" where
  "usage_report path now days t =
     (let m = window_usage (first_day now days) (te_usage (tl_inner t))
      in json_object
           [(''window_days'', jnat (max days 1)), (''totals'', totals_json (usage_total m)),
            (''by_model'', totals_object (usage_by_model m)),
            (''by_day'', JArr (map (\<lambda>(day, models). json_object [(''day'', JStr day), (''models'', totals_object models)])
                                 (rev (usage_by_day m)))),
            (''ledger'', json_object (ledger_fields path t))])"

end
