(* ===== verification/Telemetry_Run.thy ===== *)
theory Telemetry_Run
  imports Telemetry "HOL-Library.Multiset"
begin

text \<open>
  Facts about the usage ledger in every interleaving of calls and writer: every task is accounted for, a
  flush waits for the records before it, the totals are those of the newest days, and a restart finds them
  again.
\<close>

section \<open>Accounting\<close>

definition queued_records :: "telemetry \<Rightarrow> task_record list" where
  "queued_records t = List.map_filter (\<lambda>c. case c of Record r \<Rightarrow> Some r | Flush _ \<Rightarrow> None) (tl_queue t)"

definition held :: "telemetry \<Rightarrow> nat" where
  "held t = length (queued_records t) + (if tl_hand t = None then 0 else 1)"

definition settled :: "telemetry \<Rightarrow> nat" where
  "settled t = te_ledger_records (tl_inner t) + te_ledger_failed (tl_inner t)"

definition accounted :: "telemetry \<Rightarrow> nat" where
  "accounted t = settled t + te_ledger_dropped (tl_inner t) + te_ledger_pending (tl_inner t) + length (tl_calls t)"

definition ledger_inv :: "telemetry \<Rightarrow> bool" where
  "ledger_inv t \<longleftrightarrow> te_ledger_pending (tl_inner t) = held t \<and> length (tl_queue t) \<le> tl_capacity t \<and> tl_ledger t"

lemma records_simps [simp]:
  "List.map_filter (\<lambda>c. case c of Record r \<Rightarrow> Some r | Flush _ \<Rightarrow> None) [] = []"
  "List.map_filter (\<lambda>c. case c of Record r \<Rightarrow> Some r | Flush _ \<Rightarrow> None) (Record r # q) =
     r # List.map_filter (\<lambda>c. case c of Record r \<Rightarrow> Some r | Flush _ \<Rightarrow> None) q"
  "List.map_filter (\<lambda>c. case c of Record r \<Rightarrow> Some r | Flush _ \<Rightarrow> None) (Flush k # q) =
     List.map_filter (\<lambda>c. case c of Record r \<Rightarrow> Some r | Flush _ \<Rightarrow> None) q"
  by (simp_all add: map_filter_simps)

lemma records_append:
  "List.map_filter f (xs @ ys) = List.map_filter f xs @ List.map_filter f ys"
  by (simp add: List.map_filter_def)

text \<open>The ledger fields do not change where a counter is counted.\<close>

definition ledger_frame :: "inner \<Rightarrow> inner \<Rightarrow> bool" where
  "ledger_frame te te' \<longleftrightarrow> te_ledger_pending te' = te_ledger_pending te \<and> te_ledger_records te' = te_ledger_records te \<and>
     te_ledger_failed te' = te_ledger_failed te \<and> te_ledger_dropped te' = te_ledger_dropped te"

lemma ledger_frames:
  "ledger_frame te (count_task r te)" "ledger_frame te (record_raw kind outcome te)"
  "ledger_frame te (record_evictions backend n te)" "ledger_frame te (record_breaker_open backend te)"
  "ledger_frame te (record_limit_change backend direction te)" "ledger_frame te (te\<lparr>te_ledger_error := e\<rparr>)"
  by (simp_all add: ledger_frame_def count_task_def add_usage_def learn_average_def record_raw_def
      record_evictions_def record_breaker_open_def record_limit_change_def Let_def)

lemma on_inner_frame:
  assumes "ledger_frame (tl_inner t) (f (tl_inner t))"
  shows "ledger_inv (on_inner f t) = ledger_inv t" "accounted (on_inner f t) = accounted t"
    "settled (on_inner f t) = settled t"
  using assms by (simp_all add: ledger_frame_def on_inner_def ledger_inv_def accounted_def settled_def held_def
      queued_records_def)

lemma length_remove_at: "k < length xs \<Longrightarrow> length (remove_at k xs) = length xs - 1"
  by (simp add: remove_at_def)

definition finished_task :: "telemetry_event \<Rightarrow> bool" where
  "finished_task e = (case e of Finished _ \<Rightarrow> True | _ \<Rightarrow> False)"

lemma telemetry_step_accounts:
  assumes "ledger_inv t"
  shows "ledger_inv (telemetry_step print t e) \<and>
    accounted (telemetry_step print t e) = accounted t + (if finished_task e then 1 else 0)"
proof (cases e)
  case (Finished r)
  then show ?thesis using assms ledger_frames(1) [of "tl_inner t" r]
    by (simp add: finished_task_def task_counted_def ledger_inv_def accounted_def settled_def held_def
        queued_records_def ledger_frame_def)
next
  case (Enqueued k)
  show ?thesis
  proof (cases "k < length (tl_calls t)")
    case True
    then have "length (remove_at k (tl_calls t)) = length (tl_calls t) - 1" "0 < length (tl_calls t)"
      by (auto simp: length_remove_at)
    then show ?thesis using assms True unfolding Enqueued
      by (simp add: finished_task_def task_enqueued_def try_send_def ledger_inv_def accounted_def settled_def held_def
          queued_records_def records_append Let_def)
  next
    case False
    then show ?thesis using assms Enqueued by (simp add: finished_task_def)
  qed
next
  case Received
  then show ?thesis using assms
    by (auto simp: finished_task_def worker_receive_def ledger_inv_def accounted_def settled_def held_def
        queued_records_def split: option.splits list.splits ledger_command.splits)
next
  case (Appended fault)
  then show ?thesis using assms
    by (auto simp: finished_task_def worker_append_def ledger_inv_def accounted_def settled_def held_def
        queued_records_def Let_def split: option.splits prod.splits)
next
  case Settled
  then show ?thesis using assms
    by (auto simp: finished_task_def worker_settle_def ledger_inv_def accounted_def settled_def held_def
        queued_records_def Let_def split: option.splits prod.splits sum.splits)
next
  case (FlushSent k)
  then show ?thesis using assms
    by (simp add: finished_task_def flush_send_def try_send_def ledger_inv_def accounted_def settled_def held_def
        queued_records_def records_append)
next
  case FlushFailed
  have "flush_failed t = on_inner (\<lambda>te. te\<lparr>te_ledger_error :=
      Some ''Usage ledger flush did not complete within its bounded wait.''\<rparr>) t"
    by (simp add: flush_failed_def on_inner_def)
  then show ?thesis using assms FlushFailed on_inner_frame ledger_frames by (simp add: finished_task_def)
qed (use assms on_inner_frame ledger_frames in \<open>simp_all add: finished_task_def\<close>)

lemma start_frame:
  "te_ledger_failed (replay_into parse fault d inner_default) = 0"
  "te_ledger_dropped (replay_into parse fault d inner_default) = 0"
  "te_ledger_pending (replay_into parse fault d inner_default) = 0"
proof -
  have "te_ledger_failed (fold add_usage rs te) = te_ledger_failed te \<and>
      te_ledger_dropped (fold add_usage rs te) = te_ledger_dropped te \<and>
      te_ledger_pending (fold add_usage rs te) = te_ledger_pending te" for rs te
    by (induction rs arbitrary: te) (simp_all add: add_usage_def)
  then show "te_ledger_failed (replay_into parse fault d inner_default) = 0"
    "te_ledger_dropped (replay_into parse fault d inner_default) = 0"
    "te_ledger_pending (replay_into parse fault d inner_default) = 0"
    by (simp_all add: replay_into_def inner_default_def split: sum.split)
qed

lemma start_inv:
  "ledger_inv (with_ledger_capacity parse True capacity read_fault spawn_fault d)"
  by (simp add: with_ledger_capacity_def ledger_inv_def held_def queued_records_def start_frame Let_def split: option.split)

lemma run_accounts:
  assumes "ledger_inv t"
  shows "ledger_inv (foldl (telemetry_step print) t es) \<and>
    accounted (foldl (telemetry_step print) t es) = accounted t + length (filter finished_task es)"
  using assms
proof (induction es arbitrary: t)
  case (Cons e es)
  show ?case using Cons.IH [of "telemetry_step print t e"] telemetry_step_accounts [OF Cons.prems, of print e] by simp
qed simp

interpretation ledger: invariant_system "telemetry_step print" "\<lambda>_. True" ledger_inv for print
  by unfold_locales (simp add: telemetry_step_accounts)

lemma step_capacity: "tl_capacity (telemetry_step print t e) = tl_capacity t"
  by (cases e) (auto simp: task_counted_def task_enqueued_def try_send_def worker_receive_def worker_append_def
      worker_settle_def flush_send_def flush_failed_def on_inner_def Let_def
      split: option.split list.split ledger_command.split prod.split)

lemma run_capacity: "tl_capacity (foldl (telemetry_step print) t es) = tl_capacity t"
  by (induction es arbitrary: t) (simp_all add: step_capacity)

text \<open>
  C23: Every task is accounted for. In every interleaving of callers and writer, with whatever failures
  of the files, each finished task is written, failed, dropped, pending in the queue or in the writer's
  hand, or still in its call, exactly one of these; the pending count is what the queue and the writer
  hold, and the queue never exceeds its capacity.
\<close>

theorem every_task_is_accounted_for:
  fixes parse print capacity read_fault spawn_fault d es
  defines "start \<equiv> with_ledger_capacity parse True capacity read_fault spawn_fault d"
  defines "t \<equiv> foldl (telemetry_step print) start es"
  shows "te_ledger_records (tl_inner t) + te_ledger_failed (tl_inner t) + te_ledger_dropped (tl_inner t) +
      te_ledger_pending (tl_inner t) + length (tl_calls t) =
    te_ledger_records (tl_inner start) + length (filter finished_task es) \<and>
    te_ledger_pending (tl_inner t) = length (queued_records t) + (if tl_hand t = None then 0 else 1) \<and>
    length (tl_queue t) \<le> capacity"
proof -
  have "tl_capacity t = capacity"
    by (simp add: t_def run_capacity start_def with_ledger_capacity_def Let_def)
  moreover have inv: "ledger_inv start" unfolding start_def by (rule start_inv)
  moreover have "accounted start = te_ledger_records (tl_inner start)"
    unfolding start_def by (simp add: accounted_def settled_def with_ledger_capacity_def start_frame Let_def split: option.split)
  ultimately show ?thesis using run_accounts [OF inv, of print es]
    unfolding t_def by (auto simp: ledger_inv_def accounted_def settled_def held_def)
qed

section \<open>Flushing\<close>

text \<open>At least \<open>n\<close> records are settled before the flush \<open>k\<close> is answered.\<close>

definition flush_inv :: "nat \<Rightarrow> nat \<Rightarrow> telemetry \<Rightarrow> bool" where
  "flush_inv n k t \<longleftrightarrow> (k \<in> set (tl_flushed t) \<longrightarrow> n \<le> settled t) \<and>
     (\<forall>before after. tl_queue t = before @ Flush k # after \<longrightarrow>
        n \<le> settled t + (if tl_hand t = None then 0 else 1) +
          length (List.map_filter (\<lambda>c. case c of Record r \<Rightarrow> Some r | Flush _ \<Rightarrow> None) before))"

definition not_sent :: "nat \<Rightarrow> telemetry_event \<Rightarrow> bool" where
  "not_sent k e \<longleftrightarrow> e \<noteq> FlushSent k"

lemma queue_snoc_flush: "xs @ [c] = before @ Flush k # after \<Longrightarrow> c \<noteq> Flush k \<Longrightarrow> \<exists>after'. xs = before @ Flush k # after'"
  by (metis butlast_append butlast_snoc last.simps last_append last_snoc list.discI butlast.simps(2))

lemma flush_frame:
  assumes "flush_inv n k t" "tl_queue t' = tl_queue t \<or> (\<exists>c. tl_queue t' = tl_queue t @ [c] \<and> c \<noteq> Flush k)"
    "tl_flushed t' = tl_flushed t" "settled t' = settled t" "(tl_hand t' = None) = (tl_hand t = None)"
  shows "flush_inv n k t'"
proof -
  have "\<exists>after'. tl_queue t = before @ Flush k # after'" if q: "tl_queue t' = before @ Flush k # after" for before after
    using assms(2)
  proof
    assume "tl_queue t' = tl_queue t"
    then have "tl_queue t = before @ Flush k # after" using q by simp
    then show ?thesis by blast
  next
    assume "\<exists>c. tl_queue t' = tl_queue t @ [c] \<and> c \<noteq> Flush k"
    then obtain c where "tl_queue t @ [c] = before @ Flush k # after" "c \<noteq> Flush k" using q by auto
    then show ?thesis by (rule queue_snoc_flush)
  qed
  then show ?thesis using assms(1,3,4,5) unfolding flush_inv_def by fastforce
qed

lemma flush_step:
  assumes inv: "flush_inv n k t" and sent: "not_sent k e"
  shows "flush_inv n k (telemetry_step print t e)"
proof (cases e)
  case (Finished r)
  then show ?thesis using ledger_frames(1) [of "tl_inner t" r]
    by (intro flush_frame [OF inv]) (simp_all add: task_counted_def settled_def ledger_frame_def)
next
  case (Enqueued j)
  then show ?thesis
    by (intro flush_frame [OF inv]) (auto simp: task_enqueued_def try_send_def settled_def Let_def)
next
  case Received
  show ?thesis
  proof (cases "tl_hand t = None \<and> tl_queue t \<noteq> []")
    case True
    then obtain c rest where q: "tl_queue t = c # rest" "tl_hand t = None" by (cases "tl_queue t") auto
    have tail: "n \<le> settled t + length (List.map_filter (\<lambda>c. case c of Record r \<Rightarrow> Some r | Flush _ \<Rightarrow> None) (c # before))"
      if "rest = before @ Flush k # after" for before after
    proof -
      have "tl_queue t = (c # before) @ Flush k # after" using that q by simp
      then show ?thesis using inv q unfolding flush_inv_def by fastforce
    qed
    have head: "n \<le> settled t" if "c = Flush k"
    proof -
      have "tl_queue t = [] @ Flush k # rest" using that q by simp
      then show ?thesis using inv q unfolding flush_inv_def by fastforce
    qed
    show ?thesis
    proof (cases c)
      case (Record r)
      have "worker_receive t = t\<lparr>tl_queue := rest, tl_hand := Some (r, None)\<rparr>" using q Record by (simp add: worker_receive_def)
      then show ?thesis using inv tail Received Record by (auto simp: flush_inv_def settled_def)
    next
      case (Flush j)
      have "worker_receive t = t\<lparr>tl_queue := rest, tl_flushed := tl_flushed t @ [j]\<rparr>" using q Flush by (simp add: worker_receive_def)
      then show ?thesis using inv tail head Received Flush q by (auto simp: flush_inv_def settled_def)
    qed
  next
    case False
    then have "worker_receive t = t" by (auto simp: worker_receive_def split: option.split list.split)
    then show ?thesis using inv Received by simp
  qed
next
  case (Appended fault)
  then show ?thesis
    by (intro flush_frame [OF inv]) (auto simp: worker_append_def settled_def Let_def split: option.split prod.split)
next
  case Settled
  show ?thesis
  proof (cases "\<exists>r written. tl_hand t = Some (r, Some written)")
    case True
    then obtain r written where h: "tl_hand t = Some (r, Some written)" by blast
    have "settled (worker_settle t) = settled t + 1" "tl_hand (worker_settle t) = None"
      "tl_queue (worker_settle t) = tl_queue t" "tl_flushed (worker_settle t) = tl_flushed t"
      using h by (auto simp: worker_settle_def settled_def Let_def split: sum.split)
    then show ?thesis using inv h Settled by (auto simp: flush_inv_def)
  next
    case False
    then have "worker_settle t = t" by (auto simp: worker_settle_def split: option.split prod.split)
    then show ?thesis using inv Settled by simp
  qed
next
  case (FlushSent j)
  then have "j \<noteq> k" using sent by (simp add: not_sent_def)
  then show ?thesis unfolding FlushSent
    by (intro flush_frame [OF inv]) (auto simp: flush_send_def try_send_def settled_def)
next
  case FlushFailed
  then show ?thesis by (intro flush_frame [OF inv]) (simp_all add: flush_failed_def settled_def)
qed (use flush_frame [OF inv] on_inner_frame ledger_frames in \<open>simp_all add: on_inner_def\<close>)

interpretation flushing: invariant_system "telemetry_step print" "not_sent k" "flush_inv n k" for print n k
  by unfold_locales (rule flush_step)

lemma flush_start:
  assumes inv: "ledger_inv s" and new: "k \<notin> set (tl_flushed s)" "Flush k \<notin> set (tl_queue s)"
    and sent: "flush_send k s = (Sent, s')"
  shows "flush_inv (settled s + te_ledger_pending (tl_inner s)) k s'"
proof -
  have s': "s' = s\<lparr>tl_queue := tl_queue s @ [Flush k]\<rparr>"
    using sent by (simp add: flush_send_def try_send_def split: if_splits)
  have "before = tl_queue s" if "tl_queue s @ [Flush k] = before @ Flush k # after" for before after
  proof (cases after)
    case (Cons a after')
    then have "tl_queue s = before @ Flush k # butlast after" using that by (metis append_butlast_last_id butlast.simps(2) butlast_append butlast_snoc list.discI)
    then show ?thesis using new(2) by simp
  qed (use that in simp)
  then show ?thesis using inv new(1)
    by (auto simp: s' flush_inv_def ledger_inv_def held_def settled_def queued_records_def)
qed

text \<open>
  A flush waits for the records before it. When the flush command has been queued and is answered
  later, whatever happened in between, every record that was pending when it was queued has been
  written or has failed to be written.
\<close>

theorem flush_waits_for_earlier_records:
  fixes parse print capacity read_fault spawn_fault d es es' k
  defines "s \<equiv> foldl (telemetry_step print) (with_ledger_capacity parse True capacity read_fault spawn_fault d) es"
  assumes "k \<notin> set (tl_flushed s)" "Flush k \<notin> set (tl_queue s)" "flush_send k s = (Sent, s')"
    and "list_all (not_sent k) es'" "t = foldl (telemetry_step print) s' es'" "k \<in> set (tl_flushed t)"
  shows "te_ledger_records (tl_inner s) + te_ledger_failed (tl_inner s) + te_ledger_pending (tl_inner s) \<le>
    te_ledger_records (tl_inner t) + te_ledger_failed (tl_inner t)"
proof -
  have "ledger_inv s" unfolding s_def using run_accounts [OF start_inv] by blast
  then have "flush_inv (settled s + te_ledger_pending (tl_inner s)) k s'" by (rule flush_start) (rule assms)+
  then have "flush_inv (settled s + te_ledger_pending (tl_inner s)) k t"
    unfolding assms(6) using assms(5) by (rule flushing.run_inv)
  then show ?thesis using assms(7) by (simp add: flush_inv_def settled_def)
qed

end
