(* ===== verification/Calendar_Order.thy ===== *)
theory Calendar_Order
  imports Calendar
begin

text \<open>
  Up to the year 9999 the text of a day has a fixed width, so that the order of the texts, which the
  ledger sorts by, is the order of the days.
\<close>

lemma append_less:
  "length xs = length ys \<Longrightarrow> (xs @ as < ys @ bs) = (xs < ys \<or> xs = ys \<and> as < (bs :: 'a::linorder list))"
  by (induction xs ys rule: list_induct2) auto

primrec digits :: "nat \<Rightarrow> nat \<Rightarrow> string" where
  "digits 0 n = []"
| "digits (Suc w) n = digits w (n div 10) @ [''0123456789'' ! (n mod 10)]"

lemma digits_length [simp]: "length (digits w n) = w"
  by (induction w arbitrary: n) simp_all

lemma digits_zero: "digits w 0 = replicate w (CHR ''0'')"
  by (induction w) (simp_all add: replicate_append_same)

lemma digit_less:
  assumes "i < j" "j < 10"
  shows "''0123456789'' ! i < ''0123456789'' ! j"
proof -
  have "list_all (\<lambda>j. list_all (\<lambda>i. ''0123456789'' ! i < ''0123456789'' ! j) [0..<j]) [0..<10]"
    by code_simp
  then show ?thesis using assms by (simp add: list_all_iff)
qed

lemma digits_less: "a < b \<Longrightarrow> b < 10 ^ w \<Longrightarrow> digits w a < digits w b"
proof (induction w arbitrary: a b)
  case (Suc w)
  show ?case
  proof (cases "a div 10 = b div 10")
    case True
    then have "a mod 10 < b mod 10" using Suc.prems(1) by (metis add_less_cancel_left div_mult_mod_eq)
    from digit_less [OF this] show ?thesis using True by (simp add: append_less del: nth_Cons_numeral)
  next
    case False
    then have "a div 10 < b div 10" using Suc.prems(1) by (simp add: div_le_mono order_less_le)
    moreover have "b div 10 < 10 ^ w" using Suc.prems(2) by (simp add: less_mult_imp_div_less mult.commute)
    ultimately show ?thesis using Suc.IH by (simp add: append_less del: nth_Cons_numeral)
  qed
qed simp

lemma padded_digits:
  "n < 10 ^ w \<Longrightarrow> 0 < w \<Longrightarrow> replicate (w - length (show_nat n)) (CHR ''0'') @ show_nat n = digits w n"
proof (induction w arbitrary: n)
  case (Suc w)
  show ?case
  proof (cases "n < 10")
    case True
    then have "show_nat n = [''0123456789'' ! n]" by (subst show_nat.simps) simp
    then show ?thesis using True by (simp add: digits_zero del: nth_Cons_numeral)
  next
    case False
    then have s: "show_nat n = show_nat (n div 10) @ [''0123456789'' ! (n mod 10)]" by (subst show_nat.simps) simp
    have w: "0 < w" using False Suc.prems(1) by (cases w) simp_all
    have "n div 10 < 10 ^ w" using Suc.prems(1) by (simp add: less_mult_imp_div_less mult.commute)
    from Suc.IH [OF this w, symmetric] show ?thesis by (simp add: s del: nth_Cons_numeral)
  qed
qed simp

lemma pad_zero_digits_eq:
  assumes "0 \<le> n" "n < 10 ^ w" "0 < w"
  shows "pad_zero w n = digits w (nat n)"
proof -
  have "nat n < 10 ^ w" using assms by (simp add: nat_less_iff)
  then show ?thesis using assms(3) by (simp add: pad_zero_def Let_def padded_digits)
qed

definition short_date :: "int \<times> int \<times> int \<Rightarrow> bool" where
  "short_date = (\<lambda>(y, m, d). 0 \<le> y \<and> y \<le> 9999 \<and> 1 \<le> m \<and> m \<le> 12 \<and> 1 \<le> d \<and> d \<le> 31)"

lemma date_text_less:
  assumes "short_date (y, m, d)" "short_date (y', m', d')" "y < y' \<or> y = y' \<and> (m < m' \<or> m = m' \<and> d < d')"
  shows "date_text (y, m, d) < date_text (y', m', d')"
proof -
  have w4: "pad_zero 4 n = digits 4 (nat n)" if "0 \<le> n" "n \<le> 9999" for n
    using that by (intro pad_zero_digits_eq) simp_all
  have w2: "pad_zero 2 n = digits 2 (nat n)" if "0 \<le> n" "n \<le> 31" for n
    using that by (intro pad_zero_digits_eq) simp_all
  have less4: "digits 4 (nat a) < digits 4 (nat b)" if "0 \<le> a" "a < b" "b \<le> 9999" for a b
    using that by (intro digits_less) simp_all
  have less2: "digits 2 (nat a) < digits 2 (nat b)" if "0 \<le> a" "a < b" "b \<le> 31" for a b
    using that by (intro digits_less) simp_all
  show ?thesis using assms less4 [of y y'] less2 [of m m'] less2 [of d d']
    by (auto simp: short_date_def w4 w2 append_less)
qed

lemma civil_short:
  assumes "0 \<le> days" "days \<le> 2932896"
  shows "short_date (civil days)"
proof -
  obtain era y mp k where placed: "placed days era y mp k" by (rule placed_exists)
  note p = placed [unfolded placed_def Let_def] and b = placed_bounds [OF placed assms(1)]
  have m: "1 \<le> month_number mp" "month_number mp \<le> 12" using p months_back(3) [of mp] by simp_all
  have "y + era * 400 + (if month_number mp \<le> 2 then 1 else 0) \<le> 9999"
  proof (cases "era \<le> 23")
    case True
    then show ?thesis using p by auto
  next
    case False
    then have era: "era = 24" using b assms by simp
    have late: "days + 719468 - 24 * 146097 \<le> 145731 + 305" using assms by simp
    have "year_start 399 = 145731" by (simp add: year_start_def)
    then have "y = 399 \<Longrightarrow> month_start mp + k \<le> 305" using p late era by auto
    moreover have "month_number mp \<le> 2 \<Longrightarrow> 306 \<le> month_start mp"
      using months_back(2) [of mp] p zdiv_mono1 [of 1532 "153 * mp + 2" 5] by (simp add: month_start_def)
    ultimately show ?thesis using p era by (cases "y = 399") (auto split: if_splits)
  qed
  then show ?thesis using p b m by (auto simp: civil_placed [OF placed] short_date_def)
qed

lemma next_day_less:
  assumes "(y', m', d') = next_day (y, m, d)"
  shows "y < y' \<or> y = y' \<and> (m < m' \<or> m = m' \<and> d < d')"
  using assms by (auto split: if_splits)

lemma civil_day_step:
  assumes "Suc d \<le> 2932896"
  shows "civil_day d < civil_day (Suc d)"
proof -
  obtain y m k where c: "civil (int d) = (y, m, k)" by (cases "civil (int d)")
  obtain y' m' k' where c': "civil (int (Suc d)) = (y', m', k')" by (cases "civil (int (Suc d))")
  have "(y', m', k') = next_day (y, m, k)"
    using civil_next [of "int d"] c c' by (simp add: add.commute del: next_day.simps)
  from next_day_less [OF this] have "date_text (y, m, k) < date_text (y', m', k')"
    using civil_short [of "int d"] civil_short [of "int (Suc d)"] assms c c' by (intro date_text_less) simp_all
  then show ?thesis using assms c c' by (simp add: civil_day_def i64_max_def del: date_text.simps of_nat_Suc)
qed

lemma civil_day_less: "a < b \<Longrightarrow> b \<le> 2932896 \<Longrightarrow> civil_day a < civil_day b"
proof (induction b)
  case (Suc b)
  then show ?case using civil_day_step [of b] by (cases "a = b") (auto intro: less_trans)
qed simp

end
