(* ===== verification/Telemetry_Usage.thy ===== *)
theory Telemetry_Usage
  imports Telemetry Calendar_Order "HOL-Library.Multiset"
begin

text \<open>
  What the usage totals hold: for the newest days seen, the totals of all their records, whatever the
  order the records came in.
\<close>

section \<open>The newest days\<close>

definition newest :: "nat \<Rightarrow> 'a::linorder set \<Rightarrow> 'a set" where
  "newest n A = {x \<in> A. card {y \<in> A. x < y} < n}"

lemma newest_subset: "newest n A \<subseteq> A"
  by (auto simp: newest_def)

lemma newest_mono: "A \<subseteq> B \<Longrightarrow> finite B \<Longrightarrow> x \<in> A \<Longrightarrow> x \<in> newest n B \<Longrightarrow> x \<in> newest n A"
proof -
  assume "A \<subseteq> B" "finite B" "x \<in> A" "x \<in> newest n B"
  moreover have "card {y \<in> A. x < y} \<le> card {y \<in> B. x < y}"
    using \<open>A \<subseteq> B\<close> \<open>finite B\<close> by (intro card_mono) auto
  ultimately show ?thesis by (auto simp: newest_def)
qed

lemma newest_insert:
  assumes fin: "finite A"
  shows "newest n (insert d (newest n A)) = newest n (insert d A)"
proof
  let ?B = "insert d (newest n A)" and ?A = "insert d A"
  have finB: "finite ?B" using fin newest_subset finite_subset by (metis finite_insert)
  show "newest n ?A \<subseteq> newest n ?B"
  proof
    fix x assume x: "x \<in> newest n ?A"
    then have "x \<in> ?B" using newest_mono [of A ?A x n] fin by (auto simp: newest_def)
    moreover have "?B \<subseteq> ?A" using newest_subset by auto
    ultimately show "x \<in> newest n ?B" using newest_mono [of ?B ?A x n] fin x by simp
  qed
  show "newest n ?B \<subseteq> newest n ?A"
  proof
    fix x assume x: "x \<in> newest n ?B"
    have "{y \<in> ?A. x < y} \<subseteq> ?B"
    proof (rule ccontr)
      assume "\<not> {y \<in> ?A. x < y} \<subseteq> ?B"
      let ?E = "{y \<in> A. x < y \<and> y \<notin> ?B}"
      have "?E \<noteq> {}" "finite ?E" using \<open>\<not> {y \<in> ?A. x < y} \<subseteq> ?B\<close> fin by auto
      have e: "Max ?E \<in> ?E" by (rule Max_in) fact+
      have top: "\<forall>y \<in> ?E. y \<le> Max ?E" using Max_ge [OF \<open>finite ?E\<close>] by blast
      have "{y \<in> A. Max ?E < y} \<subseteq> {y \<in> ?B. x < y}"
      proof
        fix y assume "y \<in> {y \<in> A. Max ?E < y}"
        then have y: "y \<in> A" "Max ?E < y" by auto
        then have "x < y" using e by (auto intro: less_trans)
        moreover have "y \<in> ?B" using top y \<open>x < y\<close> by (metis (mono_tags, lifting) leD mem_Collect_eq)
        ultimately show "y \<in> {y \<in> ?B. x < y}" by blast
      qed
      then have "card {y \<in> A. Max ?E < y} \<le> card {y \<in> ?B. x < y}" using finB by (intro card_mono) auto
      moreover have "n \<le> card {y \<in> A. Max ?E < y}" using e by (auto simp: newest_def)
      ultimately show False using x by (auto simp: newest_def)
    qed
    then have "{y \<in> ?A. x < y} \<subseteq> {y \<in> ?B. x < y}" by blast
    then have "card {y \<in> ?A. x < y} \<le> card {y \<in> ?B. x < y}" using finB by (intro card_mono) auto
    moreover have "x \<in> ?A" "card {y \<in> ?B. x < y} < n" using x newest_subset by (auto simp: newest_def)
    ultimately show "x \<in> newest n ?A" by (simp add: newest_def)
  qed
qed

text \<open>Dropping the oldest of more than \<open>n\<close> keeps the newest.\<close>

lemma newest_drop_min:
  assumes "finite A" "n < card A" "m \<in> A" "\<forall>y \<in> A. m \<le> y"
  shows "newest n (A - {m}) = newest n A"
proof -
  have "{y \<in> A. m < y} = A - {m}" using assms by auto
  then have "n \<le> card {y \<in> A. m < y}" using assms by simp
  then have m: "m \<notin> newest n A" by (auto simp: newest_def)
  have "{y \<in> A - {m}. x < y} = {y \<in> A. x < y}" if "x \<in> A" for x using that assms by auto
  then show ?thesis using m by (auto simp: newest_def)
qed

lemma newest_all: "finite A \<Longrightarrow> card A \<le> n \<Longrightarrow> newest n A = A"
proof -
  assume A: "finite A" "card A \<le> n"
  have "card {y \<in> A. x < y} < n" if "x \<in> A" for x
  proof -
    have "{y \<in> A. x < y} \<subset> A" using that by auto
    then show ?thesis using A psubset_card_mono [of A "{y \<in> A. x < y}"] by simp
  qed
  then show ?thesis by (auto simp: newest_def)
qed

lemma newest_card: "finite A \<Longrightarrow> card (newest n A) \<le> n"
proof -
  assume fin: "finite A"
  have finN: "finite (newest n A)" using fin newest_subset finite_subset by metis
  show ?thesis
  proof (cases "newest n A = {}")
    case False
    let ?m = "Min (newest n A)"
    have m: "?m \<in> newest n A" using finN False by simp
    have "newest n A \<subseteq> insert ?m {y \<in> A. ?m < y}" using finN newest_subset [of n A]
      by (auto simp: order_less_le)
    then have "card (newest n A) \<le> card (insert ?m {y \<in> A. ?m < y})" using fin by (intro card_mono) auto
    also have "\<dots> \<le> Suc (card {y \<in> A. ?m < y})" using fin by (simp add: card_insert_if)
    also have "\<dots> \<le> n" using m by (simp add: newest_def Suc_le_eq)
    finally show ?thesis .
  qed simp
qed

section \<open>Keeping days\<close>

definition map_days :: "usage_map \<Rightarrow> string set" where
  "map_days m = fst ` fst ` set m"

lemma usage_days_set: "set (usage_days m) = map_days m" "length (usage_days m) = card (map_days m)"
proof -
  show "set (usage_days m) = map_days m" by (simp add: usage_days_def map_days_def image_comp)
  then show "length (usage_days m) = card (map_days m)" by (metis distinct_card distinct_remdups usage_days_def)
qed

lemma keep_days_correct:
  assumes "bt_wf m"
  shows "bt_wf (keep_days m) \<and> map_days (keep_days m) = newest MAX_USAGE_DAYS (map_days m) \<and>
    bt_get (keep_days m) = (\<lambda>k. if fst k \<in> newest MAX_USAGE_DAYS (map_days m) then bt_get m k else None)"
  using assms
proof (induction m rule: keep_days.induct)
  case (1 m)
  show ?case
  proof (cases "MAX_USAGE_DAYS < length (usage_days m)")
    case True
    then obtain key v rest where m: "m = (key, v) # rest" by (cases m) (auto simp: usage_days_def)
    let ?m = "bt_retain (\<lambda>k _. fst k \<noteq> fst key) m"
    have oldest: "\<forall>d \<in> map_days m. fst key \<le> d"
      using 1(2) by (force simp: m map_days_def bt_wf_def less_prod_def)
    have days: "map_days ?m = map_days m - {fst key}" by (force simp: map_days_def bt_retain_def)
    have drop: "newest MAX_USAGE_DAYS (map_days ?m) = newest MAX_USAGE_DAYS (map_days m)"
      unfolding days using True oldest
      by (intro newest_drop_min) (simp_all add: usage_days_set, simp_all add: m map_days_def)
    have step: "keep_days m = keep_days ?m" using True by (subst keep_days.simps) (simp add: m)
    have out: "fst key \<notin> newest MAX_USAGE_DAYS (map_days m)"
      using drop newest_subset [of MAX_USAGE_DAYS "map_days ?m"] by (auto simp: days)
    have get: "bt_get ?m k = (if fst k = fst key then None else bt_get m k)" for k
      using bt_get_retain [OF 1(2)] by (auto split: option.split)
    have "bt_wf ?m" using 1(2) by (rule bt_wf_retain)
    from 1(1) [OF True m refl this] show ?thesis unfolding step using drop out by (auto simp: get fun_eq_iff)
  next
    case False
    then have "newest MAX_USAGE_DAYS (map_days m) = map_days m"
      by (intro newest_all) (simp add: map_days_def, simp add: usage_days_set(2))
    moreover have "bt_get m k = None" if "fst k \<notin> map_days m" for k
      using that by (force simp: map_days_def map_of_eq_None_iff)
    ultimately show ?thesis using False 1(2) by (subst (1 2 3) keep_days.simps) (auto simp: fun_eq_iff)
  qed
qed

section \<open>The totals\<close>

definition task_totals :: "task_record list \<Rightarrow> usage_totals" where
  "task_totals rs = fold totals_add rs totals_zero"

definition usage_spec :: "task_record list \<Rightarrow> string \<times> string \<Rightarrow> usage_totals option" where
  "usage_spec rs k =
     (if fst k \<in> newest MAX_USAGE_DAYS (set (map (fst \<circ> usage_key) rs)) \<and> k \<in> set (map usage_key rs)
      then Some (task_totals (filter (\<lambda>r. usage_key r = k) rs)) else None)"

lemma map_days_put: "map_days (bt_put k v m) = insert (fst k) (map_days m)"
  using bt_keys_put [of k v m] by (simp add: map_days_def)

lemma usage_exact:
  "bt_wf (fold usage_put rs []) \<and>
   map_days (fold usage_put rs []) = newest MAX_USAGE_DAYS (set (map (fst \<circ> usage_key) rs)) \<and>
   bt_get (fold usage_put rs []) = usage_spec rs"
proof (induction rs rule: rev_induct)
  case Nil
  show ?case by (simp add: map_days_def usage_spec_def newest_def fun_eq_iff)
next
  case (snoc r rs)
  let ?m = "fold usage_put rs []" and ?A = "set (map (fst \<circ> usage_key) rs)" and ?k = "usage_key r"
  let ?m' = "bt_modify ?k totals_zero (totals_add r) ?m" and ?A' = "insert (fst ?k) ?A"
  have wf: "bt_wf ?m'" using snoc by (simp add: bt_modify_def bt_wf_put)
  have days: "map_days ?m' = insert (fst ?k) (newest MAX_USAGE_DAYS ?A)"
    using snoc by (simp add: bt_modify_def map_days_put)
  have new: "newest MAX_USAGE_DAYS (map_days ?m') = newest MAX_USAGE_DAYS ?A'"
    unfolding days by (rule newest_insert) simp
  have old: "fst k \<in> newest MAX_USAGE_DAYS ?A" if "fst k \<in> newest MAX_USAGE_DAYS ?A'" "k \<in> set (map usage_key rs)" for k
    using that by (intro newest_mono [of ?A ?A']) auto
  have get: "bt_get ?m' k = usage_spec (rs @ [r]) k" if k: "fst k \<in> newest MAX_USAGE_DAYS ?A'" for k
  proof (cases "k = ?k")
    case True
    have none: "filter (\<lambda>ra. usage_key ra = ?k) rs = []" if "?k \<notin> set (map usage_key rs)"
      using that by (simp add: filter_empty_conv image_iff) metis
    have m: "bt_get ?m ?k = (if ?k \<in> set (map usage_key rs)
        then Some (task_totals (filter (\<lambda>ra. usage_key ra = ?k) rs)) else None)"
      using snoc old [of ?k] k True by (simp add: usage_spec_def)
    have "bt_get ?m' ?k = Some (totals_add r (task_totals (filter (\<lambda>ra. usage_key ra = ?k) rs)))"
      using none by (simp add: bt_modify_def m task_totals_def)
    then show ?thesis using k True by (simp add: usage_spec_def task_totals_def)
  next
    case False
    then show ?thesis using k old [of k] snoc by (auto simp: bt_modify_def usage_spec_def)
  qed
  have "usage_spec (rs @ [r]) k = None" if "fst k \<notin> newest MAX_USAGE_DAYS ?A'" for k
    using that by (simp add: usage_spec_def)
  then have "bt_get (keep_days ?m') k = usage_spec (rs @ [r]) k" for k
    using keep_days_correct [OF wf] get [of k] unfolding new by simp
  moreover have "fold usage_put (rs @ [r]) [] = keep_days ?m'" by (simp add: usage_put_def [of r])
  moreover have "set (map (fst \<circ> usage_key) (rs @ [r])) = ?A'" by simp
  ultimately show ?case using keep_days_correct [OF wf] unfolding new by (simp only: fun_eq_iff simp_thms)
qed

section \<open>Sums\<close>

text \<open>What the totals of some records ought to be: the sums, which stop at 64 bits.\<close>

definition capped_sum :: "('a \<Rightarrow> nat) \<Rightarrow> 'a list \<Rightarrow> nat" where
  "capped_sum f xs = min u64_max (sum_list (map f xs))"

definition sums_of :: "task_record list \<Rightarrow> usage_totals" where
  "sums_of rs =
     \<lparr>ut_tasks = length rs, ut_errors = length (filter (\<lambda>r. tr_outcome r \<noteq> ''ok'') rs),
      ut_prompt_tokens = capped_sum tr_prompt_tokens rs, ut_output_tokens = capped_sum tr_output_tokens rs,
      ut_busy_ms = capped_sum tr_duration_ms rs, ut_queue_wait_ms = capped_sum tr_queue_wait_ms rs\<rparr>"

lemma capped_snoc: "sat_add u64_max (capped_sum f xs) (f x) = capped_sum f (xs @ [x])"
  by (simp add: sat_add_def capped_sum_def)

lemma capped_append: "sat_add u64_max (capped_sum f xs) (capped_sum f ys) = capped_sum f (xs @ ys)"
  by (simp add: sat_add_def capped_sum_def)

lemma task_totals_sums: "task_totals rs = sums_of rs"
proof (induction rs rule: rev_induct)
  case Nil
  show ?case by (simp add: task_totals_def totals_zero_def sums_of_def capped_sum_def)
next
  case (snoc r rs)
  have "task_totals (rs @ [r]) = totals_add r (sums_of rs)" using snoc by (simp add: task_totals_def)
  then show ?case
    by (simp only: totals_add_def sums_of_def usage_totals.simps capped_snoc) simp
qed

lemma merge_sums: "totals_merge (sums_of xs) (sums_of ys) = sums_of (ys @ xs)"
  by (simp only: totals_merge_def sums_of_def usage_totals.simps capped_append) simp

lemma sums_mset: "mset xs = mset ys \<Longrightarrow> sums_of xs = sums_of ys"
proof -
  assume m: "mset xs = mset ys"
  have "sum_list (map f xs) = sum_list (map f ys)" for f :: "task_record \<Rightarrow> nat"
    using m by (metis mset_map sum_mset_sum_list)
  moreover have "length (filter P xs) = length (filter P ys)" for P
    using m by (metis mset_filter size_mset)
  moreover have "length xs = length ys" using m by (metis size_mset)
  ultimately show ?thesis by (simp add: sums_of_def capped_sum_def)
qed

lemma usage_total_sums:
  assumes "list_all (\<lambda>(k, t). t = sums_of (filter (\<lambda>r. usage_key r = k) rs)) m" "distinct (map fst m)"
  shows "usage_total m = sums_of (filter (\<lambda>r. usage_key r \<in> set (map fst m)) rs)"
proof -
  have "fold (\<lambda>(_, t). totals_merge t) m (sums_of xs) =
      sums_of (xs @ filter (\<lambda>r. usage_key r \<in> set (map fst m)) rs)" for xs
    using assms
  proof (induction m arbitrary: xs)
    case (Cons e m)
    obtain k t where e: "e = (k, t)" by fastforce
    let ?k = "filter (\<lambda>r. usage_key r = k) rs" and ?m = "filter (\<lambda>r. usage_key r \<in> set (map fst m)) rs"
    have "mset ?k + mset ?m = mset (filter (\<lambda>r. usage_key r \<in> insert k (set (map fst m))) rs)"
      using Cons.prems(2) e by (induction rs) auto
    then have "sums_of ((xs @ ?k) @ ?m) = sums_of (xs @ filter (\<lambda>r. usage_key r \<in> insert k (set (map fst m))) rs)"
      by (intro sums_mset) simp
    then show ?case using Cons.IH [of "xs @ ?k"] Cons.prems by (simp add: e merge_sums)
  qed simp
  from this [of "[]"] show ?thesis
    by (simp add: usage_total_def totals_zero_def sums_of_def capped_sum_def)
qed

section \<open>Days\<close>

lemma newest_image:
  assumes "finite A" "\<forall>a \<in> A. \<forall>b \<in> A. f a < f b \<longleftrightarrow> a < b"
  shows "newest n (f ` A) = f ` newest n A"
proof -
  have inj: "inj_on f A" using assms(2) by (intro inj_onI) (metis less_irrefl not_less_iff_gr_or_eq)
  have "{y \<in> f ` A. f a < y} = f ` {b \<in> A. a < b}" if "a \<in> A" for a using that assms(2) by auto
  then have "card {y \<in> f ` A. f a < y} = card {b \<in> A. a < b}" if "a \<in> A" for a
    using that inj by (simp add: card_image inj_on_subset)
  then show ?thesis by (auto simp: newest_def)
qed

definition before_10000 :: "task_record \<Rightarrow> bool" where
  "before_10000 r \<longleftrightarrow> tr_ts r < 253402300800"

definition record_day :: "task_record \<Rightarrow> nat" where
  "record_day r = unix_day (tr_ts r)"

definition kept_day :: "task_record list \<Rightarrow> nat \<Rightarrow> bool" where
  "kept_day rs d \<longleftrightarrow> d \<in> newest MAX_USAGE_DAYS (set (map record_day rs))"

lemma record_day_bound: "before_10000 r \<Longrightarrow> record_day r \<le> 2932896"
  by (simp add: before_10000_def record_day_def unix_day_def)

lemma civil_day_order: "a \<le> 2932896 \<Longrightarrow> b \<le> 2932896 \<Longrightarrow> civil_day a < civil_day b \<longleftrightarrow> a < b"
  using civil_day_less [of a b] civil_day_less [of b a] by (cases a b rule: linorder_cases) auto

lemma civil_day_eq: "a \<le> 2932896 \<Longrightarrow> b \<le> 2932896 \<Longrightarrow> civil_day a = civil_day b \<longleftrightarrow> a = b"
  using civil_day_order [of a b] civil_day_order [of b a] by (metis less_irrefl linorder_neqE_nat)

lemma kept_text:
  assumes "list_all before_10000 rs" "d \<le> 2932896"
  shows "civil_day d \<in> newest MAX_USAGE_DAYS (set (map (fst \<circ> usage_key) rs)) \<longleftrightarrow> kept_day rs d"
proof -
  let ?D = "set (map record_day rs)"
  have bound: "\<forall>a \<in> ?D. a \<le> 2932896" using assms(1) record_day_bound by (auto simp: list_all_iff)
  have "set (map (fst \<circ> usage_key) rs) = civil_day ` ?D"
    by (auto simp: usage_key_def record_day_def)
  then have "newest MAX_USAGE_DAYS (set (map (fst \<circ> usage_key) rs)) = civil_day ` newest MAX_USAGE_DAYS ?D"
    using bound civil_day_order by (simp add: newest_image)
  moreover have "civil_day d \<in> civil_day ` newest MAX_USAGE_DAYS ?D \<longleftrightarrow> d \<in> newest MAX_USAGE_DAYS ?D"
    using bound assms(2) newest_subset [of MAX_USAGE_DAYS ?D] civil_day_eq by fastforce
  ultimately show ?thesis by (simp add: kept_day_def)
qed

section \<open>Running\<close>

definition finished_records :: "telemetry_event list \<Rightarrow> task_record list" where
  "finished_records es = List.map_filter (\<lambda>e. case e of Finished r \<Rightarrow> Some r | _ \<Rightarrow> None) es"

lemma step_usage:
  "te_usage (tl_inner (telemetry_step print t e)) = fold usage_put (finished_records [e]) (te_usage (tl_inner t))"
  by (cases e) (auto simp: finished_records_def map_filter_simps task_counted_def count_task_def add_usage_def
      learn_average_def task_enqueued_def try_send_def worker_receive_def worker_append_def worker_settle_def
      flush_send_def flush_failed_def on_inner_def record_raw_def record_evictions_def record_breaker_open_def
      record_limit_change_def Let_def split: option.split list.split ledger_command.split prod.split sum.split)

lemma finished_Cons: "finished_records (e # es) = finished_records [e] @ finished_records es"
  by (simp add: finished_records_def map_filter_simps split: option.split)

lemma run_usage:
  "te_usage (tl_inner (foldl (telemetry_step print) t es)) = fold usage_put (finished_records es) (te_usage (tl_inner t))"
proof (induction es arbitrary: t)
  case (Cons e es)
  then show ?case by (simp add: finished_Cons [of e es] step_usage)
qed (simp add: finished_records_def map_filter_simps)

lemma fold_add_usage: "te_usage (fold add_usage rs te) = fold usage_put rs (te_usage te)"
  by (induction rs arbitrary: te) (simp_all add: add_usage_def)

lemma start_usage:
  assumes "replay parse None (ld_main d) = Inr old"
  shows "te_usage (tl_inner (with_ledger_capacity parse True capacity None spawn_fault d)) = fold usage_put old []"
  using assms by (simp add: with_ledger_capacity_def replay_into_def fold_add_usage inner_default_def Let_def
      split: option.split)

lemma usage_lookup:
  assumes "list_all before_10000 rs" "day \<le> 2932896"
  shows "bt_get (fold usage_put rs []) (civil_day day, model) =
    (let those = filter (\<lambda>r. record_day r = day \<and> tr_model r = model) rs
     in if kept_day rs day \<and> those \<noteq> [] then Some (sums_of those) else None)"
proof -
  have key: "usage_key r = (civil_day day, model) \<longleftrightarrow> record_day r = day \<and> tr_model r = model" if "r \<in> set rs" for r
    using that assms civil_day_eq record_day_bound by (auto simp: usage_key_def record_day_def [symmetric] list_all_iff)
  then have those: "filter (\<lambda>r. usage_key r = (civil_day day, model)) rs =
      filter (\<lambda>r. record_day r = day \<and> tr_model r = model) rs" by (intro filter_cong) simp_all
  have "(civil_day day, model) \<in> set (map usage_key rs) \<longleftrightarrow>
      filter (\<lambda>r. record_day r = day \<and> tr_model r = model) rs \<noteq> []"
    using key by (auto simp: filter_empty_conv image_iff) (metis)+
  then show ?thesis using usage_exact [of rs] kept_text [OF assms]
    by (simp add: usage_spec_def task_totals_sums those Let_def)
qed

lemma window_total:
  assumes "list_all before_10000 rs"
  shows "usage_total (window_usage first (fold usage_put rs [])) =
    sums_of (filter (\<lambda>r. kept_day rs (record_day r) \<and> first \<le> record_day r) rs)"
proof -
  let ?m = "fold usage_put rs []" and ?w = "window_usage first (fold usage_put rs [])"
  have wf: "bt_wf ?m" and get: "bt_get ?m = usage_spec rs" using usage_exact [of rs] by simp_all
  have sub: "set ?w \<subseteq> set ?m" by (auto simp: window_usage_def)
  have entry: "t = sums_of (filter (\<lambda>r. usage_key r = k) rs)" if "(k, t) \<in> set ?m" for k t
    using bt_in_get [OF wf that] by (simp add: get usage_spec_def task_totals_sums split: if_splits)
  then have "list_all (\<lambda>(k, t). t = sums_of (filter (\<lambda>r. usage_key r = k) rs)) ?w"
    using sub by (auto simp: list_all_iff)
  moreover have "distinct (map fst ?w)"
    using bt_wf_distinct [OF bt_wf_filter [OF wf]] by (simp add: window_usage_def)
  ultimately have "usage_total ?w = sums_of (filter (\<lambda>r. usage_key r \<in> set (map fst ?w)) rs)"
    by (rule usage_total_sums)
  moreover have "usage_key r \<in> set (map fst ?w) \<longleftrightarrow> kept_day rs (record_day r) \<and> first \<le> record_day r" if r: "r \<in> set rs" for r
  proof -
    have bound: "record_day r \<le> 2932896" using assms r record_day_bound by (simp add: list_all_iff)
    have key: "fst (usage_key r) = civil_day (record_day r)" by (simp add: usage_key_def record_day_def)
    have window: "in_window first (fst (usage_key r)) \<longleftrightarrow> first \<le> record_day r"
      using day_number_civil [of "record_day r"] bound by (simp add: in_window_def key last_day_def unix_day_def u64_max_def)
    have "usage_key r \<in> set (map fst ?m) \<longleftrightarrow> bt_get ?m (usage_key r) \<noteq> None"
      by (force simp: map_of_eq_None_iff)
    also have "\<dots> \<longleftrightarrow> kept_day rs (record_day r)"
      using r kept_text [OF assms bound] by (simp add: get usage_spec_def key)
    finally show ?thesis using window by (force simp: window_usage_def)
  qed
  ultimately show ?thesis by (simp cong: filter_cong)
qed

text \<open>
  The usage report is exact. Whatever calls, writes, failures and flushes came before, the entry of
  a day and a model is there exactly for the 400 newest days on which a task finished, and holds the sums
  over all its records, those of the replayed ledger included; the total of a report is the sum over all
  records of its window.
\<close>

theorem usage_report_is_exact:
  fixes parse print capacity spawn_fault d es
  defines "t \<equiv> foldl (telemetry_step print) (with_ledger_capacity parse True capacity None spawn_fault d) es"
  assumes "replay parse None (ld_main d) = Inr old" "rs = old @ finished_records es"
    and "list_all before_10000 rs" "day \<le> 2932896"
  shows "bt_get (te_usage (tl_inner t)) (civil_day day, model) =
      (let those = filter (\<lambda>r. record_day r = day \<and> tr_model r = model) rs
       in if kept_day rs day \<and> those \<noteq> [] then Some (sums_of those) else None) \<and>
    jindex (usage_report path now days t) ''totals'' =
      totals_json (sums_of (filter (\<lambda>r. kept_day rs (record_day r) \<and> first_day now days \<le> record_day r) rs))"
proof -
  have "te_usage (tl_inner t) = fold usage_put rs []"
    by (simp add: t_def run_usage start_usage [OF assms(2)] assms(3))
  then show ?thesis using usage_lookup [OF assms(4,5)] window_total [OF assms(4)]
    by (simp add: usage_report_def Let_def)
qed

end
