(* ===== verification/Telemetry_Restart.thy ===== *)
theory Telemetry_Restart
  imports Telemetry_Run Telemetry_Usage
begin

text \<open>
  The ledger across a restart: what was written is read back, and a process that has written all its
  records is replaced by one with the same usage, whatever order the calls reached the queue in.
\<close>

section \<open>Reading back\<close>

definition record_line :: "(task_record \<Rightarrow> string) \<Rightarrow> task_record \<Rightarrow> string" where
  "record_line print r = print r @ [CHR 0x0A]"

text \<open>What the printer promises: one line of UTF-8 that parses back.\<close>

definition record_line_ok :: "(task_record \<Rightarrow> string) \<Rightarrow> (string \<Rightarrow> task_record option) \<Rightarrow> task_record \<Rightarrow> bool" where
  "record_line_ok print parse r \<longleftrightarrow> parse (print r) = Some r \<and> utf8_ok (print r) \<and>
     CHR 0x0A \<notin> set (print r) \<and> print r \<noteq> [] \<and> last (print r) \<noteq> CHR 0x0D"

definition ledger_text :: "(task_record \<Rightarrow> string) \<Rightarrow> task_record list \<Rightarrow> string" where
  "ledger_text print rs = concat (map (record_line print) rs)"

lemma byte_lines_line:
  "CHR 0x0A \<notin> set line \<Longrightarrow> byte_lines acc (line @ CHR 0x0A # rest) = strip_cr (acc @ line) # byte_lines [] rest"
  by (induction line arbitrary: acc) auto

lemma ledger_lines:
  "list_all (record_line_ok print parse) rs \<Longrightarrow> byte_lines [] (ledger_text print rs) = map print rs"
proof (induction rs)
  case (Cons r rs)
  have "byte_lines [] (ledger_text print (r # rs)) = strip_cr (print r) # byte_lines [] (ledger_text print rs)"
    using Cons.prems byte_lines_line [of "print r" "[]"] by (simp add: ledger_text_def record_line_def record_line_ok_def)
  moreover have "strip_cr (print r) = print r" using Cons.prems by (simp add: strip_cr_def record_line_ok_def)
  ultimately show ?case using Cons by simp
qed (simp add: ledger_text_def)

lemma replay_written:
  assumes "list_all (record_line_ok print parse) rs" "length (ledger_text print rs) \<le> LEDGER_MAX_BYTES"
  shows "replay parse None (Some (ledger_text print rs)) = Inr rs"
proof -
  have t: "takeWhile utf8_ok (map print rs) = map print rs"
    using assms(1) by (auto simp: takeWhile_eq_all_conv list_all_iff record_line_ok_def)
  have f: "List.map_filter parse (map print rs) = rs"
    using assms(1) by (induction rs) (simp_all add: map_filter_simps record_line_ok_def)
  show ?thesis using assms by (simp add: replay_def ledger_lines t f del: takeWhile_eq_all_conv)
qed

definition disk_text :: "ledger_disk \<Rightarrow> string" where
  "disk_text d = (case ld_main d of None \<Rightarrow> [] | Some bytes \<Rightarrow> bytes)"

lemma replay_disk:
  assumes "disk_text d = ledger_text print rs" "list_all (record_line_ok print parse) rs"
    "length (disk_text d) \<le> LEDGER_MAX_BYTES"
  shows "replay parse None (ld_main d) = Inr rs"
proof (cases "ld_main d")
  case None
  then have "rs = []" using assms(1) by (cases rs) (simp_all add: disk_text_def ledger_text_def record_line_def)
  then show ?thesis using None by (simp add: replay_def)
next
  case (Some bytes)
  then show ?thesis using assms replay_written by (simp add: disk_text_def)
qed

text \<open>
  A rotation takes the records before it out of the reach of a restart, and one line that is not UTF-8,
  as a torn write may leave behind, hides all lines after it.
\<close>

lemma rotated_records_are_forgotten:
  assumes "ld_main d = Some bytes" "LEDGER_MAX_BYTES \<le> length bytes" "record_line_ok print parse r"
    "length (print r) < LEDGER_MAX_BYTES"
  shows "replay parse None (ld_main (snd (ledger_append print None r d))) = Inr [r]"
proof -
  have "ld_main (snd (ledger_append print None r d)) = Some (ledger_text print [r])"
    using assms by (simp add: ledger_append_def ledger_text_def record_line_def Let_def)
  moreover have "length (ledger_text print [r]) \<le> LEDGER_MAX_BYTES"
    using assms(4) by (simp add: ledger_text_def record_line_def)
  ultimately show ?thesis using replay_written [of print parse "[r]"] assms(3) by simp
qed

lemma torn_line_hides_the_rest:
  assumes "CHR 0x0A \<notin> set torn" "\<not> utf8_ok (strip_cr torn)" "length (torn @ CHR 0x0A # rest) \<le> LEDGER_MAX_BYTES"
  shows "replay parse None (Some (torn @ CHR 0x0A # rest)) = Inr []"
proof -
  have "take LEDGER_MAX_BYTES (torn @ CHR 0x0A # rest) = torn @ CHR 0x0A # rest" using assms(3) by (rule take_all)
  then show ?thesis using assms byte_lines_line [of torn "[]"] by (simp add: replay_def map_filter_simps)
qed

section \<open>Order does not matter\<close>

lemma bt_eqI:
  assumes "bt_wf m" "bt_wf m'" "bt_get m = bt_get m'"
  shows "m = m'"
proof -
  have same: "set m = set m'" using assms bt_in_get bt_get_in by (metis (no_types, opaque_lifting) subrelI subset_antisym)
  moreover have "inj_on fst (set m \<union> set m')"
    using bt_wf_distinct [OF assms(1)] by (simp add: same [symmetric] distinct_map)
  moreover have "sorted (map fst m)" "sorted (map fst m')"
    using assms by (auto simp: bt_wf_def intro: strict_sorted_imp_sorted)
  ultimately show ?thesis using assms(1,2) bt_wf_distinct
    by (intro map_sorted_distinct_set_unique [of fst]) simp_all
qed

lemma usage_permuted:
  assumes "mset rs = mset rs'"
  shows "fold usage_put rs [] = fold usage_put rs' []"
proof (rule bt_eqI)
  show "bt_wf (fold usage_put rs [])" "bt_wf (fold usage_put rs' [])" using usage_exact by blast+
  have sets: "set rs = set rs'" using assms by (rule mset_eq_setD)
  have "sums_of (filter P rs) = sums_of (filter P rs')" for P
    using assms by (intro sums_mset) (simp add: mset_filter)
  then have "usage_spec rs = usage_spec rs'" by (simp add: usage_spec_def task_totals_sums sets fun_eq_iff)
  then show "bt_get (fold usage_put rs []) = bt_get (fold usage_put rs' [])" using usage_exact by metis
qed

section \<open>Writing\<close>

definition no_fault :: "telemetry_event \<Rightarrow> bool" where
  "no_fault e = (case e of Appended fault \<Rightarrow> fault = None | _ \<Rightarrow> True)"

definition in_hand :: "telemetry \<Rightarrow> task_record list" where
  "in_hand t = (case tl_hand t of Some (r, None) \<Rightarrow> [r] | _ \<Rightarrow> [])"

definition written_in_hand :: "telemetry \<Rightarrow> nat" where
  "written_in_hand t = (case tl_hand t of Some (_, Some _) \<Rightarrow> 1 | _ \<Rightarrow> 0)"

text \<open>
  Until the file is rotated: \<open>ws\<close> are the records written, \<open>ds\<close> those dropped; with the ones on the way
  they are all the records \<open>rs\<close>.
\<close>

definition writing :: "(task_record \<Rightarrow> string) \<Rightarrow> task_record list \<Rightarrow> telemetry \<Rightarrow> task_record list \<Rightarrow> task_record list \<Rightarrow> bool" where
  "writing print rs t ws ds \<longleftrightarrow>
     tl_ledger t \<and> disk_text (tl_disk t) = ledger_text print ws \<and>
     mset rs = mset ws + mset ds + mset (in_hand t) + mset (queued_records t) + mset (tl_calls t) \<and>
     length ds = te_ledger_dropped (tl_inner t) \<and>
     length ws = te_ledger_records (tl_inner t) + written_in_hand t \<and>
     (\<forall>r e. tl_hand t \<noteq> Some (r, Some (Inl e)))"

definition restart_inv :: "(task_record \<Rightarrow> string) \<Rightarrow> task_record list \<Rightarrow> telemetry \<Rightarrow> bool" where
  "restart_inv print rs t \<longleftrightarrow> ld_rotated (tl_disk t) \<noteq> None \<or> (\<exists>ws ds. writing print rs t ws ds)"

lemma mset_remove_at: "k < length xs \<Longrightarrow> mset xs = add_mset (xs ! k) (mset (remove_at k xs))"
proof -
  assume "k < length xs"
  then have "xs = take k xs @ xs ! k # drop (Suc k) xs" by (rule id_take_nth_drop)
  then have "mset xs = mset (take k xs @ xs ! k # drop (Suc k) xs)" by simp
  then show ?thesis by (simp add: remove_at_def)
qed

lemma writing_frame:
  assumes "writing print rs t ws ds" "ledger_frame (tl_inner t) (f (tl_inner t))"
  shows "writing print rs (on_inner f t) ws ds"
  using assms by (simp add: writing_def ledger_frame_def on_inner_def in_hand_def written_in_hand_def queued_records_def)

lemma append_writes:
  assumes "ledger_append print None r d = (res, d')" "ld_rotated d' = None"
  shows "res = Inr () \<and> disk_text d' = disk_text d @ record_line print r"
  using assms by (auto simp: ledger_append_def disk_text_def record_line_def Let_def split: option.splits if_splits)

lemma append_keeps_rotated:
  assumes "ledger_append print fault r d = (res, d')" "ld_rotated d \<noteq> None"
  shows "ld_rotated d' \<noteq> None"
  using assms by (auto simp: ledger_append_def Let_def split: option.splits if_splits append_stage.splits prod.splits)

lemma writing_step:
  assumes w: "writing print rs t ws ds" and ok: "no_fault e"
  shows "restart_inv print (rs @ finished_records [e]) (telemetry_step print t e)"
proof -
  have counter: "restart_inv print (rs @ finished_records [e]) (on_inner f t)"
    if "finished_records [e] = []" "ledger_frame (tl_inner t) (f (tl_inner t))" for f
    using writing_frame [OF w, of f] that by (auto simp: restart_inv_def)
  show ?thesis
  proof (cases e)
    case (Finished r)
    then have "writing print (rs @ [r]) (task_counted r t) ws ds"
      using w ledger_frames(1) [of "tl_inner t" r]
      by (simp add: writing_def task_counted_def ledger_frame_def in_hand_def written_in_hand_def queued_records_def)
    then show ?thesis using Finished by (auto simp: restart_inv_def finished_records_def map_filter_simps)
  next
    case (Enqueued k)
    show ?thesis
    proof (cases "k < length (tl_calls t)")
      case True
      let ?r = "tl_calls t ! k" and ?t = "t\<lparr>tl_calls := remove_at k (tl_calls t)\<rparr>"
      have "writing print rs (task_enqueued ?r ?t) ws ds \<or> writing print rs (task_enqueued ?r ?t) ws (ds @ [?r])"
        using w mset_remove_at [OF True]
        by (simp add: writing_def task_enqueued_def try_send_def in_hand_def written_in_hand_def queued_records_def
            records_append Let_def)
      then show ?thesis using Enqueued True by (auto simp: restart_inv_def finished_records_def map_filter_simps)
    next
      case False
      then show ?thesis using Enqueued w by (auto simp: restart_inv_def finished_records_def map_filter_simps)
    qed
  next
    case Received
    have "writing print rs (worker_receive t) ws ds"
      using w by (auto simp: writing_def worker_receive_def in_hand_def written_in_hand_def queued_records_def
          split: option.splits list.splits ledger_command.splits)
    then show ?thesis using Received by (auto simp: restart_inv_def finished_records_def map_filter_simps)
  next
    case (Appended fault)
    then have [simp]: "fault = None" using ok by (simp add: no_fault_def)
    show ?thesis
    proof (cases "\<exists>r. tl_hand t = Some (r, None)")
      case True
      then obtain r where h: "tl_hand t = Some (r, None)" by blast
      obtain res d' where a: "ledger_append print None r (tl_disk t) = (res, d')" by fastforce
      then have t': "telemetry_step print t e = t\<lparr>tl_hand := Some (r, Some res), tl_disk := d'\<rparr>"
        by (simp add: Appended worker_append_def h)
      have "writing print rs (telemetry_step print t e) (ws @ [r]) ds" if "ld_rotated d' = None"
        using append_writes [OF a that] w h
        by (simp add: t' writing_def in_hand_def written_in_hand_def queued_records_def ledger_text_def)
      moreover have "ld_rotated (tl_disk (telemetry_step print t e)) = ld_rotated d'" by (simp add: t')
      moreover have "rs @ finished_records [e] = rs" by (simp add: Appended finished_records_def map_filter_simps)
      ultimately show ?thesis unfolding restart_inv_def by metis
    next
      case False
      then have "worker_append print fault t = t" by (auto simp: worker_append_def split: option.split prod.split)
      then show ?thesis using Appended w by (auto simp: restart_inv_def finished_records_def map_filter_simps)
    qed
  next
    case Settled
    have "writing print rs (worker_settle t) ws ds"
      using w by (auto simp: writing_def worker_settle_def in_hand_def written_in_hand_def queued_records_def Let_def
          split: option.splits prod.splits sum.splits)
    then show ?thesis using Settled by (auto simp: restart_inv_def finished_records_def map_filter_simps)
  next
    case (FlushSent k)
    have "writing print rs (snd (flush_send k t)) ws ds"
      using w by (simp add: writing_def flush_send_def try_send_def in_hand_def written_in_hand_def queued_records_def
          records_append)
    then show ?thesis using FlushSent by (auto simp: restart_inv_def finished_records_def map_filter_simps)
  next
    case FlushFailed
    have "writing print rs (flush_failed t) ws ds"
      using w by (simp add: writing_def flush_failed_def in_hand_def written_in_hand_def queued_records_def)
    then show ?thesis using FlushFailed by (auto simp: restart_inv_def finished_records_def map_filter_simps)
  qed (use counter ledger_frames in \<open>simp_all add: finished_records_def map_filter_simps\<close>)
qed

lemma rotated_stays:
  assumes "ld_rotated (tl_disk t) \<noteq> None"
  shows "ld_rotated (tl_disk (telemetry_step print t e)) \<noteq> None"
proof (cases e)
  case (Appended fault)
  show ?thesis
  proof (cases "\<exists>r. tl_hand t = Some (r, None)")
    case True
    then obtain r where h: "tl_hand t = Some (r, None)" by blast
    obtain res d' where a: "ledger_append print fault r (tl_disk t) = (res, d')" by fastforce
    then have "tl_disk (telemetry_step print t e) = d'" by (simp add: Appended worker_append_def h)
    then show ?thesis using append_keeps_rotated [OF a assms] by simp
  next
    case False
    then have "worker_append print fault t = t" by (auto simp: worker_append_def split: option.split prod.split)
    then show ?thesis using assms Appended by simp
  qed
qed (use assms in \<open>auto simp: task_counted_def task_enqueued_def try_send_def worker_receive_def
  worker_settle_def flush_send_def flush_failed_def on_inner_def Let_def
  split: option.split list.split ledger_command.split prod.split\<close>)

lemma restart_step:
  assumes "restart_inv print rs t" "no_fault e"
  shows "restart_inv print (rs @ finished_records [e]) (telemetry_step print t e)"
  using assms writing_step rotated_stays unfolding restart_inv_def [of print rs t]
  by (metis restart_inv_def)

lemma restart_run:
  assumes "restart_inv print rs t" "list_all no_fault es"
  shows "restart_inv print (rs @ finished_records es) (foldl (telemetry_step print) t es)"
  using assms
proof (induction es arbitrary: rs t)
  case (Cons e es)
  then show ?case using restart_step [of print rs t e] Cons.IH [of "rs @ finished_records [e]"]
    by (simp add: finished_Cons [of e es])
qed (simp add: finished_records_def map_filter_simps)

lemma restart_start:
  assumes "disk_text d = ledger_text print old" "replay parse None (ld_main d) = Inr old"
  shows "restart_inv print old (with_ledger_capacity parse True capacity None None d)"
proof -
  have "te_ledger_records (replay_into parse None d inner_default) = length old" using assms(2) by (simp add: replay_into_def)
  then have "writing print old (with_ledger_capacity parse True capacity None None d) old []"
    using assms(1) by (simp add: writing_def with_ledger_capacity_def in_hand_def written_in_hand_def queued_records_def
        start_frame Let_def)
  then show ?thesis by (auto simp: restart_inv_def)
qed

lemma finished_writing:
  assumes "writing print rs t ws ds" "tl_calls t = []" "queued_records t = []" "tl_hand t = None"
    "te_ledger_dropped (tl_inner t) = 0"
  shows "mset rs = mset ws" "disk_text (tl_disk t) = ledger_text print ws" "length ws = te_ledger_records (tl_inner t)"
  using assms by (simp_all add: writing_def in_hand_def written_in_hand_def)


section \<open>Examples\<close>

definition sample_record :: task_record where
  "sample_record = \<lparr>tr_ts = 5, tr_model = ''m'', tr_backend = ''gpu'', tr_task = ''chat'', tr_priority = ''normal'',
     tr_outcome = ''ok'', tr_status = 200, tr_prompt_tokens = 3, tr_output_tokens = 4, tr_duration_ms = 9,
     tr_queue_wait_ms = 2, tr_load_ms = 1, tr_output_tokens_per_second = None\<rparr>"

definition sample_parse_record :: "string \<Rightarrow> task_record option" where
  "sample_parse_record s = (if s = ''x'' then Some sample_record else None)"

abbreviation sample_start :: telemetry where
  "sample_start \<equiv> with_ledger_capacity sample_parse_record True 2 None None \<lparr>ld_main = None, ld_rotated = None\<rparr>"

abbreviation (input) queue_sample :: "telemetry_event list" where
  "queue_sample \<equiv> [Finished sample_record, Enqueued 0]"

abbreviation (input) write_sample :: "telemetry_event list" where
  "write_sample \<equiv> [Received, Appended None, Settled]"

lemma sample_start_parts [simp]:
  "tl_queue sample_start = []" "tl_hand sample_start = None" "tl_calls sample_start = []" "tl_flushed sample_start = []"
  "tl_writer sample_start" "tl_ledger sample_start" "tl_capacity sample_start = 2"
  "tl_disk sample_start = \<lparr>ld_main = None, ld_rotated = None\<rparr>" "te_ledger_records (tl_inner sample_start) = 0"
  "te_ledger_failed (tl_inner sample_start) = 0" "te_ledger_dropped (tl_inner sample_start) = 0"
  "te_ledger_pending (tl_inner sample_start) = 0"
  by (simp_all add: with_ledger_capacity_def replay_into_def replay_def inner_default_def Let_def)

lemma count_task_ledger [simp]:
  "te_ledger_records (count_task r te) = te_ledger_records te" "te_ledger_failed (count_task r te) = te_ledger_failed te"
  "te_ledger_dropped (count_task r te) = te_ledger_dropped te" "te_ledger_pending (count_task r te) = te_ledger_pending te"
  using ledger_frames(1) [of te r] by (simp_all add: ledger_frame_def)

lemma sample_line: "record_line_ok (\<lambda>_. ''x'') sample_parse_record sample_record"
  by (simp add: record_line_ok_def sample_parse_record_def utf8_ok_def)

lemma flush_waits_for_earlier_records_witness:
  "1 \<le> te_ledger_records (tl_inner (foldl (telemetry_step (\<lambda>_. ''x''))
     (snd (flush_send 7 (foldl (telemetry_step (\<lambda>_. ''x'')) sample_start queue_sample))) (write_sample @ [Received]))) +
   te_ledger_failed (tl_inner (foldl (telemetry_step (\<lambda>_. ''x''))
     (snd (flush_send 7 (foldl (telemetry_step (\<lambda>_. ''x'')) sample_start queue_sample))) (write_sample @ [Received])))"
proof -
  let ?s = "foldl (telemetry_step (\<lambda>_. ''x'')) sample_start queue_sample"
  let ?s' = "snd (flush_send 7 ?s)"
  let ?t = "foldl (telemetry_step (\<lambda>_. ''x'')) ?s' (write_sample @ [Received])"
  have new: "7 \<notin> set (tl_flushed ?s)" "Flush 7 \<notin> set (tl_queue ?s)"
    and sent: "flush_send 7 ?s = (Sent, ?s')" and pending: "te_ledger_pending (tl_inner ?s) = 1"
    by (simp_all add: task_counted_def task_enqueued_def try_send_def remove_at_def flush_send_def Let_def)
  have answered: "7 \<in> set (tl_flushed ?t)"
    by (simp add: task_counted_def task_enqueued_def try_send_def remove_at_def flush_send_def worker_receive_def
        worker_append_def worker_settle_def ledger_append_def Let_def)
  have "list_all (not_sent 7) (write_sample @ [Received])" by (simp add: not_sent_def)
  from flush_waits_for_earlier_records [OF new sent this refl answered] show ?thesis unfolding pending by linarith
qed


lemma usage_report_is_exact_witness:
  "bt_get (te_usage (tl_inner (foldl (telemetry_step (\<lambda>_. ''x'')) sample_start [Finished sample_record])))
     (civil_day 0, ''m'') = Some (sums_of [sample_record])"
proof -
  have old: "replay sample_parse_record None (ld_main \<lparr>ld_main = None, ld_rotated = None\<rparr>) = Inr []"
    by (simp add: replay_def)
  have rs: "[sample_record] = [] @ finished_records [Finished sample_record]"
    by (simp add: finished_records_def map_filter_simps)
  have early: "list_all before_10000 [sample_record]" by (simp add: before_10000_def sample_record_def)
  have day: "record_day sample_record = 0" "tr_model sample_record = ''m''"
    by (simp_all add: record_day_def unix_day_def sample_record_def)
  then have "kept_day [sample_record] 0" by (simp add: kept_day_def newest_all MAX_USAGE_DAYS_def)
  then show ?thesis
    using usage_report_is_exact [where capacity = 2 and spawn_fault = None and print = "\<lambda>_. ''x''" and day = 0
        and model = "''m''", OF old rs early, THEN conjunct1] day by simp
qed

end
