(* ===== verification/Prometheus.thy ===== *)
theory Prometheus
  imports Telemetry
begin

text \<open>
  The Prometheus text of the counters (\<open>platform/telemetry/prometheus.rs\<close>). How a float is displayed is an
  argument; the gauges come from the caller.
\<close>

section \<open>Label values\<close>

definition replace_char :: "char \<Rightarrow> string \<Rightarrow> string \<Rightarrow> string" where
  "replace_char c w s = concat (map (\<lambda>x. if x = c then w else [x]) s)"

definition escape_label :: "string \<Rightarrow> string" where
  "escape_label v =
     replace_char (CHR 0x0A) [CHR 0x5C, CHR ''n'']
       (replace_char (CHR 0x22) [CHR 0x5C, CHR 0x22] (replace_char (CHR 0x5C) [CHR 0x5C, CHR 0x5C] v))"

text \<open>A reader of the format: a quoted value ends at the first quote that no backslash protects.\<close>

fun read_label :: "string \<Rightarrow> (string \<times> string) option" where
  "read_label [] = None"
| "read_label (c # cs) =
     (if c = CHR 0x22 then Some ([], cs)
      else if c = CHR 0x5C then
        (case cs of
           [] \<Rightarrow> None
         | d # ds \<Rightarrow> map_option (\<lambda>(v, rest). ((if d = CHR ''n'' then CHR 0x0A else d) # v, rest)) (read_label ds))
      else map_option (\<lambda>(v, rest). (c # v, rest)) (read_label cs))"

section \<open>The document\<close>

definition newline :: string where "newline = [CHR 0x0A]"
definition quote :: string where "quote = [CHR 0x22]"

definition quoted_label :: "string \<Rightarrow> string \<Rightarrow> string" where
  "quoted_label key v = key @ ''='' @ quote @ escape_label v @ quote"

fun join_text :: "string \<Rightarrow> string list \<Rightarrow> string" where
  "join_text sep [] = []"
| "join_text sep [x] = x"
| "join_text sep (x # xs) = x @ sep @ join_text sep xs"

definition labels :: "(string \<times> string) list \<Rightarrow> string" where
  "labels ls = join_text '','' (map (\<lambda>(key, v). quoted_label key v) ls)"

definition sample_line :: "string \<Rightarrow> (string \<times> string) list \<Rightarrow> string \<Rightarrow> string" where
  "sample_line name ls v = name @ ''{'' @ labels ls @ ''} '' @ v @ newline"

definition family :: "string \<Rightarrow> string \<Rightarrow> string \<Rightarrow> string" where
  "family name kind help =
     ''# HELP '' @ name @ '' '' @ help @ newline @ ''# TYPE '' @ name @ '' '' @ kind @ newline"

definition task_series :: "(f64 \<Rightarrow> string) \<Rightarrow> string \<Rightarrow> (task_counters \<Rightarrow> f64) \<Rightarrow> inner \<Rightarrow> string" where
  "task_series show_f name pick te =
     concat (map (\<lambda>((model, backend, task, result), c).
       sample_line name [(''model'', model), (''backend'', backend), (''task'', task), (''outcome'', result)]
         (show_f (pick c))) (te_tasks te))"

definition ms_seconds :: "nat \<Rightarrow> f64" where
  "ms_seconds ms = f_div (f_of_nat ms) (f_of_nat 1000)"

definition task_family :: "(f64 \<Rightarrow> string) \<Rightarrow> inner \<Rightarrow> string \<Rightarrow> string \<Rightarrow> (task_counters \<Rightarrow> f64) \<Rightarrow> string" where
  "task_family show_f te name help pick = family name ''counter'' help @ task_series show_f name pick te"

definition task_families :: "(f64 \<Rightarrow> string) \<Rightarrow> inner \<Rightarrow> string" where
  "task_families show_f te =
     task_family show_f te ''freellama_tasks_total'' ''Managed tasks finished, by outcome.'' (\<lambda>c. f_of_nat (tc_count c)) @
     task_family show_f te ''freellama_prompt_tokens_total'' ''Prompt tokens reported by Ollama.''
       (\<lambda>c. f_of_nat (tc_prompt_tokens c)) @
     task_family show_f te ''freellama_output_tokens_total'' ''Output tokens reported by Ollama.''
       (\<lambda>c. f_of_nat (tc_output_tokens c)) @
     task_family show_f te ''freellama_task_seconds_total'' ''Wall time of managed tasks, queueing included.''
       (\<lambda>c. ms_seconds (tc_duration_ms c)) @
     task_family show_f te ''freellama_queue_wait_seconds_total'' ''Time managed tasks spent waiting for admission.''
       (\<lambda>c. ms_seconds (tc_queue_wait_ms c)) @
     task_family show_f te ''freellama_load_seconds_total'' ''Model load time reported by Ollama.''
       (\<lambda>c. ms_seconds (tc_load_ms c))"

definition raw_family :: "inner \<Rightarrow> string" where
  "raw_family te =
     family ''freellama_raw_requests_total'' ''counter'' ''Raw passthrough requests, by kind and outcome.'' @
     concat (map (\<lambda>((kind, result), n).
       sample_line ''freellama_raw_requests_total'' [(''kind'', kind), (''outcome'', result)] (show_nat n)) (te_raw te))"

definition backend_family :: "string \<Rightarrow> string \<Rightarrow> (string, nat) btree \<Rightarrow> string" where
  "backend_family name help m =
     family name ''counter'' help @ concat (map (\<lambda>(backend, n). sample_line name [(''backend'', backend)] (show_nat n)) m)"

definition limit_family :: "inner \<Rightarrow> string" where
  "limit_family te =
     family ''freellama_concurrency_limit_changes_total'' ''counter'' ''Adaptive concurrency adjustments.'' @
     concat (map (\<lambda>((backend, direction), n).
       sample_line ''freellama_concurrency_limit_changes_total''
         [(''backend'', backend), (''direction'', direction)] (show_nat n)) (te_limit_changes te))"

record gauge =
  ga_name :: string
  ga_help :: string
  ga_kind :: string
  ga_labels :: "(string \<times> string) list"
  ga_value :: f64

definition gauge_new :: "string \<Rightarrow> string \<Rightarrow> f64 \<Rightarrow> gauge" where
  "gauge_new name help v = \<lparr>ga_name = name, ga_help = help, ga_kind = ''gauge'', ga_labels = [], ga_value = v\<rparr>"

definition gauge_label :: "string \<Rightarrow> string \<Rightarrow> gauge \<Rightarrow> gauge" where
  "gauge_label key v g = g\<lparr>ga_labels := ga_labels g @ [(key, v)]\<rparr>"

definition gauge_counter :: "gauge \<Rightarrow> gauge" where
  "gauge_counter g = g\<lparr>ga_kind := ''counter''\<rparr>"

definition gauge_line :: "(f64 \<Rightarrow> string) \<Rightarrow> gauge \<Rightarrow> string" where
  "gauge_line show_f g =
     (if labels (ga_labels g) = [] then ga_name g @ '' '' @ show_f (ga_value g) @ newline
      else sample_line (ga_name g) (ga_labels g) (show_f (ga_value g)))"

fun gauge_lines :: "(f64 \<Rightarrow> string) \<Rightarrow> string option \<Rightarrow> gauge list \<Rightarrow> string" where
  "gauge_lines show_f current [] = []"
| "gauge_lines show_f current (g # gs) =
     (if current \<noteq> Some (ga_name g) then family (ga_name g) (ga_kind g) (ga_help g) else []) @
     gauge_line show_f g @ gauge_lines show_f (Some (ga_name g)) gs"

definition render_prometheus :: "(f64 \<Rightarrow> string) \<Rightarrow> gauge list \<Rightarrow> nat \<Rightarrow> inner \<Rightarrow> string" where
  "render_prometheus show_f gauges uptime te =
     task_families show_f te @ raw_family te @
     backend_family ''freellama_evictions_total'' ''Idle models unloaded to make room.'' (te_evictions te) @
     backend_family ''freellama_circuit_open_total'' ''Times an upstream circuit breaker opened.'' (te_breaker_opens te) @
     limit_family te @ gauge_lines show_f None gauges @
     family ''freellama_uptime_seconds'' ''gauge'' ''Seconds since this FreeLlama process started.'' @
     ''freellama_uptime_seconds '' @ show_nat uptime @ newline"

section \<open>Labels are read back\<close>

lemma escape_Cons:
  "escape_label (c # v) =
     (if c = CHR 0x5C then [CHR 0x5C, CHR 0x5C] else if c = CHR 0x22 then [CHR 0x5C, CHR 0x22]
      else if c = CHR 0x0A then [CHR 0x5C, CHR ''n''] else [c]) @ escape_label v"
  by (simp add: escape_label_def replace_char_def)

lemma escape_Nil [simp]: "escape_label [] = []"
  by (simp add: escape_label_def replace_char_def)

text \<open>Whatever a model or a backend is called, its label is one quoted value on one line that reads back.\<close>

lemma label_read_back: "read_label (escape_label v @ quote @ rest) = Some (v, rest)"
  by (induction v) (simp_all add: escape_Cons quote_def)

lemma label_one_line: "CHR 0x0A \<notin> set (escape_label v)"
  by (induction v) (auto simp: escape_Cons)

text \<open>
  Two series of one metric with different labels never share a line prefix: the labels of a task line
  determine the key of its counters.
\<close>

fun read_labels :: "string list \<Rightarrow> string \<Rightarrow> string list option" where
  "read_labels [] s = Some []"
| "read_labels (key # keys) s =
     (if take (length key + 2) s \<noteq> key @ ''='' @ quote then None
      else case read_label (drop (length key + 2) s) of
             None \<Rightarrow> None
           | Some (v, rest) \<Rightarrow>
               map_option ((#) v) (read_labels keys (if take 1 rest = '','' then drop 1 rest else rest)))"

lemma labels_read_back:
  "s = [] \<or> hd s \<noteq> CHR '','' \<Longrightarrow> read_labels (map fst ls) (labels ls @ s) = Some (map snd ls)"
proof (induction ls)
  case (Cons l ls)
  obtain key v where l: "l = (key, v)" by fastforce
  let ?rest = "(if ls = [] then s else '','' @ labels ls @ s)"
  have shape: "labels (l # ls) @ s = key @ ''='' @ quote @ escape_label v @ quote @ ?rest"
    by (cases ls) (simp_all add: labels_def l quoted_label_def)
  have read: "read_label (escape_label v @ quote @ ?rest) = Some (v, ?rest)" by (rule label_read_back)
  have "take (length key + 2) (labels (l # ls) @ s) = key @ ''='' @ quote"
    "drop (length key + 2) (labels (l # ls) @ s) = escape_label v @ quote @ ?rest"
    unfolding shape by (simp_all add: quote_def)
  moreover have "read_labels (map fst ls) (if take 1 ?rest = '','' then drop 1 ?rest else ?rest) = Some (map snd ls)"
    using Cons by (cases s; cases ls) (auto simp: labels_def)
  ultimately show ?case by (simp add: l read del: append.simps)
qed simp

end
