(* ===== verification/Net.thy ===== *)
theory Net
  imports FL_Text FL_Json
begin

text \<open>
  The network boundary: addresses and loopback hosts (\<open>net.rs\<close>), the bearer token and its file
  (\<open>auth.rs\<close>, \<open>platform/bearer.rs\<close>) and the timeouts of the environment (\<open>timeouts.rs\<close>). Addresses are read as the
  standard library reads them; the URL parser is an argument.
\<close>

section \<open>Addresses\<close>

datatype ip_addr = V4 nat nat nat nat | V6 "nat list"

definition hex_value :: "char \<Rightarrow> nat option" where
  "hex_value c =
     (case position (\<lambda>d. d = c) ''0123456789abcdef'' of
        Some n \<Rightarrow> Some n
      | None \<Rightarrow> position (\<lambda>d. d = c) ''0123456789ABCDEF'')"

fun span_radix :: "(char \<Rightarrow> nat option) \<Rightarrow> string \<Rightarrow> nat list \<times> string" where
  "span_radix digit [] = ([], [])"
| "span_radix digit (c # cs) =
     (case digit c of
        None \<Rightarrow> ([], c # cs)
      | Some d \<Rightarrow> (case span_radix digit cs of (ds, rest) \<Rightarrow> (d # ds, rest)))"

definition digits_value :: "nat \<Rightarrow> nat list \<Rightarrow> nat" where
  "digits_value radix ds = foldl (\<lambda>n d. n * radix + d) 0 ds"

text \<open>
  \<open>read_number\<close>: too many digits, none, a leading zero where none is allowed, or a value out of the type
  is no number.
\<close>

definition read_number ::
  "nat \<Rightarrow> (char \<Rightarrow> nat option) \<Rightarrow> nat option \<Rightarrow> bool \<Rightarrow> nat \<Rightarrow> string \<Rightarrow> (nat \<times> string) option" where
  "read_number radix digit max_digits zeros bound s =
     (let (ds, rest) = span_radix digit s; n = digits_value radix ds
      in if ds = [] \<or> (case max_digits of None \<Rightarrow> False | Some m \<Rightarrow> m < length ds) \<or>
            (\<not> zeros \<and> 1 < length ds \<and> hd ds = 0) \<or> bound < n
         then None else Some (n, rest))"

definition read_char :: "char \<Rightarrow> string \<Rightarrow> string option" where
  "read_char c s = (case s of x # xs \<Rightarrow> if x = c then Some xs else None | [] \<Rightarrow> None)"

definition read_octet :: "string \<Rightarrow> (nat \<times> string) option" where
  "read_octet = read_number 10 digit_value (Some 3) False 255"

definition read_next_octet :: "string \<Rightarrow> (nat \<times> string) option" where
  "read_next_octet s = Option.bind (read_char (CHR ''.'') s) read_octet"

definition read_ipv4 :: "string \<Rightarrow> ((nat \<times> nat \<times> nat \<times> nat) \<times> string) option" where
  "read_ipv4 s =
     Option.bind (read_octet s) (\<lambda>(a, s1). Option.bind (read_next_octet s1) (\<lambda>(b, s2).
     Option.bind (read_next_octet s2) (\<lambda>(c, s3). Option.bind (read_next_octet s3) (\<lambda>(d, s4).
       Some ((a, b, c, d), s4)))))"

definition read_separated :: "nat \<Rightarrow> (string \<Rightarrow> 'a option) \<Rightarrow> string \<Rightarrow> 'a option" where
  "read_separated i inner s =
     (if i = 0 then inner s else Option.bind (read_char (CHR '':'') s) inner)"

definition read_group :: "string \<Rightarrow> (nat \<times> string) option" where
  "read_group = read_number 16 hex_value (Some 4) True 65535"

text \<open>Up to \<open>n\<close> groups, the first of them with index \<open>i\<close>; an embedded IPv4 address takes two.\<close>

fun read_groups :: "nat \<Rightarrow> nat \<Rightarrow> string \<Rightarrow> nat list \<times> bool \<times> string" where
  "read_groups i 0 s = ([], False, s)"
| "read_groups i (Suc n) s =
     (case (if 0 < n then read_separated i read_ipv4 s else None) of
        Some ((a, b, c, d), rest) \<Rightarrow> ([a * 256 + b, c * 256 + d], True, rest)
      | None \<Rightarrow>
          (case read_separated i read_group s of
             None \<Rightarrow> ([], False, s)
           | Some (g, rest) \<Rightarrow> (case read_groups (Suc i) n rest of (gs, v4, rest') \<Rightarrow> (g # gs, v4, rest'))))"

definition read_ipv6 :: "string \<Rightarrow> (nat list \<times> string) option" where
  "read_ipv6 s =
     (case read_groups 0 8 s of (heads, v4, rest) \<Rightarrow>
        if length heads = 8 then Some (heads, rest)
        else if v4 then None
        else Option.bind (read_char (CHR '':'') rest) (\<lambda>r1. Option.bind (read_char (CHR '':'') r1) (\<lambda>r2.
          (case read_groups 0 (8 - (length heads + 1)) r2 of (tails, _, rest') \<Rightarrow>
             Some (heads @ replicate (8 - length heads - length tails) 0 @ tails, rest')))))"

definition parse_ip :: "string \<Rightarrow> ip_addr option" where
  "parse_ip s =
     (case read_ipv4 s of
        Some ((a, b, c, d), rest) \<Rightarrow> if rest = [] then Some (V4 a b c d) else None
      | None \<Rightarrow> (case read_ipv6 s of
                   Some (gs, rest) \<Rightarrow> if rest = [] then Some (V6 gs) else None
                 | None \<Rightarrow> None))"

fun ip_loopback :: "ip_addr \<Rightarrow> bool" where
  "ip_loopback (V4 a b c d) \<longleftrightarrow> a = 127"
| "ip_loopback (V6 gs) \<longleftrightarrow> gs = [0, 0, 0, 0, 0, 0, 0, 1]"

fun ip_unspecified :: "ip_addr \<Rightarrow> bool" where
  "ip_unspecified (V4 a b c d) \<longleftrightarrow> a = 0 \<and> b = 0 \<and> c = 0 \<and> d = 0"
| "ip_unspecified (V6 gs) \<longleftrightarrow> gs = [0, 0, 0, 0, 0, 0, 0, 0]"

section \<open>Hosts\<close>

definition strip_ipv6_brackets :: "string \<Rightarrow> string" where
  "strip_ipv6_brackets host =
     (case host of
        c # rest \<Rightarrow> if c = CHR ''['' \<and> rest \<noteq> [] \<and> last rest = CHR '']'' then butlast rest else host
      | [] \<Rightarrow> host)"

definition is_loopback_host :: "string \<Rightarrow> bool" where
  "is_loopback_host host =
     (let h = strip_ipv6_brackets host
      in ascii_lower h = ''localhost'' \<or> (case parse_ip h of None \<Rightarrow> False | Some ip \<Rightarrow> ip_loopback ip))"

definition is_unspecified_host :: "string \<Rightarrow> bool" where
  "is_unspecified_host host =
     (case parse_ip (strip_ipv6_brackets host) of None \<Rightarrow> False | Some ip \<Rightarrow> ip_unspecified ip)"

text \<open>What the URL parser finds in a URL.\<close>

record url =
  url_scheme :: string
  url_host :: "string option"
  url_port :: "nat option"

definition is_loopback_url :: "(string \<Rightarrow> url option) \<Rightarrow> string \<Rightarrow> bool" where
  "is_loopback_url parse_url u =
     (case Option.bind (parse_url u) url_host of None \<Rightarrow> False | Some host \<Rightarrow> is_loopback_host host)"

section \<open>The bearer token\<close>

definition constant_time_eq :: "8 word list \<Rightarrow> 8 word list \<Rightarrow> bool" where
  "constant_time_eq left right =
     (if length left \<noteq> length right then False
      else foldl (\<lambda>difference (l, r). Bit_Operations.or difference (Bit_Operations.xor l r)) 0 (zip left right) = 0)"

definition string_bytes :: "string \<Rightarrow> 8 word list" where
  "string_bytes = map (\<lambda>c. of_nat (of_char c))"

definition strip_prefix :: "string \<Rightarrow> string \<Rightarrow> string option" where
  "strip_prefix prefix s = (if take (length prefix) s = prefix then Some (drop (length prefix) s) else None)"

datatype 'a response = Passed 'a | Unauthorized json

text \<open>\<open>header\<close> is the authorization header, when it is there and readable as text.\<close>

definition require_bearer :: "string \<Rightarrow> string option \<Rightarrow> 'a \<Rightarrow> 'a response" where
  "require_bearer token header next =
     (case Option.bind header (strip_prefix ''Bearer '') of
        Some supplied \<Rightarrow>
          if constant_time_eq (string_bytes supplied) (string_bytes token) then Passed next
          else Unauthorized (json_object [(''error'', JStr ''missing or invalid bearer token'')])
      | None \<Rightarrow> Unauthorized (json_object [(''error'', JStr ''missing or invalid bearer token'')]))"

definition MIN_TOKEN_BYTES :: nat where "MIN_TOKEN_BYTES = 32"

datatype token_error =
    CannotOpen | TokenSymlink | NotAFile | GroupOrOthers | CannotRead | TokenTooShort | TokenWhiteSpace

definition validate_token :: "string \<Rightarrow> token_error + unit" where
  "validate_token token =
     (if length token < MIN_TOKEN_BYTES then Inl TokenTooShort
      else if list_ex (\<lambda>w. contains_text w token) white_space then Inl TokenWhiteSpace
      else Inr ())"

text \<open>What opening the token file shows; the content is none when it cannot be read as text.\<close>

record token_file =
  tf_symlink :: bool
  tf_regular :: bool
  tf_mode :: nat
  tf_content :: "string option"

definition read_token_file :: "token_file option \<Rightarrow> token_error + string" where
  "read_token_file opened =
     (case opened of
        None \<Rightarrow> Inl CannotOpen
      | Some f \<Rightarrow>
          if tf_symlink f then Inl TokenSymlink
          else if \<not> tf_regular f then Inl NotAFile
          else if tf_mode f mod 2 ^ 6 \<noteq> 0 then Inl GroupOrOthers
          else (case tf_content f of
                  None \<Rightarrow> Inl CannotRead
                | Some content \<Rightarrow>
                    (let token = str_trim content
                     in case validate_token token of Inl e \<Rightarrow> Inl e | Inr _ \<Rightarrow> Inr token)))"

section \<open>Timeouts\<close>

definition DEFAULT_CONTROL_TIMEOUT_SECS :: nat where "DEFAULT_CONTROL_TIMEOUT_SECS = 30"
definition DEFAULT_TASK_TIMEOUT_SECS :: nat where "DEFAULT_TASK_TIMEOUT_SECS = 900"

text \<open>\<open>latest\<close> is the longest time from now that the clock represents.\<close>

definition representable :: "nat \<Rightarrow> nat \<Rightarrow> bool" where
  "representable latest seconds \<longleftrightarrow> 0 < seconds \<and> seconds \<le> latest"

definition timeout_from_value :: "nat \<Rightarrow> string option \<Rightarrow> nat \<Rightarrow> nat" where
  "timeout_from_value latest raw fallback =
     (case Option.bind raw parse_u64 of
        Some n \<Rightarrow> if representable latest n then n
                  else if representable latest fallback then fallback else DEFAULT_TASK_TIMEOUT_SECS
      | None \<Rightarrow> if representable latest fallback then fallback else DEFAULT_TASK_TIMEOUT_SECS)"

lemma timeout_bounds:
  "DEFAULT_TASK_TIMEOUT_SECS \<le> latest \<Longrightarrow> representable latest (timeout_from_value latest raw fallback)"
  by (auto simp: timeout_from_value_def representable_def DEFAULT_TASK_TIMEOUT_SECS_def split: option.split)

section \<open>Comparing tokens\<close>

lemma xor_zero_iff: "Bit_Operations.xor x y = 0 \<longleftrightarrow> x = y" for x y :: "8 word"
proof
  assume "Bit_Operations.xor x y = 0"
  then have "Bit_Operations.xor x (Bit_Operations.xor x y) = x" by simp
  then show "x = y" by (simp add: xor.assoc [symmetric])
qed simp

lemma fold_or_zero:
  "length xs = length ys \<Longrightarrow>
     foldl (\<lambda>difference (l, r). Bit_Operations.or difference (Bit_Operations.xor l r)) d (zip xs ys) = 0 \<longleftrightarrow> d = 0 \<and> xs = ys"
  for d :: "8 word"
proof (induction xs ys arbitrary: d rule: list_induct2)
  case (Cons x xs y ys)
  have "Bit_Operations.or d (Bit_Operations.xor x y) = 0 \<longleftrightarrow> d = 0 \<and> x = y"
    by (simp add: or_eq_0_iff xor_zero_iff)
  then show ?case using Cons.IH by auto
qed simp

lemma constant_time_eq_iff: "constant_time_eq xs ys \<longleftrightarrow> xs = ys"
  by (auto simp: constant_time_eq_def fold_or_zero)

lemma string_bytes_inject: "string_bytes s = string_bytes t \<longleftrightarrow> s = t"
proof -
  have "(of_nat (of_char c) :: 8 word) = of_nat (of_char d) \<longleftrightarrow> c = d" for c d :: char
  proof
    assume "(of_nat (of_char c) :: 8 word) = of_nat (of_char d)"
    then have "unat (of_nat (of_char c) :: 8 word) = unat (of_nat (of_char d) :: 8 word)" by simp
    then have "(of_char c :: nat) = of_char d" by (simp add: unat_of_nat)
    then show "c = d" by simp
  qed simp
  then show ?thesis
    by (induction s arbitrary: t) (auto simp: string_bytes_def Cons_eq_map_conv split: list.splits)
qed

lemma strip_prefix_iff: "strip_prefix p h = Some t \<longleftrightarrow> h = p @ t"
  unfolding strip_prefix_def by (metis append_eq_conv_conj option.inject option.distinct(1))

lemma require_bearer_iff:
  "require_bearer token header next = Passed next \<longleftrightarrow> header = Some (''Bearer '' @ token)"
proof -
  have "require_bearer token header next = Passed next \<longleftrightarrow> Option.bind header (strip_prefix ''Bearer '') = Some token"
    by (cases "Option.bind header (strip_prefix ''Bearer '')")
      (simp_all add: require_bearer_def constant_time_eq_iff string_bytes_inject)
  also have "\<dots> \<longleftrightarrow> header = Some (''Bearer '' @ token)"
    unfolding bind_eq_Some_conv strip_prefix_iff by blast
  finally show ?thesis .
qed

lemma token_file_checked:
  assumes "read_token_file (Some f) = Inr token"
  shows "\<not> tf_symlink f" "tf_regular f" "tf_mode f mod 64 = 0" "MIN_TOKEN_BYTES \<le> length token"
    "list_all (\<lambda>w. \<not> contains_text w token) white_space"
  using assms by (auto simp: read_token_file_def validate_token_def Let_def list_ex_iff list_all_iff
      split: if_splits option.splits sum.splits)

section \<open>Dotted addresses\<close>

lemma span_show_nat:
  assumes "digit_value c = None"
  shows "span_radix digit_value (show_nat n @ c # rest) = (map (the \<circ> digit_value) (show_nat n), c # rest)"
    "span_radix digit_value (show_nat n) = (map (the \<circ> digit_value) (show_nat n), [])"
proof -
  have digit: "digit_value x \<noteq> None" if "x \<in> set (show_nat n)" for x
    using show_nat_digits [OF that] by (auto simp: digit_value_def position_None)
  have "span_radix digit_value (xs @ ys) = (map (the \<circ> digit_value) xs @ fst (span_radix digit_value ys), snd (span_radix digit_value ys))"
    if "\<forall>x \<in> set xs. digit_value x \<noteq> None" for xs ys
    using that by (induction xs) auto
  from this [of "show_nat n"] digit assms
  show "span_radix digit_value (show_nat n @ c # rest) = (map (the \<circ> digit_value) (show_nat n), c # rest)"
    "span_radix digit_value (show_nat n) = (map (the \<circ> digit_value) (show_nat n), [])"
    by (force, metis append_Nil2 fst_conv prod.collapse snd_conv span_radix.simps(1))
qed

lemma digits_value_snoc: "digits_value r (ds @ [d]) = digits_value r ds * r + d"
  by (simp add: digits_value_def)

lemma shown_value: "digits_value 10 (map (the \<circ> digit_value) (show_nat n)) = n"
proof (induction n rule: show_nat.induct)
  case (1 n)
  show ?case
  proof (cases "n < 10")
    case True
    then have "show_nat n = [''0123456789'' ! n]" by (subst show_nat.simps) simp
    then show ?thesis using digit_value_digit [OF True] by (simp add: digits_value_def del: nth_Cons_numeral)
  next
    case False
    then have s: "show_nat n = show_nat (n div 10) @ [''0123456789'' ! (n mod 10)]" by (subst show_nat.simps) simp
    show ?thesis using 1 [OF False] digit_value_digit [of "n mod 10"]
      by (simp add: s digits_value_snoc del: nth_Cons_numeral)
  qed
qed

lemma shown_length: "n < 10 ^ k \<Longrightarrow> 0 < k \<Longrightarrow> length (show_nat n) \<le> k"
proof (induction n arbitrary: k rule: show_nat.induct)
  case (1 n)
  show ?case
  proof (cases "n < 10")
    case True
    then show ?thesis using 1(3) by (subst show_nat.simps) simp
  next
    case False
    obtain j where k: "k = Suc j" using 1(3) by (cases k) auto
    then have "0 < j" "n div 10 < 10 ^ j" using False 1(2) by (cases j; simp add: less_mult_imp_div_less mult.commute)+
    then show ?thesis using 1(1) [OF False, of j] False k by (subst show_nat.simps) simp
  qed
qed

lemma shown_head: "1 < length (show_nat n) \<Longrightarrow> hd (map (the \<circ> digit_value) (show_nat n)) \<noteq> 0"
proof (induction n rule: show_nat.induct)
  case (1 n)
  show ?case
  proof (cases "n < 10")
    case True
    then show ?thesis using 1(2) by (subst (asm) show_nat.simps) simp
  next
    case False
    then have s: "show_nat n = show_nat (n div 10) @ [''0123456789'' ! (n mod 10)]" by (subst show_nat.simps) simp
    show ?thesis
    proof (cases "n div 10 < 10")
      case True
      then have "show_nat (n div 10) = [''0123456789'' ! (n div 10)]" by (subst show_nat.simps) simp
      then show ?thesis using digit_value_digit [OF True] False by (simp add: s del: nth_Cons_numeral)
    next
      case False
      then have "1 < length (show_nat (n div 10))" by (subst show_nat.simps) simp
      then show ?thesis using 1(1) [OF \<open>\<not> n < 10\<close>] by (cases "show_nat (n div 10)") (simp_all add: s)
    qed
  qed
qed

lemma read_shown_octet:
  assumes "n \<le> 255" "digit_value c = None"
  shows "read_octet (show_nat n @ c # rest) = Some (n, c # rest)" "read_octet (show_nat n) = Some (n, [])"
proof -
  have "length (show_nat n) \<le> 3" using assms(1) by (intro shown_length) simp_all
  then show "read_octet (show_nat n @ c # rest) = Some (n, c # rest)" "read_octet (show_nat n) = Some (n, [])"
    using assms shown_head [of n] by (simp_all add: read_octet_def read_number_def span_show_nat shown_value)
qed

definition dotted :: "nat \<Rightarrow> nat \<Rightarrow> nat \<Rightarrow> nat \<Rightarrow> string" where
  "dotted a b c d = show_nat a @ ''.'' @ show_nat b @ ''.'' @ show_nat c @ ''.'' @ show_nat d"

lemma parse_dotted:
  assumes "a \<le> 255" "b \<le> 255" "c \<le> 255" "d \<le> 255"
  shows "parse_ip (dotted a b c d) = Some (V4 a b c d)"
proof -
  have dot: "digit_value (CHR ''.'') = None" by (simp add: digit_value_def)
  note octet = read_shown_octet(1) [OF _ dot]
  have "read_ipv4 (dotted a b c d) = Some ((a, b, c, d), [])"
    by (simp add: read_ipv4_def dotted_def read_next_octet_def read_char_def octet read_shown_octet(2) [OF _ dot] assms)
  then show ?thesis by (simp add: parse_ip_def)
qed

text \<open>Exactly the addresses 127.x.y.z are loopback addresses of the fourth version.\<close>

lemma dotted_loopback:
  assumes "a \<le> 255" "b \<le> 255" "c \<le> 255" "d \<le> 255"
  shows "is_loopback_host (dotted a b c d) \<longleftrightarrow> a = 127"
proof -
  obtain x xs where x: "dotted a b c d = x # xs" "x \<in> set ''0123456789''"
    using show_nat_digits [of _ a] by (cases "show_nat a") (simp_all add: dotted_def)
  then have "strip_ipv6_brackets (dotted a b c d) = dotted a b c d" by (auto simp: strip_ipv6_brackets_def)
  moreover have "ascii_lower (dotted a b c d) \<noteq> ''localhost''"
    using x by (auto simp: ascii_lower_def split: option.splits)
  ultimately show ?thesis by (simp add: is_loopback_host_def Let_def parse_dotted [OF assms])
qed

lemma lower_l: "ascii_lower h = ''localhost'' \<Longrightarrow> \<exists>c cs. h = c # cs \<and> c \<in> {CHR ''l'', CHR ''L''}"
proof -
  assume low: "ascii_lower h = ''localhost''"
  then obtain c cs where h: "h = c # cs" by (cases h) (simp_all add: ascii_lower_def)
  let ?m = "map_of (zip ''ABCDEFGHIJKLMNOPQRSTUVWXYZ'' ''abcdefghijklmnopqrstuvwxyz'') c"
  have l: "(case ?m of Some l \<Rightarrow> l | None \<Rightarrow> c) = CHR ''l''" using low by (simp add: h ascii_lower_def)
  show ?thesis
  proof (cases ?m)
    case None
    then show ?thesis using l h by simp
  next
    case (Some x)
    then have "(c, CHR ''l'') \<in> set (zip ''ABCDEFGHIJKLMNOPQRSTUVWXYZ'' ''abcdefghijklmnopqrstuvwxyz'')"
      using l map_of_SomeD [OF Some] by simp
    then show ?thesis using h by simp
  qed
qed

lemma loopback_not_unspecified: "is_loopback_host h \<Longrightarrow> \<not> is_unspecified_host h"
proof
  assume l: "is_loopback_host h" and u: "is_unspecified_host h"
  then obtain ip where ip: "parse_ip (strip_ipv6_brackets h) = Some ip" "ip_unspecified ip"
    by (auto simp: is_unspecified_host_def split: option.splits)
  have "\<not> ip_loopback ip" using ip(2) by (cases ip) auto
  then have "ascii_lower (strip_ipv6_brackets h) = ''localhost''" using l ip(1) by (simp add: is_loopback_host_def Let_def)
  then obtain c cs where "strip_ipv6_brackets h = c # cs" "c \<in> {CHR ''l'', CHR ''L''}" using lower_l by blast
  then have h: "strip_ipv6_brackets h = c # cs" and l: "c = CHR ''l'' \<or> c = CHR ''L''" by simp_all
  have c: "digit_value c = None" "hex_value c = None" "c \<noteq> CHR '':''"
    using l by (elim disjE; simp add: digit_value_def hex_value_def)+
  have v4: "read_ipv4 (c # cs) = None"
    using c by (simp add: read_ipv4_def read_octet_def read_number_def)
  moreover have "read_group (c # cs) = None" using c by (simp add: read_group_def read_number_def)
  ultimately have groups: "read_groups 0 (Suc n) (c # cs) = ([], False, c # cs)" for n by (simp add: read_separated_def)
  have "read_groups 0 8 (c # cs) = ([], False, c # cs)" using groups [of 7] by simp
  then have "read_ipv6 (c # cs) = None" using c by (simp add: read_ipv6_def read_char_def)
  then show False using ip(1) v4 by (simp add: h parse_ip_def)
qed

end
