(* ===== verification/Config.thy ===== *)
theory Config
  imports Net
begin

text \<open>
  The configuration of the proxy and of the platform (\<open>proxy/config.rs\<close>, \<open>platform/config.rs\<close>): construction,
  the builders, what is printed of it, and the validation of the network boundary. The parts that
  validation does not read are kept where a builder sets them; the shared handles (governor, lock,
  restart action, telemetry) are not. The URL parser is an argument.
\<close>

section \<open>Socket addresses\<close>

record socket =
  so_ip :: ip_addr
  so_port :: nat

definition read_port :: "string \<Rightarrow> (nat \<times> string) option" where
  "read_port s = Option.bind (read_char (CHR '':'') s) (read_number 10 digit_value None True 65535)"

definition skip_scope :: "string \<Rightarrow> string" where
  "skip_scope s =
     (case Option.bind (read_char (CHR ''%'') s) (read_number 10 digit_value None True u32_max) of
        None \<Rightarrow> s | Some (_, rest) \<Rightarrow> rest)"

definition read_socket_v4 :: "string \<Rightarrow> (socket \<times> string) option" where
  "read_socket_v4 s =
     Option.bind (read_ipv4 s) (\<lambda>((a, b, c, d), s1). Option.bind (read_port s1) (\<lambda>(port, s2).
       Some (\<lparr>so_ip = V4 a b c d, so_port = port\<rparr>, s2)))"

definition read_socket_v6 :: "string \<Rightarrow> (socket \<times> string) option" where
  "read_socket_v6 s =
     Option.bind (read_char (CHR ''['') s) (\<lambda>s1. Option.bind (read_ipv6 s1) (\<lambda>(gs, s2).
     Option.bind (read_char (CHR '']'') (skip_scope s2)) (\<lambda>s3. Option.bind (read_port s3) (\<lambda>(port, s4).
       Some (\<lparr>so_ip = V6 gs, so_port = port\<rparr>, s4)))))"

definition parse_socket :: "string \<Rightarrow> socket option" where
  "parse_socket s =
     (case (case read_socket_v4 s of Some r \<Rightarrow> Some r | None \<Rightarrow> read_socket_v6 s) of
        Some (a, rest) \<Rightarrow> if rest = [] then Some a else None
      | None \<Rightarrow> None)"

section \<open>The proxy\<close>

datatype config_error =
    InvalidListen | RemoteListener | InvalidUpstream | UpstreamScheme | UnspecifiedUpstream
  | RecursiveUpstream | UnauthenticatedListener | WeakToken token_error | UnauthenticatedRemote
  | CpuModelsMissing | SameEndpoint | CpuUpstreamMissing | EmptyCpuModel

definition DEFAULT_REQUEST_TIMEOUT :: duration where "DEFAULT_REQUEST_TIMEOUT = 300 * 1000000000"

record proxy_config =
  px_listen :: string
  px_upstream :: string
  px_allow_remote :: bool
  px_request_timeout :: duration
  px_auto_restart :: bool
  px_max_concurrent :: "nat option"
  px_raw_queue_wait :: duration

definition proxy_config_new :: "string \<Rightarrow> string \<Rightarrow> bool \<Rightarrow> proxy_config" where
  "proxy_config_new listen upstream allow_remote =
     \<lparr>px_listen = listen, px_upstream = upstream, px_allow_remote = allow_remote,
      px_request_timeout = DEFAULT_REQUEST_TIMEOUT, px_auto_restart = False, px_max_concurrent = None,
      px_raw_queue_wait = 0\<rparr>"

definition with_request_timeout :: "duration \<Rightarrow> proxy_config \<Rightarrow> proxy_config" where
  "with_request_timeout d c = c\<lparr>px_request_timeout := d\<rparr>"

definition with_auto_restart_ollama :: "bool \<Rightarrow> proxy_config \<Rightarrow> proxy_config" where
  "with_auto_restart_ollama enabled c = c\<lparr>px_auto_restart := enabled\<rparr>"

definition with_max_concurrent_requests :: "nat \<Rightarrow> proxy_config \<Rightarrow> proxy_config" where
  "with_max_concurrent_requests n c = c\<lparr>px_max_concurrent := Some (max n 1)\<rparr>"

definition with_raw_queue_wait :: "duration \<Rightarrow> proxy_config \<Rightarrow> proxy_config" where
  "with_raw_queue_wait d c = c\<lparr>px_raw_queue_wait := d\<rparr>"

definition same_host :: "socket \<Rightarrow> string \<Rightarrow> bool" where
  "same_host listen host =
     (let h = strip_ipv6_brackets host
      in parse_ip h = Some (so_ip listen) \<or>
         (ip_loopback (so_ip listen) \<or> ip_unspecified (so_ip listen)) \<and> is_loopback_host h)"

definition check_upstream :: "socket \<Rightarrow> url \<Rightarrow> config_error + unit" where
  "check_upstream listen u =
     (if url_scheme u \<notin> {''http'', ''https''} then Inl UpstreamScheme
      else if (case url_host u of None \<Rightarrow> False | Some host \<Rightarrow> is_unspecified_host host) then Inl UnspecifiedUpstream
      else if (case url_host u of None \<Rightarrow> False | Some host \<Rightarrow> same_host listen host) \<and>
              url_port u = Some (so_port listen) then Inl RecursiveUpstream
      else Inr ())"

definition proxy_validate :: "(string \<Rightarrow> url option) \<Rightarrow> proxy_config \<Rightarrow> config_error + unit" where
  "proxy_validate parse_url c =
     (case parse_socket (px_listen c) of
        None \<Rightarrow> Inl InvalidListen
      | Some listen \<Rightarrow>
          if \<not> (px_allow_remote c \<or> ip_loopback (so_ip listen)) then Inl RemoteListener
          else (case parse_url (px_upstream c) of
                  None \<Rightarrow> Inl InvalidUpstream
                | Some u \<Rightarrow> check_upstream listen u))"

section \<open>The platform\<close>

record platform_config =
  pc_listen :: string
  pc_upstream :: string
  pc_cpu_upstream :: "string option"
  pc_cpu_models :: "string set"
  pc_benchmark_report :: "string option"
  pc_policy_file :: "string option"
  pc_max_concurrent_tasks :: "nat option"
  pc_cpu_max_concurrent_tasks :: "nat option"
  pc_max_queue_wait :: "duration option"
  pc_max_queued_tasks :: "nat option"
  pc_cpu_max_queued_tasks :: "nat option"
  pc_max_sessions :: "nat option"
  pc_session_ttl :: "duration option"
  pc_raw_proxy_max :: "nat option"
  pc_raw_queue_wait :: "duration option"
  pc_feedback_file :: "string option"
  pc_auth_token :: "string option"
  pc_allow_remote :: bool
  pc_runtime_config :: "string option"
  pc_usage_file :: "string option"

definition platform_config_new ::
  "string \<Rightarrow> string \<Rightarrow> string option \<Rightarrow> string option \<Rightarrow> platform_config" where
  "platform_config_new listen upstream report policy =
     \<lparr>pc_listen = listen, pc_upstream = upstream, pc_cpu_upstream = None, pc_cpu_models = {},
      pc_benchmark_report = report, pc_policy_file = policy, pc_max_concurrent_tasks = None,
      pc_cpu_max_concurrent_tasks = None, pc_max_queue_wait = None, pc_max_queued_tasks = None,
      pc_cpu_max_queued_tasks = None, pc_max_sessions = None, pc_session_ttl = None,
      pc_raw_proxy_max = None, pc_raw_queue_wait = None, pc_feedback_file = None, pc_auth_token = None,
      pc_allow_remote = False, pc_runtime_config = None, pc_usage_file = None\<rparr>"

text \<open>The builders, in the order of the source.\<close>

datatype platform_option =
    RuntimeConfigFile string
  | UsageFile string
  | MaxQueueWait duration
  | MaxQueuedTasks nat
  | CpuMaxQueuedTasks nat
  | MaxSessions nat
  | SessionTtl duration
  | RawProxyMax nat
  | RawQueueWait duration
  | MaxConcurrentTasks nat
  | CpuMaxConcurrentTasks nat
  | FeedbackFile string
  | AuthToken string
  | RemoteAccess bool
  | CpuBackend string "string list"

fun configure :: "platform_option \<Rightarrow> platform_config \<Rightarrow> platform_config" where
  "configure (RuntimeConfigFile p) c = c\<lparr>pc_runtime_config := Some p\<rparr>"
| "configure (UsageFile p) c = c\<lparr>pc_usage_file := Some p\<rparr>"
| "configure (MaxQueueWait d) c = c\<lparr>pc_max_queue_wait := Some d\<rparr>"
| "configure (MaxQueuedTasks n) c = c\<lparr>pc_max_queued_tasks := Some (max n 1)\<rparr>"
| "configure (CpuMaxQueuedTasks n) c = c\<lparr>pc_cpu_max_queued_tasks := Some (max n 1)\<rparr>"
| "configure (MaxSessions n) c = c\<lparr>pc_max_sessions := Some (max n 1)\<rparr>"
| "configure (SessionTtl d) c = c\<lparr>pc_session_ttl := Some (max d 1000000000)\<rparr>"
| "configure (RawProxyMax n) c = c\<lparr>pc_raw_proxy_max := Some (max n 1)\<rparr>"
| "configure (RawQueueWait d) c = c\<lparr>pc_raw_queue_wait := Some d\<rparr>"
| "configure (MaxConcurrentTasks n) c = c\<lparr>pc_max_concurrent_tasks := Some (max n 1)\<rparr>"
| "configure (CpuMaxConcurrentTasks n) c = c\<lparr>pc_cpu_max_concurrent_tasks := Some (max n 1)\<rparr>"
| "configure (FeedbackFile p) c = c\<lparr>pc_feedback_file := Some p\<rparr>"
| "configure (AuthToken t) c = c\<lparr>pc_auth_token := Some t\<rparr>"
| "configure (RemoteAccess enabled) c = c\<lparr>pc_allow_remote := enabled\<rparr>"
| "configure (CpuBackend upstream models) c =
     c\<lparr>pc_cpu_upstream := Some upstream, pc_cpu_models := set models\<rparr>"

text \<open>What debugging output shows: every field, and of the token only that it is set.\<close>

datatype shown_value =
    ShownText string
  | ShownOption "string option"
  | ShownNumber "nat option"
  | ShownSet "string set"
  | ShownBool bool

definition debug_fields :: "platform_config \<Rightarrow> (string \<times> shown_value) list" where
  "debug_fields c =
     [(''listen'', ShownText (pc_listen c)), (''upstream'', ShownText (pc_upstream c)),
      (''cpu_upstream'', ShownOption (pc_cpu_upstream c)), (''cpu_models'', ShownSet (pc_cpu_models c)),
      (''benchmark_report'', ShownOption (pc_benchmark_report c)), (''policy_file'', ShownOption (pc_policy_file c)),
      (''max_concurrent_tasks'', ShownNumber (pc_max_concurrent_tasks c)),
      (''cpu_max_concurrent_tasks'', ShownNumber (pc_cpu_max_concurrent_tasks c)),
      (''max_queue_wait'', ShownNumber (pc_max_queue_wait c)), (''max_queued_tasks'', ShownNumber (pc_max_queued_tasks c)),
      (''cpu_max_queued_tasks'', ShownNumber (pc_cpu_max_queued_tasks c)),
      (''max_sessions'', ShownNumber (pc_max_sessions c)), (''session_ttl'', ShownNumber (pc_session_ttl c)),
      (''raw_proxy_max_concurrent_requests'', ShownNumber (pc_raw_proxy_max c)),
      (''raw_queue_wait'', ShownNumber (pc_raw_queue_wait c)), (''feedback_file'', ShownOption (pc_feedback_file c)),
      (''auth_token'', ShownOption (map_option (\<lambda>_. ''<redacted>'') (pc_auth_token c))),
      (''allow_remote'', ShownBool (pc_allow_remote c)), (''runtime_config'', ShownOption (pc_runtime_config c)),
      (''usage_file'', ShownOption (pc_usage_file c))]"

definition same_ollama_endpoint :: "(string \<Rightarrow> url option) \<Rightarrow> string \<Rightarrow> string \<Rightarrow> bool" where
  "same_ollama_endpoint parse_url left right =
     (case (parse_url left, parse_url right) of
        (Some l, Some r) \<Rightarrow>
          url_port l = url_port r \<and>
          (case (map_option strip_ipv6_brackets (url_host l), map_option strip_ipv6_brackets (url_host r)) of
             (Some lh, Some rh) \<Rightarrow> lh = rh \<or> is_loopback_host lh \<and> is_loopback_host rh
           | _ \<Rightarrow> False)
      | _ \<Rightarrow> False)"

definition check_cpu_backend :: "(string \<Rightarrow> url option) \<Rightarrow> platform_config \<Rightarrow> config_error + unit" where
  "check_cpu_backend parse_url c =
     (case pc_cpu_upstream c of
        Some cpu \<Rightarrow>
          if pc_cpu_models c = {} then Inl CpuModelsMissing
          else if same_ollama_endpoint parse_url (pc_upstream c) cpu then Inl SameEndpoint
          else proxy_validate parse_url (proxy_config_new (pc_listen c) cpu (pc_allow_remote c))
      | None \<Rightarrow> if pc_cpu_models c \<noteq> {} then Inl CpuUpstreamMissing else Inr ())"

definition platform_validate :: "(string \<Rightarrow> url option) \<Rightarrow> platform_config \<Rightarrow> config_error + unit" where
  "platform_validate parse_url c =
     (case parse_socket (pc_listen c) of
        None \<Rightarrow> Inl InvalidListen
      | Some listen \<Rightarrow>
          and_then (ensure (ip_loopback (so_ip listen) \<or> (pc_allow_remote c \<and> pc_auth_token c \<noteq> None))
            UnauthenticatedListener) (\<lambda>_.
          and_then (case pc_auth_token c of
                      None \<Rightarrow> Inr ()
                    | Some t \<Rightarrow> (case validate_token t of Inl e \<Rightarrow> Inl (WeakToken e) | Inr _ \<Rightarrow> Inr ())) (\<lambda>_.
          and_then (ensure (\<not> pc_allow_remote c \<or> pc_auth_token c \<noteq> None) UnauthenticatedRemote) (\<lambda>_.
          and_then (proxy_validate parse_url (proxy_config_new (pc_listen c) (pc_upstream c) (pc_allow_remote c))) (\<lambda>_.
          and_then (check_cpu_backend parse_url c) (\<lambda>_.
            ensure (\<forall>model \<in> pc_cpu_models c. str_trim model \<noteq> []) EmptyCpuModel))))))"

section \<open>The boundary\<close>

text \<open>
  An upstream that the listener itself answers: the same port, and its own address, or a loopback name
  when the listener answers on every address.
\<close>

definition answers :: "socket \<Rightarrow> url \<Rightarrow> bool" where
  "answers listen u \<longleftrightarrow> url_port u = Some (so_port listen) \<and>
     (case url_host u of
        None \<Rightarrow> False
      | Some host \<Rightarrow> parse_ip (strip_ipv6_brackets host) = Some (so_ip listen) \<or>
          ip_unspecified (so_ip listen) \<and> is_loopback_host (strip_ipv6_brackets host))"

lemma proxy_validated:
  assumes "proxy_validate parse_url c = Inr ()"
  obtains listen u where "parse_socket (px_listen c) = Some listen" "parse_url (px_upstream c) = Some u"
    "px_allow_remote c \<or> ip_loopback (so_ip listen)" "url_scheme u \<in> {''http'', ''https''}" "\<not> answers listen u"
  using assms
  by (auto simp: proxy_validate_def check_upstream_def answers_def same_host_def Let_def
      split: option.splits if_splits)

lemma ensure_ok: "ensure b e = Inr () \<longleftrightarrow> b"
  by (cases b) simp_all

lemma platform_validated:
  assumes "platform_validate parse_url c = Inr ()"
  obtains listen where "parse_socket (pc_listen c) = Some listen"
    "ip_loopback (so_ip listen) \<or> pc_allow_remote c \<and> pc_auth_token c \<noteq> None"
    "case pc_auth_token c of None \<Rightarrow> True | Some t \<Rightarrow> validate_token t = Inr ()"
    "proxy_validate parse_url (proxy_config_new (pc_listen c) (pc_upstream c) (pc_allow_remote c)) = Inr ()"
    "check_cpu_backend parse_url c = Inr ()"
proof (cases "parse_socket (pc_listen c)")
  case None
  then show thesis using assms by (simp add: platform_validate_def)
next
  case (Some listen)
  have "ip_loopback (so_ip listen) \<or> pc_allow_remote c \<and> pc_auth_token c \<noteq> None"
    "case pc_auth_token c of None \<Rightarrow> True | Some t \<Rightarrow> validate_token t = Inr ()"
    "proxy_validate parse_url (proxy_config_new (pc_listen c) (pc_upstream c) (pc_allow_remote c)) = Inr ()"
    "check_cpu_backend parse_url c = Inr ()"
    using assms Some unfolding platform_validate_def and_then_Inr ensure_ok
    by (simp_all add: and_then_Inr ensure_ok split: option.splits sum.splits)
  then show thesis using Some that by blast
qed

lemma validate_token_ok: "validate_token t = Inr () \<Longrightarrow> MIN_TOKEN_BYTES \<le> length t"
  by (auto simp: validate_token_def split: if_splits)


text \<open>Debugging output does not depend on the token.\<close>

lemma token_is_not_shown:
  "debug_fields (c\<lparr>pc_auth_token := Some t\<rparr>) = debug_fields (c\<lparr>pc_auth_token := Some t'\<rparr>)"
  by (simp add: debug_fields_def)

text \<open>
  Only the token opens the platform. A token that could be read from its file is a regular file's
  content that only the owner can access, is at least 32 bytes long without white space, and a request
  is passed on exactly when its header is this token after "Bearer", whatever else it contains; the
  comparison that takes the same time for all tokens of a length is equality.
\<close>

theorem only_the_token_authenticates:
  assumes "read_token_file (Some f) = Inr token"
  shows "(require_bearer token header next = Passed next) = (header = Some (''Bearer '' @ token)) \<and>
    tf_regular f \<and> \<not> tf_symlink f \<and> tf_mode f mod 64 = 0 \<and> 32 \<le> length token \<and>
    list_all (\<lambda>w. \<not> contains_text w token) white_space"
  using token_file_checked [OF assms] by (simp add: require_bearer_iff MIN_TOKEN_BYTES_def)

section \<open>Examples\<close>

definition sample_url :: "string \<Rightarrow> url option" where
  "sample_url s = (if s = ''u'' then Some \<lparr>url_scheme = ''http'', url_host = Some ''127.0.0.1'', url_port = Some 11434\<rparr> else None)"

lemma parse_shown_socket:
  assumes "a \<le> 255" "b \<le> 255" "c \<le> 255" "d \<le> 255" "p \<le> 65535"
  shows "parse_socket (show_nat a @ ''.'' @ show_nat b @ ''.'' @ show_nat c @ ''.'' @ show_nat d @ '':'' @ show_nat p) =
    Some \<lparr>so_ip = V4 a b c d, so_port = p\<rparr>"
proof -
  have dot: "digit_value (CHR ''.'') = None" and colon: "digit_value (CHR '':'') = None"
    by (simp_all add: digit_value_def)
  have port: "read_number 10 digit_value None True 65535 (show_nat p) = Some (p, [])"
    using assms(5) shown_head [of p] by (simp add: read_number_def span_show_nat(2) [OF colon] shown_value)
  have "read_ipv4 (show_nat a @ ''.'' @ show_nat b @ ''.'' @ show_nat c @ ''.'' @ show_nat d @ '':'' @ show_nat p) =
      Some ((a, b, c, d), '':'' @ show_nat p)"
    by (simp add: read_ipv4_def read_next_octet_def read_char_def read_shown_octet(1) [OF _ dot]
        read_shown_octet(1) [OF _ colon] assms)
  then show ?thesis by (simp add: parse_socket_def read_socket_v4_def read_port_def read_char_def port)
qed

lemma shown_samples:
  "show_nat 127 = ''127''" "show_nat 0 = ''0''" "show_nat 1 = ''1''" "show_nat 11435 = ''11435''"
  by (simp_all add: show_nat.simps)

lemma sample_socket: "parse_socket ''127.0.0.1:11435'' = Some \<lparr>so_ip = V4 127 0 0 1, so_port = 11435\<rparr>"
  using parse_shown_socket [of 127 0 0 1 11435] by (simp add: shown_samples del: One_nat_def)

lemma sample_host: "parse_ip ''127.0.0.1'' = Some (V4 127 0 0 1)"
  using parse_dotted [of 127 0 0 1] by (simp add: dotted_def shown_samples del: One_nat_def)

definition sample_token :: string where
  "sample_token = ''0123456789abcdef0123456789abcdef''"

lemma sample_validated:
  "platform_validate sample_url (platform_config_new ''127.0.0.1:11435'' ''u'' None None) = Inr ()"
proof -
  have "is_loopback_host ''127.0.0.1''" "\<not> is_unspecified_host ''127.0.0.1''"
    using sample_host by (simp_all add: is_loopback_host_def is_unspecified_host_def strip_ipv6_brackets_def)
  then show ?thesis
    by (simp add: platform_validate_def sample_socket platform_config_new_def proxy_validate_def proxy_config_new_def
        sample_url_def check_upstream_def check_cpu_backend_def)
qed


definition sample_token_file :: token_file where
  "sample_token_file = \<lparr>tf_symlink = False, tf_regular = True, tf_mode = 384, tf_content = Some sample_token\<rparr>"

lemma sample_token_read: "read_token_file (Some sample_token_file) = Inr sample_token"
proof -
  have "str_trim sample_token = sample_token" "validate_token sample_token = Inr ()"
    by (simp_all add: sample_token_def str_trim_def trim_start_def trim_end_def strip_any.simps white_space_def
        validate_token_def MIN_TOKEN_BYTES_def)
  then show ?thesis by (simp add: read_token_file_def sample_token_file_def)
qed

lemma only_the_token_authenticates_witness:
  "(require_bearer sample_token (Some ''Bearer x'') () = Passed ()) = (''Bearer x'' = ''Bearer '' @ sample_token) \<and>
    32 \<le> length sample_token"
  using only_the_token_authenticates [OF sample_token_read, of "Some ''Bearer x''" "()"] by simp

end
