(* ===== verification/Memory.thy ===== *)
theory Memory
  imports Net Footprint Governor Residency
begin

text \<open>
  Memory for one managed task (\<open>platform/execution/memory.rs\<close>): what a load needs, which part of it a
  discrete GPU holds, making room by unloading idle runners, reserving, and the estimate before
  anything is queued. What the task reads of Ollama and of the host is an argument, as functions of the
  state \<open>'e\<close> of the world, which every unload request, every wait and every fresh sample changes.
\<close>

section \<open>The task and the world\<close>

record memory_task =
  mt_upstream :: string
  mt_placement :: backend
  mt_model :: catalog_model
  mt_selected :: string
  mt_options :: json
  mt_unified :: bool
  mt_evict_idle :: bool
  mt_pinned :: "string set"
  mt_weights :: "(string, f64) btree"

text \<open>
  \<open>io_ps\<close> is the answer of \<open>/api/ps\<close>; \<open>io_vram\<close> the free memory of the GPUs in the last sample and the tool
  that reported it; \<open>io_late\<close> says that the queue deadline passes before a started eviction ends;
  \<open>io_polls\<close> is how often the release can be polled in five seconds.
\<close>

record 'e memory_io =
  io_url :: "string \<Rightarrow> url option"
  io_print :: "footprint_sample list \<Rightarrow> string option"
  io_ps :: "'e \<Rightarrow> json option"
  io_usage :: "'e \<Rightarrow> string \<Rightarrow> usage"
  io_unix :: "'e \<Rightarrow> nat"
  io_snapshot :: "'e \<Rightarrow> snapshot"
  io_vram :: "'e \<Rightarrow> nat option \<times> string"
  io_late :: "'e \<Rightarrow> bool"
  io_polls :: "'e \<Rightarrow> nat"
  io_unload :: "string \<Rightarrow> 'e \<Rightarrow> bool \<times> 'e"
  io_sleep :: "'e \<Rightarrow> 'e"
  io_invalidate :: "'e \<Rightarrow> 'e"

record eviction_receipt =
  er_plan :: eviction_plan
  er_for_model :: string
  er_freed :: freed
  er_unloaded :: "string list"
  er_claimed :: "string list"

text \<open>\<open>ms_sent\<close>: the unload requests in order, each with the activity of the runner that was read before it.\<close>

record 'e memory_state =
  ms_env :: 'e
  ms_history :: footprint_history
  ms_saves :: "(string \<times> nat) list"
  ms_sent :: "(string \<times> nat) list"
  ms_evictions :: nat
  ms_last :: "eviction_receipt option"

section \<open>What a load needs\<close>

definition host_memory_relevant :: "(string \<Rightarrow> url option) \<Rightarrow> bool \<Rightarrow> string \<Rightarrow> backend \<Rightarrow> bool" where
  "host_memory_relevant parse_url unified upstream placement \<longleftrightarrow>
     is_loopback_url parse_url upstream \<and> (placement = Cpu \<or> unified)"

definition resident_entry :: "json option \<Rightarrow> string \<Rightarrow> json option" where
  "resident_entry ps model = Option.bind ps (\<lambda>answer. find_ps_entry answer model)"

definition model_is_resident :: "json option \<Rightarrow> string \<Rightarrow> bool" where
  "model_is_resident ps model \<longleftrightarrow> resident_entry ps model \<noteq> None"

definition apply_discrete_gpu_budget :: "nat \<Rightarrow> nat option \<times> string \<Rightarrow> json \<Rightarrow> json" where
  "apply_discrete_gpu_budget full vram footprint =
     (let fp = jset ''full_estimate_bytes'' (jnat full) footprint
      in case fst vram of
           Some vram_free \<Rightarrow>
             jset ''source'' (JStr ''discrete_gpu_spill_estimate'')
               (jset ''required_available_bytes'' (jnat (full - vram_free))
                 (jset ''gpu_telemetry_source'' (JStr (snd vram))
                   (jset ''gpu_memory_free_bytes'' (jnat vram_free) fp)))
         | None \<Rightarrow>
             jset ''source'' (JStr ''discrete_gpu_unknown_vram_full_host_reservation'')
               (jset ''required_available_bytes'' (jnat full) fp))"

definition model_memory_requirement :: "'e memory_io \<Rightarrow> memory_task \<Rightarrow> 'e memory_state \<Rightarrow> json" where
  "model_memory_requirement io t st =
     (let host_relevant = host_memory_relevant (io_url io) (mt_unified t) (mt_upstream t) (mt_placement t);
          discrete_gpu = is_loopback_url (io_url io) (mt_upstream t) \<and> \<not> host_relevant;
          current = (if (host_relevant \<or> discrete_gpu) \<and> cm_digest (mt_model t) \<noteq> None
                     then resident_entry (io_ps io (ms_env st)) (cm_name (mt_model t)) else None);
          footprint = requirement (mt_upstream t) (mt_model t) (or_zero (get_u64 (mt_options t) ''num_ctx''))
                        current (host_relevant \<or> discrete_gpu) (ms_history st);
          full = or_zero (get_u64 footprint ''required_available_bytes'')
      in if discrete_gpu \<and> 0 < full then apply_discrete_gpu_budget full (io_vram io (ms_env st)) footprint
         else footprint)"

section \<open>Unloading idle runners\<close>

text \<open>A runner that a task was routed to since the plan was made is claimed and stays.\<close>

fun unload_victims ::
  "'e memory_io \<Rightarrow> string list \<Rightarrow> 'e memory_state \<Rightarrow> string list \<times> string list \<times> 'e memory_state" where
  "unload_victims io [] st = ([], [], st)"
| "unload_victims io (name # names) st =
     (let active = us_active (io_usage io (ms_env st) name)
      in if 0 < active
         then (case unload_victims io names st of (evicted, claimed, st') \<Rightarrow> (evicted, name # claimed, st'))
         else (case io_unload io name (ms_env st) of
                 (ok, env) \<Rightarrow>
                   (case unload_victims io names (st\<lparr>ms_env := env, ms_sent := ms_sent st @ [(name, active)]\<rparr>) of
                      (evicted, claimed, st') \<Rightarrow> ((if ok then name # evicted else evicted), claimed, st'))))"

fun await_release :: "'e memory_io \<Rightarrow> string list \<Rightarrow> nat \<Rightarrow> 'e \<Rightarrow> 'e" where
  "await_release io evicted 0 env = env"
| "await_release io evicted (Suc polls) env =
     (if list_ex (model_is_resident (io_ps io env)) evicted
      then await_release io evicted polls (io_sleep io env) else env)"

definition eviction_inputs :: "memory_task \<Rightarrow> string \<Rightarrow> freed \<Rightarrow> nat \<Rightarrow> plan_inputs" where
  "eviction_inputs t keep freed shortfall =
     \<lparr>pi_backend = backend_as_str (mt_placement t), pi_keep = keep, pi_pinned = mt_pinned t,
      pi_weights = mt_weights t, pi_freed = freed, pi_shortfall = shortfall\<rparr>"

definition evict_idle_models ::
  "'e memory_io \<Rightarrow> memory_task \<Rightarrow> string \<Rightarrow> freed \<Rightarrow> nat \<Rightarrow> 'e memory_state \<Rightarrow>
   eviction_receipt option \<times> 'e memory_state" where
  "evict_idle_models io t keep freed shortfall st =
     (case io_ps io (ms_env st) of
        None \<Rightarrow> (None, st)
      | Some ps \<Rightarrow>
          (case observe_resident (io_print io) (mt_upstream t) ps (ms_history st) of
             (save, history) \<Rightarrow>
               let st1 = st\<lparr>ms_history := history,
                            ms_saves := ms_saves st @ (case save of None \<Rightarrow> [] | Some s \<Rightarrow> [s])\<rparr>;
                   plan = eviction_plan_of (io_unix io (ms_env st1)) ps (io_usage io (ms_env st1))
                            (eviction_inputs t keep freed shortfall)
               in (case unload_victims io (map cd_name (ev_victims plan)) st1 of
                     (evicted, claimed, st2) \<Rightarrow>
                       let env = (if evicted = [] then ms_env st2
                                  else await_release io evicted (io_polls io (ms_env st2)) (ms_env st2));
                           receipt = \<lparr>er_plan = plan, er_for_model = keep, er_freed = freed,
                                      er_unloaded = evicted, er_claimed = claimed\<rparr>
                       in if ev_victims plan = [] then (None, st2\<lparr>ms_env := env\<rparr>)
                          else (Some receipt,
                                st2\<lparr>ms_env := (if evicted = [] then env else io_invalidate io env),
                                    ms_evictions := ms_evictions st2 + length evicted,
                                    ms_last := Some receipt\<rparr>))))"

text \<open>
  The eviction runs to its end even when the caller stops waiting for it at the deadline; only the
  caller's receipt is lost then.
\<close>

definition evict_detached ::
  "'e memory_io \<Rightarrow> memory_task \<Rightarrow> string \<Rightarrow> freed \<Rightarrow> nat \<Rightarrow> 'e memory_state \<Rightarrow>
   eviction_receipt option \<times> 'e memory_state" where
  "evict_detached io t keep freed shortfall st =
     (case evict_idle_models io t keep freed shortfall st of
        (receipt, st') \<Rightarrow> (if io_late io (ms_env st) then None else receipt, st'))"

section \<open>Making room\<close>

text \<open>How many bytes of GPU memory to free; none when nothing is to be unloaded for it.\<close>

definition vram_shortfall :: "json \<Rightarrow> nat \<Rightarrow> nat option \<Rightarrow> nat option" where
  "vram_shortfall footprint own total_vram =
     (case (get_u64 footprint ''full_estimate_bytes'', get_u64 footprint ''gpu_memory_free_bytes'') of
        (Some full, Some vram_free) \<Rightarrow>
          (let shortfall = full - sat_add u64_max vram_free own
           in if 0 < shortfall \<and> (case total_vram of None \<Rightarrow> True | Some n \<Rightarrow> full \<le> n) then Some shortfall else None)
      | _ \<Rightarrow> None)"

definition memory_hold :: "snapshot \<Rightarrow> bool" where
  "memory_hold s \<longleftrightarrow>
     list_ex (\<lambda>r. r \<in> {LowAvailableMemory, OsMemoryPressure, ActiveSwapping}) (sn_reasons s)"

definition host_shortfall :: "nat \<Rightarrow> snapshot \<Rightarrow> nat option" where
  "host_shortfall bytes s =
     (let a = assess_demand s (demand_load bytes) (sn_holding s);
          evict = (case as_denial a of
                     Some HostPressure \<Rightarrow> memory_hold s
                   | Some InsufficientCapacity \<Rightarrow> True
                   | Some _ \<Rightarrow> False
                   | None \<Rightarrow> as_advisory a)
      in if 0 < bytes \<and> evict
         then Some ((case as_required a of None \<Rightarrow> u64_max | Some n \<Rightarrow> n) - or_zero (sn_effective s))
         else None)"

definition room_round ::
  "'e memory_io \<Rightarrow> memory_task \<Rightarrow> freed \<Rightarrow> nat option \<Rightarrow>
   json \<times> eviction_receipt list \<times> 'e memory_state \<Rightarrow> json \<times> eviction_receipt list \<times> 'e memory_state" where
  "room_round io t freed shortfall r =
     (case r of (footprint, evictions, st) \<Rightarrow>
        (case shortfall of
           None \<Rightarrow> r
         | Some n \<Rightarrow>
             (case evict_detached io t (mt_selected t) freed n st of
                (None, st') \<Rightarrow> (footprint, evictions, st')
              | (Some receipt, st') \<Rightarrow> (model_memory_requirement io t st', evictions @ [receipt], st'))))"

definition host_freed :: "json \<Rightarrow> freed" where
  "host_freed footprint =
     (if jindex footprint ''source'' = JStr ''discrete_gpu_spill_estimate'' then FreedHostSpill else FreedTotal)"

definition make_room ::
  "'e memory_io \<Rightarrow> memory_task \<Rightarrow> 'e memory_state \<Rightarrow> json \<times> eviction_receipt list \<times> 'e memory_state" where
  "make_room io t st =
     (let footprint = model_memory_requirement io t st
      in if \<not> mt_evict_idle t then (footprint, [], st)
         else let own = or_zero (Option.bind (resident_entry (io_ps io (ms_env st)) (mt_selected t))
                           (\<lambda>entry. get_u64 entry ''size_vram''));
                  total_vram = ho_gpu_total (sn_observation (io_snapshot io (ms_env st)))
              in (case room_round io t FreedVram (vram_shortfall footprint own total_vram) (footprint, [], st) of
                    (footprint', evictions, st') \<Rightarrow>
                      room_round io t (host_freed footprint')
                        (host_shortfall (or_zero (get_u64 footprint' ''required_available_bytes''))
                           (io_snapshot io (ms_env st')))
                        (footprint', evictions, st')))"

section \<open>Reserving\<close>

text \<open>
  \<open>already\<close> is what the task's first permit reserved, when the reservation is checked again under the
  transition lock: only the difference is asked for, and without waiting.
\<close>

definition task_demand :: "json \<Rightarrow> nat option \<Rightarrow> backend \<Rightarrow> demand" where
  "task_demand footprint already placement =
     (let bytes = or_zero (get_u64 footprint ''required_available_bytes'') - or_zero already;
          resident = (jindex footprint ''source'' = JStr ''matching_resident_context'')
      in on_cpu (placement = Cpu) (if resident \<and> bytes = 0 then demand_resident else demand_load bytes))"

definition reserve_rounds :: "nat option \<Rightarrow> wait_input list \<Rightarrow> wait_input list" where
  "reserve_rounds already rounds =
     (if already = None then rounds else map (\<lambda>w. w\<lparr>wi_late := True\<rparr>) rounds)"

definition reserve_task_resources ::
  "'e memory_io \<Rightarrow> memory_task \<Rightarrow> nat option \<Rightarrow> json option \<Rightarrow> wait_input list \<Rightarrow> 'e memory_state \<Rightarrow>
   (resource_receipt + resource_receipt \<times> json) option" where
  "reserve_task_resources io t already sized rounds st =
     (let footprint = (case sized of Some fp \<Rightarrow> fp | None \<Rightarrow> model_memory_requirement io t st)
      in case wait_for_demand (is_loopback_url (io_url io) (mt_upstream t))
                (task_demand footprint already (mt_placement t)) (reserve_rounds already rounds) of
           None \<Rightarrow> None
         | Some (Inl refused) \<Rightarrow> Some (Inl refused)
         | Some (Inr granted) \<Rightarrow> Some (Inr (granted, footprint)))"

section \<open>Before anything is queued\<close>

record kv_preflight =
  kp_status :: string
  kp_refuses :: bool
  kp_kv_bytes :: "nat option"
  kp_model_plus_kv :: "nat option"
  kp_budget :: "nat option"

definition memory_kv_preflight_with_memory ::
  "catalog_model \<Rightarrow> nat option \<Rightarrow> bool \<Rightarrow> nat option \<Rightarrow> kv_preflight" where
  "memory_kv_preflight_with_memory model requested host_relevant host_bytes =
     (let kv = Option.bind (cm_kv_bytes_per_token model) (\<lambda>per. Option.bind requested (\<lambda>n. checked_mul per n));
          plus = Option.bind kv (\<lambda>b. checked_add u64_max (cm_size model) b);
          budget = map_option (\<lambda>n. n div 5 * 4) host_bytes;
          refuses = (host_relevant \<and> (case budget of None \<Rightarrow> False | Some b \<Rightarrow> b < cm_size model));
          exceeds = (host_relevant \<and> (case (plus, budget) of (Some needed, Some b) \<Rightarrow> b < needed | _ \<Rightarrow> False))
      in \<lparr>kp_status = (if refuses then ''refuse_model_file_exceeds_host_budget''
                      else if exceeds then ''f16_estimate_exceeds_host_budget''
                      else if kv \<noteq> None then ''estimated_f16_single_sequence''
                      else ''unknown_model_metadata''),
          kp_refuses = refuses, kp_kv_bytes = kv, kp_model_plus_kv = plus, kp_budget = budget\<rparr>)"

definition memory_kv_preflight ::
  "(string \<Rightarrow> url option) \<Rightarrow> bool \<Rightarrow> catalog_model \<Rightarrow> json \<Rightarrow> backend \<Rightarrow> string \<Rightarrow> nat option \<Rightarrow> kv_preflight" where
  "memory_kv_preflight parse_url unified model options placement upstream host_bytes =
     memory_kv_preflight_with_memory model
       (case get_u64 options ''num_ctx'' of Some n \<Rightarrow> Some n | None \<Rightarrow> cm_advertised_context model)
       (host_memory_relevant parse_url unified upstream placement) host_bytes"

end
