(* ===== verification/Pipeline.thy ===== *)
theory Pipeline
  imports Memory Sessions
begin

text \<open>
  The protocol of a managed task on one backend (\<open>run_session_task\<close> of \<open>platform/execution/pipeline.rs\<close>):
  a slot of the admission pool first, host memory for at most two seconds with the slot held and without it
  afterwards, then the transition lock of the backend, the reservation again under the lock, and the
  request. Any number of tasks run it at once. Which waiter the pool, the resource governor and the lock
  serve next is an argument; a task that is refused, late, cancelled or dropped gives everything back. What is
  dropped at the end of a request one after the other, slot, lock and permits, is dropped in one event here.
\<close>

section \<open>One task\<close>

datatype transition_permit = SharedPermit | ExclusivePermit

fun admission_mode :: "transition_permit \<Rightarrow> string" where
  "admission_mode SharedPermit = ''resident_shared''"
| "admission_mode ExclusivePermit = ''nonresident_transition_exclusive''"

definition SLOT_HELD_RESOURCE_WAIT :: duration where "SLOT_HELD_RESOURCE_WAIT = 2 * 1000000000"

datatype task_end = Answered bool | NoWaiterLeft | Stopped

datatype task_phase =
    Admitting | MakingRoom | QuickReserving | AwaitingMemory | Readmitting
  | AwaitingLock transition_permit | CheckingRunner | Rechecking | Forwarding bool | Ended task_end

text \<open>
  What the task holds: admission units, the registration as a resource waiter, the bytes of its two
  permits and the side of the lock. \<open>tk_resident\<close> is the residency the route was decided on.
\<close>

record task =
  tk_cost :: nat
  tk_resident :: bool
  tk_phase :: task_phase
  tk_slot :: "nat option"
  tk_waiter :: bool
  tk_first :: "nat option"
  tk_second :: "nat option"
  tk_lock :: "transition_permit option"

definition task_new :: "nat \<Rightarrow> bool \<Rightarrow> task" where
  "task_new cost resident =
     \<lparr>tk_cost = cost, tk_resident = resident, tk_phase = Admitting, tk_slot = None, tk_waiter = False,
      tk_first = None, tk_second = None, tk_lock = None\<rparr>"

definition task_end_with :: "task_end \<Rightarrow> task \<Rightarrow> task" where
  "task_end_with e t =
     t\<lparr>tk_phase := Ended e, tk_slot := None, tk_waiter := False, tk_first := None, tk_second := None,
       tk_lock := None\<rparr>"

definition want_transition :: "task \<Rightarrow> task" where
  "want_transition t =
     t\<lparr>tk_phase := AwaitingLock (if tk_resident t then SharedPermit else ExclusivePermit)\<rparr>"

definition task_admitted :: "nat \<Rightarrow> task \<Rightarrow> task" where
  "task_admitted units t =
     (if tk_phase t = Readmitting then want_transition (t\<lparr>tk_slot := Some units, tk_waiter := False\<rparr>)
      else t\<lparr>tk_slot := Some units, tk_phase := MakingRoom\<rparr>)"

definition task_room_made :: "task \<Rightarrow> task" where
  "task_room_made t = t\<lparr>tk_phase := QuickReserving\<rparr>"

definition task_reserved :: "nat \<Rightarrow> task \<Rightarrow> task" where
  "task_reserved bytes t =
     (if tk_phase t = QuickReserving then want_transition (t\<lparr>tk_first := Some bytes\<rparr>)
      else t\<lparr>tk_first := Some bytes, tk_phase := Readmitting\<rparr>)"

text \<open>The short bound passed: register as a resource waiter, then drop the slot.\<close>

definition give_back_slot :: "bool \<Rightarrow> task \<Rightarrow> task" where
  "give_back_slot registered t =
     (if registered then t\<lparr>tk_waiter := True, tk_slot := None, tk_phase := AwaitingMemory\<rparr>
      else task_end_with NoWaiterLeft t)"

definition task_granted :: "transition_permit \<Rightarrow> task \<Rightarrow> task" where
  "task_granted permit t =
     t\<lparr>tk_lock := Some permit,
       tk_phase := (case permit of SharedPermit \<Rightarrow> CheckingRunner | ExclusivePermit \<Rightarrow> Rechecking)\<rparr>"

text \<open>The shared side is dropped before the exclusive one is asked for.\<close>

definition runner_checked :: "bool \<Rightarrow> task \<Rightarrow> task" where
  "runner_checked resident t =
     (if resident then t\<lparr>tk_phase := Rechecking\<rparr>
      else t\<lparr>tk_lock := None, tk_phase := AwaitingLock ExclusivePermit\<rparr>)"

definition task_rechecked :: "nat option \<Rightarrow> task \<Rightarrow> task" where
  "task_rechecked extra t =
     (case extra of
        None \<Rightarrow> task_end_with Stopped t
      | Some bytes \<Rightarrow> t\<lparr>tk_second := Some bytes, tk_phase := Forwarding False\<rparr>)"

text \<open>On unified memory the permits are released once the runner is seen in memory.\<close>

definition runner_observed :: "bool \<Rightarrow> task \<Rightarrow> task" where
  "runner_observed unified t =
     (let t' = t\<lparr>tk_phase := Forwarding True\<rparr>
      in if unified then t'\<lparr>tk_first := Some 0, tk_second := Some 0\<rparr> else t')"

section \<open>The backend\<close>

text \<open>\<open>pb_lock_queue\<close>: the tasks that wait for the lock, in the order they asked.\<close>

record pipeline =
  pb_limit :: nat
  pb_unified :: bool
  pb_tasks :: "task list"
  pb_lock_queue :: "nat list"

definition pipeline_new :: "nat \<Rightarrow> bool \<Rightarrow> pipeline" where
  "pipeline_new limit unified =
     \<lparr>pb_limit = max 1 limit, pb_unified = unified, pb_tasks = [], pb_lock_queue = []\<rparr>"

record service =
  sv_admits :: "pipeline \<Rightarrow> nat \<Rightarrow> bool"
  sv_reserves :: "pipeline \<Rightarrow> nat \<Rightarrow> bool"
  sv_grants :: "pipeline \<Rightarrow> nat \<Rightarrow> bool"

datatype pipeline_event =
    Arrive nat bool
  | Admit nat
  | RoomMade nat
  | Reserve nat nat
  | GiveBack nat bool
  | Grant nat
  | Checked nat bool
  | Recheck nat "nat option"
  | Observed nat
  | Answer nat bool
  | Stop nat

definition units_held :: "task list \<Rightarrow> nat" where
  "units_held ts = sum_list (map (or_zero \<circ> tk_slot) ts)"

definition compatible :: "transition_permit \<Rightarrow> task list \<Rightarrow> bool" where
  "compatible permit ts =
     list_all (\<lambda>t. case tk_lock t of
        None \<Rightarrow> True | Some held \<Rightarrow> permit = SharedPermit \<and> held = SharedPermit) ts"

definition task_at :: "nat \<Rightarrow> pipeline \<Rightarrow> task option" where
  "task_at i s = (if i < length (pb_tasks s) then Some (pb_tasks s ! i) else None)"

fun awaiting_lock :: "task_phase \<Rightarrow> bool" where
  "awaiting_lock (AwaitingLock p) = True"
| "awaiting_lock _ = False"

text \<open>Task \<open>i\<close> moves on; it is queued at the lock when it now waits for it, and leaves the queue otherwise.\<close>

definition put_task :: "nat \<Rightarrow> task \<Rightarrow> pipeline \<Rightarrow> pipeline" where
  "put_task i t s =
     s\<lparr>pb_tasks := (pb_tasks s)[i := t],
       pb_lock_queue := filter (\<lambda>j. j \<noteq> i) (pb_lock_queue s) @ (if awaiting_lock (tk_phase t) then [i] else [])\<rparr>"

text \<open>The units a task is charged, as the pool clamps its cost.\<close>

definition charged_units :: "pipeline \<Rightarrow> task \<Rightarrow> nat" where
  "charged_units s t = max 1 (min (tk_cost t) (pb_limit s))"

fun move :: "service \<Rightarrow> pipeline \<Rightarrow> pipeline_event \<Rightarrow> nat \<Rightarrow> task \<Rightarrow> task option" where
  "move v s (Admit _) i t =
     (if (tk_phase t = Admitting \<or> tk_phase t = Readmitting) \<and> sv_admits v s i \<and>
         units_held (pb_tasks s) + charged_units s t \<le> pb_limit s
      then Some (task_admitted (charged_units s t) t) else None)"
| "move v s (RoomMade _) i t = (if tk_phase t = MakingRoom then Some (task_room_made t) else None)"
| "move v s (Reserve _ bytes) i t =
     (if (tk_phase t = QuickReserving \<or> tk_phase t = AwaitingMemory) \<and> sv_reserves v s i
      then Some (task_reserved bytes t) else None)"
| "move v s (GiveBack _ registered) i t =
     (if tk_phase t = QuickReserving then Some (give_back_slot registered t) else None)"
| "move v s (Grant _) i t =
     (case tk_phase t of
        AwaitingLock permit \<Rightarrow>
          if sv_grants v s i \<and> compatible permit (pb_tasks s) then Some (task_granted permit t) else None
      | _ \<Rightarrow> None)"
| "move v s (Checked _ resident) i t =
     (if tk_phase t = CheckingRunner then Some (runner_checked resident t) else None)"
| "move v s (Recheck _ extra) i t = (if tk_phase t = Rechecking then Some (task_rechecked extra t) else None)"
| "move v s (Observed _) i t =
     (if tk_phase t = Forwarding False then Some (runner_observed (pb_unified s) t) else None)"
| "move v s (Answer _ ok) i t =
     (case tk_phase t of Forwarding _ \<Rightarrow> Some (task_end_with (Answered ok) t) | _ \<Rightarrow> None)"
| "move v s (Stop _) i t =
     (case tk_phase t of Ended _ \<Rightarrow> None | _ \<Rightarrow> Some (task_end_with Stopped t))"
| "move v s (Arrive _ _) i t = None"

fun event_task :: "pipeline_event \<Rightarrow> nat" where
  "event_task (Arrive cost resident) = 0"
| "event_task (Admit i) = i"
| "event_task (RoomMade i) = i"
| "event_task (Reserve i bytes) = i"
| "event_task (GiveBack i registered) = i"
| "event_task (Grant i) = i"
| "event_task (Checked i resident) = i"
| "event_task (Recheck i extra) = i"
| "event_task (Observed i) = i"
| "event_task (Answer i ok) = i"
| "event_task (Stop i) = i"

definition pipeline_step :: "service \<Rightarrow> pipeline \<Rightarrow> pipeline_event \<Rightarrow> pipeline option" where
  "pipeline_step v s e =
     (case e of
        Arrive cost resident \<Rightarrow> Some (s\<lparr>pb_tasks := pb_tasks s @ [task_new cost resident]\<rparr>)
      | _ \<Rightarrow> (let i = event_task e
              in case task_at i s of
                   None \<Rightarrow> None
                 | Some t \<Rightarrow> (case move v s e i t of None \<Rightarrow> None | Some t' \<Rightarrow> Some (put_task i t' s))))"

fun pipeline_run :: "service \<Rightarrow> pipeline \<Rightarrow> pipeline_event list \<Rightarrow> pipeline option" where
  "pipeline_run v s [] = Some s"
| "pipeline_run v s (e # es) =
     (case pipeline_step v s e of None \<Rightarrow> None | Some s' \<Rightarrow> pipeline_run v s' es)"

section \<open>Around the protocol\<close>

text \<open>How long a task may queue, and the longest it may take.\<close>

definition queue_wait_of :: "nat option \<Rightarrow> duration \<Rightarrow> duration" where
  "queue_wait_of max_wait_seconds max_queue_wait =
     (case max_wait_seconds of
        None \<Rightarrow> max_queue_wait
      | Some seconds \<Rightarrow> min (max seconds 1 * 1000000000) max_queue_wait)"

definition task_deadline :: "duration \<Rightarrow> nat option \<Rightarrow> duration option" where
  "task_deadline ceiling seconds =
     (if seconds = Some 0 then None
      else Some (min (case seconds of None \<Rightarrow> ceiling | Some n \<Rightarrow> n * 1000000000) ceiling))"

definition quick_deadline :: "instant \<Rightarrow> instant \<Rightarrow> instant" where
  "quick_deadline now queue_deadline = min (now + SLOT_HELD_RESOURCE_WAIT) queue_deadline"

text \<open>A successful task without a scope binds its session to the model that ran.\<close>

definition bind_after :: "bool \<Rightarrow> string option \<Rightarrow> string option \<Rightarrow> instant \<Rightarrow> string \<Rightarrow> affinity \<Rightarrow> affinity" where
  "bind_after ok scope_id session_id now model a =
     (case session_id of
        Some sid \<Rightarrow> if ok \<and> scope_id = None then aff_bind now sid model a else a
      | None \<Rightarrow> a)"

text \<open>What tools and images require of the model, and the trial that images need without a named model.\<close>

definition derived_capabilities :: "bool \<Rightarrow> bool \<Rightarrow> capability set \<Rightarrow> capability set" where
  "derived_capabilities tools images required =
     required \<union> (if tools then {CTools} else {}) \<union> (if images then {CVision} else {})"

definition images_refused :: "bool \<Rightarrow> string option \<Rightarrow> catalog_model \<Rightarrow> bool" where
  "images_refused images named model \<longleftrightarrow> images \<and> named = None \<and> cm_policy_rank model TVision = None"

end
