(* ===== verification/Pipeline_Run.thy ===== *)
theory Pipeline_Run
  imports Pipeline
begin

text \<open>
  The protocol under every interleaving: what a task holds in each phase, the bound on units and the
  exclusion at the lock, and that no order of events can leave a task waiting for ever.
\<close>

section \<open>What a task holds\<close>

fun phase_slot :: "task_phase \<Rightarrow> bool" where
  "phase_slot MakingRoom = True"
| "phase_slot QuickReserving = True"
| "phase_slot (AwaitingLock p) = True"
| "phase_slot CheckingRunner = True"
| "phase_slot Rechecking = True"
| "phase_slot (Forwarding seen) = True"
| "phase_slot _ = False"

fun phase_memory :: "task_phase \<Rightarrow> bool" where
  "phase_memory Readmitting = True"
| "phase_memory (AwaitingLock p) = True"
| "phase_memory CheckingRunner = True"
| "phase_memory Rechecking = True"
| "phase_memory (Forwarding seen) = True"
| "phase_memory _ = False"

fun phase_lock :: "task_phase \<Rightarrow> bool" where
  "phase_lock CheckingRunner = True"
| "phase_lock Rechecking = True"
| "phase_lock (Forwarding seen) = True"
| "phase_lock _ = False"

definition task_ok :: "task \<Rightarrow> bool" where
  "task_ok t \<longleftrightarrow>
     (tk_slot t \<noteq> None) = phase_slot (tk_phase t) \<and>
     (tk_first t \<noteq> None) = phase_memory (tk_phase t) \<and>
     (tk_second t \<noteq> None) = (tk_phase t \<in> {Forwarding False, Forwarding True}) \<and>
     (tk_lock t \<noteq> None) = phase_lock (tk_phase t) \<and>
     tk_waiter t = (tk_phase t \<in> {AwaitingMemory, Readmitting})"

lemmas task_moves = task_end_with_def want_transition_def task_admitted_def task_room_made_def task_reserved_def
  give_back_slot_def task_granted_def runner_checked_def task_rechecked_def runner_observed_def

lemma task_new_ok [simp]: "task_ok (task_new cost resident)"
  by (simp add: task_ok_def task_new_def)

lemma move_ok: "move v s e i t = Some t' \<Longrightarrow> task_ok t \<Longrightarrow> task_ok t'"
  by (cases e; cases "tk_phase t")
    (auto simp: task_ok_def task_moves Let_def split: if_splits option.splits transition_permit.splits)

section \<open>The backend\<close>

definition lock_exclusive :: "task list \<Rightarrow> bool" where
  "lock_exclusive ts \<longleftrightarrow> (\<forall>i < length ts. \<forall>j < length ts.
     i \<noteq> j \<and> tk_lock (ts ! i) = Some ExclusivePermit \<longrightarrow> tk_lock (ts ! j) = None)"

definition backend_ok :: "pipeline \<Rightarrow> bool" where
  "backend_ok s \<longleftrightarrow> 0 < pb_limit s \<and> list_all task_ok (pb_tasks s) \<and> units_held (pb_tasks s) \<le> pb_limit s \<and>
     lock_exclusive (pb_tasks s)"

lemma units_update:
  "i < length ts \<Longrightarrow> units_held (ts[i := t]) + or_zero (tk_slot (ts ! i)) = units_held ts + or_zero (tk_slot t)"
  by (induction ts arbitrary: i) (auto simp: units_held_def split: nat.splits)

lemma units_append: "units_held (ts @ [t]) = units_held ts + or_zero (tk_slot t)"
  by (simp add: units_held_def)

text \<open>A move takes new units only within the limit, and a side of the lock only when it is compatible.\<close>

lemma move_units:
  "move v s e i t = Some t' \<Longrightarrow> or_zero (tk_slot t') \<le> or_zero (tk_slot t) \<or>
     units_held (pb_tasks s) + or_zero (tk_slot t') \<le> pb_limit s"
  by (cases e; cases "tk_phase t")
    (auto simp: task_moves or_zero_def Let_def split: if_splits option.splits transition_permit.splits)

lemma move_lock:
  "move v s e i t = Some t' \<Longrightarrow>
     tk_lock t' = None \<or> tk_lock t' = tk_lock t \<or> (\<exists>p. tk_lock t' = Some p \<and> compatible p (pb_tasks s))"
  by (cases e; cases "tk_phase t")
    (auto simp: task_moves Let_def split: if_splits option.splits transition_permit.splits)

lemma compatible_at:
  "compatible p ts \<Longrightarrow> j < length ts \<Longrightarrow>
     tk_lock (ts ! j) = None \<or> p = SharedPermit \<and> tk_lock (ts ! j) = Some SharedPermit"
  by (auto simp: compatible_def list_all_length split: option.splits)

lemma lock_exclusive_update:
  assumes "lock_exclusive ts" "i < length ts"
    and "tk_lock t = None \<or> tk_lock t = tk_lock (ts ! i) \<or> (\<exists>p. tk_lock t = Some p \<and> compatible p ts)"
  shows "lock_exclusive (ts[i := t])"
proof -
  have ex: "tk_lock (ts ! k) = None" if "j < length ts" "k < length ts" "j \<noteq> k" "tk_lock (ts ! j) = Some ExclusivePermit" for j k
    using assms(1) that unfolding lock_exclusive_def by blast
  have at: "tk_lock (ts[i := t] ! m) = (if m = i then tk_lock t else tk_lock (ts ! m))" if "m < length ts" for m
    using that assms(2) by simp
  have "tk_lock (ts[i := t] ! k) = None"
    if jk: "j < length ts" "k < length ts" "j \<noteq> k" "tk_lock (ts[i := t] ! j) = Some ExclusivePermit" for j k
  proof (cases "\<exists>p. tk_lock t = Some p \<and> compatible p ts")
    case True
    then obtain p where p: "tk_lock t = Some p" "compatible p ts" by blast
    show ?thesis using jk at compatible_at [OF p(2) jk(1)] compatible_at [OF p(2) jk(2)] p(1)
      by (cases "j = i"; cases "k = i") simp_all
  next
    case False
    then have same: "tk_lock t = None \<or> tk_lock t = tk_lock (ts ! i)" using assms(3) by blast
    show ?thesis
    proof (cases "k = i")
      case True
      then show ?thesis using same jk at [OF jk(1)] at [OF jk(2)] ex [of j i] by simp
    next
      case False
      then show ?thesis using same jk at [OF jk(1)] at [OF jk(2)] ex [of j k] assms(2) by (cases "j = i") simp_all
    qed
  qed
  then show ?thesis unfolding lock_exclusive_def by simp
qed

lemma lock_exclusive_append:
  assumes "lock_exclusive ts" "tk_lock t = None"
  shows "lock_exclusive (ts @ [t])"
proof -
  have at: "tk_lock ((ts @ [t]) ! m) = (if m < length ts then tk_lock (ts ! m) else None)" if "m < Suc (length ts)" for m
    using that assms(2) by (cases "m = length ts") (simp_all add: nth_append)
  have "tk_lock ((ts @ [t]) ! k) = None"
    if "j < Suc (length ts)" "k < Suc (length ts)" "j \<noteq> k" "tk_lock ((ts @ [t]) ! j) = Some ExclusivePermit" for j k
    using that at [OF that(1)] at [OF that(2)] assms(1) unfolding lock_exclusive_def
    by (metis option.distinct(1))
  then show ?thesis by (simp add: lock_exclusive_def)
qed

lemma step_task:
  assumes "pipeline_step v s e = Some s'"
  obtains cost resident where "e = Arrive cost resident" "s' = s\<lparr>pb_tasks := pb_tasks s @ [task_new cost resident]\<rparr>"
  | i t' where "i = event_task e" "i < length (pb_tasks s)" "move v s e i (pb_tasks s ! i) = Some t'" "s' = put_task i t' s"
  using assms by (cases e) (auto simp: pipeline_step_def task_at_def split: if_splits option.splits)

lemma step_ok:
  assumes "pipeline_step v s e = Some s'" "backend_ok s"
  shows "backend_ok s'"
  using assms(1)
proof (cases rule: step_task)
  case (1 cost resident)
  have "lock_exclusive (pb_tasks s @ [task_new cost resident])"
    using assms(2) lock_exclusive_append by (simp add: backend_ok_def task_new_def)
  then show ?thesis using assms(2) 1
    by (simp add: backend_ok_def units_append) (simp add: task_new_def or_zero_def)
next
  case (2 i t')
  have "list_all task_ok ((pb_tasks s)[i := t'])"
    using assms(2) move_ok [OF 2(3)] 2(2) by (auto simp: backend_ok_def list_all_length nth_list_update)
  moreover have "units_held ((pb_tasks s)[i := t']) \<le> pb_limit s"
    using units_update [OF 2(2), of t'] move_units [OF 2(3)] assms(2) by (auto simp: backend_ok_def)
  moreover have "lock_exclusive ((pb_tasks s)[i := t'])"
    using lock_exclusive_update [OF _ 2(2) move_lock [OF 2(3)]] assms(2) by (simp add: backend_ok_def)
  ultimately show ?thesis using assms(2) 2(4) by (simp add: backend_ok_def put_task_def)
qed

lemma run_ok: "pipeline_run v s es = Some s' \<Longrightarrow> backend_ok s \<Longrightarrow> backend_ok s'"
  by (induction es arbitrary: s) (auto split: option.splits dest: step_ok)

lemma new_ok [simp]: "backend_ok (pipeline_new limit unified)"
  by (simp add: backend_ok_def pipeline_new_def units_held_def lock_exclusive_def)

section \<open>Progress\<close>

text \<open>How many moves a task has left at most.\<close>

fun moves_left :: "task_phase \<Rightarrow> nat" where
  "moves_left Admitting = 11"
| "moves_left MakingRoom = 10"
| "moves_left QuickReserving = 9"
| "moves_left AwaitingMemory = 8"
| "moves_left Readmitting = 7"
| "moves_left (AwaitingLock SharedPermit) = 6"
| "moves_left CheckingRunner = 5"
| "moves_left (AwaitingLock ExclusivePermit) = 4"
| "moves_left Rechecking = 3"
| "moves_left (Forwarding False) = 2"
| "moves_left (Forwarding True) = 1"
| "moves_left (Ended e) = 0"

lemma move_decreases: "move v s e i t = Some t' \<Longrightarrow> moves_left (tk_phase t') < moves_left (tk_phase t)"
  by (cases e; cases "tk_phase t" rule: moves_left.cases)
    (auto simp: task_moves Let_def split: if_splits option.splits transition_permit.splits)

definition total_left :: "pipeline \<Rightarrow> nat" where
  "total_left s = sum_list (map (moves_left \<circ> tk_phase) (pb_tasks s))"

fun arrivals :: "pipeline_event list \<Rightarrow> nat" where
  "arrivals [] = 0"
| "arrivals (Arrive cost resident # es) = Suc (arrivals es)"
| "arrivals (e # es) = arrivals es"

lemma left_update:
  "i < length ts \<Longrightarrow> moves_left (tk_phase t) < moves_left (tk_phase (ts ! i)) \<Longrightarrow>
    sum_list (map (moves_left \<circ> tk_phase) (ts[i := t])) < sum_list (map (moves_left \<circ> tk_phase) ts)"
  by (induction ts arbitrary: i) (auto split: nat.splits)

lemma step_left:
  assumes "pipeline_step v s e = Some s'"
  shows "if \<exists>cost resident. e = Arrive cost resident then total_left s' = total_left s + 11 else total_left s' < total_left s"
  using assms
proof (cases rule: step_task)
  case (1 cost resident)
  then show ?thesis by (auto simp: total_left_def task_new_def)
next
  case (2 i t')
  have "e \<noteq> Arrive cost resident" for cost resident using 2(3) by auto
  then show ?thesis using left_update [OF 2(2) move_decreases [OF 2(3)]] 2(4) by (simp add: total_left_def put_task_def)
qed

lemma run_left: "pipeline_run v s es = Some s' \<Longrightarrow> length es + total_left s' \<le> total_left s + 12 * arrivals es"
proof (induction es arbitrary: s)
  case (Cons e es)
  obtain s1 where s1: "pipeline_step v s e = Some s1" "pipeline_run v s1 es = Some s'"
    using Cons.prems by (auto split: option.splits)
  show ?case
  proof (cases "\<exists>cost resident. e = Arrive cost resident")
    case True
    then show ?thesis using step_left [OF s1(1)] Cons.IH [OF s1(2)] by auto
  next
    case False
    then have "arrivals (e # es) = arrivals es" by (cases e) auto
    then show ?thesis using step_left [OF s1(1)] Cons.IH [OF s1(2)] False by simp
  qed
qed simp

text \<open>
  What the pool, the governor and the lock promise: when nobody holds the resource, they serve someone who
  waits for it.
\<close>

definition serves :: "service \<Rightarrow> pipeline \<Rightarrow> bool" where
  "serves v s \<longleftrightarrow>
     ((\<exists>i < length (pb_tasks s). tk_phase (pb_tasks s ! i) \<in> {Admitting, Readmitting}) \<and>
        (\<forall>t \<in> set (pb_tasks s). tk_slot t = None) \<longrightarrow>
      (\<exists>i < length (pb_tasks s). tk_phase (pb_tasks s ! i) \<in> {Admitting, Readmitting} \<and> sv_admits v s i)) \<and>
     ((\<exists>i < length (pb_tasks s). tk_phase (pb_tasks s ! i) = AwaitingMemory) \<and>
        (\<forall>t \<in> set (pb_tasks s). tk_first t = None) \<longrightarrow>
      (\<exists>i < length (pb_tasks s). tk_phase (pb_tasks s ! i) = AwaitingMemory \<and> sv_reserves v s i)) \<and>
     ((\<exists>i < length (pb_tasks s). awaiting_lock (tk_phase (pb_tasks s ! i))) \<and>
        (\<forall>t \<in> set (pb_tasks s). tk_lock t = None) \<longrightarrow>
      (\<exists>i < length (pb_tasks s). awaiting_lock (tk_phase (pb_tasks s ! i)) \<and> sv_grants v s i))"

fun progress_event :: "pipeline_event \<Rightarrow> bool" where
  "progress_event (Arrive cost resident) = False"
| "progress_event (Stop i) = False"
| "progress_event e = True"

definition can_progress :: "service \<Rightarrow> pipeline \<Rightarrow> bool" where
  "can_progress v s \<longleftrightarrow> (\<exists>e s'. progress_event e \<and> pipeline_step v s e = Some s')"

definition task_done :: "task \<Rightarrow> bool" where
  "task_done t \<longleftrightarrow> (\<exists>e. tk_phase t = Ended e)"

lemma progressI:
  assumes "i < length (pb_tasks s)" "move v s e i (pb_tasks s ! i) = Some t'" "event_task e = i" "progress_event e"
  shows "can_progress v s"
proof -
  have "pipeline_step v s e = Some (put_task i t' s)"
    using assms by (cases e) (auto simp: pipeline_step_def task_at_def)
  then show ?thesis using assms(4) unfolding can_progress_def by blast
qed

text \<open>A task that waits for nobody can move.\<close>

fun self_moving :: "task_phase \<Rightarrow> bool" where
  "self_moving MakingRoom = True"
| "self_moving QuickReserving = True"
| "self_moving CheckingRunner = True"
| "self_moving Rechecking = True"
| "self_moving (Forwarding seen) = True"
| "self_moving _ = False"

lemma self_moving_progress:
  assumes "i < length (pb_tasks s)" "self_moving (tk_phase (pb_tasks s ! i))"
  shows "can_progress v s"
proof (cases "tk_phase (pb_tasks s ! i)")
  case MakingRoom
  then show ?thesis by (intro progressI [OF assms(1), of v "RoomMade i"]) simp_all
next
  case QuickReserving
  then show ?thesis by (intro progressI [OF assms(1), of v "GiveBack i True"]) simp_all
next
  case CheckingRunner
  then show ?thesis by (intro progressI [OF assms(1), of v "Checked i True"]) simp_all
next
  case Rechecking
  then show ?thesis by (intro progressI [OF assms(1), of v "Recheck i None"]) simp_all
next
  case (Forwarding seen)
  then show ?thesis by (intro progressI [OF assms(1), of v "Answer i True"]) simp_all
qed (use assms(2) in simp_all)

lemma holder_moves_or_waits:
  assumes "task_ok t" "\<not> self_moving (tk_phase t)"
  shows "tk_lock t = None" "tk_slot t \<noteq> None \<Longrightarrow> awaiting_lock (tk_phase t)"
    "tk_first t \<noteq> None \<Longrightarrow> awaiting_lock (tk_phase t) \<or> tk_phase t = Readmitting"
  using assms by (cases "tk_phase t"; simp add: task_ok_def)+

lemma no_units: "\<forall>t \<in> set ts. tk_slot t = None \<Longrightarrow> units_held ts = 0"
  by (simp add: units_held_def or_zero_def)

lemma waiting_cases:
  "\<not> task_done t \<Longrightarrow> \<not> self_moving (tk_phase t) \<Longrightarrow>
    awaiting_lock (tk_phase t) \<or> tk_phase t \<in> {Admitting, Readmitting} \<or> tk_phase t = AwaitingMemory"
  by (cases "tk_phase t") (auto simp: task_done_def)

lemma stuck_is_done:
  assumes "serves v s" "backend_ok s" "\<not> can_progress v s"
  shows "list_all task_done (pb_tasks s)"
proof (rule ccontr)
  assume "\<not> list_all task_done (pb_tasks s)"
  then obtain i where i: "i < length (pb_tasks s)" "\<not> task_done (pb_tasks s ! i)" by (auto simp: list_all_length)
  have still: "\<not> self_moving (tk_phase t)" "task_ok t" if "t \<in> set (pb_tasks s)" for t
    using that assms(2,3) self_moving_progress [of _ s v] by (auto simp: in_set_conv_nth backend_ok_def list_all_iff)
  have unlocked: "\<forall>t \<in> set (pb_tasks s). tk_lock t = None" using still holder_moves_or_waits(1) by blast
  have no_lock_wait: "\<not> awaiting_lock (tk_phase t)" if "t \<in> set (pb_tasks s)" for t
  proof
    assume "awaiting_lock (tk_phase t)"
    then have "\<exists>k < length (pb_tasks s). awaiting_lock (tk_phase (pb_tasks s ! k))"
      using that by (metis in_set_conv_nth)
    then obtain k where k: "k < length (pb_tasks s)" "awaiting_lock (tk_phase (pb_tasks s ! k))" "sv_grants v s k"
      using assms(1) unlocked unfolding serves_def by blast
    then obtain p where p: "tk_phase (pb_tasks s ! k) = AwaitingLock p" by (cases "tk_phase (pb_tasks s ! k)") auto
    have "compatible p (pb_tasks s)" using unlocked by (simp add: compatible_def list_all_iff)
    then show False using progressI [OF k(1), of v "Grant k"] p k(3) assms(3) by simp
  qed
  have slots: "\<forall>t \<in> set (pb_tasks s). tk_slot t = None" using still holder_moves_or_waits(2) no_lock_wait by blast
  have no_slot_wait: "tk_phase t \<notin> {Admitting, Readmitting}" if "t \<in> set (pb_tasks s)" for t
  proof
    assume "tk_phase t \<in> {Admitting, Readmitting}"
    then have "\<exists>k < length (pb_tasks s). tk_phase (pb_tasks s ! k) \<in> {Admitting, Readmitting}"
      using that by (metis in_set_conv_nth)
    then obtain k where k: "k < length (pb_tasks s)" "tk_phase (pb_tasks s ! k) \<in> {Admitting, Readmitting}" "sv_admits v s k"
      using assms(1) slots unfolding serves_def by blast
    have "charged_units s (pb_tasks s ! k) \<le> pb_limit s" using assms(2) by (auto simp: charged_units_def backend_ok_def)
    then show False using progressI [OF k(1), of v "Admit k"] k(2,3) assms(3) no_units [OF slots] by auto
  qed
  have "\<forall>t \<in> set (pb_tasks s). tk_first t = None"
    using still holder_moves_or_waits(3) no_lock_wait no_slot_wait by blast
  moreover have "tk_phase (pb_tasks s ! i) = AwaitingMemory"
    using waiting_cases [OF i(2)] still(1) no_lock_wait no_slot_wait nth_mem [OF i(1)] by blast
  ultimately obtain k where k: "k < length (pb_tasks s)" "tk_phase (pb_tasks s ! k) = AwaitingMemory" "sv_reserves v s k"
    using assms(1) i(1) unfolding serves_def by blast
  then show False using progressI [OF k(1), of v "Reserve k 0"] assms(3) by simp
qed

section \<open>Properties\<close>



section \<open>Example\<close>

text \<open>First come, first served at the lock; any order elsewhere.\<close>

definition fair_service :: service where
  "fair_service = \<lparr>sv_admits = (\<lambda>_ _. True), sv_reserves = (\<lambda>_ _. True),
     sv_grants = (\<lambda>s i. pb_lock_queue s \<noteq> [] \<and> hd (pb_lock_queue s) = i)\<rparr>"

text \<open>
  The first task gives its slot back for memory; the second, routed to a runner that has gone, changes
  sides at the lock.
\<close>

definition sample_start :: "pipeline_event list" where
  "sample_start = [Arrive 2 False, Arrive 2 True, Admit 0, RoomMade 0, GiveBack 0 True, Admit 1, RoomMade 1,
     Reserve 1 5, Reserve 0 7, Grant 1, Checked 1 False, Grant 1, Recheck 1 (Some 0)]"

definition sample_events :: "pipeline_event list" where
  "sample_events = sample_start @ [Answer 1 True, Admit 0, Grant 0, Recheck 0 (Some 0), Observed 0, Answer 0 True]"

lemmas sample_run_simps = sample_events_def sample_start_def pipeline_step_def task_at_def put_task_def pipeline_new_def
  fair_service_def task_new_def units_held_def charged_units_def compatible_def or_zero_def task_moves Let_def

lemma sample_pipeline:
  "map_option (map tk_phase \<circ> pb_tasks) (pipeline_run fair_service (pipeline_new 2 True) sample_events) =
     Some [Ended (Answered True), Ended (Answered True)]"
  by (simp add: sample_run_simps)

lemma sample_pipeline_half:
  "map_option (map tk_phase \<circ> pb_tasks) (pipeline_run fair_service (pipeline_new 2 True) sample_start) =
     Some [Readmitting, Forwarding False]"
  by (simp add: sample_run_simps)


text \<open>The queue at the lock holds exactly the tasks that wait for it, so serving its head serves someone.\<close>

definition queue_exact :: "pipeline \<Rightarrow> bool" where
  "queue_exact s \<longleftrightarrow> set (pb_lock_queue s) = {i. i < length (pb_tasks s) \<and> awaiting_lock (tk_phase (pb_tasks s ! i))}"

lemma step_queue:
  assumes "pipeline_step v s e = Some s'" "queue_exact s"
  shows "queue_exact s'"
  using assms(1)
proof (cases rule: step_task)
  case (1 cost resident)
  have "(j \<in> set (pb_lock_queue s')) = (j < length (pb_tasks s') \<and> awaiting_lock (tk_phase (pb_tasks s' ! j)))" for j
    using assms(2) by (cases "j = length (pb_tasks s)") (simp_all add: 1 queue_exact_def task_new_def nth_append less_Suc_eq)
  then show ?thesis unfolding queue_exact_def by blast
next
  case (2 i t')
  have "(j \<in> set (pb_lock_queue s')) = (j < length (pb_tasks s') \<and> awaiting_lock (tk_phase (pb_tasks s' ! j)))" for j
    using assms(2) 2(2) by (cases "j = i") (simp_all add: 2(4) queue_exact_def put_task_def)
  then show ?thesis unfolding queue_exact_def by blast
qed

lemma run_queue: "pipeline_run v s es = Some s' \<Longrightarrow> queue_exact s \<Longrightarrow> queue_exact s'"
  by (induction es arbitrary: s) (auto split: option.splits dest: step_queue)

lemma fair_service_serves:
  assumes "queue_exact s"
  shows "serves fair_service s"
proof -
  have "\<exists>j < length (pb_tasks s). awaiting_lock (tk_phase (pb_tasks s ! j)) \<and> sv_grants fair_service s j"
    if "i < length (pb_tasks s)" "awaiting_lock (tk_phase (pb_tasks s ! i))" for i
  proof -
    have "i \<in> set (pb_lock_queue s)" using assms that by (simp add: queue_exact_def)
    then have ne: "pb_lock_queue s \<noteq> []" by (metis empty_iff empty_set)
    then have "hd (pb_lock_queue s) < length (pb_tasks s) \<and> awaiting_lock (tk_phase (pb_tasks s ! hd (pb_lock_queue s)))"
      using assms hd_in_set [OF ne] unfolding queue_exact_def by blast
    moreover have "sv_grants fair_service s (hd (pb_lock_queue s))" using ne by (simp add: fair_service_def)
    ultimately show ?thesis by blast
  qed
  moreover have "sv_admits fair_service s i" "sv_reserves fair_service s i" for i by (simp_all add: fair_service_def)
  ultimately show ?thesis unfolding serves_def by blast
qed

lemma done_cannot_progress:
  assumes "list_all task_done (pb_tasks s)"
  shows "\<not> can_progress v s"
proof
  assume "can_progress v s"
  then obtain e s' where e: "progress_event e" "pipeline_step v s e = Some s'" unfolding can_progress_def by blast
  from e(2) show False
  proof (cases rule: step_task)
    case (2 i t')
    obtain r where "tk_phase (pb_tasks s ! i) = Ended r" using assms 2(2) by (auto simp: list_all_length task_done_def)
    then show False using 2(3) move_decreases [OF 2(3)] by simp
  qed (use e(1) in simp)
qed


end
