(* ===== verification/Memory_Run.thy ===== *)
theory Memory_Run
  imports Memory Governor_Run Residency_Run
begin

text \<open>
  Making room: which runners an eviction may touch, that freeing the shortfall lets the waiting load in,
  and that the reservation of a task covers its load at the moment it is sent.
\<close>

section \<open>Unload requests\<close>

abbreviation idle_unpinned :: "memory_task \<Rightarrow> string \<times> nat \<Rightarrow> bool" where
  "idle_unpinned t \<equiv> \<lambda>(name, active). active = 0 \<and> name \<noteq> mt_selected t \<and> name \<notin> mt_pinned t"

text \<open>\<open>st'\<close> has sent requests beyond those of \<open>st\<close>, all of them allowed.\<close>

definition sends_only :: "(string \<times> nat \<Rightarrow> bool) \<Rightarrow> 'e memory_state \<Rightarrow> 'e memory_state \<Rightarrow> bool" where
  "sends_only P st st' \<longleftrightarrow> (\<exists>new. ms_sent st' = ms_sent st @ new \<and> list_all P new)"

lemma sends_only_refl [simp]: "sends_only P st st"
  by (simp add: sends_only_def)

lemma sends_only_trans: "sends_only P st st' \<Longrightarrow> sends_only P st' st'' \<Longrightarrow> sends_only P st st''"
  by (fastforce simp: sends_only_def)

lemma unload_victims_sends:
  "sends_only (\<lambda>(name, active). active = 0 \<and> name \<in> set names) st (snd (snd (unload_victims io names st)))"
proof (induction names arbitrary: st)
  case (Cons name names)
  show ?case
  proof (cases "0 < us_active (io_usage io (ms_env st) name)")
    case True
    then have eq: "snd (snd (unload_victims io (name # names) st)) = snd (snd (unload_victims io names st))"
      by (simp add: split_beta)
    obtain new where "ms_sent (snd (snd (unload_victims io names st))) = ms_sent st @ new"
      "list_all (\<lambda>(nm, active). active = 0 \<and> nm \<in> set names) new"
      using Cons.IH [of st] by (auto simp: sends_only_def)
    moreover from this(2) have "list_all (\<lambda>(nm, active). active = 0 \<and> nm \<in> set (name # names)) new"
      by (auto simp: list_all_iff)
    ultimately show ?thesis unfolding eq sends_only_def by blast
  next
    case False
    obtain ok env where u: "io_unload io name (ms_env st) = (ok, env)" by force
    let ?st = "st\<lparr>ms_env := env, ms_sent := ms_sent st @ [(name, 0)]\<rparr>"
    have eq: "snd (snd (unload_victims io (name # names) st)) = snd (snd (unload_victims io names ?st))"
      using False by (simp add: u split_beta)
    obtain new where "ms_sent (snd (snd (unload_victims io names ?st))) = ms_sent st @ (name, 0) # new"
      "list_all (\<lambda>(nm, active). active = 0 \<and> nm \<in> set names) new"
      using Cons.IH [of ?st] by (auto simp: sends_only_def)
    moreover from this(2) have "list_all (\<lambda>(nm, active). active = 0 \<and> nm \<in> set (name # names)) ((name, 0) # new)"
      by (auto simp: list_all_iff)
    ultimately show ?thesis unfolding eq sends_only_def by blast
  qed
qed simp

lemma victims_allowed:
  assumes "c \<in> set (ev_victims (eviction_plan_of now ps usage_of (eviction_inputs t keep freed shortfall)))"
  shows "cd_name c \<noteq> keep \<and> cd_name c \<notin> mt_pinned t"
proof -
  have "c \<in> set (eligible (eviction_inputs t keep freed shortfall) now usage_of ps)"
    using assms choose_victims_subset by (fastforce simp: eviction_plan_of_def Let_def)
  from eligible_unprotected [OF this] show ?thesis by (simp add: runner_protected_def eviction_inputs_def)
qed

lemma evict_sends:
  assumes "evict_idle_models io t (mt_selected t) freed shortfall st = (receipt, st')"
  shows "sends_only (idle_unpinned t) st st'"
proof (cases "io_ps io (ms_env st)")
  case None
  then show ?thesis using assms by (simp add: evict_idle_models_def)
next
  case (Some ps)
  obtain save history where h: "observe_resident (io_print io) (mt_upstream t) ps (ms_history st) = (save, history)"
    by force
  define st1 where "st1 = st\<lparr>ms_history := history,
    ms_saves := ms_saves st @ (case save of None \<Rightarrow> [] | Some s \<Rightarrow> [s])\<rparr>"
  define plan where "plan = eviction_plan_of (io_unix io (ms_env st1)) ps (io_usage io (ms_env st1))
    (eviction_inputs t (mt_selected t) freed shortfall)"
  obtain evicted claimed st2 where u: "unload_victims io (map cd_name (ev_victims plan)) st1 = (evicted, claimed, st2)"
    by (metis prod_cases3)
  have sent: "ms_sent st' = ms_sent st2"
    using assms Some h u by (auto simp: evict_idle_models_def Let_def st1_def plan_def split: if_splits)
  have "sends_only (\<lambda>(name, active). active = 0 \<and> name \<in> set (map cd_name (ev_victims plan))) st1 st2"
    using unload_victims_sends [of "map cd_name (ev_victims plan)" st1 io] by (simp only: u snd_conv)
  then obtain new where n: "ms_sent st' = ms_sent st @ new"
    "list_all (\<lambda>(name, active). active = 0 \<and> name \<in> set (map cd_name (ev_victims plan))) new"
    using sent by (auto simp: sends_only_def st1_def)
  have "list_all (idle_unpinned t) new"
    using n(2) victims_allowed [of _ _ ps _ t "mt_selected t" freed shortfall]
    by (fastforce simp: list_all_iff plan_def)
  then show ?thesis using n(1) by (auto simp: sends_only_def)
qed

lemma detached_sends:
  "evict_detached io t (mt_selected t) freed shortfall st = (receipt, st') \<Longrightarrow> sends_only (idle_unpinned t) st st'"
  using evict_sends by (fastforce simp: evict_detached_def split: prod.splits)

lemma round_sends:
  assumes "room_round io t freed shortfall (fp, evs, st) = (fp', evs', st')"
  shows "sends_only (idle_unpinned t) st st' \<and> length evs' \<le> Suc (length evs) \<and> (shortfall = None \<longrightarrow> st' = st)"
proof (cases shortfall)
  case None
  then show ?thesis using assms by (simp add: room_round_def)
next
  case (Some n)
  obtain receipt st'' where d: "evict_detached io t (mt_selected t) freed n st = (receipt, st'')" by force
  have "st' = st''" "length evs' \<le> Suc (length evs)"
    using assms d Some by (auto simp: room_round_def split: option.splits)
  then show ?thesis using detached_sends [OF d] Some by simp
qed

text \<open>
  Making room harms no one. Whatever Ollama, the sampler and the clock do, every unload request that is
  sent goes to a runner that had no task when it was last looked at, is not the model to be loaded and is
  not pinned; at most two evictions are reported; and with eviction switched off nothing is sent.
\<close>

theorem make_room_spares_used_runners:
  "sends_only (\<lambda>(name, active). active = 0 \<and> name \<noteq> mt_selected t \<and> name \<notin> mt_pinned t) st (snd (snd (make_room io t st))) \<and>
   length (fst (snd (make_room io t st))) \<le> 2 \<and>
   (mt_evict_idle t \<or> snd (snd (make_room io t st)) = st)"
proof (cases "mt_evict_idle t")
  case False
  then show ?thesis by (simp add: make_room_def Let_def)
next
  case True
  let ?fp = "model_memory_requirement io t st"
  define short where "short = vram_shortfall ?fp
    (or_zero (Option.bind (resident_entry (io_ps io (ms_env st)) (mt_selected t)) (\<lambda>entry. get_u64 entry ''size_vram'')))
    (ho_gpu_total (sn_observation (io_snapshot io (ms_env st))))"
  obtain fp1 evs1 st1 where one: "room_round io t FreedVram short (?fp, [], st) = (fp1, evs1, st1)"
    by (metis prod_cases3)
  define short2 where "short2 = host_shortfall (or_zero (get_u64 fp1 ''required_available_bytes'')) (io_snapshot io (ms_env st1))"
  obtain fp2 evs2 st2 where two: "room_round io t (host_freed fp1) short2 (fp1, evs1, st1) = (fp2, evs2, st2)"
    by (metis prod_cases3)
  have m: "make_room io t st = (fp2, evs2, st2)"
    using True one two by (simp add: make_room_def Let_def short_def short2_def)
  show ?thesis using round_sends [OF one] round_sends [OF two] True sends_only_trans
    unfolding m by fastforce
qed

section \<open>The shortfall\<close>

lemma host_shortfall_value:
  assumes "host_shortfall bytes s = Some n" "as_required (assess_demand s (demand_load bytes) (sn_holding s)) = Some r"
  shows "0 < bytes \<and> r = bytes + reserve_for (sn_policy s) (ho_total (sn_observation s)) (sn_holding s) bytes \<and>
    n = r - or_zero (sn_effective s)"
  using assms
  by (auto simp: host_shortfall_def Let_def assess_demand_def demand_load_def checked_add_def split: if_splits)

lemma reserve_initial:
  assumes "policy_validate p"
  shows "reserve_for p total_bytes False bytes \<le> reserve_for p total_bytes recovering bytes"
  using reserve_for_band [OF assms] by (cases recovering) simp_all

text \<open>
  Freeing the shortfall is enough. When the runners that were unloaded give back at least the computed
  shortfall, and in the new sample nothing else holds the load back, then the first round of the wait
  admits it without an advisory and reserves its bytes.
\<close>

theorem freed_shortfall_admits:
  assumes "host_shortfall bytes s = Some n"
    and "as_required (assess_demand s (demand_load bytes) (sn_holding s)) = Some r"
    and "policy_validate (sn_policy s)" "sn_policy s' = sn_policy s"
    and "ho_total (sn_observation s') = ho_total (sn_observation s)"
    and "ho_available (sn_observation s') = Some avail" "avail \<le> u64_max"
    and "sn_effective s' = Some (avail - sn_reserved s')"
    and "or_zero (sn_effective s) + n \<le> avail - sn_reserved s'"
    and "\<not> sn_holding s'" "missing_required (rp_telemetry (sn_policy s)) (sn_observation s') = []"
  shows "\<exists>rc. wait_round (on_cpu cpu (demand_load bytes)) False s' (sn_reserved s') = (Inr rc, sn_reserved s' + bytes) \<and>
    rc_status rc = ''admitted'' \<and> rc_reserved rc = bytes"
proof -
  let ?d = "on_cpu cpu (demand_load bytes)"
  define rb where "rb = reserve_for (sn_policy s) (ho_total (sn_observation s)) False bytes"
  have r: "0 < bytes" "r = bytes + reserve_for (sn_policy s) (ho_total (sn_observation s)) (sn_holding s) bytes"
    "n = r - or_zero (sn_effective s)"
    using host_shortfall_value [OF assms(1,2)] by auto
  have "bytes + rb \<le> r" using r(2) reserve_initial [OF assms(3)] by (simp add: rb_def)
  then have fits: "bytes + rb \<le> avail - sn_reserved s'" using r(3) assms(9) by linarith
  then have sum: "sn_reserved s' + bytes + rb \<le> avail" using r(1) by linarith
  then have "sn_reserved s' + bytes + rb \<le> u64_max" using assms(7) by linarith
  then have bounds: "sn_reserved s' + bytes \<le> u64_max" "sn_reserved s' + bytes + rb \<le> u64_max" "bytes + rb \<le> u64_max"
    by linarith+
  have d: "de_bytes ?d = bytes" "\<not> de_resident ?d" by (simp_all add: on_cpu_def demand_load_def)
  have below: "\<not> below_reserve s' ?d (Some (bytes + rb))"
    using fits by (simp add: below_reserve_def assms(8))
  have den: "denial_reason s' ?d False = None"
    using bounds assms(10,11) below
    by (simp add: denial_reason_def Let_def d(1) sums_overflow_def checked_add_def assms(4,5) rb_def [symmetric])
  have adv: "\<not> as_advisory (assess_demand s' ?d False)"
    using below bounds by (simp add: assess_demand_def Let_def d(1) checked_add_def assms(4,5) rb_def [symmetric])
  have "try_reserve (sn_policy s') bytes (Some avail) rb (sn_reserved s') = (Fits, sn_reserved s' + bytes)"
    using bounds sum by (simp add: try_reserve_def telemetry_refuses_def reserve_turn_def checked_add_def)
  then have "wait_round ?d False s' (sn_reserved s') =
      (Inr (admit_receipt s' ?d Fits (assess_demand s' ?d False)), sn_reserved s' + bytes)"
    using den by (simp add: wait_round_def wait_reserve_def Let_def d assms(4-6) rb_def [symmetric])
  then show ?thesis using adv d(1) by (simp add: admit_receipt_def Let_def assms(6))
qed

section \<open>The reservation\<close>

lemma granted_bytes: "wait_for_demand True d ws = Some (Inr rc) \<Longrightarrow> rc_reserved rc = de_bytes d"
  using wait_loop_grant [of d False None ws rc] wait_round_grant by (fastforce simp: wait_for_demand_def)

lemma task_demand_bytes [simp]:
  "de_bytes (task_demand footprint already placement) =
     or_zero (get_u64 footprint ''required_available_bytes'') - or_zero already"
  by (simp add: task_demand_def Let_def on_cpu_def demand_load_def demand_resident_def)

lemma reserved_bytes:
  assumes "reserve_task_resources io t already sized rounds st = Some (Inr (rc, fp))" "is_loopback_url (io_url io) (mt_upstream t)"
  shows "rc_reserved rc = or_zero (get_u64 fp ''required_available_bytes'') - or_zero already"
  using assms granted_bytes
  by (auto simp: reserve_task_resources_def Let_def split: option.splits sum.splits)

lemma one_round_decides:
  "rounds \<noteq> [] \<Longrightarrow> wait_loop d recovering seen (reserve_rounds (Some b) rounds) \<noteq> None"
  by (cases rounds) (auto simp: reserve_rounds_def split: option.splits sum.splits)

text \<open>
  C28: What is sent is reserved. A local task that comes out of both reservations, the one before and the one
  under the transition lock, holds at least the bytes its load needs by the later measurement; and the
  second reservation is decided in its first round, so the lock is never held while waiting for memory.
\<close>

theorem sent_task_is_reserved:
  assumes "is_loopback_url (io_url io) (mt_upstream t)"
    and "reserve_task_resources io t None sized rounds st = Some (Inr (first, fp))"
    and "reserve_task_resources io t (Some (rc_reserved first)) None rounds' st' = Some (Inr (recheck, fp'))"
  shows "or_zero (get_u64 (model_memory_requirement io t st') ''required_available_bytes'') \<le> rc_reserved first + rc_reserved recheck \<and>
    (\<exists>w ws. rounds' = w # ws \<and>
       reserve_task_resources io t (Some (rc_reserved first)) None [w] st' = Some (Inr (recheck, fp')))"
proof -
  have fp: "fp' = model_memory_requirement io t st'"
    using assms(3) by (auto simp: reserve_task_resources_def Let_def split: option.splits sum.splits)
  obtain w ws where r: "rounds' = w # ws"
    using assms(1,3) by (cases rounds') (auto simp: reserve_task_resources_def wait_for_demand_def reserve_rounds_def Let_def)
  have "wait_loop d False None (reserve_rounds (Some b) (w # ws)) = wait_loop d False None (reserve_rounds (Some b) [w])" for d b
    by (simp add: reserve_rounds_def split: option.split sum.split)
  then have "reserve_task_resources io t (Some (rc_reserved first)) None [w] st' = Some (Inr (recheck, fp'))"
    using assms(1,3) by (simp add: reserve_task_resources_def wait_for_demand_def r)
  moreover have "rc_reserved recheck = or_zero (get_u64 fp' ''required_available_bytes'') - rc_reserved first"
    using reserved_bytes [OF assms(3,1)] by (simp add: or_zero_def)
  ultimately show ?thesis using r fp by auto
qed

section \<open>The estimates\<close>

text \<open>What is charged to the host and what the GPU has free are together the full estimate or more.\<close>

lemma spill_covers:
  assumes "jis_object fp" "full \<le> u64_max"
  shows "full \<le> or_zero (get_u64 (apply_discrete_gpu_budget full vram fp) ''required_available_bytes'') + or_zero (fst vram)"
  using assms by (cases "fst vram") (auto simp: apply_discrete_gpu_budget_def Let_def get_u64_def or_zero_def)

text \<open>Only the size of the file refuses a model; the estimate of its cache never does.\<close>

lemma preflight_refuses_by_size:
  "kp_refuses (memory_kv_preflight_with_memory model requested relevant host_bytes) \<longleftrightarrow>
    relevant \<and> (\<exists>n. host_bytes = Some n \<and> n div 5 * 4 < cm_size model)"
  by (auto simp: memory_kv_preflight_with_memory_def Let_def split: option.splits)

section \<open>Examples\<close>

definition sample_snapshot :: "nat \<Rightarrow> snapshot" where
  "sample_snapshot avail = \<lparr>sn_holding = False, sn_reasons = [], sn_reserved = 0, sn_effective = Some avail,
     sn_observation = quiet_host\<lparr>ho_available := Some avail\<rparr>, sn_policy = policy_default\<rparr>"

lemma sample_reserve: "bytes \<le> GIB \<Longrightarrow> reserve_for policy_default None False bytes = GIB"
  by (simp add: reserve_for_def reserve_def policy_default_def GIB_def)

lemma sample_snapshot_fields [simp]:
  "sn_holding (sample_snapshot avail) = False" "sn_reserved (sample_snapshot avail) = 0"
  "sn_effective (sample_snapshot avail) = Some avail" "sn_policy (sample_snapshot avail) = policy_default"
  "ho_total (sn_observation (sample_snapshot avail)) = None"
  "ho_available (sn_observation (sample_snapshot avail)) = Some avail"
  "missing_required (rp_telemetry policy_default) (sn_observation (sample_snapshot avail)) = []"
  by (simp_all add: sample_snapshot_def missing_required_def) (simp add: policy_default_def)

lemma sample_short: "host_shortfall GIB (sample_snapshot GIB) = Some GIB"
  "as_required (assess_demand (sample_snapshot GIB) (demand_load GIB) False) = Some (2 * GIB)"
proof -
  have refuse: "rp_low_memory policy_default \<noteq> Advisory" by (simp add: policy_default_def)
  have r: "reserve_for policy_default None False GIB = GIB" by (simp add: sample_reserve)
  have g: "2 * GIB \<le> u64_max" "0 < GIB" by (simp_all add: GIB_def u64_max_def)
  have "denial_reason (sample_snapshot GIB) (demand_load GIB) False = Some InsufficientCapacity"
    using refuse g by (simp add: denial_reason_def Let_def r demand_load_def sums_overflow_def
        checked_add_def below_reserve_def resident_only_def mult_2)
  then show "host_shortfall GIB (sample_snapshot GIB) = Some GIB"
    "as_required (assess_demand (sample_snapshot GIB) (demand_load GIB) False) = Some (2 * GIB)"
    using g by (simp_all add: host_shortfall_def assess_demand_def Let_def r demand_load_def
        checked_add_def or_zero_def mult_2)
qed

lemma freed_shortfall_admits_witness:
  "\<exists>rc. wait_round (on_cpu False (demand_load GIB)) False (sample_snapshot (3 * GIB)) 0 = (Inr rc, GIB) \<and>
    rc_status rc = ''admitted''"
proof -
  have "3 * GIB \<le> u64_max" by (simp add: GIB_def u64_max_def)
  then show ?thesis
    using freed_shortfall_admits [of GIB "sample_snapshot GIB" GIB "2 * GIB" "sample_snapshot (3 * GIB)" "3 * GIB" False]
      sample_short policy_default_valid by (auto simp: or_zero_def)
qed

text \<open>A task on the CPU backend whose model is empty, so that the load needs what its first footprint says.\<close>

definition empty_model :: catalog_model where
  "empty_model = \<lparr>cm_name = ''m'', cm_digest = None, cm_size = 0, cm_capabilities = {},
     cm_advertised_context = None, cm_kv_bytes_per_token = None, cm_modelfile_num_ctx = None, cm_architecture = None,
     cm_resident = False, cm_resident_size = None, cm_resident_vram = None, cm_resident_context = None,
     cm_benchmark = (\<lambda>_. None), cm_observed_loops = (\<lambda>_. None), cm_policy_rank = (\<lambda>_. None),
     cm_policy_options = (\<lambda>_. None)\<rparr>"

definition cpu_task :: memory_task where
  "cpu_task = \<lparr>mt_upstream = ''u'', mt_placement = Cpu, mt_model = empty_model, mt_selected = ''m'',
     mt_options = json_object [], mt_unified = False, mt_evict_idle = True, mt_pinned = {}, mt_weights = []\<rparr>"

definition silent_io :: "unit memory_io" where
  "silent_io = \<lparr>io_url = (\<lambda>_. Some \<lparr>url_scheme = ''http'', url_host = Some ''localhost'', url_port = None\<rparr>),
     io_print = (\<lambda>_. None), io_ps = (\<lambda>_. None), io_usage = (\<lambda>_ _. usage_default), io_unix = (\<lambda>_. 0),
     io_snapshot = (\<lambda>_. sample_snapshot (3 * GIB)), io_vram = (\<lambda>_. (None, [])), io_late = (\<lambda>_. False),
     io_polls = (\<lambda>_. 0), io_unload = (\<lambda>_ _. (False, ())), io_sleep = (\<lambda>_. ()), io_invalidate = (\<lambda>_. ())\<rparr>"

definition idle_memory :: "unit memory_state" where
  "idle_memory = \<lparr>ms_env = (), ms_history = with_hints runtime_hints_default, ms_saves = [], ms_sent = [],
     ms_evictions = 0, ms_last = None\<rparr>"

definition sample_round :: wait_input where
  "sample_round = \<lparr>wi_snapshot = Some (sample_snapshot (3 * GIB)), wi_reserved = 0, wi_late = False\<rparr>"

lemma sample_grant:
  assumes "bytes \<le> GIB" "d = on_cpu cpu (demand_load bytes)"
  shows "\<exists>rc. wait_for_demand True d (sample_round # ws) = Some (Inr rc)"
    "\<exists>rc. wait_for_demand True d [sample_round\<lparr>wi_late := True\<rparr>] = Some (Inr rc)"
proof -
  have g: "3 * GIB \<le> u64_max" by (simp add: GIB_def u64_max_def)
  have r: "reserve_for policy_default None False bytes = GIB" using assms(1) by (rule sample_reserve)
  have d: "de_bytes d = bytes" "\<not> de_resident d" by (simp_all add: assms(2) on_cpu_def demand_load_def)
  have den: "denial_reason (sample_snapshot (3 * GIB)) d False = None"
    using assms(1) g by (simp add: denial_reason_def Let_def d r sums_overflow_def checked_add_def below_reserve_def)
  have "try_reserve policy_default bytes (Some (3 * GIB)) GIB 0 = (Fits, bytes)"
    using assms(1) g by (simp add: try_reserve_def telemetry_refuses_def reserve_turn_def checked_add_def)
  then show "\<exists>rc. wait_for_demand True d (sample_round # ws) = Some (Inr rc)"
    "\<exists>rc. wait_for_demand True d [sample_round\<lparr>wi_late := True\<rparr>] = Some (Inr rc)"
    using den by (simp_all add: wait_for_demand_def sample_round_def wait_round_def wait_reserve_def Let_def d r)
qed

lemma silent_local: "is_loopback_url (io_url silent_io) (mt_upstream cpu_task)"
proof -
  have "ascii_lower ''localhost'' = ''localhost''" by (simp add: ascii_lower_def)
  then show ?thesis
    by (simp add: is_loopback_url_def silent_io_def is_loopback_host_def strip_ipv6_brackets_def Let_def)
qed

lemma silent_requirement:
  "get_u64 (model_memory_requirement silent_io cpu_task idle_memory) ''required_available_bytes'' = Some 0"
  "jindex (model_memory_requirement silent_io cpu_task idle_memory) ''source'' \<noteq> JStr ''matching_resident_context''"
proof -
  have relevant: "host_memory_relevant (io_url silent_io) (mt_unified cpu_task) (mt_upstream cpu_task) (mt_placement cpu_task)"
    using silent_local by (simp add: host_memory_relevant_def cpu_task_def)
  have req: "model_memory_requirement silent_io cpu_task idle_memory =
      requirement ''u'' empty_model (or_zero (get_u64 (json_object []) ''num_ctx'')) None True (with_hints runtime_hints_default)"
    using relevant by (simp add: model_memory_requirement_def Let_def cpu_task_def idle_memory_def empty_model_def)
  have est: "observed_bytes n [] = None" "kv_bytes empty_model n h = None" "measured_plus_kv empty_model n h [] = None"
      "file_estimate empty_model None = 0" "comparable ''u'' empty_model (with_hints h) = []"
      "is_warm empty_model n None = False" for n h
    by (simp_all add: observed_bytes_def kv_bytes_def measured_plus_kv_def file_estimate_def comparable_def is_warm_def
        with_hints_def empty_model_def sat_add_def)
  show "get_u64 (model_memory_requirement silent_io cpu_task idle_memory) ''required_available_bytes'' = Some 0"
    "jindex (model_memory_requirement silent_io cpu_task idle_memory) ''source'' \<noteq> JStr ''matching_resident_context''"
    unfolding req by (simp_all add: requirement_def est Let_def get_u64_def estimate_source_def jget_of_object jindex_of_object)
qed

lemma sent_task_is_reserved_witness:
  "\<exists>first recheck fp. reserve_task_resources silent_io cpu_task None (Some fp) [sample_round] idle_memory = Some (Inr (first, fp)) \<and>
    0 \<le> rc_reserved first + rc_reserved recheck \<and>
    reserve_task_resources silent_io cpu_task (Some (rc_reserved first)) None [sample_round] idle_memory =
      Some (Inr (recheck, model_memory_requirement silent_io cpu_task idle_memory))"
proof -
  let ?fp = "json_object [(''required_available_bytes'', jnat GIB)]"
  let ?m = "model_memory_requirement silent_io cpu_task idle_memory"
  have one: "task_demand ?fp None (mt_placement cpu_task) = on_cpu True (demand_load GIB)"
    by (simp add: task_demand_def Let_def get_u64_def or_zero_def cpu_task_def jindex_of_object GIB_def u64_max_def)
  obtain first where f: "reserve_task_resources silent_io cpu_task None (Some ?fp) [sample_round] idle_memory = Some (Inr (first, ?fp))"
    using sample_grant(1) [OF order_refl refl, of True "[]"] silent_local one
    by (auto simp: reserve_task_resources_def reserve_rounds_def Let_def)
  have two: "task_demand ?m (Some b) (mt_placement cpu_task) = on_cpu True (demand_load 0)" for b
    using silent_requirement by (simp add: task_demand_def Let_def or_zero_def cpu_task_def)
  obtain recheck where r: "reserve_task_resources silent_io cpu_task (Some (rc_reserved first)) None [sample_round] idle_memory =
      Some (Inr (recheck, ?m))"
    using sample_grant(2) [of 0 "on_cpu True (demand_load 0)" True] silent_local two
    by (auto simp: reserve_task_resources_def reserve_rounds_def Let_def)
  show ?thesis using sent_task_is_reserved [OF silent_local f r] f r by auto
qed

end
