(* ===== verification/Readiness.thy ===== *)
theory Readiness
  imports Memory_Run
begin

text \<open>
  The preview of a task (\<open>platform/readiness.rs\<close>): whether it would run now, and how many independent tasks of
  its kind would. Nothing is reserved; the preview uses the estimate and the assessment of the execution.
\<close>

record agent_plan =
  ag_queue :: string
  ag_resource :: string
  ag_dispatch :: string
  ag_cost :: nat
  ag_admissible_now :: nat
  ag_additional :: nat
  ag_warm :: bool
  ag_guidance :: string

definition preview_cost :: "nat \<Rightarrow> nat \<Rightarrow> nat" where
  "preview_cost task_cost limit = max (min task_cost (min limit u32_max)) 1"

definition dispatch_readiness :: "assessment option \<Rightarrow> nat \<Rightarrow> string \<Rightarrow> string" where
  "dispatch_readiness a queue_capacity queue =
     (case a of
        None \<Rightarrow> queue
      | Some v \<Rightarrow>
          if \<not> as_admissible v then as_status v
          else if as_status v = ''ready_telemetry_unknown'' \<and> 0 < queue_capacity then ''runnable_telemetry_unknown''
          else if as_advisory v \<and> 0 < queue_capacity then ''runnable_low_memory_estimate''
          else queue)"

definition preview_capacity :: "assessment option \<Rightarrow> nat option \<Rightarrow> nat \<Rightarrow> nat \<Rightarrow> nat" where
  "preview_capacity a effective required queue_capacity =
     (case a of
        None \<Rightarrow> queue_capacity
      | Some v \<Rightarrow>
          if \<not> as_admissible v then 0
          else if as_advisory v then min queue_capacity 1
          else if 0 < required
          then (case effective of
                  None \<Rightarrow> queue_capacity
                | Some n \<Rightarrow> min queue_capacity ((n - as_reserve v) div required))
          else queue_capacity)"

definition keep_alive_guidance :: "task_kind \<Rightarrow> bool \<Rightarrow> string" where
  "keep_alive_guidance task resident =
     (if task = TEmbedding then ''use_keep_alive_0_for_one_off_embedding; keep_warm_only_for_a_related_batch''
      else if resident
      then ''selected_runner_is_resident; preserve_prompt_prefix_and_keep_related_work_on_this_model''
      else ''selected_runner_is_cold; expect_a_load_transition_before_reusing_it'')"

definition preview_assessment :: "'e memory_io \<Rightarrow> memory_task \<Rightarrow> json \<Rightarrow> snapshot \<Rightarrow> assessment option" where
  "preview_assessment io t footprint s =
     (if is_loopback_url (io_url io) (mt_upstream t)
      then Some (assess_demand s (task_demand footprint None (mt_placement t)) False) else None)"

definition assess ::
  "'e memory_io \<Rightarrow> memory_task \<Rightarrow> task_kind \<Rightarrow> bool \<Rightarrow> nat \<Rightarrow> nat \<Rightarrow> nat \<Rightarrow> 'e memory_state \<Rightarrow> agent_plan" where
  "assess io t task resident task_cost limit slots st =
     (let footprint = model_memory_requirement io t st;
          s = io_snapshot io (ms_env st);
          required = or_zero (get_u64 footprint ''required_available_bytes'');
          a = preview_assessment io t footprint s;
          cost = preview_cost task_cost limit;
          queue_capacity = slots div cost;
          queue = (if 0 < queue_capacity then ''runnable_now'' else ''queue_likely'');
          now = preview_capacity a (sn_effective s) required queue_capacity
      in \<lparr>ag_queue = queue,
          ag_resource = (case a of None \<Rightarrow> ''not_applicable_remote'' | Some v \<Rightarrow> as_status v),
          ag_dispatch = dispatch_readiness a queue_capacity queue, ag_cost = cost,
          ag_admissible_now = now, ag_additional = now - 1, ag_warm = resident,
          ag_guidance = keep_alive_guidance task resident\<rparr>)"

section \<open>What the preview promises\<close>

lemma preview_slots: "ag_admissible_now (assess io t task resident task_cost limit slots st) * preview_cost task_cost limit \<le> slots"
proof -
  have "preview_capacity a eff required n \<le> n" for a eff required n
    by (simp add: preview_capacity_def split: option.split)
  then have "ag_admissible_now (assess io t task resident task_cost limit slots st) \<le> slots div preview_cost task_cost limit"
    by (simp add: assess_def Let_def)
  then have "ag_admissible_now (assess io t task resident task_cost limit slots st) * preview_cost task_cost limit \<le>
      slots div preview_cost task_cost limit * preview_cost task_cost limit" by simp
  then show ?thesis using div_times_less_eq_dividend order_trans by blast
qed



end
