(* ===== verification/Catalog.thy ===== *)
theory Catalog
  imports Footprint Feedback Net
begin

text \<open>
  The catalog of installed models (\<open>platform/catalog.rs\<close>, with \<open>parse_capability\<close> of \<open>discovery.rs\<close> and
  \<open>modelfile_num_ctx\<close> of \<open>ollama_env.rs\<close>): reading Ollama's answers, joining the concurrent lookups, merging
  the two backends, refreshing what is resident, and the cache with its single fill. The answers are arguments;
  the display of a runner's split between GPU and CPU is not modelled.
\<close>

section \<open>Reading text\<close>

fun lines_from :: "string \<Rightarrow> string \<Rightarrow> string list" where
  "lines_from acc [] = (if acc = [] then [] else [rev acc])"
| "lines_from acc (c # cs) =
     (if c = CHR 0x0A
      then rev (case acc of x # xs \<Rightarrow> if x = CHR 0x0D then xs else acc | [] \<Rightarrow> []) # lines_from [] cs
      else lines_from (c # acc) cs)"

definition text_lines :: "string \<Rightarrow> string list" where "text_lines = lines_from []"

definition at_white_space :: "string \<Rightarrow> bool" where
  "at_white_space s = list_ex (starts_with s) white_space"

fun span_word :: "string \<Rightarrow> string \<times> string" where
  "span_word [] = ([], [])"
| "span_word (c # cs) =
     (if at_white_space (c # cs) then ([], c # cs)
      else (case span_word cs of (w, rest) \<Rightarrow> (c # w, rest)))"

text \<open>The next item of \<open>split_whitespace\<close>, with what follows it.\<close>

definition next_word :: "string \<Rightarrow> (string \<times> string) option" where
  "next_word s = (let t = trim_start s in if t = [] then None else Some (span_word t))"

section \<open>Reading a model's metadata\<close>

fun as_object :: "json \<Rightarrow> (string \<times> json) list option" where
  "as_object (JObj kvs) = Some kvs"
| "as_object _ = None"

definition positive :: "json \<Rightarrow> nat option" where
  "positive v = (case as_u64 v of Some n \<Rightarrow> if 0 < n then Some n else None | None \<Rightarrow> None)"

definition parse_capability :: "string \<Rightarrow> capability option" where
  "parse_capability s = (let c = capability_parse s in if c = COther then None else Some c)"

definition reported_capabilities :: "json \<Rightarrow> string list" where
  "reported_capabilities show_doc =
     (case Option.bind (jget show_doc ''capabilities'') as_array of
        None \<Rightarrow> [] | Some vs \<Rightarrow> List.map_filter as_str vs)"

definition split_capabilities :: "json \<Rightarrow> capability set \<times> string list" where
  "split_capabilities show_doc =
     (let reported = reported_capabilities show_doc
      in (set (List.map_filter parse_capability reported), filter (\<lambda>s. parse_capability s = None) reported))"

definition model_info :: "json \<Rightarrow> (string \<times> json) list option" where
  "model_info show_doc = Option.bind (jget show_doc ''model_info'') as_object"

definition has_suffix :: "string \<Rightarrow> string \<Rightarrow> bool" where
  "has_suffix s suffix = starts_with (rev s) (rev suffix)"

definition advertised_context_from_show :: "json \<Rightarrow> nat option" where
  "advertised_context_from_show show_doc =
     Option.bind (model_info show_doc) (\<lambda>info.
       Option.bind
         (case map_of info ''general.architecture'' of
            Some a \<Rightarrow> Option.bind (as_str a) (\<lambda>arch. map_of info (arch @ ''.context_length''))
          | None \<Rightarrow> (case filter (\<lambda>(k, v). has_suffix k ''.context_length'') info of
                      [(k, v)] \<Rightarrow> Some v
                    | _ \<Rightarrow> None))
         positive)"

definition irregular_layout :: "string \<Rightarrow> bool" where
  "irregular_layout key \<longleftrightarrow> starts_with key ''ssm.'' \<or> starts_with key ''wkv'' \<or> contains_text ''recurrent'' key \<or>
     contains_text ''sliding_window'' key \<or> contains_text ''shared_kv'' key \<or> contains_text ''cross_attention'' key"

definition head_dimension :: "(string \<Rightarrow> json option) \<Rightarrow> nat \<Rightarrow> string \<Rightarrow> nat option" where
  "head_dimension field heads name =
     (case field name of
        Some v \<Rightarrow> positive v
      | None \<Rightarrow> Option.bind (Option.bind (field ''embedding_length'') positive)
                  (\<lambda>embedding. if embedding mod heads = 0 then Some (embedding div heads) else None))"

definition estimate_kv_cache_bytes_per_token_f16 :: "json \<Rightarrow> nat option" where
  "estimate_kv_cache_bytes_per_token_f16 show_doc =
     Option.bind (model_info show_doc) (\<lambda>info.
     Option.bind (Option.bind (map_of info ''general.architecture'') as_str) (\<lambda>arch.
       let prefix = arch @ ''.''; field = (\<lambda>name. map_of info (prefix @ name))
       in if list_ex irregular_layout (List.map_filter (strip_prefix prefix) (map fst info)) then None
          else
            Option.bind (Option.bind (field ''block_count'') positive) (\<lambda>blocks.
            Option.bind (Option.bind (field ''attention.head_count'') positive) (\<lambda>heads.
            Option.bind (Option.bind (field ''attention.head_count_kv'') positive) (\<lambda>kv_heads.
            Option.bind (head_dimension field heads ''attention.key_length'') (\<lambda>key.
            Option.bind (head_dimension field heads ''attention.value_length'') (\<lambda>val.
            Option.bind (checked_mul blocks kv_heads) (\<lambda>n.
            Option.bind (checked_add u64_max key val) (\<lambda>d.
            Option.bind (checked_mul n d) (\<lambda>per. checked_mul per 2))))))))))"

definition line_num_ctx :: "string \<Rightarrow> nat option" where
  "line_num_ctx line =
     Option.bind (next_word line) (\<lambda>(name, rest).
       if name = ''num_ctx'' then Option.bind (next_word rest) (\<lambda>(v, _). parse_u64 v) else None)"

definition modelfile_num_ctx :: "json \<Rightarrow> nat option" where
  "modelfile_num_ctx show_doc =
     Option.bind (Option.bind (jget show_doc ''parameters'') as_str) (\<lambda>s.
       find (\<lambda>n. 0 < n) (List.map_filter line_num_ctx (text_lines s)))"

section \<open>One backend\<close>

datatype catalog_error = NoModels | NoName | LookupFailed | Unreachable

text \<open>
  The lookups finish in any order; each brings the index of its model and its document, or none when
  the model is to be skipped. The first failed one ends the pass.
\<close>

fun join_shows ::
  "(nat \<times> (catalog_error + json option)) list \<Rightarrow> json option list \<Rightarrow> catalog_error + json option list" where
  "join_shows [] shows_so_far = Inr shows_so_far"
| "join_shows ((i, Inl e) # joined) shows_so_far = Inl e"
| "join_shows ((i, Inr v) # joined) shows_so_far = join_shows joined (shows_so_far[i := v])"

definition show_models ::
  "(nat \<times> (catalog_error + json option)) list \<Rightarrow> nat \<Rightarrow> catalog_error + json option list" where
  "show_models joined n = join_shows joined (replicate n None)"

record catalog_knowledge =
  ck_benchmark :: "string \<Rightarrow> (capability \<rightharpoonup> f64) option"
  ck_loops :: loop_evidence
  ck_qualified :: "task_kind \<rightharpoonup> string list"
  ck_options :: "task_kind \<rightharpoonup> (string \<rightharpoonup> request_defaults)"

definition running_entry :: "json list \<Rightarrow> string \<Rightarrow> json option" where
  "running_entry running name = find (\<lambda>e. ps_entry_name e = Some name) running"

definition running_number :: "json option \<Rightarrow> string \<Rightarrow> nat option" where
  "running_number running key = Option.bind running (\<lambda>e. get_u64 e key)"

definition catalog_model_of ::
  "catalog_knowledge \<Rightarrow> json list \<Rightarrow> json \<Rightarrow> string \<Rightarrow> json \<Rightarrow> catalog_model" where
  "catalog_model_of k resident entry name show_doc =
     (let running = running_entry resident name
      in \<lparr>cm_name = name, cm_digest = Option.bind (jget entry ''digest'') as_str,
          cm_size = (case get_u64 entry ''size'' of None \<Rightarrow> 0 | Some n \<Rightarrow> n),
          cm_capabilities = fst (split_capabilities show_doc),
          cm_advertised_context = advertised_context_from_show show_doc,
          cm_kv_bytes_per_token = estimate_kv_cache_bytes_per_token_f16 show_doc,
          cm_modelfile_num_ctx = modelfile_num_ctx show_doc,
          cm_architecture = Option.bind (jpointer show_doc [''model_info'', ''general.architecture'']) as_str,
          cm_resident = running \<noteq> None, cm_resident_size = running_number running ''size'',
          cm_resident_vram = running_number running ''size_vram'',
          cm_resident_context = running_number running ''context_length'',
          cm_benchmark = (case ck_benchmark k name of None \<Rightarrow> Map.empty | Some m \<Rightarrow> m),
          cm_observed_loops = for_model name (ck_loops k),
          cm_policy_rank = (\<lambda>task. Option.bind (ck_qualified k task) (position (\<lambda>c. c = name))),
          cm_policy_options = (\<lambda>task. Option.bind (ck_options k task) (\<lambda>m. m name))\<rparr>)"

fun all_names :: "json list \<Rightarrow> catalog_error + string list" where
  "all_names [] = Inr []"
| "all_names (entry # entries) =
     (case ps_entry_name entry of
        None \<Rightarrow> Inl NoName
      | Some name \<Rightarrow> and_then (all_names entries) (\<lambda>names. Inr (name # names)))"

definition listed_models :: "json \<Rightarrow> json list" where
  "listed_models doc = (case Option.bind (jget doc ''models'') as_array of None \<Rightarrow> [] | Some xs \<Rightarrow> xs)"

definition fetch_catalog_from ::
  "catalog_knowledge \<Rightarrow> catalog_error + json \<Rightarrow> catalog_error + json \<Rightarrow>
   (nat \<times> (catalog_error + json option)) list \<Rightarrow> catalog_error + catalog_model list" where
  "fetch_catalog_from k tags_answer ps_answer joined =
     and_then tags_answer (\<lambda>tags. and_then ps_answer (\<lambda>ps.
       (case Option.bind (jget tags ''models'') as_array of
          None \<Rightarrow> Inl NoModels
        | Some entries \<Rightarrow>
            and_then (all_names entries) (\<lambda>names.
            and_then (show_models joined (length names)) (\<lambda>shows.
              Inr (List.map_filter
                (\<lambda>((entry, name), s). map_option (catalog_model_of k (listed_models ps) entry name) s)
                (zip (zip entries names) shows)))))))"

section \<open>Both backends\<close>

definition fetch_catalog ::
  "string set \<Rightarrow> catalog_error + catalog_model list \<Rightarrow> (catalog_error + catalog_model list) option \<Rightarrow>
   catalog_error + catalog_model list" where
  "fetch_catalog cpu_models gpu cpu =
     and_then gpu (\<lambda>g.
       let kept = filter (\<lambda>m. cm_name m \<notin> cpu_models) g
       in case cpu of
            None \<Rightarrow> Inr (sort_key cm_name kept)
          | Some answer \<Rightarrow>
              and_then answer (\<lambda>c. Inr (sort_key cm_name (kept @ filter (\<lambda>m. cm_name m \<in> cpu_models) c))))"

definition refresh_model :: "string set \<Rightarrow> loop_evidence \<Rightarrow> json list \<Rightarrow> json list \<Rightarrow> catalog_model \<Rightarrow> catalog_model" where
  "refresh_model cpu_models loops gpu_running cpu_running m =
     (let running = running_entry (if cm_name m \<in> cpu_models then cpu_running else gpu_running) (cm_name m)
      in m\<lparr>cm_resident := running \<noteq> None, cm_resident_size := running_number running ''size'',
           cm_resident_vram := running_number running ''size_vram'',
           cm_resident_context := running_number running ''context_length'',
           cm_observed_loops := for_model (cm_name m) loops\<rparr>)"

definition refresh_residency ::
  "string set \<Rightarrow> loop_evidence \<Rightarrow> catalog_error + json \<Rightarrow> (catalog_error + json) option \<Rightarrow> catalog_model list \<Rightarrow>
   catalog_error + catalog_model list" where
  "refresh_residency cpu_models loops gpu cpu models =
     and_then gpu (\<lambda>g.
       (case cpu of
          None \<Rightarrow> Inr (map (refresh_model cpu_models loops (listed_models g) []) models)
        | Some answer \<Rightarrow>
            and_then answer (\<lambda>c. Inr (map (refresh_model cpu_models loops (listed_models g) (listed_models c)) models))))"

section \<open>The cache\<close>

definition CATALOG_TTL :: duration where "CATALOG_TTL = 30 * 1000000000"

text \<open>
  Any number of discoveries run at once. A miss waits for the lock of the fill and looks again under it;
  \<open>cc_stores\<close> records when a fill was stored.
\<close>

record catalog_cache =
  cc_saved :: "(instant \<times> catalog_model list) option"
  cc_waiting :: "nat list"
  cc_filling :: "nat option"
  cc_stores :: "instant list"

definition catalog_cache_new :: catalog_cache where
  "catalog_cache_new = \<lparr>cc_saved = None, cc_waiting = [], cc_filling = None, cc_stores = []\<rparr>"

definition snapshot_catalog :: "instant \<Rightarrow> catalog_cache \<Rightarrow> catalog_model list option" where
  "snapshot_catalog now c =
     (case cc_saved c of
        Some (saved, models) \<Rightarrow> if now - saved < CATALOG_TTL then Some models else None
      | None \<Rightarrow> None)"

datatype catalog_event =
    CatLook nat instant
  | CatEnter nat instant
  | CatFilled nat instant "catalog_model list"
  | CatLeft nat

fun event_time :: "catalog_event \<Rightarrow> instant option" where
  "event_time (CatLook i now) = Some now"
| "event_time (CatEnter i now) = Some now"
| "event_time (CatFilled i now models) = Some now"
| "event_time (CatLeft i) = None"

text \<open>\<open>CatLeft\<close>: the fill failed, or the discovery was dropped.\<close>

fun catalog_step :: "catalog_cache \<Rightarrow> catalog_event \<Rightarrow> catalog_cache" where
  "catalog_step c (CatLook i now) =
     (if i \<notin> set (cc_waiting c) \<and> cc_filling c \<noteq> Some i \<and> snapshot_catalog now c = None
      then c\<lparr>cc_waiting := i # cc_waiting c\<rparr> else c)"
| "catalog_step c (CatEnter i now) =
     (if i \<in> set (cc_waiting c) \<and> cc_filling c = None
      then c\<lparr>cc_waiting := filter (\<lambda>j. j \<noteq> i) (cc_waiting c),
             cc_filling := (if snapshot_catalog now c = None then Some i else None)\<rparr>
      else c)"
| "catalog_step c (CatFilled i now models) =
     (if cc_filling c = Some i
      then c\<lparr>cc_saved := Some (now, models), cc_stores := cc_stores c @ [now], cc_filling := None\<rparr>
      else c)"
| "catalog_step c (CatLeft i) =
     c\<lparr>cc_waiting := filter (\<lambda>j. j \<noteq> i) (cc_waiting c),
       cc_filling := (if cc_filling c = Some i then None else cc_filling c)\<rparr>"

definition catalog_run :: "catalog_event list \<Rightarrow> catalog_cache" where
  "catalog_run es = foldl catalog_step catalog_cache_new es"

end
