(* ===== verification/Catalog_Run.thy ===== *)
theory Catalog_Run
  imports Catalog "HOL-Library.Multiset"
begin

text \<open>
  The catalog: the order in which lookups finish does not show, a full pass over the models is made at most
  every thirty seconds, each model belongs to its backend, and estimates read only their own architecture.
\<close>

section \<open>Joining the lookups\<close>

definition lookups :: "(catalog_error + json option) list \<Rightarrow> (nat \<times> (catalog_error + json option)) list" where
  "lookups results = enumerate 0 results"

lemma join_shows_failed:
  "(i, Inl e) \<in> set joined \<Longrightarrow> \<exists>e' j. join_shows joined s = Inl e' \<and> (j, Inl e') \<in> set joined"
proof (induction joined arbitrary: s)
  case (Cons p joined)
  obtain j r where p: "p = (j, r)" by force
  show ?case
  proof (cases r)
    case (Inl e')
    then show ?thesis using p by auto
  next
    case (Inr v)
    then have "(i, Inl e) \<in> set joined" using Cons.prems p by auto
    from Cons.IH [OF this, of "s[j := v]"] show ?thesis using p Inr by auto
  qed
qed simp

lemma join_shows_ok:
  assumes "\<forall>(i, r) \<in> set joined. i < length s \<and> (\<exists>v. r = Inr v)" "distinct (map fst joined)"
  shows "\<exists>s'. join_shows joined s = Inr s' \<and> length s' = length s \<and>
    (\<forall>i < length s. s' ! i = (case map_of joined i of Some (Inr v) \<Rightarrow> v | _ \<Rightarrow> s ! i))"
  using assms
proof (induction joined arbitrary: s)
  case (Cons p joined)
  obtain j v where p: "p = (j, Inr v)" "j < length s" using Cons.prems(1) by auto
  have fresh: "map_of joined j = None" using Cons.prems(2) p by (auto simp: map_of_eq_None_iff)
  obtain s' where s': "join_shows joined (s[j := v]) = Inr s'" "length s' = length (s[j := v])"
    "\<forall>i < length (s[j := v]). s' ! i = (case map_of joined i of Some (Inr v) \<Rightarrow> v | _ \<Rightarrow> s[j := v] ! i)"
    using Cons.IH [of "s[j := v]"] Cons.prems by auto
  have "s' ! i = (case map_of (p # joined) i of Some (Inr v) \<Rightarrow> v | _ \<Rightarrow> s ! i)" if "i < length s" for i
    using s'(3) that p fresh by (cases "i = j") (auto split: option.splits sum.splits)
  then show ?case using s'(1,2) p(1) by auto
qed simp

lemma enumerate_map_of:
  assumes "mset joined = mset (lookups results)" "i < length results"
  shows "map_of joined i = Some (results ! i)" "distinct (map fst joined)"
proof -
  have "mset (map fst joined) = mset (map fst (lookups results))" using assms(1) by (metis mset_map)
  moreover have "distinct (map fst (lookups results))" by (simp add: lookups_def)
  ultimately show d: "distinct (map fst joined)" using mset_eq_imp_distinct_iff by blast
  have "(i, results ! i) \<in> set (lookups results)" using assms(2) by (auto simp: lookups_def in_set_enumerate_eq)
  then have "(i, results ! i) \<in> set joined" using mset_eq_setD [OF assms(1)] by simp
  then show "map_of joined i = Some (results ! i)" using d by simp
qed



section \<open>The cache\<close>

definition cache_ok :: "catalog_cache \<Rightarrow> instant \<Rightarrow> bool" where
  "cache_ok c t \<longleftrightarrow> sorted_wrt (\<lambda>a b. a + CATALOG_TTL \<le> b) (cc_stores c) \<and> (\<forall>a \<in> set (cc_stores c). a \<le> t) \<and>
     (case cc_saved c of None \<Rightarrow> cc_stores c = [] | Some (saved, models) \<Rightarrow> cc_stores c \<noteq> [] \<and> last (cc_stores c) = saved) \<and>
     (cc_filling c \<noteq> None \<longrightarrow> (\<forall>a \<in> set (cc_stores c). a + CATALOG_TTL \<le> t))"

lemma cache_ok_later: "cache_ok c t \<Longrightarrow> t \<le> t' \<Longrightarrow> cache_ok c t'"
  unfolding cache_ok_def by (meson le_trans)

lemma cache_ok_cong:
  "cc_stores c' = cc_stores c \<Longrightarrow> cc_saved c' = cc_saved c \<Longrightarrow> cc_filling c' = cc_filling c \<or> cc_filling c' = None \<Longrightarrow>
    cache_ok c t \<Longrightarrow> cache_ok c' t"
  unfolding cache_ok_def by (auto split: option.splits)

lemma stores_last:
  assumes "sorted_wrt (\<lambda>a b. a + CATALOG_TTL \<le> b) xs" "x \<in> set xs"
  shows "x \<le> last xs"
proof (cases xs rule: rev_cases)
  case (snoc ys y)
  then show ?thesis using assms by (auto simp: sorted_wrt_append)
qed (use assms in simp)

lemma miss_is_old:
  assumes "cache_ok c t" "snapshot_catalog now c = None" "t \<le> now"
  shows "\<forall>a \<in> set (cc_stores c). a + CATALOG_TTL \<le> now"
proof
  fix a assume a: "a \<in> set (cc_stores c)"
  then obtain saved models where s: "cc_saved c = Some (saved, models)" "last (cc_stores c) = saved"
    using assms(1) by (auto simp: cache_ok_def split: option.splits)
  have "saved \<in> set (cc_stores c)" using a s(2) by (metis last_in_set length_greater_0_conv length_pos_if_in_set)
  then have "saved \<le> t" using assms(1) by (simp add: cache_ok_def)
  moreover have "\<not> now - saved < CATALOG_TTL" using assms(2) s(1) by (auto simp: snapshot_catalog_def split: if_splits)
  moreover have "0 < CATALOG_TTL" by (simp add: CATALOG_TTL_def)
  moreover have "a \<le> saved" using stores_last [OF _ a] s(2) assms(1) by (simp add: cache_ok_def)
  ultimately show "a + CATALOG_TTL \<le> now" using assms(3) by linarith
qed

lemma catalog_step_ok:
  assumes "cache_ok c t" "\<And>now. event_time e = Some now \<Longrightarrow> t \<le> now"
  shows "cache_ok (catalog_step c e) (case event_time e of None \<Rightarrow> t | Some now \<Rightarrow> now)"
proof (cases e)
  case (CatLook i now)
  then have "cache_ok c now" using cache_ok_later [OF assms(1), of now] assms(2) by simp
  then have "cache_ok (catalog_step c e) now" by (rule cache_ok_cong [rotated 3]) (simp_all add: CatLook)
  then show ?thesis by (simp add: CatLook)
next
  case (CatEnter i now)
  then have later: "cache_ok c now" and le: "t \<le> now" using cache_ok_later [OF assms(1), of now] assms(2) by simp_all
  show ?thesis
  proof (cases "i \<in> set (cc_waiting c) \<and> cc_filling c = None \<and> snapshot_catalog now c = None")
    case True
    then show ?thesis using CatEnter later miss_is_old [OF assms(1) _ le] by (auto simp: cache_ok_def split: option.splits)
  next
    case False
    have "cache_ok (catalog_step c e) now"
      using later by (rule cache_ok_cong [rotated 3]) (use False CatEnter in auto)
    then show ?thesis by (simp add: CatEnter)
  qed
next
  case (CatFilled i now models)
  then have later: "cache_ok c now" and le: "t \<le> now" using cache_ok_later [OF assms(1), of now] assms(2) by simp_all
  show ?thesis
  proof (cases "cc_filling c = Some i")
    case True
    then have "\<forall>a \<in> set (cc_stores c). a + CATALOG_TTL \<le> now"
      using assms(1) le True unfolding cache_ok_def by (auto intro: le_trans)
    then show ?thesis using later True CatFilled unfolding cache_ok_def by (simp add: sorted_wrt_append)
  qed (use later CatFilled in simp)
next
  case (CatLeft i)
  have "cache_ok (catalog_step c e) t" using assms(1) by (rule cache_ok_cong [rotated 3]) (simp_all add: CatLeft)
  then show ?thesis by (simp add: CatLeft)
qed

lemma catalog_run_ok:
  "cache_ok c t \<Longrightarrow> sorted (t # List.map_filter event_time es) \<Longrightarrow> \<exists>t'. cache_ok (foldl catalog_step c es) t'"
proof (induction es arbitrary: c t)
  case (Cons e es)
  let ?t = "case event_time e of None \<Rightarrow> t | Some now \<Rightarrow> now"
  have "cache_ok (catalog_step c e) ?t"
    using catalog_step_ok [OF Cons.prems(1), of e] Cons.prems(2) by (auto simp: List.map_filter_simps)
  moreover have "sorted (?t # List.map_filter event_time es)"
    using Cons.prems(2) by (auto simp: List.map_filter_simps split: option.splits)
  ultimately show ?case using Cons.IH by simp
qed auto



section \<open>Both backends\<close>

lemma merged_models:
  assumes "fetch_catalog cpu_models (Inr gpu) cpu = Inr models" "m \<in> set models"
  shows "if cm_name m \<in> cpu_models then (\<exists>c. cpu = Some (Inr c) \<and> m \<in> set c) else m \<in> set gpu \<and> cm_name m \<notin> cpu_models"
  using assms by (auto simp: fetch_catalog_def Let_def and_then_Inr split: option.splits sum.splits)

lemma merged_sorted: "fetch_catalog cpu_models gpu cpu = Inr models \<Longrightarrow> sorted (map cm_name models)"
  by (auto simp: fetch_catalog_def Let_def and_then_Inr split: option.splits)

section \<open>The estimate\<close>

text \<open>
  Nothing outside the declared architecture counts: documents that agree on the architecture and on the keys below
  it have the same estimate.
\<close>

lemma kv_estimate_is_scoped:
  assumes "model_info a = Some ka" "model_info b = Some kb"
    and "map_of ka ''general.architecture'' = Some (JStr arch)" "map_of kb ''general.architecture'' = Some (JStr arch)"
    and "\<And>name. map_of ka (arch @ ''.'' @ name) = map_of kb (arch @ ''.'' @ name)"
    and "set (List.map_filter (strip_prefix (arch @ ''.'')) (map fst ka)) =
      set (List.map_filter (strip_prefix (arch @ ''.'')) (map fst kb))"
  shows "estimate_kv_cache_bytes_per_token_f16 a = estimate_kv_cache_bytes_per_token_f16 b"
proof -
  have pt: "map_of ka ((arch @ ''.'') @ name) = map_of kb ((arch @ ''.'') @ name)" for name using assms(5) by simp
  have field: "(\<lambda>name. map_of ka ((arch @ ''.'') @ name)) = (\<lambda>name. map_of kb ((arch @ ''.'') @ name))"
    using assms(5) by (intro ext) simp
  have "list_ex irregular_layout (List.map_filter (strip_prefix (arch @ ''.'')) (map fst ka)) =
      list_ex irregular_layout (List.map_filter (strip_prefix (arch @ ''.'')) (map fst kb))"
    using assms(6) by (simp only: list_ex_iff)
  then show ?thesis
    unfolding estimate_kv_cache_bytes_per_token_f16_def assms(1-4) bind.simps as_str.simps Let_def field by (simp only: pt)
qed

text \<open>Two bytes for every key and value component of every block and key-value head.\<close>

lemma kv_estimate_dense:
  assumes "model_info d = Some info" "map_of info ''general.architecture'' = Some (JStr arch)"
    and "estimate_kv_cache_bytes_per_token_f16 d = Some n"
  shows "\<exists>blocks kv_heads key val. 0 < blocks \<and> 0 < kv_heads \<and> n = 2 * (blocks * kv_heads * (key + val)) \<and> n \<le> u64_max"
  using assms
  by (auto simp: estimate_kv_cache_bytes_per_token_f16_def Let_def positive_def checked_mul_def
      bind_eq_Some_conv mult.commute split: if_splits option.splits)

end
