(* ===== verification/Policy_Eval.thy ===== *)
theory Policy_Eval
  imports Routing Feedback Net FL_Text
begin

text \<open>
  Where a quality policy comes from: \<open>platform/policy_eval.rs\<close> qualifies installed models from a benchmark
  aggregate, and \<open>discovery.rs\<close> loads the policy file and the benchmark report at the start. The documents are
  parsed already; printing a JSON value is an argument, and the text of the generated file is not modelled.
\<close>

section \<open>Reading the aggregate\<close>

fun truthy :: "json \<Rightarrow> bool" where
  "truthy JNull = False"
| "truthy (JBool b) = b"
| "truthy (JInt i) = (i \<noteq> 0)"
| "truthy (JFloat x) = (f_key x \<noteq> 0)"
| "truthy (JStr s) = (s \<noteq> [])"
| "truthy (JArr xs) = (xs \<noteq> [])"
| "truthy (JObj kvs) = (kvs \<noteq> [])"

datatype eval_error =
    NotAnAggregate | NotAString string | StaleAggregate string | NotANumber string | NotAnInteger
  | SmokeRun string int | AmbiguousId string "string list" | NothingQualified

fun number_of :: "json \<Rightarrow> string \<Rightarrow> eval_error + f64" where
  "number_of (JBool b) field = Inr (if b then f_one else f_zero)"
| "number_of v field = (case as_f64 v of Some x \<Rightarrow> Inr x | None \<Rightarrow> Inl (NotANumber field))"

definition i64_max :: int where "i64_max = 2 ^ 63 - 1"
definition i64_min :: int where "i64_min = - (2 ^ 63)"

text \<open>\<open>trunc() as i64\<close>: toward zero, saturating, and zero for a NaN.\<close>

definition trunc_i64 :: "f64 \<Rightarrow> int" where
  "trunc_i64 x =
     (if is_nan x then 0
      else let m = f_mag x;
               whole = (if m = f_inf_mag then 2 ^ 64
                        else if 0 \<le> f_exp m then int (f_sig m) * 2 ^ nat (f_exp m)
                        else int (f_sig m) div 2 ^ nat (- f_exp m))
           in max i64_min (min i64_max (if f_neg x then - whole else whole)))"

definition parse_i64 :: "string \<Rightarrow> int option" where
  "parse_i64 s =
     (case s of
        c # cs \<Rightarrow>
          if c = CHR ''-''
          then (if cs = [] \<or> digit_value (hd cs) = None then None else map_option (\<lambda>n. - int n) (parse_unsigned (2 ^ 63) cs))
          else map_option int (parse_unsigned (2 ^ 63 - 1) s)
      | [] \<Rightarrow> None)"

definition trial_budget :: "json option \<Rightarrow> eval_error + int" where
  "trial_budget value =
     (case value of
        None \<Rightarrow> Inr 0
      | Some v \<Rightarrow>
          if \<not> truthy v then Inr 0
          else (case v of
                  JBool b \<Rightarrow> Inr (if b then 1 else 0)
                | JInt i \<Rightarrow> Inr (if i64_min \<le> i \<and> i \<le> i64_max then i else (case as_f64 (JInt i) of None \<Rightarrow> 0 | Some x \<Rightarrow> trunc_i64 x))
                | JFloat x \<Rightarrow> Inr (trunc_i64 x)
                | JStr s \<Rightarrow> (case parse_i64 (str_trim s) of Some n \<Rightarrow> Inr n | None \<Rightarrow> Inl NotAnInteger)
                | _ \<Rightarrow> Inl NotAnInteger))"

fun python_str :: "(json \<Rightarrow> string) \<Rightarrow> json \<Rightarrow> string option" where
  "python_str to_text JNull = None"
| "python_str to_text (JStr s) = Some s"
| "python_str to_text (JBool b) = Some (if b then ''True'' else ''False'')"
| "python_str to_text v = Some (to_text v)"

definition require_str :: "json option \<Rightarrow> string \<Rightarrow> eval_error + string" where
  "require_str value field = (case value of Some (JStr s) \<Rightarrow> Inr s | _ \<Rightarrow> Inl (NotAString field))"

section \<open>Qualifying models\<close>

definition PUBLISHABLE_TRIALS :: int where "PUBLISHABLE_TRIALS = 3"

record qualified_model =
  ql_model :: string
  ql_pass :: f64
  ql_agent :: "string option"
  ql_trials :: int

definition slug :: "string \<Rightarrow> string" where
  "slug model = map (\<lambda>c. if c = CHR '':'' then CHR ''-'' else c) model"

definition all_tasks :: "task_kind list" where
  "all_tasks = [TCompletion, TCoding, TCodeRepair, TTools, TBrowser, TVision, TEmbedding, TLongContext]"

definition parse_task_kind :: "string \<Rightarrow> task_kind option" where
  "parse_task_kind s =
     find (\<lambda>k. task_as_str k = map (\<lambda>c. if c = CHR ''-'' then CHR ''_'' else c) s) all_tasks"

definition slug_matches :: "string \<Rightarrow> string \<Rightarrow> bool" where
  "slug_matches entry_id model \<longleftrightarrow> entry_id = slug model \<or>
     (case strip_prefix (slug model) entry_id of None \<Rightarrow> False | Some rest \<Rightarrow> starts_with rest ''-'')"

text \<open>The installed models that the lossy id may stand for: those with the longest matching slug.\<close>

definition finalists :: "string \<Rightarrow> string list \<Rightarrow> string list" where
  "finalists entry_id installed =
     (let matching = filter (slug_matches entry_id) installed;
          longest = foldl (\<lambda>n m. max n (length (slug m))) 0 matching
      in filter (\<lambda>m. length (slug m) = longest) matching)"

definition qualify_entry ::
  "(json \<Rightarrow> string) \<Rightarrow> string list \<Rightarrow> f64 \<Rightarrow> bool \<Rightarrow> json \<Rightarrow> eval_error + qualified_model option" where
  "qualify_entry to_text installed min_pass allow_smoke entry =
     and_then (require_str (jget entry ''id'') ''models[].id'') (\<lambda>entry_id.
       case (case jget entry ''pass_at_1'' of Some JNull \<Rightarrow> None | v \<Rightarrow> v) of
         None \<Rightarrow> Inr None
       | Some v \<Rightarrow>
           and_then (number_of v ''models[].pass_at_1'') (\<lambda>passed.
             if f_lt passed min_pass then Inr None
             else and_then (trial_budget (jget entry ''trial_budget'')) (\<lambda>trials.
               if trials < PUBLISHABLE_TRIALS \<and> \<not> allow_smoke then Inl (SmokeRun entry_id trials)
               else (case finalists entry_id installed of
                       [] \<Rightarrow> Inr None
                     | [model] \<Rightarrow>
                         Inr (Some \<lparr>ql_model = model, ql_pass = passed,
                           ql_agent = (case jget entry ''agent'' of
                             None \<Rightarrow> None | Some agent \<Rightarrow> if truthy agent then python_str to_text agent else None),
                           ql_trials = trials\<rparr>)
                     | several \<Rightarrow> Inl (AmbiguousId entry_id several)))))"

fun qualify_entries ::
  "(json \<Rightarrow> eval_error + qualified_model option) \<Rightarrow> json list \<Rightarrow> eval_error + qualified_model list" where
  "qualify_entries f [] = Inr []"
| "qualify_entries f (entry # entries) =
     and_then (f entry) (\<lambda>q. and_then (qualify_entries f entries)
       (\<lambda>qs. Inr (case q of None \<Rightarrow> qs | Some x \<Rightarrow> x # qs)))"

definition unique_models :: "qualified_model list \<Rightarrow> qualified_model list" where
  "unique_models qs =
     foldl (\<lambda>unique q. if list_ex (\<lambda>kept. ql_model kept = ql_model q) unique then unique else unique @ [q]) [] qs"

definition best_first :: "qualified_model list \<Rightarrow> qualified_model list" where
  "best_first qs = sort_key (\<lambda>q. - f_total_key (ql_pass q)) qs"

definition is_fresh :: "json \<Rightarrow> bool" where
  "is_fresh suite \<longleftrightarrow>
     (case jget suite ''review'' of
        None \<Rightarrow> False
      | Some review \<Rightarrow> truthy review \<and> (case jget review ''fresh'' of None \<Rightarrow> False | Some v \<Rightarrow> truthy v))"

definition qualify ::
  "(json \<Rightarrow> string) \<Rightarrow> json \<Rightarrow> string list \<Rightarrow> f64 \<Rightarrow> bool \<Rightarrow> eval_error + qualified_model list \<times> string" where
  "qualify to_text aggregate installed min_pass allow_smoke =
     (case (jget aggregate ''suite'', jget aggregate ''models'') of
        (Some (JObj suite), Some (JArr models)) \<Rightarrow>
          and_then (require_str (jget (JObj suite) ''id'') ''suite.id'') (\<lambda>suite_id.
          and_then (require_str (jget (JObj suite) ''benchmark_date'') ''suite.benchmark_date'') (\<lambda>benchmark_date.
            if \<not> is_fresh (JObj suite) then Inl (StaleAggregate suite_id)
            else and_then (qualify_entries (qualify_entry to_text installed min_pass allow_smoke) models) (\<lambda>qs.
              let unique = unique_models (best_first qs)
              in if unique = [] then Inl NothingQualified else Inr (unique, benchmark_date))))
      | _ \<Rightarrow> Inl NotAnAggregate)"

definition is_smoke :: "qualified_model list \<Rightarrow> bool" where
  "is_smoke qs = list_ex (\<lambda>q. ql_trials q < PUBLISHABLE_TRIALS) qs"

section \<open>Loading a policy\<close>

record task_policy =
  po_models :: "string list"
  po_options :: "(string, request_defaults) btree"

record policy_file =
  pf_schema :: nat
  pf_smoke :: bool
  pf_policies :: "(task_kind, task_policy) btree"

record policies =
  ps_qualified :: "(task_kind, string list) btree"
  ps_options :: "(task_kind, (string, request_defaults) btree) btree"

definition policies_default :: policies where
  "policies_default = \<lparr>ps_qualified = [], ps_options = []\<rparr>"

datatype policy_error =
    PolicyUnreadable | PolicyMalformed | PolicySchema | PolicySmoke | PolicyNoModels task_kind
  | PolicyEmptyModel task_kind | PolicyEmptyOptions task_kind | PolicyZeroPredict task_kind string

definition check_task_policy :: "task_kind \<Rightarrow> task_policy \<Rightarrow> policy_error + unit" where
  "check_task_policy task p =
     and_then (ensure (po_models p \<noteq> []) (PolicyNoModels task)) (\<lambda>_.
     and_then (ensure (list_all (\<lambda>m. str_trim m \<noteq> []) (po_models p)) (PolicyEmptyModel task)) (\<lambda>_.
     and_then (ensure (list_all (\<lambda>(m, options). str_trim m \<noteq> []) (po_options p)) (PolicyEmptyOptions task)) (\<lambda>_.
       (case find (\<lambda>(m, options). rd_num_predict options = Some 0) (po_options p) of
          Some (m, options) \<Rightarrow> Inl (PolicyZeroPredict task m)
        | None \<Rightarrow> Inr ()))))"

fun check_policies :: "(task_kind \<times> task_policy) list \<Rightarrow> policy_error + unit" where
  "check_policies [] = Inr ()"
| "check_policies ((task, p) # ps) = and_then (check_task_policy task p) (\<lambda>_. check_policies ps)"

text \<open>\<open>content\<close>: what reading the configured file gives; \<open>parse\<close> is the TOML parser.\<close>

definition load_policies ::
  "(string \<Rightarrow> policy_file option) \<Rightarrow> bool \<Rightarrow> string option \<Rightarrow> policy_error + policies" where
  "load_policies parse configured content =
     (if \<not> configured then Inr policies_default
      else case content of
        None \<Rightarrow> Inl PolicyUnreadable
      | Some s \<Rightarrow>
          (case parse s of
             None \<Rightarrow> Inl PolicyMalformed
           | Some file_data \<Rightarrow>
               and_then (ensure (pf_schema file_data = 1) PolicySchema) (\<lambda>_.
               and_then (ensure (\<not> pf_smoke file_data) PolicySmoke) (\<lambda>_.
               and_then (check_policies (pf_policies file_data)) (\<lambda>_.
                 Inr \<lparr>ps_qualified = map (\<lambda>(task, p). (task, po_models p)) (pf_policies file_data),
                      ps_options = map (\<lambda>(task, p). (task, po_options p))
                        (filter (\<lambda>(task, p). po_options p \<noteq> []) (pf_policies file_data))\<rparr>)))))"

section \<open>Loading a benchmark report\<close>

record ranking =
  rk_model :: string
  rk_attempted :: nat
  rk_passed :: nat
  rk_rate :: f64

definition benchmark_entry ::
  "capability \<Rightarrow> (string \<Rightarrow> (capability \<rightharpoonup> f64) option) \<Rightarrow> ranking \<Rightarrow> string \<Rightarrow> (capability \<rightharpoonup> f64) option" where
  "benchmark_entry capability known r =
     (if 0 < rk_attempted r \<and> rk_passed r = rk_attempted r
      then known(rk_model r \<mapsto> (case known (rk_model r) of None \<Rightarrow> Map.empty | Some m \<Rightarrow> m)(capability \<mapsto> rk_rate r))
      else known)"

definition load_benchmark ::
  "(capability \<times> ranking list) list \<Rightarrow> string \<Rightarrow> (capability \<rightharpoonup> f64) option" where
  "load_benchmark rankings =
     foldl (\<lambda>known (capability, rs). foldl (benchmark_entry capability) known rs) (\<lambda>_. None) rankings"

end
