(* ===== verification/Policy_Eval_Run.thy ===== *)
theory Policy_Eval_Run
  imports Policy_Eval
begin

text \<open>
  What a generated policy rests on: qualified models have the evidence they are credited with, and a policy from a
  smoke run is never loaded.
\<close>

section \<open>The right model\<close>

lemma longest_at_least: "m \<in> set ms \<Longrightarrow> f m \<le> foldl (\<lambda>n x. max n (f x)) k ms" for f :: "'a \<Rightarrow> nat"
proof (induction ms arbitrary: k)
  case (Cons x ms)
  have grow: "k \<le> foldl (\<lambda>n x. max n (f x)) k xs" for k xs
    by (induction xs arbitrary: k) (auto intro: le_trans max.cobounded1)
  show ?case
  proof (cases "m = x")
    case True
    then show ?thesis using grow [of "max k (f x)" ms] by simp
  next
    case False
    then show ?thesis using Cons by simp
  qed
qed simp

lemma sole_finalist:
  assumes "finalists entry_id installed = [model]"
  shows "model \<in> set installed \<and> slug_matches entry_id model \<and>
    (\<forall>m \<in> set installed. slug_matches entry_id m \<and> m \<noteq> model \<longrightarrow> length (slug m) < length (slug model))"
proof -
  define matching where "matching = filter (slug_matches entry_id) installed"
  define longest where "longest = foldl (\<lambda>n m. max n (length (slug m))) 0 matching"
  have f: "filter (\<lambda>m. length (slug m) = longest) matching = [model]"
    using assms by (simp add: finalists_def matching_def longest_def Let_def)
  have sole: "m = model" if "m \<in> set matching" "length (slug m) = longest" for m
  proof -
    have "m \<in> set (filter (\<lambda>m. length (slug m) = longest) matching)" using that by simp
    then show ?thesis unfolding f by simp
  qed
  have "model \<in> set (filter (\<lambda>m. length (slug m) = longest) matching)" unfolding f by simp
  then have model: "model \<in> set matching" "length (slug model) = longest" by simp_all
  have "length (slug m) < longest" if "m \<in> set matching" "m \<noteq> model" for m
    using longest_at_least [OF that(1), of "length \<circ> slug" 0] sole [OF that(1)] that(2)
    by (fastforce simp: longest_def comp_def)
  then show ?thesis using model by (auto simp: matching_def)
qed

section \<open>One entry\<close>

definition credited :: "string list \<Rightarrow> f64 \<Rightarrow> bool \<Rightarrow> json \<Rightarrow> qualified_model \<Rightarrow> bool" where
  "credited installed min_pass allow_smoke entry q \<longleftrightarrow>
     \<not> f_lt (ql_pass q) min_pass \<and> (allow_smoke \<or> 3 \<le> ql_trials q) \<and>
     (\<exists>entry_id. jget entry ''id'' = Some (JStr entry_id) \<and> slug_matches entry_id (ql_model q) \<and>
        ql_model q \<in> set installed \<and>
        (\<forall>m \<in> set installed. slug_matches entry_id m \<and> m \<noteq> ql_model q \<longrightarrow> length (slug m) < length (slug (ql_model q))))"

lemma qualify_entry_credited:
  assumes "qualify_entry to_text installed min_pass allow_smoke entry = Inr (Some q)"
  shows "credited installed min_pass allow_smoke entry q"
proof -
  obtain entry_id where i: "require_str (jget entry ''id'') ''models[].id'' = Inr entry_id"
    using assms by (auto simp: qualify_entry_def and_then_Inr)
  then have "jget entry ''id'' = Some (JStr entry_id)"
    by (auto simp: require_str_def split: option.splits json.splits)
  moreover obtain passed trials where p: "\<not> f_lt passed min_pass"
      "\<not> (trials < PUBLISHABLE_TRIALS \<and> \<not> allow_smoke)"
      "finalists entry_id installed = [ql_model q]" "ql_pass q = passed" "ql_trials q = trials"
    using assms i unfolding qualify_entry_def
    by (auto simp: and_then_Inr split: option.splits if_splits list.splits)
  moreover note sole_finalist [OF p(3)]
  ultimately show ?thesis by (auto simp: credited_def PUBLISHABLE_TRIALS_def)
qed

lemma qualify_entries_credited:
  assumes "qualify_entries f entries = Inr qs" "q \<in> set qs"
  shows "\<exists>entry \<in> set entries. f entry = Inr (Some q)"
  using assms
proof (induction entries arbitrary: qs)
  case (Cons entry entries)
  obtain r rs where r: "f entry = Inr r" "qualify_entries f entries = Inr rs"
    "qs = (case r of None \<Rightarrow> rs | Some x \<Rightarrow> x # rs)"
    using Cons.prems(1) by (auto simp: and_then_Inr)
  then show ?case using Cons.prems(2) Cons.IH [OF r(2)] by (cases r) auto
qed simp

section \<open>Best first, once each\<close>

lemma unique_step:
  "set (foldl (\<lambda>unique q. if list_ex (\<lambda>kept. ql_model kept = ql_model q) unique then unique else unique @ [q]) us qs)
     \<subseteq> set us \<union> set qs"
  by (induction qs arbitrary: us) (fastforce split: if_splits)+

lemma unique_distinct:
  "distinct (map ql_model us) \<Longrightarrow>
   distinct (map ql_model (foldl (\<lambda>unique q. if list_ex (\<lambda>kept. ql_model kept = ql_model q) unique then unique else unique @ [q]) us qs))"
proof (induction qs arbitrary: us)
  case (Cons q qs)
  show ?case
  proof (cases "list_ex (\<lambda>kept. ql_model kept = ql_model q) us")
    case True
    then show ?thesis using Cons by simp
  next
    case False
    then have "distinct (map ql_model (us @ [q]))" using Cons.prems by (auto simp: list_ex_iff)
    then show ?thesis using Cons.IH [of "us @ [q]"] False by simp
  qed
qed simp

lemma unique_sorted:
  "sorted_wrt R (us @ qs) \<Longrightarrow>
   sorted_wrt R (foldl (\<lambda>unique q. if list_ex (\<lambda>kept. ql_model kept = ql_model q) unique then unique else unique @ [q]) us qs)"
proof (induction qs arbitrary: us)
  case (Cons q qs)
  have "sorted_wrt R (us @ qs)" using Cons.prems by (auto simp: sorted_wrt_append)
  moreover have "sorted_wrt R ((us @ [q]) @ qs)" using Cons.prems by simp
  ultimately show ?case using Cons.IH by simp
qed simp

abbreviation no_worse :: "qualified_model \<Rightarrow> qualified_model \<Rightarrow> bool" where
  "no_worse a b \<equiv> f_total_key (ql_pass b) \<le> f_total_key (ql_pass a)"

lemma best_first_sorted: "sorted_wrt no_worse (best_first qs)"
proof -
  have "sorted (map (\<lambda>q. - f_total_key (ql_pass q)) (best_first qs))" by (simp add: best_first_def)
  then show ?thesis by (simp add: sorted_map)
qed

lemma qualify_result:
  assumes "qualify to_text aggregate installed min_pass allow_smoke = Inr (qs, date)"
  shows "qs \<noteq> [] \<and> distinct (map ql_model qs) \<and>
    sorted_wrt (\<lambda>a b. f_total_key (ql_pass b) \<le> f_total_key (ql_pass a)) qs \<and>
    (\<exists>models. jget aggregate ''models'' = Some (JArr models) \<and>
      (\<forall>q \<in> set qs. \<exists>entry \<in> set models. credited installed min_pass allow_smoke entry q))"
proof -
  obtain suite models where a: "jget aggregate ''suite'' = Some (JObj suite)" "jget aggregate ''models'' = Some (JArr models)"
    using assms by (auto simp: qualify_def split: option.splits json.splits)
  obtain all where all: "qualify_entries (qualify_entry to_text installed min_pass allow_smoke) models = Inr all"
    "qs = unique_models (best_first all)" "qs \<noteq> []"
    using assms a by (auto simp: qualify_def and_then_Inr Let_def split: if_splits)
  have "set qs \<subseteq> set all" using unique_step [of "[]" "best_first all"] all(2) by (auto simp: unique_models_def best_first_def)
  then have "\<exists>entry \<in> set models. credited installed min_pass allow_smoke entry q" if "q \<in> set qs" for q
    using qualify_entries_credited [OF all(1), of q] qualify_entry_credited that by blast
  moreover have "distinct (map ql_model qs)" using unique_distinct [of "[]"] all(2) by (simp add: unique_models_def)
  moreover have "sorted_wrt no_worse qs"
    using unique_sorted [of no_worse "[]" "best_first all"] best_first_sorted [of all] all(2) by (simp add: unique_models_def)
  ultimately show ?thesis using a(2) all(3) by blast
qed


section \<open>From evidence to routing\<close>

text \<open>What the generated file says, as data.\<close>

definition generated_policy :: "task_kind \<Rightarrow> qualified_model list \<Rightarrow> policy_file" where
  "generated_policy task qs =
     \<lparr>pf_schema = 1, pf_smoke = is_smoke qs,
      pf_policies = [(task, \<lparr>po_models = map ql_model qs, po_options = []\<rparr>)]\<rparr>"

lemma not_smoke:
  assumes "qualify to_text aggregate installed min_pass False = Inr (qs, date)"
  shows "\<not> is_smoke qs"
proof -
  have "3 \<le> ql_trials q" if "q \<in> set qs" for q
    using qualify_result [OF assms] that by (auto simp: credited_def)
  then show ?thesis by (force simp: is_smoke_def list_ex_iff PUBLISHABLE_TRIALS_def)
qed


section \<open>What is loaded\<close>

lemma check_policies_ok: "check_policies ps = Inr () \<Longrightarrow> (task, p) \<in> set ps \<Longrightarrow> check_task_policy task p = Inr ()"
proof (induction ps)
  case (Cons x ps)
  then show ?case by (cases x) (auto simp: and_then_Inr)
qed simp

text \<open>A model counts for a capability only when it passed every case it attempted.\<close>

lemma benchmark_entry_value:
  "benchmark_entry cap known r m = Some caps \<Longrightarrow> caps c = Some x \<Longrightarrow>
    (\<exists>old. known m = Some old \<and> old c = Some x) \<or>
    (c = cap \<and> rk_model r = m \<and> 0 < rk_attempted r \<and> rk_passed r = rk_attempted r \<and> rk_rate r = x)"
  by (auto simp: benchmark_entry_def split: if_splits option.splits)

lemma benchmark_fold:
  assumes "foldl (benchmark_entry cap) known rs m = Some caps" "caps c = Some x"
  shows "(\<exists>old. known m = Some old \<and> old c = Some x) \<or>
    (c = cap \<and> (\<exists>r \<in> set rs. rk_model r = m \<and> 0 < rk_attempted r \<and> rk_passed r = rk_attempted r \<and> rk_rate r = x))"
  using assms
proof (induction rs arbitrary: known)
  case (Cons r rs)
  from Cons.IH [of "benchmark_entry cap known r"] Cons.prems
  consider old where "benchmark_entry cap known r m = Some old" "old c = Some x"
    | r' where "c = cap" "r' \<in> set rs" "rk_model r' = m" "0 < rk_attempted r'" "rk_passed r' = rk_attempted r'" "rk_rate r' = x"
    by auto
  then show ?case
  proof cases
    case 1
    from benchmark_entry_value [OF 1] show ?thesis by auto
  next
    case 2
    then show ?thesis by auto
  qed
qed auto

section \<open>Examples\<close>

definition sample_aggregate :: "nat \<Rightarrow> json" where
  "sample_aggregate trials = json_object
     [(''suite'', json_object [(''id'', JStr ''s''), (''benchmark_date'', JStr ''2026-08-27''),
        (''review'', json_object [(''fresh'', JBool True)])]),
      (''models'', JArr [json_object [(''id'', JStr ''q-27b-bash''), (''pass_at_1'', JFloat f_one), (''trial_budget'', jnat trials)]])]"

lemma sample_qualified:
  "qualify (\<lambda>_. []) (sample_aggregate 3) [''q:27b'', ''q''] f_zero False =
     Inr ([\<lparr>ql_model = ''q:27b'', ql_pass = f_one, ql_agent = None, ql_trials = 3\<rparr>], ''2026-08-27'')"
  by (simp add: sample_aggregate_def qualify_def json_object_def cmp_def require_str_def is_fresh_def qualify_entry_def
      trial_budget_def jnat_def i64_min_def i64_max_def PUBLISHABLE_TRIALS_def finalists_def slug_matches_def slug_def
      strip_prefix_def f_lt_def f_one_def f_zero_def is_nan_def f_key_def f_mag_def f_neg_def f_inf_mag_def
      unique_models_def best_first_def Let_def)



end
