(* ===== verification/Ollama_Env.thy ===== *)
theory Ollama_Env
  imports Footprint Calendar Net
begin

text \<open>
  The settings of the Ollama server (\<open>platform/ollama_env.rs\<close>): which process serves an endpoint, the names that
  are read of its environment, and the strongest source of every tracked setting. What the process list, the
  launch daemon and the own environment hold are arguments, and so is the URL parser.
\<close>

section \<open>Settings\<close>

definition TRACKED :: "string list" where
  "TRACKED = [''OLLAMA_NUM_PARALLEL'', ''OLLAMA_MAX_LOADED_MODELS'', ''OLLAMA_MAX_QUEUE'', ''OLLAMA_CONTEXT_LENGTH'',
     ''OLLAMA_KEEP_ALIVE'', ''OLLAMA_FLASH_ATTENTION'', ''OLLAMA_KV_CACHE_TYPE'', ''OLLAMA_GPU_OVERHEAD'']"

datatype setting_source = FromProcess | FromLaunchd | FromOwnEnv | OllamaDefault

record ollama_setting =
  os_value :: "string option"
  os_source :: setting_source

datatype inspection = NotLoopback | ProcUnreadable | NoMatchingProcess | AmbiguousProcess | ObservedProcess string

record ollama_settings =
  ol_settings :: "(string, ollama_setting) btree"
  ol_inspection :: inspection
  ol_process_observed :: bool

definition comparable_process_settings ::
  "ollama_settings \<Rightarrow> ((string, ollama_setting) btree \<times> inspection) option" where
  "comparable_process_settings s =
     (if ol_process_observed s then Some (ol_settings s, ol_inspection s) else None)"

definition setting_raw :: "ollama_settings \<Rightarrow> string \<Rightarrow> string option" where
  "setting_raw s name = Option.bind (bt_get (ol_settings s) name) os_value"

definition setting_source_of :: "ollama_settings \<Rightarrow> string \<Rightarrow> setting_source" where
  "setting_source_of s name = (case bt_get (ol_settings s) name of None \<Rightarrow> OllamaDefault | Some v \<Rightarrow> os_source v)"

definition setting_positive :: "ollama_settings \<Rightarrow> string \<Rightarrow> nat option" where
  "setting_positive s name =
     (case Option.bind (setting_raw s name) (\<lambda>v. parse_u64 (str_trim v)) of
        Some n \<Rightarrow> if 0 < n then Some n else None | None \<Rightarrow> None)"

definition setting_num_parallel :: "ollama_settings \<Rightarrow> nat" where
  "setting_num_parallel s = (case setting_positive s ''OLLAMA_NUM_PARALLEL'' of None \<Rightarrow> 1 | Some n \<Rightarrow> n)"

definition setting_context_length :: "ollama_settings \<Rightarrow> nat option" where
  "setting_context_length s = setting_positive s ''OLLAMA_CONTEXT_LENGTH''"

definition gpu_overhead_bytes :: "ollama_settings \<Rightarrow> nat" where
  "gpu_overhead_bytes s = (case setting_positive s ''OLLAMA_GPU_OVERHEAD'' of None \<Rightarrow> 0 | Some n \<Rightarrow> n)"

type_synonym environment = "string \<Rightarrow> string option"

definition clean_value :: "string option \<Rightarrow> string option" where
  "clean_value v = (case map_option str_trim v of Some s \<Rightarrow> if s = [] then None else Some s | None \<Rightarrow> None)"

text \<open>An observed process is authoritative: what it does not set is unset.\<close>

definition resolve_setting :: "environment option \<Rightarrow> environment \<Rightarrow> environment \<Rightarrow> string \<Rightarrow> ollama_setting" where
  "resolve_setting process launchd own name =
     (case process of
        Some env \<Rightarrow> \<lparr>os_value = clean_value (env name),
                     os_source = (if env name \<noteq> None then FromProcess else OllamaDefault)\<rparr>
      | None \<Rightarrow>
          (case clean_value (launchd name) of
             Some v \<Rightarrow> \<lparr>os_value = Some v, os_source = FromLaunchd\<rparr>
           | None \<Rightarrow>
               (case clean_value (own name) of
                  Some v \<Rightarrow> \<lparr>os_value = Some v, os_source = FromOwnEnv\<rparr>
                | None \<Rightarrow> \<lparr>os_value = None, os_source = OllamaDefault\<rparr>)))"

definition resolve_settings ::
  "environment option \<Rightarrow> environment \<Rightarrow> environment \<Rightarrow> inspection \<Rightarrow> ollama_settings" where
  "resolve_settings process launchd own inspected =
     \<lparr>ol_settings = fold (\<lambda>name. bt_put name (resolve_setting process launchd own name)) TRACKED [],
      ol_inspection = inspected, ol_process_observed = (process \<noteq> None)\<rparr>"

section \<open>Finding the process\<close>

fun split_once :: "char \<Rightarrow> string \<Rightarrow> (string \<times> string) option" where
  "split_once d [] = None"
| "split_once d (c # cs) =
     (if c = d then Some ([], cs) else map_option (\<lambda>(a, b). (c # a, b)) (split_once d cs))"

definition is_tracked :: "string \<Rightarrow> string \<Rightarrow> bool" where
  "is_tracked name v \<longleftrightarrow> (name \<in> set TRACKED \<or> name = ''OLLAMA_HOST'') \<and> str_trim v \<noteq> []"

text \<open>Of several pairs with one name the last one counts.\<close>

definition tracked_only :: "(string \<times> string) list \<Rightarrow> environment" where
  "tracked_only pairs = map_of (rev (filter (\<lambda>(name, v). is_tracked name v) pairs))"

definition parse_proc_environ :: "string \<Rightarrow> environment" where
  "parse_proc_environ bytes =
     tracked_only (List.map_filter (split_once (CHR ''='')) (split_at (CHR 0x00) bytes))"

definition path_file_name :: "string \<Rightarrow> string option" where
  "path_file_name path =
     (case rev (filter (\<lambda>c. c \<noteq> [] \<and> c \<noteq> ''.'') (split_at (CHR ''/'') path)) of
        c # cs \<Rightarrow> if c = ''..'' then None else Some c
      | [] \<Rightarrow> None)"

definition is_ollama_serve :: "string list \<Rightarrow> bool" where
  "is_ollama_serve args =
     (case args of
        program # rest \<Rightarrow> path_file_name program = Some ''ollama'' \<and> (case rest of a # as \<Rightarrow> a = ''serve'' | [] \<Rightarrow> False)
      | [] \<Rightarrow> False)"

definition trim_brackets :: "string \<Rightarrow> string" where
  "trim_brackets s = rev (dropWhile (\<lambda>c. c \<in> set ''[]'') (rev (dropWhile (\<lambda>c. c \<in> set ''[]'') s)))"

definition host_address :: "url \<Rightarrow> ip_addr option" where
  "host_address u =
     Option.bind (url_host u) (\<lambda>host.
       if host = ''localhost'' then Some (V4 127 0 0 1) else parse_ip (trim_brackets host))"

fun same_family :: "ip_addr \<Rightarrow> ip_addr \<Rightarrow> bool" where
  "same_family (V4 a b c d) (V4 a' b' c' d') = True"
| "same_family (V6 gs) (V6 gs') = True"
| "same_family _ _ = False"

text \<open>\<open>explicit_port\<close> is the port of a URL when it is written out and not the scheme's own.\<close>

definition matches_endpoint ::
  "(string \<Rightarrow> url option) \<Rightarrow> (string \<Rightarrow> nat option) \<Rightarrow> environment \<Rightarrow> string \<Rightarrow> bool" where
  "matches_endpoint parse_url explicit_port env endpoint =
     (case parse_url endpoint of
        None \<Rightarrow> False
      | Some target \<Rightarrow>
          (let host = (case env ''OLLAMA_HOST'' of None \<Rightarrow> ''http://127.0.0.1:11434'' | Some h \<Rightarrow> h);
               configured = (if contains_text ''://'' host then host else ''http://'' @ host)
           in case parse_url configured of
                None \<Rightarrow> False
              | Some c \<Rightarrow>
                  (case (host_address c, host_address target) of
                     (Some bind, Some t) \<Rightarrow>
                       ip_loopback t \<and> (bind = t \<or> ip_unspecified bind \<and> same_family bind t)
                   | _ \<Rightarrow> False) \<and>
                  Some (case explicit_port configured of None \<Rightarrow> 11434 | Some p \<Rightarrow> p) = url_port target))"

definition select_process ::
  "(string \<Rightarrow> url option) \<Rightarrow> (string \<Rightarrow> nat option) \<Rightarrow> (string \<times> environment) list \<Rightarrow> string \<Rightarrow>
   environment option \<times> inspection" where
  "select_process parse_url explicit_port candidates endpoint =
     (case filter (\<lambda>(pid, env). matches_endpoint parse_url explicit_port env endpoint) candidates of
        [] \<Rightarrow> (None, NoMatchingProcess)
      | [(pid, env)] \<Rightarrow> (Some env, ObservedProcess pid)
      | _ \<Rightarrow> (None, AmbiguousProcess))"

text \<open>An entry of the process directory: its name, and its command line and environment when readable.\<close>

record proc_entry =
  pe_name :: string
  pe_cmdline :: "string option"
  pe_environ :: "string option"

definition process_candidate :: "proc_entry \<Rightarrow> (string \<times> environment) option" where
  "process_candidate p =
     (if \<not> list_all (\<lambda>c. digit_value c \<noteq> None) (pe_name p) then None
      else (case (pe_cmdline p, pe_environ p) of
              (Some cmd, Some env) \<Rightarrow>
                if is_ollama_serve (filter (\<lambda>a. a \<noteq> []) (split_at (CHR 0x00) cmd))
                then Some (pe_name p, parse_proc_environ env) else None
            | _ \<Rightarrow> None))"

definition process_environment ::
  "(string \<Rightarrow> url option) \<Rightarrow> (string \<Rightarrow> nat option) \<Rightarrow> proc_entry list option \<Rightarrow> string \<Rightarrow>
   environment option \<times> inspection" where
  "process_environment parse_url explicit_port entries endpoint =
     (case entries of
        None \<Rightarrow> (None, ProcUnreadable)
      | Some ps \<Rightarrow> select_process parse_url explicit_port (List.map_filter process_candidate ps) endpoint)"

definition probe ::
  "(string \<Rightarrow> url option) \<Rightarrow> (string \<Rightarrow> nat option) \<Rightarrow> proc_entry list option \<Rightarrow> environment \<Rightarrow> environment \<Rightarrow>
   string \<Rightarrow> ollama_settings" where
  "probe parse_url explicit_port entries launchd own endpoint =
     (case (if is_loopback_url parse_url endpoint then process_environment parse_url explicit_port entries endpoint
            else (None, NotLoopback)) of
        (process, inspected) \<Rightarrow> resolve_settings process launchd own inspected)"

definition probe_comparable_process ::
  "(string \<Rightarrow> url option) \<Rightarrow> (string \<Rightarrow> nat option) \<Rightarrow> proc_entry list option \<Rightarrow> string \<Rightarrow>
   ((string, ollama_setting) btree \<times> inspection) option" where
  "probe_comparable_process parse_url explicit_port entries endpoint =
     (if \<not> is_loopback_url parse_url endpoint then None
      else (case process_environment parse_url explicit_port entries endpoint of
              (None, inspected) \<Rightarrow> None
            | (Some env, inspected) \<Rightarrow>
                comparable_process_settings (resolve_settings (Some env) (\<lambda>_. None) (\<lambda>_. None) inspected)))"

section \<open>The default window\<close>

definition vram_tier_default_context :: "nat \<Rightarrow> nat" where
  "vram_tier_default_context total_vram =
     (if 47 * GIB \<le> total_vram then 262144 else if 23 * GIB \<le> total_vram then 32768 else 4096)"

lemma vram_tier_mono: "a \<le> b \<Longrightarrow> vram_tier_default_context a \<le> vram_tier_default_context b"
  by (auto simp: vram_tier_default_context_def)

section \<open>What the settings rest on\<close>

lemma tracked_distinct: "distinct TRACKED"
  by (simp add: TRACKED_def)

lemma fold_put_get:
  "bt_get (fold (\<lambda>name. bt_put name (f name)) names m) k = (if k \<in> set names then Some (f k) else bt_get m k)"
  by (induction names arbitrary: m) auto

lemma setting_of_probe:
  "name \<in> set TRACKED \<Longrightarrow> bt_get (ol_settings (resolve_settings process launchd own inspected)) name =
     Some (resolve_setting process launchd own name)"
  by (simp add: resolve_settings_def fold_put_get)

definition serving :: "(string \<Rightarrow> url option) \<Rightarrow> (string \<Rightarrow> nat option) \<Rightarrow> proc_entry list \<Rightarrow> string \<Rightarrow> (string \<times> environment) list" where
  "serving parse_url explicit_port entries endpoint =
     filter (\<lambda>(pid, env). matches_endpoint parse_url explicit_port env endpoint) (List.map_filter process_candidate entries)"

text \<open>
  C34: Settings are attributed to the server they come from. When exactly one readable "ollama serve" process serves the
  endpoint, every tracked setting is what that process has in its environment, trimmed, and unset otherwise:
  nothing of the launch daemon or of FreeLlama's own environment replaces it. When there is none, or more than
  one, no setting is attributed to a process.
\<close>

theorem settings_are_attributed:
  assumes "is_loopback_url parse_url endpoint" "name \<in> set TRACKED"
  shows "case serving parse_url explicit_port entries endpoint of
      [(pid, env)] \<Rightarrow>
        ol_inspection (probe parse_url explicit_port (Some entries) launchd own endpoint) = ObservedProcess pid \<and>
        setting_raw (probe parse_url explicit_port (Some entries) launchd own endpoint) name = clean_value (env name) \<and>
        setting_source_of (probe parse_url explicit_port (Some entries) launchd own endpoint) name =
          (if env name = None then OllamaDefault else FromProcess)
    | _ \<Rightarrow>
        setting_source_of (probe parse_url explicit_port (Some entries) launchd own endpoint) name \<noteq> FromProcess \<and>
        probe_comparable_process parse_url explicit_port (Some entries) endpoint = None"
proof -
  let ?p = "probe parse_url explicit_port (Some entries) launchd own endpoint"
  obtain process inspected where
    sel: "select_process parse_url explicit_port (List.map_filter process_candidate entries) endpoint = (process, inspected)"
    by force
  have p: "?p = resolve_settings process launchd own inspected"
    using assms(1) sel by (simp add: probe_def process_environment_def)
  have raw: "setting_raw ?p name = os_value (resolve_setting process launchd own name)"
    "setting_source_of ?p name = os_source (resolve_setting process launchd own name)"
    "ol_inspection ?p = inspected"
    using setting_of_probe [OF assms(2)] unfolding p by (simp_all add: setting_raw_def setting_source_of_def)
      (simp add: resolve_settings_def)
  show ?thesis
  proof (cases "process")
    case None
    have src: "os_source (resolve_setting None launchd own name) \<noteq> FromProcess"
      by (simp add: resolve_setting_def split: option.split)
    have "probe_comparable_process parse_url explicit_port (Some entries) endpoint = None"
      using assms(1) sel None by (simp add: probe_comparable_process_def process_environment_def)
    then show ?thesis using sel None src raw(2)
      by (auto simp: select_process_def serving_def split: list.splits)
  next
    case (Some env)
    then obtain pid where one: "serving parse_url explicit_port entries endpoint = [(pid, env)]" "inspected = ObservedProcess pid"
      using sel by (auto simp: select_process_def serving_def split: list.splits)
    show ?thesis using raw one Some by (auto simp: resolve_setting_def)
  qed
qed

section \<open>Example\<close>

definition local_url :: "string \<Rightarrow> url option" where
  "local_url s = Some \<lparr>url_scheme = ''http'', url_host = Some ''localhost'', url_port = Some 11434\<rparr>"

definition serve_entry :: proc_entry where
  "serve_entry = \<lparr>pe_name = ''7'', pe_cmdline = Some (''/bin/ollama'' @ [CHR 0x00] @ ''serve''),
     pe_environ = Some (''HOME=/root'' @ [CHR 0x00] @ ''OLLAMA_NUM_PARALLEL=4'')\<rparr>"

lemma local_url_loopback: "is_loopback_url local_url endpoint"
proof -
  have "ascii_lower ''localhost'' = ''localhost''" by (simp add: ascii_lower_def)
  then show ?thesis
    by (simp add: is_loopback_url_def local_url_def is_loopback_host_def strip_ipv6_brackets_def Let_def)
qed

lemma trim_plain:
  "str_trim ''4'' = ''4''" "str_trim ''/root'' = ''/root''"
  by (simp_all add: str_trim_def trim_start_def trim_end_def strip_any.simps white_space_def)

lemma serve_environ:
  "parse_proc_environ (''HOME=/root'' @ [CHR 0x00] @ ''OLLAMA_NUM_PARALLEL=4'') = [''OLLAMA_NUM_PARALLEL'' \<mapsto> ''4'']"
  by (simp add: parse_proc_environ_def tracked_only_def is_tracked_def TRACKED_def trim_plain)

lemma serve_candidate: "process_candidate serve_entry = Some (''7'', [''OLLAMA_NUM_PARALLEL'' \<mapsto> ''4''])"
  using serve_environ by (simp add: process_candidate_def serve_entry_def is_ollama_serve_def path_file_name_def digit_value_def)

lemma serve_matches:
  "serving local_url (\<lambda>_. None) [serve_entry] ''e'' = [(''7'', [''OLLAMA_NUM_PARALLEL'' \<mapsto> ''4''])]"
  by (simp add: serving_def serve_candidate matches_endpoint_def local_url_def host_address_def Let_def)

lemma settings_are_attributed_witness:
  "setting_raw (probe local_url (\<lambda>_. None) (Some [serve_entry]) (\<lambda>_. Some ''8'') (\<lambda>_. Some ''9'') ''e'') ''OLLAMA_NUM_PARALLEL'' =
     Some ''4''"
proof -
  have "''OLLAMA_NUM_PARALLEL'' \<in> set TRACKED" by (simp add: TRACKED_def)
  from settings_are_attributed [OF local_url_loopback this, of "\<lambda>_. None" "[serve_entry]" "\<lambda>_. Some ''8''" "\<lambda>_. Some ''9''" "''e''"]
  show ?thesis by (simp add: serve_matches clean_value_def trim_plain)
qed

end
