(* ===== verification/Sampling.thy ===== *)
theory Sampling
  imports Catalog Ollama_Env Resources
begin

text \<open>
  One observation of the host (\<open>platform/resources/sampling.rs\<close> and \<open>platform/device_activity.rs\<close>): the parsers of
  the Linux and macOS reports, the limit of the container, and the bounded command that runs the tools. What the
  files and tools print is an argument.
\<close>

section \<open>Reading text\<close>

lemma strip_any_length: "length (strip_any ws s) \<le> length s"
proof (induction ws s rule: strip_any.induct)
  case (1 ws s)
  show ?case
  proof (cases "List.find (\<lambda>w. w \<noteq> [] \<and> starts_with s w) ws")
    case None
    then show ?thesis by (simp add: strip_any.simps)
  next
    case (Some w)
    then show ?thesis using 1 [OF Some] by (subst strip_any.simps) simp
  qed
qed

lemma strip_any_stops: "List.find (\<lambda>w. w \<noteq> [] \<and> starts_with (strip_any ws s) w) ws = None"
proof (induction ws s rule: strip_any.induct)
  case (1 ws s)
  show ?case
  proof (cases "List.find (\<lambda>w. w \<noteq> [] \<and> starts_with s w) ws")
    case None
    then show ?thesis by (simp add: strip_any.simps)
  next
    case (Some w)
    then have "strip_any ws s = strip_any ws (drop (length w) s)" by (subst strip_any.simps) simp
    then show ?thesis using 1 [OF Some] by simp
  qed
qed

lemma span_word_length: "length (fst (span_word s)) + length (snd (span_word s)) = length s"
  by (induction s) (auto split: prod.split)

lemma next_word_shorter:
  assumes "next_word s = Some (w, rest)"
  shows "length rest < length s"
proof -
  have t: "trim_start s \<noteq> []" "(w, rest) = span_word (trim_start s)"
    using assms by (auto simp: next_word_def Let_def split: if_splits)
  then obtain c cs where c: "trim_start s = c # cs" by (cases "trim_start s") auto
  have "[] \<notin> set white_space" by (simp add: white_space_def)
  then have "\<not> at_white_space (trim_start s)"
    using strip_any_stops [of white_space s]
    by (auto simp: at_white_space_def trim_start_def find_None_iff list_ex_iff)
  then have "w \<noteq> []" using t(2) unfolding c by (auto split: prod.splits)
  moreover have "length w + length rest = length (trim_start s)" using span_word_length t(2) by (metis fst_conv snd_conv)
  moreover have "length (trim_start s) \<le> length s" unfolding trim_start_def by (rule strip_any_length)
  ultimately show ?thesis by (cases w) auto
qed

text \<open>\<open>split_whitespace\<close>.\<close>

function all_words :: "string \<Rightarrow> string list" where
  "all_words s = (case next_word s of None \<Rightarrow> [] | Some (w, rest) \<Rightarrow> w # all_words rest)"
  by pat_completeness auto
termination by (relation "measure length") (auto dest: next_word_shorter)

declare all_words.simps [simp del]

definition first_word :: "string \<Rightarrow> string option" where
  "first_word s = map_option fst (next_word s)"

text \<open>\<open>split_once\<close> with a text, and the last item of a list.\<close>

fun split_text :: "string \<Rightarrow> string \<Rightarrow> (string \<times> string) option" where
  "split_text p [] = (if p = [] then Some ([], []) else None)"
| "split_text p (c # cs) =
     (if starts_with (c # cs) p then Some ([], drop (length p) (c # cs))
      else map_option (\<lambda>(a, b). (c # a, b)) (split_text p cs))"

text \<open>\<open>split(p).nth(1)\<close>: what stands between the first two occurrences.\<close>

definition second_part :: "string \<Rightarrow> string \<Rightarrow> string option" where
  "second_part p s =
     map_option (\<lambda>(a, b). case split_text p b of None \<Rightarrow> b | Some (x, y) \<Rightarrow> x) (split_text p s)"

definition parse_u32 :: "string \<Rightarrow> nat option" where "parse_u32 = parse_unsigned u32_max"

definition find_map :: "('a \<Rightarrow> 'b option) \<Rightarrow> 'a list \<Rightarrow> 'b option" where
  "find_map f xs = (case List.map_filter f xs of [] \<Rightarrow> None | y # ys \<Rightarrow> Some y)"

definition zip_option :: "'a option \<Rightarrow> 'b option \<Rightarrow> ('a \<times> 'b) option" where
  "zip_option a b = Option.bind a (\<lambda>x. map_option (Pair x) b)"

definition option_filter :: "('a \<Rightarrow> bool) \<Rightarrow> 'a option \<Rightarrow> 'a option" where
  "option_filter p a = (case a of Some x \<Rightarrow> if p x then Some x else None | None \<Rightarrow> None)"

text \<open>The numbers after a colon; of several lines with one key the last one counts.\<close>

definition colon_number :: "string \<Rightarrow> (string \<times> nat) option" where
  "colon_number line =
     Option.bind (split_once (CHR '':'') line) (\<lambda>(key, v).
       Option.bind (first_word v) (\<lambda>w.
         map_option (Pair (str_trim key)) (parse_u64 (rev (dropWhile (\<lambda>c. c = CHR ''.'') (rev w))))))"

definition colon_numbers :: "string \<Rightarrow> string \<Rightarrow> nat option" where
  "colon_numbers s = map_of (rev (List.map_filter colon_number (text_lines s)))"

section \<open>The observation\<close>

record gpu_device =
  gd_device :: string
  gd_busy :: "f64 option"
  gd_memory_busy :: "f64 option"
  gd_allocated :: "nat option"

record gpu_activity =
  ga_source :: string
  ga_devices :: "gpu_device list"

record host_sample =
  hs_source :: string
  hs_total :: "nat option"
  hs_available :: "nat option"
  hs_kind :: string
  hs_free :: "nat option"
  hs_reclaimable :: "nat option"
  hs_occupied :: "nat option"
  hs_compressor :: "nat option"
  hs_swap_used :: "nat option"
  hs_swap_out :: "nat option"
  hs_pressure :: "memory_pressure option"
  hs_load :: "f64 option"
  hs_cpus :: "nat option"
  hs_throttled :: "bool option"
  hs_thermal :: "string option"
  hs_speed_limit :: "nat option"
  hs_warning :: "nat option"
  hs_cgroup_limit :: "nat option"
  hs_psi :: "f64 option"
  hs_gpu_total :: "nat option"
  hs_gpu_free :: "nat option"
  hs_gpu_source :: "string option"
  hs_activity :: "gpu_activity option"
  hs_unavailable :: "string list"

definition host_sample_default :: host_sample where
  "host_sample_default = \<lparr>hs_source = [], hs_total = None, hs_available = None, hs_kind = [], hs_free = None,
     hs_reclaimable = None, hs_occupied = None, hs_compressor = None, hs_swap_used = None, hs_swap_out = None,
     hs_pressure = None, hs_load = None, hs_cpus = None, hs_throttled = None, hs_thermal = None,
     hs_speed_limit = None, hs_warning = None, hs_cgroup_limit = None, hs_psi = None, hs_gpu_total = None,
     hs_gpu_free = None, hs_gpu_source = None, hs_activity = None, hs_unavailable = []\<rparr>"

text \<open>The fields that the assessment of a demand reads.\<close>

definition host_of :: "host_sample \<Rightarrow> host" where
  "host_of o1 = \<lparr>ho_source = hs_source o1, ho_total = hs_total o1, ho_available = hs_available o1,
     ho_swap_out = hs_swap_out o1, ho_pressure = hs_pressure o1, ho_load = hs_load o1, ho_cpus = hs_cpus o1,
     ho_throttled = hs_throttled o1, ho_gpu_total = hs_gpu_total o1,
     ho_gpu_devices = map_option (\<lambda>a. map gd_device (ga_devices a)) (hs_activity o1)\<rparr>"

section \<open>Device activity\<close>

definition percentage :: "string \<Rightarrow> f64 option" where
  "percentage s = option_filter (\<lambda>x. is_finite x \<and> f_le f_zero x \<and> f_le x (f_of_nat 100)) (parse_f64 (str_trim s))"

definition activity_observation :: "string \<Rightarrow> gpu_device list \<Rightarrow> gpu_activity option" where
  "activity_observation source devices =
     (if devices = [] then None else Some \<lparr>ga_source = source, ga_devices = devices\<rparr>)"

definition nvidia_device :: "string \<Rightarrow> gpu_device option" where
  "nvidia_device line =
     (case map str_trim (split_at (CHR '','') line) of
        [_, _, busy, memory, uuid] \<Rightarrow>
          (case strip_prefix ''GPU-'' uuid of
             None \<Rightarrow> None
           | Some rest \<Rightarrow>
               if rest = [] then None
               else Some \<lparr>gd_device = uuid, gd_busy = percentage busy, gd_memory_busy = percentage memory,
                          gd_allocated = None\<rparr>)
      | _ \<Rightarrow> None)"

definition parse_nvidia_activity :: "string \<Rightarrow> gpu_activity option" where
  "parse_nvidia_activity s = activity_observation ''nvidia_smi'' (List.map_filter nvidia_device (text_lines s))"

end
