(* ===== verification/Sampling_Host.thy ===== *)
theory Sampling_Host
  imports Sampling
begin

text \<open>
  The samplers of Linux and of macOS (\<open>platform/resources/sampling.rs\<close>), the accelerators of macOS
  (\<open>platform/device_activity.rs\<close>), and the bounded command.
\<close>

section \<open>Linux\<close>

definition checked_sub :: "nat \<Rightarrow> nat \<Rightarrow> nat option" where
  "checked_sub a b = (if b \<le> a then Some (a - b) else None)"

definition non_negative :: "f64 \<Rightarrow> bool" where
  "non_negative x \<longleftrightarrow> is_finite x \<and> f_le f_zero x"

definition swap_out_line :: "string \<Rightarrow> nat option" where
  "swap_out_line line =
     Option.bind (next_word line) (\<lambda>(name, rest).
       if name = ''pswpout'' then Option.bind (first_word rest) parse_u64 else None)"

definition meminfo_bytes :: "string \<Rightarrow> string \<Rightarrow> nat option" where
  "meminfo_bytes meminfo name = Option.bind (colon_numbers meminfo name) (\<lambda>v. checked_mul v 1024)"

definition parse_linux :: "string \<Rightarrow> string \<Rightarrow> string \<Rightarrow> nat option \<Rightarrow> host_sample" where
  "parse_linux meminfo loadavg vmstat cpus =
     (let bytes = meminfo_bytes meminfo;
          all = bytes ''MemTotal'';
          avail = option_filter (\<lambda>v. case all of None \<Rightarrow> True | Some t \<Rightarrow> v \<le> t) (bytes ''MemAvailable'');
          unused = bytes ''MemFree''
      in host_sample_default\<lparr>hs_source := ''linux_proc'', hs_total := all, hs_available := avail,
           hs_kind := ''kernel_mem_available_estimate'', hs_free := unused,
           hs_reclaimable := map_option (\<lambda>(a, f). a - f) (zip_option avail unused),
           hs_occupied := map_option (\<lambda>(t, a). t - a) (zip_option all avail),
           hs_compressor := bytes ''Zswap'',
           hs_swap_used := Option.bind (zip_option (bytes ''SwapTotal'') (bytes ''SwapFree'')) (\<lambda>(t, f). checked_sub t f),
           hs_swap_out := find_map swap_out_line (text_lines vmstat),
           hs_load := option_filter non_negative (Option.bind (first_word loadavg) parse_f64),
           hs_cpus := option_filter (\<lambda>n. 0 < n) cpus, hs_unavailable := [''thermal_pressure'']\<rparr>)"

definition apply_cgroup_limit :: "string \<Rightarrow> string \<Rightarrow> host_sample \<Rightarrow> host_sample" where
  "apply_cgroup_limit limit_text current_text o1 =
     (case (parse_u64 (str_trim limit_text), parse_u64 (str_trim current_text)) of
        (Some limit, Some used) \<Rightarrow>
          (if (case hs_total o1 of None \<Rightarrow> False | Some t \<Rightarrow> t \<le> limit) then o1
           else o1\<lparr>hs_cgroup_limit := Some limit,
                   hs_total := Some (case hs_total o1 of None \<Rightarrow> limit | Some t \<Rightarrow> min t limit),
                   hs_available := Some (case hs_available o1 of None \<Rightarrow> limit - used | Some a \<Rightarrow> min a (limit - used)),
                   hs_kind := ''cgroup_v2_limit_minus_usage''\<rparr>)
      | _ \<Rightarrow> o1)"

definition psi_avg10 :: "string \<Rightarrow> string \<Rightarrow> f64 option" where
  "psi_avg10 s kind =
     Option.bind (find (\<lambda>line. starts_with line kind) (text_lines s)) (\<lambda>line.
       Option.bind (find_map (strip_prefix ''avg10='') (all_words line)) (\<lambda>v.
         option_filter non_negative (parse_f64 v)))"

definition parse_memory_psi :: "string \<Rightarrow> (f64 \<times> memory_pressure) option" where
  "parse_memory_psi s =
     Option.bind (psi_avg10 s ''some'') (\<lambda>some_avg.
       let full = (case psi_avg10 s ''full'' of None \<Rightarrow> f_zero | Some x \<Rightarrow> x)
       in Some (some_avg,
                if f_le (f_of_nat 10) full then PressureCritical
                else if f_le (f_of_nat 10) some_avg \<or> f_le (f_of_nat 2) full then PressureWarning
                else PressureNormal))"

text \<open>The memory of all devices; a line that is not readable rejects the whole answer.\<close>

definition MIB :: nat where "MIB = 1024 * 1024"

definition nvidia_memory_line :: "string \<Rightarrow> (nat \<times> nat) option" where
  "nvidia_memory_line line =
     (case map (\<lambda>v. parse_u64 (str_trim v)) (split_at (CHR '','') line) of
        Some t # Some u # _ \<Rightarrow> Some (t, u)
      | _ \<Rightarrow> None)"

fun nvidia_sum :: "string list \<Rightarrow> nat \<Rightarrow> nat \<Rightarrow> (nat \<times> nat) option" where
  "nvidia_sum [] t u = Some (t, u)"
| "nvidia_sum (line # ls) t u =
     Option.bind (nvidia_memory_line line) (\<lambda>(dt, du).
     Option.bind (checked_mul dt MIB) (\<lambda>bt.
     Option.bind (checked_add u64_max t bt) (\<lambda>t'.
     Option.bind (checked_mul du MIB) (\<lambda>bu.
     Option.bind (checked_add u64_max u bu) (\<lambda>u'. nvidia_sum ls t' u')))))"

definition parse_nvidia_smi :: "string \<Rightarrow> (nat \<times> nat) option" where
  "parse_nvidia_smi s =
     (let ls = filter (\<lambda>line. str_trim line \<noteq> []) (text_lines s)
      in Option.bind (nvidia_sum ls 0 0) (\<lambda>(t, u). if ls = [] then None else Some (t, t - u)))"

text \<open>\<open>read\<close> gives the text of a file, \<open>nvidia\<close> what the tool printed.\<close>

definition card_file :: "nat \<Rightarrow> string \<Rightarrow> string" where
  "card_file k name = ''/sys/class/drm/card'' @ show_nat k @ ''/device/'' @ name"

definition card_memory :: "(string \<Rightarrow> string option) \<Rightarrow> nat \<Rightarrow> (nat \<times> nat) option" where
  "card_memory read k =
     zip_option (Option.bind (read (card_file k ''mem_info_vram_total'')) (\<lambda>v. parse_u64 (str_trim v)))
                (Option.bind (read (card_file k ''mem_info_vram_used'')) (\<lambda>v. parse_u64 (str_trim v)))"

definition sample_gpu_linux :: "string option \<Rightarrow> (string \<Rightarrow> string option) \<Rightarrow> host_sample \<Rightarrow> host_sample" where
  "sample_gpu_linux nvidia read o1 =
     (let o2 = o1\<lparr>hs_activity := Option.bind nvidia parse_nvidia_activity\<rparr>
      in case Option.bind nvidia parse_nvidia_smi of
           Some (t, f) \<Rightarrow> o2\<lparr>hs_gpu_total := Some t, hs_gpu_free := Some f, hs_gpu_source := Some ''nvidia_smi''\<rparr>
         | None \<Rightarrow>
             (case foldl (\<lambda>(t, u) (ct, cu). (sat_add u64_max t ct, sat_add u64_max u cu)) (0, 0)
                     (List.map_filter (card_memory read) [0..<8]) of
                (t, u) \<Rightarrow>
                  if 0 < t then o2\<lparr>hs_gpu_total := Some t, hs_gpu_free := Some (t - u),
                                  hs_gpu_source := Some ''amdgpu_sysfs''\<rparr>
                  else o2))"

definition text_or_empty :: "string option \<Rightarrow> string" where
  "text_or_empty v = (case v of None \<Rightarrow> [] | Some s \<Rightarrow> s)"

definition cgroup_path :: "string \<Rightarrow> string option" where
  "cgroup_path s = map_option str_trim (find_map (strip_prefix ''0::'') (text_lines s))"

definition with_cgroup :: "(string \<Rightarrow> string option) \<Rightarrow> host_sample \<Rightarrow> host_sample" where
  "with_cgroup read o1 =
     (case Option.bind (read ''/proc/self/cgroup'') cgroup_path of
        None \<Rightarrow> o1
      | Some path \<Rightarrow>
          (let base = ''/sys/fs/cgroup'' @ (if path = ''/'' then [] else path)
           in case (read (base @ ''/memory.max''), read (base @ ''/memory.current'')) of
                (Some m, Some c) \<Rightarrow> apply_cgroup_limit m c o1
              | _ \<Rightarrow> o1))"

definition note_unavailable :: "string \<Rightarrow> host_sample \<Rightarrow> host_sample" where
  "note_unavailable name o1 = o1\<lparr>hs_unavailable := hs_unavailable o1 @ [name]\<rparr>"

definition with_psi :: "(string \<Rightarrow> string option) \<Rightarrow> host_sample \<Rightarrow> host_sample" where
  "with_psi read o1 =
     (case Option.bind (read ''/proc/pressure/memory'') parse_memory_psi of
        Some (some_avg, level) \<Rightarrow> o1\<lparr>hs_psi := Some some_avg, hs_pressure := Some level\<rparr>
      | None \<Rightarrow> note_unavailable ''os_memory_pressure_level'' o1)"

definition sample_linux :: "string option \<Rightarrow> (string \<Rightarrow> string option) \<Rightarrow> nat option \<Rightarrow> host_sample" where
  "sample_linux nvidia read cpus =
     (let o1 = parse_linux (text_or_empty (read ''/proc/meminfo'')) (text_or_empty (read ''/proc/loadavg''))
                 (text_or_empty (read ''/proc/vmstat'')) cpus;
          o2 = sample_gpu_linux nvidia read (with_psi read (with_cgroup read o1))
      in if hs_available o2 = None then note_unavailable ''MemAvailable'' o2 else o2)"

section \<open>macOS\<close>

definition key_values :: "char \<Rightarrow> string \<Rightarrow> (string \<times> string) list" where
  "key_values c s = map (\<lambda>(k, v). (str_trim k, str_trim v)) (List.map_filter (split_once c) (text_lines s))"

fun parse_memory_size :: "string \<Rightarrow> nat option" where
  "parse_memory_size s =
     (if s = [] then None
      else let (num, mult) = (if last s = CHR ''K'' then (butlast s, 1024) else if last s = CHR ''M'' then (butlast s, 1024 ^ 2)
                              else if last s = CHR ''G'' then (butlast s, 1024 ^ 3) else (s, 1));
               (whole, fraction) = (case split_once (CHR ''.'') num of None \<Rightarrow> (num, []) | Some p \<Rightarrow> p)
           in Option.bind (Option.bind (parse_u64 whole) (\<lambda>w. checked_mul w mult)) (\<lambda>w.
              Option.bind
                (if fraction = [] then Some 0
                 else Option.bind (Option.bind (parse_u64 fraction) (\<lambda>f. checked_mul f mult)) (\<lambda>f.
                   if length fraction \<le> u32_max \<and> 10 ^ length fraction \<le> u64_max then Some (f div 10 ^ length fraction) else None))
                (checked_add u64_max w)))"

declare parse_memory_size.simps [simp del]

definition pressure_level :: "string \<Rightarrow> memory_pressure option" where
  "pressure_level v = map_of [(''1'', PressureNormal), (''2'', PressureWarning), (''4'', PressureCritical)] v"

definition speed_limit_of :: "string \<Rightarrow> nat option" where
  "speed_limit_of thermal = option_filter (\<lambda>n. n \<le> 100)
     (find_map (\<lambda>(k, v). if k = ''CPU_Speed_Limit'' then parse_u32 v else None) (key_values (CHR ''='') thermal))"

definition thermal_warning_of :: "string \<Rightarrow> nat option" where
  "thermal_warning_of thermal =
     find_map (\<lambda>(k, v). if has_suffix k ''Thermal Warning Level'' then parse_u32 v else None) (key_values (CHR ''='') thermal)"

definition page_size_of :: "string \<Rightarrow> nat option" where
  "page_size_of vmstat =
     option_filter (\<lambda>n. 0 < n) (Option.bind (Option.bind (second_part ''page size of '' vmstat) first_word) parse_u64)"

definition vm_bytes :: "string \<Rightarrow> string \<Rightarrow> nat option" where
  "vm_bytes vmstat name =
     Option.bind (zip_option (colon_numbers vmstat name) (page_size_of vmstat)) (\<lambda>(pages, sz). checked_mul pages sz)"

definition reclaimable_of :: "string \<Rightarrow> nat option" where
  "reclaimable_of vmstat =
     (let bytes = vm_bytes vmstat;
          pages = Option.bind (zip_option (bytes ''Pages inactive'') (bytes ''Pages speculative'')) (\<lambda>(a, b). checked_add u64_max a b);
          from_file = map_option (\<lambda>(p, f). min p f) (zip_option pages (bytes ''File-backed pages''))
      in map_option (\<lambda>(f, p). max f p) (zip_option from_file (bytes ''Pages purgeable'')))"

definition parse_macos :: "string \<Rightarrow> string \<Rightarrow> string \<Rightarrow> host_sample" where
  "parse_macos vmstat sysctl thermal =
     (let sys = map_of (rev (key_values (CHR '':'') sysctl));
          all = option_filter (\<lambda>n. 0 < n) (Option.bind (sys ''hw.memsize'') parse_u64);
          unused = vm_bytes vmstat ''Pages free'';
          reclaimable = reclaimable_of vmstat;
          avail = map_option (\<lambda>a. case all of None \<Rightarrow> a | Some t \<Rightarrow> min a t)
                    (Option.bind (zip_option unused reclaimable) (\<lambda>(f, r). checked_add u64_max f r));
          speed = speed_limit_of thermal;
          warning = thermal_warning_of thermal
      in host_sample_default\<lparr>hs_source := ''macos_vm_stat_sysctl_pmset'', hs_total := all, hs_available := avail,
           hs_kind := ''free_plus_bounded_reclaimable_estimate'', hs_free := unused, hs_reclaimable := reclaimable,
           hs_occupied := map_option (\<lambda>(t, a). t - a) (zip_option all avail),
           hs_compressor := vm_bytes vmstat ''Pages occupied by compressor'',
           hs_swap_used := Option.bind (Option.bind (Option.bind (sys ''vm.swapusage'') (second_part ''used =''))
             first_word) parse_memory_size,
           hs_swap_out := colon_numbers vmstat ''Swapouts'',
           hs_pressure := Option.bind (sys ''kern.memorystatus_vm_pressure_level'') pressure_level,
           hs_load := option_filter non_negative
             (Option.bind (Option.bind (sys ''vm.loadavg'') (\<lambda>v. first_word (dropWhile (\<lambda>c. c = CHR ''{'') v))) parse_f64),
           hs_cpus := option_filter (\<lambda>n. 0 < n) (Option.bind (sys ''hw.logicalcpu'') parse_u32),
           hs_throttled := (if (case warning of None \<Rightarrow> False | Some n \<Rightarrow> 0 < n) then Some True
                            else case speed of Some limit \<Rightarrow> Some (limit < 100) | None \<Rightarrow> map_option (\<lambda>_. False) warning),
           hs_speed_limit := speed, hs_warning := warning\<rparr>)"

definition thermal_names :: "string list" where
  "thermal_names = [''nominal'', ''moderate'', ''heavy'', ''trapping'', ''sleeping'']"

definition apply_thermal_pressure :: "string \<Rightarrow> host_sample \<Rightarrow> host_sample" where
  "apply_thermal_pressure notify o1 =
     (case Option.bind (if all_words notify = [] then None else Some (last (all_words notify))) parse_u32 of
        None \<Rightarrow> o1
      | Some level \<Rightarrow>
          if level < 5
          then o1\<lparr>hs_thermal := Some (thermal_names ! level),
                  hs_throttled := Some (hs_throttled o1 = Some True \<or> 2 \<le> level)\<rparr>
          else o1)"

end
