(* ===== verification/Sampling_Run.thy ===== *)
theory Sampling_Run
  imports Sampling_Host Governor_Run Telemetry
begin

text \<open>
  The rest of the sampler: the accelerators of macOS, its sample, the choice by platform and the bounded command.
  Then what every sample satisfies, and how the limit of a container bounds the loads that are admitted.
\<close>

section \<open>The accelerators of macOS\<close>

definition in_quotes :: "string \<Rightarrow> string" where
  "in_quotes s = CHR 0x22 # s @ [CHR 0x22]"

definition strip_suffix :: "string \<Rightarrow> string \<Rightarrow> string option" where
  "strip_suffix p s = map_option rev (strip_prefix (rev p) (rev s))"

definition registry_identity :: "string \<Rightarrow> string option" where
  "registry_identity header =
     Option.bind (split_text ''<class '' header) (\<lambda>(_, rest).
     Option.bind (split_once (CHR '','') rest) (\<lambda>(cls, rest).
       if \<not> starts_with cls ''AGXAccelerator'' then None
       else Option.bind (strip_prefix ''id '' (trim_start rest)) (\<lambda>v.
         let ident = str_trim (hd (split_at (CHR '','') v))
         in if ident = [] then None else Some (cls @ ''@'' @ ident))))"

definition statistics_of :: "string \<Rightarrow> string option" where
  "statistics_of line =
     Option.bind (strip_prefix (in_quotes ''PerformanceStatistics'')
       (dropWhile (\<lambda>c. c \<in> {CHR '' '', CHR 0x09, CHR ''|''}) line)) (\<lambda>rest.
     Option.bind (strip_prefix ''='' (trim_start rest)) (\<lambda>rest.
     Option.bind (strip_prefix ''{'' (str_trim rest)) (strip_suffix ''}'')))"

definition statistic :: "string \<Rightarrow> string \<Rightarrow> string option" where
  "statistic dictionary name =
     find_map (\<lambda>part. Option.bind (split_once (CHR ''='') part) (\<lambda>(k, v). if str_trim k = name then Some (str_trim v) else None))
       (split_at (CHR '','') dictionary)"

definition apple_device :: "string \<Rightarrow> string \<Rightarrow> gpu_device option" where
  "apple_device ident dictionary =
     map_option
       (\<lambda>busy. \<lparr>gd_device = ident, gd_busy = Some busy, gd_memory_busy = None,
          gd_allocated = Option.bind (statistic dictionary (in_quotes ''Alloc system memory'')) parse_u64\<rparr>)
       (Option.bind (statistic dictionary (in_quotes ''Device Utilization %'')) percentage)"

text \<open>The state of the loop over the lines: the accelerator whose node is open, and the devices so far.\<close>

definition apple_step :: "string option \<times> gpu_device list \<Rightarrow> string \<Rightarrow> string option \<times> gpu_device list" where
  "apple_step st line =
     (case split_text ''+-o '' line of
        Some (_, header) \<Rightarrow> (registry_identity header, snd st)
      | None \<Rightarrow>
          (case fst st of
             None \<Rightarrow> st
           | Some ident \<Rightarrow>
               (case Option.bind (statistics_of line) (apple_device ident) of
                  None \<Rightarrow> st
                | Some d \<Rightarrow> (fst st, snd st @ [d]))))"

definition parse_apple_activity :: "string \<Rightarrow> gpu_activity option" where
  "parse_apple_activity s =
     activity_observation ''apple_ioreg_performance_statistics'' (snd (foldl apple_step (None, []) (text_lines s)))"

section \<open>The samplers\<close>

definition sample_macos ::
  "string option \<Rightarrow> string option \<Rightarrow> string option \<Rightarrow> string option \<Rightarrow> string option \<Rightarrow> host_sample" where
  "sample_macos vm sys therm pressure ioreg =
     (let o1 = apply_thermal_pressure (text_or_empty pressure)
                 (parse_macos (text_or_empty vm) (text_or_empty sys) (text_or_empty therm));
          o2 = o1\<lparr>hs_activity := Option.bind ioreg parse_apple_activity\<rparr>
      in o2\<lparr>hs_unavailable := hs_unavailable o2 @ map fst (filter snd
           [(''vm_stat'', vm = None), (''sysctl'', sys = None), (''pmset'', therm = None),
            (''thermal_pressure'', hs_throttled o2 = None), (''available_memory'', hs_available o2 = None)])\<rparr>)"

datatype platform_input =
    MacTools "string option" "string option" "string option" "string option" "string option"
  | LinuxFiles "string option" "string \<Rightarrow> string option" "nat option"
  | OtherPlatform

fun sample_host_resources :: "platform_input \<Rightarrow> host_sample" where
  "sample_host_resources (MacTools vm sys therm pressure ioreg) = sample_macos vm sys therm pressure ioreg"
| "sample_host_resources (LinuxFiles nvidia read cpus) = sample_linux nvidia read cpus"
| "sample_host_resources OtherPlatform =
     host_sample_default\<lparr>hs_source := ''unsupported_platform'', hs_unavailable := [''host_resource_telemetry'']\<rparr>"

section \<open>The bounded command\<close>

text \<open>What each look at the child gives; a child that has not ended is killed and reaped.\<close>

datatype poll = PollRunning | PollExited bool | PollFailed
datatype command_error = CannotSpawn | WaitFailed | CommandTimedOut

fun wait_child :: "instant \<Rightarrow> (instant \<times> poll) list \<Rightarrow> (command_error + bool) option" where
  "wait_child deadline [] = None"
| "wait_child deadline ((now, p) # ps) =
     (case p of
        PollExited ok \<Rightarrow> Some (Inr ok)
      | PollRunning \<Rightarrow> if now < deadline then wait_child deadline ps else Some (Inl CommandTimedOut)
      | PollFailed \<Rightarrow> Some (Inl WaitFailed))"

text \<open>The reader keeps what fits under the cap and drains the rest.\<close>

definition capped_read :: "nat \<Rightarrow> string list \<Rightarrow> string" where
  "capped_read cap chunks = foldl (\<lambda>kept chunk. kept @ take (cap - length kept) chunk) [] chunks"

definition TELEMETRY_OUTPUT_CAP :: nat where "TELEMETRY_OUTPUT_CAP = 64 * 1024"

definition bounded_output :: "instant \<Rightarrow> (instant \<times> poll) list option \<Rightarrow> string list \<Rightarrow> (bool \<times> string) option option" where
  "bounded_output deadline looks chunks =
     (case looks of
        None \<Rightarrow> Some None
      | Some ps \<Rightarrow>
          (case wait_child deadline ps of
             None \<Rightarrow> None
           | Some (Inl e) \<Rightarrow> Some None
           | Some (Inr ok) \<Rightarrow>
               (let out = capped_read TELEMETRY_OUTPUT_CAP chunks
                in Some (if utf8_ok out then Some (ok, out) else None))))"

definition bounded_command_with :: "instant \<Rightarrow> (instant \<times> poll) list option \<Rightarrow> string list \<Rightarrow> string option option" where
  "bounded_command_with deadline looks chunks =
     map_option (\<lambda>r. Option.bind r (\<lambda>(ok, out). if str_trim out = [] then None else Some out))
       (bounded_output deadline looks chunks)"

lemma capped_read_from:
  "length kept \<le> cap \<Longrightarrow>
   foldl (\<lambda>kept chunk. kept @ take (cap - length kept) chunk) kept chunks = take cap (kept @ concat chunks)"
proof (induction chunks arbitrary: kept)
  case (Cons chunk chunks)
  have "length (kept @ take (cap - length kept) chunk) \<le> cap" using Cons.prems by simp
  from Cons.IH [OF this] show ?case
    using Cons.prems by (cases "length chunk \<le> cap - length kept") (auto simp: take_append min_def)
qed simp

lemma capped_read_take: "capped_read cap chunks = take cap (concat chunks)"
  using capped_read_from [of "[]" cap chunks] by (simp add: capped_read_def)

text \<open>One look at or after the deadline is the last one.\<close>

lemma wait_child_ends: "\<exists>(now, p) \<in> set ps. deadline \<le> now \<Longrightarrow> wait_child deadline ps \<noteq> None"
  by (induction deadline ps rule: wait_child.induct) (auto split: poll.splits)

section \<open>What every sample satisfies\<close>

definition option_holds :: "('a \<Rightarrow> bool) \<Rightarrow> 'a option \<Rightarrow> bool" where
  "option_holds p v = (case v of None \<Rightarrow> True | Some x \<Rightarrow> p x)"

definition memory_ok :: "nat option \<Rightarrow> nat option \<Rightarrow> bool" where
  "memory_ok all part = (case (all, part) of (Some t, Some a) \<Rightarrow> a \<le> t | _ \<Rightarrow> True)"

definition percent_ok :: "f64 option \<Rightarrow> bool" where
  "percent_ok = option_holds (\<lambda>x. is_finite x \<and> f_le f_zero x \<and> f_le x (f_of_nat 100))"

definition device_ok :: "gpu_device \<Rightarrow> bool" where
  "device_ok d \<longleftrightarrow> percent_ok (gd_busy d) \<and> percent_ok (gd_memory_busy d)"

definition activity_ok :: "gpu_activity option \<Rightarrow> bool" where
  "activity_ok = option_holds (\<lambda>a. ga_devices a \<noteq> [] \<and> list_all device_ok (ga_devices a))"

definition sample_ok :: "host_sample \<Rightarrow> bool" where
  "sample_ok o1 \<longleftrightarrow> memory_ok (hs_total o1) (hs_available o1) \<and> memory_ok (hs_gpu_total o1) (hs_gpu_free o1) \<and>
     option_holds non_negative (hs_load o1) \<and> option_holds non_negative (hs_psi o1) \<and>
     option_holds (\<lambda>n. 0 < n) (hs_cpus o1) \<and> option_holds (\<lambda>n. n \<le> 100) (hs_speed_limit o1) \<and>
     activity_ok (hs_activity o1)"

lemma option_holds_filter [simp]: "option_holds p (option_filter p v)"
  by (auto simp: option_holds_def option_filter_def split: option.splits)

lemma option_holds_simps [simp]: "option_holds p None" "option_holds p (Some x) = p x"
  by (simp_all add: option_holds_def)

lemma memory_ok_None [simp]: "memory_ok None v" "memory_ok v None" "memory_ok (Some t) (Some a) \<longleftrightarrow> a \<le> t"
  by (auto simp: memory_ok_def split: option.splits)

lemma percentage_ok [simp]: "percent_ok (percentage s)"
  by (auto simp: percent_ok_def percentage_def option_holds_def option_filter_def split: option.splits)

lemma activity_observation_ok: "list_all device_ok ds \<Longrightarrow> activity_ok (activity_observation source ds)"
  by (simp add: activity_ok_def activity_observation_def)

lemma nvidia_device_ok: "nvidia_device line = Some d \<Longrightarrow> device_ok d"
  by (auto simp: nvidia_device_def device_ok_def split: list.splits option.splits if_splits)

lemma parse_nvidia_activity_ok: "activity_ok (parse_nvidia_activity s)"
  unfolding parse_nvidia_activity_def
  by (rule activity_observation_ok) (auto simp: list_all_iff List.map_filter_def nvidia_device_ok)

lemma apple_device_ok: "apple_device ident dictionary = Some d \<Longrightarrow> device_ok d"
proof -
  assume "apple_device ident dictionary = Some d"
  then obtain v busy where "percentage v = Some busy" "gd_busy d = Some busy" "gd_memory_busy d = None"
    unfolding apple_device_def by (auto simp: map_option_eq_Some bind_eq_Some_conv)
  then show ?thesis using percentage_ok [of v] by (simp add: device_ok_def percent_ok_def)
qed

lemma apple_step_ok: "list_all device_ok (snd st) \<Longrightarrow> list_all device_ok (snd (apple_step st line))"
  by (auto simp: apple_step_def bind_eq_Some_conv dest: apple_device_ok split: option.splits)

lemma apple_steps_ok: "list_all device_ok (snd st) \<Longrightarrow> list_all device_ok (snd (foldl apple_step st ls))"
  by (induction ls arbitrary: st) (simp_all add: apple_step_ok)

lemma parse_apple_activity_ok: "activity_ok (parse_apple_activity s)"
  unfolding parse_apple_activity_def by (rule activity_observation_ok, rule apple_steps_ok) simp

lemma bind_activity_ok [simp]:
  "activity_ok (Option.bind v parse_nvidia_activity)" "activity_ok (Option.bind v parse_apple_activity)"
  using parse_nvidia_activity_ok parse_apple_activity_ok by (cases v; simp add: activity_ok_def)+

lemma activity_ok_None [simp]: "activity_ok None" by (simp add: activity_ok_def)

lemma psi_avg10_ok: "option_holds non_negative (psi_avg10 s kind)"
  by (auto simp: psi_avg10_def option_holds_def bind_eq_Some_conv option_filter_def split: option.splits if_splits)

lemma parse_memory_psi_ok: "parse_memory_psi s = Some (x, level) \<Longrightarrow> non_negative x"
  using psi_avg10_ok [of s "''some''"] by (auto simp: parse_memory_psi_def bind_eq_Some_conv Let_def)

lemma parse_linux_ok: "sample_ok (parse_linux meminfo loadavg vmstat cpus)"
  by (simp add: sample_ok_def parse_linux_def host_sample_default_def Let_def)
    (simp add: memory_ok_def option_filter_def split: option.split)

lemma apply_cgroup_limit_ok: "sample_ok o1 \<Longrightarrow> sample_ok (apply_cgroup_limit m c o1)"
  by (auto simp: sample_ok_def apply_cgroup_limit_def memory_ok_def split: option.splits)

lemma with_cgroup_ok: "sample_ok o1 \<Longrightarrow> sample_ok (with_cgroup read o1)"
  by (auto simp: with_cgroup_def Let_def apply_cgroup_limit_ok split: option.splits)

lemma with_psi_ok: "sample_ok o1 \<Longrightarrow> sample_ok (with_psi read o1)"
  by (auto simp: with_psi_def note_unavailable_def sample_ok_def bind_eq_Some_conv dest: parse_memory_psi_ok split: option.splits)

lemma parse_nvidia_smi_ok: "parse_nvidia_smi s = Some (t, f) \<Longrightarrow> f \<le> t"
  by (auto simp: parse_nvidia_smi_def Let_def bind_eq_Some_conv split: if_splits)

lemma sample_gpu_linux_ok: "sample_ok o1 \<Longrightarrow> sample_ok (sample_gpu_linux nvidia read o1)"
  by (auto simp: sample_gpu_linux_def Let_def sample_ok_def bind_eq_Some_conv dest: parse_nvidia_smi_ok
      split: option.splits prod.splits)

lemma note_unavailable_ok [simp]: "sample_ok (note_unavailable name o1) = sample_ok o1"
  by (simp add: note_unavailable_def sample_ok_def)

lemma sample_linux_ok: "sample_ok (sample_linux nvidia read cpus)"
  by (simp add: sample_linux_def Let_def sample_gpu_linux_ok with_psi_ok with_cgroup_ok parse_linux_ok)

lemma parse_macos_ok: "sample_ok (parse_macos vm sys therm)"
  by (simp add: sample_ok_def parse_macos_def host_sample_default_def Let_def speed_limit_of_def)
    (simp add: memory_ok_def option_filter_def split: option.split)

lemma apply_thermal_pressure_ok: "sample_ok o1 \<Longrightarrow> sample_ok (apply_thermal_pressure notify o1)"
  by (auto simp: apply_thermal_pressure_def sample_ok_def split: option.splits)

lemma sample_macos_ok: "sample_ok (sample_macos vm sys therm pressure ioreg)"
  using apply_thermal_pressure_ok [OF parse_macos_ok]
  by (simp add: sample_macos_def Let_def sample_ok_def)

text \<open>
  C35: Whatever the tools and files of the host print, an observation is plausible or silent. The available memory
  is within the total, the free memory of the accelerators within theirs, loads and stall averages are finite
  and not negative, the number of processors is positive, a speed limit is at most 100, and every device that
  is listed has percentages between 0 and 100 or none.
\<close>

theorem samples_are_plausible: "sample_ok (sample_host_resources input)"
proof (cases input)
  case OtherPlatform
  then show ?thesis by (simp add: sample_ok_def host_sample_default_def)
qed (simp_all add: sample_linux_ok sample_macos_ok)

section \<open>The limit of a container\<close>

lemma sample_gpu_linux_memory:
  "hs_available (sample_gpu_linux nvidia read o1) = hs_available o1" "hs_total (sample_gpu_linux nvidia read o1) = hs_total o1"
  by (auto simp: sample_gpu_linux_def Let_def split: option.splits prod.splits)

lemma with_psi_memory:
  "hs_available (with_psi read o1) = hs_available o1" "hs_total (with_psi read o1) = hs_total o1"
  by (auto simp: with_psi_def note_unavailable_def split: option.splits)

lemma sample_linux_memory:
  "hs_available (sample_linux nvidia read cpus) = hs_available (with_cgroup read
     (parse_linux (text_or_empty (read ''/proc/meminfo'')) (text_or_empty (read ''/proc/loadavg''))
        (text_or_empty (read ''/proc/vmstat'')) cpus))"
  "hs_total (sample_linux nvidia read cpus) = hs_total (with_cgroup read
     (parse_linux (text_or_empty (read ''/proc/meminfo'')) (text_or_empty (read ''/proc/loadavg''))
        (text_or_empty (read ''/proc/vmstat'')) cpus))"
  by (simp_all add: sample_linux_def Let_def note_unavailable_def sample_gpu_linux_memory with_psi_memory)

definition cgroup_file :: "string \<Rightarrow> string \<Rightarrow> string" where
  "cgroup_file path name = (''/sys/fs/cgroup'' @ (if path = ''/'' then [] else path)) @ name"

definition cgroup_memory :: "(string \<Rightarrow> string option) \<Rightarrow> string \<Rightarrow> nat option" where
  "cgroup_memory read name =
     Option.bind (Option.bind (read ''/proc/self/cgroup'') cgroup_path) (\<lambda>path.
     Option.bind (read (cgroup_file path name)) (\<lambda>v. parse_u64 (str_trim v)))"

lemma with_cgroup_bounds:
  assumes "cgroup_memory read ''/memory.max'' = Some limit" "cgroup_memory read ''/memory.current'' = Some used"
    and "hs_total o1 = Some t" "limit < t"
  shows "hs_total (with_cgroup read o1) = Some limit \<and> (\<exists>a. hs_available (with_cgroup read o1) = Some a \<and> a \<le> limit - used)"
  using assms by (auto simp: cgroup_memory_def cgroup_file_def with_cgroup_def apply_cgroup_limit_def bind_eq_Some_conv
      split: option.splits)

lemma try_reserve_fits:
  "try_reserve p bytes (Some a) reserve_bytes occupied = (Fits, n) \<Longrightarrow> n = occupied + bytes \<and> n + reserve_bytes \<le> a"
  by (auto simp: try_reserve_def telemetry_refuses_def reserve_turn_def checked_add_def Let_def split: if_splits)

text \<open>
  C36: Inside a container no load is found to fit that the container would be killed for. When the control group
  has a limit below the memory of the machine, the sample reports that limit as the total, and what a reservation
  that fits leaves on the counter, together with the reserve, is within the limit less what the container uses.
\<close>

theorem container_limit_bounds_loads:
  assumes "cgroup_memory read ''/memory.max'' = Some limit" "cgroup_memory read ''/memory.current'' = Some used"
    and "meminfo_bytes (text_or_empty (read ''/proc/meminfo'')) ''MemTotal'' = Some t" "limit < t"
    and "try_reserve p bytes (hs_available (sample_linux nvidia read cpus)) reserve_bytes occupied = (Fits, reserved)"
  shows "hs_total (sample_linux nvidia read cpus) = Some limit \<and> reserved = occupied + bytes \<and>
    reserved + reserve_bytes \<le> limit - used"
proof -
  let ?o = "parse_linux (text_or_empty (read ''/proc/meminfo'')) (text_or_empty (read ''/proc/loadavg''))
        (text_or_empty (read ''/proc/vmstat'')) cpus"
  have "hs_total ?o = Some t" using assms(3) by (simp add: parse_linux_def Let_def)
  from with_cgroup_bounds [OF assms(1,2) this assms(4)]
  obtain a where a: "hs_total (with_cgroup read ?o) = Some limit" "hs_available (with_cgroup read ?o) = Some a" "a \<le> limit - used"
    by blast
  then show ?thesis
    using try_reserve_fits [of p bytes a reserve_bytes occupied reserved] assms(5) by (auto simp: sample_linux_memory)
qed

definition sample_files :: "string \<Rightarrow> string option" where
  "sample_files = map_of [(''/proc/meminfo'', ''MemTotal: 64 kB''), (''/proc/self/cgroup'', ''0::/''),
     (''/sys/fs/cgroup/memory.max'', ''5000''), (''/sys/fs/cgroup/memory.current'', ''1000'')]"

lemma sample_files_at:
  "sample_files ''/proc/self/cgroup'' = Some ''0::/''" "sample_files ''/proc/meminfo'' = Some ''MemTotal: 64 kB''"
  "sample_files ''/sys/fs/cgroup/memory.max'' = Some ''5000''" "sample_files ''/sys/fs/cgroup/memory.current'' = Some ''1000''"
  by (simp_all add: sample_files_def)

lemma sample_text:
  "str_trim ''/'' = ''/''" "str_trim ''5000'' = ''5000''" "str_trim ''1000'' = ''1000''" "str_trim ''MemTotal'' = ''MemTotal''"
  "trim_start '' 64 kB'' = ''64 kB''"
  by (simp_all add: str_trim_def trim_start_def trim_end_def strip_any.simps white_space_def)

lemma sample_numbers:
  "parse_u64 ''5000'' = Some 5000" "parse_u64 ''1000'' = Some 1000" "parse_u64 ''64'' = Some 64"
  by (simp_all add: parse_u64_def parse_unsigned_def digit_value_def u64_max_def)

lemma sample_word: "first_word '' 64 kB'' = Some ''64''"
  by (simp add: first_word_def next_word_def sample_text Let_def at_white_space_def white_space_def)

lemma sample_path: "cgroup_path ''0::/'' = Some ''/''"
  by (simp add: cgroup_path_def text_lines_def find_map_def List.map_filter_simps strip_prefix_def sample_text)

lemma sample_meminfo: "colon_numbers ''MemTotal: 64 kB'' = [''MemTotal'' \<mapsto> 64]"
  by (simp add: colon_numbers_def text_lines_def List.map_filter_simps colon_number_def sample_word sample_text sample_numbers)

lemma sample_files_read:
  "cgroup_memory sample_files ''/memory.max'' = Some 5000"
  "cgroup_memory sample_files ''/memory.current'' = Some 1000"
  "meminfo_bytes (text_or_empty (sample_files ''/proc/meminfo'')) ''MemTotal'' = Some 65536"
  by (simp_all add: cgroup_memory_def cgroup_file_def sample_files_at sample_path sample_text sample_numbers
      meminfo_bytes_def text_or_empty_def sample_meminfo checked_mul_def u64_max_def)

lemma sample_available: "hs_available (sample_linux None sample_files None) = Some 4000"
  by (simp add: sample_linux_memory with_cgroup_def sample_files_at sample_path apply_cgroup_limit_def sample_text sample_numbers
      parse_linux_def Let_def meminfo_bytes_def text_or_empty_def sample_meminfo option_filter_def checked_mul_def u64_max_def
      host_sample_default_def)

lemma container_limit_bounds_loads_witness:
  "hs_total (sample_linux None sample_files None) = Some 5000 \<and>
   try_reserve policy_default 1000 (hs_available (sample_linux None sample_files None)) 2000 500 = (Fits, 1500) \<and>
   1500 + 2000 \<le> (5000 - 1000 :: nat)"
proof -
  have fits: "try_reserve policy_default 1000 (hs_available (sample_linux None sample_files None)) 2000 500 = (Fits, 1500)"
    by (simp add: sample_available try_reserve_def telemetry_refuses_def reserve_turn_def checked_add_def u64_max_def)
  have "(5000 :: nat) < 65536" by simp
  from container_limit_bounds_loads [OF sample_files_read this fits] show ?thesis using fits by simp
qed

end
