(* ===== verification/Select.thy ===== *)
theory Select
  imports Request Routing_Correct
begin

text \<open>
  The selection of a managed route (\<open>platform/execution/select.rs\<close> with \<open>execution_target\<close> of
  \<open>execution/mod.rs\<close>): the backend of a model, one candidate per backend, the measured profiles that compare
  them, the wanted placement and the decision. The pools, the settings of the server process, the runner found in
  \<open>/api/ps\<close> and the learned statistics are what the code reads at that moment, and arguments here.
\<close>

section \<open>Backends\<close>

record backends =
  bk_upstream :: string
  bk_cpu_upstream :: "string option"
  bk_cpu_models :: "string set"

definition execution_target :: "backends \<Rightarrow> string \<Rightarrow> backend \<times> string" where
  "execution_target b model =
     (case bk_cpu_upstream b of
        Some upstream \<Rightarrow> if model \<in> bk_cpu_models b then (Cpu, upstream) else (Gpu, bk_upstream b)
      | None \<Rightarrow> (Gpu, bk_upstream b))"

definition route_candidate_for ::
  "backends \<Rightarrow> route_input \<Rightarrow> catalog_model list \<Rightarrow> affinity \<Rightarrow> backend \<Rightarrow> route_decision option" where
  "route_candidate_for b input models sessions placement =
     (let candidates = filter (\<lambda>m. fst (execution_target b (cm_name m)) = placement) models
      in if candidates = [] then None
         else case select_route input candidates sessions of Inr d \<Rightarrow> Some d | Inl e \<Rightarrow> None)"

section \<open>Comparing the backends\<close>

text \<open>
  What the selection reads of one backend: its pool before and after the probes, the settings of the process that
  serves it, the runner of the candidate, and the number of threads for CPU runs.
\<close>

record backend_view =
  bv_before :: json
  bv_after :: json
  bv_settings :: "json option"
  bv_loaded :: "json option"
  bv_threads :: "nat option"

definition routing_body :: "managed_input \<Rightarrow> task_kind \<Rightarrow> route_decision \<Rightarrow> json" where
  "routing_body payload task effective =
     (if task = TEmbedding then json_object [(''options'', dc_options effective)]
      else json_object [(''options'', dc_options effective), (''think'', dc_think effective),
        (''tools'', jopt id (mi_tools payload)), (''format'', jopt id (ro_format (mi_request_options payload))),
        (''logprobs'', jopt JBool (ro_logprobs (mi_request_options payload))),
        (''top_logprobs'', jopt jnat (ro_top_logprobs (mi_request_options payload)))])"

definition prospective_admission :: "json \<Rightarrow> nat \<Rightarrow> nat \<Rightarrow> json" where
  "prospective_admission before requested_cost slots_total =
     jset ''active_units'' (jnat (max (min requested_cost slots_total) 1)) (jset ''in_flight'' (JInt 1) before)"

definition routing_placement :: "backend \<Rightarrow> json \<Rightarrow> json" where
  "routing_placement placement loaded =
     jset ''context_length'' (jindex loaded ''context_length'')
       (jset ''digest'' (jindex loaded ''digest'')
         (physical_placement_observation placement (get_u64 loaded ''size'') (get_u64 loaded ''size_vram'')))"

definition routing_profile ::
  "(json \<Rightarrow> string) \<Rightarrow> backends \<Rightarrow> backend_view \<Rightarrow> route_input \<Rightarrow> route_decision \<Rightarrow> catalog_model list \<Rightarrow> nat \<Rightarrow>
   managed_input \<Rightarrow> exec_profile option" where
  "routing_profile sha_hex b view input d models requested_cost payload =
     (if ri_context_tokens input = None \<or> mi_operation payload = Warm then None
      else if jindex (bv_before view) ''in_flight'' \<noteq> JInt 0 \<or> jindex (bv_before view) ''active_units'' \<noteq> JInt 0 then None
      else case execution_target b (dc_selected_model d) of (placement, upstream) \<Rightarrow>
        Option.bind (bv_settings view) (\<lambda>settings.
        Option.bind (bv_loaded view) (\<lambda>loaded.
          if \<not> unchanged_admission_interval (bv_before view) (bv_after view) then None
          else case apply_request_options (ri_task input) (mi_request_options payload) d of
                 Inl e \<Rightarrow> None
               | Inr effective \<Rightarrow>
                   Option.bind (find (\<lambda>m. cm_name m = dc_selected_model d) models) (\<lambda>m.
                   Option.bind (get_u64 (bv_before view) ''slots_total'') (\<lambda>slots.
                     let prospective = prospective_admission (bv_before view) requested_cost slots
                     in case profile_from_observations sha_hex
                          \<lparr>pe_task = ri_task input, pe_model = dc_selected_model d, pe_catalog_digest = cm_digest m,
                           pe_upstream = upstream,
                           pe_body = apply_execution_options (bv_threads view) placement (routing_body payload (ri_task input) effective),
                           pe_placement = routing_placement placement loaded, pe_dispatch = prospective,
                           pe_completion = prospective, pe_dispatch_settings = Some settings,
                           pe_completion_settings = Some settings, pe_warm = True\<rparr> of
                          Inr p \<Rightarrow> Some p | Inl e \<Rightarrow> None)))))"

definition profile_score :: "(task_kind, stats) btree \<Rightarrow> task_kind \<Rightarrow> exec_profile option \<Rightarrow> nat option" where
  "profile_score learned task p =
     Option.bind p (\<lambda>p. Option.bind (bt_get learned task) (average_for_profile p))"

definition matching_route_profile_scores ::
  "(json \<Rightarrow> string) \<Rightarrow> backends \<Rightarrow> (backend \<Rightarrow> backend_view) \<Rightarrow> placement_feedback \<Rightarrow> route_input \<Rightarrow> catalog_model list \<Rightarrow>
   nat \<Rightarrow> managed_input option \<Rightarrow> route_decision option \<Rightarrow> route_decision option \<Rightarrow> nat option \<times> nat option" where
  "matching_route_profile_scores sha_hex b views learned input models cost profile_input gpu cpu =
     (if ri_preference input \<noteq> PreferAuto \<or> ri_objective input \<notin> {Fastest, Balanced} then (None, None)
      else case (gpu, cpu, profile_input) of
             (Some g, Some c, Some payload) \<Rightarrow>
               (profile_score (pf_gpu learned) (ri_task input) (routing_profile sha_hex b (views Gpu) input g models cost payload),
                profile_score (pf_cpu learned) (ri_task input) (routing_profile sha_hex b (views Cpu) input c models cost payload))
           | _ \<Rightarrow> (None, None))"

section \<open>The decision\<close>

record managed_decision =
  md_route :: route_decision
  md_model :: catalog_model
  md_placement :: backend
  md_upstream :: string
  md_preference :: execution_preference
  md_preference_satisfied :: bool
  md_reason :: string
  md_evidence :: placement_evidence

datatype select_error = NoRoute route_error | PlacementUnverified | NotInCatalog

definition pool_cost :: "nat \<Rightarrow> nat \<Rightarrow> nat" where
  "pool_cost task_cost slots = max (min task_cost (min slots u32_max)) 1"

definition route_signals ::
  "bool \<Rightarrow> route_input \<Rightarrow> nat option \<times> nat option \<Rightarrow> adm \<Rightarrow> adm \<Rightarrow> nat \<Rightarrow> backends \<Rightarrow> placement_signals" where
  "route_signals pinned input scores gpu_pool cpu_pool cost b =
     \<lparr>pl_pinned = pinned, pl_objective = ri_objective input, pl_preference = ri_preference input,
      pl_gpu_ns = fst scores, pl_cpu_ns = snd scores, pl_gpu_slots = free gpu_pool, pl_cpu_slots = free cpu_pool,
      pl_gpu_cost = pool_cost cost (adm_limit gpu_pool), pl_cpu_cost = pool_cost cost (adm_limit cpu_pool),
      pl_cpu_configured = (bk_cpu_upstream b \<noteq> None)\<rparr>"

definition preferred_route ::
  "bool \<Rightarrow> (backend \<times> string) option \<Rightarrow> route_decision option \<Rightarrow> route_decision option \<Rightarrow> (route_decision \<times> string) option" where
  "preferred_route pinned desired gpu cpu =
     (case desired of
        None \<Rightarrow> None
      | Some (placement, reason) \<Rightarrow>
          if pinned then None else map_option (\<lambda>d. (d, reason)) (if placement = Cpu then cpu else gpu))"

definition preference_met :: "execution_preference \<Rightarrow> backend \<Rightarrow> bool" where
  "preference_met p placement = (case p of PreferAuto \<Rightarrow> True | PreferCpu \<Rightarrow> placement = Cpu | PreferGpu \<Rightarrow> placement = Gpu)"

definition check_decision ::
  "backends \<Rightarrow> route_input \<Rightarrow> catalog_model list \<Rightarrow> route_decision \<Rightarrow> string \<Rightarrow> select_error + managed_decision" where
  "check_decision b input models d reason =
     (case execution_target b (dc_selected_model d) of (placement, upstream) \<Rightarrow>
        (case require_observed_placement input models (dc_selected_model d) placement of
           Inl e \<Rightarrow> Inl PlacementUnverified
         | Inr _ \<Rightarrow>
             (case find (\<lambda>m. cm_name m = dc_selected_model d) models of
                None \<Rightarrow> Inl NotInCatalog
              | Some m \<Rightarrow> Inr \<lparr>md_route = d, md_model = m, md_placement = placement, md_upstream = upstream,
                  md_preference = ri_preference input, md_preference_satisfied = preference_met (ri_preference input) placement,
                  md_reason = reason, md_evidence = ri_min_placement input\<rparr>)))"

definition session_assigned :: "route_input \<Rightarrow> affinity \<Rightarrow> bool" where
  "session_assigned input sessions \<longleftrightarrow> Option.bind (ri_session_id input) (\<lambda>s. aff_assigned s sessions) \<noteq> None"

definition route_pinned :: "route_input \<Rightarrow> affinity \<Rightarrow> bool" where
  "route_pinned input sessions \<longleftrightarrow> ri_model input \<noteq> None \<or> session_assigned input sessions"

definition wanted_placement ::
  "(json \<Rightarrow> string) \<Rightarrow> backends \<Rightarrow> (backend \<Rightarrow> backend_view) \<Rightarrow> placement_feedback \<Rightarrow> adm \<Rightarrow> adm \<Rightarrow> route_input \<Rightarrow>
   catalog_model list \<Rightarrow> affinity \<Rightarrow> nat \<Rightarrow> managed_input option \<Rightarrow> (backend \<times> string) option" where
  "wanted_placement sha_hex b views learned gpu_pool cpu_pool input models sessions cost profile_input =
     (let pinned = route_pinned input sessions;
          scores = (if pinned then (None, None)
                    else matching_route_profile_scores sha_hex b views learned input models cost profile_input
                           (route_candidate_for b input models sessions Gpu) (route_candidate_for b input models sessions Cpu))
      in desired_placement (route_signals pinned input scores gpu_pool cpu_pool cost b))"

definition pick_route ::
  "(backend \<times> string) option \<Rightarrow> (route_decision \<times> string) option \<Rightarrow> route_error + route_decision \<Rightarrow>
   select_error + route_decision \<times> string" where
  "pick_route desired preferred fallback =
     (case preferred of
        Some r \<Rightarrow> Inr r
      | None \<Rightarrow>
          (case fallback of
             Inl e \<Rightarrow> Inl (NoRoute e)
           | Inr d \<Rightarrow> Inr (d, if desired = None then ''router_default'' else ''preferred_backend_unavailable_or_ineligible'')))"

definition route_reason :: "route_input \<Rightarrow> affinity \<Rightarrow> string \<Rightarrow> string" where
  "route_reason input sessions reason =
     (if ri_model input \<noteq> None then ''explicit_model''
      else if session_assigned input sessions then ''session_affinity'' else reason)"

definition select_managed_route ::
  "(json \<Rightarrow> string) \<Rightarrow> backends \<Rightarrow> (backend \<Rightarrow> backend_view) \<Rightarrow> placement_feedback \<Rightarrow> adm \<Rightarrow> adm \<Rightarrow> route_input \<Rightarrow>
   catalog_model list \<Rightarrow> affinity \<Rightarrow> nat \<Rightarrow> managed_input option \<Rightarrow> select_error + managed_decision" where
  "select_managed_route sha_hex b views learned gpu_pool cpu_pool input models sessions cost profile_input =
     (let desired = wanted_placement sha_hex b views learned gpu_pool cpu_pool input models sessions cost profile_input;
          preferred = preferred_route (route_pinned input sessions) desired
            (route_candidate_for b input models sessions Gpu) (route_candidate_for b input models sessions Cpu)
      in and_then (pick_route desired preferred (select_route input models sessions)) (\<lambda>(d, reason).
           check_decision b input models d (route_reason input sessions reason)))"

end
