(* ===== verification/Select_Run.thy ===== *)
theory Select_Run
  imports Select Feedback_Run
begin

text \<open>
  The facts about \<open>Select\<close>: the decision is coherent with the catalog and the backends, and the placement it
  takes has the reason it reports.
\<close>

section \<open>The candidates\<close>

lemma selected_installed:
  assumes "select_route input models sessions = Inr d"
  shows "\<exists>m \<in> set models. cm_name m = dc_selected_model d"
proof -
  obtain es m where es: "eligible_for_objective input (filter (capable input) models) = Inr es"
    and m: "choose_model input models es sessions = Inr m" and d: "decide input es m sessions = Inr d"
    using assms by (rule select_steps)
  have "m \<in> set models"
    using chosen_in [OF m] eligible_subset [OF es] installed_in by (cases "ri_model input") auto
  then show ?thesis using decide_fields [OF d] by metis
qed

lemma route_candidate_Some:
  "route_candidate_for b input models sessions placement = Some d \<longleftrightarrow>
     (let cs = filter (\<lambda>m. fst (execution_target b (cm_name m)) = placement) models
      in cs \<noteq> [] \<and> select_route input cs sessions = Inr d)"
  by (auto simp: route_candidate_for_def Let_def split: sum.splits)

lemma candidate_placement:
  assumes "route_candidate_for b input models sessions placement = Some d"
  shows "fst (execution_target b (dc_selected_model d)) = placement"
proof -
  have "select_route input (filter (\<lambda>m. fst (execution_target b (cm_name m)) = placement) models) sessions = Inr d"
    using assms by (simp add: route_candidate_Some Let_def)
  from selected_installed [OF this] show ?thesis by auto
qed

section \<open>The steps of the selection\<close>

lemma check_decision_Inr:
  "check_decision b input models d reason = Inr md \<longleftrightarrow>
     (\<exists>m. find (\<lambda>m. cm_name m = dc_selected_model d) models = Some m \<and>
        require_observed_placement input models (dc_selected_model d) (fst (execution_target b (dc_selected_model d))) = Inr () \<and>
        md = \<lparr>md_route = d, md_model = m, md_placement = fst (execution_target b (dc_selected_model d)),
              md_upstream = snd (execution_target b (dc_selected_model d)), md_preference = ri_preference input,
              md_preference_satisfied = preference_met (ri_preference input) (fst (execution_target b (dc_selected_model d))),
              md_reason = reason, md_evidence = ri_min_placement input\<rparr>)"
  by (auto simp: check_decision_def split: prod.splits sum.splits option.splits)

lemma preferred_route_Some:
  "preferred_route pinned desired (route_candidate_for b input models sessions Gpu)
      (route_candidate_for b input models sessions Cpu) = Some (d, reason) \<longleftrightarrow>
   \<not> pinned \<and> (\<exists>placement. desired = Some (placement, reason) \<and> route_candidate_for b input models sessions placement = Some d)"
proof -
  have pick: "(if placement = Cpu then route_candidate_for b input models sessions Cpu
         else route_candidate_for b input models sessions Gpu) = route_candidate_for b input models sessions placement" for placement
    by (cases placement) auto
  show ?thesis unfolding preferred_route_def pick by (auto split: option.splits if_splits)
qed

lemma select_managed_cases:
  assumes "select_managed_route sha_hex b views learned gpu_pool cpu_pool input models sessions cost profile_input = Inr md"
  obtains (preferred) placement reason d where
      "\<not> route_pinned input sessions"
      "wanted_placement sha_hex b views learned gpu_pool cpu_pool input models sessions cost profile_input = Some (placement, reason)"
      "route_candidate_for b input models sessions placement = Some d"
      "check_decision b input models d reason = Inr md"
  | (default) d reason where
      "select_route input models sessions = Inr d"
      "check_decision b input models d (route_reason input sessions reason) = Inr md"
      "reason \<in> {''router_default'', ''preferred_backend_unavailable_or_ineligible''}"
      "\<And>placement why. \<not> route_pinned input sessions \<Longrightarrow>
       wanted_placement sha_hex b views learned gpu_pool cpu_pool input models sessions cost profile_input = Some (placement, why) \<Longrightarrow>
       route_candidate_for b input models sessions placement = None"
proof -
  let ?desired = "wanted_placement sha_hex b views learned gpu_pool cpu_pool input models sessions cost profile_input"
  let ?preferred = "preferred_route (route_pinned input sessions) ?desired
     (route_candidate_for b input models sessions Gpu) (route_candidate_for b input models sessions Cpu)"
  obtain d r where routed: "pick_route ?desired ?preferred (select_route input models sessions) = Inr (d, r)"
    and check: "check_decision b input models d (route_reason input sessions r) = Inr md"
    using assms by (auto simp: select_managed_route_def Let_def and_then_Inr)
  show ?thesis
  proof (cases ?preferred)
    case (Some x)
    then have "?preferred = Some (d, r)" using routed by (simp add: pick_route_def)
    then obtain placement where "\<not> route_pinned input sessions" "?desired = Some (placement, r)"
        "route_candidate_for b input models sessions placement = Some d"
      unfolding preferred_route_Some by blast
    then show ?thesis using check by (auto simp: route_reason_def route_pinned_def intro: preferred)
  next
    case None
    then have sel: "select_route input models sessions = Inr d"
      and r: "r \<in> {''router_default'', ''preferred_backend_unavailable_or_ineligible''}"
      using routed by (auto simp: pick_route_def split: sum.splits if_splits)
    have "route_candidate_for b input models sessions placement = None"
      if "\<not> route_pinned input sessions" "?desired = Some (placement, why)" for placement why
      using preferred_route_Some [of "route_pinned input sessions" ?desired b input models sessions _ why] None that by force
    with sel check r show ?thesis by (rule default)
  qed
qed

section \<open>The decision is coherent\<close>

lemma verified_processor:
  "jindex (physical_placement_observation placement sz vram) ''status'' = JStr ''verified'' \<longleftrightarrow>
     processor_of sz vram = backend_as_str placement"
  by (cases placement)
    (auto simp: physical_placement_observation_def jindex_of_object Let_def)

lemma check_decision_coherent:
  assumes "check_decision b input models d reason = Inr md"
  shows "md_route md = d \<and> md_model md \<in> set models \<and> cm_name (md_model md) = dc_selected_model d \<and>
    (md_placement md, md_upstream md) = execution_target b (dc_selected_model d) \<and> md_reason md = reason \<and>
    md_preference_satisfied md = preference_met (ri_preference input) (md_placement md) \<and>
    (ri_min_placement input = Observed \<longrightarrow>
      processor_of (cm_resident_size (md_model md)) (cm_resident_vram (md_model md)) = backend_as_str (md_placement md))"
proof -
  obtain m where m: "find (\<lambda>m. cm_name m = dc_selected_model d) models = Some m"
      "require_observed_placement input models (dc_selected_model d) (fst (execution_target b (dc_selected_model d))) = Inr ()"
      "md_model md = m" "md_route md = d" "md_placement md = fst (execution_target b (dc_selected_model d))"
      "md_upstream md = snd (execution_target b (dc_selected_model d))" "md_reason md = reason"
      "md_preference_satisfied md = preference_met (ri_preference input) (md_placement md)"
    using assms unfolding check_decision_Inr by auto
  moreover have "m \<in> set models \<and> cm_name m = dc_selected_model d" using find_in [OF m(1)] by simp
  moreover have "processor_of (cm_resident_size m) (cm_resident_vram m) = backend_as_str (md_placement md)"
    if "ri_min_placement input = Observed"
    using m(1,2,5) that verified_processor
    by (auto simp: require_observed_placement_def ensure_def split: if_splits)
  ultimately show ?thesis by simp
qed

lemma select_route_capable:
  assumes "distinct (map cm_name models)" "select_route input models sessions = Inr d"
  shows "\<exists>m \<in> set models. cm_name m = dc_selected_model d \<and> capable input m \<and>
    (\<forall>r. ri_model input = Some r \<longrightarrow> installed_model models r = Inr m)"
proof -
  obtain es m where es: "eligible_for_objective input (filter (capable input) models) = Inr es"
    and m: "choose_model input models es sessions = Inr m" and d: "decide input es m sessions = Inr d"
    using assms(2) by (rule select_steps)
  then show ?thesis using selected_capable [OF assms(1) es m] chosen_in [OF m] decide_fields [OF d] by auto
qed

lemma candidate_capable:
  assumes "distinct (map cm_name models)" "route_candidate_for b input models sessions placement = Some d"
  shows "\<exists>m \<in> set models. cm_name m = dc_selected_model d \<and> capable input m"
proof -
  let ?cs = "filter (\<lambda>m. fst (execution_target b (cm_name m)) = placement) models"
  have "distinct (map cm_name ?cs)" using assms(1) by (simp add: distinct_map_filter)
  moreover have "select_route input ?cs sessions = Inr d" using assms(2) by (simp add: route_candidate_Some Let_def)
  ultimately show ?thesis using select_route_capable by fastforce
qed

text \<open>
  C37: A managed decision is coherent. Its model is installed, satisfies the capabilities and the context of the
  request and is the one the caller named, if one was named; its backend and address are those configured for
  that model; when the request asks for observed placement, the resident runner is entirely where the backend
  says; and the decision says that the preference is satisfied exactly when it is.
\<close>

theorem managed_decision_is_coherent:
  assumes "distinct (map cm_name models)"
    and "select_managed_route sha_hex b views learned gpu_pool cpu_pool input models sessions cost profile_input = Inr md"
  shows "md_model md \<in> set models \<and> cm_name (md_model md) = dc_selected_model (md_route md) \<and>
    capable input (md_model md) \<and> (\<forall>r. ri_model input = Some r \<longrightarrow> installed_model models r = Inr (md_model md)) \<and>
    (md_placement md, md_upstream md) = execution_target b (cm_name (md_model md)) \<and>
    (ri_min_placement input = Observed \<longrightarrow>
      processor_of (cm_resident_size (md_model md)) (cm_resident_vram (md_model md)) = backend_as_str (md_placement md)) \<and>
    md_preference_satisfied md = preference_met (ri_preference input) (md_placement md)"
  using assms(2)
proof (cases rule: select_managed_cases)
  case (preferred placement reason d)
  obtain m where m: "m \<in> set models" "cm_name m = dc_selected_model d" "capable input m"
    using candidate_capable [OF assms(1) preferred(3)] by blast
  have c: "md_route md = d" "md_model md \<in> set models" "cm_name (md_model md) = dc_selected_model d"
    using check_decision_coherent [OF preferred(4)] by simp_all
  then have "md_model md = m" using distinct_names [OF assms(1)] m by metis
  moreover have "ri_model input = None" using preferred(1) by (simp add: route_pinned_def)
  ultimately show ?thesis using check_decision_coherent [OF preferred(4)] m by simp
next
  case (default d reason)
  obtain m where m: "m \<in> set models" "cm_name m = dc_selected_model d" "capable input m"
      "\<forall>r. ri_model input = Some r \<longrightarrow> installed_model models r = Inr m"
    using select_route_capable [OF assms(1) default(1)] by blast
  have c: "md_route md = d" "md_model md \<in> set models" "cm_name (md_model md) = dc_selected_model d"
    using check_decision_coherent [OF default(2)] by simp_all
  then have "md_model md = m" using distinct_names [OF assms(1)] m by metis
  then show ?thesis using check_decision_coherent [OF default(2)] m by simp
qed

section \<open>The placement has its reason\<close>

lemma desired_reason:
  assumes "wanted_placement sha_hex b views learned gpu_pool cpu_pool input models sessions cost profile_input =
      Some (placement, ''measured_backend_faster'')"
    and "\<not> route_pinned input sessions"
  shows "\<exists>g c. matching_route_profile_scores sha_hex b views learned input models cost profile_input
        (route_candidate_for b input models sessions Gpu) (route_candidate_for b input models sessions Cpu) = (Some g, Some c) \<and>
      (if placement = Cpu then 100 * c < 90 * g else 100 * g < 90 * c)"
proof -
  let ?scores = "matching_route_profile_scores sha_hex b views learned input models cost profile_input
     (route_candidate_for b input models sessions Gpu) (route_candidate_for b input models sessions Cpu)"
  have "desired_placement (route_signals False input ?scores gpu_pool cpu_pool cost b) = Some (placement, ''measured_backend_faster'')"
    using assms by (simp add: wanted_placement_def Let_def)
  from placement_hint_sound [OF this] obtain g c where
      "fst ?scores = Some g" "snd ?scores = Some c" "if placement = Cpu then 100 * c < 90 * g else 100 * g < 90 * c"
    by (auto simp: route_signals_def)
  then show ?thesis by (metis prod.collapse)
qed

lemma scores_have_profiles:
  assumes "matching_route_profile_scores sha_hex b views learned input models cost profile_input gpu cpu = (Some g, Some c)"
  obtains dg dc payload where "gpu = Some dg" "cpu = Some dc" "profile_input = Some payload"
    "ri_preference input = PreferAuto" "ri_objective input \<noteq> Quality"
    "profile_score (pf_gpu learned) (ri_task input) (routing_profile sha_hex b (views Gpu) input dg models cost payload) = Some g"
    "profile_score (pf_cpu learned) (ri_task input) (routing_profile sha_hex b (views Cpu) input dc models cost payload) = Some c"
  using assms by (auto simp: matching_route_profile_scores_def split: if_splits option.splits)

lemma profile_score_Some:
  "profile_score learned task p = Some n \<longleftrightarrow>
     (\<exists>q s. p = Some q \<and> bt_get learned task = Some s \<and> average_for_profile q s = Some n)"
  by (auto simp: profile_score_def bind_eq_Some_conv)

text \<open>A measured average of a backend for exactly the execution that is about to be sent.\<close>

definition measured_average ::
  "(task_kind, stats) btree \<Rightarrow> task_kind \<Rightarrow> exec_profile option \<Rightarrow> nat \<Rightarrow> bool" where
  "measured_average learned task p n \<longleftrightarrow>
     (\<exists>q s. p = Some q \<and> bt_get learned task = Some s \<and> fs_profile s = Some q \<and> 3 \<le> fs_profile_samples s \<and>
        n = fs_profile_total s div fs_profile_samples s)"

lemma score_is_measured: "profile_score learned task p = Some n \<Longrightarrow> measured_average learned task p n"
  by (auto simp: profile_score_Some measured_average_def average_for_profile_def MIN_FEEDBACK_SAMPLES_def split: if_splits)


section \<open>Examples\<close>

definition cpu_backends :: backends where
  "cpu_backends = \<lparr>bk_upstream = ''g'', bk_cpu_upstream = Some ''c'', bk_cpu_models = {''a:1b'', ''b:1b''}\<rparr>"

definition cpu_input :: route_input where
  "cpu_input = route_input_default\<lparr>ri_preference := PreferCpu\<rparr>"

definition no_view :: "backend \<Rightarrow> backend_view" where
  "no_view placement = \<lparr>bv_before = JNull, bv_after = JNull, bv_settings = None, bv_loaded = None, bv_threads = None\<rparr>"

definition nothing_learned :: placement_feedback where
  "nothing_learned = \<lparr>pf_gpu = [], pf_cpu = []\<rparr>"

definition sample_selection :: "select_error + managed_decision" where
  "sample_selection = select_managed_route (\<lambda>_. []) cpu_backends no_view nothing_learned (adm_new 2 2) (adm_new 2 2)
     cpu_input sample_catalog aff_new 1 None"

lemma cpu_candidate: "\<exists>d. route_candidate_for cpu_backends cpu_input sample_catalog aff_new Cpu = Some d"
proof -
  have "filter (\<lambda>m. fst (execution_target cpu_backends (cm_name m)) = Cpu) sample_catalog = sample_catalog"
    by (simp add: sample_catalog_def sample_model_def execution_target_def cpu_backends_def)
  moreover have "\<exists>d. select_route cpu_input sample_catalog aff_new = Inr d"
    by (simp add: cpu_input_def route_eval)
  moreover have "sample_catalog \<noteq> []" by (simp add: sample_catalog_def)
  ultimately show ?thesis by (auto simp: route_candidate_Some Let_def)
qed

lemma sample_selects: "\<exists>md. sample_selection = Inr md"
proof -
  obtain d where d: "route_candidate_for cpu_backends cpu_input sample_catalog aff_new Cpu = Some d"
    using cpu_candidate by blast
  have "\<not> route_pinned cpu_input aff_new"
    by (simp add: route_pinned_def session_assigned_def cpu_input_def route_input_default_def)
  moreover have "wanted_placement (\<lambda>_. []) cpu_backends no_view nothing_learned (adm_new 2 2) (adm_new 2 2) cpu_input
      sample_catalog aff_new 1 None = Some (Cpu, ''preferred_backend_eligible'')"
    by (simp add: wanted_placement_def Let_def desired_placement_def route_signals_def prefer_cpu_def cpu_ready_def
        cpu_input_def cpu_backends_def pool_cost_def adm_new_def free_def u32_max_def)
  moreover have "\<exists>m. find (\<lambda>m. cm_name m = dc_selected_model d) sample_catalog = Some m"
    using candidate_capable [OF _ d] by (auto simp: find_None_iff sample_catalog_def sample_model_def not_None_eq [symmetric]
        simp del: not_None_eq)
  moreover have "require_observed_placement cpu_input sample_catalog n placement = Inr ()" for n placement
    by (simp add: require_observed_placement_def cpu_input_def route_input_default_def)
  ultimately show ?thesis
    using d by (auto simp: sample_selection_def select_managed_route_def Let_def preferred_route_def pick_route_def
        check_decision_def split: prod.split)
qed

lemma managed_decision_is_coherent_witness:
  "\<exists>md. sample_selection = Inr md \<and> md_model md \<in> set sample_catalog \<and>
     (md_placement md, md_upstream md) = execution_target cpu_backends (cm_name (md_model md))"
proof -
  obtain md where md: "sample_selection = Inr md" using sample_selects by blast
  have "distinct (map cm_name sample_catalog)" by (simp add: sample_catalog_def sample_model_def)
  from managed_decision_is_coherent [OF this md [unfolded sample_selection_def]] show ?thesis using md by blast
qed


text \<open>
  A session whose assigned model is gone still reports its affinity as the reason, and its preference is not tried.
\<close>

lemma affinity_reason_without_affinity:
  assumes "session_assigned input sessions" "ri_model input = None" "affine_model input es sessions = None"
    and "eligible_for_objective input (filter (capable input) models) = Inr es"
    and "select_managed_route sha_hex b views learned gpu_pool cpu_pool input models sessions cost profile_input = Inr md"
  shows "md_reason md = ''session_affinity'' \<and>
    (\<exists>m. max_by (compare_candidates input) es = Some m \<and> dc_selected_model (md_route md) = cm_name m)"
  using assms(5)
proof (cases rule: select_managed_cases)
  case (preferred placement reason d)
  then show ?thesis using assms(1) by (simp add: route_pinned_def)
next
  case (default d reason)
  have "md_reason md = ''session_affinity'' \<and> md_route md = d"
    using check_decision_coherent [OF default(2)] assms(1,2) by (simp add: route_reason_def)
  moreover obtain m where "max_by (compare_candidates input) es = Some m" "decide input es m sessions = Inr d"
    using default(1) assms(2,3,4) by (auto simp: select_route_def and_then_Inr choose_model_def split: option.splits)
  ultimately show ?thesis using decide_fields by blast
qed

end
