(* ===== verification/Execute.thy ===== *)
theory Execute
  imports Completion Telemetry Warming Pipeline
begin

text \<open>
  One managed task from its arrival to its row in the ledger (\<open>execute_task\<close> and \<open>run_task\<close> of
  \<open>platform/execution/mod.rs\<close>, \<open>submit\<close> of \<open>platform/jobs.rs\<close>): the deadline, the lease of its scope, the race of
  the work against cancellation, its session and the deadline, the commit, and what is recorded of it. The work
  itself is the pipeline; here it is the result each poll may find. Other tasks change the shared state between
  any two polls.
\<close>

section \<open>Deadlines\<close>

definition deadline_error :: api_error where
  "deadline_error = with_code ''task_deadline_exceeded'' (api_new 504 ''task total deadline exceeded'')"

definition session_missing :: api_error where
  "session_missing = api_new 404 ''session does not exist or has expired''"

definition zero_timeout :: api_error where
  "zero_timeout = bad_request ''timeout_seconds must be positive''"

definition execution_timeout :: "duration \<Rightarrow> managed_task \<Rightarrow> api_error + duration option" where
  "execution_timeout ceiling t =
     (case mt_timeout_seconds t of
        Some seconds \<Rightarrow>
          (case task_deadline ceiling (Some seconds) of None \<Rightarrow> Inl zero_timeout | Some d \<Rightarrow> Inr (Some d))
      | None \<Rightarrow> Inr (if ti_scope_id t \<noteq> None \<or> mi_operation t = Warm then Some ceiling else None))"

text \<open>A deferred task has an address in the registry and the deadline of its submission.\<close>

type_synonym job_progress = "nat \<times> instant"

definition execution_deadline :: "instant \<Rightarrow> duration option \<Rightarrow> job_progress option \<Rightarrow> instant option" where
  "execution_deadline now timeout progress =
     map_option (\<lambda>t. case progress of Some (a, d) \<Rightarrow> d | None \<Rightarrow> now + t) timeout"

text \<open>The input of a deferred task carries its progress.\<close>

definition scoped_input :: "job_progress option \<Rightarrow> managed_task \<Rightarrow> task_input" where
  "scoped_input progress t = (task_input.truncate t)\<lparr>ti_deferred := (progress \<noteq> None)\<rparr>"

section \<open>The route the task is recorded under\<close>

text \<open>\<open>prepare\<close> fills in the defaults of the scope before its later checks may fail.\<close>

definition route_after :: "scope_policy \<Rightarrow> instant \<Rightarrow> task_input \<Rightarrow> scope_store \<Rightarrow> route_input" where
  "route_after p now inp entries =
     (case (ti_scope_id inp, ti_scope_revision inp) of
        (Some sid, Some revision) \<Rightarrow>
          if ti_input inp \<noteq> None then ti_route inp
          else (case bt_get (scope_prune now p entries) sid of
                  None \<Rightarrow> ti_route inp
                | Some h \<Rightarrow>
                    if h_revision h = revision \<and> h_lease h = None
                    then merged_route (h_defaults h) (ti_route_fields inp) (ti_route inp) else ti_route inp)
      | _ \<Rightarrow> ti_route inp)"

section \<open>The race\<close>

text \<open>
  A poll: what others did before it, the time, whether the whole race is polled again (a lock that is free lets the
  same poll go on), whether the lock it waits for is free, and what the pipeline returns.
\<close>

record exec_poll =
  xp_env :: "managed \<Rightarrow> managed"
  xp_now :: instant
  xp_fresh :: bool
  xp_lock :: bool
  xp_work :: "(api_error + json) option"

text \<open>Where the work is: the signal is read for the commit, the channel is the one the work races against.\<close>

datatype exec_phase = Starting | Signalled "nat option" | Working "nat option" "nat option"

fun signal_of :: "exec_phase \<Rightarrow> nat option" where
  "signal_of Starting = None"
| "signal_of (Signalled s) = s"
| "signal_of (Working s c) = s"

datatype exec_outcome = Ended "api_error + json" | Goto exec_phase | Pending

record exec_task =
  xt_prepared :: "scope_error + scope_lease option"
  xt_session :: "string option"
  xt_progress :: "job_progress option"
  xt_deadline :: "instant option"

definition xt_scoped :: "exec_task \<Rightarrow> bool" where
  "xt_scoped t = (case xt_prepared t of Inr (Some l) \<Rightarrow> True | _ \<Rightarrow> False)"

definition cancelled_job :: "job_progress option \<Rightarrow> managed \<Rightarrow> bool" where
  "cancelled_job progress \<sigma> = (case progress of None \<Rightarrow> False | Some (a, d) \<Rightarrow> j_cancel (job_at (mg_jobs \<sigma>) a))"

fun work_poll ::
  "(scope_error \<Rightarrow> string) \<Rightarrow> duration \<Rightarrow> exec_task \<Rightarrow> exec_poll \<Rightarrow> exec_phase \<Rightarrow> managed \<Rightarrow> exec_outcome \<times> managed" where
  "work_poll msg ttl t x Starting \<sigma> =
     (case xt_prepared t of
        Inl e \<Rightarrow> (Ended (Inl (scope_api msg e)), \<sigma>)
      | Inr _ \<Rightarrow>
          (case xt_session t of
             Some sid \<Rightarrow>
               if xt_scoped t
               then (if xp_lock x then (Goto (Signalled (aff_cancellation sid (mg_sessions \<sigma>))), \<sigma>) else (Pending, \<sigma>))
               else (Goto (Signalled None), \<sigma>)
           | None \<Rightarrow> (Goto (Signalled None), \<sigma>)))"
| "work_poll msg ttl t x (Signalled s) \<sigma> =
     (if xt_session t \<noteq> None \<and> \<not> xp_lock x then (Pending, \<sigma>)
      else case guard_register (xp_now x) ttl (xt_session t) (mg_sessions \<sigma>) of
             (Inl e, a) \<Rightarrow> (Ended (Inl session_missing), \<sigma>\<lparr>mg_sessions := a\<rparr>)
           | (Inr channel, a) \<Rightarrow> (Goto (Working s channel), \<sigma>\<lparr>mg_sessions := a\<rparr>))"
| "work_poll msg ttl t x (Working s channel) \<sigma> =
     (case guard_poll channel (map_option Inr (xp_work x)) (mg_sessions \<sigma>) of
        None \<Rightarrow> (Pending, \<sigma>)
      | Some (Inl e) \<Rightarrow> (Ended (Inl session_killed), \<sigma>)
      | Some (Inr r) \<Rightarrow> (Ended r, \<sigma>))"

definition deadline_passed :: "instant option \<Rightarrow> instant \<Rightarrow> bool" where
  "deadline_passed deadline now = (case deadline of None \<Rightarrow> False | Some d \<Rightarrow> d \<le> now)"

fun exec_race ::
  "(scope_error \<Rightarrow> string) \<Rightarrow> duration \<Rightarrow> exec_task \<Rightarrow> exec_phase \<Rightarrow> exec_poll list \<Rightarrow> managed \<Rightarrow>
   ((api_error + json) \<times> nat option \<times> managed) option" where
  "exec_race msg ttl t phase [] \<sigma> = None"
| "exec_race msg ttl t phase (x # xs) \<sigma> =
     (if xp_fresh x \<and> cancelled_job (xt_progress t) (xp_env x \<sigma>)
      then Some (Inl task_cancelled, signal_of phase, xp_env x \<sigma>)
      else case work_poll msg ttl t x phase (xp_env x \<sigma>) of
             (Ended r, \<sigma>') \<Rightarrow> Some (r, signal_of phase, \<sigma>')
           | (Goto phase', \<sigma>') \<Rightarrow> exec_race msg ttl t phase' xs \<sigma>'
           | (Pending, \<sigma>') \<Rightarrow>
               if deadline_passed (xt_deadline t) (xp_now x) then Some (Inl deadline_error, signal_of phase, \<sigma>')
               else exec_race msg ttl t phase xs \<sigma>')"

section \<open>The end of a task\<close>

definition settle_scope ::
  "(json \<Rightarrow> nat) \<Rightarrow> scope_policy \<Rightarrow> (scope_error \<Rightarrow> string) \<Rightarrow> instant \<Rightarrow> nat \<Rightarrow> bool \<Rightarrow> bool \<Rightarrow> scope_lease option \<Rightarrow>
   string option \<Rightarrow> nat option \<Rightarrow> nat option \<Rightarrow> api_error + json \<Rightarrow> managed \<Rightarrow> (api_error + json) \<times> managed" where
  "settle_scope len p msg now wall late expired lease sid progress signal result \<sigma> =
     (case lease of
        None \<Rightarrow> (result, \<sigma>)
      | Some l \<Rightarrow>
          (case result of
             Inl e \<Rightarrow> (Inl e, abandon l \<sigma>)
           | Inr v \<Rightarrow> commit_scoped_completion len p msg now wall late expired v l sid progress signal \<sigma>))"

text \<open>The measured costs stay in the row when only the commit fails.\<close>

definition settled_row :: "api_error + json \<Rightarrow> api_error + json \<Rightarrow> task_record \<Rightarrow> task_record" where
  "settled_row result outcome row =
     (case (result, outcome) of
        (Inr v, Inl e) \<Rightarrow> row\<lparr>tr_outcome := ''error'', tr_status := ae_status e\<rparr>
      | _ \<Rightarrow> row)"

definition served_by :: "task_record \<Rightarrow> (model_key \<times> nat) option" where
  "served_by row = (if tr_outcome row = ''ok'' then Some ((tr_backend row, tr_model row), tr_load_ms row) else None)"

definition with_warm :: "operation \<Rightarrow> api_error + json \<Rightarrow> api_error + json" where
  "with_warm op result =
     (case result of
        Inl e \<Rightarrow> Inl e
      | Inr v \<Rightarrow> Inr (if op = Warm then jset ''warm'' (completion_receipt (jindex v ''execution'')) v else v))"

record exec_env =
  xe_len :: "json \<Rightarrow> nat"
  xe_policy :: scope_policy
  xe_msg :: "scope_error \<Rightarrow> string"
  xe_ceiling :: duration
  xe_ttl :: duration
  xe_now :: instant
  xe_lease_id :: string
  xe_polls :: "exec_poll list"
  xe_measured :: nat
  xe_seconds :: nat
  xe_before_commit :: "managed \<Rightarrow> managed"
  xe_late :: bool
  xe_commit_now :: instant
  xe_wall :: nat
  xe_expired :: bool
  xe_duration :: nat

record execution =
  ex_result :: "api_error + json"
  ex_row :: "task_record option"
  ex_served :: "(model_key \<times> nat) option"
  ex_before :: managed
  ex_state :: managed

definition execution_start :: "exec_env \<Rightarrow> job_progress option \<Rightarrow> managed_task \<Rightarrow> duration option \<Rightarrow> managed \<Rightarrow> exec_task \<times> managed" where
  "execution_start env progress t timeout \<sigma> =
     (let inp = scoped_input progress t
      in case scope_prepare (xe_len env) (xe_policy env) (xe_now env) (xe_lease_id env) inp (mg_store \<sigma>) of
           (prepared, store) \<Rightarrow>
             (\<lparr>xt_prepared = map_sum id snd prepared,
               xt_session = ri_session_id (route_after (xe_policy env) (xe_now env) inp (mg_store \<sigma>)),
               xt_progress = progress, xt_deadline = execution_deadline (xe_now env) timeout progress\<rparr>,
              \<sigma>\<lparr>mg_store := store\<rparr>))"

definition lease_of :: "exec_task \<Rightarrow> scope_lease option" where
  "lease_of x = (case xt_prepared x of Inr l \<Rightarrow> l | Inl e \<Rightarrow> None)"

definition execution_row :: "exec_env \<Rightarrow> job_progress option \<Rightarrow> managed_task \<Rightarrow> managed \<Rightarrow> api_error + json \<Rightarrow> task_record" where
  "execution_row env progress t \<sigma> result =
     (let route = route_after (xe_policy env) (xe_now env) (scoped_input progress t) (mg_store \<sigma>)
      in task_row result (xe_seconds env) (xe_measured env) (task_as_str (ri_task route)) (priority_str (mt_priority t))
           (ri_model route))"

definition execution_end ::
  "exec_env \<Rightarrow> managed_task \<Rightarrow> exec_task \<Rightarrow> task_record \<Rightarrow> api_error + json \<Rightarrow> nat option \<Rightarrow> managed \<Rightarrow> execution" where
  "execution_end env t x row result signal \<sigma> =
     (case settle_scope (xe_len env) (xe_policy env) (xe_msg env) (xe_commit_now env) (xe_wall env) (xe_late env)
             (xe_expired env) (lease_of x) (xt_session x) (map_option fst (xt_progress x)) signal result \<sigma> of
        (outcome, \<sigma>') \<Rightarrow>
          (let row' = (settled_row result outcome row)\<lparr>tr_duration_ms := xe_duration env\<rparr>
           in \<lparr>ex_result = with_warm (mi_operation t) outcome, ex_row = Some row', ex_served = served_by row',
               ex_before = \<sigma>, ex_state = \<sigma>'\<rparr>))"

definition execute_task :: "exec_env \<Rightarrow> job_progress option \<Rightarrow> managed_task \<Rightarrow> managed \<Rightarrow> execution option" where
  "execute_task env progress t \<sigma> =
     (case execution_timeout (xe_ceiling env) t of
        Inl e \<Rightarrow> Some \<lparr>ex_result = Inl e, ex_row = None, ex_served = None, ex_before = \<sigma>, ex_state = \<sigma>\<rparr>
      | Inr timeout \<Rightarrow>
          (case execution_start env progress t timeout \<sigma> of
             (x, \<sigma>1) \<Rightarrow>
               map_option
                 (\<lambda>(result, signal, \<sigma>2).
                    execution_end env t x (execution_row env progress t \<sigma> result) result signal (xe_before_commit env \<sigma>2))
                 (exec_race (xe_msg env) (xe_ttl env) x Starting (xe_polls env) \<sigma>1)))"

section \<open>Deferred tasks\<close>

definition submitted_job :: "string \<Rightarrow> nat \<Rightarrow> duration \<Rightarrow> managed_task \<Rightarrow> job" where
  "submitted_job ident wall timeout t =
     new_job ident (ri_task (ti_route t)) (mt_priority t) (ri_model (ti_route t)) wall (timeout div 1000000000)"

text \<open>The progress handed to the worker, the input it runs, and the receipt of the caller.\<close>

definition submit_task ::
  "instant \<Rightarrow> duration \<Rightarrow> duration \<Rightarrow> nat \<Rightarrow> string \<Rightarrow> nat \<Rightarrow> managed_task \<Rightarrow> managed \<Rightarrow>
   (api_error + job_progress \<times> managed_task \<times> json) \<times> managed" where
  "submit_task now ttl ceiling input_bytes ident wall t \<sigma> =
     (case require_active_session now ttl (ri_session_id (ti_route t)) (mg_sessions \<sigma>) of
        (Inl e, a) \<Rightarrow> (Inl session_missing, \<sigma>\<lparr>mg_sessions := a\<rparr>)
      | (Inr _, a) \<Rightarrow>
          (case task_deadline ceiling (mt_timeout_seconds t) of
             None \<Rightarrow> (Inl zero_timeout, \<sigma>\<lparr>mg_sessions := a\<rparr>)
           | Some d \<Rightarrow>
               (case job_submit now input_bytes (submitted_job ident wall d t) (mg_jobs \<sigma>) of
                  (Inl e, r) \<Rightarrow> (Inl e, \<sigma>\<lparr>mg_sessions := a, mg_jobs := r\<rparr>)
                | (Inr addr, r) \<Rightarrow>
                    (Inr ((addr, now + d), t\<lparr>mt_defer := False, mt_timeout_seconds := Some (d div 1000000000)\<rparr>,
                          job_receipt False (submitted_job ident wall d t)),
                     \<sigma>\<lparr>mg_sessions := a, mg_jobs := r\<rparr>))))"

text \<open>The supervisor: a worker that panicked is a failed task, and the registry hears of every end.\<close>

definition worker_outcome :: "string \<Rightarrow> execution option \<Rightarrow> api_error + json" where
  "worker_outcome panic x =
     (case x of
        None \<Rightarrow> Inl (with_code ''task_job_worker_failed'' (api_new 500 panic))
      | Some x \<Rightarrow> ex_result x)"

definition worker_finished :: "(json \<Rightarrow> nat) \<Rightarrow> instant \<Rightarrow> nat \<Rightarrow> api_error + json \<Rightarrow> managed \<Rightarrow> managed" where
  "worker_finished len now addr outcome \<sigma> =
     \<sigma>\<lparr>mg_jobs := with_job addr (\<lambda>j. (job_finish len now outcome j)\<lparr>j_done := True\<rparr>) (mg_jobs \<sigma>)\<rparr>"

end
