(* ===== verification/Execute_Run.thy ===== *)
theory Execute_Run
  imports Execute
begin

text \<open>
  The facts about \<open>Execute\<close>: a task that ends has released its scope, appended to it exactly when it succeeded, and
  left one row that says how it ended; and a task with a deadline ends.
\<close>

section \<open>The lease is released\<close>

definition lease_free :: "scope_lease \<Rightarrow> scope_store \<Rightarrow> bool" where
  "lease_free l m = (case bt_get m (sl_id l) of None \<Rightarrow> True | Some h \<Rightarrow> h_lease h \<noteq> Some (sl_lease_id l))"

lemma lease_drop_free [simp]: "lease_free l (lease_drop l m)"
  by (auto simp: lease_free_def lease_drop_def split: option.split)

lemma scope_commit_free: "scope_commit len p now wall expired result l m = (r, m') \<Longrightarrow> lease_free l m'"
  by (auto simp: scope_commit_def Let_def split: sum.splits prod.splits)

lemma commit_completion_free:
  "commit_scoped_completion len p msg now wall late expired value l sid progress channel \<sigma> = (r, \<sigma>') \<Longrightarrow>
   lease_free l (mg_store \<sigma>')"
  by (auto simp: commit_scoped_completion_def abandon_def dest: scope_commit_free split: if_splits prod.splits sum.splits)

text \<open>What a settlement does to a scope whose lease it holds.\<close>

definition settlement ::
  "scope_lease \<Rightarrow> api_error + json \<Rightarrow> managed \<Rightarrow> managed \<Rightarrow> bool" where
  "settlement l outcome \<sigma> \<sigma>' \<longleftrightarrow> lease_free l (mg_store \<sigma>') \<and>
     (case outcome of
        Inl e \<Rightarrow> same_history (mg_store \<sigma>) (mg_store \<sigma>') \<and> mg_sessions \<sigma>' = mg_sessions \<sigma> \<and> mg_jobs \<sigma>' = mg_jobs \<sigma>
      | Inr v \<Rightarrow> (\<exists>answer h. bt_get (mg_store \<sigma>') (sl_id l) = Some h \<and> h_messages h = sl_messages l @ [answer]))"

lemma commit_completion_settles:
  assumes "commit_scoped_completion len p msg now wall late expired value l sid progress channel \<sigma> = (r, \<sigma>')"
    and "bt_wf (mg_store \<sigma>)"
  shows "settlement l r \<sigma> \<sigma>'"
proof (cases r)
  case (Inl e)
  then show ?thesis
    using assms(1) commit_completion_free [OF assms(1)] same_history_drop same_history_commit [OF assms(2)]
    by (auto simp: settlement_def commit_scoped_completion_def abandon_def split: if_splits prod.splits sum.splits)
next
  case (Inr v)
  then have "scope_commit len p now wall expired value l (mg_store \<sigma>) = (Inr v, mg_store \<sigma>')"
    using assms(1) by (auto simp: commit_scoped_completion_def split: if_splits prod.splits sum.splits)
  from commit_success [OF this] show ?thesis
    using Inr commit_completion_free [OF assms(1)] by (auto simp: settlement_def)
qed

lemma settle_scope_settles:
  assumes "settle_scope len p msg now wall late expired (Some l) sid progress signal result \<sigma> = (outcome, \<sigma>')"
    and "bt_wf (mg_store \<sigma>)"
  shows "settlement l outcome \<sigma> \<sigma>'"
proof (cases result)
  case (Inl e)
  then show ?thesis using assms(1) by (auto simp: settle_scope_def settlement_def abandon_def same_history_drop)
next
  case (Inr v)
  then show ?thesis using assms(1) commit_completion_settles [OF _ assms(2)] by (simp add: settle_scope_def)
qed

section \<open>The row\<close>

definition row_tells :: "task_record \<Rightarrow> api_error + json \<Rightarrow> bool" where
  "row_tells row outcome \<longleftrightarrow>
     (case outcome of
        Inl e \<Rightarrow> tr_outcome row = ''error'' \<and> tr_status row = ae_status e
      | Inr v \<Rightarrow> tr_outcome row = ''ok'' \<and> tr_status row = 200)"

lemma task_row_tells: "row_tells (task_row result now duration task priority requested) result"
  by (auto simp: row_tells_def task_row_def Let_def split: sum.split)

lemma settled_row_tells:
  assumes "row_tells row result" "isl result \<longrightarrow> outcome = result"
  shows "row_tells (settled_row result outcome row) outcome"
  using assms by (auto simp: row_tells_def settled_row_def split: sum.splits)

lemma settle_keeps_error:
  "settle_scope len p msg now wall late expired lease sid progress signal (Inl e) \<sigma> = (outcome, \<sigma>') \<Longrightarrow> outcome = Inl e"
  by (auto simp: settle_scope_def split: option.splits)

lemma served_ok: "row_tells row outcome \<Longrightarrow> served_by row \<noteq> None \<longleftrightarrow> \<not> isl outcome"
  by (auto simp: served_by_def row_tells_def split: sum.splits)

lemma row_tells_duration [simp]: "row_tells (row\<lparr>tr_duration_ms := d\<rparr>) outcome = row_tells row outcome"
  by (cases outcome) (simp_all add: row_tells_def)

lemma with_warm_kind: "row_tells row (with_warm op outcome) = row_tells row outcome" "isl (with_warm op outcome) = isl outcome"
  by (auto simp: with_warm_def row_tells_def split: sum.split)

lemma settlement_warm: "settlement l (with_warm op outcome) = settlement l outcome"
  by (auto simp: settlement_def with_warm_def fun_eq_iff split: sum.split)

section \<open>The whole task\<close>

lemma execute_task_cases:
  assumes "execute_task env progress t \<sigma> = Some x"
  obtains (refused) e where "mt_timeout_seconds t = Some 0" "ex_result x = Inl e" "ex_row x = None" "ex_state x = \<sigma>"
  | (ran) timeout y \<sigma>1 result signal \<sigma>2 where "execution_start env progress t timeout \<sigma> = (y, \<sigma>1)"
      "exec_race (xe_msg env) (xe_ttl env) y Starting (xe_polls env) \<sigma>1 = Some (result, signal, \<sigma>2)"
      "x = execution_end env t y (execution_row env progress t \<sigma> result) result signal (xe_before_commit env \<sigma>2)"
      "mt_timeout_seconds t \<noteq> Some 0"
proof (cases "execution_timeout (xe_ceiling env) t")
  case (Inl e)
  then have "mt_timeout_seconds t = Some 0"
    by (auto simp: execution_timeout_def task_deadline_def split: option.splits if_splits)
  then show ?thesis using refused assms Inl by (auto simp: execute_task_def)
next
  case (Inr timeout)
  obtain y \<sigma>1 where y: "execution_start env progress t timeout \<sigma> = (y, \<sigma>1)" by fastforce
  have "mt_timeout_seconds t \<noteq> Some 0" using Inr by (auto simp: execution_timeout_def task_deadline_def)
  then show ?thesis using assms Inr y ran [OF y] by (auto simp: execute_task_def)
qed

lemma execution_end_row:
  assumes "x = execution_end env t y row result signal \<sigma>" "row_tells row result"
  shows "\<exists>r. ex_row x = Some r \<and> row_tells r (ex_result x) \<and> ex_served x = served_by r"
proof -
  obtain outcome \<sigma>' where settle: "settle_scope (xe_len env) (xe_policy env) (xe_msg env) (xe_commit_now env) (xe_wall env)
      (xe_late env) (xe_expired env) (lease_of y) (xt_session y) (map_option fst (xt_progress y)) signal result \<sigma> = (outcome, \<sigma>')"
    by fastforce
  have "isl result \<longrightarrow> outcome = result" using settle by (cases result) (auto dest: settle_keeps_error)
  then have "row_tells (settled_row result outcome row) outcome" by (rule settled_row_tells [OF assms(2)])
  then show ?thesis by (simp add: assms(1) execution_end_def settle Let_def with_warm_kind)
qed

lemma execution_end_settles:
  assumes "x = execution_end env t y row result signal \<sigma>" "lease_of y = Some l" "bt_wf (mg_store \<sigma>)"
  shows "settlement l (ex_result x) (ex_before x) (ex_state x)"
proof -
  obtain outcome \<sigma>' where settle: "settle_scope (xe_len env) (xe_policy env) (xe_msg env) (xe_commit_now env) (xe_wall env)
      (xe_late env) (xe_expired env) (lease_of y) (xt_session y) (map_option fst (xt_progress y)) signal result \<sigma> = (outcome, \<sigma>')"
    by fastforce
  show ?thesis using settle_scope_settles [OF settle [unfolded assms(2)] assms(3)] settle
    by (simp add: assms(1) execution_end_def Let_def settlement_warm)
qed

lemma execution_start_lease:
  assumes "execution_start env progress t timeout \<sigma> = (y, \<sigma>1)"
    and "scope_prepare (xe_len env) (xe_policy env) (xe_now env) (xe_lease_id env) (scoped_input progress t) (mg_store \<sigma>) =
      (Inr (inp, Some l), m)"
  shows "lease_of y = Some l"
  using assms by (auto simp: execution_start_def Let_def lease_of_def)


section \<open>A task with a deadline ends\<close>

fun gotos_left :: "exec_phase \<Rightarrow> nat" where
  "gotos_left Starting = 2"
| "gotos_left (Signalled s) = 1"
| "gotos_left (Working s c) = 0"

lemma work_poll_goto: "work_poll msg ttl t x phase \<sigma> = (Goto phase', \<sigma>') \<Longrightarrow> gotos_left phase = Suc (gotos_left phase')"
  by (cases phase) (auto split: sum.splits option.splits if_splits prod.splits)

lemma exec_race_ends:
  assumes "xt_deadline t = Some d"
  shows "gotos_left phase < length (filter (\<lambda>x. d \<le> xp_now x) xs) \<Longrightarrow> exec_race msg ttl t phase xs \<sigma> \<noteq> None"
proof (induction xs arbitrary: phase \<sigma>)
  case (Cons x xs)
  obtain o1 \<sigma>' where poll: "work_poll msg ttl t x phase (xp_env x \<sigma>) = (o1, \<sigma>')" by fastforce
  show ?case
  proof (cases o1)
    case (Goto phase')
    then have "gotos_left phase' < length (filter (\<lambda>x. d \<le> xp_now x) xs)"
      using work_poll_goto [of msg ttl t x phase] poll Cons.prems by (auto split: if_splits)
    then show ?thesis using Cons.IH poll Goto by simp
  qed (use Cons poll assms in \<open>auto simp: deadline_passed_def split: if_splits\<close>)
qed simp

text \<open>
  C40: A task with a deadline returns. When it has a time limit of its own, or a scope, or only loads, three polls at or
  after its deadline are enough for its execution to end, whatever the work, the locks and the other tasks do.
\<close>

theorem execution_meets_its_deadline:
  assumes "execution_timeout (xe_ceiling env) t = Inr (Some d)"
    and "execution_deadline (xe_now env) (Some d) progress = Some deadline"
    and "3 \<le> length (filter (\<lambda>x. deadline \<le> xp_now x) (xe_polls env))"
  shows "\<exists>x. execute_task env progress t \<sigma> = Some x \<and> ex_row x \<noteq> None"
proof -
  obtain y \<sigma>1 where y: "execution_start env progress t (Some d) \<sigma> = (y, \<sigma>1)" by fastforce
  then have "xt_deadline y = Some deadline" using assms(2) by (auto simp: execution_start_def Let_def split: prod.splits)
  from exec_race_ends [OF this, of Starting "xe_polls env"] assms(3)
  obtain result signal \<sigma>2 where race:
    "exec_race (xe_msg env) (xe_ttl env) y Starting (xe_polls env) \<sigma>1 = Some (result, signal, \<sigma>2)" by fastforce
  have "ex_row (execution_end env t y row result signal \<sigma>3) \<noteq> None" for row \<sigma>3
    by (simp add: execution_end_def Let_def split: prod.split)
  then show ?thesis by (simp add: execute_task_def assms(1) y race)
qed

section \<open>Deferred tasks\<close>

text \<open>A worker that has ended, panicked or not, is a terminal job whose waiters are told.\<close>

lemma worker_finished_ends:
  assumes "addr < length (jr_heap (mg_jobs \<sigma>))"
  shows "terminal (j_status (job_at (mg_jobs (worker_finished len now addr (worker_outcome panic x) \<sigma>)) addr)) \<and>
    cancel_returns (job_at (mg_jobs (worker_finished len now addr (worker_outcome panic x) \<sigma>)) addr)"
proof -
  have "terminal (j_status (job_finish len now r j))" for r :: "api_error + json" and j
    by (auto simp: job_finish_def terminal_def finish_status_def Let_def split: sum.split)
  then show ?thesis using assms by (simp add: worker_finished_def with_job_def job_at_def cancel_returns_def)
qed

section \<open>Examples\<close>

definition sample_task :: managed_task where
  "sample_task = \<lparr>ti_route = route_input_default, ti_route_fields = {}, ti_scope_id = Some [],
     ti_scope_revision = Some 0, ti_messages = [sample_message ''user''], ti_prompt = None, ti_images = None,
     ti_input = None, ti_deferred = False, mi_operation = Generate, mi_tools = None, mi_keep_alive = None,
     mi_request_options = \<lparr>ro_format = None, ro_think = None, ro_options = None, ro_logprobs = None, ro_top_logprobs = None\<rparr>,
     mi_stop_on_repetition = False, mt_priority = Normal, mt_max_wait_seconds = None, mt_timeout_seconds = None,
     mt_defer = False\<rparr>"

definition sample_poll :: "instant \<Rightarrow> (api_error + json) option \<Rightarrow> exec_poll" where
  "sample_poll now work = \<lparr>xp_env = (\<lambda>\<sigma>. \<sigma>), xp_now = now, xp_fresh = True, xp_lock = True, xp_work = work\<rparr>"

definition sample_env :: "exec_poll list \<Rightarrow> exec_env" where
  "sample_env polls = \<lparr>xe_len = (\<lambda>_. 3), xe_policy = scope_policy_default, xe_msg = (\<lambda>_. []), xe_ceiling = 100,
     xe_ttl = 1000, xe_now = 2, xe_lease_id = ''u'', xe_polls = polls, xe_measured = 5, xe_seconds = 9,
     xe_before_commit = (\<lambda>\<sigma>. \<sigma>), xe_late = False, xe_commit_now = 2, xe_wall = 2, xe_expired = False, xe_duration = 6\<rparr>"

definition sample_managed :: managed where
  "sample_managed = \<lparr>mg_store = [([], sample_scope 0 [] None)], mg_sessions = aff_new, mg_jobs = \<lparr>jr_entries = [], jr_heap = []\<rparr>\<rparr>"

definition answered_polls :: "exec_poll list" where
  "answered_polls = [sample_poll 2 None, sample_poll 2 None, sample_poll 3 (Some (Inr sample_result))]"

lemma sample_task_prepared:
  "\<exists>inp. scope_prepare (\<lambda>_. 3) scope_policy_default 2 ''u'' (scoped_input None sample_task) [([], sample_scope 0 [] None)] =
     (Inr (inp, Some sample_lease), [([], sample_scope 0 [] (Some ''u''))])"
  by (simp add: scope_prepare_def prepare_history_def scoped_input_def sample_task_def task_input.defs sample_scope_def scope_eval
      defaults_apply_def merged_route_def defaulted_def task_additions_def sample_message_def valid_message_def
      limits_bounded_def route_input_default_def sample_lease_def jindex_def)

lemma sample_session: "ri_session_id (route_after scope_policy_default 2 (scoped_input None sample_task) [([], sample_scope 0 [] None)]) = None"
  by (simp add: route_after_def scoped_input_def sample_task_def task_input.defs sample_scope_def scope_eval merged_route_def
      defaulted_def route_input_default_def)

lemma sample_started:
  "\<exists>y. execution_start (sample_env polls) None sample_task (Some 100) sample_managed =
      (y, sample_managed\<lparr>mg_store := [([], sample_scope 0 [] (Some ''u''))]\<rparr>) \<and>
    xt_prepared y = Inr (Some sample_lease) \<and> xt_session y = None \<and> xt_progress y = None \<and> xt_deadline y = Some 102"
  using sample_task_prepared sample_session
  by (auto simp: execution_start_def sample_env_def sample_managed_def execution_deadline_def)

lemma sample_timeout: "execution_timeout 100 sample_task = Inr (Some 100)"
  by (simp add: execution_timeout_def sample_task_def)

lemma sample_executed:
  "\<exists>x. execute_task (sample_env answered_polls) None sample_task sample_managed = Some x \<and>
     ex_before x = sample_managed\<lparr>mg_store := [([], sample_scope 0 [] (Some ''u''))]\<rparr> \<and> \<not> isl (ex_result x)"
proof -
  let ?\<sigma> = "sample_managed\<lparr>mg_store := [([], sample_scope 0 [] (Some ''u''))]\<rparr>"
  obtain y where start: "execution_start (sample_env answered_polls) None sample_task (Some 100) sample_managed = (y, ?\<sigma>)"
    and y: "xt_prepared y = Inr (Some sample_lease)" "xt_session y = None" "xt_progress y = None" "xt_deadline y = Some 102"
    using sample_started by blast
  have race: "exec_race msg ttl y Starting answered_polls ?\<sigma> = Some (Inr sample_result, None, ?\<sigma>)" for msg ttl
    by (simp add: answered_polls_def sample_poll_def y cancelled_job_def guard_register_def guard_poll_def)
  have "\<exists>v \<sigma>'. commit_scoped_completion (\<lambda>_. 3) scope_policy_default (\<lambda>_. []) 2 2 False False sample_result sample_lease None None
      None ?\<sigma> = (Inr v, \<sigma>')"
    using sample_committed by (auto simp: commit_scoped_completion_def)
  then have "ex_before (execution_end (sample_env answered_polls) sample_task y row (Inr sample_result) None ?\<sigma>) = ?\<sigma> \<and>
      \<not> isl (ex_result (execution_end (sample_env answered_polls) sample_task y row (Inr sample_result) None ?\<sigma>))" for row
    by (auto simp: execution_end_def settle_scope_def lease_of_def y Let_def with_warm_kind sample_env_def)
  moreover have "xe_ceiling (sample_env p) = 100" "xe_polls (sample_env p) = p" "xe_before_commit (sample_env p) = (\<lambda>\<sigma>. \<sigma>)" for p
    by (simp_all add: sample_env_def)
  ultimately show ?thesis by (simp add: execute_task_def sample_timeout start race)
qed


lemma execution_meets_its_deadline_witness:
  "\<exists>x. execute_task (sample_env [sample_poll 2 None, sample_poll 102 None, sample_poll 103 None, sample_poll 104 None])
     None sample_task sample_managed = Some x \<and> ex_row x \<noteq> None"
proof -
  let ?env = "sample_env [sample_poll 2 None, sample_poll 102 None, sample_poll 103 None, sample_poll 104 None]"
  have "execution_timeout (xe_ceiling ?env) sample_task = Inr (Some 100)" using sample_timeout by (simp add: sample_env_def)
  moreover have "execution_deadline (xe_now ?env) (Some 100) None = Some 102" by (simp add: sample_env_def execution_deadline_def)
  moreover have "3 \<le> length (filter (\<lambda>x. 102 \<le> xp_now x) (xe_polls ?env))" by (simp add: sample_env_def sample_poll_def)
  ultimately show ?thesis by (rule execution_meets_its_deadline)
qed

end
