(* ===== verification/Spec2Isabelle.thy ===== *)
theory Spec2Isabelle
  imports Admission_Fair Raw_Admission Upstream_Retry Breaker Repetition Routing_Correct Completion
    Governor_Run Adaptive_Run Feedback_Store Residency_Run Streaming Request_Run Settings_Reload Batch Footprint_Run
    Telemetry_Restart Prometheus Config Pipeline_Run Readiness
    Catalog_Run Policy_Eval_Run Sampling_Run Select_Run Execute_Run
begin

text \<open>
  A model of FreeLlama's Rust core (\<open>src/packages/rust-core/src\<close>), a managed front of Ollama.
  A managed task is routed to an installed model, charged against the admission pool of its backend,
  admitted against the host's memory, forwarded with bounded retries behind a circuit breaker, and
  its answer may be committed to a history scope or a deferred job. A raw request passes through the
  proxy behind a limit of its own.

  Every theory holds one component: first its data and operations, translated function by function
  in the order of the source, then (in the same theory or in one named with a suffix such as \<open>_Run\<close>,
  \<open>_Fair\<close> or \<open>_Order\<close>) the facts about them. A critical section of a lock is one operation; the
  interleavings are lists of such operations, and what the environment does in between (answers,
  clocks, the order of tasks) is an argument. Errors are the left summand of a sum, records stand for
  structs, and naturals with their bound written out for the unsigned integers.

  \<^item> \<open>FL_Prelude\<close>: saturating and wrapping naturals at the code's widths, comparators, first
    positions, sorted association lists for \<open>BTreeMap\<close>, results as sums, and the locale of runs
    of a step function with an invariant. \<open>FL_Json\<close>: documents and their accessors. \<open>FL_F64\<close>: IEEE
    double precision on bit patterns. \<open>FL_Text\<close>: the standard library on strings, as lists of UTF-8
    bytes. \<open>FL_Error\<close>: \<open>platform/error.rs\<close>.
  \<^item> \<open>Admission\<close>, \<open>Admission_Run\<close>, \<open>Admission_Fair\<close>: \<open>platform/admission.rs\<close>. The ledger of charged units
    is exact in every interleaving, grants never overcommit the limit in force, and a waiter or a
    class is overtaken only boundedly often.
  \<^item> \<open>Raw_Admission\<close>: \<open>proxy/admission.rs\<close>. \<open>Upstream_Retry\<close>: \<open>proxy/retry.rs\<close>, the forward path of
    \<open>proxy/mod.rs\<close> and \<open>send_with_retries\<close>. \<open>Breaker\<close>: \<open>platform/runtime/breaker.rs\<close> with its two call
    sites.
  \<^item> \<open>Repetition\<close>: \<open>platform/repetition.rs\<close>; the scan finds a loop exactly when a period qualifies.
    \<open>Streaming\<close>: the reader of a streamed answer in \<open>execution/upstream.rs\<close>; how the network cuts the
    bytes does not matter.
  \<^item> \<open>Capability\<close>, \<open>Sessions\<close>, \<open>Routing\<close>, \<open>Routing_Correct\<close>: \<open>capability.rs\<close>, \<open>platform/loops.rs\<close>,
    \<open>platform/sessions.rs\<close>, \<open>platform/routing.rs\<close>; what is routed satisfies the request and is
    maximal for the comparison.
  \<^item> \<open>Scopes\<close>, \<open>Scopes_Run\<close>, \<open>Scopes_Leases\<close>, \<open>Jobs\<close>, \<open>Jobs_Run\<close>, \<open>Completion\<close>: \<open>platform/scopes.rs\<close>,
    \<open>platform/jobs.rs\<close> and \<open>commit_scoped_completion\<close>; appends lose no update, jobs end once, and a
    completion is committed everywhere or nowhere. \<open>Execute\<close>, \<open>Execute_Run\<close>: \<open>execute_task\<close> and \<open>submit\<close>;
    whatever ends a task first, its scope is released and one row tells how it ended.
  \<^item> \<open>Resources\<close>, \<open>Governor\<close>, \<open>Governor_Run\<close>: \<open>platform/resources\<close>; holds and their hysteresis, the
    reservation counter under interleaving, the wait for memory. \<open>Sampling\<close>, \<open>Sampling_Host\<close>,
    \<open>Sampling_Run\<close>: \<open>resources/sampling.rs\<close> and \<open>device_activity.rs\<close>; a sample is plausible whatever the
    tools print, and the limit of a container bounds what is found to fit.
  \<^item> \<open>Adaptive\<close>, \<open>Adaptive_Run\<close>: \<open>platform/runtime/adaptive.rs\<close> and \<open>execution/admit.rs\<close>.
  \<^item> \<open>Select\<close>, \<open>Select_Run\<close>: \<open>execution/select.rs\<close>; a managed decision is coherent, and its placement has the
    reason it reports.
  \<^item> \<open>Feedback\<close>, \<open>Feedback_Run\<close>, \<open>Feedback_Store\<close>: \<open>platform/feedback.rs\<close> and its callers under \<open>execution\<close>; the learned
    statistics keep their representation and survive a restart. \<open>Footprint\<close>, \<open>Footprint_Run\<close>:
    \<open>platform/footprint.rs\<close>; measured sizes and their interleaved snapshots.
  \<^item> \<open>Residency\<close>, \<open>Residency_Run\<close>: \<open>platform/residency.rs\<close>; eviction plans spare what is in use, and the
    exact search is optimal. \<open>Memory\<close>, \<open>Memory_Run\<close>: \<open>execution/memory.rs\<close>; eviction and reservation
    around one task, over an arbitrary environment.
  \<^item> \<open>Request\<close>, \<open>Request_Run\<close>: \<open>execution/request.rs\<close> and \<open>platform/context.rs\<close>; the body that is sent and
    its window. \<open>Warming\<close>: \<open>platform/warming.rs\<close>; keep-alive values in IEEE arithmetic.
  \<^item> \<open>Settings\<close>, \<open>Settings_Run\<close>, \<open>Settings_Reload\<close>: \<open>platform/runtime\<close>; every layer of every setting, and
    reloads under interleaving. \<open>Net\<close>, \<open>Config\<close>: \<open>net.rs\<close>, \<open>auth.rs\<close>, \<open>bearer.rs\<close>, \<open>timeouts.rs\<close> and the
    two configurations with their validation. \<open>Ollama_Env\<close>: \<open>platform/ollama_env.rs\<close>; which process
    serves an endpoint and which source a setting has.
  \<^item> \<open>Batch\<close>: the batch handler of \<open>platform/tasks_api.rs\<close>. \<open>Pipeline\<close>, \<open>Pipeline_Run\<close>:
    \<open>execution/pipeline.rs\<close>, the protocol of slot, memory, transition lock and revalidation for any
    number of tasks. \<open>Readiness\<close>: \<open>platform/readiness.rs\<close>.
  \<^item> \<open>Calendar\<close>, \<open>Calendar_Order\<close>, \<open>Telemetry\<close>, \<open>Telemetry_Run\<close>, \<open>Telemetry_Usage\<close>, \<open>Telemetry_Restart\<close>,
    \<open>Prometheus\<close>: \<open>platform/telemetry\<close>; days, counters, the ledger file, its queue and its replay, and
    the exported text.
  \<^item> \<open>Catalog\<close>, \<open>Catalog_Run\<close>: \<open>platform/catalog.rs\<close>; the catalog does not depend on the order of the
    lookups, and concurrent misses share one fill. \<open>Policy_Eval\<close>, \<open>Policy_Eval_Run\<close>:
    \<open>platform/policy_eval.rs\<close> and the loaders of \<open>platform/discovery.rs\<close>; a qualified model has its
    evidence, and thin evidence never routes.

  Termination and bounds. Loops over data are structural. The batch loop is a partial function whose
  termination is proved for every oracle of completions that names a running worker; keeping days,
  splitting a text into words and trimming it have measures. Loops that wait run on the list of their
  rounds: the wait for memory on one snapshot per round, the retry loop on the attempts left, which
  \<open>MAX_ATTEMPTS\<close> bounds, the release of an evicted runner on its polls, of which at most 25 fit in its
  five seconds, and a bounded command on its looks at the child, the first of which at or after the
  deadline ends it. A task of the pipeline makes at most twelve moves, which is the measure that ends
  every run of the protocol.

  Not modelled: sockets, files, clocks and operating-system tools (their results are arguments), the
  parsers of TOML and of URLs and the printing of floats and documents (parameters, with what is used
  of them as hypotheses), the text of messages and receipts where nothing branches on it, the reports
  of the doctor and of the monitor, the benchmark runner, the assembly of the server, the command line
  and the bindings.
\<close>

end
